(* ===== verification/Prelude.thy ===== *)
theory Prelude
  imports Main "HOL-Library.Word"
begin

text \<open>
  Shared vocabulary of the development: the machine integers of the C sources, the
  outcome type of operations that may abort or run into undefined behaviour, byte
  buffers that are written in place, little-endian integers, and the generic lemmas on
  lists and words the components use.
\<close>

unbundle bit_operations_syntax

named_theorems outcome_simps \<open>evaluation of sequenced operations\<close>
named_theorems buffer_simps \<open>lengths and contents of byte buffers\<close>

section \<open>Machine integers\<close>

type_synonym u8 = "8 word"
type_synonym u16 = "16 word"
type_synonym u32 = "32 word"
type_synonym u64 = "64 word"

text \<open>
  C's division and remainder on signed integers truncate towards zero. The sources divide
  signed values only where both operands are non-negative, where this agrees with
  \<^const>\<open>divide\<close>; the ceiling division below is the macro \<open>DIV_ROUND_UP\<close> (exfat.h).
\<close>

definition div_round_up :: "nat \<Rightarrow> nat \<Rightarrow> nat" where
  "div_round_up x d = (x + d - 1) div d"

definition round_up :: "nat \<Rightarrow> nat \<Rightarrow> nat" where
  "round_up x d = div_round_up x d * d"

lemma div_round_up_0 [simp]: "0 < d \<Longrightarrow> div_round_up 0 d = 0"
  by (simp add: div_round_up_def)

lemma div_round_up_covers:
  assumes "0 < d" shows "x \<le> div_round_up x d * d"
proof -
  have "x + d - 1 < ((x + d - 1) div d) * d + d"
    using assms by (metis add.commute dividend_less_div_times)
  then show ?thesis unfolding div_round_up_def using assms by linarith
qed

lemma div_round_up_tight:
  assumes "0 < d" "0 < x" shows "(div_round_up x d - 1) * d < x"
proof -
  have "((x + d - 1) div d) * d \<le> x + d - 1" by (rule div_times_less_eq_dividend)
  moreover have "0 < (x + d - 1) div d" using assms by (simp add: div_greater_zero_iff)
  then have "((x + d - 1) div d - 1) * d + d = ((x + d - 1) div d) * d"
    by (metis Suc_diff_1 add.commute mult_Suc)
  ultimately show ?thesis
    unfolding div_round_up_def using assms by linarith
qed

lemma div_round_up_unique:
  assumes "0 < d" "(n - 1) * d < x" "x \<le> n * d" "0 < n"
  shows "div_round_up x d = n"
proof -
  have 1: "x + d - 1 < (n + 1) * d" using assms by (simp add: algebra_simps)
  have "(n - 1) * d + d = n * d"
    using assms(4) by (metis Suc_diff_1 add.commute mult_Suc)
  then have 2: "n * d \<le> x + d - 1" using assms(2) by linarith
  have "(x + d - 1) div d < n + 1" using 1 by (simp add: less_mult_imp_div_less)
  moreover have "n \<le> (x + d - 1) div d" using 2 assms(1) by (simp add: less_eq_div_iff_mult_less_eq)
  ultimately show ?thesis unfolding div_round_up_def by simp
qed

lemma unat_bound: "unat (w :: 'a :: len word) < 2 ^ LENGTH('a)"
  by (rule unsigned_less)

section \<open>Outcomes\<close>

text \<open>
  An operation either returns, with its result and the changed state, or the process does
  not get that far: \<open>Abort\<close> is a call of \<open>exfat_bug\<close> (log.c), which prints and calls
  \<open>abort()\<close>; \<open>Undef\<close> is a step the C standard leaves undefined (a null or dangling
  pointer, an access outside an array); \<open>OutOfFuel\<close> ends a traversal of a pointer
  structure that did not end within the number of nodes ever allocated. Error codes the
  code returns are ordinary results.
\<close>

datatype fault = Abort | Undef | OutOfFuel

definition andThen :: "fault + 'a \<Rightarrow> ('a \<Rightarrow> fault + 'b) \<Rightarrow> fault + 'b" where
  "andThen r k = (case r of Inl e \<Rightarrow> Inl e | Inr x \<Rightarrow> k x)"

lemma andThen_Inl [simp, outcome_simps]: "andThen (Inl e) k = Inl e"
  by (simp add: andThen_def)

lemma andThen_Inr [simp, outcome_simps]: "andThen (Inr x) k = k x"
  by (simp add: andThen_def)

lemma andThen_eq_Inr [outcome_simps]:
  "andThen r k = Inr y \<longleftrightarrow> (\<exists>x. r = Inr x \<and> k x = Inr y)"
  by (cases r) auto

lemma andThen_eq_Inl [outcome_simps]:
  "andThen r k = Inl e \<longleftrightarrow> r = Inl e \<or> (\<exists>x. r = Inr x \<and> k x = Inl e)"
  by (cases r) auto

lemma andThen_cong [fundef_cong]:
  "r = r' \<Longrightarrow> (\<And>x. r' = Inr x \<Longrightarrow> k x = k' x) \<Longrightarrow> andThen r k = andThen r' k'"
  by (cases r') auto

lemma andThen_assoc: "andThen (andThen r f) g = andThen r (\<lambda>x. andThen (f x) g)"
  by (cases r) auto

text \<open>What holds of the result, if there is one.\<close>

definition post :: "('a \<Rightarrow> bool) \<Rightarrow> fault + 'a \<Rightarrow> bool" where
  "post P r \<longleftrightarrow> (case r of Inl _ \<Rightarrow> True | Inr x \<Rightarrow> P x)"

lemma post_simps [simp]: "post P (Inl e)" "post P (Inr x) = P x"
  by (simp_all add: post_def)

lemma post_bind: "post Q r \<Longrightarrow> (\<And>x. Q x \<Longrightarrow> post P (k x)) \<Longrightarrow> post P (andThen r k)"
  by (cases r) simp_all

lemma post_weaken: "post Q r \<Longrightarrow> (\<And>x. Q x \<Longrightarrow> P x) \<Longrightarrow> post P r"
  by (cases r) simp_all

lemma post_any: "(\<And>x. post P (k x)) \<Longrightarrow> post P (andThen r k)"
  by (cases r) simp_all

lemma postD: "post P r \<Longrightarrow> r = Inr x \<Longrightarrow> P x"
  by simp

section \<open>Byte buffers\<close>

text \<open>
  \<open>memcpy\<close> of \<open>bs\<close> to offset \<open>off\<close> of a buffer that is large enough; \<open>splice\<close> never
  changes the length of the buffer.
\<close>

definition overlay :: "nat \<Rightarrow> 'a list \<Rightarrow> 'a list \<Rightarrow> 'a list" where
  "overlay off bs buf = take off buf @ take (length buf - off) bs @ drop (off + length bs) buf"

definition slice_of :: "nat \<Rightarrow> nat \<Rightarrow> 'a list \<Rightarrow> 'a list" where
  "slice_of off n buf = take n (drop off buf)"

lemma length_overlay [simp, buffer_simps]: "length (overlay off bs buf) = length buf"
  by (simp add: overlay_def)

lemma length_slice_of [simp, buffer_simps]:
  "length (slice_of off n buf) = min n (length buf - off)"
  by (simp add: slice_of_def min.commute)

lemma nth_overlay [buffer_simps]:
  "i < length buf \<Longrightarrow>
   overlay off bs buf ! i = (if off \<le> i \<and> i < off + length bs then bs ! (i - off) else buf ! i)"
  by (auto simp: overlay_def nth_append min_def)

lemma nth_slice_of [buffer_simps]:
  "i < n \<Longrightarrow> off + i < length buf \<Longrightarrow> slice_of off n buf ! i = buf ! (off + i)"
  by (simp add: slice_of_def)

lemma slice_overlay_same [buffer_simps]:
  "off + length bs \<le> length buf \<Longrightarrow> slice_of off (length bs) (overlay off bs buf) = bs"
  by (simp add: slice_of_def overlay_def)

lemma slice_overlay_other [buffer_simps]:
  assumes "off + n \<le> off' \<or> off' + length bs \<le> off"
  shows "slice_of off n (overlay off' bs buf) = slice_of off n buf"
  by (rule nth_equalityI) (use assms in \<open>auto simp: nth_slice_of nth_overlay\<close>)

section \<open>Strings with separators\<close>

fun split_at :: "'a \<Rightarrow> 'a list \<Rightarrow> 'a list list" where
  "split_at d [] = [[]]"
| "split_at d (x # xs) = (if x = d then [] # split_at d xs
     else (case split_at d xs of [] \<Rightarrow> [[x]] | w # ws \<Rightarrow> (x # w) # ws))"

lemma split_at_not_Nil [simp]: "split_at d xs \<noteq> []"
  by (induction xs) (auto split: list.splits)

lemma split_at_word: "d \<notin> set w \<Longrightarrow> split_at d w = [w]"
  by (induction w) auto

lemma split_at_append: "d \<notin> set w \<Longrightarrow> split_at d (w @ d # xs) = w # split_at d xs"
  by (induction w) auto

section \<open>Little-endian integers (byteorder.h)\<close>

text \<open>
  \<open>le16_t\<close>, \<open>le32_t\<close> and \<open>le64_t\<close> hold the bytes of an on-disk integer, least significant
  first; \<open>le_val\<close> is the number they stand for and \<open>le_bytes\<close> the bytes of a number.
\<close>

primrec le_val :: "u8 list \<Rightarrow> nat" where
  "le_val [] = 0"
| "le_val (b # bs) = unat b + 256 * le_val bs"

primrec le_bytes :: "nat \<Rightarrow> nat \<Rightarrow> u8 list" where
  "le_bytes 0 v = []"
| "le_bytes (Suc k) v = word_of_nat v # le_bytes k (v div 256)"

lemma length_le_bytes [simp, buffer_simps]: "length (le_bytes k v) = k"
  by (induction k arbitrary: v) auto

lemma le_val_bytes: "le_val (le_bytes k v) = v mod 256 ^ k"
proof (induction k arbitrary: v)
  case 0
  then show ?case by simp
next
  case (Suc k)
  have "unat (word_of_nat v :: u8) = v mod 256" by (simp add: unat_of_nat)
  then show ?case using Suc mod_mult2_eq[of v 256 "256 ^ k"] by (simp add: algebra_simps)
qed

lemma le_val_bound: "le_val bs < 256 ^ length bs"
proof (induction bs)
  case Nil
  then show ?case by simp
next
  case (Cons b bs)
  have "unat b < 256" using unat_bound[of b] by simp
  with Cons show ?case by simp
qed

lemma u8_256: "(256 :: u8) = 0"
  by (simp add: word_uint_eq_iff)

lemma le_bytes_val: "le_bytes (length bs) (le_val bs) = bs"
proof (induction bs)
  case Nil
  then show ?case by simp
next
  case (Cons b bs)
  have b: "unat b < 256" using unat_bound[of b] by simp
  then have "(unat b + 256 * le_val bs) div 256 = le_val bs" by simp
  moreover have "(word_of_nat (unat b + 256 * le_val bs) :: u8) = b"
    by (simp add: u8_256)
  ultimately show ?case using Cons by simp
qed

definition le16_to_cpu :: "u8 list \<Rightarrow> u16" where
  "le16_to_cpu bs = word_of_nat (le_val bs)"

definition le32_to_cpu :: "u8 list \<Rightarrow> u32" where
  "le32_to_cpu bs = word_of_nat (le_val bs)"

definition le64_to_cpu :: "u8 list \<Rightarrow> u64" where
  "le64_to_cpu bs = word_of_nat (le_val bs)"

definition cpu_to_le16 :: "u16 \<Rightarrow> u8 list" where
  "cpu_to_le16 w = le_bytes 2 (unat w)"

definition cpu_to_le32 :: "u32 \<Rightarrow> u8 list" where
  "cpu_to_le32 w = le_bytes 4 (unat w)"

definition cpu_to_le64 :: "u64 \<Rightarrow> u8 list" where
  "cpu_to_le64 w = le_bytes 8 (unat w)"

lemma length_cpu_to_le [simp, buffer_simps]:
  "length (cpu_to_le16 a) = 2" "length (cpu_to_le32 b) = 4" "length (cpu_to_le64 c) = 8"
  by (simp_all add: cpu_to_le16_def cpu_to_le32_def cpu_to_le64_def)

lemma le16_cpu_inverse [simp]: "le16_to_cpu (cpu_to_le16 w) = w"
  using unat_bound[of w] by (simp add: le16_to_cpu_def cpu_to_le16_def le_val_bytes)

lemma le32_cpu_inverse [simp]: "le32_to_cpu (cpu_to_le32 w) = w"
  using unat_bound[of w] by (simp add: le32_to_cpu_def cpu_to_le32_def le_val_bytes)

lemma le64_cpu_inverse [simp]: "le64_to_cpu (cpu_to_le64 w) = w"
  using unat_bound[of w] by (simp add: le64_to_cpu_def cpu_to_le64_def le_val_bytes)

lemma cpu_le16_inverse: "length bs = 2 \<Longrightarrow> cpu_to_le16 (le16_to_cpu bs) = bs"
  using le_val_bound[of bs] le_bytes_val[of bs]
  by (simp add: le16_to_cpu_def cpu_to_le16_def unat_of_nat)

lemma cpu_le32_inverse: "length bs = 4 \<Longrightarrow> cpu_to_le32 (le32_to_cpu bs) = bs"
  using le_val_bound[of bs] le_bytes_val[of bs]
  by (simp add: le32_to_cpu_def cpu_to_le32_def unat_of_nat)

lemma cpu_le64_inverse: "length bs = 8 \<Longrightarrow> cpu_to_le64 (le64_to_cpu bs) = bs"
  using le_val_bound[of bs] le_bytes_val[of bs]
  by (simp add: le64_to_cpu_def cpu_to_le64_def unat_of_nat)

section \<open>Bits of words\<close>

lemma bit_small: "(w :: 'a :: len word) < 2 ^ k \<Longrightarrow> bit w n \<Longrightarrow> n < k"
proof (rule ccontr)
  assume w: "w < 2 ^ k" and b: "bit w n" and n: "\<not> n < k"
  have "n < LENGTH('a)" using b by (rule bit_imp_le_length)
  with n have k: "k < LENGTH('a)" by simp
  have "w = take_bit k w" using w k by (metis less_mask_eq take_bit_eq_mask)
  then have "\<not> bit w n" using n by (metis bit_take_bit_iff)
  then show False using b by simp
qed

text \<open>A constant with one run of set bits.\<close>

lemma bit_run:
  "c = push_bit a (mask k) \<Longrightarrow>
   bit (c :: 'a :: len word) n \<longleftrightarrow> n < LENGTH('a) \<and> a \<le> n \<and> n < a + k"
  by (auto simp: bit_push_bit_iff bit_mask_iff)

end
