(* ===== verification/Layout.thy ===== *)
theory Layout
  imports Prelude
begin

text \<open>
  The on-disk structures of \<open>exfatfs.h\<close>: the super block as a record with its byte
  encoding, directory entries as the 32 bytes they are, with one accessor per field of the
  packed structs the code casts them to, and the constants of the header.
\<close>

section \<open>Cluster numbers\<close>

type_synonym cluster_t = u32

abbreviation EXFAT_FIRST_DATA_CLUSTER :: cluster_t where "EXFAT_FIRST_DATA_CLUSTER \<equiv> 2"
abbreviation EXFAT_CLUSTER_FREE :: cluster_t where "EXFAT_CLUSTER_FREE \<equiv> 0"
abbreviation EXFAT_CLUSTER_BAD :: cluster_t where "EXFAT_CLUSTER_BAD \<equiv> 0xfffffff7"
abbreviation EXFAT_CLUSTER_END :: cluster_t where "EXFAT_CLUSTER_END \<equiv> 0xffffffff"
abbreviation EXFAT_STATE_MOUNTED :: u16 where "EXFAT_STATE_MOUNTED \<equiv> 2"

section \<open>The super block\<close>

record exfat_super_block =
  sb_jump :: "u8 list"
  sb_oem_name :: "u8 list"
  sb_unused1 :: "u8 list"
  sb_sector_start :: u64
  sb_sector_count :: u64
  sb_fat_sector_start :: u32
  sb_fat_sector_count :: u32
  sb_cluster_sector_start :: u32
  sb_cluster_count :: u32
  sb_rootdir_cluster :: u32
  sb_volume_serial :: u32
  sb_version_minor :: u8
  sb_version_major :: u8
  sb_volume_state :: u16
  sb_sector_bits :: u8
  sb_spc_bits :: u8
  sb_fat_count :: u8
  sb_drive_no :: u8
  sb_allocated_percent :: u8
  sb_unused2 :: "u8 list"
  sb_boot_signature :: u16

definition decode_super_block :: "u8 list \<Rightarrow> exfat_super_block" where
  "decode_super_block b = \<lparr>
     sb_jump = slice_of 0 3 b,
     sb_oem_name = slice_of 3 8 b,
     sb_unused1 = slice_of 11 53 b,
     sb_sector_start = le64_to_cpu (slice_of 64 8 b),
     sb_sector_count = le64_to_cpu (slice_of 72 8 b),
     sb_fat_sector_start = le32_to_cpu (slice_of 80 4 b),
     sb_fat_sector_count = le32_to_cpu (slice_of 84 4 b),
     sb_cluster_sector_start = le32_to_cpu (slice_of 88 4 b),
     sb_cluster_count = le32_to_cpu (slice_of 92 4 b),
     sb_rootdir_cluster = le32_to_cpu (slice_of 96 4 b),
     sb_volume_serial = le32_to_cpu (slice_of 100 4 b),
     sb_version_minor = b ! 104,
     sb_version_major = b ! 105,
     sb_volume_state = le16_to_cpu (slice_of 106 2 b),
     sb_sector_bits = b ! 108,
     sb_spc_bits = b ! 109,
     sb_fat_count = b ! 110,
     sb_drive_no = b ! 111,
     sb_allocated_percent = b ! 112,
     sb_unused2 = slice_of 113 397 b,
     sb_boot_signature = le16_to_cpu (slice_of 510 2 b) \<rparr>"

definition encode_super_block :: "exfat_super_block \<Rightarrow> u8 list" where
  "encode_super_block s =
     sb_jump s @ sb_oem_name s @ sb_unused1 s @
     cpu_to_le64 (sb_sector_start s) @ cpu_to_le64 (sb_sector_count s) @
     cpu_to_le32 (sb_fat_sector_start s) @ cpu_to_le32 (sb_fat_sector_count s) @
     cpu_to_le32 (sb_cluster_sector_start s) @ cpu_to_le32 (sb_cluster_count s) @
     cpu_to_le32 (sb_rootdir_cluster s) @ cpu_to_le32 (sb_volume_serial s) @
     [sb_version_minor s, sb_version_major s] @ cpu_to_le16 (sb_volume_state s) @
     [sb_sector_bits s, sb_spc_bits s, sb_fat_count s, sb_drive_no s,
      sb_allocated_percent s] @ sb_unused2 s @ cpu_to_le16 (sb_boot_signature s)"

text \<open>The arrays of a super block have the sizes the struct declares.\<close>

definition super_block_wf :: "exfat_super_block \<Rightarrow> bool" where
  "super_block_wf s \<longleftrightarrow> length (sb_jump s) = 3 \<and> length (sb_oem_name s) = 8 \<and>
     length (sb_unused1 s) = 53 \<and> length (sb_unused2 s) = 397"

lemma length_encode_super_block [simp]:
  "super_block_wf s \<Longrightarrow> length (encode_super_block s) = 512"
  by (simp add: encode_super_block_def super_block_wf_def)

lemma slice_of_append [buffer_simps]:
  "slice_of off n (xs @ ys) =
   (if length xs \<le> off then slice_of (off - length xs) n ys
    else if off + n \<le> length xs then slice_of off n xs
    else drop off xs @ take (n - (length xs - off)) ys)"
  by (auto simp: slice_of_def)

lemma slice_of_all: "length xs = n \<Longrightarrow> slice_of 0 n xs = xs"
  by (simp add: slice_of_def)

lemma slice_of_numeral_Cons [buffer_simps]:
  "slice_of (numeral k) n (x # xs) = slice_of (pred_numeral k) n xs"
  "slice_of (Suc j) n (x # xs) = slice_of j n xs"
  by (simp_all add: slice_of_def)

lemma decode_encode_super_block:
  "super_block_wf s \<Longrightarrow> decode_super_block (encode_super_block s) = s"
  by (simp add: decode_super_block_def encode_super_block_def super_block_wf_def
      slice_of_append slice_of_all nth_append slice_of_numeral_Cons)

lemma decode_super_block_wf: "length b = 512 \<Longrightarrow> super_block_wf (decode_super_block b)"
  by (simp add: super_block_wf_def decode_super_block_def)

text \<open>Adjacent slices join, which puts the encoding of a decoded structure together again.\<close>

lemma slice_join:
  "c = a + m \<Longrightarrow> slice_of a m b @ slice_of c n b = slice_of a (m + n) b"
  by (simp add: slice_of_def take_add add.commute)

lemma slice_join_append:
  "c = a + m \<Longrightarrow> slice_of a m b @ slice_of c n b @ xs = slice_of a (m + n) b @ xs"
  by (simp add: slice_join flip: append_assoc)

lemma slice_single: "i < length b \<Longrightarrow> b ! i # xs = slice_of i 1 b @ xs"
  by (simp add: slice_of_def take_Suc hd_drop_conv_nth)

lemma encode_decode_super_block:
  "length b = 512 \<Longrightarrow> encode_super_block (decode_super_block b) = b"
  by (simp add: encode_super_block_def decode_super_block_def
      cpu_le64_inverse cpu_le32_inverse cpu_le16_inverse slice_single
      slice_join_append slice_join slice_of_all)

section \<open>Directory entries\<close>

abbreviation EXFAT_ENTRY_VALID :: u8 where "EXFAT_ENTRY_VALID \<equiv> 0x80"
abbreviation EXFAT_ENTRY_CONTINUED :: u8 where "EXFAT_ENTRY_CONTINUED \<equiv> 0x40"
abbreviation EXFAT_ENTRY_OPTIONAL :: u8 where "EXFAT_ENTRY_OPTIONAL \<equiv> 0x20"
abbreviation EXFAT_ENTRY_BITMAP :: u8 where "EXFAT_ENTRY_BITMAP \<equiv> 0x81"
abbreviation EXFAT_ENTRY_UPCASE :: u8 where "EXFAT_ENTRY_UPCASE \<equiv> 0x82"
abbreviation EXFAT_ENTRY_LABEL :: u8 where "EXFAT_ENTRY_LABEL \<equiv> 0x83"
abbreviation EXFAT_ENTRY_FILE :: u8 where "EXFAT_ENTRY_FILE \<equiv> 0x85"
abbreviation EXFAT_ENTRY_FILE_INFO :: u8 where "EXFAT_ENTRY_FILE_INFO \<equiv> 0xC0"
abbreviation EXFAT_ENTRY_FILE_NAME :: u8 where "EXFAT_ENTRY_FILE_NAME \<equiv> 0xC1"
abbreviation EXFAT_ENTRY_FILE_TAIL :: u8 where "EXFAT_ENTRY_FILE_TAIL \<equiv> 0xE0"

abbreviation EXFAT_ENAME_MAX :: nat where "EXFAT_ENAME_MAX \<equiv> 15"
abbreviation EXFAT_NAME_MAX :: nat where "EXFAT_NAME_MAX \<equiv> 255"
abbreviation EXFAT_UPCASE_CHARS :: nat where "EXFAT_UPCASE_CHARS \<equiv> 65536"

abbreviation EXFAT_ATTRIB_RO :: u16 where "EXFAT_ATTRIB_RO \<equiv> 0x01"
abbreviation EXFAT_ATTRIB_DIR :: u16 where "EXFAT_ATTRIB_DIR \<equiv> 0x10"
abbreviation EXFAT_ATTRIB_ARCH :: u16 where "EXFAT_ATTRIB_ARCH \<equiv> 0x20"
abbreviation EXFAT_FLAG_ALWAYS1 :: u8 where "EXFAT_FLAG_ALWAYS1 \<equiv> 1"
abbreviation EXFAT_FLAG_CONTIGUOUS :: u8 where "EXFAT_FLAG_CONTIGUOUS \<equiv> 2"

text \<open>The flag combinations of the header are the numbers above.\<close>

lemma entry_type_values:
  "EXFAT_ENTRY_BITMAP = 0x01 OR EXFAT_ENTRY_VALID"
  "EXFAT_ENTRY_UPCASE = 0x02 OR EXFAT_ENTRY_VALID"
  "EXFAT_ENTRY_LABEL = 0x03 OR EXFAT_ENTRY_VALID"
  "EXFAT_ENTRY_FILE = 0x05 OR EXFAT_ENTRY_VALID"
  "EXFAT_ENTRY_FILE_INFO = 0x00 OR EXFAT_ENTRY_VALID OR EXFAT_ENTRY_CONTINUED"
  "EXFAT_ENTRY_FILE_NAME = 0x01 OR EXFAT_ENTRY_VALID OR EXFAT_ENTRY_CONTINUED"
  "EXFAT_ENTRY_FILE_TAIL = 0x00 OR EXFAT_ENTRY_VALID OR EXFAT_ENTRY_CONTINUED OR EXFAT_ENTRY_OPTIONAL"
  by simp_all

text \<open>
  An entry is 32 bytes; the code casts a pointer to it to the struct its type byte names.
  A field is read and written at its offset in the packed struct.
\<close>

type_synonym exfat_entry = "u8 list"

definition get16 :: "nat \<Rightarrow> exfat_entry \<Rightarrow> u16" where
  "get16 off e = le16_to_cpu (slice_of off 2 e)"

definition get32 :: "nat \<Rightarrow> exfat_entry \<Rightarrow> u32" where
  "get32 off e = le32_to_cpu (slice_of off 4 e)"

definition get64 :: "nat \<Rightarrow> exfat_entry \<Rightarrow> u64" where
  "get64 off e = le64_to_cpu (slice_of off 8 e)"

definition put8 :: "nat \<Rightarrow> u8 \<Rightarrow> exfat_entry \<Rightarrow> exfat_entry" where
  "put8 off v e = overlay off [v] e"

definition put16 :: "nat \<Rightarrow> u16 \<Rightarrow> exfat_entry \<Rightarrow> exfat_entry" where
  "put16 off v e = overlay off (cpu_to_le16 v) e"

definition put32 :: "nat \<Rightarrow> u32 \<Rightarrow> exfat_entry \<Rightarrow> exfat_entry" where
  "put32 off v e = overlay off (cpu_to_le32 v) e"

definition put64 :: "nat \<Rightarrow> u64 \<Rightarrow> exfat_entry \<Rightarrow> exfat_entry" where
  "put64 off v e = overlay off (cpu_to_le64 v) e"

lemma length_put [simp, buffer_simps]:
  "length (put8 off v8 e) = length e" "length (put16 off v16 e) = length e"
  "length (put32 off v32 e) = length e" "length (put64 off v64 e) = length e"
  by (simp_all add: put8_def put16_def put32_def put64_def)

lemma get_put_same [buffer_simps]:
  "off + 2 \<le> length e \<Longrightarrow> get16 off (put16 off v16 e) = v16"
  "off + 4 \<le> length e \<Longrightarrow> get32 off (put32 off v32 e) = v32"
  "off + 8 \<le> length e \<Longrightarrow> get64 off (put64 off v64 e) = v64"
  "off < length e \<Longrightarrow> put8 off v8 e ! off = v8"
  using slice_overlay_same[of off "cpu_to_le16 v16" e]
    slice_overlay_same[of off "cpu_to_le32 v32" e] slice_overlay_same[of off "cpu_to_le64 v64" e]
  by (simp_all add: get16_def put16_def get32_def put32_def get64_def put64_def
      put8_def nth_overlay)

lemma nth_put8_other [buffer_simps]:
  "i \<noteq> off \<Longrightarrow> i < length e \<Longrightarrow> put8 off v e ! i = e ! i"
  by (auto simp: put8_def nth_overlay)

lemma nth_put_other [buffer_simps]:
  "i < off \<or> off + 2 \<le> i \<Longrightarrow> i < length e \<Longrightarrow> put16 off v16 e ! i = e ! i"
  "i < off \<or> off + 4 \<le> i \<Longrightarrow> i < length e \<Longrightarrow> put32 off v32 e ! i = e ! i"
  "i < off \<or> off + 8 \<le> i \<Longrightarrow> i < length e \<Longrightarrow> put64 off v64 e ! i = e ! i"
  by (auto simp: put16_def put32_def put64_def nth_overlay)

lemma slice_of_put_other [buffer_simps]:
  "a + n \<le> off \<or> off + 1 \<le> a \<Longrightarrow> slice_of a n (put8 off v8 e) = slice_of a n e"
  "a + n \<le> off \<or> off + 2 \<le> a \<Longrightarrow> slice_of a n (put16 off v16 e) = slice_of a n e"
  "a + n \<le> off \<or> off + 4 \<le> a \<Longrightarrow> slice_of a n (put32 off v32 e) = slice_of a n e"
  "a + n \<le> off \<or> off + 8 \<le> a \<Longrightarrow> slice_of a n (put64 off v64 e) = slice_of a n e"
  by (simp_all add: put8_def put16_def put32_def put64_def slice_overlay_other)

lemma get_put_other [buffer_simps]:
  "a + 2 \<le> off \<or> off + 1 \<le> a \<Longrightarrow> get16 a (put8 off v8 e) = get16 a e"
  "a + 2 \<le> off \<or> off + 2 \<le> a \<Longrightarrow> get16 a (put16 off v16 e) = get16 a e"
  "a + 2 \<le> off \<or> off + 4 \<le> a \<Longrightarrow> get16 a (put32 off v32 e) = get16 a e"
  "a + 2 \<le> off \<or> off + 8 \<le> a \<Longrightarrow> get16 a (put64 off v64 e) = get16 a e"
  "a + 4 \<le> off \<or> off + 1 \<le> a \<Longrightarrow> get32 a (put8 off v8 e) = get32 a e"
  "a + 4 \<le> off \<or> off + 2 \<le> a \<Longrightarrow> get32 a (put16 off v16 e) = get32 a e"
  "a + 4 \<le> off \<or> off + 4 \<le> a \<Longrightarrow> get32 a (put32 off v32 e) = get32 a e"
  "a + 4 \<le> off \<or> off + 8 \<le> a \<Longrightarrow> get32 a (put64 off v64 e) = get32 a e"
  "a + 8 \<le> off \<or> off + 1 \<le> a \<Longrightarrow> get64 a (put8 off v8 e) = get64 a e"
  "a + 8 \<le> off \<or> off + 2 \<le> a \<Longrightarrow> get64 a (put16 off v16 e) = get64 a e"
  "a + 8 \<le> off \<or> off + 4 \<le> a \<Longrightarrow> get64 a (put32 off v32 e) = get64 a e"
  "a + 8 \<le> off \<or> off + 8 \<le> a \<Longrightarrow> get64 a (put64 off v64 e) = get64 a e"
  by (simp_all add: get16_def get32_def get64_def slice_of_put_other)

abbreviation entry_type :: "exfat_entry \<Rightarrow> u8" where "entry_type e \<equiv> e ! 0"

text \<open>\<open>struct exfat_entry_meta1\<close>: file or directory info, part 1.\<close>

definition meta1_continuations :: "exfat_entry \<Rightarrow> u8" where "meta1_continuations e = e ! 1"
definition meta1_checksum :: "exfat_entry \<Rightarrow> u16" where "meta1_checksum = get16 2"
definition meta1_attrib :: "exfat_entry \<Rightarrow> u16" where "meta1_attrib = get16 4"
definition meta1_mtime :: "exfat_entry \<Rightarrow> u16" where "meta1_mtime = get16 12"
definition meta1_mdate :: "exfat_entry \<Rightarrow> u16" where "meta1_mdate = get16 14"
definition meta1_atime :: "exfat_entry \<Rightarrow> u16" where "meta1_atime = get16 16"
definition meta1_adate :: "exfat_entry \<Rightarrow> u16" where "meta1_adate = get16 18"
definition meta1_mtime_cs :: "exfat_entry \<Rightarrow> u8" where "meta1_mtime_cs e = e ! 21"

text \<open>\<open>struct exfat_entry_meta2\<close>: file or directory info, part 2.\<close>

definition meta2_flags :: "exfat_entry \<Rightarrow> u8" where "meta2_flags e = e ! 1"
definition meta2_name_length :: "exfat_entry \<Rightarrow> u8" where "meta2_name_length e = e ! 3"
definition meta2_name_hash :: "exfat_entry \<Rightarrow> u16" where "meta2_name_hash = get16 4"
definition meta2_valid_size :: "exfat_entry \<Rightarrow> u64" where "meta2_valid_size = get64 8"
definition meta2_start_cluster :: "exfat_entry \<Rightarrow> u32" where "meta2_start_cluster = get32 20"
definition meta2_size :: "exfat_entry \<Rightarrow> u64" where "meta2_size = get64 24"

text \<open>
  \<open>struct exfat_entry_name\<close> and \<open>struct exfat_entry_label\<close> keep 15 UTF-16 units from byte 2;
  the bitmap and upcase entries keep a first cluster and a size in bytes.
\<close>

definition entry_name :: "exfat_entry \<Rightarrow> u16 list" where
  "entry_name e = map (\<lambda>i. get16 (2 + 2 * i) e) [0..<EXFAT_ENAME_MAX]"

definition label_length :: "exfat_entry \<Rightarrow> u8" where "label_length e = e ! 1"
definition bitmap_start_cluster :: "exfat_entry \<Rightarrow> u32" where "bitmap_start_cluster = get32 20"
definition bitmap_size :: "exfat_entry \<Rightarrow> u64" where "bitmap_size = get64 24"
definition upcase_start_cluster :: "exfat_entry \<Rightarrow> u32" where "upcase_start_cluster = get32 20"
definition upcase_size :: "exfat_entry \<Rightarrow> u64" where "upcase_size = get64 24"

lemmas entry_fields = meta1_continuations_def meta1_checksum_def meta1_attrib_def
  meta1_mtime_def meta1_mdate_def meta1_atime_def meta1_adate_def meta1_mtime_cs_def
  meta2_flags_def meta2_name_length_def meta2_name_hash_def meta2_valid_size_def
  meta2_start_cluster_def meta2_size_def label_length_def bitmap_start_cluster_def
  bitmap_size_def upcase_start_cluster_def upcase_size_def

text \<open>The bytes of a sequence of UTF-16 units (\<open>memcpy\<close> of a \<open>le16_t\<close> array).\<close>

definition units_bytes :: "u16 list \<Rightarrow> u8 list" where
  "units_bytes us = concat (map cpu_to_le16 us)"

lemma length_units_bytes [simp, buffer_simps]: "length (units_bytes us) = 2 * length us"
  by (induction us) (auto simp: units_bytes_def)

lemma slice_units_bytes:
  "i < length us \<Longrightarrow> slice_of (2 * i) 2 (units_bytes us) = cpu_to_le16 (us ! i)"
proof (induction us arbitrary: i)
  case Nil
  then show ?case by simp
next
  case (Cons u us)
  show ?case
  proof (cases i)
    case 0
    then show ?thesis by (simp add: units_bytes_def slice_of_append slice_of_all)
  next
    case (Suc j)
    then have "slice_of (2 * j) 2 (units_bytes us) = cpu_to_le16 (us ! j)"
      using Cons by simp
    then show ?thesis using Suc by (simp add: units_bytes_def slice_of_append)
  qed
qed

end
