(* ===== verification/Device.thy ===== *)
theory Device
  imports Layout
begin

text \<open>
  The device layer of \<open>io.c\<close>: positioned reads and writes on an open block device, and the
  laws its clients (the cluster map, the directory code, the mount code) rely on, stated as
  a locale and discharged for the model. The kernel's \<open>pread\<close> and \<open>pwrite\<close> are modelled by
  their documented behaviour: they fail, or transfer what lies inside the device.
\<close>

section \<open>Devices\<close>

datatype exfat_mode = EXFAT_MODE_RO | EXFAT_MODE_RW | EXFAT_MODE_ANY

record exfat_dev =
  dev_mode :: exfat_mode
  dev_size :: nat
  dev_bytes :: "nat \<Rightarrow> u8"
  dev_rd_err :: "nat \<Rightarrow> nat \<Rightarrow> bool"
  dev_wr_err :: "nat \<Rightarrow> nat \<Rightarrow> bool"
  dev_sync_err :: bool

text \<open>
  \<open>exfat_pread dev size offset\<close> is \<^const>\<open>None\<close> for a negative result and otherwise the bytes
  read, fewer than \<open>size\<close> at the end of the device. \<open>exfat_pwrite\<close> fails on a descriptor
  opened for reading and does not write past the end of the device.
\<close>

definition exfat_pread :: "exfat_dev \<Rightarrow> nat \<Rightarrow> int \<Rightarrow> u8 list option" where
  "exfat_pread d n off =
     (if off < 0 \<or> dev_rd_err d (nat off) n then None
      else Some (map (dev_bytes d) [nat off ..< min (nat off + n) (dev_size d)]))"

definition exfat_pwrite :: "exfat_dev \<Rightarrow> u8 list \<Rightarrow> int \<Rightarrow> exfat_dev option" where
  "exfat_pwrite d bs off =
     (if off < 0 \<or> dev_mode d \<noteq> EXFAT_MODE_RW \<or> dev_wr_err d (nat off) (length bs) then None
      else Some (d\<lparr>dev_bytes := (\<lambda>i. if nat off \<le> i \<and> i < nat off + length bs \<and> i < dev_size d
                                     then bs ! (i - nat off) else dev_bytes d i)\<rparr>))"

definition exfat_get_mode :: "exfat_dev \<Rightarrow> exfat_mode" where
  "exfat_get_mode d = dev_mode d"

definition exfat_get_size :: "exfat_dev \<Rightarrow> nat" where
  "exfat_get_size d = dev_size d"

text \<open>
  A read into a buffer of \<open>length buf\<close> bytes: a short read leaves the rest of the buffer as
  it was.
\<close>

definition pread_into :: "exfat_dev \<Rightarrow> u8 list \<Rightarrow> int \<Rightarrow> u8 list option" where
  "pread_into d buf off =
     map_option (\<lambda>bs. bs @ drop (length bs) buf) (exfat_pread d (length buf) off)"

definition readable :: "exfat_dev \<Rightarrow> bool" where
  "readable d \<longleftrightarrow> (\<forall>off n. \<not> dev_rd_err d off n)"

definition writable :: "exfat_dev \<Rightarrow> bool" where
  "writable d \<longleftrightarrow> dev_mode d = EXFAT_MODE_RW \<and> (\<forall>off n. \<not> dev_wr_err d off n)"

section \<open>The interface the file system uses\<close>

locale block_device =
  fixes pread :: "'d \<Rightarrow> nat \<Rightarrow> int \<Rightarrow> u8 list option"
    and pwrite :: "'d \<Rightarrow> u8 list \<Rightarrow> int \<Rightarrow> 'd option"
    and size_of :: "'d \<Rightarrow> nat"
    and no_rd_err :: "'d \<Rightarrow> bool"
    and no_wr_err :: "'d \<Rightarrow> bool"
  assumes read_length:
      "no_rd_err d \<Longrightarrow> 0 \<le> off \<Longrightarrow> nat off + n \<le> size_of d \<Longrightarrow> \<exists>bs. pread d n off = Some bs \<and> length bs = n"
    and write_succeeds: "no_wr_err d \<Longrightarrow> 0 \<le> off \<Longrightarrow> \<exists>d'. pwrite d bs off = Some d'"
    and read_written:
      "pwrite d bs off = Some d' \<Longrightarrow> no_rd_err d \<Longrightarrow> nat off + length bs \<le> size_of d \<Longrightarrow>
       pread d' (length bs) off = Some bs"
    and read_elsewhere:
      "pwrite d bs off = Some d' \<Longrightarrow> off' + int n \<le> off \<or> off + int (length bs) \<le> off' \<Longrightarrow>
       pread d' n off' = pread d n off'"
    and write_keeps:
      "pwrite d bs off = Some d' \<Longrightarrow>
       size_of d' = size_of d \<and> no_rd_err d' = no_rd_err d \<and> no_wr_err d' = no_wr_err d"
begin

text \<open>An array of fixed-size cells on the device behaves as an array.\<close>

lemma cell_written:
  assumes "pwrite d bs (base + int w * int i) = Some d'" "length bs = w" "no_rd_err d"
    and "0 \<le> base" "nat base + w * i + w \<le> size_of d"
  shows "pread d' w (base + int w * int i) = Some bs"
proof -
  have "nat (base + int w * int i) = nat base + w * i"
    using assms(4) by (simp add: nat_add_distrib nat_mult_distrib)
  then show ?thesis using read_written[OF assms(1,3)] assms(2,5) by simp
qed

lemma cell_other:
  assumes "pwrite d bs (base + int w * int i) = Some d'" "length bs = w" "i \<noteq> j"
  shows "pread d' w (base + int w * int j) = pread d w (base + int w * int j)"
proof (rule read_elsewhere[OF assms(1)])
  have "i + 1 \<le> j \<or> j + 1 \<le> i" using assms(3) by linarith
  then have "w * (i + 1) \<le> w * j \<or> w * (j + 1) \<le> w * i" by (metis mult_le_mono2)
  then have "int w * (int i + 1) \<le> int w * int j \<or> int w * (int j + 1) \<le> int w * int i"
    by (metis of_nat_1 of_nat_add of_nat_le_iff of_nat_mult)
  then show "base + int w * int j + int w \<le> base + int w * int i \<or>
      base + int w * int i + int (length bs) \<le> base + int w * int j"
    using assms(2) by (auto simp: algebra_simps)
qed

lemma write_then_write:
  assumes "pwrite d bs off = Some d'" "no_wr_err d" "0 \<le> off'"
  shows "\<exists>d''. pwrite d' bs' off' = Some d''"
  using assms write_keeps write_succeeds by blast

end

lemma pwrite_Some:
  "exfat_pwrite d bs off = Some d' \<longleftrightarrow>
   0 \<le> off \<and> dev_mode d = EXFAT_MODE_RW \<and> \<not> dev_wr_err d (nat off) (length bs) \<and>
   d' = d\<lparr>dev_bytes := (\<lambda>i. if nat off \<le> i \<and> i < nat off + length bs \<and> i < dev_size d
                             then bs ! (i - nat off) else dev_bytes d i)\<rparr>"
  by (auto simp: exfat_pwrite_def)

interpretation dev: block_device exfat_pread exfat_pwrite dev_size readable writable
proof unfold_locales
  fix d d' :: exfat_dev and off off' :: int and n :: nat and bs :: "u8 list"
  show "\<exists>bs. exfat_pread d n off = Some bs \<and> length bs = n"
    if "readable d" "0 \<le> off" "nat off + n \<le> dev_size d"
    using that by (simp add: exfat_pread_def readable_def)
  show "\<exists>d'. exfat_pwrite d bs off = Some d'" if "writable d" "0 \<le> off"
    using that by (simp add: exfat_pwrite_def writable_def)
  show "exfat_pread d' (length bs) off = Some bs"
    if "exfat_pwrite d bs off = Some d'" "readable d" "nat off + length bs \<le> dev_size d"
    using that by (auto simp: pwrite_Some exfat_pread_def readable_def intro: nth_equalityI)
  show "exfat_pread d' n off' = exfat_pread d n off'"
    if "exfat_pwrite d bs off = Some d'" "off' + int n \<le> off \<or> off + int (length bs) \<le> off'"
    using that by (auto simp: pwrite_Some exfat_pread_def)
  show "dev_size d' = dev_size d \<and> readable d' = readable d \<and> writable d' = writable d"
    if "exfat_pwrite d bs off = Some d'"
    using that by (auto simp: pwrite_Some readable_def writable_def)
qed

lemma pread_into_full:
  assumes "exfat_pread d (length buf) off = Some bs" "length bs = length buf"
  shows "pread_into d buf off = Some bs"
  using assms by (simp add: pread_into_def)

lemma length_pread_into: "pread_into d buf off = Some bs \<Longrightarrow> length bs = length buf"
  by (auto simp: pread_into_def exfat_pread_def split: if_splits)

lemma pread_into_elsewhere:
  assumes "exfat_pwrite d bs off = Some d'"
    and "off' + int (length buf) \<le> off \<or> off + int (length bs) \<le> off'"
  shows "pread_into d' buf off' = pread_into d buf off'"
  using dev.read_elsewhere[OF assms] by (simp add: pread_into_def)

end
