(* ===== verification/Bitmap.thy ===== *)
theory Bitmap
  imports Layout
begin

text \<open>
  The bitmap macros of \<open>exfat.h\<close> over an array of \<open>bitmap_t\<close>, which is \<open>size_t\<close> (64 bits) on
  a little-endian host, and the search of \<open>cluster.c\<close> for a clear bit. The search skips full
  words; it is shown to agree with testing every bit in turn.
\<close>

definition BMAP_SIZE :: "nat \<Rightarrow> nat" where
  "BMAP_SIZE count = round_up count 64 div 8"

definition BMAP_GET :: "u64 list \<Rightarrow> nat \<Rightarrow> bool" where
  "BMAP_GET bm i \<longleftrightarrow> bm ! (i div 64) AND push_bit (i mod 64) 1 \<noteq> 0"

definition BMAP_SET :: "u64 list \<Rightarrow> nat \<Rightarrow> u64 list" where
  "BMAP_SET bm i = bm[i div 64 := bm ! (i div 64) OR push_bit (i mod 64) 1]"

definition BMAP_CLR :: "u64 list \<Rightarrow> nat \<Rightarrow> u64 list" where
  "BMAP_CLR bm i = bm[i div 64 := bm ! (i div 64) AND NOT (push_bit (i mod 64) 1)]"

text \<open>The number of bits a bitmap has room for.\<close>

abbreviation bmap_room :: "u64 list \<Rightarrow> nat" where "bmap_room bm \<equiv> 64 * length bm"

section \<open>A set of numbered flags\<close>

locale flag_set =
  fixes get :: "'b \<Rightarrow> nat \<Rightarrow> bool"
    and set_flag :: "'b \<Rightarrow> nat \<Rightarrow> 'b"
    and clear_flag :: "'b \<Rightarrow> nat \<Rightarrow> 'b"
    and room :: "'b \<Rightarrow> nat"
  assumes get_set: "i < room b \<Longrightarrow> j < room b \<Longrightarrow> get (set_flag b i) j \<longleftrightarrow> j = i \<or> get b j"
    and get_clear: "i < room b \<Longrightarrow> j < room b \<Longrightarrow> get (clear_flag b i) j \<longleftrightarrow> j \<noteq> i \<and> get b j"
    and room_set: "room (set_flag b i) = room b"
    and room_clear: "room (clear_flag b i) = room b"
begin

lemma free_after_set:
  assumes "i < n" "n \<le> room b" "\<not> get b i"
  shows "card {j. j < n \<and> \<not> get b j} = Suc (card {j. j < n \<and> \<not> get (set_flag b i) j})"
proof -
  have "{j. j < n \<and> \<not> get b j} = insert i {j. j < n \<and> \<not> get (set_flag b i) j}"
    using assms by (auto simp: get_set)
  moreover have "i \<notin> {j. j < n \<and> \<not> get (set_flag b i) j}" using assms by (simp add: get_set)
  ultimately show ?thesis by simp
qed

lemma free_after_clear:
  assumes "i < n" "n \<le> room b" "get b i"
  shows "card {j. j < n \<and> \<not> get (clear_flag b i) j} = Suc (card {j. j < n \<and> \<not> get b j})"
proof -
  have "{j. j < n \<and> \<not> get (clear_flag b i) j} = insert i {j. j < n \<and> \<not> get b j}"
    using assms by (auto simp: get_clear)
  moreover have "i \<notin> {j. j < n \<and> \<not> get b j}" using assms by simp
  ultimately show ?thesis by simp
qed

lemma clear_undoes_set:
  assumes "i < room b" "j < room b" "\<not> get b i"
  shows "get (clear_flag (set_flag b i) i) j = get b j"
  using assms by (auto simp: get_set get_clear room_set)

end

lemma BMAP_GET_bit: "BMAP_GET bm i = bit (bm ! (i div 64)) (i mod 64)"
proof -
  have "(w AND push_bit k 1 \<noteq> 0) = bit w k" if "k < 64" for w :: u64 and k
  proof
    assume "w AND push_bit k 1 \<noteq> 0"
    then obtain n where "bit (w AND push_bit k 1) n" by (metis bit_0_eq bit_eqI bot_apply bot_bool_def)
    then show "bit w k" by (auto simp: bit_simps)
  next
    assume "bit w k"
    then have "bit (w AND push_bit k 1) k" using that by (simp add: bit_simps)
    then show "w AND push_bit k 1 \<noteq> 0" by auto
  qed
  from this[of "i mod 64"] show ?thesis by (simp add: BMAP_GET_def)
qed

lemma bmap_index_eq: "j div 64 = i div 64 \<Longrightarrow> j mod 64 = i mod 64 \<Longrightarrow> j = (i :: nat)"
  by (metis div_mult_mod_eq)

interpretation bmap: flag_set BMAP_GET BMAP_SET BMAP_CLR bmap_room
proof unfold_locales
  fix b :: "u64 list" and i j :: nat
  assume ij: "i < bmap_room b" "j < bmap_room b"
  then have "i div 64 < length b" "j div 64 < length b" by (simp_all add: less_mult_imp_div_less mult.commute)
  then show "BMAP_GET (BMAP_SET b i) j \<longleftrightarrow> j = i \<or> BMAP_GET b j"
    and "BMAP_GET (BMAP_CLR b i) j \<longleftrightarrow> j \<noteq> i \<and> BMAP_GET b j"
    using bmap_index_eq[of j i]
    by (cases "j div 64 = i div 64"; auto simp: BMAP_GET_bit BMAP_SET_def BMAP_CLR_def bit_simps)+
qed (simp_all add: BMAP_SET_def BMAP_CLR_def)

lemma length_BMAP [simp]: "length (BMAP_SET bm i) = length bm" "length (BMAP_CLR bm i) = length bm"
  by (simp_all add: BMAP_SET_def BMAP_CLR_def)

section \<open>Searching for a clear bit\<close>

text \<open>The inner loop of \<open>find_bit_and_set\<close>: \<open>n\<close> bits from \<open>c\<close>.\<close>

primrec find_clear_bit :: "u64 list \<Rightarrow> nat \<Rightarrow> nat \<Rightarrow> nat option" where
  "find_clear_bit bm c 0 = None"
| "find_clear_bit bm c (Suc n) = (if BMAP_GET bm c then find_clear_bit bm (Suc c) n else Some c)"

text \<open>The outer loop: \<open>k\<close> words from word \<open>i\<close>.\<close>

primrec scan_words :: "u64 list \<Rightarrow> nat \<Rightarrow> nat \<Rightarrow> nat \<Rightarrow> nat \<Rightarrow> fault + nat option" where
  "scan_words bm start stop i 0 = Inr None"
| "scan_words bm start stop i (Suc k) =
     (if i \<ge> length bm then Inl Undef
      else if bm ! i = NOT 0 then scan_words bm start stop (Suc i) k
      else let start_bitindex = max (i * 64) start; end_bitindex = min ((i + 1) * 64) stop in
           case find_clear_bit bm start_bitindex (end_bitindex - start_bitindex) of
             Some c \<Rightarrow> Inr (Some c)
           | None \<Rightarrow> scan_words bm start stop (Suc i) k)"

definition find_bit_and_set :: "u64 list \<Rightarrow> nat \<Rightarrow> nat \<Rightarrow> fault + (cluster_t \<times> u64 list)" where
  "find_bit_and_set bm start stop =
     andThen (scan_words bm start stop (start div 64) (div_round_up stop 64 - start div 64))
       (\<lambda>r. case r of
          Some c \<Rightarrow> Inr (word_of_nat c + EXFAT_FIRST_DATA_CLUSTER, BMAP_SET bm c)
        | None \<Rightarrow> Inr (EXFAT_CLUSTER_END, bm))"

lemma find_clear_bit_find:
  "find_clear_bit bm c n = find (\<lambda>i. \<not> BMAP_GET bm i) [c..<c + n]"
  by (induction n arbitrary: c) (simp_all add: upt_rec)

lemma full_word: "bm ! (i div 64) = NOT 0 \<Longrightarrow> BMAP_GET bm i"
  by (simp add: BMAP_GET_bit bit_simps)

lemma find_append: "find P (xs @ ys) = (case find P xs of Some x \<Rightarrow> Some x | None \<Rightarrow> find P ys)"
  by (induction xs) auto

lemma below_block: "q \<le> i \<Longrightarrow> s < q * 64 + 64 \<Longrightarrow> s < (i + 1) * (64 :: nat)"
  by simp

lemma scan_words_find:
  assumes "stop \<le> bmap_room bm" "start div 64 \<le> i" "stop \<le> (i + k) * 64"
    and "k = 0 \<or> i + k \<le> div_round_up stop 64"
  shows "scan_words bm start stop i k
       = Inr (find (\<lambda>c. \<not> BMAP_GET bm c) [max (i * 64) start..<stop])"
  using assms(2-)
proof (induction k arbitrary: i)
  case 0
  then show ?case by simp
next
  case (Suc k)
  let ?P = "\<lambda>c. \<not> BMAP_GET bm c"
  define a where "a = max (i * 64) start"
  define m where "m = min ((i + 1) * 64) stop"
  have "start < (i + 1) * 64"
    by (rule below_block[OF Suc.prems(1)]) (metis add.commute dividend_less_div_times zero_less_numeral)
  then have a: "a < (i + 1) * 64" unfolding a_def by simp
  have istop: "i * 64 < stop"
    using Suc.prems(3) unfolding div_round_up_def by linarith
  then have len: "i < length bm" using assms(1) by simp
  have next_a: "max (Suc i * 64) start = (i + 1) * 64" using \<open>start < (i + 1) * 64\<close> by simp
  have rest: "scan_words bm start stop (Suc i) k = Inr (find ?P [(i + 1) * 64..<stop])"
    using Suc.IH[of "Suc i"] Suc.prems next_a by auto
  have split: "find ?P [a..<stop] = (case find ?P [a..<m] of Some x \<Rightarrow> Some x
      | None \<Rightarrow> find ?P [(i + 1) * 64..<stop])"
  proof (cases "a \<le> m")
    case True
    then have "[a..<stop] = [a..<m] @ [m..<stop]" unfolding m_def
      by (metis min.cobounded2 upt_add_eq_append le_add_diff_inverse)
    moreover have "[m..<stop] = [(i + 1) * 64..<stop]" unfolding m_def by (cases "stop \<le> (i + 1) * 64") auto
    ultimately show ?thesis by (simp only: find_append)
  next
    case False
    then show ?thesis using a unfolding m_def by auto
  qed
  show ?case
  proof (cases "bm ! i = NOT 0")
    case True
    have "find ?P [a..<m] = None"
      unfolding find_None_iff
    proof
      assume "\<exists>c. c \<in> set [a..<m] \<and> \<not> BMAP_GET bm c"
      then obtain c where c: "i * 64 \<le> c" "c < (i + 1) * 64" "\<not> BMAP_GET bm c"
        unfolding a_def m_def by auto
      then have "c div 64 = i" by (simp add: div_nat_eqI)
      then show False using full_word[of bm c] True c(3) by simp
    qed
    then show ?thesis using True len rest split by (simp add: a_def)
  next
    case False
    have inner: "find_clear_bit bm a (m - a) = find ?P [a..<m]"
      by (cases "a \<le> m") (simp_all add: find_clear_bit_find)
    have "scan_words bm start stop i (Suc k) = (case find_clear_bit bm a (m - a) of
        Some c \<Rightarrow> Inr (Some c) | None \<Rightarrow> scan_words bm start stop (Suc i) k)"
      unfolding a_def m_def using False len by (simp add: Let_def)
    then show ?thesis unfolding inner rest a_def[symmetric] split by (simp split: option.splits)
  qed
qed

lemma find_bit_and_set_find:
  assumes "stop \<le> bmap_room bm"
  shows "find_bit_and_set bm start stop =
    Inr (case find (\<lambda>c. \<not> BMAP_GET bm c) [start..<stop] of
           Some c \<Rightarrow> (word_of_nat c + 2, BMAP_SET bm c) | None \<Rightarrow> (EXFAT_CLUSTER_END, bm))"
proof -
  have cover: "stop \<le> div_round_up stop 64 * 64" by (rule div_round_up_covers) simp
  have "scan_words bm start stop (start div 64) (div_round_up stop 64 - start div 64)
      = Inr (find (\<lambda>c. \<not> BMAP_GET bm c) [max (start div 64 * 64) start..<stop])"
    by (rule scan_words_find[OF assms]) (use cover in auto)
  then show ?thesis by (auto simp: find_bit_and_set_def max_def split: option.splits)
qed

text \<open>
  C32: the word-skipping search is the plain one: it returns the first clear bit of the
  range (as a cluster number) with that bit set, or the end mark and the bitmap unchanged.
\<close>

theorem find_bit_and_set_first:
  assumes "stop \<le> bmap_room bm"
  shows "find_bit_and_set bm start stop =
    Inr (case find (\<lambda>c. \<not> BMAP_GET bm c) [start..<stop] of
           Some c \<Rightarrow> (word_of_nat c + 2, BMAP_SET bm c) | None \<Rightarrow> (EXFAT_CLUSTER_END, bm))"
  by (rule find_bit_and_set_find[OF assms])

theorem find_bit_and_set_first_witness:
  "find_bit_and_set [NOT 0, 5] 3 128 = Inr (67, [NOT 0, 7])"
  using find_bit_and_set_first[of 128 "[NOT 0, 5]" 3]
  by (simp add: upt_rec BMAP_GET_def BMAP_SET_def)

end
