(* ===== verification/Utf.thy ===== *)
theory Utf
  imports Layout
begin

text \<open>
  UTF-8 and UTF-16 conversion (\<open>utf.c\<close>). A pointer into an output buffer with the space
  left becomes the list of units written and the space left; a returned null pointer
  becomes \<^const>\<open>None\<close>. \<open>wchar_t\<close> is a 32-bit value that is never negative here.
\<close>

section \<open>Return codes\<close>

text \<open>The codes the library returns: \<open>RC0\<close> is 0, the others are the negated errno values.\<close>

datatype retcode =
  RC0 | EIO | ENOENT | ENOMEM | ENOSPC | EILSEQ | ENAMETOOLONG
  | EISDIR | ENOTDIR | ENOTEMPTY | EEXIST | EINVAL

section \<open>Single characters\<close>

definition wchar_to_utf8 :: "u32 \<Rightarrow> nat \<Rightarrow> u8 list option" where
  "wchar_to_utf8 wc outsize =
     (if wc \<le> 0x7f then
        (if outsize < 1 then None else Some [ucast wc])
      else if wc \<le> 0x7ff then
        (if outsize < 2 then None
         else Some [ucast (0xc0 OR drop_bit 6 wc), ucast (0x80 OR (wc AND 0x3f))])
      else if wc \<le> 0xffff then
        (if outsize < 3 then None
         else Some [ucast (0xe0 OR drop_bit 12 wc), ucast (0x80 OR (drop_bit 6 wc AND 0x3f)),
                    ucast (0x80 OR (wc AND 0x3f))])
      else if wc \<le> 0x1fffff then
        (if outsize < 4 then None
         else Some [ucast (0xf0 OR drop_bit 18 wc), ucast (0x80 OR (drop_bit 12 wc AND 0x3f)),
                    ucast (0x80 OR (drop_bit 6 wc AND 0x3f)), ucast (0x80 OR (wc AND 0x3f))])
      else if wc \<le> 0x3ffffff then
        (if outsize < 5 then None
         else Some [ucast (0xf8 OR drop_bit 24 wc), ucast (0x80 OR (drop_bit 18 wc AND 0x3f)),
                    ucast (0x80 OR (drop_bit 12 wc AND 0x3f)),
                    ucast (0x80 OR (drop_bit 6 wc AND 0x3f)), ucast (0x80 OR (wc AND 0x3f))])
      else if wc \<le> 0x7fffffff then
        (if outsize < 6 then None
         else Some [ucast (0xfc OR drop_bit 30 wc), ucast (0x80 OR (drop_bit 24 wc AND 0x3f)),
                    ucast (0x80 OR (drop_bit 18 wc AND 0x3f)),
                    ucast (0x80 OR (drop_bit 12 wc AND 0x3f)),
                    ucast (0x80 OR (drop_bit 6 wc AND 0x3f)), ucast (0x80 OR (wc AND 0x3f))])
      else None)"

text \<open>The decoders return the character and the number of units it took.\<close>

definition utf16_to_wchar :: "u16 list \<Rightarrow> (u32 \<times> nat) option" where
  "utf16_to_wchar inp =
     (if inp ! 0 AND 0xfc00 = 0xd800 then
        (if length inp < 2 \<or> inp ! 1 AND 0xfc00 \<noteq> 0xdc00 then None
         else Some ((push_bit 10 (ucast (inp ! 0 AND 0x3ff)) OR ucast (inp ! 1 AND 0x3ff)) + 0x10000, 2))
      else Some (ucast (inp ! 0), 1))"

definition utf8_to_wchar :: "u8 list \<Rightarrow> (u32 \<times> nat) option" where
  "utf8_to_wchar inp =
     (let w = (\<lambda>i. ucast (inp ! i) :: u32); insize = length inp in
      if inp ! 0 AND 0x80 = 0 \<and> insize \<ge> 1 then Some (w 0, 1)
      else if inp ! 0 AND 0xe0 = 0xc0 \<and> insize \<ge> 2 then
        Some (push_bit 6 (w 0 AND 0x1f) OR (w 1 AND 0x3f), 2)
      else if inp ! 0 AND 0xf0 = 0xe0 \<and> insize \<ge> 3 then
        Some (push_bit 12 (w 0 AND 0x0f) OR push_bit 6 (w 1 AND 0x3f) OR (w 2 AND 0x3f), 3)
      else if inp ! 0 AND 0xf8 = 0xf0 \<and> insize \<ge> 4 then
        Some (push_bit 18 (w 0 AND 0x07) OR push_bit 12 (w 1 AND 0x3f) OR
              push_bit 6 (w 2 AND 0x3f) OR (w 3 AND 0x3f), 4)
      else if inp ! 0 AND 0xfc = 0xf8 \<and> insize \<ge> 5 then
        Some (push_bit 24 (w 0 AND 0x03) OR push_bit 18 (w 1 AND 0x3f) OR
              push_bit 12 (w 2 AND 0x3f) OR push_bit 6 (w 3 AND 0x3f) OR (w 4 AND 0x3f), 5)
      else if inp ! 0 AND 0xfe = 0xfc \<and> insize \<ge> 6 then
        Some (push_bit 30 (w 0 AND 0x01) OR push_bit 24 (w 1 AND 0x3f) OR
              push_bit 18 (w 2 AND 0x3f) OR push_bit 12 (w 3 AND 0x3f) OR
              push_bit 6 (w 4 AND 0x3f) OR (w 5 AND 0x3f), 6)
      else None)"

definition wchar_to_utf16 :: "u32 \<Rightarrow> nat \<Rightarrow> u16 list option" where
  "wchar_to_utf16 wc outsize =
     (if wc \<le> 0xffff then (if outsize = 0 then None else Some [ucast wc])
      else if outsize < 2 then None
      else (let wc = wc - 0x10000 in
            Some [ucast (0xd800 OR (drop_bit 10 wc AND 0x3ff)), ucast (0xdc00 OR (wc AND 0x3ff))]))"

lemma utf16_to_wchar_advances: "utf16_to_wchar inp = Some (wc, k) \<Longrightarrow> 0 < k"
  by (auto simp: utf16_to_wchar_def split: if_splits)

lemma utf8_to_wchar_advances: "utf8_to_wchar inp = Some (wc, k) \<Longrightarrow> 0 < k"
  by (auto simp: utf8_to_wchar_def Let_def split: if_splits)

section \<open>Strings\<close>

text \<open>
  \<open>utf16_to_utf8 outsize inp\<close> converts until the input ends or a null unit has been
  converted, and returns everything written, the terminating null byte included.
\<close>

function utf16_to_utf8 :: "nat \<Rightarrow> u16 list \<Rightarrow> retcode + u8 list" where
  "utf16_to_utf8 outsize inp =
     (if inp = [] then (if outsize = 0 then Inl ENAMETOOLONG else Inr [0])
      else case utf16_to_wchar inp of
        None \<Rightarrow> Inl EILSEQ
      | Some (wc, k) \<Rightarrow>
          (case wchar_to_utf8 wc outsize of
             None \<Rightarrow> Inl ENAMETOOLONG
           | Some bs \<Rightarrow>
               if wc = 0 then Inr bs
               else (case utf16_to_utf8 (outsize - length bs) (drop k inp) of
                       Inl e \<Rightarrow> Inl e | Inr r \<Rightarrow> Inr (bs @ r))))"
  by pat_completeness auto
termination
  by (relation "measure (\<lambda>(outsize, inp). length inp)") (auto dest!: utf16_to_wchar_advances)

function utf8_to_utf16 :: "nat \<Rightarrow> u8 list \<Rightarrow> retcode + u16 list" where
  "utf8_to_utf16 outsize inp =
     (if inp = [] then (if outsize = 0 then Inl ENAMETOOLONG else Inr [0])
      else case utf8_to_wchar inp of
        None \<Rightarrow> Inl EILSEQ
      | Some (wc, k) \<Rightarrow>
          (case wchar_to_utf16 wc outsize of
             None \<Rightarrow> Inl ENAMETOOLONG
           | Some us \<Rightarrow>
               if wc = 0 then (if outsize - length us = 0 then Inl ENAMETOOLONG else Inr (us @ [0]))
               else (case utf8_to_utf16 (outsize - length us) (drop k inp) of
                       Inl e \<Rightarrow> Inl e | Inr r \<Rightarrow> Inr (us @ r))))"
  by pat_completeness auto
termination
  by (relation "measure (\<lambda>(outsize, inp). length inp)") (auto dest!: utf8_to_wchar_advances)

declare utf16_to_utf8.simps [simp del] utf8_to_utf16.simps [simp del]

text \<open>
  \<open>utf16_length\<close> counts the units before the first null; it reads past the end of an array
  that has none, so the model returns \<^const>\<open>None\<close> there.
\<close>

fun utf16_length :: "u16 list \<Rightarrow> nat option" where
  "utf16_length [] = None"
| "utf16_length (u # us) = (if u = 0 then Some 0 else map_option Suc (utf16_length us))"

lemma utf16_length_Some:
  "utf16_length us = Some n \<Longrightarrow> n < length us \<and> us ! n = 0 \<and> (\<forall>i < n. us ! i \<noteq> 0)"
proof (induction us arbitrary: n)
  case Nil
  then show ?case by simp
next
  case (Cons u us)
  then show ?case by (auto split: if_splits simp: nth_Cons split: nat.splits)
qed

lemma utf16_length_append: "0 \<notin> set us \<Longrightarrow> utf16_length (us @ 0 # vs) = Some (length us)"
  by (induction us) auto

section \<open>Bit facts of the two encodings\<close>

lemma bit_80: "bit (0x80 :: u32) n \<longleftrightarrow> 7 \<le> n \<and> n < 8"
  by (subst bit_run[of _ 7 1]) (auto simp: mask_eq_exp_minus_1)

lemma bit_c0: "bit (0xc0 :: u32) n \<longleftrightarrow> 6 \<le> n \<and> n < 8"
  by (subst bit_run[of _ 6 2]) (auto simp: mask_eq_exp_minus_1)

lemma bit_e0: "bit (0xe0 :: u32) n \<longleftrightarrow> 5 \<le> n \<and> n < 8"
  by (subst bit_run[of _ 5 3]) (auto simp: mask_eq_exp_minus_1)

lemma bit_f0: "bit (0xf0 :: u32) n \<longleftrightarrow> 4 \<le> n \<and> n < 8"
  by (subst bit_run[of _ 4 4]) (auto simp: mask_eq_exp_minus_1)

lemma bit_3f: "bit (0x3f :: u32) n \<longleftrightarrow> n < 6"
  by (subst bit_run[of _ 0 6]) (auto simp: mask_eq_exp_minus_1)

lemma bit_1f: "bit (0x1f :: u32) n \<longleftrightarrow> n < 5"
  by (subst bit_run[of _ 0 5]) (auto simp: mask_eq_exp_minus_1)

lemma bit_0f: "bit (0x0f :: u32) n \<longleftrightarrow> n < 4"
  by (subst bit_run[of _ 0 4]) (auto simp: mask_eq_exp_minus_1)

lemma bit_07: "bit (7 :: u32) n \<longleftrightarrow> n < 3"
  by (subst bit_run[of _ 0 3]) (auto simp: mask_eq_exp_minus_1)

lemma bit8_80: "bit (0x80 :: u8) n \<longleftrightarrow> 7 \<le> n \<and> n < 8"
  by (subst bit_run[of _ 7 1]) (auto simp: mask_eq_exp_minus_1)

lemma bit8_c0: "bit (0xc0 :: u8) n \<longleftrightarrow> 6 \<le> n \<and> n < 8"
  by (subst bit_run[of _ 6 2]) (auto simp: mask_eq_exp_minus_1)

lemma bit8_e0: "bit (0xe0 :: u8) n \<longleftrightarrow> 5 \<le> n \<and> n < 8"
  by (subst bit_run[of _ 5 3]) (auto simp: mask_eq_exp_minus_1)

lemma bit8_f0: "bit (0xf0 :: u8) n \<longleftrightarrow> 4 \<le> n \<and> n < 8"
  by (subst bit_run[of _ 4 4]) (auto simp: mask_eq_exp_minus_1)

lemma bit8_f8: "bit (0xf8 :: u8) n \<longleftrightarrow> 3 \<le> n \<and> n < 8"
  by (subst bit_run[of _ 3 5]) (auto simp: mask_eq_exp_minus_1)

lemma bit16_3ff: "bit (0x3ff :: u16) n \<longleftrightarrow> n < 10"
  by (subst bit_run[of _ 0 10]) (auto simp: mask_eq_exp_minus_1)

lemma bit16_fc00: "bit (0xfc00 :: u16) n \<longleftrightarrow> 10 \<le> n \<and> n < 16"
  by (subst bit_run[of _ 10 6]) (auto simp: mask_eq_exp_minus_1)

lemma bit_3ff: "bit (0x3ff :: u32) n \<longleftrightarrow> n < 10"
  by (subst bit_run[of _ 0 10]) (auto simp: mask_eq_exp_minus_1)

lemmas utf_bits = bit_80 bit_c0 bit_e0 bit_f0 bit_3f bit_1f bit_0f bit_07 bit8_80 bit8_c0 bit8_e0 bit8_f0 bit8_f8 bit16_3ff bit16_fc00 bit_3ff
  bit_and_iff bit_or_iff bit_push_bit_iff bit_drop_bit_eq bit_unsigned_iff o_apply

lemma utf8_tail:
  fixes w :: u32
  shows "(ucast (ucast (0x80 OR (w AND 0x3f)) :: u8) AND 0x3f :: u32) = w AND 0x3f"
  by (rule bit_word_eqI, simp only: utf_bits) auto

lemma utf8_head_payload:
  fixes w :: u32
  shows "w < 0x800 \<Longrightarrow> (ucast (ucast (0xc0 OR drop_bit 6 w) :: u8) AND 0x1f :: u32) = drop_bit 6 w"
    and "w < 0x10000 \<Longrightarrow> (ucast (ucast (0xe0 OR drop_bit 12 w) :: u8) AND 0x0f :: u32) = drop_bit 12 w"
    and "w < 0x200000 \<Longrightarrow> (ucast (ucast (0xf0 OR drop_bit 18 w) :: u8) AND 0x07 :: u32) = drop_bit 18 w"
proof -
  show "(ucast (ucast (0xc0 OR drop_bit 6 w) :: u8) AND 0x1f :: u32) = drop_bit 6 w" if "w < 0x800"
    by (rule bit_word_eqI, simp only: utf_bits) (use that bit_small[of w 11] in force)
  show "(ucast (ucast (0xe0 OR drop_bit 12 w) :: u8) AND 0x0f :: u32) = drop_bit 12 w" if "w < 0x10000"
    by (rule bit_word_eqI, simp only: utf_bits) (use that bit_small[of w 16] in force)
  show "(ucast (ucast (0xf0 OR drop_bit 18 w) :: u8) AND 0x07 :: u32) = drop_bit 18 w" if "w < 0x200000"
    by (rule bit_word_eqI, simp only: utf_bits) (use that bit_small[of w 21] in force)
qed

lemma utf8_head_2:
  fixes w :: u32
  shows "(ucast (0xc0 OR w) :: u8) AND 0x80 = 0x80"
    and "w < 0x800 \<Longrightarrow> (ucast (0xc0 OR drop_bit 6 w) :: u8) AND 0xe0 = 0xc0"
  by (rule bit_word_eqI, simp only: utf_bits, use bit_small[of w 11] in force)+

lemma utf8_head_3:
  fixes w :: u32
  shows "(ucast (0xe0 OR w) :: u8) AND 0x80 = 0x80" "(ucast (0xe0 OR w) :: u8) AND 0xe0 = 0xe0"
    and "w < 0x10000 \<Longrightarrow> (ucast (0xe0 OR drop_bit 12 w) :: u8) AND 0xf0 = 0xe0"
  by (rule bit_word_eqI, simp only: utf_bits, use bit_small[of w 16] in force)+

lemma utf8_head_4:
  fixes w :: u32
  shows "(ucast (0xf0 OR w) :: u8) AND 0x80 = 0x80" "(ucast (0xf0 OR w) :: u8) AND 0xe0 = 0xe0"
    and "(ucast (0xf0 OR w) :: u8) AND 0xf0 = 0xf0"
    and "w < 0x200000 \<Longrightarrow> (ucast (0xf0 OR drop_bit 18 w) :: u8) AND 0xf8 = 0xf0"
  by (rule bit_word_eqI, simp only: utf_bits, use bit_small[of w 21] in force)+

lemma utf8_ascii:
  fixes w :: u32
  assumes "w \<le> 0x7f"
  shows "(ucast w :: u8) AND 0x80 = 0" "(ucast (ucast w :: u8) :: u32) = w"
proof -
  have "w < 2 ^ 7" using assms by (simp, unat_arith)
  note b = bit_small[OF this]
  show "(ucast w :: u8) AND 0x80 = 0"
    by (rule bit_word_eqI, simp only: utf_bits bit_0_eq) (use b in force)
  show "(ucast (ucast w :: u8) :: u32) = w"
    by (rule bit_word_eqI, simp only: utf_bits) (use b in force)
qed

lemma six_bit_groups:
  fixes w :: u32
  shows "push_bit 6 (drop_bit 6 w) OR (w AND 0x3f) = w"
    and "push_bit 12 (drop_bit 12 w) OR push_bit 6 (drop_bit 6 w AND 0x3f) OR (w AND 0x3f) = w"
    and "push_bit 18 (drop_bit 18 w) OR push_bit 12 (drop_bit 12 w AND 0x3f) OR
         push_bit 6 (drop_bit 6 w AND 0x3f) OR (w AND 0x3f) = w"
proof -
  show "push_bit 6 (drop_bit 6 w) OR (w AND 0x3f) = w"
    by (rule bit_word_eqI, simp only: utf_bits) auto
  show "push_bit 12 (drop_bit 12 w) OR push_bit 6 (drop_bit 6 w AND 0x3f) OR (w AND 0x3f) = w"
  proof (rule bit_word_eqI)
    fix n assume "n < LENGTH(32)"
    then show "bit (push_bit 12 (drop_bit 12 w) OR push_bit 6 (drop_bit 6 w AND 0x3f) OR (w AND 0x3f)) n
             = bit w n"
      by (cases "n < 6"; cases "n < 12"; simp only: utf_bits; auto)
  qed
  show "push_bit 18 (drop_bit 18 w) OR push_bit 12 (drop_bit 12 w AND 0x3f) OR
        push_bit 6 (drop_bit 6 w AND 0x3f) OR (w AND 0x3f) = w"
  proof (rule bit_word_eqI)
    fix n assume "n < LENGTH(32)"
    then show "bit (push_bit 18 (drop_bit 18 w) OR push_bit 12 (drop_bit 12 w AND 0x3f) OR
        push_bit 6 (drop_bit 6 w AND 0x3f) OR (w AND 0x3f)) n = bit w n"
      by (cases "n < 6"; cases "n < 12"; cases "n < 18"; simp only: utf_bits; auto)
  qed
qed

text \<open>What \<open>wchar_to_utf8\<close> writes, \<open>utf8_to_wchar\<close> reads back.\<close>

lemma utf8_decode_shape:
  "b0 AND 0x80 = 0 \<Longrightarrow> utf8_to_wchar (b0 # rest) = Some (ucast b0, 1)"
  "b0 AND 0x80 = 0x80 \<Longrightarrow> b0 AND 0xe0 = 0xc0 \<Longrightarrow>
   utf8_to_wchar (b0 # b1 # rest) = Some (push_bit 6 (ucast b0 AND 0x1f) OR (ucast b1 AND 0x3f), 2)"
  "b0 AND 0x80 = 0x80 \<Longrightarrow> b0 AND 0xe0 = 0xe0 \<Longrightarrow> b0 AND 0xf0 = 0xe0 \<Longrightarrow>
   utf8_to_wchar (b0 # b1 # b2 # rest) =
     Some (push_bit 12 (ucast b0 AND 0x0f) OR push_bit 6 (ucast b1 AND 0x3f) OR (ucast b2 AND 0x3f), 3)"
  "b0 AND 0x80 = 0x80 \<Longrightarrow> b0 AND 0xe0 = 0xe0 \<Longrightarrow> b0 AND 0xf0 = 0xf0 \<Longrightarrow> b0 AND 0xf8 = 0xf0 \<Longrightarrow>
   utf8_to_wchar (b0 # b1 # b2 # b3 # rest) =
     Some (push_bit 18 (ucast b0 AND 0x07) OR push_bit 12 (ucast b1 AND 0x3f) OR
           push_bit 6 (ucast b2 AND 0x3f) OR (ucast b3 AND 0x3f), 4)"
  unfolding utf8_to_wchar_def Let_def by (simp_all del: push_bit_and)

lemma utf8_decode_encode:
  assumes "wchar_to_utf8 wc n = Some bs" "wc < 0x200000"
  shows "utf8_to_wchar (bs @ rest) = Some (wc, length bs) \<and> bs \<noteq> [] \<and> length bs \<le> n"
proof -
  have le: "w \<le> a \<Longrightarrow> a < b \<Longrightarrow> w < b" for w a b :: u32 by (rule order_le_less_trans)
  have top: "wc \<le> 0x1fffff" using assms(2) by unat_arith
  consider "wc \<le> 0x7f" | "\<not> wc \<le> 0x7f" "wc \<le> 0x7ff" | "\<not> wc \<le> 0x7ff" "wc \<le> 0xffff"
    | "\<not> wc \<le> 0xffff" "wc \<le> 0x1fffff"
    using top by blast
  then show ?thesis
  proof cases
    case 1
    then have "bs = [ucast wc]" "1 \<le> n" using assms(1)
      by (auto simp: wchar_to_utf8_def split: if_splits)
    then show ?thesis using utf8_ascii[OF 1] by (simp add: utf8_decode_shape)
  next
    case 2
    then have "wc < 0x800" by (auto intro: le)
    moreover have "bs = [ucast (0xc0 OR drop_bit 6 wc), ucast (0x80 OR (wc AND 0x3f))]" "2 \<le> n"
      using assms(1) 2 by (auto simp: wchar_to_utf8_def split: if_splits)
    ultimately show ?thesis
      by (simp only: append.simps utf8_decode_shape(2) utf8_head_2 utf8_head_payload utf8_tail
          six_bit_groups list.size) simp
  next
    case 3
    then have "wc < 0x10000" "\<not> wc \<le> 0x7f"
      using order_trans[of wc "0x7f" "0x7ff"] by (auto intro: le)
    moreover have "bs = [ucast (0xe0 OR drop_bit 12 wc), ucast (0x80 OR (drop_bit 6 wc AND 0x3f)),
        ucast (0x80 OR (wc AND 0x3f))]" "3 \<le> n"
      using assms(1) 3 calculation by (auto simp: wchar_to_utf8_def split: if_splits)
    ultimately show ?thesis
      by (simp only: append.simps utf8_decode_shape(3) utf8_head_3 utf8_head_payload utf8_tail
          six_bit_groups list.size) simp
  next
    case 4
    then have "\<not> wc \<le> 0x7ff" "\<not> wc \<le> 0x7f"
      using order_trans[of wc "0x7f" "0xffff"] order_trans[of wc "0x7ff" "0xffff"] by auto
    then have "bs = [ucast (0xf0 OR drop_bit 18 wc), ucast (0x80 OR (drop_bit 12 wc AND 0x3f)),
        ucast (0x80 OR (drop_bit 6 wc AND 0x3f)), ucast (0x80 OR (wc AND 0x3f))]" "4 \<le> n"
      using assms(1) 4 by (auto simp: wchar_to_utf8_def split: if_splits)
    then show ?thesis using assms(2)
      by (simp only: append.simps utf8_decode_shape(4) utf8_head_4 utf8_head_payload utf8_tail
          six_bit_groups list.size) simp
  qed
qed

text \<open>What \<open>utf16_to_wchar\<close> reads, \<open>wchar_to_utf16\<close> writes back.\<close>

lemma surrogate_pair:
  fixes a b :: u16
  assumes "a AND 0xfc00 = 0xd800" "b AND 0xfc00 = 0xdc00"
    and x: "x = (push_bit 10 (ucast (a AND 0x3ff)) OR ucast (b AND 0x3ff) :: u32)"
  shows "ucast (0xd800 OR (drop_bit 10 x AND 0x3ff)) = a" "ucast (0xdc00 OR (x AND 0x3ff)) = b"
    and "x < 2 ^ 20"
proof -
  have split: "c = (c AND 0xfc00) OR (c AND 0x3ff)" for c :: u16
    by (rule bit_word_eqI, simp only: utf_bits) auto
  have hi: "ucast (drop_bit 10 x AND 0x3ff) = a AND 0x3ff"
    unfolding x by (rule bit_word_eqI, simp only: utf_bits) (auto dest: bit_imp_le_length)
  have lo: "ucast (x AND 0x3ff) = b AND 0x3ff"
    unfolding x by (rule bit_word_eqI, simp only: utf_bits) (auto dest: bit_imp_le_length)
  show "ucast (0xd800 OR (drop_bit 10 x AND 0x3ff)) = a"
    using split[of a] hi assms(1) by (simp add: unsigned_or_eq)
  show "ucast (0xdc00 OR (x AND 0x3ff)) = b"
    using split[of b] lo assms(2) by (simp add: unsigned_or_eq)
  have "x = take_bit 20 x"
    unfolding x by (rule bit_word_eqI, simp only: utf_bits bit_take_bit_iff) auto
  moreover have "take_bit 20 x < 2 ^ 20" unfolding take_bit_eq_mask by (rule and_mask_less') simp
  ultimately show "x < 2 ^ 20" by simp
qed

lemma supplementary_range:
  fixes x :: u32
  assumes "x < 2 ^ 20"
  shows "\<not> x + 0x10000 \<le> 0xffff" "x + 0x10000 < 0x200000" "x + 0x10000 \<noteq> 0"
proof -
  have x: "unat x < 2 ^ 20" using assms by (simp add: word_less_nat_alt)
  then have u: "unat (x + 0x10000) = unat x + 0x10000" by (simp add: unat_word_ariths)
  show "\<not> x + 0x10000 \<le> 0xffff" using u by (simp add: word_le_nat_alt)
  show "x + 0x10000 < 0x200000" using u x by (simp add: word_less_nat_alt)
  show "x + 0x10000 \<noteq> 0" using u by (auto simp: unat_eq_0)
qed

lemma utf16_encode_decode:
  assumes "utf16_to_wchar us = Some (wc, k)" "us \<noteq> []"
  shows "wc < 0x200000 \<and> k \<le> length us \<and> (wc = 0 \<longleftrightarrow> hd us = 0) \<and>
    (\<forall>n \<ge> k. wchar_to_utf16 wc n = Some (take k us))"
proof (cases "us ! 0 AND 0xfc00 = 0xd800")
  case False
  then have wc: "wc = ucast (us ! 0)" "k = 1" using assms(1)
    by (auto simp: utf16_to_wchar_def split: if_splits)
  have "unat (us ! 0) < 65536" using unat_bound[of "us ! 0"] by simp
  then have u: "unat wc = unat (us ! 0)" unfolding wc by (simp add: unsigned_ucast_eq take_bit_nat_eq_self)
  then have "wc \<le> 0xffff" "wc < 0x200000"
    using unat_bound[of "us ! 0"] by (simp_all add: word_le_nat_alt word_less_nat_alt)
  moreover have "wc = 0 \<longleftrightarrow> hd us = 0" using u assms(2)
    by (metis hd_conv_nth unat_eq_0)
  moreover have "(ucast wc :: u16) = us ! 0"
    unfolding wc by (rule bit_word_eqI) (auto simp: bit_unsigned_iff)
  ultimately show ?thesis using wc(2) assms(2)
    by (cases us) (auto simp: wchar_to_utf16_def)
next
  case True
  define x :: u32 where "x = push_bit 10 (ucast (us ! 0 AND 0x3ff)) OR ucast (us ! 1 AND 0x3ff)"
  have lo: "us ! 1 AND 0xfc00 = 0xdc00" and len: "2 \<le> length us"
    and wc: "wc = x + 0x10000" "k = 2"
    using assms(1) True unfolding utf16_to_wchar_def x_def by (auto split: if_splits)
  note p = surrogate_pair[OF True lo x_def]
  have nz: "hd us \<noteq> 0" using True assms(2) by (cases us) auto
  have "take 2 us = [us ! 0, us ! 1]"
    using len by (cases us; cases "tl us") auto
  then show ?thesis
    using p(1,2) supplementary_range[OF p(3)] len nz unfolding wc wchar_to_utf16_def by simp
qed

section \<open>Conversions of whole names\<close>

text \<open>One round of the loop of \<open>utf16_to_utf8\<close>, for inputs without a null unit.\<close>

lemma utf16_to_utf8_step:
  assumes "utf16_to_utf8 out us = Inr bs" "us \<noteq> []" "0 \<notin> set us"
  obtains wc k b r where "utf16_to_wchar us = Some (wc, k)" "wc \<noteq> 0"
    "wchar_to_utf8 wc out = Some b" "utf16_to_utf8 (out - length b) (drop k us) = Inr r"
    "bs = b @ r"
proof -
  obtain wc k where d: "utf16_to_wchar us = Some (wc, k)"
    using assms(1,2) by (subst (asm) utf16_to_utf8.simps) (auto split: option.splits)
  have "hd us \<noteq> 0" using assms(2,3) by (cases us) auto
  then have nz: "wc \<noteq> 0" using utf16_encode_decode[OF d assms(2)] by simp
  show thesis
    using assms(1,2) d nz
    by (subst (asm) utf16_to_utf8.simps) (auto split: option.splits sum.splits intro: that)
qed

lemma utf16_to_utf8_Nil: "utf16_to_utf8 out [] = (if out = 0 then Inl ENAMETOOLONG else Inr [0])"
  by (subst utf16_to_utf8.simps) simp

text \<open>
  C33: a UTF-16 name the library converts to UTF-8 is found again by converting the bytes
  back: the null-terminated result has no earlier null, and \<open>utf8_to_utf16\<close> of its bytes
  is the original name with a terminator, in any buffer that holds it.
\<close>

theorem utf16_utf8_roundtrip:
  assumes "utf16_to_utf8 out us = Inr bs" "0 \<notin> set us" "length us < n"
  shows "\<exists>cs. bs = cs @ [0] \<and> utf8_to_utf16 n cs = Inr (us @ [0])"
  using assms
proof (induction us arbitrary: out bs n rule: length_induct)
  case (1 us)
  show ?case
  proof (cases "us = []")
    case True
    then show ?thesis using "1.prems"
      by (auto simp: utf16_to_utf8_Nil utf8_to_utf16.simps[of n "[]"] split: if_splits)
  next
    case False
    obtain wc k b r where d: "utf16_to_wchar us = Some (wc, k)" and nz: "wc \<noteq> 0"
      and e: "wchar_to_utf8 wc out = Some b"
      and rec: "utf16_to_utf8 (out - length b) (drop k us) = Inr r" and bs: "bs = b @ r"
      using utf16_to_utf8_step[OF "1.prems"(1) False "1.prems"(2)] .
    note u = utf16_encode_decode[OF d False]
    have k: "0 < k" "k \<le> length us" using utf16_to_wchar_advances[OF d] u by auto
    have "\<exists>cs. r = cs @ [0] \<and> utf8_to_utf16 (n - k) cs = Inr (drop k us @ [0])"
    proof (rule "1.IH"[rule_format, OF _ rec])
      show "length (drop k us) < length us" using k False by simp
      show "0 \<notin> set (drop k us)" using "1.prems"(2) by (meson in_set_dropD)
      show "length (drop k us) < n - k" using k "1.prems"(3) by simp
    qed
    then obtain cs where cs: "r = cs @ [0]" "utf8_to_utf16 (n - k) cs = Inr (drop k us @ [0])"
      by blast
    have dec: "utf8_to_wchar (b @ cs) = Some (wc, length b)" "b \<noteq> []"
      using utf8_decode_encode[OF e] u by auto
    have "wchar_to_utf16 wc n = Some (take k us)" using u k "1.prems"(3) by auto
    then have "utf8_to_utf16 n (b @ cs) = Inr (us @ [0])"
      using dec nz cs(2) k by (subst utf8_to_utf16.simps) (simp flip: append_assoc)
    then show ?thesis using bs cs(1) by simp
  qed
qed

theorem utf16_utf8_roundtrip_witness:
  "\<exists>cs. [0x41, 0xc3, 0xa9, 0xf0, 0x9f, 0x98, 0x80, 0] = cs @ [0] \<and>
        utf8_to_utf16 8 cs = Inr ([0x41, 0xe9, 0xd83d, 0xde00] @ [0])"
proof (rule utf16_utf8_roundtrip)
  show "utf16_to_utf8 20 [0x41, 0xe9, 0xd83d, 0xde00]
      = Inr [0x41, 0xc3, 0xa9, 0xf0, 0x9f, 0x98, 0x80, 0]"
    by code_simp
qed simp_all

lemma wchar_to_utf8_room:
  assumes "wc < 0x200000"
  shows "wc \<le> 0xffff \<Longrightarrow> 3 \<le> n \<Longrightarrow> \<exists>b. wchar_to_utf8 wc n = Some b \<and> length b \<le> 3"
    and "4 \<le> n \<Longrightarrow> \<exists>b. wchar_to_utf8 wc n = Some b \<and> length b \<le> 4"
proof -
  have "wc \<le> 0x1fffff" using assms by unat_arith
  then show "wc \<le> 0xffff \<Longrightarrow> 3 \<le> n \<Longrightarrow> \<exists>b. wchar_to_utf8 wc n = Some b \<and> length b \<le> 3"
    and "4 \<le> n \<Longrightarrow> \<exists>b. wchar_to_utf8 wc n = Some b \<and> length b \<le> 4"
    by (auto simp: wchar_to_utf8_def)
qed

lemma utf16_units_of_wide:
  assumes "utf16_to_wchar us = Some (wc, k)" "us \<noteq> []" "\<not> wc \<le> 0xffff"
  shows "2 \<le> k \<and> 2 \<le> length us"
proof -
  have u: "wchar_to_utf16 wc k = Some (take k us)" "k \<le> length us"
    using utf16_encode_decode[OF assms(1,2)] by auto
  then have "length (take k us) = 2"
    using assms(3) by (auto simp: wchar_to_utf16_def Let_def split: if_splits dest!: arg_cong[of _ _ length])
  then show ?thesis using u(2) by simp
qed

text \<open>
  \<open>EXFAT_UTF8_NAME_BUFFER_MAX\<close> (three bytes for each unit and one for the terminator) is
  always enough: such a conversion fails only on an ill-formed surrogate pair, never for
  want of room, and never writes past the buffer.
\<close>

lemma utf16_to_utf8_fits:
  "3 * length us < out \<Longrightarrow>
   (case utf16_to_utf8 out us of Inl e \<Rightarrow> e = EILSEQ | Inr bs \<Rightarrow> length bs \<le> out)"
proof (induction us arbitrary: out rule: length_induct)
  case (1 us)
  show ?case
  proof (cases "us = []")
    case True
    then show ?thesis using "1.prems" by (simp add: utf16_to_utf8_Nil)
  next
    case False
    show ?thesis
    proof (cases "utf16_to_wchar us")
      case None
      then show ?thesis using False by (subst utf16_to_utf8.simps) simp
    next
      case (Some p)
      then obtain wc k where d: "utf16_to_wchar us = Some (wc, k)" by (cases p) auto
      note u = utf16_encode_decode[OF d False]
      have room: "\<exists>b. wchar_to_utf8 wc out = Some b \<and> length b \<le> 3 * k"
      proof -
        have "3 \<le> out" "\<not> wc \<le> 0xffff \<Longrightarrow> 4 \<le> out \<and> 2 \<le> k"
          using utf16_units_of_wide[OF d False] u "1.prems" False by (cases us; force)+
        then show ?thesis
          using wchar_to_utf8_room[of wc out] u utf16_to_wchar_advances[OF d]
          by (cases "wc \<le> 0xffff") force+
      qed
      then obtain b where b: "wchar_to_utf8 wc out = Some b" "length b \<le> 3 * k" by blast
      have k: "0 < k" "k \<le> length us" using utf16_to_wchar_advances[OF d] u by auto
      have lo: "length b \<le> out" using utf8_decode_encode[OF b(1)] u by simp
      have "case utf16_to_utf8 (out - length b) (drop k us) of
          Inl e \<Rightarrow> e = EILSEQ | Inr bs \<Rightarrow> length bs \<le> out - length b"
      proof (rule "1.IH"[rule_format])
        show "length (drop k us) < length us" using k False by simp
        show "3 * length (drop k us) < out - length b" using k b(2) "1.prems" by simp
      qed
      then show ?thesis using False d b(1) lo
        by (subst utf16_to_utf8.simps) (auto split: sum.splits)
    qed
  qed
qed

text \<open>
  The decoder of UTF-8 does not look at the marker bits of continuation bytes: the two
  bytes of \<open>C3 28\<close>, which is not UTF-8, are read as one character.
\<close>

lemma utf8_malformed_accepted: "utf8_to_utf16 4 [0xc3, 0x28] = Inr [0xe8, 0]"
  by code_simp

end
