(* ===== verification/Fs.thy ===== *)
theory Fs
  imports Device Bitmap Utf
begin

text \<open>
  The in-core state of \<open>exfat.h\<close>: nodes linked by pointers, the mounted file system, and
  the parts of the process environment its operations read (the allocator, the clock, the
  answers typed by the user, the contents of uninitialised memory).
\<close>

section \<open>Nodes\<close>

text \<open>A pointer to a node; the null pointer is \<^const>\<open>None\<close> of the option type.\<close>

type_synonym ptr = nat

record exfat_node =
  nd_parent :: "ptr option"
  nd_child :: "ptr option"
  nd_next :: "ptr option"
  nd_prev :: "ptr option"
  nd_references :: int
  nd_fptr_index :: u32
  nd_fptr_cluster :: cluster_t
  nd_entry_offset :: int
  nd_start_cluster :: cluster_t
  nd_attrib :: u16
  nd_continuations :: u8
  nd_is_contiguous :: bool
  nd_is_cached :: bool
  nd_is_dirty :: bool
  nd_is_unlinked :: bool
  nd_size :: u64
  nd_mtime :: int
  nd_atime :: int
  nd_name :: "u16 list"

text \<open>\<open>allocate_node\<close> (node.c) fills a new node with zeros.\<close>

definition zero_node :: exfat_node where
  "zero_node = \<lparr>nd_parent = None, nd_child = None, nd_next = None, nd_prev = None,
     nd_references = 0, nd_fptr_index = 0, nd_fptr_cluster = 0, nd_entry_offset = 0,
     nd_start_cluster = 0, nd_attrib = 0, nd_continuations = 0, nd_is_contiguous = False,
     nd_is_cached = False, nd_is_dirty = False, nd_is_unlinked = False, nd_size = 0,
     nd_mtime = 0, nd_atime = 0, nd_name = replicate (EXFAT_NAME_MAX + 1) 0\<rparr>"

section \<open>The mounted file system\<close>

datatype repair_mode = EXFAT_REPAIR_NO | EXFAT_REPAIR_ASK | EXFAT_REPAIR_YES

text \<open>
  \<open>cmap_chunk\<close> and \<open>ef_upcase\<close> are \<open>[]\<close> while the pointer is null (both arrays have elements
  once they are allocated). The fields from \<open>ef_nodes\<close> on are not in the C struct: the heap of
  nodes and its next free address, the clock and the time zone, whether \<open>malloc\<close> of a size
  succeeds, the lines standard input will deliver, the value of uninitialised bytes, and the
  count of repaired errors (\<open>exfat_errors_fixed\<close>).
\<close>

record exfat =
  ef_dev :: exfat_dev
  ef_sb :: exfat_super_block
  ef_upcase :: "u16 list"
  ef_root :: ptr
  cmap_start_cluster :: cluster_t
  cmap_size :: u32
  cmap_chunk :: "u64 list"
  cmap_chunk_size :: u32
  cmap_dirty :: bool
  ef_label :: "u8 list"
  ef_dmask :: int
  ef_fmask :: int
  ef_uid :: int
  ef_gid :: int
  ef_ro :: int
  ef_noatime :: bool
  ef_repair :: repair_mode
  ef_nodes :: "ptr \<Rightarrow> exfat_node option"
  ef_next_ptr :: ptr
  ef_now :: int
  ef_tz :: int
  ef_malloc_ok :: "nat \<Rightarrow> bool"
  ef_stdin :: "string list"
  ef_junk :: "nat \<Rightarrow> u8"
  ef_errors_fixed :: nat

section \<open>Sizes\<close>

text \<open>
  \<open>1 << sector_bits\<close> and \<open>SECTOR_SIZE << spc_bits\<close>. The mount code refuses a super block
  whose exponents add up to more than 25, so no shift leaves the range of an \<open>int\<close>.
\<close>

definition SECTOR_SIZE :: "exfat_super_block \<Rightarrow> nat" where
  "SECTOR_SIZE sb = 2 ^ unat (sb_sector_bits sb)"

definition CLUSTER_SIZE :: "exfat_super_block \<Rightarrow> nat" where
  "CLUSTER_SIZE sb = SECTOR_SIZE sb * 2 ^ unat (sb_spc_bits sb)"

definition CLUSTER_INVALID :: "exfat_super_block \<Rightarrow> cluster_t \<Rightarrow> bool" where
  "CLUSTER_INVALID sb c \<longleftrightarrow>
     c < EXFAT_FIRST_DATA_CLUSTER \<or> c - EXFAT_FIRST_DATA_CLUSTER \<ge> sb_cluster_count sb"

lemma SECTOR_SIZE_pos [simp]: "0 < SECTOR_SIZE sb"
  by (simp add: SECTOR_SIZE_def)

lemma CLUSTER_SIZE_pos [simp]: "0 < CLUSTER_SIZE sb"
  by (simp add: CLUSTER_SIZE_def)

text \<open>What \<open>exfat_mount\<close> has checked of the super block when anything below runs.\<close>

definition geometry_ok :: "exfat_super_block \<Rightarrow> bool" where
  "geometry_ok sb \<longleftrightarrow> 9 \<le> unat (sb_sector_bits sb) \<and>
     unat (sb_sector_bits sb) + unat (sb_spc_bits sb) \<le> 25"

lemma unat_minus_2: "\<not> c < (2 :: u32) \<Longrightarrow> unat (c - 2) = unat c - 2"
  by (simp add: unat_sub not_less word_le_nat_alt)

lemma cluster_valid_iff:
  "\<not> CLUSTER_INVALID sb c \<longleftrightarrow> 2 \<le> unat c \<and> unat c - 2 < unat (sb_cluster_count sb)"
  by (auto simp: CLUSTER_INVALID_def not_less word_le_nat_alt unat_minus_2 word_less_nat_alt)

lemma zero_cluster_invalid [simp]: "CLUSTER_INVALID sb 0" "CLUSTER_INVALID sb 1"
  by (simp_all add: CLUSTER_INVALID_def)

end
