(* ===== verification/Cluster.thy ===== *)
theory Cluster
  imports Fs
begin

text \<open>
  Cluster arithmetic, the file allocation table, the cluster bitmap and changes of a file's
  size (\<open>cluster.c\<close>). The node an operation works on is passed and returned by value:
  nothing in this file reaches it by another path.
\<close>

section \<open>Addresses\<close>

definition s2o :: "exfat_super_block \<Rightarrow> int \<Rightarrow> int" where
  "s2o sb sector = sector * 2 ^ unat (sb_sector_bits sb)"

definition c2s :: "exfat_super_block \<Rightarrow> cluster_t \<Rightarrow> fault + int" where
  "c2s sb cluster =
     (if cluster < EXFAT_FIRST_DATA_CLUSTER then Inl Abort
      else Inr (uint (sb_cluster_sector_start sb) +
                uint (cluster - EXFAT_FIRST_DATA_CLUSTER) * 2 ^ unat (sb_spc_bits sb)))"

definition exfat_c2o :: "exfat_super_block \<Rightarrow> cluster_t \<Rightarrow> fault + int" where
  "exfat_c2o sb cluster = andThen (c2s sb cluster) (\<lambda>s. Inr (s2o sb s))"

definition s2c :: "exfat_super_block \<Rightarrow> int \<Rightarrow> cluster_t" where
  "s2c sb sector =
     word_of_int ((sector - uint (sb_cluster_sector_start sb)) div 2 ^ unat (sb_spc_bits sb))
     + EXFAT_FIRST_DATA_CLUSTER"

text \<open>The sum \<open>bytes + cluster_size - 1\<close> is taken modulo 2^64 and the quotient is cut to 32 bits.\<close>

definition bytes2clusters :: "exfat_super_block \<Rightarrow> u64 \<Rightarrow> u32" where
  "bytes2clusters sb bytes =
     (let cluster_size = word_of_nat (CLUSTER_SIZE sb) :: u64 in
      ucast ((bytes + cluster_size - 1) div cluster_size))"

section \<open>The file allocation table\<close>

definition fat_offset :: "exfat_super_block \<Rightarrow> cluster_t \<Rightarrow> int" where
  "fat_offset sb cluster = s2o sb (uint (sb_fat_sector_start sb)) + 4 * uint cluster"

definition exfat_next_cluster :: "exfat \<Rightarrow> exfat_node \<Rightarrow> cluster_t \<Rightarrow> fault + cluster_t" where
  "exfat_next_cluster ef node cluster =
     (if cluster < EXFAT_FIRST_DATA_CLUSTER then Inl Abort
      else if nd_is_contiguous node then Inr (cluster + 1)
      else (case pread_into (ef_dev ef) (map (ef_junk ef) [0..<4]) (fat_offset (ef_sb ef) cluster) of
              None \<Rightarrow> Inr EXFAT_CLUSTER_BAD
            | Some b \<Rightarrow> Inr (le32_to_cpu b)))"

definition set_next_cluster :: "exfat \<Rightarrow> bool \<Rightarrow> cluster_t \<Rightarrow> cluster_t \<Rightarrow> bool \<times> exfat" where
  "set_next_cluster ef contiguous current next =
     (if contiguous then (True, ef)
      else (case exfat_pwrite (ef_dev ef) (cpu_to_le32 next) (fat_offset (ef_sb ef) current) of
              None \<Rightarrow> (False, ef)
            | Some d \<Rightarrow> (True, ef\<lparr>ef_dev := d\<rparr>)))"

text \<open>\<open>k\<close> steps along the chain, stopping at an invalid cluster.\<close>

primrec advance_loop :: "exfat \<Rightarrow> exfat_node \<Rightarrow> cluster_t \<Rightarrow> nat \<Rightarrow> fault + cluster_t" where
  "advance_loop ef node c 0 = Inr c"
| "advance_loop ef node c (Suc k) =
     andThen (exfat_next_cluster ef node c)
       (\<lambda>c'. if CLUSTER_INVALID (ef_sb ef) c' then Inr c' else advance_loop ef node c' k)"

definition exfat_advance_cluster ::
    "exfat \<Rightarrow> exfat_node \<Rightarrow> u32 \<Rightarrow> fault + (cluster_t \<times> exfat_node)" where
  "exfat_advance_cluster ef node count =
     (let node = (if nd_fptr_index node > count
                  then node\<lparr>nd_fptr_index := 0, nd_fptr_cluster := nd_start_cluster node\<rparr>
                  else node) in
      andThen (advance_loop ef node (nd_fptr_cluster node) (unat count - unat (nd_fptr_index node)))
        (\<lambda>c. Inr (c, node\<lparr>nd_fptr_cluster := c, nd_fptr_index := count\<rparr>)))"

section \<open>The cluster bitmap\<close>

definition exfat_flush :: "exfat \<Rightarrow> fault + (retcode \<times> exfat)" where
  "exfat_flush ef =
     (if cmap_dirty ef then
        andThen (exfat_c2o (ef_sb ef) (cmap_start_cluster ef)) (\<lambda>off.
          case exfat_pwrite (ef_dev ef)
                 (take (BMAP_SIZE (unat (cmap_chunk_size ef)))
                    (concat (map cpu_to_le64 (cmap_chunk ef)))) off of
            None \<Rightarrow> Inr (EIO, ef)
          | Some d \<Rightarrow> Inr (RC0, ef\<lparr>ef_dev := d, cmap_dirty := False\<rparr>))
      else Inr (RC0, ef))"

definition allocate_cluster :: "exfat \<Rightarrow> cluster_t \<Rightarrow> fault + (cluster_t \<times> exfat)" where
  "allocate_cluster ef hint =
     (let hint = hint - EXFAT_FIRST_DATA_CLUSTER;
          hint = (if hint \<ge> cmap_chunk_size ef then 0 else hint) in
      andThen (find_bit_and_set (cmap_chunk ef) (unat hint) (unat (cmap_chunk_size ef)))
        (\<lambda>(cluster, chunk).
           andThen (if cluster = EXFAT_CLUSTER_END
                    then find_bit_and_set chunk 0 (unat hint)
                    else Inr (cluster, chunk))
             (\<lambda>(cluster, chunk).
                if cluster = EXFAT_CLUSTER_END then Inr (EXFAT_CLUSTER_END, ef)
                else Inr (cluster, ef\<lparr>cmap_chunk := chunk, cmap_dirty := True\<rparr>))))"

definition free_cluster :: "exfat \<Rightarrow> cluster_t \<Rightarrow> fault + exfat" where
  "free_cluster ef cluster =
     (let i = cluster - EXFAT_FIRST_DATA_CLUSTER in
      if i \<ge> cmap_size ef then Inl Abort
      else if unat i \<ge> bmap_room (cmap_chunk ef) then Inl Undef
      else Inr (ef\<lparr>cmap_chunk := BMAP_CLR (cmap_chunk ef) (unat i), cmap_dirty := True\<rparr>))"

primrec count_clear :: "u64 list \<Rightarrow> nat \<Rightarrow> nat" where
  "count_clear bm 0 = 0"
| "count_clear bm (Suc n) = count_clear bm n + (if BMAP_GET bm n then 0 else 1)"

definition exfat_count_free_clusters :: "exfat \<Rightarrow> fault + u32" where
  "exfat_count_free_clusters ef =
     (if unat (cmap_size ef) > bmap_room (cmap_chunk ef) then Inl Undef
      else Inr (word_of_nat (count_clear (cmap_chunk ef) (unat (cmap_size ef)))))"

section \<open>Growing and shrinking a file\<close>

primrec make_noncontiguous :: "exfat \<Rightarrow> cluster_t \<Rightarrow> nat \<Rightarrow> bool \<times> exfat" where
  "make_noncontiguous ef c 0 = (True, ef)"
| "make_noncontiguous ef c (Suc k) =
     (case set_next_cluster ef False c (c + 1) of
        (ok, ef) \<Rightarrow> if \<not> ok then (False, ef) else make_noncontiguous ef (c + 1) k)"

text \<open>The loop of \<open>shrink_file\<close> that frees \<open>k\<close> clusters from \<open>previous\<close> on.\<close>

primrec free_chain ::
    "exfat \<Rightarrow> exfat_node \<Rightarrow> cluster_t \<Rightarrow> nat \<Rightarrow> fault + (retcode \<times> exfat)" where
  "free_chain ef node previous 0 = Inr (RC0, ef)"
| "free_chain ef node previous (Suc k) =
     (if CLUSTER_INVALID (ef_sb ef) previous then Inr (EIO, ef)
      else andThen (exfat_next_cluster ef node previous) (\<lambda>next.
        case set_next_cluster ef (nd_is_contiguous node) previous EXFAT_CLUSTER_FREE of
          (ok, ef) \<Rightarrow>
            if \<not> ok then Inr (EIO, ef)
            else andThen (free_cluster ef previous) (\<lambda>ef. free_chain ef node next k)))"

definition shrink_file ::
    "exfat \<Rightarrow> exfat_node \<Rightarrow> u32 \<Rightarrow> u32 \<Rightarrow> fault + (retcode \<times> exfat \<times> exfat_node)" where
  "shrink_file ef node current difference =
     (if difference = 0 then Inl Abort
      else if nd_start_cluster node = EXFAT_CLUSTER_FREE then Inl Abort
      else if current < difference then Inl Abort
      else andThen
        (if current > difference then
           andThen (exfat_advance_cluster ef node (current - difference - 1)) (\<lambda>(last, node).
             if CLUSTER_INVALID (ef_sb ef) last then Inr (EIO, ef, node, 0)
             else andThen (exfat_next_cluster ef node last) (\<lambda>previous.
               case set_next_cluster ef (nd_is_contiguous node) last EXFAT_CLUSTER_END of
                 (ok, ef) \<Rightarrow> Inr (if ok then RC0 else EIO, ef, node, previous)))
         else Inr (RC0, ef, node\<lparr>nd_start_cluster := EXFAT_CLUSTER_FREE, nd_is_dirty := True\<rparr>,
                   nd_start_cluster node))
        (\<lambda>(rc, ef, node, previous).
           if rc \<noteq> RC0 then Inr (rc, ef, node)
           else let node = node\<lparr>nd_fptr_index := 0, nd_fptr_cluster := nd_start_cluster node\<rparr> in
             andThen (free_chain ef node previous (unat difference))
               (\<lambda>(rc, ef). Inr (rc, ef, node))))"

text \<open>
  The loop of \<open>grow_file\<close>: \<open>k\<close> clusters are still to be allocated, \<open>allocated\<close> have been.
  A full volume gives back what was allocated, whatever \<open>shrink_file\<close> returns.
\<close>

primrec grow_loop ::
    "exfat \<Rightarrow> exfat_node \<Rightarrow> u32 \<Rightarrow> u32 \<Rightarrow> cluster_t \<Rightarrow> nat
     \<Rightarrow> fault + (retcode \<times> exfat \<times> exfat_node \<times> cluster_t)" where
  "grow_loop ef node current allocated previous 0 = Inr (RC0, ef, node, previous)"
| "grow_loop ef node current allocated previous (Suc k) =
     andThen (allocate_cluster ef (previous + 1)) (\<lambda>(next, ef).
       if CLUSTER_INVALID (ef_sb ef) next then
         (if allocated \<noteq> 0 then
            andThen (shrink_file ef node (current + allocated) allocated)
              (\<lambda>(_, ef, node). Inr (ENOSPC, ef, node, previous))
          else Inr (ENOSPC, ef, node, previous))
       else
         (case (if next \<noteq> previous - 1 \<and> nd_is_contiguous node then
                  (case make_noncontiguous ef (nd_start_cluster node)
                          (unat previous - unat (nd_start_cluster node)) of
                     (ok, ef) \<Rightarrow>
                       (ok, ef, if ok then node\<lparr>nd_is_contiguous := False, nd_is_dirty := True\<rparr> else node))
                else (True, ef, node)) of
            (ok, ef, node) \<Rightarrow>
              if \<not> ok then Inr (EIO, ef, node, previous)
              else (case set_next_cluster ef (nd_is_contiguous node) previous next of
                      (ok, ef) \<Rightarrow>
                        if \<not> ok then Inr (EIO, ef, node, previous)
                        else grow_loop ef node current (allocated + 1) next k)))"

definition grow_file ::
    "exfat \<Rightarrow> exfat_node \<Rightarrow> u32 \<Rightarrow> u32 \<Rightarrow> fault + (retcode \<times> exfat \<times> exfat_node)" where
  "grow_file ef node current difference =
     (if difference = 0 then Inl Abort
      else andThen
        (if nd_start_cluster node \<noteq> EXFAT_CLUSTER_FREE then
           andThen (exfat_advance_cluster ef node (current - 1)) (\<lambda>(previous, node).
             Inr (if CLUSTER_INVALID (ef_sb ef) previous then EIO else RC0, ef, node, previous, 0))
         else if nd_fptr_index node \<noteq> 0 then Inl Abort
         else andThen (allocate_cluster ef 0) (\<lambda>(previous, ef).
             if CLUSTER_INVALID (ef_sb ef) previous then Inr (ENOSPC, ef, node, previous, 0)
             else Inr (RC0, ef, node\<lparr>nd_fptr_cluster := previous, nd_start_cluster := previous,
                                    nd_is_contiguous := True\<rparr>, previous, 1)))
        (\<lambda>(rc, ef, node, previous, allocated).
           if rc \<noteq> RC0 then Inr (rc, ef, node)
           else andThen (grow_loop ef node current allocated previous
                           (unat difference - unat allocated))
             (\<lambda>(rc, ef, node, previous).
                if rc \<noteq> RC0 then Inr (rc, ef, node)
                else (case set_next_cluster ef (nd_is_contiguous node) previous EXFAT_CLUSTER_END of
                        (ok, ef) \<Rightarrow> Inr (if ok then RC0 else EIO, ef, node)))))"

section \<open>Erasing and truncating\<close>

definition erase_raw :: "exfat \<Rightarrow> nat \<Rightarrow> int \<Rightarrow> bool \<times> exfat" where
  "erase_raw ef n off =
     (case exfat_pwrite (ef_dev ef) (replicate n 0) off of
        None \<Rightarrow> (False, ef) | Some d \<Rightarrow> (True, ef\<lparr>ef_dev := d\<rparr>))"

text \<open>Erase \<open>k\<close> whole clusters following \<open>cluster\<close>.\<close>

primrec erase_clusters ::
    "exfat \<Rightarrow> exfat_node \<Rightarrow> cluster_t \<Rightarrow> nat \<Rightarrow> fault + (retcode \<times> exfat)" where
  "erase_clusters ef node cluster 0 = Inr (RC0, ef)"
| "erase_clusters ef node cluster (Suc k) =
     andThen (exfat_next_cluster ef node cluster) (\<lambda>cluster.
       if CLUSTER_INVALID (ef_sb ef) cluster then Inl Abort
       else andThen (exfat_c2o (ef_sb ef) cluster) (\<lambda>off.
         case erase_raw ef (CLUSTER_SIZE (ef_sb ef)) off of
           (ok, ef) \<Rightarrow> if \<not> ok then Inr (EIO, ef) else erase_clusters ef node cluster k))"

text \<open>
  \<open>cluster_boundary\<close> starts at the first multiple of the cluster size after \<open>begin\<close> and grows
  by the cluster size while it is below \<open>end\<close>; the model refuses (\<^const>\<open>OutOfFuel\<close>) ends so close
  to 2^64 that this counter would wrap around.
\<close>

definition erase_range ::
    "exfat \<Rightarrow> exfat_node \<Rightarrow> u64 \<Rightarrow> u64 \<Rightarrow> fault + (retcode \<times> exfat \<times> exfat_node)" where
  "erase_range ef node begin stop =
     (let cs = CLUSTER_SIZE (ef_sb ef);
          boundary = (unat begin div cs + 1) * cs in
      if begin \<ge> stop then Inr (RC0, ef, node)
      else if round_up (unat stop) cs \<ge> 2 ^ 64 then Inl OutOfFuel
      else andThen (exfat_advance_cluster ef node (word_of_nat (unat begin div cs)))
        (\<lambda>(cluster, node).
           if CLUSTER_INVALID (ef_sb ef) cluster then Inr (EIO, ef, node)
           else andThen (exfat_c2o (ef_sb ef) cluster) (\<lambda>off.
             case erase_raw ef (min boundary (unat stop) - unat begin)
                    (off + int (unat begin mod cs)) of
               (ok, ef) \<Rightarrow>
                 if \<not> ok then Inr (EIO, ef, node)
                 else andThen (erase_clusters ef node cluster (div_round_up (unat stop - boundary) cs))
                   (\<lambda>(rc, ef). Inr (rc, ef, node)))))"

text \<open>\<open>exfat_update_mtime\<close> and \<open>exfat_update_atime\<close> are in node.c.\<close>

definition exfat_update_mtime :: "exfat \<Rightarrow> exfat_node \<Rightarrow> exfat_node" where
  "exfat_update_mtime ef node = node\<lparr>nd_mtime := ef_now ef, nd_is_dirty := True\<rparr>"

definition exfat_update_atime :: "exfat \<Rightarrow> exfat_node \<Rightarrow> exfat_node" where
  "exfat_update_atime ef node = node\<lparr>nd_atime := ef_now ef, nd_is_dirty := True\<rparr>"

definition exfat_truncate ::
    "exfat \<Rightarrow> exfat_node \<Rightarrow> u64 \<Rightarrow> bool \<Rightarrow> fault + (retcode \<times> exfat \<times> exfat_node)" where
  "exfat_truncate ef node new_size erase =
     (let c1 = bytes2clusters (ef_sb ef) (nd_size node);
          c2 = bytes2clusters (ef_sb ef) new_size in
      if nd_references node = 0 \<and> nd_parent node \<noteq> None then Inl Abort
      else if nd_size node = new_size then Inr (RC0, ef, node)
      else andThen
        (if c1 < c2 then grow_file ef node c1 (c2 - c1)
         else if c1 > c2 then shrink_file ef node c1 (c1 - c2)
         else Inr (RC0, ef, node))
        (\<lambda>(rc, ef, node).
           if rc \<noteq> RC0 then Inr (rc, ef, node)
           else andThen (if erase then erase_range ef node (nd_size node) new_size
                         else Inr (RC0, ef, node))
             (\<lambda>(rc, ef, node).
                if rc \<noteq> RC0 then Inr (rc, ef, node)
                else Inr (RC0, ef, (exfat_update_mtime ef node)\<lparr>nd_size := new_size, nd_is_dirty := True\<rparr>))))"

section \<open>Used areas\<close>

text \<open>
  The two loops of \<open>find_used_clusters\<close>, for \<open>k\<close> clusters from \<open>c\<close>; \<open>end\<close> is the cluster
  count, although clusters are numbered from 2. A bit outside the bitmap is undefined.
\<close>

primrec find_used_from :: "exfat \<Rightarrow> cluster_t \<Rightarrow> nat \<Rightarrow> fault + cluster_t" where
  "find_used_from ef c 0 = Inr c"
| "find_used_from ef c (Suc k) =
     (let i = unat (c - EXFAT_FIRST_DATA_CLUSTER) in
      if i \<ge> bmap_room (cmap_chunk ef) then Inl Undef
      else if BMAP_GET (cmap_chunk ef) i then Inr c else find_used_from ef (c + 1) k)"

primrec find_unused_from :: "exfat \<Rightarrow> cluster_t \<Rightarrow> nat \<Rightarrow> fault + cluster_t" where
  "find_unused_from ef c 0 = Inr c"
| "find_unused_from ef c (Suc k) =
     (let i = unat (c - EXFAT_FIRST_DATA_CLUSTER) in
      if i \<ge> bmap_room (cmap_chunk ef) then Inl Undef
      else if \<not> BMAP_GET (cmap_chunk ef) i then Inr (c - 1) else find_unused_from ef (c + 1) k)"

text \<open>\<^const>\<open>None\<close> is the return value 1 (nothing found), \<open>Some (a, b)\<close> is 0.\<close>

definition find_used_clusters ::
    "exfat \<Rightarrow> cluster_t \<Rightarrow> fault + (cluster_t \<times> cluster_t) option" where
  "find_used_clusters ef b =
     (let stop = sb_cluster_count (ef_sb ef) in
      andThen (find_used_from ef (b + 1) (unat stop - unat (b + 1))) (\<lambda>a.
        if a \<ge> stop then Inr None
        else andThen (find_unused_from ef a (unat stop - unat a)) (\<lambda>b. Inr (Some (a, b)))))"

definition exfat_find_used_sectors ::
    "exfat \<Rightarrow> int \<Rightarrow> int \<Rightarrow> fault + (int \<times> int) option" where
  "exfat_find_used_sectors ef a b =
     (let sb = ef_sb ef;
          cb = (if a = 0 \<and> b = 0 then EXFAT_FIRST_DATA_CLUSTER - 1 else s2c sb b) in
      andThen (find_used_clusters ef cb) (\<lambda>r.
        case r of None \<Rightarrow> Inr None
        | Some (ca, cb) \<Rightarrow>
            andThen (if a \<noteq> 0 \<or> b \<noteq> 0 then c2s sb ca else Inr a) (\<lambda>a'.
              andThen (c2s sb cb) (\<lambda>b'.
                Inr (Some (a', b' + (int (CLUSTER_SIZE sb) - 1) div int (SECTOR_SIZE sb)))))))"

end
