(* ===== verification/Demo.thy ===== *)
theory Demo
  imports Fs
begin

text \<open>
  A small volume the concrete instances of the properties use: 512-byte sectors, one sector
  per cluster, 8 clusters (2 to 9). Sector 1 holds the allocation table and the clusters
  start at sector 2. Clusters 2, 3 and 4 hold the bitmap, the upper case table and the
  root directory; a file occupies 5, 7 and 9; 6 and 8 are free.
\<close>

definition demo_sb :: exfat_super_block where
  "demo_sb = \<lparr>sb_jump = [0xEB, 0x76, 0x90], sb_oem_name = [69, 88, 70, 65, 84, 32, 32, 32],
     sb_unused1 = replicate 53 0, sb_sector_start = 0, sb_sector_count = 10,
     sb_fat_sector_start = 1, sb_fat_sector_count = 1, sb_cluster_sector_start = 2,
     sb_cluster_count = 8, sb_rootdir_cluster = 4, sb_volume_serial = 1,
     sb_version_minor = 0, sb_version_major = 1, sb_volume_state = 0, sb_sector_bits = 9,
     sb_spc_bits = 0, sb_fat_count = 1, sb_drive_no = 0x80, sb_allocated_percent = 75,
     sb_unused2 = replicate 397 0, sb_boot_signature = 0xAA55\<rparr>"

definition demo_fat :: "u8 list" where
  "demo_fat = [0xf8, 0xff, 0xff, 0xff,  0xff, 0xff, 0xff, 0xff,  0xff, 0xff, 0xff, 0xff,
     0xff, 0xff, 0xff, 0xff,  0xff, 0xff, 0xff, 0xff,  7, 0, 0, 0,  0, 0, 0, 0,
     9, 0, 0, 0,  0, 0, 0, 0,  0xff, 0xff, 0xff, 0xff]"

definition demo_bytes :: "nat \<Rightarrow> u8" where
  "demo_bytes i = (if 512 \<le> i \<and> i < 552 then demo_fat ! (i - 512) else 0)"

definition demo_dev :: exfat_dev where
  "demo_dev = \<lparr>dev_mode = EXFAT_MODE_RW, dev_size = 5120, dev_bytes = demo_bytes,
     dev_rd_err = (\<lambda>_ _. False), dev_wr_err = (\<lambda>_ _. False), dev_sync_err = False\<rparr>"

definition demo_ef :: exfat where
  "demo_ef = \<lparr>ef_dev = demo_dev, ef_sb = demo_sb, ef_upcase = [], ef_root = 0,
     cmap_start_cluster = 2, cmap_size = 8, cmap_chunk = [0xAF], cmap_chunk_size = 8,
     cmap_dirty = False, ef_label = replicate 46 0, ef_dmask = 0, ef_fmask = 0, ef_uid = 0,
     ef_gid = 0, ef_ro = 0, ef_noatime = False, ef_repair = EXFAT_REPAIR_NO,
     ef_nodes = (\<lambda>_. None), ef_next_ptr = 0, ef_now = 1000000000, ef_tz = 0,
     ef_malloc_ok = (\<lambda>_. True), ef_stdin = [], ef_junk = (\<lambda>_. 0), ef_errors_fixed = 0\<rparr>"

text \<open>The node of the file, and of a contiguous one.\<close>

definition demo_file :: exfat_node where
  "demo_file = zero_node\<lparr>nd_start_cluster := 5, nd_fptr_cluster := 5, nd_size := 1300,
     nd_references := 1, nd_attrib := 0x20, nd_continuations := 2\<rparr>"

lemma demo_sizes [simp]: "SECTOR_SIZE demo_sb = 512" "CLUSTER_SIZE demo_sb = 512"
  by (simp_all add: SECTOR_SIZE_def CLUSTER_SIZE_def demo_sb_def)

lemma demo_geometry [simp]: "geometry_ok demo_sb"
  by (simp add: geometry_ok_def demo_sb_def)

lemma demo_ef_sel [simp]:
  "ef_sb demo_ef = demo_sb" "ef_dev demo_ef = demo_dev" "cmap_size demo_ef = 8"
  "cmap_chunk demo_ef = [0xAF]" "cmap_chunk_size demo_ef = 8" "ef_now demo_ef = 1000000000"
  by (simp_all add: demo_ef_def)

lemma demo_sb_sel [simp]:
  "sb_cluster_count demo_sb = 8" "sb_cluster_sector_start demo_sb = 2" "sb_fat_sector_start demo_sb = 1"
  "sb_sector_bits demo_sb = 9" "sb_spc_bits demo_sb = 0" "sb_sector_count demo_sb = 10"
  by (simp_all add: demo_sb_def)

lemma demo_dev_sel [simp]:
  "dev_size demo_dev = 5120" "readable demo_dev" "writable demo_dev" "dev_mode demo_dev = EXFAT_MODE_RW"
  "dev_rd_err demo_dev = (\<lambda>_ _. False)" "dev_wr_err demo_dev = (\<lambda>_ _. False)" "dev_bytes demo_dev = demo_bytes"
  by (simp_all add: demo_dev_def readable_def writable_def)

lemma demo_cluster_valid: "\<not> CLUSTER_INVALID demo_sb c \<longleftrightarrow> 2 \<le> unat c \<and> unat c < 10"
  by (auto simp: cluster_valid_iff)

end
