(* ===== verification/ClusterProofs.thy ===== *)
theory ClusterProofs
  imports Cluster Demo
begin

text \<open>
  Correctness of the cluster layer: addresses, the allocation bitmap, the file allocation
  table as an array of links, and the chain pointer cached in a node.
\<close>

section \<open>Addresses\<close>

definition cluster_start :: "exfat_super_block \<Rightarrow> cluster_t \<Rightarrow> nat" where
  "cluster_start sb c =
     (unat (sb_cluster_sector_start sb) + (unat c - 2) * 2 ^ unat (sb_spc_bits sb)) * SECTOR_SIZE sb"

lemma c2o_eq:
  assumes "2 \<le> unat c"
  shows "exfat_c2o sb c = Inr (int (cluster_start sb c))"
proof -
  have c: "\<not> c < 2" using assms by (simp add: word_less_nat_alt)
  have "uint (c - 2) = int (unat c - 2)" by (simp only: uint_nat unat_minus_2[OF c])
  then show ?thesis using c
    by (simp add: exfat_c2o_def c2s_def s2o_def cluster_start_def SECTOR_SIZE_def)
qed

lemma cluster_start_step: "2 \<le> unat c \<Longrightarrow> 2 \<le> unat d \<Longrightarrow> unat c < unat d \<Longrightarrow>
   cluster_start sb c + CLUSTER_SIZE sb \<le> cluster_start sb d"
proof -
  assume "2 \<le> unat c" "2 \<le> unat d" "unat c < unat d"
  then have "unat c - 2 + 1 \<le> unat d - 2" by linarith
  then have "(unat c - 2 + 1) * 2 ^ unat (sb_spc_bits sb) \<le> (unat d - 2) * 2 ^ unat (sb_spc_bits sb)"
    by (rule mult_le_mono1)
  then have "(unat (sb_cluster_sector_start sb) + (unat c - 2) * 2 ^ unat (sb_spc_bits sb)
        + 2 ^ unat (sb_spc_bits sb)) * SECTOR_SIZE sb
      \<le> (unat (sb_cluster_sector_start sb) + (unat d - 2) * 2 ^ unat (sb_spc_bits sb)) * SECTOR_SIZE sb"
    by (intro mult_le_mono1) simp
  then show ?thesis by (simp add: cluster_start_def CLUSTER_SIZE_def algebra_simps)
qed

text \<open>
  C35: on a volume the mount code accepts, the byte range of every valid cluster lies below
  2^59, so no offset overflows \<open>off_t\<close>, and different clusters do not overlap.
\<close>

theorem cluster_ranges:
  assumes "geometry_ok sb" "\<not> CLUSTER_INVALID sb c" "\<not> CLUSTER_INVALID sb d" "c \<noteq> d"
  shows "\<exists>a b. exfat_c2o sb c = Inr a \<and> exfat_c2o sb d = Inr b \<and> 0 \<le> a \<and> 0 \<le> b \<and>
    a + int (CLUSTER_SIZE sb) \<le> 2 ^ 59 \<and> b + int (CLUSTER_SIZE sb) \<le> 2 ^ 59 \<and>
    (a + int (CLUSTER_SIZE sb) \<le> b \<or> b + int (CLUSTER_SIZE sb) \<le> a)"
proof -
  have bound: "cluster_start sb x + CLUSTER_SIZE sb \<le> 2 ^ 59" for x
  proof -
    define s where "s = unat (sb_sector_bits sb)"
    define p where "p = unat (sb_spc_bits sb)"
    have sp: "s + p \<le> 25" using assms(1) by (simp add: geometry_ok_def s_def p_def)
    have x: "unat x - 2 \<le> 2 ^ 32" "unat (sb_cluster_sector_start sb) \<le> 2 ^ 32"
      using unat_bound[of x] unat_bound[of "sb_cluster_sector_start sb"] by simp_all
    have sP: "(2 :: nat) ^ s \<le> 2 ^ 25" "(2 :: nat) ^ (s + p) \<le> 2 ^ 25"
      using sp by (intro power_increasing; simp)+
    have "cluster_start sb x + CLUSTER_SIZE sb
        = unat (sb_cluster_sector_start sb) * 2 ^ s + (unat x - 2) * 2 ^ (s + p) + 2 ^ (s + p)"
      by (simp add: cluster_start_def CLUSTER_SIZE_def SECTOR_SIZE_def s_def p_def power_add algebra_simps)
    also have "\<dots> \<le> 2 ^ 32 * 2 ^ 25 + 2 ^ 32 * 2 ^ 25 + 2 ^ 25"
      by (intro add_mono mult_mono x sP) simp_all
    also have "\<dots> \<le> 2 ^ 59" by simp
    finally show ?thesis .
  qed
  have 2: "2 \<le> unat c" "2 \<le> unat d" using assms(2,3) by (simp_all add: cluster_valid_iff)
  have "unat c \<noteq> unat d" using assms(4) by (simp add: word_unat_eq_iff)
  then have "cluster_start sb c + CLUSTER_SIZE sb \<le> cluster_start sb d \<or>
      cluster_start sb d + CLUSTER_SIZE sb \<le> cluster_start sb c"
    using cluster_start_step[OF 2, of sb] cluster_start_step[OF 2(2,1), of sb] by linarith
  then show ?thesis using bound[of c] bound[of d] c2o_eq[OF 2(1)] c2o_eq[OF 2(2)] by auto
qed

theorem cluster_ranges_witness:
  "\<exists>a b. exfat_c2o demo_sb 5 = Inr a \<and> exfat_c2o demo_sb 7 = Inr b \<and> (a + 512 \<le> b \<or> b + 512 \<le> a)"
  using cluster_ranges[of demo_sb 5 7] by (auto simp: demo_cluster_valid)

text \<open>\<open>s2c\<close> inverts \<open>c2s\<close>, from any sector of the cluster.\<close>

lemma s2c_c2s:
  assumes "2 \<le> c" "c2s sb c = Inr s" "0 \<le> k" "k < 2 ^ unat (sb_spc_bits sb)"
  shows "s2c sb (s + k) = c"
proof -
  have s: "s - uint (sb_cluster_sector_start sb) = uint (c - 2) * 2 ^ unat (sb_spc_bits sb)"
    using assms(1,2) by (auto simp: c2s_def split: if_splits)
  have "(s + k - uint (sb_cluster_sector_start sb)) div 2 ^ unat (sb_spc_bits sb)
      = (k + uint (c - 2) * 2 ^ unat (sb_spc_bits sb)) div 2 ^ unat (sb_spc_bits sb)"
    using s by (simp add: algebra_simps)
  also have "\<dots> = uint (c - 2) + k div 2 ^ unat (sb_spc_bits sb)" by (rule div_mult_self1) simp
  also have "k div 2 ^ unat (sb_spc_bits sb) = 0" using assms(3,4) by simp
  finally show ?thesis by (simp add: s2c_def)
qed

text \<open>
  \<open>bytes2clusters\<close> is the ceiling of the quotient whenever the sum does not wrap and the
  result fits 32 bits.
\<close>

lemma bytes2clusters_ceiling:
  assumes "geometry_ok sb" "unat bytes \<le> 2 ^ 32 * CLUSTER_SIZE sb - CLUSTER_SIZE sb"
  shows "unat (bytes2clusters sb bytes) = div_round_up (unat bytes) (CLUSTER_SIZE sb)"
proof -
  let ?cs = "CLUSTER_SIZE sb"
  have "?cs = 2 ^ (unat (sb_sector_bits sb) + unat (sb_spc_bits sb))"
    by (simp add: CLUSTER_SIZE_def SECTOR_SIZE_def power_add)
  also have "\<dots> \<le> 2 ^ 25" using assms(1) by (intro power_increasing) (auto simp: geometry_ok_def)
  finally have cs: "?cs \<le> 2 ^ 25" .
  have pos: "0 < ?cs" by simp
  have ucs: "unat (word_of_nat ?cs :: u64) = ?cs" using cs by (simp add: unat_of_nat)
  have tot: "unat bytes + ?cs \<le> 2 ^ 32 * ?cs" using assms(2) pos by simp
  also have "\<dots> \<le> 2 ^ 57" using cs by simp
  finally have sm: "unat bytes + ?cs \<le> 2 ^ 57" .
  have u1: "unat (bytes + word_of_nat ?cs) = unat bytes + ?cs"
    using sm ucs by (simp add: unat_word_ariths)
  have "1 \<le> bytes + word_of_nat ?cs" unfolding word_le_nat_alt u1 by (simp add: Suc_leI)
  then have "unat (bytes + word_of_nat ?cs - 1) = unat bytes + ?cs - 1"
    using unat_sub[of 1 "bytes + word_of_nat ?cs"] u1 by simp
  then have q: "unat ((bytes + word_of_nat ?cs - 1) div word_of_nat ?cs) = (unat bytes + ?cs - 1) div ?cs"
    using ucs by (simp add: unat_div)
  have "(unat bytes + ?cs - 1) div ?cs < 2 ^ 32"
    using tot pos by (intro less_mult_imp_div_less) linarith
  then show ?thesis using q
    by (simp add: bytes2clusters_def Let_def div_round_up_def unsigned_ucast_eq take_bit_nat_eq_self)
qed

section \<open>The bitmap\<close>

definition cmap_ok :: "exfat \<Rightarrow> bool" where
  "cmap_ok ef \<longleftrightarrow> cmap_size ef = sb_cluster_count (ef_sb ef) \<and> cmap_chunk_size ef = cmap_size ef \<and>
     unat (cmap_size ef) \<le> bmap_room (cmap_chunk ef) \<and> unat (cmap_size ef) \<le> 0xfffffff5"

lemma cmap_okD:
  assumes "cmap_ok ef"
  shows "cmap_size ef = sb_cluster_count (ef_sb ef)" "cmap_chunk_size ef = cmap_size ef"
    "unat (cmap_size ef) \<le> bmap_room (cmap_chunk ef)" "unat (cmap_size ef) \<le> 0xfffffff5"
  using assms unfolding cmap_ok_def by blast+

definition cluster_used :: "exfat \<Rightarrow> cluster_t \<Rightarrow> bool" where
  "cluster_used ef c = BMAP_GET (cmap_chunk ef) (unat c - 2)"

definition free_clusters :: "exfat \<Rightarrow> nat" where
  "free_clusters ef = card {i. i < unat (cmap_size ef) \<and> \<not> BMAP_GET (cmap_chunk ef) i}"

lemma demo_cmap_ok: "cmap_ok demo_ef"
  by (simp add: cmap_ok_def)

lemma demo_free: "free_clusters demo_ef \<noteq> 0"
proof -
  have "(4 :: nat) \<in> {i. i < 8 \<and> \<not> BMAP_GET [0xAF] i}" by (simp add: BMAP_GET_def)
  then have "{i. i < 8 \<and> \<not> BMAP_GET [0xAF] i} \<noteq> ({} :: nat set)" by (metis empty_iff)
  moreover have "finite {i :: nat. i < 8 \<and> \<not> BMAP_GET [0xAF] i}" by simp
  ultimately show ?thesis by (simp add: free_clusters_def card_eq_0_iff)
qed

lemma count_clear_card: "count_clear bm n = card {i. i < n \<and> \<not> BMAP_GET bm i}"
proof (induction n)
  case 0
  then show ?case by simp
next
  case (Suc n)
  have "{i. i < Suc n \<and> \<not> BMAP_GET bm i} =
      (if BMAP_GET bm n then {i. i < n \<and> \<not> BMAP_GET bm i} else insert n {i. i < n \<and> \<not> BMAP_GET bm i})"
    by (auto simp: less_Suc_eq)
  then show ?case using Suc by simp
qed

text \<open>The free cluster count is the number of clear bits of the bitmap.\<close>

lemma count_free_clusters_card:
  assumes "cmap_ok ef"
  shows "\<exists>n. exfat_count_free_clusters ef = Inr n \<and> unat n = free_clusters ef"
proof -
  have "card {i. i < unat (cmap_size ef) \<and> \<not> BMAP_GET (cmap_chunk ef) i} \<le> card {..<unat (cmap_size ef)}"
    by (rule card_mono) auto
  then have "free_clusters ef < 2 ^ 32"
    using unat_bound[of "cmap_size ef"] by (simp add: free_clusters_def)
  then show ?thesis using assms
    by (auto simp: exfat_count_free_clusters_def cmap_ok_def free_clusters_def count_clear_card unat_of_nat)
qed

lemma cluster_of_bit:
  assumes "i < n" "n \<le> 0xfffffff5"
  shows "unat (word_of_nat i + 2 :: cluster_t) = i + 2" "(word_of_nat i + 2 :: cluster_t) \<noteq> 0xffffffff"
proof -
  show u: "unat (word_of_nat i + 2 :: cluster_t) = i + 2"
    using assms by (simp add: unat_word_ariths unat_of_nat)
  then show "(word_of_nat i + 2 :: cluster_t) \<noteq> 0xffffffff" using assms by auto
qed

lemma allocate_cluster_spec:
  assumes "cmap_ok ef"
  shows "\<exists>c ef'. allocate_cluster ef hint = Inr (c, ef') \<and>
    (if free_clusters ef = 0 then c = EXFAT_CLUSTER_END \<and> ef' = ef
     else \<not> CLUSTER_INVALID (ef_sb ef) c \<and> \<not> cluster_used ef c \<and>
          ef' = ef\<lparr>cmap_chunk := BMAP_SET (cmap_chunk ef) (unat c - 2), cmap_dirty := True\<rparr>)"
proof -
  let ?n = "unat (cmap_size ef)" and ?bm = "cmap_chunk ef" and ?P = "\<lambda>i. \<not> BMAP_GET (cmap_chunk ef) i"
  define h where "h = (if hint - 2 \<ge> cmap_chunk_size ef then 0 else hint - 2)"
  have n: "cmap_chunk_size ef = cmap_size ef" "?n \<le> bmap_room ?bm" "?n \<le> 0xfffffff5"
      "sb_cluster_count (ef_sb ef) = cmap_size ef"
    using assms by (auto simp: cmap_ok_def)
  have h: "unat h \<le> ?n" using n(1) by (auto simp: h_def not_le word_less_nat_alt)
  have ev: "allocate_cluster ef hint =
      andThen (find_bit_and_set ?bm (unat h) ?n)
        (\<lambda>(cluster, chunk).
           andThen (if cluster = EXFAT_CLUSTER_END then find_bit_and_set chunk 0 (unat h) else Inr (cluster, chunk))
             (\<lambda>(cluster, chunk). if cluster = EXFAT_CLUSTER_END then Inr (EXFAT_CLUSTER_END, ef)
                else Inr (cluster, ef\<lparr>cmap_chunk := chunk, cmap_dirty := True\<rparr>)))"
    unfolding allocate_cluster_def Let_def h_def n(1) by (rule refl)
  have free0: "free_clusters ef = 0 \<longleftrightarrow> (\<forall>i < ?n. BMAP_GET ?bm i)"
    by (auto simp: free_clusters_def)
  have found: "\<not> CLUSTER_INVALID (ef_sb ef) (word_of_nat i + 2) \<and> \<not> cluster_used ef (word_of_nat i + 2) \<and>
      word_of_nat i + 2 \<noteq> EXFAT_CLUSTER_END \<and> unat (word_of_nat i + 2 :: cluster_t) - 2 = i \<and> free_clusters ef \<noteq> 0"
    if "i < ?n" "?P i" for i
    using cluster_of_bit[OF that(1) n(3)] that n(4) free0
    by (auto simp: cluster_valid_iff cluster_used_def)
  note hi = find_bit_and_set_find[OF n(2), of "unat h"]
  have "unat h \<le> bmap_room ?bm" using h n(2) by simp
  note lo = find_bit_and_set_find[OF this, of 0]
  show ?thesis
  proof (cases "find ?P [unat h..<?n]")
    case (Some i)
    then have "i < ?n" "?P i" by (auto simp: find_Some_iff)
    then show ?thesis using found[of i] Some hi ev by simp
  next
    case None
    show ?thesis
    proof (cases "find ?P [0..<unat h]")
      case (Some i)
      then have "i < ?n" "?P i" using h by (auto simp: find_Some_iff)
      then show ?thesis using found[of i] Some None hi lo ev by simp
    next
      case none2: None
      have "BMAP_GET ?bm i" if "i < ?n" for i
        using None none2 that by (cases "i < unat h") (auto simp: find_None_iff)
      then show ?thesis using free0 None none2 hi lo ev by simp
    qed
  qed
qed

text \<open>
  C29: \<open>allocate_cluster\<close> always returns; when some cluster is free it hands out a valid one
  that was free and marks it (and nothing else) used, otherwise it reports the end mark and
  changes nothing.
\<close>

theorem allocate_cluster_correct:
  assumes "cmap_ok ef"
  shows "\<exists>c ef'. allocate_cluster ef hint = Inr (c, ef') \<and>
    (if free_clusters ef = 0 then c = EXFAT_CLUSTER_END \<and> ef' = ef
     else \<not> CLUSTER_INVALID (ef_sb ef) c \<and> \<not> cluster_used ef c \<and>
          ef' = ef\<lparr>cmap_chunk := BMAP_SET (cmap_chunk ef) (unat c - 2), cmap_dirty := True\<rparr>)"
  by (rule allocate_cluster_spec[OF assms])

theorem allocate_cluster_correct_witness:
  "\<exists>c ef'. allocate_cluster demo_ef 5 = Inr (c, ef') \<and> \<not> CLUSTER_INVALID demo_sb c \<and> \<not> cluster_used demo_ef c"
  using allocate_cluster_correct[OF demo_cmap_ok, of 5] demo_free by auto

end
