(* ===== verification/Chain.thy ===== *)
theory Chain
  imports ClusterProofs
begin

text \<open>
  The file allocation table as an array of links, chains of clusters, the chain pointer
  cached in a node, and what freeing, growing and shrinking do to chains and to the bitmap.
\<close>

section \<open>Chains\<close>

primrec walk :: "(cluster_t \<Rightarrow> cluster_t) \<Rightarrow> cluster_t \<Rightarrow> nat \<Rightarrow> cluster_t list" where
  "walk f c 0 = []"
| "walk f c (Suc k) = c # walk f (f c) k"

lemma length_walk [simp]: "length (walk f c k) = k"
  by (induction k arbitrary: c) auto

lemma nth_walk: "j < k \<Longrightarrow> walk f c k ! j = (f ^^ j) c"
proof (induction k arbitrary: c j)
  case 0
  then show ?case by simp
next
  case (Suc k)
  then show ?case by (cases j) (auto simp: funpow_swap1)
qed

lemma walk_cong: "(\<And>d. d \<in> set (walk f c k) \<Longrightarrow> f d = g d) \<Longrightarrow> walk f c k = walk g c k"
proof (induction k arbitrary: c)
  case 0
  then show ?case by simp
next
  case (Suc k)
  have "f c = g c" by (rule Suc.prems) simp
  moreover have "walk f (f c) k = walk g (f c) k" by (rule Suc.IH) (rule Suc.prems, simp)
  ultimately show ?case by simp
qed

text \<open>What the cluster code needs of the table: a stored link is read back, the others keep.\<close>

locale link_table =
  fixes link :: "'s \<Rightarrow> cluster_t \<Rightarrow> cluster_t"
    and set_link :: "'s \<Rightarrow> cluster_t \<Rightarrow> cluster_t \<Rightarrow> 's"
    and ok :: "'s \<Rightarrow> bool"
    and slot :: "'s \<Rightarrow> cluster_t \<Rightarrow> bool"
  assumes link_same: "ok s \<Longrightarrow> slot s c \<Longrightarrow> link (set_link s c n) c = n"
    and link_other: "ok s \<Longrightarrow> slot s c \<Longrightarrow> d \<noteq> c \<Longrightarrow> link (set_link s c n) d = link s d"
    and ok_set: "ok s \<Longrightarrow> slot s c \<Longrightarrow> ok (set_link s c n)"
    and slot_set: "ok s \<Longrightarrow> slot s c \<Longrightarrow> slot (set_link s c n) d = slot s d"
begin

lemma walk_unaffected:
  assumes "ok s" "slot s c" "c \<notin> set (walk (link s) a k)"
  shows "walk (link (set_link s c n)) a k = walk (link s) a k"
  by (rule walk_cong [symmetric]) (use assms link_other in metis)

lemma walk_redirected:
  assumes "ok s" "slot s c" "c \<notin> set (walk (link s) n k)"
  shows "walk (link (set_link s c n)) c (Suc k) = c # walk (link s) n k"
  using assms by (simp add: link_same walk_unaffected)

lemma link_table_update:
  assumes "ok s" "slot s c"
  shows "link (set_link s c n) = (link s)(c := n)"
  using assms by (auto simp: link_same link_other)

end

definition fat_link :: "exfat \<Rightarrow> cluster_t \<Rightarrow> cluster_t" where
  "fat_link ef c =
     (case pread_into (ef_dev ef) (map (ef_junk ef) [0..<4]) (fat_offset (ef_sb ef) c) of
        None \<Rightarrow> EXFAT_CLUSTER_BAD | Some b \<Rightarrow> le32_to_cpu b)"

text \<open>The device serves every read and write and holds the whole table.\<close>

definition fat_ok :: "exfat \<Rightarrow> bool" where
  "fat_ok ef \<longleftrightarrow> readable (ef_dev ef) \<and> writable (ef_dev ef) \<and>
     (\<forall>c. \<not> CLUSTER_INVALID (ef_sb ef) c \<longrightarrow> nat (fat_offset (ef_sb ef) c) + 4 \<le> dev_size (ef_dev ef))"

definition valid_cluster :: "exfat \<Rightarrow> cluster_t \<Rightarrow> bool" where
  "valid_cluster ef c \<longleftrightarrow> \<not> CLUSTER_INVALID (ef_sb ef) c"

definition store_link :: "exfat \<Rightarrow> cluster_t \<Rightarrow> cluster_t \<Rightarrow> exfat" where
  "store_link ef c n = snd (set_next_cluster ef False c n)"

lemma fat_offset_cell: "fat_offset sb c = s2o sb (uint (sb_fat_sector_start sb)) + int 4 * int (unat c)"
  by (simp add: fat_offset_def)

lemma fat_offset_nonneg: "0 \<le> fat_offset sb c" "0 \<le> s2o sb (uint (sb_fat_sector_start sb))"
  by (simp_all add: fat_offset_def s2o_def)

lemma set_next_cluster_ok:
  assumes "fat_ok ef"
  shows "\<exists>d. exfat_pwrite (ef_dev ef) (cpu_to_le32 n) (fat_offset (ef_sb ef) c) = Some d \<and>
    store_link ef c n = ef\<lparr>ef_dev := d\<rparr> \<and> set_next_cluster ef False c n = (True, store_link ef c n)"
proof -
  obtain d where "exfat_pwrite (ef_dev ef) (cpu_to_le32 n) (fat_offset (ef_sb ef) c) = Some d"
    using dev.write_succeeds[OF _ fat_offset_nonneg(1)] assms unfolding fat_ok_def by blast
  then show ?thesis by (simp add: store_link_def set_next_cluster_def)
qed

interpretation fat: link_table fat_link store_link fat_ok valid_cluster
proof unfold_locales
  fix ef :: exfat and c d n :: cluster_t
  assume ok: "fat_ok ef" and v: "valid_cluster ef c"
  obtain e where e: "exfat_pwrite (ef_dev ef) (cpu_to_le32 n) (fat_offset (ef_sb ef) c) = Some e"
    and st: "store_link ef c n = ef\<lparr>ef_dev := e\<rparr>"
    using set_next_cluster_ok[OF ok] by blast
  have fits: "nat (fat_offset (ef_sb ef) c) + 4 \<le> dev_size (ef_dev ef)"
    using ok v by (simp add: fat_ok_def valid_cluster_def)
  have "exfat_pread e 4 (fat_offset (ef_sb ef) c) = Some (cpu_to_le32 n)"
    using dev.read_written[OF e] fits ok by (simp add: fat_ok_def)
  then show "fat_link (store_link ef c n) c = n"
    by (simp add: fat_link_def st pread_into_def)
  show "fat_link (store_link ef c n) d = fat_link ef d" if "d \<noteq> c"
  proof -
    have "unat c \<noteq> unat d" using that by (simp add: word_unat_eq_iff)
    from dev.cell_other[OF e[unfolded fat_offset_cell] _ this]
    have "exfat_pread e 4 (fat_offset (ef_sb ef) d) = exfat_pread (ef_dev ef) 4 (fat_offset (ef_sb ef) d)"
      unfolding fat_offset_cell by simp
    then show ?thesis by (simp add: fat_link_def st pread_into_def)
  qed
  show "fat_ok (store_link ef c n)"
    using ok dev.write_keeps[OF e] by (simp add: fat_ok_def st)
  show "valid_cluster (store_link ef c n) d = valid_cluster ef d"
    by (simp add: valid_cluster_def st)
qed

lemma store_link_frame [simp]:
  "ef_sb (store_link ef c n) = ef_sb ef" "cmap_chunk (store_link ef c n) = cmap_chunk ef"
  "cmap_size (store_link ef c n) = cmap_size ef"
  "cmap_chunk_size (store_link ef c n) = cmap_chunk_size ef"
  by (auto simp: store_link_def set_next_cluster_def split: option.splits)

text \<open>
  A link that \<open>set_next_cluster\<close> stored is the one \<open>exfat_next_cluster\<close> reads, and no other
  link of the table changes.
\<close>

lemma next_cluster_after_set:
  assumes "fat_ok ef" "valid_cluster ef c" "2 \<le> d" "\<not> nd_is_contiguous node"
  shows "\<exists>ef'. set_next_cluster ef False c n = (True, ef') \<and>
    exfat_next_cluster ef' node d = (if d = c then Inr n else exfat_next_cluster ef node d)"
proof -
  have next_link: "exfat_next_cluster s node d = Inr (fat_link s d)" for s
    using assms(3,4) by (auto simp: exfat_next_cluster_def fat_link_def split: option.splits)
  have "set_next_cluster ef False c n = (True, store_link ef c n)"
    using set_next_cluster_ok[OF assms(1)] by blast
  then show ?thesis using fat.link_table_update[OF assms(1,2)] next_link by auto
qed

lemma demo_fat_ok: "fat_ok demo_ef"
  by (auto simp: fat_ok_def demo_cluster_valid fat_offset_def s2o_def nat_add_distrib nat_mult_distrib)

section \<open>The cached chain pointer\<close>

text \<open>The successor of a cluster of a file, and the \<open>k\<close>-th cluster of its chain.\<close>

definition next_of :: "exfat \<Rightarrow> exfat_node \<Rightarrow> cluster_t \<Rightarrow> cluster_t" where
  "next_of ef node c = (if nd_is_contiguous node then c + 1 else fat_link ef c)"

definition chain_at :: "exfat \<Rightarrow> exfat_node \<Rightarrow> nat \<Rightarrow> cluster_t" where
  "chain_at ef node k = (next_of ef node ^^ k) (nd_start_cluster node)"

definition chain_valid :: "exfat \<Rightarrow> exfat_node \<Rightarrow> nat \<Rightarrow> bool" where
  "chain_valid ef node n \<longleftrightarrow> (\<forall>k \<le> n. valid_cluster ef (chain_at ef node k))"

definition fptr_ok :: "exfat \<Rightarrow> exfat_node \<Rightarrow> bool" where
  "fptr_ok ef node \<longleftrightarrow> nd_fptr_cluster node = chain_at ef node (unat (nd_fptr_index node))"

lemma valid_ge_2: "valid_cluster ef c \<Longrightarrow> \<not> c < 2"
  by (simp add: valid_cluster_def CLUSTER_INVALID_def)

lemma next_cluster_next_of: "\<not> c < 2 \<Longrightarrow> exfat_next_cluster ef node c = Inr (next_of ef node c)"
  by (auto simp: exfat_next_cluster_def next_of_def fat_link_def split: option.splits)

lemma advance_loop_funpow:
  assumes "\<forall>j \<le> k. valid_cluster ef ((next_of ef node ^^ j) c)"
  shows "advance_loop ef node c k = Inr ((next_of ef node ^^ k) c)"
  using assms
proof (induction k arbitrary: c)
  case 0
  then show ?case by simp
next
  case (Suc k)
  have v: "valid_cluster ef c" "valid_cluster ef (next_of ef node c)"
    using Suc.prems[rule_format, of 0] Suc.prems[rule_format, of 1] by auto
  have "\<forall>j \<le> k. valid_cluster ef ((next_of ef node ^^ j) (next_of ef node c))"
    using Suc.prems by (metis Suc_le_mono funpow_Suc_right o_apply)
  from Suc.IH[OF this] show ?case
    using v next_cluster_next_of[OF valid_ge_2[OF v(1)]]
    by (simp add: funpow_swap1 valid_cluster_def)
qed

lemma next_of_fptr [simp]:
  "next_of ef (node\<lparr>nd_fptr_index := i\<rparr>) = next_of ef node"
  "next_of ef (node\<lparr>nd_fptr_cluster := c\<rparr>) = next_of ef node"
  "next_of ef (node\<lparr>nd_start_cluster := c\<rparr>) = next_of ef node"
  by (auto simp: next_of_def)

lemma advance_cluster_chain:
  assumes "fptr_ok ef node" "chain_valid ef node (unat count)"
  shows "exfat_advance_cluster ef node count =
    Inr (chain_at ef node (unat count),
         node\<lparr>nd_fptr_cluster := chain_at ef node (unat count), nd_fptr_index := count\<rparr>)"
proof (cases "nd_fptr_index node > count")
  case True
  have "advance_loop ef node' (nd_start_cluster node) (unat count) = Inr (chain_at ef node (unat count))"
    if "next_of ef node' = next_of ef node" for node'
    using advance_loop_funpow[of "unat count" ef node' "nd_start_cluster node"] assms(2) that
    by (simp add: chain_valid_def chain_at_def)
  then show ?thesis using True by (simp add: exfat_advance_cluster_def Let_def)
next
  case False
  then have le: "unat (nd_fptr_index node) \<le> unat count" by (simp add: word_le_nat_alt not_less)
  let ?i = "unat (nd_fptr_index node)" and ?d = "unat count - unat (nd_fptr_index node)"
  have plus: "(next_of ef node ^^ j) (nd_fptr_cluster node) = chain_at ef node (?i + j)" for j
    using assms(1) by (simp add: fptr_ok_def chain_at_def funpow_add add.commute[of _ j])
  have "advance_loop ef node (nd_fptr_cluster node) ?d = Inr (chain_at ef node (unat count))"
    using advance_loop_funpow[of ?d ef node "nd_fptr_cluster node"] assms(2) le plus
    by (simp add: chain_valid_def)
  then show ?thesis using False by (simp add: exfat_advance_cluster_def)
qed

text \<open>
  C30: \<open>exfat_advance_cluster\<close> returns the cluster reached by following the chain from its
  start, wherever the cached pointer stood, and leaves the cache on it.
\<close>

theorem advance_cluster_correct:
  assumes "fptr_ok ef node" "chain_valid ef node (unat count)"
  shows "exfat_advance_cluster ef node count =
    Inr (chain_at ef node (unat count),
         node\<lparr>nd_fptr_cluster := chain_at ef node (unat count), nd_fptr_index := count\<rparr>)"
  by (rule advance_cluster_chain[OF assms])

lemma demo_fat_link: "fat_link demo_ef 5 = 7" "fat_link demo_ef 7 = 9"
  by (simp_all add: fat_link_def fat_offset_def s2o_def pread_into_def exfat_pread_def
      demo_bytes_def demo_fat_def le32_to_cpu_def)

theorem advance_cluster_correct_witness:
  "exfat_advance_cluster demo_ef demo_file 1 = Inr (7, demo_file\<lparr>nd_fptr_cluster := 7, nd_fptr_index := 1\<rparr>)"
proof -
  have at: "chain_at demo_ef demo_file 0 = 5" "chain_at demo_ef demo_file 1 = 7"
    by (simp_all add: chain_at_def next_of_def demo_file_def zero_node_def demo_fat_link)
  have "chain_valid demo_ef demo_file 1"
    using at by (auto simp: chain_valid_def valid_cluster_def demo_cluster_valid le_Suc_eq)
  moreover have "fptr_ok demo_ef demo_file"
    using at by (simp add: fptr_ok_def demo_file_def zero_node_def)
  ultimately show ?thesis using advance_cluster_correct[of demo_ef demo_file 1] at by simp
qed

section \<open>Freeing\<close>

text \<open>The fields the cluster code never changes.\<close>

definition same_volume :: "exfat \<Rightarrow> exfat \<Rightarrow> bool" where
  "same_volume ef ef' \<longleftrightarrow> ef_sb ef' = ef_sb ef \<and> cmap_size ef' = cmap_size ef \<and>
     cmap_chunk_size ef' = cmap_chunk_size ef \<and> length (cmap_chunk ef') = length (cmap_chunk ef)"

lemma same_volume_refl [simp]: "same_volume ef ef"
  by (simp add: same_volume_def)

lemma same_volume_trans: "same_volume a b \<Longrightarrow> same_volume b c \<Longrightarrow> same_volume a c"
  by (simp add: same_volume_def)

lemma same_volume_cmap_ok: "same_volume ef ef' \<Longrightarrow> cmap_ok ef \<Longrightarrow> cmap_ok ef'"
  unfolding same_volume_def cmap_ok_def by metis

lemma same_volume_valid: "same_volume ef ef' \<Longrightarrow> valid_cluster ef' c = valid_cluster ef c"
  by (simp add: same_volume_def valid_cluster_def)

lemma same_volume_store_link [simp]: "same_volume ef (store_link ef c n)"
  by (simp add: same_volume_def)

lemma set_next_cluster_frame:
  assumes "set_next_cluster ef contig c n = (ok, ef')"
  shows "same_volume ef ef' \<and> cmap_chunk ef' = cmap_chunk ef"
  using assms by (auto simp: set_next_cluster_def same_volume_def split: if_splits option.splits)

lemma valid_bit_index:
  assumes "cmap_ok ef" "valid_cluster ef c"
  shows "unat (c - 2) = unat c - 2" "unat c - 2 < unat (cmap_size ef)" "2 \<le> unat c"
    "unat c - 2 < bmap_room (cmap_chunk ef)"
proof -
  show 2: "2 \<le> unat c"
    using assms(2) by (simp add: valid_cluster_def cluster_valid_iff)
  show 3: "unat c - 2 < unat (cmap_size ef)"
    using assms by (simp add: valid_cluster_def cluster_valid_iff cmap_ok_def)
  show "unat (c - 2) = unat c - 2" by (rule unat_minus_2) (use 2 in \<open>simp add: word_less_nat_alt\<close>)
  have "unat (cmap_size ef) \<le> bmap_room (cmap_chunk ef)" using assms(1) unfolding cmap_ok_def by blast
  with 3 show "unat c - 2 < bmap_room (cmap_chunk ef)" by linarith
qed

definition release :: "exfat \<Rightarrow> cluster_t \<Rightarrow> exfat" where
  "release ef c = ef\<lparr>cmap_chunk := BMAP_CLR (cmap_chunk ef) (unat c - 2), cmap_dirty := True\<rparr>"

lemma release_frame [simp]:
  "ef_sb (release ef c) = ef_sb ef" "ef_dev (release ef c) = ef_dev ef"
  "cmap_size (release ef c) = cmap_size ef" "same_volume ef (release ef c)"
  "fat_link (release ef c) = fat_link ef" "fat_ok (release ef c) = fat_ok ef"
  by (auto simp: release_def same_volume_def fat_link_def fat_ok_def)

lemma free_cluster_release:
  assumes "cmap_ok ef" "valid_cluster ef c"
  shows "free_cluster ef c = Inr (release ef c)"
proof -
  note i = valid_bit_index[OF assms]
  have "\<not> cmap_size ef \<le> c - 2" using i by (simp add: word_le_nat_alt)
  then show ?thesis using i by (simp add: free_cluster_def Let_def release_def)
qed

lemma used_release:
  assumes "cmap_ok ef" "valid_cluster ef c" "valid_cluster ef d"
  shows "cluster_used (release ef c) d \<longleftrightarrow> d \<noteq> c \<and> cluster_used ef d"
proof -
  note c = valid_bit_index[OF assms(1,2)] and d = valid_bit_index[OF assms(1,3)]
  have "unat d - 2 = unat c - 2 \<longleftrightarrow> d = c" using c(3) d(3) by (auto simp: word_unat_eq_iff)
  then show ?thesis using bmap.get_clear[OF c(4) d(4)] by (simp add: cluster_used_def release_def)
qed

lemma free_release:
  assumes "cmap_ok ef" "valid_cluster ef c" "cluster_used ef c"
  shows "free_clusters (release ef c) = Suc (free_clusters ef)"
proof -
  have "card {j. j < unat (cmap_size ef) \<and> \<not> BMAP_GET (BMAP_CLR (cmap_chunk ef) (unat c - 2)) j} =
      Suc (card {j. j < unat (cmap_size ef) \<and> \<not> BMAP_GET (cmap_chunk ef) j})"
    by (rule bmap.free_after_clear)
      (use valid_bit_index[OF assms(1,2)] cmap_okD[OF assms(1)] assms(3) in \<open>simp_all add: cluster_used_def\<close>)
  then show ?thesis by (simp add: free_clusters_def release_def)
qed

text \<open>
  \<open>free_cluster\<close> undoes \<open>allocate_cluster\<close>: freeing the cluster just handed out restores
  every bit of the map, and the number of free clusters goes down by one and up again.
\<close>

lemma free_undoes_allocate:
  assumes "cmap_ok ef" "allocate_cluster ef hint = Inr (c, ef')" "c \<noteq> EXFAT_CLUSTER_END"
  shows "\<exists>ef''. free_cluster ef' c = Inr ef'' \<and> Suc (free_clusters ef') = free_clusters ef \<and>
    free_clusters ef'' = free_clusters ef \<and>
    (\<forall>d. valid_cluster ef d \<longrightarrow> cluster_used ef'' d = cluster_used ef d)"
proof -
  have a: "valid_cluster ef c" "\<not> cluster_used ef c"
    "ef' = ef\<lparr>cmap_chunk := BMAP_SET (cmap_chunk ef) (unat c - 2), cmap_dirty := True\<rparr>"
    using allocate_cluster_spec[OF assms(1), of hint] assms(2,3)
    by (auto simp: valid_cluster_def split: if_splits)
  have sv: "same_volume ef ef'" using a(3) by (simp add: same_volume_def)
  note ok' = same_volume_cmap_ok[OF sv assms(1)]
  note i = valid_bit_index[OF assms(1) a(1)]
  have v': "valid_cluster ef' c" using a(1) same_volume_valid[OF sv] by simp
  have u': "cluster_used ef' c" using i bmap.get_set[OF i(4) i(4)] by (simp add: a(3) cluster_used_def)
  have "card {j. j < unat (cmap_size ef) \<and> \<not> BMAP_GET (cmap_chunk ef) j} =
      Suc (card {j. j < unat (cmap_size ef) \<and> \<not> BMAP_GET (BMAP_SET (cmap_chunk ef) (unat c - 2)) j})"
    by (rule bmap.free_after_set)
      (use i a(2) cmap_okD[OF assms(1)] in \<open>simp_all add: cluster_used_def\<close>)
  then have dec: "Suc (free_clusters ef') = free_clusters ef"
    by (simp add: free_clusters_def a(3))
  have "cluster_used (release ef' c) d = cluster_used ef d" if d: "valid_cluster ef d" for d
  proof -
    note j = valid_bit_index[OF assms(1) d]
    show ?thesis
      using used_release[OF ok' v'] same_volume_valid[OF sv] d a(2) bmap.get_set[OF i(4) j(4)]
        i(3) j(3) by (auto simp: a(3) cluster_used_def word_unat_eq_iff)
  qed
  then show ?thesis using free_cluster_release[OF ok' v'] free_release[OF ok' v' u'] dec by auto
qed

section \<open>Freeing a chain\<close>

text \<open>
  The clusters \<open>free_chain\<close> visits are read off the state it starts from: each is released
  after its successor has been read, and clearing its link does not change the rest.
\<close>

definition links_ok :: "exfat \<Rightarrow> exfat_node \<Rightarrow> bool" where
  "links_ok ef node \<longleftrightarrow> nd_is_contiguous node \<or> fat_ok ef"

definition cut_link :: "exfat \<Rightarrow> exfat_node \<Rightarrow> cluster_t \<Rightarrow> cluster_t \<Rightarrow> exfat" where
  "cut_link ef node c n = (if nd_is_contiguous node then ef else store_link ef c n)"

lemma set_next_cut_link:
  "links_ok ef node \<Longrightarrow> set_next_cluster ef (nd_is_contiguous node) c n = (True, cut_link ef node c n)"
  using set_next_cluster_ok[of ef n c]
  by (auto simp: links_ok_def cut_link_def set_next_cluster_def)

lemma cut_link_frame [simp]:
  "ef_sb (cut_link ef node c n) = ef_sb ef" "cmap_chunk (cut_link ef node c n) = cmap_chunk ef"
  "cmap_size (cut_link ef node c n) = cmap_size ef" "same_volume ef (cut_link ef node c n)"
  by (simp_all add: cut_link_def)

lemma links_ok_cut: "links_ok ef node \<Longrightarrow> valid_cluster ef c \<Longrightarrow> links_ok (cut_link ef node c n) node"
  using fat.ok_set by (auto simp: links_ok_def cut_link_def)

lemma next_of_release [simp]: "next_of (release ef c) node = next_of ef node"
  by (auto simp: next_of_def)

lemma walk_cut:
  assumes "links_ok ef node" "valid_cluster ef c" "c \<notin> set (walk (next_of ef node) a k)"
  shows "walk (next_of (cut_link ef node c n) node) a k = walk (next_of ef node) a k"
proof (cases "nd_is_contiguous node")
  case True
  then show ?thesis by (simp add: cut_link_def)
next
  case False
  then have "next_of s node = fat_link s" for s by (auto simp: next_of_def)
  then show ?thesis using False assms fat.walk_unaffected[of ef c a k n]
    by (simp add: cut_link_def links_ok_def)
qed

text \<open>
  C28: freeing \<open>k\<close> clusters of a chain of different, valid, used clusters succeeds, clears
  exactly their bits (and no other), and the free count grows by \<open>k\<close>.
\<close>

theorem free_chain_correct:
  assumes "cmap_ok ef" "links_ok ef node"
    and "distinct (walk (next_of ef node) p k)"
    and "\<forall>c \<in> set (walk (next_of ef node) p k). valid_cluster ef c \<and> cluster_used ef c"
  shows "\<exists>ef'. free_chain ef node p k = Inr (RC0, ef') \<and> same_volume ef ef' \<and>
    free_clusters ef' = free_clusters ef + k \<and>
    (\<forall>d. valid_cluster ef d \<longrightarrow>
      (cluster_used ef' d \<longleftrightarrow> cluster_used ef d \<and> d \<notin> set (walk (next_of ef node) p k)))"
  using assms
proof (induction k arbitrary: ef p)
  case 0
  then show ?case by simp
next
  case (Suc k)
  let ?n = "next_of ef node p"
  let ?ef1 = "cut_link ef node p EXFAT_CLUSTER_FREE"
  let ?ef2 = "release ?ef1 p"
  have p: "valid_cluster ef p" "cluster_used ef p" using Suc.prems(4) by auto
  have pn: "p \<notin> set (walk (next_of ef node) ?n k)" using Suc.prems(3) by simp
  have sv: "same_volume ef ?ef1" "same_volume ef ?ef2"
    using same_volume_trans[OF cut_link_frame(4) release_frame(4)] by simp_all
  have ok1: "cmap_ok ?ef1" "valid_cluster ?ef1 p" "cluster_used ?ef1 p"
    using same_volume_cmap_ok[OF sv(1) Suc.prems(1)] same_volume_valid[OF sv(1)] p
    by (simp_all add: cluster_used_def)
  have w: "walk (next_of ?ef2 node) ?n k = walk (next_of ef node) ?n k"
    using walk_cut[OF Suc.prems(2) p(1) pn] by simp
  have used2: "cluster_used ?ef2 d \<longleftrightarrow> d \<noteq> p \<and> cluster_used ef d" if "valid_cluster ef d" for d
    using used_release[OF ok1(1,2)] that same_volume_valid[OF sv(1)] by (simp add: cluster_used_def)
  have step: "free_chain ef node p (Suc k) = free_chain ?ef2 node ?n k"
    using p next_cluster_next_of[OF valid_ge_2[OF p(1)]] set_next_cut_link[OF Suc.prems(2)]
      free_cluster_release[OF ok1(1,2)] by (simp add: valid_cluster_def)
  have "\<exists>ef'. free_chain ?ef2 node ?n k = Inr (RC0, ef') \<and> same_volume ?ef2 ef' \<and>
      free_clusters ef' = free_clusters ?ef2 + k \<and>
      (\<forall>d. valid_cluster ?ef2 d \<longrightarrow> (cluster_used ef' d \<longleftrightarrow>
         cluster_used ?ef2 d \<and> d \<notin> set (walk (next_of ?ef2 node) ?n k)))"
  proof (rule Suc.IH)
    show "cmap_ok ?ef2" by (rule same_volume_cmap_ok[OF sv(2) Suc.prems(1)])
    show "links_ok ?ef2 node" using links_ok_cut[OF Suc.prems(2) p(1)] by (simp add: links_ok_def)
    show "distinct (walk (next_of ?ef2 node) ?n k)" using Suc.prems(3) w by simp
    show "\<forall>c \<in> set (walk (next_of ?ef2 node) ?n k). valid_cluster ?ef2 c \<and> cluster_used ?ef2 c"
      using Suc.prems(4) w pn used2 same_volume_valid[OF sv(2)] by auto
  qed
  then obtain ef' where r: "free_chain ?ef2 node ?n k = Inr (RC0, ef')" "same_volume ?ef2 ef'"
      "free_clusters ef' = free_clusters ?ef2 + k"
      "\<And>d. valid_cluster ?ef2 d \<Longrightarrow> (cluster_used ef' d \<longleftrightarrow>
         cluster_used ?ef2 d \<and> d \<notin> set (walk (next_of ef node) ?n k))"
    using w by auto
  have "free_clusters ?ef2 = Suc (free_clusters ef)"
    using free_release[OF ok1] by (simp add: free_clusters_def)
  then show ?case
    using step r same_volume_trans[OF sv(2) r(2)] used2 same_volume_valid[OF sv(2)] by auto
qed

theorem free_chain_correct_witness:
  "\<exists>ef'. free_chain demo_ef demo_file 5 3 = Inr (RC0, ef') \<and> free_clusters ef' = free_clusters demo_ef + 3"
proof -
  have w: "walk (next_of demo_ef demo_file) 5 3 = [5, 7, 9]"
    by (simp add: numeral_eq_Suc next_of_def demo_file_def zero_node_def demo_fat_link)
  have "links_ok demo_ef demo_file" by (simp add: links_ok_def demo_fat_ok)
  from free_chain_correct[OF demo_cmap_ok this, of 5 3] show ?thesis
    by (auto simp: w valid_cluster_def demo_cluster_valid cluster_used_def BMAP_GET_def)
qed

end
