(* ===== verification/FileIO.thy ===== *)
theory FileIO
  imports Chain
begin

text \<open>
  Reading and writing at an offset of a file (\<open>exfat_generic_pread\<close> and
  \<open>exfat_generic_pwrite\<close> of io.c), and the abstract view they implement: a file is the
  sequence of bytes its chain of clusters holds.
\<close>

section \<open>Reading\<close>

text \<open>
  The loop of \<open>exfat_generic_pread\<close>: \<open>buf\<close> is what is left of the destination (its length is
  \<open>remainder\<close>), \<open>lo\<close> is \<open>loffset\<close>. The result is whether the loop ended, and the contents
  of the destination.
\<close>

function read_loop ::
    "exfat \<Rightarrow> exfat_node \<Rightarrow> cluster_t \<Rightarrow> nat \<Rightarrow> u8 list \<Rightarrow> fault + (bool \<times> u8 list)" where
  "read_loop ef node cluster lo buf =
     (if buf = [] then Inr (True, [])
      else if CLUSTER_INVALID (ef_sb ef) cluster then Inr (False, buf)
      else (let lsize = min (CLUSTER_SIZE (ef_sb ef) - lo) (length buf) in
        andThen (exfat_c2o (ef_sb ef) cluster) (\<lambda>off.
          case pread_into (ef_dev ef) (take lsize buf) (off + int lo) of
            None \<Rightarrow> Inr (False, buf)
          | Some got \<Rightarrow>
              andThen (exfat_next_cluster ef node cluster) (\<lambda>cluster.
                andThen (read_loop ef node cluster 0 (drop lsize buf))
                  (\<lambda>(ok, rest). Inr (ok, got @ rest))))))"
  by pat_completeness auto
termination
  by (relation "measure (\<lambda>(ef, node, cluster, lo, buf). length buf + (if lo = 0 then 0 else 1))") auto

declare read_loop.simps [simp del]

text \<open>
  The result is an error code or the number of bytes read. \<open>buf\<close> is the destination with
  its old contents; offsets are non-negative, so that C's division is the mathematical one.
\<close>

definition exfat_generic_pread ::
    "exfat \<Rightarrow> exfat_node \<Rightarrow> u8 list \<Rightarrow> int \<Rightarrow> fault + ((retcode + nat) \<times> u8 list \<times> exfat_node)" where
  "exfat_generic_pread ef node buf offset =
     (let cs = int (CLUSTER_SIZE (ef_sb ef)) in
      if word_of_int offset \<ge> nd_size node then Inr (Inr 0, buf, node)
      else if buf = [] then Inr (Inr 0, buf, node)
      else andThen (exfat_advance_cluster ef node (word_of_int (offset div cs))) (\<lambda>(cluster, node).
        if CLUSTER_INVALID (ef_sb ef) cluster then Inr (Inl EIO, buf, node)
        else let n = min (length buf) (unat (nd_size node - word_of_int offset)) in
          andThen (read_loop ef node cluster (nat (offset mod cs)) (take n buf)) (\<lambda>(ok, got).
            if \<not> ok then Inr (Inl EIO, got @ drop n buf, node)
            else Inr (Inr n, got @ drop n buf,
              if nd_attrib node AND EXFAT_ATTRIB_DIR = 0 \<and> ef_ro ef = 0 \<and> \<not> ef_noatime ef
              then exfat_update_atime ef node else node))))"

section \<open>Writing\<close>

function write_loop ::
    "exfat \<Rightarrow> exfat_node \<Rightarrow> cluster_t \<Rightarrow> nat \<Rightarrow> u8 list \<Rightarrow> fault + (bool \<times> exfat)" where
  "write_loop ef node cluster lo bs =
     (if bs = [] then Inr (True, ef)
      else if CLUSTER_INVALID (ef_sb ef) cluster then Inr (False, ef)
      else (let lsize = min (CLUSTER_SIZE (ef_sb ef) - lo) (length bs) in
        andThen (exfat_c2o (ef_sb ef) cluster) (\<lambda>off.
          case exfat_pwrite (ef_dev ef) (take lsize bs) (off + int lo) of
            None \<Rightarrow> Inr (False, ef)
          | Some d \<Rightarrow>
              andThen (exfat_next_cluster (ef\<lparr>ef_dev := d\<rparr>) node cluster) (\<lambda>cluster.
                write_loop (ef\<lparr>ef_dev := d\<rparr>) node cluster 0 (drop lsize bs)))))"
  by pat_completeness auto
termination
  by (relation "measure (\<lambda>(ef, node, cluster, lo, bs). length bs + (if lo = 0 then 0 else 1))") auto

declare write_loop.simps [simp del]

definition exfat_generic_pwrite ::
    "exfat \<Rightarrow> exfat_node \<Rightarrow> u8 list \<Rightarrow> int \<Rightarrow> fault + ((retcode + nat) \<times> exfat \<times> exfat_node)" where
  "exfat_generic_pwrite ef node bs offset =
     (let cs = int (CLUSTER_SIZE (ef_sb ef)); size = word_of_nat (length bs) in
      andThen (if word_of_int offset > nd_size node
               then exfat_truncate ef node (word_of_int offset) True
               else Inr (RC0, ef, node)) (\<lambda>(rc, ef, node).
        if rc \<noteq> RC0 then Inr (Inl rc, ef, node)
        else andThen (if word_of_int offset + size > nd_size node
                      then exfat_truncate ef node (word_of_int offset + size) False
                      else Inr (RC0, ef, node)) (\<lambda>(rc, ef, node).
          if rc \<noteq> RC0 then Inr (Inl rc, ef, node)
          else if bs = [] then Inr (Inr 0, ef, node)
          else andThen (exfat_advance_cluster ef node (word_of_int (offset div cs))) (\<lambda>(cluster, node).
            if CLUSTER_INVALID (ef_sb ef) cluster then Inr (Inl EIO, ef, node)
            else andThen (write_loop ef node cluster (nat (offset mod cs)) bs) (\<lambda>(ok, ef).
              if \<not> ok then Inr (Inl EIO, ef, node)
              else Inr (Inr (length bs), ef,
                if nd_attrib node AND EXFAT_ATTRIB_DIR = 0 then exfat_update_mtime ef node else node))))))"

section \<open>Files as sequences of bytes\<close>

text \<open>The address of byte \<open>i\<close> of a chain starting at \<open>c\<close>, and byte \<open>i\<close> of a file.\<close>

definition byte_pos :: "exfat \<Rightarrow> exfat_node \<Rightarrow> cluster_t \<Rightarrow> nat \<Rightarrow> nat" where
  "byte_pos ef node c i =
     cluster_start (ef_sb ef) ((next_of ef node ^^ (i div CLUSTER_SIZE (ef_sb ef))) c)
       + i mod CLUSTER_SIZE (ef_sb ef)"

definition file_byte :: "exfat \<Rightarrow> exfat_node \<Rightarrow> nat \<Rightarrow> u8" where
  "file_byte ef node i = dev_bytes (ef_dev ef) (byte_pos ef node (nd_start_cluster node) i)"

text \<open>
  The table ends before the first cluster and the clusters end within the device, which
  serves every read.
\<close>

definition volume_ok :: "exfat \<Rightarrow> bool" where
  "volume_ok ef \<longleftrightarrow> geometry_ok (ef_sb ef) \<and> readable (ef_dev ef) \<and>
     (\<forall>c. valid_cluster ef c \<longrightarrow>
       cluster_start (ef_sb ef) c + CLUSTER_SIZE (ef_sb ef) \<le> dev_size (ef_dev ef) \<and>
       (\<forall>d. valid_cluster ef d \<longrightarrow> nat (fat_offset (ef_sb ef) d) + 4 \<le> cluster_start (ef_sb ef) c))"

lemma volume_fat_ok:
  assumes "volume_ok ef" "writable (ef_dev ef)"
  shows "fat_ok ef"
  using assms unfolding volume_ok_def fat_ok_def valid_cluster_def
  by (meson add_leD1 le_trans)

lemma byte_pos_first: "i < CLUSTER_SIZE (ef_sb ef) \<Longrightarrow> byte_pos ef node c i = cluster_start (ef_sb ef) c + i"
  by (simp add: byte_pos_def)

lemma byte_pos_next:
  "byte_pos ef node c (CLUSTER_SIZE (ef_sb ef) + i) = byte_pos ef node (next_of ef node c) i"
proof -
  have "(CLUSTER_SIZE (ef_sb ef) + i) div CLUSTER_SIZE (ef_sb ef) = Suc (i div CLUSTER_SIZE (ef_sb ef))"
    using div_add_self1[of "CLUSTER_SIZE (ef_sb ef)" i] CLUSTER_SIZE_pos[of "ef_sb ef"] by simp
  then show ?thesis by (simp add: byte_pos_def funpow_swap1 mod_add_self1)
qed

text \<open>The clusters that hold bytes \<open>0 .. n - 1\<close> of a chain are valid.\<close>

definition covered :: "exfat \<Rightarrow> exfat_node \<Rightarrow> cluster_t \<Rightarrow> nat \<Rightarrow> bool" where
  "covered ef node c n \<longleftrightarrow>
     (\<forall>j. j * CLUSTER_SIZE (ef_sb ef) < n \<longrightarrow> valid_cluster ef ((next_of ef node ^^ j) c))"

lemma covered_step:
  assumes "covered ef node c n" "0 < n"
  shows "valid_cluster ef c" "covered ef node (next_of ef node c) (n - CLUSTER_SIZE (ef_sb ef))"
proof -
  show "valid_cluster ef c" using assms(1)[unfolded covered_def, rule_format, of 0] assms(2) by simp
  show "covered ef node (next_of ef node c) (n - CLUSTER_SIZE (ef_sb ef))"
    unfolding covered_def
  proof (intro allI impI)
    fix j assume "j * CLUSTER_SIZE (ef_sb ef) < n - CLUSTER_SIZE (ef_sb ef)"
    then have "Suc j * CLUSTER_SIZE (ef_sb ef) < n" by simp
    then show "valid_cluster ef ((next_of ef node ^^ j) (next_of ef node c))"
      using assms(1) unfolding covered_def by (metis funpow_Suc_right o_apply)
  qed
qed

lemma covered_mono: "covered ef node c n \<Longrightarrow> m \<le> n \<Longrightarrow> covered ef node c m"
  unfolding covered_def by (meson less_le_trans)

lemma read_loop_bytes:
  assumes "volume_ok ef" "lo < CLUSTER_SIZE (ef_sb ef)" "covered ef node c (lo + length buf)"
  shows "read_loop ef node c lo buf =
    Inr (True, map (\<lambda>i. dev_bytes (ef_dev ef) (byte_pos ef node c (lo + i))) [0..<length buf])"
  using assms(2,3)
proof (induction "length buf" arbitrary: c lo buf rule: less_induct)
  case less
  let ?s = "CLUSTER_SIZE (ef_sb ef)" and ?b = "dev_bytes (ef_dev ef)"
  show ?case
  proof (cases "buf = []")
    case True
    then show ?thesis by (simp add: read_loop.simps)
  next
    case False
    let ?k = "min (?s - lo) (length buf)"
    have k: "0 < ?k" using False less.prems(1) by simp
    have v: "valid_cluster ef c" and cov: "covered ef node (next_of ef node c) (lo + length buf - ?s)"
      using covered_step[OF less.prems(2)] False by simp_all
    have 2: "2 \<le> unat c" using v by (simp add: valid_cluster_def cluster_valid_iff)
    have room: "cluster_start (ef_sb ef) c + ?s \<le> dev_size (ef_dev ef)"
      using assms(1) v unfolding volume_ok_def by blast
    have rd: "readable (ef_dev ef)" using assms(1) by (simp add: volume_ok_def)
    have pos: "nat (int (cluster_start (ef_sb ef) c) + int lo) = cluster_start (ef_sb ef) c + lo" by simp
    have "cluster_start (ef_sb ef) c + lo + ?k \<le> dev_size (ef_dev ef)" using room less.prems(1) by simp
    then have "exfat_pread (ef_dev ef) ?k (int (cluster_start (ef_sb ef) c) + int lo)
        = Some (map ?b [cluster_start (ef_sb ef) c + lo ..< cluster_start (ef_sb ef) c + lo + ?k])"
      using rd by (simp add: exfat_pread_def readable_def pos)
    also have "map ?b [cluster_start (ef_sb ef) c + lo ..< cluster_start (ef_sb ef) c + lo + ?k]
        = map (\<lambda>i. ?b (byte_pos ef node c (lo + i))) [0..<?k]"
      by (rule nth_equalityI) (auto simp: byte_pos_first add.assoc)
    finally have got: "pread_into (ef_dev ef) (take ?k buf) (int (cluster_start (ef_sb ef) c) + int lo)
        = Some (map (\<lambda>i. ?b (byte_pos ef node c (lo + i))) [0..<?k])"
      by (simp add: pread_into_def)
    have rest: "read_loop ef node (next_of ef node c) 0 (drop ?k buf) =
        Inr (True, map (\<lambda>i. ?b (byte_pos ef node (next_of ef node c) i)) [0..<length buf - ?k])"
    proof -
      have "length (drop ?k buf) < length buf" using k False by simp
      moreover have "covered ef node (next_of ef node c) (0 + length (drop ?k buf))"
        by (rule covered_mono[OF cov]) (use less.prems(1) in auto)
      ultimately show ?thesis using less.hyps[of "drop ?k buf" 0 "next_of ef node c"] by simp
    qed
    have "map (\<lambda>i. ?b (byte_pos ef node c (lo + i))) [0..<?k] @
        map (\<lambda>i. ?b (byte_pos ef node (next_of ef node c) i)) [0..<length buf - ?k]
      = map (\<lambda>i. ?b (byte_pos ef node c (lo + i))) [0..<length buf]"
    proof (rule nth_equalityI)
      fix i assume "i < length (map (\<lambda>i. ?b (byte_pos ef node c (lo + i))) [0..<?k] @
        map (\<lambda>i. ?b (byte_pos ef node (next_of ef node c) i)) [0..<length buf - ?k])"
      then have i: "i < length buf" by simp
      have "byte_pos ef node (next_of ef node c) (i - ?k) = byte_pos ef node c (lo + i)" if "\<not> i < ?k"
      proof -
        have "?k = ?s - lo" using that i by (simp add: min_def split: if_splits)
        then have "lo + i = ?s + (i - ?k)" using that less.prems(1) by simp
        then show ?thesis by (simp only: byte_pos_next)
      qed
      then show "(map (\<lambda>i. ?b (byte_pos ef node c (lo + i))) [0..<?k] @
          map (\<lambda>i. ?b (byte_pos ef node (next_of ef node c) i)) [0..<length buf - ?k]) ! i =
        map (\<lambda>i. ?b (byte_pos ef node c (lo + i))) [0..<length buf] ! i"
        using i by (auto simp: nth_append)
    qed simp
    then show ?thesis
      using False v got rest c2o_eq[OF 2, of "ef_sb ef"] next_cluster_next_of[OF valid_ge_2[OF v]]
      by (subst read_loop.simps) (simp add: valid_cluster_def Let_def)
  qed
qed

lemma next_of_meta [simp]:
  "next_of ef (node\<lparr>nd_atime := t\<rparr>) = next_of ef node"
  "next_of ef (node\<lparr>nd_mtime := t\<rparr>) = next_of ef node"
  "next_of ef (node\<lparr>nd_is_dirty := d\<rparr>) = next_of ef node"
  "next_of ef (node\<lparr>nd_size := z\<rparr>) = next_of ef node"
  by (auto simp: next_of_def)

lemma fptr_swap:
  "node\<lparr>nd_fptr_cluster := c, nd_fptr_index := i\<rparr> = node\<lparr>nd_fptr_index := i, nd_fptr_cluster := c\<rparr>"
  by simp

lemma advance_to_offset:
  assumes "fptr_ok ef node" "covered ef node (nd_start_cluster node) n" "off < n"
    and "n \<le> 2 ^ 32 * CLUSTER_SIZE (ef_sb ef)"
  defines "k \<equiv> off div CLUSTER_SIZE (ef_sb ef)"
  shows "exfat_advance_cluster ef node (word_of_int (int off div int (CLUSTER_SIZE (ef_sb ef)))) =
      Inr (chain_at ef node k, node\<lparr>nd_fptr_cluster := chain_at ef node k, nd_fptr_index := word_of_nat k\<rparr>)"
    and "valid_cluster ef (chain_at ef node k)"
    and "fptr_ok ef (node\<lparr>nd_fptr_cluster := chain_at ef node k, nd_fptr_index := word_of_nat k\<rparr>)"
    and "covered ef node (chain_at ef node k) (n - k * CLUSTER_SIZE (ef_sb ef))"
proof -
  let ?s = "CLUSTER_SIZE (ef_sb ef)"
  have w: "word_of_int (int off div int ?s) = (word_of_nat k :: u32)"
    unfolding k_def by (simp flip: zdiv_int)
  have "k < 2 ^ 32" unfolding k_def by (rule less_mult_imp_div_less) (use assms(3,4) in simp)
  then have u: "unat (word_of_nat k :: u32) = k" by (simp add: unat_of_nat)
  have ks: "k * ?s \<le> off" unfolding k_def by (rule div_times_less_eq_dividend)
  have v: "valid_cluster ef (chain_at ef node j)" if "j * ?s < n" for j
    using assms(2) that unfolding covered_def chain_at_def by blast
  have "j * ?s < n" if "j \<le> k" for j
    using mult_le_mono1[OF that, of ?s] ks assms(3) by linarith
  then have "chain_valid ef node (unat (word_of_nat k :: u32))"
    using v unfolding chain_valid_def u by blast
  from advance_cluster_chain[OF assms(1) this]
  show "exfat_advance_cluster ef node (word_of_int (int off div int (CLUSTER_SIZE (ef_sb ef)))) =
      Inr (chain_at ef node k, node\<lparr>nd_fptr_cluster := chain_at ef node k, nd_fptr_index := word_of_nat k\<rparr>)"
    unfolding w u .
  show "valid_cluster ef (chain_at ef node k)" using v ks assms(3) by simp
  show "fptr_ok ef (node\<lparr>nd_fptr_cluster := chain_at ef node k, nd_fptr_index := word_of_nat k\<rparr>)"
    by (simp add: fptr_ok_def chain_at_def u)
  show "covered ef node (chain_at ef node k) (n - k * ?s)"
    unfolding covered_def
  proof (intro allI impI)
    fix j assume "j * ?s < n - k * ?s"
    then have "(j + k) * ?s < n" by (simp add: add_mult_distrib)
    then show "valid_cluster ef ((next_of ef node ^^ j) (chain_at ef node k))"
      using v[of "j + k"] by (simp add: chain_at_def funpow_add)
  qed
qed

lemma byte_pos_chain:
  "byte_pos ef node (chain_at ef node k) i = byte_pos ef node (nd_start_cluster node) (k * CLUSTER_SIZE (ef_sb ef) + i)"
proof -
  have "(next_of ef node ^^ j) ((next_of ef node ^^ k) (nd_start_cluster node))
      = (next_of ef node ^^ (k + j)) (nd_start_cluster node)" for j
    by (metis add.commute comp_apply funpow_add)
  then show ?thesis by (simp add: byte_pos_def chain_at_def)
qed

lemma generic_pread_bytes:
  assumes "volume_ok ef" "fptr_ok ef node"
    and "covered ef node (nd_start_cluster node) (unat (nd_size node))"
    and "unat (nd_size node) \<le> 2 ^ 32 * CLUSTER_SIZE (ef_sb ef)"
    and "off < 2 ^ 63"
  shows "\<exists>i c a d. exfat_generic_pread ef node buf (int off) =
      Inr (Inr (min (length buf) (unat (nd_size node) - off)),
           map (file_byte ef node) [off..<off + min (length buf) (unat (nd_size node) - off)]
             @ drop (min (length buf) (unat (nd_size node) - off)) buf,
           node\<lparr>nd_fptr_index := i, nd_fptr_cluster := c, nd_atime := a, nd_is_dirty := d\<rparr>) \<and>
    fptr_ok ef (node\<lparr>nd_fptr_index := i, nd_fptr_cluster := c\<rparr>)"
proof -
  let ?s = "CLUSTER_SIZE (ef_sb ef)"
  let ?z = "unat (nd_size node)"
  have uo: "unat (word_of_nat off :: u64) = off" using assms(5) by (simp add: unat_of_nat)
  have past: "nd_size node \<le> word_of_nat off \<longleftrightarrow> ?z \<le> off" by (simp only: word_le_nat_alt uo)
  consider "?z \<le> off \<or> buf = []" | "off < ?z" "buf \<noteq> []" by linarith
  then show ?thesis
  proof cases
    case 1
    then have "exfat_generic_pread ef node buf (int off) = Inr (Inr 0, buf, node)"
      using past by (auto simp: exfat_generic_pread_def)
    moreover have "min (length buf) (?z - off) = 0" using 1 by auto
    moreover have "node = node\<lparr>nd_fptr_index := nd_fptr_index node, nd_fptr_cluster := nd_fptr_cluster node,
        nd_atime := nd_atime node, nd_is_dirty := nd_is_dirty node\<rparr>" by simp
    moreover have "fptr_ok ef (node\<lparr>nd_fptr_index := nd_fptr_index node, nd_fptr_cluster := nd_fptr_cluster node\<rparr>)"
      using assms(2) by simp
    ultimately show ?thesis by (metis append_Nil add_0_right drop0 list.simps(8) upt_rec less_irrefl)
  next
    case 2
    define n where "n = min (length buf) (?z - off)"
    define k where "k = off div ?s"
    define c where "c = chain_at ef node k"
    note adv = advance_to_offset[OF assms(2,3) 2(1) assms(4), folded k_def, folded c_def]
    let ?node = "node\<lparr>nd_fptr_cluster := c, nd_fptr_index := word_of_nat k\<rparr>"
    have left: "unat (nd_size node - word_of_nat off) = ?z - off"
      using past 2(1) uo by (simp add: unat_sub)
    have m: "nat (int off mod int ?s) = off mod ?s" by (simp flip: zmod_int)
    have "k * ?s + off mod ?s = off" unfolding k_def by simp
    then have cov: "covered ef ?node c (off mod ?s + length (take n buf))"
      using covered_mono[OF adv(4), of "off mod ?s + length (take n buf)"] 2(1)
      by (simp add: covered_def n_def)
    have "off mod ?s < ?s" by simp
    from read_loop_bytes[OF assms(1) this cov]
    have rd: "read_loop ef ?node c (off mod ?s) (take n buf) = Inr (True, map (file_byte ef node) [off..<off + n])"
    proof -
      assume r: "read_loop ef ?node c (off mod ?s) (take n buf) = Inr (True,
        map (\<lambda>i. dev_bytes (ef_dev ef) (byte_pos ef ?node c (off mod ?s + i))) [0..<length (take n buf)])"
      have "map (\<lambda>i. dev_bytes (ef_dev ef) (byte_pos ef ?node c (off mod ?s + i))) [0..<length (take n buf)]
          = map (file_byte ef node) [off..<off + n]"
      proof (rule nth_equalityI)
        show "length (map (\<lambda>i. dev_bytes (ef_dev ef) (byte_pos ef ?node c (off mod ?s + i))) [0..<length (take n buf)])
          = length (map (file_byte ef node) [off..<off + n])" by (simp add: n_def)
        fix i assume "i < length (map (\<lambda>i. dev_bytes (ef_dev ef) (byte_pos ef ?node c (off mod ?s + i))) [0..<length (take n buf)])"
        then have i: "i < n" "i < length (take n buf)" by simp_all
        have "byte_pos ef ?node c (off mod ?s + i) = byte_pos ef node (nd_start_cluster node) (off + i)"
          using byte_pos_chain[of ef node k "off mod ?s + i"] \<open>k * ?s + off mod ?s = off\<close>
          by (simp add: c_def byte_pos_def add.assoc[symmetric])
        then show "map (\<lambda>i. dev_bytes (ef_dev ef) (byte_pos ef ?node c (off mod ?s + i))) [0..<length (take n buf)] ! i
          = map (file_byte ef node) [off..<off + n] ! i"
          using i by (simp add: file_byte_def)
      qed
      with r show ?thesis by simp
    qed
    define node' where "node' = (if nd_attrib node AND EXFAT_ATTRIB_DIR = 0 \<and> ef_ro ef = 0 \<and> \<not> ef_noatime ef
        then exfat_update_atime ef ?node else ?node)"
    have ev: "exfat_generic_pread ef node buf (int off) =
        Inr (Inr n, map (file_byte ef node) [off..<off + n] @ drop n buf, node')"
      using past 2 adv(1,2) rd left
      by (simp add: exfat_generic_pread_def Let_def m n_def[symmetric] node'_def valid_cluster_def)
    have "node' = node\<lparr>nd_fptr_index := word_of_nat k, nd_fptr_cluster := c,
        nd_atime := nd_atime node', nd_is_dirty := nd_is_dirty node'\<rparr>"
      by (simp add: node'_def exfat_update_atime_def)
    then show ?thesis using ev adv(3) unfolding n_def by (metis exfat_node.update_convs(6,7) fptr_swap)
  qed
qed

text \<open>
  C4: reading refines the abstract view: on a volume in order, whatever the position of the
  cached chain pointer, the destination receives the bytes of the file from the offset on,
  cut at its end, and keeps the rest; only the cached pointer and the access time of the
  node change, and the cache stays right.
\<close>

theorem generic_pread_content:
  fixes buf :: "u8 list"
  assumes "volume_ok ef" "fptr_ok ef node"
    and "covered ef node (nd_start_cluster node) (unat (nd_size node))"
    and "unat (nd_size node) \<le> 2 ^ 32 * CLUSTER_SIZE (ef_sb ef)"
    and "off < 2 ^ 63"
  defines "n \<equiv> min (length buf) (unat (nd_size node) - off)"
  shows "\<exists>i c a d. exfat_generic_pread ef node buf (int off) =
      Inr (Inr n, map (file_byte ef node) [off..<off + n] @ drop n buf,
           node\<lparr>nd_fptr_index := i, nd_fptr_cluster := c, nd_atime := a, nd_is_dirty := d\<rparr>) \<and>
    fptr_ok ef (node\<lparr>nd_fptr_index := i, nd_fptr_cluster := c\<rparr>)"
  unfolding n_def by (rule generic_pread_bytes[OF assms(1-5)])

section \<open>Writes inside a file\<close>

text \<open>A write of data leaves the table alone.\<close>

lemma link_after_data_write:
  assumes "volume_ok ef" "valid_cluster ef c" "valid_cluster ef d"
    and "exfat_pwrite (ef_dev ef) bs (int (cluster_start (ef_sb ef) c + lo)) = Some dev'"
  shows "fat_link (ef\<lparr>ef_dev := dev'\<rparr>) d = fat_link ef d"
proof -
  have "nat (fat_offset (ef_sb ef) d) + 4 \<le> cluster_start (ef_sb ef) c"
    using assms(1-3) unfolding volume_ok_def by blast
  then have "fat_offset (ef_sb ef) d + int 4 \<le> int (cluster_start (ef_sb ef) c + lo)"
    using fat_offset_nonneg(1)[of "ef_sb ef" d] by linarith
  then show ?thesis using pread_into_elsewhere[OF assms(4), of "fat_offset (ef_sb ef) d" "map (ef_junk ef) [0..<4]"]
    by (simp add: fat_link_def)
qed

lemma funpow_agree:
  assumes "\<And>j. j < k \<Longrightarrow> f ((g ^^ j) c) = g ((g ^^ j) c)"
  shows "(f ^^ k) c = (g ^^ k) c"
  using assms by (induction k) simp_all

text \<open>
  \<open>ef'\<close> is \<open>ef\<close> with the bytes at the positions \<open>pos 0 .. pos (n - 1)\<close> replaced.
\<close>

definition stored :: "exfat \<Rightarrow> exfat \<Rightarrow> (nat \<Rightarrow> nat) \<Rightarrow> u8 list \<Rightarrow> bool" where
  "stored ef ef' pos bs \<longleftrightarrow>
     (\<exists>b. ef' = ef\<lparr>ef_dev := (ef_dev ef)\<lparr>dev_bytes := b\<rparr>\<rparr>) \<and>
     (\<forall>i < length bs. dev_bytes (ef_dev ef') (pos i) = bs ! i) \<and>
     (\<forall>p. (\<forall>i < length bs. p \<noteq> pos i) \<longrightarrow> dev_bytes (ef_dev ef') p = dev_bytes (ef_dev ef) p)"

lemma stored_nil: "stored ef ef pos []"
  unfolding stored_def by (intro conjI exI[of _ "dev_bytes (ef_dev ef)"]) simp_all

lemma stored_frame:
  assumes "stored ef ef' pos bs"
  shows "ef_sb ef' = ef_sb ef" "dev_size (ef_dev ef') = dev_size (ef_dev ef)"
    "readable (ef_dev ef') = readable (ef_dev ef)" "writable (ef_dev ef') = writable (ef_dev ef)"
    "valid_cluster ef' c = valid_cluster ef c" "cmap_chunk ef' = cmap_chunk ef"
  using assms by (auto simp: stored_def readable_def writable_def valid_cluster_def)

text \<open>Different bytes of a chain without repetition have different addresses.\<close>

definition distinct_chain :: "exfat \<Rightarrow> exfat_node \<Rightarrow> cluster_t \<Rightarrow> nat \<Rightarrow> bool" where
  "distinct_chain ef node c n \<longleftrightarrow>
     (\<forall>i j. i * CLUSTER_SIZE (ef_sb ef) < n \<longrightarrow> j * CLUSTER_SIZE (ef_sb ef) < n \<longrightarrow>
        (next_of ef node ^^ i) c = (next_of ef node ^^ j) c \<longrightarrow> i = j)"

lemma no_overlap: "a + s \<le> b \<Longrightarrow> a + x = b + y \<Longrightarrow> x < s \<Longrightarrow> False" for a :: nat
  by linarith

lemma byte_pos_inj:
  assumes "covered ef node c n" "distinct_chain ef node c n" "i < n" "j < n"
    and "byte_pos ef node c i = byte_pos ef node c j"
  shows "i = j"
proof -
  let ?s = "CLUSTER_SIZE (ef_sb ef)" and ?f = "\<lambda>k. (next_of ef node ^^ (k div CLUSTER_SIZE (ef_sb ef))) c"
  have le: "i div ?s * ?s < n" "j div ?s * ?s < n"
    using assms(3,4) div_times_less_eq_dividend[of i ?s] div_times_less_eq_dividend[of j ?s]
    by (meson le_less_trans)+
  have "valid_cluster ef (?f i)" "valid_cluster ef (?f j)"
    using assms(1) le unfolding covered_def by blast+
  then have 2: "2 \<le> unat (?f i)" "2 \<le> unat (?f j)" by (simp_all add: valid_cluster_def cluster_valid_iff)
  have m: "i mod ?s < ?s" "j mod ?s < ?s" by simp_all
  have eq: "cluster_start (ef_sb ef) (?f i) + i mod ?s = cluster_start (ef_sb ef) (?f j) + j mod ?s"
    using assms(5) by (simp add: byte_pos_def)
  have "unat (?f i) = unat (?f j)"
  proof (rule ccontr)
    assume "unat (?f i) \<noteq> unat (?f j)"
    then consider "unat (?f i) < unat (?f j)" | "unat (?f j) < unat (?f i)" by linarith
    then show False
    proof cases
      case 1
      show False by (rule no_overlap[OF cluster_start_step[OF 2 1] eq m(1)])
    next
      case 2
      show False by (rule no_overlap[OF cluster_start_step[OF \<open>2 \<le> unat (?f j)\<close> \<open>2 \<le> unat (?f i)\<close> 2] eq[symmetric] m(2)])
    qed
  qed
  then have f: "?f i = ?f j" by (simp add: word_unat_eq_iff)
  then have "i div ?s = j div ?s" using assms(2) le unfolding distinct_chain_def by blast
  moreover have "i mod ?s = j mod ?s" using eq f by simp
  ultimately show ?thesis by (metis div_mult_mod_eq)
qed

lemma same_links:
  assumes "ef_sb ef' = ef_sb ef" "\<forall>d. valid_cluster ef d \<longrightarrow> next_of ef' node d = next_of ef node d"
    and "covered ef node c n"
  shows "j * CLUSTER_SIZE (ef_sb ef) < n \<Longrightarrow> (next_of ef' node ^^ j) c = (next_of ef node ^^ j) c"
    and "covered ef' node c n" "distinct_chain ef node c n \<Longrightarrow> distinct_chain ef' node c n"
    and "i < n \<Longrightarrow> byte_pos ef' node c i = byte_pos ef node c i"
proof -
  let ?s = "CLUSTER_SIZE (ef_sb ef)"
  have f: "(next_of ef' node ^^ j) c = (next_of ef node ^^ j) c" if "j * ?s < n" for j
  proof (rule funpow_agree)
    fix i assume "i < j"
    then have "i * ?s \<le> j * ?s" by simp
    then have "i * ?s < n" using that by linarith
    then show "next_of ef' node ((next_of ef node ^^ i) c) = next_of ef node ((next_of ef node ^^ i) c)"
      using assms(2,3) unfolding covered_def by blast
  qed
  show "j * ?s < n \<Longrightarrow> (next_of ef' node ^^ j) c = (next_of ef node ^^ j) c" by (rule f)
  show "covered ef' node c n" using assms(1,3) f by (simp add: covered_def valid_cluster_def)
  show "distinct_chain ef node c n \<Longrightarrow> distinct_chain ef' node c n"
    unfolding distinct_chain_def assms(1) using f by metis
  show "byte_pos ef' node c i = byte_pos ef node c i" if "i < n"
  proof -
    have "i div ?s * ?s < n" using that div_times_less_eq_dividend[of i ?s] by (rule le_less_trans[rotated])
    then show ?thesis using f by (simp add: byte_pos_def assms(1))
  qed
qed

lemma volume_ok_frame:
  assumes "ef_sb ef' = ef_sb ef" "dev_size (ef_dev ef') = dev_size (ef_dev ef)"
    "readable (ef_dev ef') = readable (ef_dev ef)"
  shows "volume_ok ef' = volume_ok ef"
  using assms by (simp add: volume_ok_def valid_cluster_def)

lemma write_in_cluster:
  assumes "volume_ok ef" "writable (ef_dev ef)" "valid_cluster ef c"
    "lo + length bs \<le> CLUSTER_SIZE (ef_sb ef)"
  shows "\<exists>d. exfat_pwrite (ef_dev ef) bs (int (cluster_start (ef_sb ef) c) + int lo) = Some d \<and>
    stored ef (ef\<lparr>ef_dev := d\<rparr>) (\<lambda>i. cluster_start (ef_sb ef) c + lo + i) bs \<and>
    (\<forall>e node. valid_cluster ef e \<longrightarrow> next_of (ef\<lparr>ef_dev := d\<rparr>) node e = next_of ef node e)"
proof -
  have a: "int (cluster_start (ef_sb ef) c) + int lo = int (cluster_start (ef_sb ef) c + lo)" by simp
  obtain d where d: "exfat_pwrite (ef_dev ef) bs (int (cluster_start (ef_sb ef) c + lo)) = Some d"
    using dev.write_succeeds[OF assms(2)] by (metis of_nat_0_le_iff)
  have room: "cluster_start (ef_sb ef) c + CLUSTER_SIZE (ef_sb ef) \<le> dev_size (ef_dev ef)"
    using assms(1,3) unfolding volume_ok_def by blast
  have d': "d = (ef_dev ef)\<lparr>dev_bytes := (\<lambda>i. if cluster_start (ef_sb ef) c + lo \<le> i \<and>
       i < cluster_start (ef_sb ef) c + lo + length bs \<and> i < dev_size (ef_dev ef)
       then bs ! (i - (cluster_start (ef_sb ef) c + lo)) else dev_bytes (ef_dev ef) i)\<rparr>"
    using d unfolding pwrite_Some nat_int by blast
  have "stored ef (ef\<lparr>ef_dev := d\<rparr>) (\<lambda>i. cluster_start (ef_sb ef) c + lo + i) bs"
    unfolding stored_def
  proof (intro conjI allI impI)
    show "\<exists>b. ef\<lparr>ef_dev := d\<rparr> = ef\<lparr>ef_dev := (ef_dev ef)\<lparr>dev_bytes := b\<rparr>\<rparr>" using d' by blast
    show "dev_bytes (ef_dev (ef\<lparr>ef_dev := d\<rparr>)) (cluster_start (ef_sb ef) c + lo + i) = bs ! i" if "i < length bs" for i
      using that room assms(4) by (simp add: d')
    show "dev_bytes (ef_dev (ef\<lparr>ef_dev := d\<rparr>)) p = dev_bytes (ef_dev ef) p"
      if p: "\<forall>i < length bs. p \<noteq> cluster_start (ef_sb ef) c + lo + i" for p
    proof (cases "cluster_start (ef_sb ef) c + lo \<le> p \<and> p < cluster_start (ef_sb ef) c + lo + length bs")
      case True
      then have "p - (cluster_start (ef_sb ef) c + lo) < length bs" by linarith
      then show ?thesis using p True by (metis le_add_diff_inverse)
    next
      case False
      then show ?thesis by (auto simp: d')
    qed
  qed
  moreover have "next_of (ef\<lparr>ef_dev := d\<rparr>) node e = next_of ef node e" if "valid_cluster ef e" for e node
    using link_after_data_write[OF assms(1,3) that d] by (simp add: next_of_def)
  ultimately show ?thesis using d unfolding a by blast
qed

lemma distinct_step:
  assumes "distinct_chain ef node c n"
  shows "distinct_chain ef node (next_of ef node c) (n - CLUSTER_SIZE (ef_sb ef))"
  unfolding distinct_chain_def
proof (intro allI impI)
  fix i j
  assume "i * CLUSTER_SIZE (ef_sb ef) < n - CLUSTER_SIZE (ef_sb ef)"
    "j * CLUSTER_SIZE (ef_sb ef) < n - CLUSTER_SIZE (ef_sb ef)"
    and eq: "(next_of ef node ^^ i) (next_of ef node c) = (next_of ef node ^^ j) (next_of ef node c)"
  then have "Suc i * CLUSTER_SIZE (ef_sb ef) < n" "Suc j * CLUSTER_SIZE (ef_sb ef) < n" by simp_all
  moreover have "(next_of ef node ^^ Suc i) c = (next_of ef node ^^ Suc j) c"
    using eq by (simp add: funpow_swap1)
  ultimately have "Suc i = Suc j" using assms unfolding distinct_chain_def by blast
  then show "i = j" by simp
qed

lemma distinct_from:
  assumes "distinct_chain ef node (nd_start_cluster node) n"
  shows "distinct_chain ef node (chain_at ef node k) (n - k * CLUSTER_SIZE (ef_sb ef))"
  unfolding distinct_chain_def
proof (intro allI impI)
  fix i j
  assume "i * CLUSTER_SIZE (ef_sb ef) < n - k * CLUSTER_SIZE (ef_sb ef)"
    "j * CLUSTER_SIZE (ef_sb ef) < n - k * CLUSTER_SIZE (ef_sb ef)"
    and eq: "(next_of ef node ^^ i) (chain_at ef node k) = (next_of ef node ^^ j) (chain_at ef node k)"
  then have "(i + k) * CLUSTER_SIZE (ef_sb ef) < n" "(j + k) * CLUSTER_SIZE (ef_sb ef) < n"
    by (simp_all add: add_mult_distrib)
  moreover have "(next_of ef node ^^ (i + k)) (nd_start_cluster node) = (next_of ef node ^^ (j + k)) (nd_start_cluster node)"
    using eq by (simp add: chain_at_def funpow_add)
  ultimately have "i + k = j + k" using assms unfolding distinct_chain_def by blast
  then show "i = j" by simp
qed

lemma distinct_mono: "distinct_chain ef node c n \<Longrightarrow> m \<le> n \<Longrightarrow> distinct_chain ef node c m"
  unfolding distinct_chain_def by (meson less_le_trans)

text \<open>Two writes one after the other: the second does not overwrite the first.\<close>

lemma stored_seq:
  assumes 1: "stored ef ef1 p1 (take k bs)" and 2: "stored ef1 ef2 p2 (drop k bs)"
    and k: "k \<le> length bs"
    and p1: "\<And>i. i < k \<Longrightarrow> pos i = p1 i" and p2: "\<And>i. i < length bs - k \<Longrightarrow> p2 i = pos (k + i)"
    and inj: "\<And>i j. i < length bs \<Longrightarrow> j < length bs \<Longrightarrow> i \<noteq> j \<Longrightarrow> pos i \<noteq> pos j"
  shows "stored ef ef2 pos bs"
  unfolding stored_def
proof (intro conjI allI impI)
  show "\<exists>b. ef2 = ef\<lparr>ef_dev := (ef_dev ef)\<lparr>dev_bytes := b\<rparr>\<rparr>"
  proof -
    obtain b1 b2 where "ef1 = ef\<lparr>ef_dev := (ef_dev ef)\<lparr>dev_bytes := b1\<rparr>\<rparr>"
      "ef2 = ef1\<lparr>ef_dev := (ef_dev ef1)\<lparr>dev_bytes := b2\<rparr>\<rparr>"
      using 1 2 unfolding stored_def by blast
    then show ?thesis by (intro exI[of _ b2]) simp
  qed
  fix i assume i: "i < length bs"
  show "dev_bytes (ef_dev ef2) (pos i) = bs ! i"
  proof (cases "i < k")
    case True
    have "\<forall>j < length (drop k bs). pos i \<noteq> p2 j"
    proof (intro allI impI)
      fix j assume "j < length (drop k bs)"
      then have "p2 j = pos (k + j)" "k + j < length bs" using p2 k by simp_all
      then show "pos i \<noteq> p2 j" using inj[of i "k + j"] True i by simp
    qed
    then have "dev_bytes (ef_dev ef2) (pos i) = dev_bytes (ef_dev ef1) (pos i)"
      using 2 unfolding stored_def by blast
    also have "\<dots> = take k bs ! i" using 1 True i k p1[OF True] unfolding stored_def by simp
    finally show ?thesis using True by simp
  next
    case False
    then have "i - k < length (drop k bs)" using i by simp
    then have "dev_bytes (ef_dev ef2) (p2 (i - k)) = drop k bs ! (i - k)"
      using 2 unfolding stored_def by blast
    then show ?thesis using False i p2[of "i - k"] by simp
  qed
next
  fix p assume p: "\<forall>i < length bs. p \<noteq> pos i"
  have "\<forall>j < length (drop k bs). p \<noteq> p2 j" using p p2 k by simp
  then have "dev_bytes (ef_dev ef2) p = dev_bytes (ef_dev ef1) p" using 2 unfolding stored_def by blast
  also have "\<forall>j < length (take k bs). p \<noteq> p1 j" using p p1 by (metis length_take min_less_iff_conj)
  then have "dev_bytes (ef_dev ef1) p = dev_bytes (ef_dev ef) p" using 1 unfolding stored_def by blast
  finally show "dev_bytes (ef_dev ef2) p = dev_bytes (ef_dev ef) p" .
qed

lemma write_loop_bytes:
  assumes "volume_ok ef" "writable (ef_dev ef)" "lo < CLUSTER_SIZE (ef_sb ef)"
    "covered ef node c (lo + length bs)" "distinct_chain ef node c (lo + length bs)"
  shows "\<exists>ef'. write_loop ef node c lo bs = Inr (True, ef') \<and>
    stored ef ef' (\<lambda>i. byte_pos ef node c (lo + i)) bs \<and>
    (\<forall>d nd. valid_cluster ef d \<longrightarrow> next_of ef' nd d = next_of ef nd d)"
  using assms
proof (induction "length bs" arbitrary: ef c lo bs rule: less_induct)
  case less
  let ?s = "CLUSTER_SIZE (ef_sb ef)"
  show ?case
  proof (cases "bs = []")
    case True
    then show ?thesis using stored_nil by (simp add: write_loop.simps)
  next
    case False
    let ?k = "min (?s - lo) (length bs)"
    let ?n = "lo + length bs"
    have k: "0 < ?k" "?k \<le> length bs" using False less.prems(3) by simp_all
    have v: "valid_cluster ef c" and cov: "covered ef node (next_of ef node c) (?n - ?s)"
      using covered_step[OF less.prems(4)] False by simp_all
    have "lo + length (take ?k bs) \<le> ?s" using less.prems(3) by simp
    from write_in_cluster[OF less.prems(1,2) v this]
    obtain d where d: "exfat_pwrite (ef_dev ef) (take ?k bs) (int (cluster_start (ef_sb ef) c) + int lo) = Some d"
      and st1: "stored ef (ef\<lparr>ef_dev := d\<rparr>) (\<lambda>i. cluster_start (ef_sb ef) c + lo + i) (take ?k bs)"
      and lk: "\<And>e nd. valid_cluster ef e \<Longrightarrow> next_of (ef\<lparr>ef_dev := d\<rparr>) nd e = next_of ef nd e"
      by blast
    define ef1 where "ef1 = ef\<lparr>ef_dev := d\<rparr>"
    define c1 where "c1 = next_of ef node c"
    note st1 = st1[folded ef1_def] and lk = lk[folded ef1_def]
    note fr = stored_frame[OF st1]
    have links: "\<forall>e. valid_cluster ef e \<longrightarrow> next_of ef1 node e = next_of ef node e" using lk by blast
    have dist: "distinct_chain ef node c1 (?n - ?s)"
      by (rule distinct_step[OF less.prems(5), folded c1_def])
    note same = same_links[OF fr(1) links cov[folded c1_def]]
    have len: "0 + length (drop ?k bs) \<le> ?n - ?s" "length (drop ?k bs) < length bs"
      using k less.prems(3) by auto
    have "covered ef1 node c1 (0 + length (drop ?k bs))" by (rule covered_mono[OF same(2) len(1)])
    moreover have "distinct_chain ef1 node c1 (0 + length (drop ?k bs))"
      by (rule distinct_mono[OF same(3)[OF dist] len(1)])
    moreover have "volume_ok ef1" "writable (ef_dev ef1)" "0 < CLUSTER_SIZE (ef_sb ef1)"
      using volume_ok_frame[OF fr(1-3)] less.prems(1,2) fr(4) by simp_all
    ultimately obtain ef' where r: "write_loop ef1 node c1 0 (drop ?k bs) = Inr (True, ef')"
      and st2: "stored ef1 ef' (\<lambda>i. byte_pos ef1 node c1 (0 + i)) (drop ?k bs)"
      and lk2: "\<And>d nd. valid_cluster ef1 d \<Longrightarrow> next_of ef' nd d = next_of ef1 nd d"
      using less.hyps[OF len(2), of ef1 0 c1] by blast
    have 2: "2 \<le> unat c" using v by (simp add: valid_cluster_def cluster_valid_iff)
    have nx: "exfat_next_cluster ef1 node c = Inr c1"
      using next_cluster_next_of[OF valid_ge_2[OF v], of ef1 node] links v by (simp add: c1_def)
    have step: "write_loop ef node c lo bs = Inr (True, ef')"
      using False v d c2o_eq[OF 2, of "ef_sb ef"] nx r
      by (subst write_loop.simps) (simp add: valid_cluster_def Let_def ef1_def)
    have pos1: "byte_pos ef node c (lo + i) = cluster_start (ef_sb ef) c + lo + i" if "i < ?k" for i
      using byte_pos_first[of "lo + i" ef node c] that by (simp add: add.assoc less_diff_conv add.commute)
    have pos2: "byte_pos ef1 node c1 i = byte_pos ef node c (lo + (?k + i))" if "i < length bs - ?k" for i
    proof -
      have "?k = ?s - lo" using that by (simp add: min_def split: if_splits)
      then have e: "lo + (?k + i) = ?s + i" using less.prems(3) by simp
      have "i < ?n - ?s" using that len(1) by simp
      then show ?thesis using same(4) unfolding e byte_pos_next c1_def by simp
    qed
    have "stored ef ef' (\<lambda>i. byte_pos ef node c (lo + i)) bs"
    proof (rule stored_seq[OF st1 st2])
      show "byte_pos ef node c (lo + i) \<noteq> byte_pos ef node c (lo + j)"
        if "i < length bs" "j < length bs" "i \<noteq> j" for i j
        using byte_pos_inj[OF less.prems(4,5), of "lo + i" "lo + j"] that by auto
    qed (use k pos1 pos2 in auto)
    moreover have "next_of ef' nd e = next_of ef nd e" if "valid_cluster ef e" for e nd
      using lk2[of e nd] lk[OF that, of nd] fr(5) that by simp
    ultimately show ?thesis using step by blast
  qed
qed

text \<open>The first \<open>n\<close> bytes of one file share no cluster with the first \<open>m\<close> of another.\<close>

definition apart :: "exfat \<Rightarrow> exfat_node \<Rightarrow> nat \<Rightarrow> exfat_node \<Rightarrow> nat \<Rightarrow> bool" where
  "apart ef node n nd m \<longleftrightarrow>
     (\<forall>i j. i * CLUSTER_SIZE (ef_sb ef) < n \<longrightarrow> j * CLUSTER_SIZE (ef_sb ef) < m \<longrightarrow>
        chain_at ef node i \<noteq> chain_at ef nd j)"

lemma byte_pos_apart:
  assumes "covered ef node (nd_start_cluster node) n" "covered ef nd (nd_start_cluster nd) m"
    and "apart ef node n nd m" "i < n" "j < m"
  shows "byte_pos ef node (nd_start_cluster node) i \<noteq> byte_pos ef nd (nd_start_cluster nd) j"
proof
  let ?s = "CLUSTER_SIZE (ef_sb ef)"
  let ?c = "chain_at ef node (i div ?s)" and ?d = "chain_at ef nd (j div ?s)"
  assume "byte_pos ef node (nd_start_cluster node) i = byte_pos ef nd (nd_start_cluster nd) j"
  then have eq: "cluster_start (ef_sb ef) ?c + i mod ?s = cluster_start (ef_sb ef) ?d + j mod ?s"
    by (simp add: byte_pos_def chain_at_def)
  have le: "i div ?s * ?s < n" "j div ?s * ?s < m"
    using assms(4,5) div_times_less_eq_dividend[of i ?s] div_times_less_eq_dividend[of j ?s]
    by (meson le_less_trans)+
  then have "valid_cluster ef ?c" "valid_cluster ef ?d"
    using assms(1,2) unfolding covered_def chain_at_def by blast+
  then have 2: "2 \<le> unat ?c" "2 \<le> unat ?d" by (simp_all add: valid_cluster_def cluster_valid_iff)
  have "unat ?c \<noteq> unat ?d" using assms(3) le unfolding apart_def by (simp add: word_unat_eq_iff)
  then consider "unat ?c < unat ?d" | "unat ?d < unat ?c" by linarith
  then show False
  proof cases
    case 1
    show False by (rule no_overlap[OF cluster_start_step[OF 2 1] eq]) simp
  next
    case 3: 2
    show False by (rule no_overlap[OF cluster_start_step[OF 2(2,1) 3] eq[symmetric]]) simp
  qed
qed

lemma generic_pwrite_inside:
  assumes "volume_ok ef" "writable (ef_dev ef)" "fptr_ok ef node"
    and "covered ef node (nd_start_cluster node) (unat (nd_size node))"
    and "distinct_chain ef node (nd_start_cluster node) (unat (nd_size node))"
    and "unat (nd_size node) \<le> 2 ^ 32 * CLUSTER_SIZE (ef_sb ef)" "unat (nd_size node) < 2 ^ 63"
    and "off + length bs \<le> unat (nd_size node)"
  shows "\<exists>ef' i c m d. exfat_generic_pwrite ef node bs (int off) = Inr (Inr (length bs), ef',
      node\<lparr>nd_fptr_index := i, nd_fptr_cluster := c, nd_mtime := m, nd_is_dirty := d\<rparr>) \<and>
    stored ef ef' (\<lambda>i. byte_pos ef node (nd_start_cluster node) (off + i)) bs \<and>
    (\<forall>d nd. valid_cluster ef d \<longrightarrow> next_of ef' nd d = next_of ef nd d)"
proof -
  let ?s = "CLUSTER_SIZE (ef_sb ef)" and ?z = "unat (nd_size node)"
  have bounds: "off < 2 ^ 64" "length bs < 2 ^ 64" using assms(7,8) by simp_all
  have uo: "unat (word_of_nat off :: u64) = off" "unat (word_of_nat (length bs) :: u64) = length bs"
    using bounds by (simp_all add: unat_of_nat)
  have us: "unat (word_of_nat off + word_of_nat (length bs) :: u64) = off + length bs"
    using uo assms(7,8) by (simp add: unat_word_ariths)
  have no_grow: "\<not> nd_size node < word_of_nat off" "\<not> nd_size node < word_of_nat off + word_of_nat (length bs)"
    using assms(8) unfolding word_less_nat_alt uo us by simp_all
  show ?thesis
  proof (cases "bs = []")
    case True
    then have "exfat_generic_pwrite ef node bs (int off) = Inr (Inr 0, ef, node)"
      using no_grow by (simp add: exfat_generic_pwrite_def)
    moreover have "node = node\<lparr>nd_fptr_index := nd_fptr_index node, nd_fptr_cluster := nd_fptr_cluster node,
        nd_mtime := nd_mtime node, nd_is_dirty := nd_is_dirty node\<rparr>" by simp
    ultimately show ?thesis using True stored_nil by (metis list.size(3))
  next
    case False
    then have lt: "off < ?z" using assms(8) by (cases bs) auto
    define k where "k = off div ?s"
    define c where "c = chain_at ef node k"
    note adv = advance_to_offset[OF assms(3,4) lt assms(6), folded k_def, folded c_def]
    let ?node = "node\<lparr>nd_fptr_cluster := c, nd_fptr_index := word_of_nat k\<rparr>"
    have m: "nat (int off mod int ?s) = off mod ?s" by (simp flip: zmod_int)
    have split: "k * ?s + off mod ?s = off" unfolding k_def by simp
    have nxt: "next_of s ?node = next_of s node" for s by simp
    have cov: "covered ef ?node c (off mod ?s + length bs)"
      using covered_mono[OF adv(4), of "off mod ?s + length bs"] assms(8) split
      by (simp add: covered_def)
    have dist: "distinct_chain ef ?node c (off mod ?s + length bs)"
      using distinct_mono[OF distinct_from[OF assms(5), of k, folded c_def], of "off mod ?s + length bs"]
        assms(8) split by (simp add: distinct_chain_def)
    have "off mod ?s < ?s" by simp
    from write_loop_bytes[OF assms(1,2) this cov dist]
    obtain ef' where w: "write_loop ef ?node c (off mod ?s) bs = Inr (True, ef')"
      and st: "stored ef ef' (\<lambda>i. byte_pos ef ?node c (off mod ?s + i)) bs"
      and lk: "\<forall>d nd. valid_cluster ef d \<longrightarrow> next_of ef' nd d = next_of ef nd d" by blast
    have "byte_pos ef ?node c (off mod ?s + i) = byte_pos ef node (nd_start_cluster node) (off + i)" for i
      using byte_pos_chain[of ef node k "off mod ?s + i"] split
      by (simp add: c_def byte_pos_def add.assoc[symmetric])
    with st have st': "stored ef ef' (\<lambda>i. byte_pos ef node (nd_start_cluster node) (off + i)) bs" by simp
    define node' where "node' = (if nd_attrib node AND EXFAT_ATTRIB_DIR = 0 then exfat_update_mtime ef' ?node else ?node)"
    have "exfat_generic_pwrite ef node bs (int off) = Inr (Inr (length bs), ef', node')"
      using no_grow False adv(1,2) w
      by (simp add: exfat_generic_pwrite_def Let_def m node'_def valid_cluster_def)
    moreover have "node' = node\<lparr>nd_fptr_index := word_of_nat k, nd_fptr_cluster := c,
        nd_mtime := nd_mtime node', nd_is_dirty := nd_is_dirty node'\<rparr>"
      by (simp add: node'_def exfat_update_mtime_def)
    ultimately show ?thesis using st' lk by metis
  qed
qed

text \<open>
  C5: writing inside a file refines the abstract view: exactly the bytes from the offset on
  become the bytes written, every other byte of the file, every byte of a file that shares
  no cluster with it, and the allocation bitmap keep their values, and the size is the same.
\<close>

theorem generic_pwrite_content:
  assumes "volume_ok ef" "writable (ef_dev ef)" "fptr_ok ef node"
    and "covered ef node (nd_start_cluster node) (unat (nd_size node))"
    and "distinct_chain ef node (nd_start_cluster node) (unat (nd_size node))"
    and "unat (nd_size node) \<le> 2 ^ 32 * CLUSTER_SIZE (ef_sb ef)" "unat (nd_size node) < 2 ^ 63"
    and "off + length bs \<le> unat (nd_size node)"
  shows "\<exists>ef' node'. exfat_generic_pwrite ef node bs (int off) = Inr (Inr (length bs), ef', node') \<and>
    nd_size node' = nd_size node \<and> cmap_chunk ef' = cmap_chunk ef \<and>
    (\<forall>i < unat (nd_size node). file_byte ef' node' i =
       (if off \<le> i \<and> i < off + length bs then bs ! (i - off) else file_byte ef node i)) \<and>
    (\<forall>nd m i. covered ef nd (nd_start_cluster nd) m \<and> apart ef node (unat (nd_size node)) nd m \<and> i < m \<longrightarrow>
       file_byte ef' nd i = file_byte ef nd i)"
proof -
  let ?z = "unat (nd_size node)" and ?p = "byte_pos ef node (nd_start_cluster node)"
  obtain ef' j c t d where
    w: "exfat_generic_pwrite ef node bs (int off) = Inr (Inr (length bs), ef',
      node\<lparr>nd_fptr_index := j, nd_fptr_cluster := c, nd_mtime := t, nd_is_dirty := d\<rparr>)"
    and st: "stored ef ef' (\<lambda>i. ?p (off + i)) bs"
    and lk: "\<forall>d nd. valid_cluster ef d \<longrightarrow> next_of ef' nd d = next_of ef nd d"
    using generic_pwrite_inside[OF assms] by blast
  let ?node = "node\<lparr>nd_fptr_index := j, nd_fptr_cluster := c, nd_mtime := t, nd_is_dirty := d\<rparr>"
  note fr = stored_frame[OF st]
  have pos: "byte_pos ef' nd (nd_start_cluster nd) i = byte_pos ef nd (nd_start_cluster nd) i"
    if "covered ef nd (nd_start_cluster nd) m" "i < m" for nd m i
    by (rule same_links(4)[OF fr(1) _ that]) (use lk in blast)
  have hit: "dev_bytes (ef_dev ef') (?p (off + i)) = bs ! i" if "i < length bs" for i
    using st that unfolding stored_def by blast
  have miss: "dev_bytes (ef_dev ef') q = dev_bytes (ef_dev ef) q" if "\<forall>i < length bs. q \<noteq> ?p (off + i)" for q
    using st that unfolding stored_def by blast
  have own: "file_byte ef' ?node i = (if off \<le> i \<and> i < off + length bs then bs ! (i - off) else file_byte ef node i)"
    if i: "i < ?z" for i
  proof -
    have "byte_pos ef' ?node (nd_start_cluster ?node) i = ?p i"
      using pos[OF assms(4) i] by (simp add: byte_pos_def)
    then have f: "file_byte ef' ?node i = dev_bytes (ef_dev ef') (?p i)" by (simp only: file_byte_def)
    show ?thesis
    proof (cases "off \<le> i \<and> i < off + length bs")
      case True
      then have "i - off < length bs" by linarith
      then show ?thesis using f hit[of "i - off"] True by simp
    next
      case False
      have "?p i \<noteq> ?p (off + k)" if "k < length bs" for k
        using byte_pos_inj[OF assms(4,5) i, of "off + k"] that assms(8) False by auto
      then have "file_byte ef' ?node i = file_byte ef node i"
        using f miss[of "?p i"] by (simp only: file_byte_def) blast
      then show ?thesis using False by presburger
    qed
  qed
  have other: "file_byte ef' nd i = file_byte ef nd i"
    if cov: "covered ef nd (nd_start_cluster nd) m" and ap: "apart ef node ?z nd m" and im: "i < m" for nd m i
  proof -
    have "byte_pos ef nd (nd_start_cluster nd) i \<noteq> ?p (off + k)" if k: "k < length bs" for k
      using byte_pos_apart[OF assms(4) cov ap _ im, of "off + k"] k assms(8) by simp
    then show ?thesis using miss pos[OF cov im] by (simp add: file_byte_def)
  qed
  have "nd_size ?node = nd_size node" by simp
  then show ?thesis using w fr(6) own other by blast
qed

section \<open>A concrete file\<close>

lemma demo_volume_ok: "volume_ok demo_ef"
  by (auto simp: volume_ok_def valid_cluster_def demo_cluster_valid fat_offset_def s2o_def
      cluster_start_def nat_add_distrib nat_mult_distrib)

lemma demo_chain:
  "(next_of demo_ef demo_file ^^ 0) 5 = 5" "(next_of demo_ef demo_file ^^ 1) 5 = 7"
  "(next_of demo_ef demo_file ^^ 2) 5 = 9"
  by (simp_all add: numeral_2_eq_2 next_of_def demo_file_def zero_node_def demo_fat_link)

lemma demo_file_sel [simp]:
  "nd_start_cluster demo_file = 5" "nd_size demo_file = 1300" "nd_fptr_index demo_file = 0"
  "nd_fptr_cluster demo_file = 5" "nd_attrib demo_file = 0x20"
  by (simp_all add: demo_file_def zero_node_def)

lemma demo_fptr_ok: "fptr_ok demo_ef demo_file"
  by (simp add: fptr_ok_def chain_at_def)

lemma demo_steps: "j * 512 < (1300 :: nat) \<longleftrightarrow> j = 0 \<or> j = 1 \<or> j = 2"
  by auto

lemma demo_covered: "covered demo_ef demo_file 5 1300"
  using demo_chain by (auto simp: covered_def demo_steps valid_cluster_def demo_cluster_valid)

lemma demo_distinct: "distinct_chain demo_ef demo_file 5 1300"
  using demo_chain by (auto simp: distinct_chain_def demo_steps)

theorem generic_pread_content_witness:
  "\<exists>node'. exfat_generic_pread demo_ef demo_file [1, 2, 3] 1299
     = Inr (Inr 1, [file_byte demo_ef demo_file 1299, 2, 3], node')"
  using generic_pread_content[OF demo_volume_ok demo_fptr_ok, of 1299 "[1, 2, 3]"] demo_covered
  by auto

theorem generic_pwrite_content_witness:
  "\<exists>ef' node'. exfat_generic_pwrite demo_ef demo_file [1, 2, 3] 511 = Inr (Inr 3, ef', node') \<and>
     file_byte ef' node' 511 = 1 \<and> file_byte ef' node' 513 = 3 \<and>
     file_byte ef' node' 514 = file_byte demo_ef demo_file 514"
proof -
  obtain ef' node' where "exfat_generic_pwrite demo_ef demo_file [1, 2, 3] 511 = Inr (Inr 3, ef', node')"
    and b: "\<forall>i < 1300. file_byte ef' node' i =
       (if 511 \<le> i \<and> i < 514 then [1, 2, 3] ! (i - 511) else file_byte demo_ef demo_file i)"
    using generic_pwrite_content[OF demo_volume_ok _ demo_fptr_ok, of 511 "[1, 2, 3]"] demo_covered demo_distinct
    by auto
  then show ?thesis by simp
qed

end
