(* ===== verification/Lsexfat.thy ===== *)
theory Lsexfat
  imports FileIO
begin

text \<open>
  The disk regions of a file (lsexfat.c): the table of runs of 2048-byte image sectors that
  the tool prints, built by following the chain of clusters of the image file.
\<close>

section \<open>The image location table\<close>

record ventoy_image_disk_region =
  rg_image_sector_count :: u32
  rg_image_start_sector :: u32
  rg_disk_start_sector :: u64

text \<open>
  \<open>ventoy_image_location\<close> (vtoydump.h); the list holds the first \<open>region_count\<close> regions, the
  ones after them are memory the code has not written.
\<close>

record ventoy_image_location =
  loc_guid :: "u8 list"
  loc_image_sector_size :: u32
  loc_disk_sector_size :: u32
  loc_regions :: "ventoy_image_disk_region list"

text \<open>\<open>VENTOY_GUID\<close> as it lies in memory: the bytes of \<open>"  www.ventoy.net"\<close>.\<close>

definition VENTOY_GUID :: "u8 list" where
  "VENTOY_GUID = [0x20, 0x20, 0x77, 0x77, 0x77, 0x2e, 0x76, 0x65,
                  0x6e, 0x74, 0x6f, 0x79, 0x2e, 0x6e, 0x65, 0x74]"

text \<open>The two static variables of lsexfat.c.\<close>

record lsexfat_state =
  g_image_max_region :: nat
  g_image_location :: "ventoy_image_location option"

definition realloc_image_location ::
    "(nat \<Rightarrow> bool) \<Rightarrow> nat \<Rightarrow> lsexfat_state \<Rightarrow> bool \<times> lsexfat_state" where
  "realloc_image_location malloc_ok max_region g =
     (if \<not> malloc_ok (44 + 16 * (max_region - 1)) then (False, g)
      else (True, \<lparr>g_image_max_region = max_region,
         g_image_location = (case g_image_location g of
             Some l \<Rightarrow> Some l
           | None \<Rightarrow> Some \<lparr>loc_guid = VENTOY_GUID, loc_image_sector_size = 2048,
                           loc_disk_sector_size = 512, loc_regions = []\<rparr>)\<rparr>))"

text \<open>The number returned is the size, or -1 when the table could not grow.\<close>

definition exfat_add_disk_region ::
    "(nat \<Rightarrow> bool) \<Rightarrow> nat \<Rightarrow> int \<Rightarrow> lsexfat_state \<Rightarrow> fault + (int \<times> lsexfat_state)" where
  "exfat_add_disk_region malloc_ok sz offset g =
     (if sz = 0 then Inr (0, g)
      else (case g_image_location g of
        None \<Rightarrow> Inl Undef
      | Some l \<Rightarrow>
          let count = word_of_nat (sz div 2048); start = word_of_int (offset div 512) in
          if loc_regions l = [] then
            Inr (int sz, g\<lparr>g_image_location := Some (l\<lparr>loc_regions :=
              [\<lparr>rg_image_sector_count = count, rg_image_start_sector = 0, rg_disk_start_sector = start\<rparr>]\<rparr>)\<rparr>)
          else let last_region = last (loc_regions l) in
            if rg_disk_start_sector last_region + ucast (rg_image_sector_count last_region) * 4 = start then
              Inr (int sz, g\<lparr>g_image_location := Some (l\<lparr>loc_regions := butlast (loc_regions l) @
                [last_region\<lparr>rg_image_sector_count := rg_image_sector_count last_region + count\<rparr>]\<rparr>)\<rparr>)
            else
              (case (if length (loc_regions l) = g_image_max_region g
                     then realloc_image_location malloc_ok (g_image_max_region g * 2) g
                     else (True, g)) of
                 (ok, g) \<Rightarrow>
                   if \<not> ok then Inr (-1, g)
                   else Inr (int sz, g\<lparr>g_image_location := Some (l\<lparr>loc_regions := loc_regions l @
                     [\<lparr>rg_image_sector_count = count,
                       rg_image_start_sector = rg_image_start_sector last_region + rg_image_sector_count last_region,
                       rg_disk_start_sector = start\<rparr>]\<rparr>)\<rparr>))))"

text \<open>
  The loop of \<open>exfat_get_image_location\<close>, with the call after it: \<open>left\<close> is \<open>left_size\<close>. What
  \<open>exfat_add_disk_region\<close> returns is not looked at.
\<close>

function location_loop ::
    "exfat \<Rightarrow> exfat_node \<Rightarrow> cluster_t \<Rightarrow> nat \<Rightarrow> nat \<Rightarrow> int \<Rightarrow> lsexfat_state
     \<Rightarrow> fault + (retcode \<times> lsexfat_state)" where
  "location_loop ef node cluster left last_size last_offset g =
     (if left = 0 then
        andThen (exfat_add_disk_region (ef_malloc_ok ef) last_size last_offset g) (\<lambda>(_, g). Inr (RC0, g))
      else if CLUSTER_INVALID (ef_sb ef) cluster then Inr (EIO, g)
      else let cur_size = min (CLUSTER_SIZE (ef_sb ef)) left in
        andThen (exfat_c2o (ef_sb ef) cluster) (\<lambda>cur_offset.
          if last_offset + int last_size = cur_offset then
            andThen (exfat_next_cluster ef node cluster) (\<lambda>cluster.
              location_loop ef node cluster (left - cur_size) (last_size + cur_size) last_offset g)
          else
            andThen (exfat_add_disk_region (ef_malloc_ok ef) last_size last_offset g) (\<lambda>(_, g).
              andThen (exfat_next_cluster ef node cluster) (\<lambda>cluster.
                location_loop ef node cluster (left - cur_size) cur_size cur_offset g))))"
  by pat_completeness auto
termination
  by (relation "measure (\<lambda>(ef, node, cluster, left, last_size, last_offset, g). left)") auto

declare location_loop.simps [simp del]

text \<open>The size is converted to a signed \<open>off_t\<close>; a negative one ends the loop at once.\<close>

definition exfat_get_image_location ::
    "exfat \<Rightarrow> exfat_node \<Rightarrow> lsexfat_state \<Rightarrow> fault + (retcode \<times> exfat_node \<times> lsexfat_state)" where
  "exfat_get_image_location ef node g =
     (let g = snd (realloc_image_location (ef_malloc_ok ef) 1024 g) in
      andThen (exfat_advance_cluster ef node 0) (\<lambda>(cluster, node).
        if CLUSTER_INVALID (ef_sb ef) cluster then Inr (EIO, node, g)
        else andThen (location_loop ef node cluster
                        (if unat (nd_size node) < 2 ^ 63 then unat (nd_size node) else 0) 0 0 g)
          (\<lambda>(rc, g). Inr (rc, node, g))))"

section \<open>What the table promises\<close>

text \<open>
  The regions tile the image from sector \<open>a\<close> to sector \<open>n\<close> (of 2048 bytes), in order and
  without gaps, and byte \<open>i\<close> of the image lies at byte \<open>f i\<close> of the volume.
\<close>

fun tiles :: "(nat \<Rightarrow> nat) \<Rightarrow> nat \<Rightarrow> ventoy_image_disk_region list \<Rightarrow> nat \<Rightarrow> bool" where
  "tiles f a [] n \<longleftrightarrow> a = n"
| "tiles f a (r # rs) n \<longleftrightarrow> unat (rg_image_start_sector r) = a \<and>
     (\<forall>i < unat (rg_image_sector_count r) * 2048.
        f (a * 2048 + i) = unat (rg_disk_start_sector r) * 512 + i) \<and>
     tiles f (a + unat (rg_image_sector_count r)) rs n"

lemma tiles_append: "tiles f a (rs @ qs) n \<longleftrightarrow> (\<exists>m. tiles f a rs m \<and> tiles f m qs n)"
  by (induction rs arbitrary: a) auto

lemma tiles_covers:
  assumes "tiles f a rs n" "a * 2048 \<le> i" "i < n * 2048"
  shows "\<exists>r \<in> set rs. unat (rg_image_start_sector r) * 2048 \<le> i \<and>
    i < (unat (rg_image_start_sector r) + unat (rg_image_sector_count r)) * 2048 \<and>
    f i = unat (rg_disk_start_sector r) * 512 + (i - unat (rg_image_start_sector r) * 2048)"
  using assms
proof (induction rs arbitrary: a)
  case Nil
  then show ?case by simp
next
  case (Cons r rs)
  show ?case
  proof (cases "i < (a + unat (rg_image_sector_count r)) * 2048")
    case True
    then have "i - a * 2048 < unat (rg_image_sector_count r) * 2048" using Cons.prems(2) by (simp add: algebra_simps)
    then have "f (a * 2048 + (i - a * 2048)) = unat (rg_disk_start_sector r) * 512 + (i - a * 2048)"
      using Cons.prems(1) by simp
    then show ?thesis using True Cons.prems(1,2) by auto
  next
    case False
    then show ?thesis using Cons.IH[of "a + unat (rg_image_sector_count r)"] Cons.prems by auto
  qed
qed

text \<open>No region could have been joined with the one before it.\<close>

fun separate :: "ventoy_image_disk_region list \<Rightarrow> bool" where
  "separate [] \<longleftrightarrow> True"
| "separate [r] \<longleftrightarrow> True"
| "separate (r # q # rs) \<longleftrightarrow>
     rg_disk_start_sector r + ucast (rg_image_sector_count r) * 4 \<noteq> rg_disk_start_sector q \<and> separate (q # rs)"

lemma separate_snoc:
  "separate (rs @ [q]) \<longleftrightarrow> separate rs \<and> (rs = [] \<or>
     rg_disk_start_sector (last rs) + ucast (rg_image_sector_count (last rs)) * 4 \<noteq> rg_disk_start_sector q)"
  by (induction rs rule: separate.induct) auto

lemma separate_butlast_update:
  assumes "separate rs" "rs \<noteq> []" "rg_disk_start_sector q = rg_disk_start_sector (last rs)"
  shows "separate (butlast rs @ [q])"
proof -
  have "separate (butlast rs @ [last rs])" using assms(1,2) by simp
  then show ?thesis using assms(3) unfolding separate_snoc by simp
qed

section \<open>Adding a run\<close>

definition regions_of :: "lsexfat_state \<Rightarrow> ventoy_image_disk_region list" where
  "regions_of g = (case g_image_location g of None \<Rightarrow> [] | Some l \<Rightarrow> loc_regions l)"

definition location_ready :: "lsexfat_state \<Rightarrow> bool" where
  "location_ready g \<longleftrightarrow> (\<exists>l. g_image_location g = Some l \<and> loc_guid l = VENTOY_GUID \<and>
     loc_image_sector_size l = 2048 \<and> loc_disk_sector_size l = 512 \<and> separate (loc_regions l))"

lemma realloc_ready:
  assumes "\<forall>n. malloc_ok n" "location_ready g \<or> g_image_location g = None"
  shows "\<exists>g'. realloc_image_location malloc_ok k g = (True, g') \<and> location_ready g' \<and> regions_of g' = regions_of g"
  using assms by (auto simp: realloc_image_location_def location_ready_def regions_of_def)

lemma sectors_to_bytes: "d + c * 4 = k \<Longrightarrow> k * 512 = q \<Longrightarrow> q = d * 512 + c * (2048 :: nat)"
  by linarith

text \<open>
  A run of \<open>m\<close> image sectors at byte \<open>q\<close> of the volume extends the part of the image that is
  tiled.
\<close>

lemma add_region_tiles:
  assumes "\<forall>n. malloc_ok n" "location_ready g" "tiles f 0 (regions_of g) n"
    and "sz div 2048 = m" "n + m < 2 ^ 32" "0 < sz" "q mod 512 = 0" "q div 512 < 2 ^ 63"
    and "\<forall>i < m * 2048. f (n * 2048 + i) = q + i"
    and "\<forall>r \<in> set (regions_of g). unat (rg_disk_start_sector r) < 2 ^ 63"
  shows "\<exists>z g'. exfat_add_disk_region malloc_ok sz (int q) g = Inr (z, g') \<and> location_ready g' \<and>
    tiles f 0 (regions_of g') (n + m) \<and> (\<forall>r \<in> set (regions_of g'). unat (rg_disk_start_sector r) < 2 ^ 63)"
proof -
  obtain l where l: "g_image_location g = Some l" "loc_guid l = VENTOY_GUID"
      "loc_image_sector_size l = 2048" "loc_disk_sector_size l = 512" "separate (loc_regions l)"
    using assms(2) unfolding location_ready_def by blast
  then have rs: "regions_of g = loc_regions l" by (simp add: regions_of_def)
  have um: "unat (word_of_nat (sz div 2048) :: u32) = m" using assms(4,5) by (simp add: unat_of_nat)
  have e: "int q div 512 = int (q div 512)" by (simp add: zdiv_int)
  have "(word_of_int (int q div 512) :: u64) = word_of_nat (q div 512)" unfolding e by simp
  then have uq: "unat (word_of_int (int q div 512) :: u64) = q div 512"
    using assms(8) by (simp add: unat_of_nat)
  have q: "q div 512 * 512 = q" using assms(7) by auto
  show ?thesis
  proof (cases "loc_regions l = []")
    case True
    then have "n = 0" using assms(3) rs by simp
    let ?r = "\<lparr>rg_image_sector_count = word_of_nat (sz div 2048), rg_image_start_sector = 0 :: u32,
        rg_disk_start_sector = word_of_int (int q div 512) :: u64\<rparr>"
    have "tiles f 0 [?r] m" using um uq q assms(9) \<open>n = 0\<close> by simp
    then show ?thesis using True l assms(6,8) uq \<open>n = 0\<close>
      by (simp add: exfat_add_disk_region_def Let_def location_ready_def regions_of_def)
  next
    case ne: False
    define r where "r = last (loc_regions l)"
    define a where "a = unat (rg_image_start_sector r)"
    have app: "loc_regions l = butlast (loc_regions l) @ [r]" using ne by (simp add: r_def)
    obtain a' where t: "tiles f 0 (butlast (loc_regions l)) a'" "tiles f a' [r] n"
      using assms(3) unfolding rs by (subst (asm) app) (auto simp: tiles_append)
    have ra: "unat (rg_image_start_sector r) = a'" "a' + unat (rg_image_sector_count r) = n"
      "\<forall>i < unat (rg_image_sector_count r) * 2048. f (a' * 2048 + i) = unat (rg_disk_start_sector r) * 512 + i"
      using t(2) by simp_all
    have rin: "r \<in> set (loc_regions l)" using ne by (simp add: r_def)
    have rd: "unat (rg_disk_start_sector r) < 2 ^ 63" using assms(10) rin rs by simp
    have "unat (ucast (rg_image_sector_count r) * 4 :: u64) = unat (rg_image_sector_count r) * 4"
      using unat_bound[of "rg_image_sector_count r"]
      by (simp add: unat_word_ariths unsigned_ucast_eq take_bit_nat_eq_self)
    then have ue: "unat (rg_disk_start_sector r + ucast (rg_image_sector_count r) * 4)
        = unat (rg_disk_start_sector r) + unat (rg_image_sector_count r) * 4"
      using rd unat_bound[of "rg_image_sector_count r"] by (simp add: unat_word_ariths)
    show ?thesis
    proof (cases "rg_disk_start_sector r + ucast (rg_image_sector_count r) * 4 = (word_of_int (int q div 512) :: u64)")
      case True
      then have join: "unat (rg_disk_start_sector r) + unat (rg_image_sector_count r) * 4 = q div 512"
        using ue uq by simp
      let ?r = "r\<lparr>rg_image_sector_count := rg_image_sector_count r + word_of_nat (sz div 2048)\<rparr>"
      have uc: "unat (rg_image_sector_count r + word_of_nat (sz div 2048)) = unat (rg_image_sector_count r) + m"
        using um ra(2) assms(5) by (simp add: unat_word_ariths)
      have "f (a' * 2048 + i) = unat (rg_disk_start_sector r) * 512 + i"
        if i: "i < (unat (rg_image_sector_count r) + m) * 2048" for i
      proof (cases "i < unat (rg_image_sector_count r) * 2048")
        case True
        then show ?thesis using ra(3) by simp
      next
        case False
        define k where "k = i - unat (rg_image_sector_count r) * 2048"
        have k: "k < m * 2048" "i = unat (rg_image_sector_count r) * 2048 + k"
          using i False by (simp_all add: k_def algebra_simps)
        have "a' * 2048 + i = n * 2048 + k" using k(2) ra(2) by (simp add: algebra_simps flip: ra(2))
        then have "f (a' * 2048 + i) = q + k" using assms(9) k(1) by simp
        also have "q = unat (rg_disk_start_sector r) * 512 + unat (rg_image_sector_count r) * 2048"
          by (rule sectors_to_bytes[OF join q])
        finally show ?thesis using k(2) by simp
      qed
      then have "tiles f a' [?r] (n + m)" using ra(1,2) uc by (simp add: add.assoc[symmetric])
      then have "tiles f 0 (butlast (loc_regions l) @ [?r]) (n + m)" using t(1) by (auto simp: tiles_append)
      moreover have "separate (butlast (loc_regions l) @ [?r])"
        by (rule separate_butlast_update[OF l(5) ne]) (simp add: r_def)
      moreover have "\<forall>x \<in> set (butlast (loc_regions l) @ [?r]). unat (rg_disk_start_sector x) < 2 ^ 63"
        using assms(10) rs rd by (auto dest: in_set_butlastD)
      ultimately show ?thesis using ne l(1-4) True assms(6)
        by (simp add: exfat_add_disk_region_def Let_def location_ready_def regions_of_def r_def[symmetric])
    next
      case False
      have "\<exists>g1. (if length (loc_regions l) = g_image_max_region g
           then realloc_image_location malloc_ok (g_image_max_region g * 2) g else (True, g)) = (True, g1) \<and>
           g_image_location g1 = Some l"
        using assms(1) l(1) by (simp add: realloc_image_location_def)
      then obtain g1 where g1: "(if length (loc_regions l) = g_image_max_region g
           then realloc_image_location malloc_ok (g_image_max_region g * 2) g else (True, g)) = (True, g1)"
        "g_image_location g1 = Some l" by blast
      let ?r = "\<lparr>rg_image_sector_count = word_of_nat (sz div 2048),
          rg_image_start_sector = rg_image_start_sector r + rg_image_sector_count r,
          rg_disk_start_sector = word_of_int (int q div 512) :: u64\<rparr>"
      have "unat (rg_image_start_sector r + rg_image_sector_count r) = n"
        using ra(1,2) assms(5) by (simp add: unat_word_ariths)
      then have "tiles f n [?r] (n + m)" using um uq q assms(9) by simp
      then have "tiles f 0 (loc_regions l @ [?r]) (n + m)" using assms(3) rs by (auto simp: tiles_append)
      moreover have "separate (loc_regions l @ [?r])" using l(5) False by (simp add: separate_snoc r_def)
      moreover have "\<forall>x \<in> set (loc_regions l @ [?r]). unat (rg_disk_start_sector x) < 2 ^ 63"
        using assms(8,10) rs uq by auto
      ultimately show ?thesis using ne l(1-4) False assms(6) g1
        by (simp add: exfat_add_disk_region_def Let_def location_ready_def regions_of_def r_def[symmetric])
    qed
  qed
qed

section \<open>Following the chain\<close>

definition bounded :: "lsexfat_state \<Rightarrow> bool" where
  "bounded g \<longleftrightarrow> (\<forall>r \<in> set (regions_of g). unat (rg_disk_start_sector r) < 2 ^ 63)"

text \<open>
  What holds whenever the loop starts over: \<open>j\<close> clusters have been followed, the regions in
  the table tile the part before the pending run, and the pending run of \<open>sz\<close> bytes lies at
  \<open>q\<close>.
\<close>

definition run_ok :: "exfat \<Rightarrow> exfat_node \<Rightarrow> lsexfat_state \<Rightarrow> nat \<Rightarrow> nat \<Rightarrow> nat \<Rightarrow> bool" where
  "run_ok ef node g d sz q \<longleftrightarrow> location_ready g \<and> bounded g \<and> sz \<le> d \<and> 2048 dvd (d - sz) \<and>
     tiles (byte_pos ef node (nd_start_cluster node)) 0 (regions_of g) ((d - sz) div 2048) \<and>
     q mod 512 = 0 \<and> q < 2 ^ 63 \<and>
     (\<forall>i < sz. byte_pos ef node (nd_start_cluster node) (d - sz + i) = q + i)"

lemma run_ok_flush:
  assumes "\<forall>n. malloc_ok n" "run_ok ef node g d sz q" "d div 2048 < 2 ^ 32"
  shows "\<exists>z g'. exfat_add_disk_region malloc_ok sz (int q) g = Inr (z, g') \<and> location_ready g' \<and> bounded g' \<and>
    tiles (byte_pos ef node (nd_start_cluster node)) 0 (regions_of g') (d div 2048)"
proof -
  let ?f = "byte_pos ef node (nd_start_cluster node)"
  obtain n where n: "d - sz = 2048 * n" using assms(2) by (auto simp: run_ok_def elim: dvdE)
  have sz: "sz \<le> d" using assms(2) by (simp add: run_ok_def)
  then have d: "d = 2048 * n + sz" using n by linarith
  then have dd: "d div 2048 = n + sz div 2048" by simp
  have t: "tiles ?f 0 (regions_of g) n" "location_ready g" "bounded g" "q mod 512 = 0" "q < 2 ^ 63"
    "\<forall>i < sz. ?f (2048 * n + i) = q + i"
    using assms(2) n by (simp_all add: run_ok_def)
  show ?thesis
  proof (cases "sz = 0")
    case True
    then show ?thesis using t(1-3) dd by (simp add: exfat_add_disk_region_def)
  next
    case False
    have "q div 512 < 2 ^ 63" using t(5) by (meson div_le_dividend le_less_trans)
    moreover have "\<forall>i < sz div 2048 * 2048. ?f (n * 2048 + i) = q + i"
      using t(6) by (metis div_times_less_eq_dividend less_le_trans mult.commute)
    moreover have "n + sz div 2048 < 2 ^ 32" using assms(3) dd by simp
    moreover have "0 < sz" using False by simp
    ultimately have "\<exists>z g'. exfat_add_disk_region malloc_ok sz (int q) g = Inr (z, g') \<and> location_ready g' \<and>
        tiles ?f 0 (regions_of g') (n + sz div 2048) \<and> (\<forall>r \<in> set (regions_of g'). unat (rg_disk_start_sector r) < 2 ^ 63)"
      by (intro add_region_tiles[OF assms(1) t(2,1) refl _ _ t(4)]) (use t(3) in \<open>simp_all add: bounded_def\<close>)
    then show ?thesis unfolding dd bounded_def by blast
  qed
qed

text \<open>A cluster is a whole number of image sectors when it has at least 2048 bytes.\<close>

lemma cluster_2048:
  assumes "11 \<le> unat (sb_sector_bits sb) + unat (sb_spc_bits sb)"
  shows "2048 dvd CLUSTER_SIZE sb"
proof -
  have "CLUSTER_SIZE sb = 2 ^ (unat (sb_sector_bits sb) + unat (sb_spc_bits sb))"
    by (simp add: CLUSTER_SIZE_def SECTOR_SIZE_def power_add)
  moreover have "(2 :: nat) ^ 11 dvd 2 ^ (unat (sb_sector_bits sb) + unat (sb_spc_bits sb))"
    using assms by (rule le_imp_power_dvd)
  ultimately show ?thesis by simp
qed

lemma cluster_start_sector:
  assumes "geometry_ok sb" shows "cluster_start sb c mod 512 = 0"
proof -
  have "(2 :: nat) ^ 9 dvd 2 ^ unat (sb_sector_bits sb)"
    using assms by (intro le_imp_power_dvd) (simp add: geometry_ok_def)
  then have "512 dvd SECTOR_SIZE sb" by (simp add: SECTOR_SIZE_def)
  then show ?thesis by (simp add: cluster_start_def)
qed

lemma location_loop_tiles:
  assumes vol: "volume_ok ef" "\<forall>n. ef_malloc_ok ef n" "2048 dvd CLUSTER_SIZE (ef_sb ef)"
    and dev: "dev_size (ef_dev ef) < 2 ^ 63" and small: "(d + left) div 2048 < 2 ^ 32"
    and d: "d = j * CLUSTER_SIZE (ef_sb ef)"
    and cov: "covered ef node (nd_start_cluster node) (d + left)"
    and run: "run_ok ef node g d sz q"
    and nxt: "next_of ef node' = next_of ef node"
  shows "\<exists>g'. location_loop ef node' (chain_at ef node j) left sz (int q) g = Inr (RC0, g') \<and>
    location_ready g' \<and> tiles (byte_pos ef node (nd_start_cluster node)) 0 (regions_of g') ((d + left) div 2048)"
  using small d cov run
proof (induction left arbitrary: d j sz q g rule: less_induct)
  case (less left)
  let ?s = "CLUSTER_SIZE (ef_sb ef)" and ?c = "chain_at ef node j"
    and ?f = "byte_pos ef node (nd_start_cluster node)"
  show ?case
  proof (cases "left = 0")
    case True
    then show ?thesis using run_ok_flush[OF vol(2) less.prems(4)] less.prems(1)
      by (auto simp: location_loop.simps)
  next
    case False
    have v: "valid_cluster ef ?c"
      using less.prems(2,3) False unfolding covered_def chain_at_def by simp
    have 2: "2 \<le> unat ?c" using v by (simp add: valid_cluster_def cluster_valid_iff)
    let ?p = "cluster_start (ef_sb ef) ?c"
    define k where "k = min ?s left"
    have k: "0 < k" "k \<le> left" "k \<le> ?s" using False by (simp_all add: k_def)
    have room: "?p + ?s \<le> dev_size (ef_dev ef)" using vol(1) v unfolding volume_ok_def by blast
    have geo: "geometry_ok (ef_sb ef)" using vol(1) by (simp add: volume_ok_def)
    have p: "?p mod 512 = 0" "?p < 2 ^ 63" using cluster_start_sector[OF geo] room dev by simp_all
    have nx: "exfat_next_cluster ef node' ?c = Inr (chain_at ef node (Suc j))"
      using next_cluster_next_of[OF valid_ge_2[OF v], of ef node'] nxt by (simp add: chain_at_def)
    have here: "?f (d + i) = ?p + i" if "i < k" for i
    proof -
      have "?f (d + i) = byte_pos ef node ?c i" using byte_pos_chain[of ef node j i] less.prems(2) by simp
      then show ?thesis using that k(3) by (simp add: byte_pos_first)
    qed
    note run = less.prems(4)
    have step: "\<exists>g''. location_loop ef node' (chain_at ef node (Suc j)) (left - k) sz' (int q') g' = Inr (RC0, g'') \<and>
        location_ready g'' \<and> tiles ?f 0 (regions_of g'') ((d + left) div 2048)"
      if r: "run_ok ef node g' (d + k) sz' q'" for sz' q' g'
    proof (cases "left \<le> ?s")
      case True
      then have "left - k = 0" "d + k = d + left" by (simp_all add: k_def)
      then show ?thesis using run_ok_flush[OF vol(2) r] less.prems(1)
        by (auto simp: location_loop.simps)
    next
      case False
      then have ks: "k = ?s" by (simp add: k_def)
      have "left - k < left" using k by simp
      moreover have "d + k + (left - k) = d + left" using k by simp
      moreover have "d + k = Suc j * ?s" using less.prems(2) ks by simp
      ultimately show ?thesis using less.IH[of "left - k" "d + k" "Suc j" g' sz' q'] less.prems(1,3) r by simp
    qed
    show ?thesis
    proof (cases "q + sz = ?p")
      case True
      then have eq: "int q + int sz = int ?p" by (simp flip: True)
      have "run_ok ef node g (d + k) (sz + k) q"
        unfolding run_ok_def
      proof (intro conjI allI impI)
        fix i assume i: "i < sz + k"
        have dz: "sz \<le> d" using run by (simp add: run_ok_def)
        have e: "d + k - (sz + k) = d - sz" by simp
        show "?f (d + k - (sz + k) + i) = q + i"
          unfolding e
        proof (cases "i < sz")
          case True
          then show "?f (d - sz + i) = q + i" using run unfolding run_ok_def by blast
        next
          case False
          then have "i - sz < k" and e2: "d - sz + i = d + (i - sz)" using i dz by simp_all
          then have "?f (d - sz + i) = ?p + (i - sz)" using here unfolding e2 by blast
          then show "?f (d - sz + i) = q + i" using \<open>q + sz = ?p\<close> False by simp
        qed
      qed (use run in \<open>auto simp: run_ok_def\<close>)
      from step[OF this] show ?thesis
        using False v c2o_eq[OF 2, of "ef_sb ef"] nx eq
        by (subst location_loop.simps) (simp add: valid_cluster_def Let_def k_def[symmetric])
    next
      case ne: False
      then have neq: "int q + int sz \<noteq> int ?p" by (simp flip: of_nat_add)
      have d2048: "2048 dvd d" using less.prems(2) vol(3) by simp
      have "d div 2048 < 2 ^ 32" using less.prems(1) by (meson div_le_mono le_add1 le_less_trans)
      then obtain z g' where a: "exfat_add_disk_region (ef_malloc_ok ef) sz (int q) g = Inr (z, g')"
        "location_ready g'" "bounded g'" "tiles ?f 0 (regions_of g') (d div 2048)"
        using run_ok_flush[OF vol(2) run] by blast
      have "run_ok ef node g' (d + k) k ?p"
        using a(2-4) d2048 p here by (simp add: run_ok_def)
      from step[OF this] show ?thesis
        using False v c2o_eq[OF 2, of "ef_sb ef"] nx neq a(1)
        by (subst location_loop.simps) (simp add: valid_cluster_def Let_def k_def[symmetric])
    qed
  qed
qed

text \<open>
  C1: the table the tool builds for a file is right. On a volume with clusters of at least
  2048 bytes, following the chain of a file that does not repeat a table of regions ends with
  success, and the regions tile the image in order from sector 0 to its last whole sector
  with no gap, each byte lying on the volume where its region says it is; consecutive regions
  are never contiguous on the disk, so the table is as short as it can be.
\<close>

theorem image_location_correct:
  assumes "volume_ok ef" "\<forall>n. ef_malloc_ok ef n"
    and "11 \<le> unat (sb_sector_bits (ef_sb ef)) + unat (sb_spc_bits (ef_sb ef))"
    and "dev_size (ef_dev ef) < 2 ^ 63" "unat (nd_size node) div 2048 < 2 ^ 32"
    and "0 < nd_size node" "covered ef node (nd_start_cluster node) (unat (nd_size node))"
    and "fptr_ok ef node" "g_image_location g = None"
  shows "\<exists>node' g' l. exfat_get_image_location ef node g = Inr (RC0, node', g') \<and>
    g_image_location g' = Some l \<and> loc_guid l = VENTOY_GUID \<and>
    loc_image_sector_size l = 2048 \<and> loc_disk_sector_size l = 512 \<and> separate (loc_regions l) \<and>
    tiles (byte_pos ef node (nd_start_cluster node)) 0 (loc_regions l) (unat (nd_size node) div 2048)"
proof -
  let ?z = "unat (nd_size node)" and ?c = "nd_start_cluster node"
  have z: "?z < 2 ^ 63" using assms(5) by (simp add: div_less_iff_less_mult)
  have zpos: "0 < ?z" using assms(6) by (simp add: word_less_nat_alt)
  obtain g0 where g0: "realloc_image_location (ef_malloc_ok ef) 1024 g = (True, g0)" "location_ready g0"
      "regions_of g0 = []"
    using realloc_ready[OF assms(2), of g 1024] assms(9) by (auto simp: regions_of_def[of g])
  have at0: "chain_at ef node 0 = ?c" by (simp add: chain_at_def)
  have v: "valid_cluster ef ?c" using covered_step(1)[OF assms(7) zpos] .
  have "chain_valid ef node 0" using v at0 by (simp add: chain_valid_def)
  then have adv: "exfat_advance_cluster ef node 0 = Inr (?c, node\<lparr>nd_fptr_cluster := ?c, nd_fptr_index := 0\<rparr>)"
    using advance_cluster_chain[OF assms(8), of 0] at0 by simp
  have "run_ok ef node g0 0 0 0" using g0(2,3) by (simp add: run_ok_def bounded_def)
  from location_loop_tiles[OF assms(1,2) cluster_2048[OF assms(3)] assms(4) _ _ _ this, of ?z 0
      "node\<lparr>nd_fptr_cluster := ?c, nd_fptr_index := 0\<rparr>"]
  obtain g' where g': "location_loop ef (node\<lparr>nd_fptr_cluster := ?c, nd_fptr_index := 0\<rparr>) ?c ?z 0 0 g0 = Inr (RC0, g')"
      "location_ready g'" "tiles (byte_pos ef node ?c) 0 (regions_of g') (?z div 2048)"
    using assms(5,7) at0 by auto
  then obtain l where l: "g_image_location g' = Some l" "loc_guid l = VENTOY_GUID"
      "loc_image_sector_size l = 2048" "loc_disk_sector_size l = 512" "separate (loc_regions l)"
    unfolding location_ready_def by blast
  have "exfat_get_image_location ef node g = Inr (RC0, node\<lparr>nd_fptr_cluster := ?c, nd_fptr_index := 0\<rparr>, g')"
    using g0(1) adv v z g'(1) by (simp add: exfat_get_image_location_def valid_cluster_def)
  then show ?thesis using l g'(3) by (auto simp: regions_of_def)
qed

definition demo_big :: exfat where
  "demo_big = demo_ef\<lparr>ef_sb := demo_sb\<lparr>sb_spc_bits := 2\<rparr>, ef_dev := demo_dev\<lparr>dev_size := 20000\<rparr>\<rparr>"

definition demo_image :: exfat_node where
  "demo_image = demo_file\<lparr>nd_size := 6144\<rparr>"

lemma demo_big_valid: "valid_cluster demo_big c \<longleftrightarrow> 2 \<le> unat c \<and> unat c < 10"
  by (auto simp: valid_cluster_def cluster_valid_iff demo_big_def)

lemma demo_big_size: "CLUSTER_SIZE (ef_sb demo_big) = 2048"
  by (simp add: CLUSTER_SIZE_def SECTOR_SIZE_def demo_big_def)

lemma demo_big_link: "fat_link demo_big 5 = 7" "fat_link demo_big 7 = 9"
  by (simp_all add: fat_link_def fat_offset_def s2o_def pread_into_def exfat_pread_def demo_big_def
      demo_ef_def demo_dev_def demo_bytes_def demo_fat_def le32_to_cpu_def)

theorem image_location_correct_witness:
  "\<exists>node' g' l. exfat_get_image_location demo_big demo_image \<lparr>g_image_max_region = 0, g_image_location = None\<rparr>
      = Inr (RC0, node', g') \<and> g_image_location g' = Some l \<and>
    tiles (byte_pos demo_big demo_image 5) 0 (loc_regions l) 3"
proof -
  have chain: "(next_of demo_big demo_image ^^ 0) 5 = 5" "(next_of demo_big demo_image ^^ 1) 5 = 7"
    "(next_of demo_big demo_image ^^ 2) 5 = 9"
    by (simp_all add: numeral_2_eq_2 next_of_def demo_image_def demo_file_def zero_node_def demo_big_link)
  have steps: "j * 2048 < (6144 :: nat) \<longleftrightarrow> j = 0 \<or> j = 1 \<or> j = 2" for j by auto
  have cov: "covered demo_big demo_image 5 6144"
    using chain by (auto simp: covered_def demo_big_size steps demo_big_valid)
  have vol: "volume_ok demo_big"
    unfolding volume_ok_def demo_big_valid
    by (auto simp: geometry_ok_def fat_offset_def s2o_def cluster_start_def SECTOR_SIZE_def CLUSTER_SIZE_def
        nat_add_distrib nat_mult_distrib demo_big_def demo_ef_def readable_def demo_dev_def)
  have "fptr_ok demo_big demo_image" by (simp add: fptr_ok_def chain_at_def demo_image_def)
  moreover have "\<forall>n. ef_malloc_ok demo_big n" by (simp add: demo_big_def demo_ef_def)
  moreover have "dev_size (ef_dev demo_big) < 2 ^ 63" "11 \<le> unat (sb_sector_bits (ef_sb demo_big)) + unat (sb_spc_bits (ef_sb demo_big))"
    by (simp_all add: demo_big_def)
  ultimately show ?thesis
    using image_location_correct[OF vol, of demo_image "\<lparr>g_image_max_region = 0, g_image_location = None\<rparr>"] cov
    by (auto simp: demo_image_def)
qed

end
