(* ===== verification/OsParam.thy ===== *)
theory OsParam
  imports Lsexfat
begin

text \<open>
  The parameter block Ventoy leaves in memory (vtoydump.h): its packed layout, and the check
  of its identifier and checksum.
\<close>

section \<open>The layout\<close>

text \<open>The 512 bytes of \<open>ventoy_os_param\<close>; a multi-byte field is little-endian.\<close>

type_synonym ventoy_os_param = "u8 list"

definition param_guid :: "ventoy_os_param \<Rightarrow> u8 list" where "param_guid p = slice_of 0 16 p"
definition param_chksum :: "ventoy_os_param \<Rightarrow> u8" where "param_chksum p = p ! 16"
definition param_disk_guid :: "ventoy_os_param \<Rightarrow> u8 list" where "param_disk_guid p = slice_of 17 16 p"
definition param_disk_size :: "ventoy_os_param \<Rightarrow> u64" where "param_disk_size p = le64_to_cpu (slice_of 33 8 p)"
definition param_disk_part_id :: "ventoy_os_param \<Rightarrow> u16" where "param_disk_part_id p = le16_to_cpu (slice_of 41 2 p)"
definition param_disk_part_type :: "ventoy_os_param \<Rightarrow> u16" where "param_disk_part_type p = le16_to_cpu (slice_of 43 2 p)"
definition param_img_path :: "ventoy_os_param \<Rightarrow> u8 list" where "param_img_path p = slice_of 45 384 p"
definition param_img_size :: "ventoy_os_param \<Rightarrow> u64" where "param_img_size p = le64_to_cpu (slice_of 429 8 p)"
definition param_img_location_addr :: "ventoy_os_param \<Rightarrow> u64" where "param_img_location_addr p = le64_to_cpu (slice_of 437 8 p)"
definition param_img_location_len :: "ventoy_os_param \<Rightarrow> u32" where "param_img_location_len p = le32_to_cpu (slice_of 445 4 p)"
definition param_disk_signature :: "ventoy_os_param \<Rightarrow> u8 list" where "param_disk_signature p = slice_of 481 4 p"

text \<open>
  \<open>%s\<close> and \<open>exfat_lookup\<close> read the path up to a null byte, through the fields after it when
  the 384 bytes have none.
\<close>

definition img_path_string :: "ventoy_os_param \<Rightarrow> fault + u8 list" where
  "img_path_string p =
     (if 0 \<notin> set (drop 45 p) then Inl Undef else Inr (takeWhile (\<lambda>b. b \<noteq> 0) (drop 45 p)))"

section \<open>The check\<close>

text \<open>
  \<open>mem\<close> is the memory from the address of the block on; the result is \<^const>\<open>True\<close> for the
  return value 0. The identifier is compared first, so only a block that has it is read to
  its end.
\<close>

definition vtoy_check_os_param :: "u8 list \<Rightarrow> fault + bool" where
  "vtoy_check_os_param mem =
     (if length mem < 16 then Inl Undef
      else if take 16 mem \<noteq> VENTOY_GUID then Inr False
      else if length mem < 512 then Inl Undef
      else Inr (sum_list (take 512 mem) = 0))"

lemma length_VENTOY_GUID [simp]: "length VENTOY_GUID = 16"
  by (simp add: VENTOY_GUID_def)

lemma check_os_param_full:
  "512 \<le> length mem \<Longrightarrow>
   vtoy_check_os_param mem = Inr (take 16 mem = VENTOY_GUID \<and> sum_list (take 512 mem) = 0)"
  by (simp add: vtoy_check_os_param_def)

lemma sum_list_update_group:
  fixes xs :: "u8 list"
  shows "i < length xs \<Longrightarrow> sum_list (xs[i := v]) = sum_list xs - xs ! i + v"
proof (induction xs arbitrary: i)
  case Nil
  then show ?case by simp
next
  case (Cons x xs)
  then show ?case by (cases i) (simp_all add: algebra_simps)
qed

text \<open>
  C36: the check notices the change of any one byte of a block it accepts: the identifier no
  longer matches or the sum is not 0.
\<close>

theorem check_os_param_detects_byte:
  assumes "length p = 512" "vtoy_check_os_param p = Inr True" "i < 512" "p ! i \<noteq> v"
  shows "vtoy_check_os_param (p[i := v]) = Inr False"
proof -
  have s: "sum_list p = 0" using assms(1,2) by (simp add: check_os_param_full)
  have "sum_list (p[i := v]) = v - p ! i" using sum_list_update_group[of i p v] assms(1,3) s by simp
  then have "sum_list (p[i := v]) \<noteq> 0" using assms(4) by simp
  then show ?thesis using assms(1) by (simp add: check_os_param_full)
qed

lemma check_blank: "vtoy_check_os_param (VENTOY_GUID @ [0x13] @ replicate 495 0) = Inr True"
  by (simp add: check_os_param_full VENTOY_GUID_def sum_list_replicate)

theorem check_os_param_detects_byte_witness:
  "vtoy_check_os_param ((VENTOY_GUID @ [0x13] @ replicate 495 0)[100 := 1]) = Inr False"
  using check_os_param_detects_byte[OF _ check_blank, of 100 1]
  by (simp add: nth_append nth_Cons')

text \<open>
  Every block with the identifier has exactly one value of the checksum byte that makes
  the check accept it: minus the sum of the other bytes.
\<close>

lemma check_os_param_chksum:
  assumes "length p = 512" "param_guid p = VENTOY_GUID"
  shows "vtoy_check_os_param (p[16 := c]) = Inr (c = param_chksum p - sum_list p)"
proof -
  have "take 16 (p[16 := c]) = VENTOY_GUID" using assms by (simp add: param_guid_def slice_of_def)
  moreover have "sum_list (p[16 := c]) = sum_list p - p ! 16 + c"
    using sum_list_update_group[of 16 p c] assms(1) by simp
  moreover have "sum_list p - p ! 16 + c = 0 \<longleftrightarrow> c = p ! 16 - sum_list p" by (simp add: algebra_simps)
  ultimately show ?thesis using assms(1) by (simp add: check_os_param_full param_chksum_def)
qed

section \<open>The table in memory\<close>

text \<open>
  The bytes of a table (\<open>#pragma pack(1)\<close>): 28 bytes, then 16 for each region.
\<close>

definition encode_region :: "ventoy_image_disk_region \<Rightarrow> u8 list" where
  "encode_region r = cpu_to_le32 (rg_image_sector_count r) @ cpu_to_le32 (rg_image_start_sector r) @
     cpu_to_le64 (rg_disk_start_sector r)"

definition encode_location :: "ventoy_image_location \<Rightarrow> u8 list" where
  "encode_location l = loc_guid l @ cpu_to_le32 (loc_image_sector_size l) @
     cpu_to_le32 (loc_disk_sector_size l) @ cpu_to_le32 (word_of_nat (length (loc_regions l))) @
     concat (map encode_region (loc_regions l))"

definition region_at :: "u8 list \<Rightarrow> nat \<Rightarrow> ventoy_image_disk_region" where
  "region_at b i = \<lparr>rg_image_sector_count = le32_to_cpu (slice_of (28 + 16 * i) 4 b),
     rg_image_start_sector = le32_to_cpu (slice_of (32 + 16 * i) 4 b),
     rg_disk_start_sector = le64_to_cpu (slice_of (36 + 16 * i) 8 b)\<rparr>"

lemma length_encode_region [simp]: "length (encode_region r) = 16"
  by (simp add: encode_region_def)

lemma slice_concat_regions:
  "i < length rs \<Longrightarrow> off + n \<le> 16 \<Longrightarrow>
   slice_of (16 * i + off) n (concat (map encode_region rs)) = slice_of off n (encode_region (rs ! i))"
proof (induction rs arbitrary: i)
  case Nil
  then show ?case by simp
next
  case (Cons r rs)
  then show ?case by (cases i) (simp_all add: slice_of_def)
qed

lemma region_at_encode:
  assumes "length (loc_guid l) = 16" "i < length (loc_regions l)"
  shows "region_at (encode_location l) i = loc_regions l ! i"
proof -
  have s: "slice_of (28 + 16 * i + off) n (encode_location l) = slice_of off n (encode_region (loc_regions l ! i))"
    if "off + n \<le> 16" for off n
    using slice_concat_regions[OF assms(2) that] assms(1)
    by (simp add: slice_of_def encode_location_def)
  show ?thesis
    using s[of 0 4] s[of 4 4] s[of 8 8]
    by (simp add: region_at_def encode_region_def slice_of_def)
qed

end
