(* ===== verification/Repair.thy ===== *)
theory Repair
  imports FileIO
begin

text \<open>
  Repairing what the library finds damaged (repair.c), and the access to nodes of the heap
  everything above it needs.
\<close>

section \<open>Nodes in the heap\<close>

definition node_at :: "exfat \<Rightarrow> ptr \<Rightarrow> fault + exfat_node" where
  "node_at ef p = (case ef_nodes ef p of None \<Rightarrow> Inl Undef | Some n \<Rightarrow> Inr n)"

definition put_node_at :: "exfat \<Rightarrow> ptr \<Rightarrow> exfat_node \<Rightarrow> exfat" where
  "put_node_at ef p n = ef\<lparr>ef_nodes := (ef_nodes ef)(p \<mapsto> n)\<rparr>"

definition modify_node :: "exfat \<Rightarrow> ptr \<Rightarrow> (exfat_node \<Rightarrow> exfat_node) \<Rightarrow> fault + exfat" where
  "modify_node ef p f = andThen (node_at ef p) (\<lambda>n. Inr (put_node_at ef p (f n)))"

definition free_node :: "exfat \<Rightarrow> ptr \<Rightarrow> exfat" where
  "free_node ef p = ef\<lparr>ef_nodes := (ef_nodes ef)(p := None)\<rparr>"

section \<open>Asking\<close>

text \<open>
  \<open>ef_stdin\<close> holds what the next calls of \<open>fgets\<close> deliver (a line, or seven characters of
  a longer one); at its end the answer is no.
\<close>

definition answer_is :: "char \<Rightarrow> char \<Rightarrow> string \<Rightarrow> bool" where
  "answer_is upper lower line \<longleftrightarrow> line = [upper, CHR 0x0A] \<or> line = [lower, CHR 0x0A]"

fun ask_loop :: "string list \<Rightarrow> bool \<times> string list" where
  "ask_loop [] = (False, [])"
| "ask_loop (line # rest) =
     (if answer_is (CHR ''Y'') (CHR ''y'') line then (True, rest)
      else if answer_is (CHR ''N'') (CHR ''n'') line then (False, rest)
      else ask_loop rest)"

definition exfat_ask_to_fix :: "exfat \<Rightarrow> bool \<times> exfat" where
  "exfat_ask_to_fix ef =
     (case ef_repair ef of
        EXFAT_REPAIR_NO \<Rightarrow> (False, ef)
      | EXFAT_REPAIR_YES \<Rightarrow> (True, ef)
      | EXFAT_REPAIR_ASK \<Rightarrow> (case ask_loop (ef_stdin ef) of (yes, rest) \<Rightarrow> (yes, ef\<lparr>ef_stdin := rest\<rparr>)))"

section \<open>Fixing\<close>

text \<open>The sector is filled with the checksum, and keeps a tail shorter than a word.\<close>

definition exfat_fix_invalid_vbr_checksum ::
    "exfat \<Rightarrow> u8 list \<Rightarrow> u32 \<Rightarrow> bool \<times> exfat \<times> u8 list" where
  "exfat_fix_invalid_vbr_checksum ef sector vbr_checksum =
     (let size = SECTOR_SIZE (ef_sb ef);
          sector = overlay 0 (concat (replicate (size div 4) (cpu_to_le32 vbr_checksum))) sector in
      case exfat_pwrite (ef_dev ef) (take size sector) (11 * int size) of
        None \<Rightarrow> (False, ef, sector)
      | Some d \<Rightarrow> (True, ef\<lparr>ef_dev := d, ef_errors_fixed := ef_errors_fixed ef + 1\<rparr>, sector))"

definition exfat_fix_invalid_node_checksum :: "exfat \<Rightarrow> exfat_node \<Rightarrow> bool \<times> exfat \<times> exfat_node" where
  "exfat_fix_invalid_node_checksum ef node =
     (True, ef\<lparr>ef_errors_fixed := ef_errors_fixed ef + 1\<rparr>, node\<lparr>nd_is_dirty := True\<rparr>)"

definition exfat_fix_unknown_entry :: "exfat \<Rightarrow> ptr \<Rightarrow> exfat_entry \<Rightarrow> int \<Rightarrow> fault + (bool \<times> exfat)" where
  "exfat_fix_unknown_entry ef dir entry offset =
     (let deleted = put8 0 (entry_type entry AND NOT EXFAT_ENTRY_VALID) entry in
      andThen (node_at ef dir) (\<lambda>node.
        andThen (exfat_generic_pwrite ef node deleted offset) (\<lambda>(r, ef, node).
          let ef = put_node_at ef dir node in
          if r \<noteq> Inr 32 then Inr (False, ef)
          else Inr (True, ef\<lparr>ef_errors_fixed := ef_errors_fixed ef + 1\<rparr>))))"

end
