(* ===== verification/Checksum.thy ===== *)
theory Checksum
  imports Layout
begin

text \<open>
  The checksums, the name hash and the size formatting of \<open>utils.c\<close>. Every checksum of
  exFAT rotates a register right by one bit and adds the next byte; the locale below holds
  what follows from one step being injective, and both register widths are instances.
\<close>

section \<open>Directory entry checksums\<close>

definition add_checksum_byte :: "u16 \<Rightarrow> u8 \<Rightarrow> u16" where
  "add_checksum_byte acc byte = (push_bit 15 acc OR drop_bit 1 acc) + ucast byte"

definition add_checksum_bytes :: "u16 \<Rightarrow> u8 list \<Rightarrow> u16" where
  "add_checksum_bytes acc buffer = foldl add_checksum_byte acc buffer"

definition exfat_start_checksum :: "exfat_entry \<Rightarrow> u16" where
  "exfat_start_checksum entry =
     foldl (\<lambda>acc i. if i \<noteq> 2 \<and> i \<noteq> 3 then add_checksum_byte acc (entry ! i) else acc) 0 [0..<32]"

definition exfat_add_checksum :: "exfat_entry \<Rightarrow> u16 \<Rightarrow> u16" where
  "exfat_add_checksum entry acc = add_checksum_bytes acc (take 32 entry)"

definition exfat_calc_checksum :: "exfat_entry list \<Rightarrow> u16" where
  "exfat_calc_checksum entries =
     foldl (\<lambda>acc e. exfat_add_checksum e acc) (exfat_start_checksum (hd entries)) (tl entries)"

section \<open>Boot region checksum\<close>

definition vbr_step :: "u32 \<Rightarrow> u8 \<Rightarrow> u32" where
  "vbr_step acc byte = (push_bit 31 acc OR drop_bit 1 acc) + ucast byte"

definition exfat_vbr_start_checksum :: "u8 list \<Rightarrow> u32" where
  "exfat_vbr_start_checksum sector =
     foldl (\<lambda>acc i. if i \<noteq> 0x6a \<and> i \<noteq> 0x6b \<and> i \<noteq> 0x70
                    then vbr_step acc (sector ! i) else acc) 0 [0..<length sector]"

definition exfat_vbr_add_checksum :: "u8 list \<Rightarrow> u32 \<Rightarrow> u32" where
  "exfat_vbr_add_checksum sector acc = foldl vbr_step acc sector"

section \<open>Name hash\<close>

text \<open>The hash of a name is taken over its upper-cased units, low byte first.\<close>

definition name_hash_unit :: "u16 list \<Rightarrow> u16 \<Rightarrow> u16 \<Rightarrow> u16" where
  "name_hash_unit upcase hash unit =
     (let c = upcase ! unat unit;
          h = (push_bit 15 hash OR drop_bit 1 hash) + (c AND 0xff)
      in (push_bit 15 h OR drop_bit 1 h) + drop_bit 8 c)"

definition exfat_calc_name_hash :: "u16 list \<Rightarrow> u16 list \<Rightarrow> nat \<Rightarrow> u16" where
  "exfat_calc_name_hash upcase name len = foldl (name_hash_unit upcase) 0 (take len name)"

section \<open>What a rotating checksum detects\<close>

locale rolling_checksum =
  fixes step :: "'s \<Rightarrow> u8 \<Rightarrow> 's"
  assumes step_inj_sum: "step s b = step s' b \<longleftrightarrow> s = s'"
    and step_inj_byte: "step s b = step s b' \<longleftrightarrow> b = b'"
begin

lemma foldl_step_inj: "foldl step s bs = foldl step s' bs \<longleftrightarrow> s = s'"
  by (induction bs arbitrary: s s') (auto simp: step_inj_sum)

lemma single_byte_detected:
  assumes "i < length bs" "bs ! i \<noteq> v"
  shows "foldl step s (bs[i := v]) \<noteq> foldl step s bs"
  using assms
proof (induction bs arbitrary: s i)
  case Nil
  then show ?case by simp
next
  case (Cons b bs)
  show ?case
  proof (cases i)
    case 0
    then show ?thesis using Cons.prems by (simp add: foldl_step_inj step_inj_byte)
  next
    case (Suc j)
    then show ?thesis using Cons by simp
  qed
qed

text \<open>
  A fold that skips some positions is a fold over the bytes at the others, so a change at
  a skipped position is invisible and a change at any other is detected.
\<close>

lemma skipping_fold:
  "foldl (\<lambda>s i. if P i then step s (bs ! i) else s) s is
   = foldl step s (map ((!) bs) (filter P is))"
  by (induction "is" arbitrary: s) auto

lemma skipped_position:
  assumes "\<And>i. i < n \<Longrightarrow> P i \<Longrightarrow> bs ! i = bs' ! i"
  shows "foldl (\<lambda>s i. if P i then step s (bs ! i) else s) s [0..<n]
       = foldl (\<lambda>s i. if P i then step s (bs' ! i) else s) s [0..<n]"
  using assms by (auto intro!: foldl_cong)

lemma covered_position:
  assumes i: "i < n" "P i" and n: "n \<le> length bs" and v: "bs ! i \<noteq> v"
  shows "foldl (\<lambda>s j. if P j then step s (bs[i := v] ! j) else s) s [0..<n]
       \<noteq> foldl (\<lambda>s j. if P j then step s (bs ! j) else s) s [0..<n]"
proof -
  let ?js = "filter P [0..<n]"
  have "i \<in> set ?js" using i by simp
  then obtain k where k: "k < length ?js" "?js ! k = i" by (metis in_set_conv_nth)
  have dist: "distinct ?js" by simp
  have eq: "map ((!) (bs[i := v])) ?js = (map ((!) bs) ?js)[k := v]"
  proof (rule nth_equalityI)
    fix l assume "l < length (map ((!) (bs[i := v])) ?js)"
    then have l: "l < length ?js" by simp
    then have "?js ! l < n" using nth_mem[OF l] by simp
    then show "map ((!) (bs[i := v])) ?js ! l = (map ((!) bs) ?js)[k := v] ! l"
      using l k n i nth_eq_iff_index_eq[OF dist l k(1)] by (auto simp: nth_list_update)
  qed simp
  show ?thesis unfolding skipping_fold eq
    by (rule single_byte_detected) (use k v in auto)
qed

end

lemma rotate_right_inj:
  fixes a b :: "'l :: len word"
  assumes "push_bit (LENGTH('l) - 1) a OR drop_bit 1 a = push_bit (LENGTH('l) - 1) b OR drop_bit 1 b"
  shows "a = b"
proof (rule bit_word_eqI)
  fix n assume n: "n < LENGTH('l)"
  have eq: "bit (push_bit (LENGTH('l) - 1) a OR drop_bit 1 a) m
          = bit (push_bit (LENGTH('l) - 1) b OR drop_bit 1 b) m" for m
    using assms by simp
  show "bit a n = bit b n"
  proof (cases n)
    case 0
    then show ?thesis using eq[of "LENGTH('l) - 1"] n
      by (auto simp: bit_or_iff bit_push_bit_iff bit_drop_bit_eq dest: bit_imp_le_length)
  next
    case (Suc m)
    then show ?thesis using eq[of m] n
      by (auto simp: bit_or_iff bit_push_bit_iff bit_drop_bit_eq)
  qed
qed

lemma ucast_u8_inj:
  "(ucast b :: u16) = ucast b' \<longleftrightarrow> b = (b' :: u8)" "(ucast b :: u32) = ucast b' \<longleftrightarrow> b = (b' :: u8)"
  using unat_bound[of b] unat_bound[of b']
  by (auto simp: unsigned_ucast_eq word_unat_eq_iff take_bit_nat_eq_self)

interpretation entry_sum: rolling_checksum add_checksum_byte
proof unfold_locales
  fix s s' :: u16 and b b' :: u8
  show "add_checksum_byte s b = add_checksum_byte s' b \<longleftrightarrow> s = s'"
    using rotate_right_inj[of s s'] by (auto simp: add_checksum_byte_def)
  show "add_checksum_byte s b = add_checksum_byte s b' \<longleftrightarrow> b = b'"
    by (simp add: add_checksum_byte_def ucast_u8_inj)
qed

interpretation vbr_sum: rolling_checksum vbr_step
proof unfold_locales
  fix s s' :: u32 and b b' :: u8
  show "vbr_step s b = vbr_step s' b \<longleftrightarrow> s = s'"
    using rotate_right_inj[of s s'] by (auto simp: vbr_step_def)
  show "vbr_step s b = vbr_step s b' \<longleftrightarrow> b = b'"
    by (simp add: vbr_step_def ucast_u8_inj)
qed

section \<open>Entry set checksums\<close>

lemma start_checksum_put_other:
  "length e = 32 \<Longrightarrow> exfat_start_checksum (put16 2 v e) = exfat_start_checksum e"
  unfolding exfat_start_checksum_def
  by (rule entry_sum.skipped_position) (auto intro!: nth_put_other(1))

lemma calc_checksum_Cons:
  "exfat_calc_checksum (e # es) = foldl add_checksum_byte (exfat_start_checksum e) (concat (map (take 32) es))"
  by (induction es rule: rev_induct)
    (auto simp: exfat_calc_checksum_def exfat_add_checksum_def add_checksum_bytes_def)

lemma concat_take32_update:
  assumes "\<forall>e \<in> set es. length e = 32" "k < length es" "j < 32"
  shows "concat (map (take 32) (es[k := (es ! k)[j := v]]))
       = (concat (map (take 32) es))[32 * k + j := v]"
  using assms
proof (induction es arbitrary: k)
  case Nil
  then show ?case by simp
next
  case (Cons e es)
  then show ?case by (cases k) (auto simp: list_update_append)
qed

lemma length_concat_take32:
  "\<forall>e \<in> set es. length e = 32 \<Longrightarrow> length (concat (map (take 32) es)) = 32 * length es"
  by (induction es) auto

lemma nth_concat_take32:
  assumes "\<forall>e \<in> set es. length e = 32" "k < length es" "j < 32"
  shows "concat (map (take 32) es) ! (32 * k + j) = es ! k ! j"
  using assms
proof (induction es arbitrary: k)
  case Nil
  then show ?case by simp
next
  case (Cons e es)
  then show ?case by (cases k) (auto simp: nth_append)
qed

text \<open>
  The checksum of an entry set does not cover its own field, so storing it does not
  change it (exfat_flush_node and commit_entry store it last).
\<close>

lemma calc_checksum_ignores_checksum_field:
  assumes "length (hd entries) = 32" "entries \<noteq> []"
  shows "exfat_calc_checksum (put16 2 v (hd entries) # tl entries) = exfat_calc_checksum entries"
  using assms start_checksum_put_other
  by (simp add: exfat_calc_checksum_def)

text \<open>
  a change of any one byte of an entry set other than the two bytes of the checksum
  field changes the checksum, so check_node notices it.
\<close>

lemma calc_checksum_detects_byte:
  assumes "\<forall>e \<in> set entries. length e = 32" "k < length entries" "j < 32"
    and "k = 0 \<longrightarrow> j \<noteq> 2 \<and> j \<noteq> 3" "entries ! k ! j \<noteq> v"
  shows "exfat_calc_checksum (entries[k := (entries ! k)[j := v]]) \<noteq> exfat_calc_checksum entries"
proof -
  obtain e es where es: "entries = e # es" using assms(2) by (cases entries) auto
  show ?thesis
  proof (cases k)
    case 0
    have "exfat_start_checksum (e[j := v]) \<noteq> exfat_start_checksum e"
      unfolding exfat_start_checksum_def
      by (rule entry_sum.covered_position) (use assms es 0 in auto)
    then show ?thesis using es 0 by (simp add: calc_checksum_Cons entry_sum.foldl_step_inj)
  next
    case (Suc m)
    then show ?thesis using assms es
      by (simp add: calc_checksum_Cons concat_take32_update
          entry_sum.single_byte_detected length_concat_take32 nth_concat_take32)
  qed
qed

section \<open>Boot region checksum and the mutable fields\<close>

text \<open>
  The volume state (bytes 0x6a and 0x6b) and the allocated percentage (byte 0x70) are
  rewritten on every mount and unmount; sectors that agree everywhere else have the same
  checksum.
\<close>

lemma vbr_start_checksum_cong:
  assumes "length s = length s'"
    and "\<And>i. i < length s \<Longrightarrow> i \<notin> {0x6a, 0x6b, 0x70} \<Longrightarrow> s ! i = s' ! i"
  shows "exfat_vbr_start_checksum s = exfat_vbr_start_checksum s'"
  unfolding exfat_vbr_start_checksum_def assms(1)[symmetric]
  by (rule vbr_sum.skipped_position) (use assms in auto)

lemma vbr_start_checksum_detects:
  assumes "i < length s" "i \<notin> {0x6a, 0x6b, 0x70}" "s ! i \<noteq> v"
  shows "exfat_vbr_start_checksum (s[i := v]) \<noteq> exfat_vbr_start_checksum s"
proof -
  have "foldl (\<lambda>acc j. if j \<noteq> 106 \<and> j \<noteq> 107 \<and> j \<noteq> 112 then vbr_step acc (s[i := v] ! j) else acc)
          0 [0..<length s]
      \<noteq> foldl (\<lambda>acc j. if j \<noteq> 106 \<and> j \<noteq> 107 \<and> j \<noteq> 112 then vbr_step acc (s ! j) else acc)
          0 [0..<length s]"
    by (rule vbr_sum.covered_position) (use assms in auto)
  then show ?thesis by (simp add: exfat_vbr_start_checksum_def)
qed

end
