(* ===== verification/ExTime.thy ===== *)
theory ExTime
  imports Layout
begin

text \<open>
  Conversion between Unix time and the packed date and time fields of exFAT (\<open>time.c\<close>).
  \<open>time_t\<close> is an integer; the fields are the 16-bit words the entry stores. The global
  \<open>exfat_timezone\<close> is the argument \<open>tz\<close>.
\<close>

section \<open>Constants\<close>

abbreviation SEC_IN_MIN :: int where "SEC_IN_MIN \<equiv> 60"
abbreviation SEC_IN_HOUR :: int where "SEC_IN_HOUR \<equiv> 3600"
abbreviation SEC_IN_DAY :: int where "SEC_IN_DAY \<equiv> 86400"
abbreviation SEC_IN_YEAR :: int where "SEC_IN_YEAR \<equiv> 31536000"
abbreviation EXFAT_EPOCH_YEAR :: int where "EXFAT_EPOCH_YEAR \<equiv> 1980"

definition EPOCH_DIFF_SEC :: int where
  "EPOCH_DIFF_SEC = ((1980 - 1970) * 365 + (1980 - 1970) div 4) * SEC_IN_DAY"

definition LEAP_YEARS :: "int \<Rightarrow> int" where
  "LEAP_YEARS year = (EXFAT_EPOCH_YEAR + year - 1) div 4 - (EXFAT_EPOCH_YEAR - 1) div 4"

definition IS_LEAP_YEAR :: "int \<Rightarrow> bool" where
  "IS_LEAP_YEAR year \<longleftrightarrow> (EXFAT_EPOCH_YEAR + year) mod 4 = 0"

definition days_in_year :: "int list" where
  "days_in_year = [0, 0, 31, 59, 90, 120, 151, 181, 212, 243, 273, 304, 334]"

section \<open>The two conversions\<close>

definition exfat_exfat2unix :: "int \<Rightarrow> u16 \<Rightarrow> u16 \<Rightarrow> u8 \<Rightarrow> int" where
  "exfat_exfat2unix tz ndate ntime centisec =
     (let day = uint (ndate AND 0x1f);
          month = uint (drop_bit 5 ndate AND 0xf);
          year = uint (drop_bit 9 ndate);
          twosec = uint (ntime AND 0x1f);
          min = uint (drop_bit 5 ntime AND 0x3f);
          hour = uint (drop_bit 11 ntime)
      in if day = 0 \<or> month = 0 \<or> month > 12 then 0
         else if hour > 23 \<or> min > 59 \<or> twosec > 29 then 0
         else if centisec > 199 then 0
         else EPOCH_DIFF_SEC
            + (year * SEC_IN_YEAR + LEAP_YEARS year * SEC_IN_DAY)
            + days_in_year ! nat month * SEC_IN_DAY
            + (if (EXFAT_EPOCH_YEAR + year) mod 4 = 0 \<and> month > 2 then SEC_IN_DAY else 0)
            + (day - 1) * SEC_IN_DAY
            + hour * SEC_IN_HOUR + min * SEC_IN_MIN + twosec * 2 + uint centisec div 100
            + tz)"

text \<open>The loop over the months: the month and the days left in it.\<close>

fun find_month :: "bool \<Rightarrow> int \<Rightarrow> nat list \<Rightarrow> nat \<times> int" where
  "find_month leap days [] = (0, days)"
| "find_month leap days (i # is) =
     (let leap_day = (if leap \<and> i = 2 then 1 else 0);
          leap_sub = (if leap \<and> i \<ge> 3 then 1 else 0)
      in if i = 12 \<or> days - leap_sub < days_in_year ! (i + 1) + leap_day
         then (i, days - (days_in_year ! i + leap_sub))
         else find_month leap days is)"

text \<open>
  The date, the time and the centiseconds. \<open>days\<close> is a C \<open>int\<close>; the fields are truncated
  to 16 bits when they are stored.
\<close>

definition exfat_unix2exfat :: "int \<Rightarrow> int \<Rightarrow> u16 \<times> u16 \<times> u8" where
  "exfat_unix2exfat tz unix_time =
     (let shift = EPOCH_DIFF_SEC + tz;
          t = (if unix_time < shift then shift else unix_time) - shift;
          days = t div SEC_IN_DAY;
          year = uint (word_of_int (4 * days div (4 * 365 + 1)) :: u16);
          (month, days) = find_month (IS_LEAP_YEAR year) (days - (year * 365 + LEAP_YEARS year)) [1..<13];
          day = word_of_int (days + 1) :: u16;
          hour = word_of_int (t mod SEC_IN_DAY div SEC_IN_HOUR) :: u16;
          min = word_of_int (t mod SEC_IN_HOUR div SEC_IN_MIN) :: u16;
          twosec = word_of_int (t mod SEC_IN_MIN div 2) :: u16
      in (day OR push_bit 5 (word_of_nat month) OR push_bit 9 (word_of_int year),
          twosec OR push_bit 5 min OR push_bit 11 hour,
          word_of_int (t mod 2 * 100)))"

section \<open>Packing three fields into a word\<close>

lemma bit16_1f: "bit (0x1f :: u16) n \<longleftrightarrow> n < 5"
  by (subst bit_run[of _ 0 5]) (auto simp: mask_eq_exp_minus_1)
lemma bit16_0f: "bit (0xf :: u16) n \<longleftrightarrow> n < 4"
  by (subst bit_run[of _ 0 4]) (auto simp: mask_eq_exp_minus_1)
lemma bit16_3f: "bit (0x3f :: u16) n \<longleftrightarrow> n < 6"
  by (subst bit_run[of _ 0 6]) (auto simp: mask_eq_exp_minus_1)

lemmas pack_bits = bit16_1f bit16_0f bit16_3f bit_and_iff bit_or_iff bit_push_bit_iff
  bit_drop_bit_eq o_apply

lemma packed_date:
  fixes d m y :: u16
  assumes "d < 2 ^ 5" "m < 2 ^ 4" "y < 2 ^ 7"
  shows "(d OR push_bit 5 m OR push_bit 9 y) AND 0x1f = d"
    and "drop_bit 5 (d OR push_bit 5 m OR push_bit 9 y) AND 0xf = m"
    and "drop_bit 9 (d OR push_bit 5 m OR push_bit 9 y) = y"
proof -
  note small = bit_small[OF assms(1)] bit_small[OF assms(2)] bit_small[OF assms(3)]
  show "(d OR push_bit 5 m OR push_bit 9 y) AND 0x1f = d"
    by (rule bit_word_eqI, simp only: pack_bits) (use small in force)
  show "drop_bit 5 (d OR push_bit 5 m OR push_bit 9 y) AND 0xf = m"
    by (rule bit_word_eqI, simp only: pack_bits) (use small in force)
  show "drop_bit 9 (d OR push_bit 5 m OR push_bit 9 y) = y"
    by (rule bit_word_eqI, simp only: pack_bits) (use small in force)
qed

lemma packed_time:
  fixes s m h :: u16
  assumes "s < 2 ^ 5" "m < 2 ^ 6" "h < 2 ^ 5"
  shows "(s OR push_bit 5 m OR push_bit 11 h) AND 0x1f = s"
    and "drop_bit 5 (s OR push_bit 5 m OR push_bit 11 h) AND 0x3f = m"
    and "drop_bit 11 (s OR push_bit 5 m OR push_bit 11 h) = h"
proof -
  note small = bit_small[OF assms(1)] bit_small[OF assms(2)] bit_small[OF assms(3)]
  show "(s OR push_bit 5 m OR push_bit 11 h) AND 0x1f = s"
    by (rule bit_word_eqI, simp only: pack_bits) (use small in force)
  show "drop_bit 5 (s OR push_bit 5 m OR push_bit 11 h) AND 0x3f = m"
    by (rule bit_word_eqI, simp only: pack_bits) (use small in force)
  show "drop_bit 11 (s OR push_bit 5 m OR push_bit 11 h) = h"
    by (rule bit_word_eqI, simp only: pack_bits) (use small in force)
qed

lemma u16_of_int_small:
  assumes "0 \<le> i" "i < 2 ^ k" "k < 16"
  shows "(word_of_int i :: u16) < 2 ^ k" "uint (word_of_int i :: u16) = i"
proof -
  have k: "(2 :: int) ^ k < 2 ^ 16" using assms(3) by (rule power_strict_increasing) simp
  then show u: "uint (word_of_int i :: u16) = i" using assms
    by (simp add: uint_word_of_int)
  have "(2 ^ k :: u16) = word_of_int (2 ^ k)" by simp
  then have "uint (2 ^ k :: u16) = 2 ^ k mod 2 ^ 16" by (simp only: uint_word_of_int) simp
  then have "uint (2 ^ k :: u16) = 2 ^ k" using k by simp
  then show "(word_of_int i :: u16) < 2 ^ k" using u assms(2) by (simp add: word_less_def)
qed

section \<open>Calendar arithmetic\<close>

lemma LEAP_YEARS_div: "LEAP_YEARS y = (y + 3) div 4"
proof -
  have "(EXFAT_EPOCH_YEAR + y - 1) div 4 = (y + 3 + 494 * 4) div 4" by (simp add: algebra_simps)
  also have "\<dots> = 494 + (y + 3) div 4" by (rule div_mult_self1) simp
  finally show ?thesis by (simp add: LEAP_YEARS_def)
qed

lemma year_of_days:
  fixes days :: int
  assumes "0 \<le> days" "days < 46752"
  defines "y \<equiv> 4 * days div 1461"
  defines "doy \<equiv> days - (y * 365 + LEAP_YEARS y)"
  shows "0 \<le> y \<and> y < 128 \<and> 0 \<le> doy \<and> doy < 366 \<and> (\<not> IS_LEAP_YEAR y \<longrightarrow> doy < 365)"
proof -
  define r where "r = 4 * days mod 1461"
  define q where "q = (y + 3) div 4"
  define s where "s = (y + 3) mod 4"
  have y: "4 * days = 1461 * y + r" "0 \<le> r" "r < 1461"
    unfolding y_def r_def by auto
  have q: "y + 3 = 4 * q + s" "0 \<le> s" "s < 4" unfolding q_def s_def by auto
  have "doy = days - (y * 365 + q)" unfolding doy_def LEAP_YEARS_div q_def ..
  then have doy: "4 * doy = r + s - 3" using y q by (simp add: algebra_simps)
  have leap: "IS_LEAP_YEAR y \<longleftrightarrow> s = 3"
  proof -
    have "EXFAT_EPOCH_YEAR + y = (s + 1) + 4 * (q + 494)" using q(1) by simp
    then have "(EXFAT_EPOCH_YEAR + y) mod 4 = (s + 1) mod 4" by (simp only: mod_mult_self2)
    moreover have "s = 0 \<or> s = 1 \<or> s = 2 \<or> s = 3" using q(2,3) by linarith
    ultimately show ?thesis unfolding IS_LEAP_YEAR_def by auto
  qed
  have "0 \<le> y" "y < 128" using y assms(1,2) by linarith+
  moreover have "0 \<le> doy" "doy < 366" using doy y q by linarith+
  moreover have "doy < 365" if "s \<noteq> 3" using doy y q that by linarith
  ultimately show ?thesis using leap by blast
qed

lemma find_month_correct:
  assumes "0 \<le> doy" "doy < 366" "\<not> leap \<longrightarrow> doy < 365" "find_month leap doy [1..<13] = (m, rest)"
  shows "1 \<le> m \<and> m \<le> 12 \<and> 0 \<le> rest \<and> rest < 31 \<and>
    days_in_year ! m + (if leap \<and> m > 2 then 1 else 0) + rest = doy"
proof -
  have l: "[1..<13] = [1, 2, 3, 4, 5, 6, 7, 8, 9, 10, 11, 12 :: nat]" by (simp add: upt_rec)
  show ?thesis
    using assms unfolding l
    by (cases leap) (auto simp: days_in_year_def Let_def split: if_splits)
qed

lemma time_of_day:
  fixes t :: int
  shows "t mod 86400 div 3600 * 3600 + t mod 3600 div 60 * 60 + t mod 60 div 2 * 2 + t mod 2 = t mod 86400"
proof -
  have "t mod 86400 mod 3600 = t mod 3600" "t mod 3600 mod 60 = t mod 60" "t mod 60 mod 2 = t mod 2"
    by (rule mod_mod_cancel, simp)+
  then show ?thesis
    using div_mult_mod_eq[of "t mod 86400" 3600] div_mult_mod_eq[of "t mod 3600" 60]
      div_mult_mod_eq[of "t mod 60" 2] by linarith
qed

lemma div_range:
  fixes a b c :: int
  assumes "0 \<le> a" "a < b * c" "0 < c"
  shows "0 \<le> a div c" "a div c < b"
proof -
  show "0 \<le> a div c" using assms by (simp add: pos_imp_zdiv_nonneg_iff)
  have "a div c * c \<le> a" using assms(3) by (simp add: minus_mod_eq_div_mult [symmetric])
  then have "a div c * c < b * c" using assms(2) by linarith
  then show "a div c < b" using assms(3) by simp
qed

lemma recombine:
  fixes diy rest days y l h m s o' tod e tz :: int
  assumes "diy + (if c then 1 else 0) + rest = days - (y * 365 + l)"
    and "h * 3600 + m * 60 + s * 2 + o' = tod"
  shows "e + (y * SEC_IN_YEAR + l * SEC_IN_DAY) + diy * SEC_IN_DAY + (if c then SEC_IN_DAY else 0)
    + (rest + 1 - 1) * SEC_IN_DAY + h * SEC_IN_HOUR + m * SEC_IN_MIN + s * 2 + o' + tz
    = e + tz + (days * 86400 + tod)"
  using assms by (auto split: if_splits)

lemma shift_last: "a + b = c \<Longrightarrow> a + d = c - b + d" for a :: int
  by simp

text \<open>The three groups of fields come back out of the words they are packed into.\<close>

lemma u16_fields:
  assumes "0 \<le> d" "d < 32" "0 \<le> m" "m < 16" "0 \<le> y" "y < (128 :: int)"
  defines "w \<equiv> word_of_int d OR push_bit 5 (word_of_int m) OR push_bit 9 (word_of_int y) :: u16"
  shows "uint (w AND 0x1f) = d" "uint (drop_bit 5 w AND 0xf) = m" "uint (drop_bit 9 w) = y"
proof -
  have "(word_of_int d :: u16) < 2 ^ 5" "(word_of_int m :: u16) < 2 ^ 4" "(word_of_int y :: u16) < 2 ^ 7"
    by (rule u16_of_int_small(1); use assms in simp)+
  note p = packed_date[OF this, folded w_def]
  show "uint (w AND 0x1f) = d" "uint (drop_bit 5 w AND 0xf) = m" "uint (drop_bit 9 w) = y"
    unfolding p using assms u16_of_int_small(2)[of d 5] u16_of_int_small(2)[of m 4]
      u16_of_int_small(2)[of y 7] by simp_all
qed

lemma u16_clock_fields:
  assumes "0 \<le> s" "s < 32" "0 \<le> m" "m < 64" "0 \<le> h" "h < (32 :: int)"
  defines "w \<equiv> word_of_int s OR push_bit 5 (word_of_int m) OR push_bit 11 (word_of_int h) :: u16"
  shows "uint (w AND 0x1f) = s" "uint (drop_bit 5 w AND 0x3f) = m" "uint (drop_bit 11 w) = h"
proof -
  have "(word_of_int s :: u16) < 2 ^ 5" "(word_of_int m :: u16) < 2 ^ 6" "(word_of_int h :: u16) < 2 ^ 5"
    by (rule u16_of_int_small(1); use assms in simp)+
  note p = packed_time[OF this, folded w_def]
  show "uint (w AND 0x1f) = s" "uint (drop_bit 5 w AND 0x3f) = m" "uint (drop_bit 11 w) = h"
    unfolding p using assms u16_of_int_small(2)[of s 5] u16_of_int_small(2)[of m 6]
      u16_of_int_small(2)[of h 5] by simp_all
qed

text \<open>
  What is read back with the centiseconds \<open>c\<close>: without the stored ones the odd second is lost.
\<close>

lemma exfat2unix_after_unix2exfat:
  assumes "EPOCH_DIFF_SEC + tz \<le> t" "t < EPOCH_DIFF_SEC + tz + 46752 * SEC_IN_DAY"
    and "exfat_unix2exfat tz t = (date, time, cs)"
  shows "uint cs = (t - (EPOCH_DIFF_SEC + tz)) mod 2 * 100"
    and "uint c \<le> 199 \<Longrightarrow>
      exfat_exfat2unix tz date time c = t - (t - (EPOCH_DIFF_SEC + tz)) mod 2 + uint c div 100"
proof -
  define u where "u = t - (EPOCH_DIFF_SEC + tz)"
  define y where "y = 4 * (u div 86400) div 1461"
  define doy where "doy = u div 86400 - (y * 365 + LEAP_YEARS y)"
  obtain m rest where fm: "find_month (IS_LEAP_YEAR y) doy [1..<13] = (m, rest)" by (cases "find_month (IS_LEAP_YEAR y) doy [1..<13]")
  have u: "0 \<le> u div 86400" "u div 86400 < 46752" using assms(1,2) unfolding u_def by auto
  have y: "0 \<le> y \<and> y < 128 \<and> 0 \<le> doy \<and> doy < 366 \<and> (\<not> IS_LEAP_YEAR y \<longrightarrow> doy < 365)"
    unfolding y_def doy_def by (rule year_of_days[OF u])
  have m: "1 \<le> m \<and> m \<le> 12 \<and> 0 \<le> rest \<and> rest < 31 \<and>
    days_in_year ! m + (if IS_LEAP_YEAR y \<and> m > 2 then 1 else 0) + rest = doy"
    using find_month_correct fm y by blast
  have uy: "uint (word_of_int y :: u16) = y" using u16_of_int_small[of y 7] y by simp
  have "(date, time, cs) =
      (word_of_int (rest + 1) OR push_bit 5 (word_of_int (int m)) OR push_bit 9 (word_of_int y),
       word_of_int (u mod 60 div 2) OR push_bit 5 (word_of_int (u mod 3600 div 60)) OR
         push_bit 11 (word_of_int (u mod 86400 div 3600)), word_of_int (u mod 2 * 100))"
    using assms(1,3) fm uy unfolding exfat_unix2exfat_def Let_def
    by (simp add: u_def[symmetric] y_def[symmetric] doy_def[symmetric])
  then have f: "date = word_of_int (rest + 1) OR push_bit 5 (word_of_int (int m)) OR push_bit 9 (word_of_int y)"
    "time = word_of_int (u mod 60 div 2) OR push_bit 5 (word_of_int (u mod 3600 div 60)) OR
         push_bit 11 (word_of_int (u mod 86400 div 3600))" "cs = word_of_int (u mod 2 * 100)" by auto
  have rng: "0 \<le> u mod 60 div 2" "u mod 60 div 2 < 30" "0 \<le> u mod 3600 div 60"
    "u mod 3600 div 60 < 60" "0 \<le> u mod 86400 div 3600" "u mod 86400 div 3600 < 24"
    by (rule div_range[of "u mod 60" 30 2] div_range[of "u mod 3600" 60 60]
      div_range[of "u mod 86400" 24 3600], simp, simp, simp)+
  have d: "0 \<le> rest + 1" "rest + 1 < 32" "0 \<le> int m" "int m < 16" "0 \<le> y" "y < 128"
    using m y by auto
  note date = u16_fields[OF d, folded f(1)]
  have c: "u mod 60 div 2 < 32" "u mod 3600 div 60 < 64" "u mod 86400 div 3600 < 32"
    by (rule less_trans[OF rng(2)] less_trans[OF rng(4)] less_trans[OF rng(6)], simp)+
  note clock = u16_clock_fields[OF rng(1) c(1) rng(3) c(2) rng(5) c(3), folded f(2)]
  have two: "u mod 2 = 0 \<or> u mod 2 = 1" by (metis not_mod_2_eq_1_eq_0)
  show cs: "uint cs = (t - (EPOCH_DIFF_SEC + tz)) mod 2 * 100"
    unfolding u_def[symmetric] using two unfolding f(3) by auto
  assume c199: "uint c \<le> 199"
  have csd: "\<not> c > 199" using c199 by (simp add: word_less_def not_less)
  have date_ok: "(rest + 1 = 0 \<or> int m = 0 \<or> 12 < int m) = False" using m by auto
  have clock_ok: "(23 < u mod 86400 div 3600 \<or> 59 < u mod 3600 div 60 \<or> 29 < u mod 60 div 2) = False"
    unfolding eq_False de_Morgan_disj not_less
    by (intro conjI; rule zless_imp_add1_zle[OF rng(2), simplified] zless_imp_add1_zle[OF rng(4), simplified]
      zless_imp_add1_zle[OF rng(6), simplified])
  have two_m: "2 < int m \<longleftrightarrow> 2 < m" by simp
  have leap: "(EXFAT_EPOCH_YEAR + y) mod 4 = 0 \<longleftrightarrow> IS_LEAP_YEAR y" by (simp add: IS_LEAP_YEAR_def)
  have "exfat_exfat2unix tz date time c = EPOCH_DIFF_SEC + (y * SEC_IN_YEAR + LEAP_YEARS y * SEC_IN_DAY)
      + days_in_year ! m * SEC_IN_DAY + (if IS_LEAP_YEAR y \<and> m > 2 then SEC_IN_DAY else 0)
      + (rest + 1 - 1) * SEC_IN_DAY + u mod 86400 div 3600 * SEC_IN_HOUR
      + u mod 3600 div 60 * SEC_IN_MIN + u mod 60 div 2 * 2 + uint c div 100 + tz"
    unfolding exfat_exfat2unix_def Let_def date clock leap
    by (simp only: date_ok clock_ok csd if_False nat_int two_m)
  also have "\<dots> = EPOCH_DIFF_SEC + tz + (u div 86400 * 86400 + (u mod 86400 - u mod 2 + uint c div 100))"
  proof (rule recombine)
    show "days_in_year ! m + (if IS_LEAP_YEAR y \<and> m > 2 then 1 else 0) + rest = u div 86400 - (y * 365 + LEAP_YEARS y)"
      using m unfolding doy_def by blast
    show "u mod 86400 div 3600 * 3600 + u mod 3600 div 60 * 60 + u mod 60 div 2 * 2 + uint c div 100
        = u mod 86400 - u mod 2 + uint c div 100"
      using time_of_day[of u] by (rule shift_last)
  qed
  also have "\<dots> = t - u mod 2 + uint c div 100" unfolding u_def by simp
  finally show "exfat_exfat2unix tz date time c = t - (t - (EPOCH_DIFF_SEC + tz)) mod 2 + uint c div 100"
    unfolding u_def .
qed

text \<open>
  C34: a time the exFAT fields can hold (1980 to 2107 in local time) survives being stored
  and read back.
\<close>

theorem unix_exfat_roundtrip:
  assumes "EPOCH_DIFF_SEC + tz \<le> t" "t < EPOCH_DIFF_SEC + tz + 46752 * SEC_IN_DAY"
    and "exfat_unix2exfat tz t = (date, time, cs)"
  shows "exfat_exfat2unix tz date time cs = t"
proof -
  note r = exfat2unix_after_unix2exfat[OF assms]
  have "(t - (EPOCH_DIFF_SEC + tz)) mod 2 < 2" by simp
  then have "uint cs \<le> 199" unfolding r(1) by linarith
  then show ?thesis using r(2)[of cs] unfolding r(1) by simp
qed

theorem unix_exfat_roundtrip_witness:
  "exfat_unix2exfat (-3600) 1600000000 = (0x512d, 0x6b54, 0) \<and>
   exfat_exfat2unix (-3600) 0x512d 0x6b54 0 = 1600000000"
proof -
  have "exfat_unix2exfat (-3600) 1600000000 = (0x512d, 0x6b54, 0)" by code_simp
  then show ?thesis
    using unix_exfat_roundtrip[of "-3600" 1600000000 "0x512d" "0x6b54" 0]
    by (simp add: EPOCH_DIFF_SEC_def)
qed

end
