(* ===== verification/Node.thy ===== *)
theory Node
  imports Repair Checksum ExTime
begin

text \<open>
  Nodes and the directory entries they are read from (node.c, first half, and the
  conversion of names in utils.c): references, reading and writing entries, checking and
  parsing an entry set.
\<close>

section \<open>References\<close>

text \<open>The name of a node in UTF-8; a name that cannot be converted ends the process.\<close>

definition exfat_get_name :: "exfat_node \<Rightarrow> fault + u8 list" where
  "exfat_get_name node =
     (case utf16_to_utf8 (EXFAT_NAME_MAX * 3 + 1) (take EXFAT_NAME_MAX (nd_name node)) of
        Inl _ \<Rightarrow> Inl Abort | Inr bs \<Rightarrow> Inr bs)"

definition exfat_get_node :: "exfat \<Rightarrow> ptr \<Rightarrow> fault + exfat" where
  "exfat_get_node ef p = modify_node ef p (\<lambda>n. n\<lparr>nd_references := nd_references n + 1\<rparr>)"

definition exfat_put_node :: "exfat \<Rightarrow> ptr \<Rightarrow> fault + exfat" where
  "exfat_put_node ef p =
     andThen (node_at ef p) (\<lambda>n.
       let n = n\<lparr>nd_references := nd_references n - 1\<rparr>; ef = put_node_at ef p n in
       if nd_references n < 0 then Inl Abort
       else if nd_references n = 0 \<and> p \<noteq> ef_root ef \<and> nd_is_dirty n then
         andThen (exfat_get_name n) (\<lambda>_. Inr ef)
       else Inr ef)"

definition exfat_cleanup_node :: "exfat \<Rightarrow> ptr \<Rightarrow> fault + (retcode \<times> exfat)" where
  "exfat_cleanup_node ef p =
     andThen (node_at ef p) (\<lambda>n.
       if nd_references n \<noteq> 0 then Inl Abort
       else if nd_is_unlinked n then
         andThen (exfat_truncate ef n 0 True) (\<lambda>(rc, ef, _). Inr (rc, free_node ef p))
       else Inr (RC0, ef))"

section \<open>Reading and writing entries\<close>

definition entries_of :: "nat \<Rightarrow> u8 list \<Rightarrow> exfat_entry list" where
  "entries_of n bs = map (\<lambda>i. slice_of (32 * i) 32 bs) [0..<n]"

text \<open>
  The code after the call of \<open>exfat_generic_pread\<close> or \<open>exfat_generic_pwrite\<close>: all the bytes,
  an error, or a wrong number of bytes. Reading nothing is the end of the directory.
\<close>

definition read_entries :: "exfat \<Rightarrow> ptr \<Rightarrow> nat \<Rightarrow> int \<Rightarrow> fault + (retcode \<times> exfat_entry list \<times> exfat)" where
  "read_entries ef dir n offset =
     andThen (node_at ef dir) (\<lambda>node.
       if nd_attrib node AND EXFAT_ATTRIB_DIR = 0 then Inl Abort
       else andThen (exfat_generic_pread ef node (map (ef_junk ef) [0..<32 * n]) offset) (\<lambda>(r, bs, node).
         Inr (case r of
                Inl _ \<Rightarrow> EIO
              | Inr sz \<Rightarrow> if sz = 32 * n then RC0 else if sz = 0 then ENOENT else EIO,
              entries_of n bs, put_node_at ef dir node)))"

definition write_entries :: "exfat \<Rightarrow> ptr \<Rightarrow> exfat_entry list \<Rightarrow> int \<Rightarrow> fault + (retcode \<times> exfat)" where
  "write_entries ef dir entries offset =
     andThen (node_at ef dir) (\<lambda>node.
       if nd_attrib node AND EXFAT_ATTRIB_DIR = 0 then Inl Abort
       else andThen (exfat_generic_pwrite ef node (concat entries) offset) (\<lambda>(r, ef, node).
         Inr (case r of
                Inl _ \<Rightarrow> EIO
              | Inr sz \<Rightarrow> if sz = 32 * length entries then RC0 else EIO,
              put_node_at ef dir node)))"

text \<open>\<open>malloc(sizeof(struct exfat_node))\<close>: 600 bytes on a 64-bit system.\<close>

definition allocate_node :: "exfat \<Rightarrow> (ptr \<times> exfat) option" where
  "allocate_node ef =
     (if \<not> ef_malloc_ok ef 600 then None
      else Some (ef_next_ptr ef, (put_node_at ef (ef_next_ptr ef) zero_node)\<lparr>ef_next_ptr := ef_next_ptr ef + 1\<rparr>))"

section \<open>The fields of a node\<close>

definition init_node_meta1 :: "int \<Rightarrow> exfat_node \<Rightarrow> exfat_entry \<Rightarrow> exfat_node" where
  "init_node_meta1 tz node meta1 =
     node\<lparr>nd_attrib := meta1_attrib meta1, nd_continuations := meta1_continuations meta1,
       nd_mtime := exfat_exfat2unix tz (meta1_mdate meta1) (meta1_mtime meta1) (meta1_mtime_cs meta1),
       nd_atime := exfat_exfat2unix tz (meta1_adate meta1) (meta1_atime meta1) 0\<rparr>"

definition init_node_meta2 :: "exfat_node \<Rightarrow> exfat_entry \<Rightarrow> exfat_node" where
  "init_node_meta2 node meta2 =
     node\<lparr>nd_size := meta2_size meta2, nd_start_cluster := meta2_start_cluster meta2,
       nd_fptr_cluster := meta2_start_cluster meta2,
       nd_is_contiguous := (meta2_flags meta2 AND EXFAT_FLAG_CONTIGUOUS \<noteq> 0)\<rparr>"

text \<open>At most 17 entries: 255 units, which the 256 of the name have room for.\<close>

definition init_node_name :: "exfat_node \<Rightarrow> exfat_entry list \<Rightarrow> exfat_node" where
  "init_node_name node entries =
     node\<lparr>nd_name := overlay 0 (concat (map entry_name entries)) (nd_name node)\<rparr>"

section \<open>Checking an entry set\<close>

text \<open>\<^const>\<open>None\<close> is \<open>EXFAT_ENTRY_NONE\<close>, which is below every type.\<close>

definition valid_transition :: "u8 option \<Rightarrow> u8 option \<Rightarrow> bool" where
  "valid_transition previous current =
     (case previous of
        None \<Rightarrow> current = Some EXFAT_ENTRY_FILE
      | Some t \<Rightarrow>
          if t = EXFAT_ENTRY_FILE then current = Some EXFAT_ENTRY_FILE_INFO
          else if t = EXFAT_ENTRY_FILE_INFO then current = Some EXFAT_ENTRY_FILE_NAME
          else if t = EXFAT_ENTRY_FILE_NAME then
            (case current of None \<Rightarrow> True
             | Some c \<Rightarrow> c = EXFAT_ENTRY_FILE_NAME \<or> c \<ge> EXFAT_ENTRY_FILE_TAIL)
          else if t \<ge> EXFAT_ENTRY_FILE_TAIL then
            (case current of None \<Rightarrow> True | Some c \<Rightarrow> c \<ge> EXFAT_ENTRY_FILE_TAIL)
          else False)"

fun check_from :: "u8 option \<Rightarrow> u8 option list \<Rightarrow> bool" where
  "check_from previous [] = True"
| "check_from previous (current # rest) =
     (if \<not> valid_transition previous current then False else check_from current rest)"

definition check_entries :: "exfat_entry list \<Rightarrow> bool" where
  "check_entries entries = check_from None (map (\<lambda>e. Some (entry_type e)) entries @ [None])"

text \<open>
  A defect is reported with the name of the node (which may end the process) and makes the
  result false; \<open>report bad ret node\<close> is one of the checks of \<open>check_node\<close>.
\<close>

definition report :: "bool \<Rightarrow> exfat_node \<Rightarrow> bool \<Rightarrow> fault + bool" where
  "report bad node ret = (if bad then andThen (exfat_get_name node) (\<lambda>_. Inr False) else Inr ret)"

definition check_node ::
    "exfat \<Rightarrow> exfat_node \<Rightarrow> u16 \<Rightarrow> exfat_entry \<Rightarrow> exfat_entry \<Rightarrow> fault + (bool \<times> exfat \<times> exfat_node)" where
  "check_node ef node actual_checksum meta1 meta2 =
     (let cluster_size = word_of_nat (CLUSTER_SIZE (ef_sb ef)) :: u64;
          clusters_heap_size = ucast (sb_cluster_count (ef_sb ef)) * cluster_size in
      andThen
        (if actual_checksum \<noteq> meta1_checksum meta1 then
           andThen (exfat_get_name node) (\<lambda>_.
             case exfat_ask_to_fix ef of
               (yes, ef) \<Rightarrow> if yes then Inr (exfat_fix_invalid_node_checksum ef node) else Inr (False, ef, node))
         else Inr (True, ef, node)) (\<lambda>(ret, ef, node).
      andThen (report (meta2_valid_size meta2 > nd_size node) node ret) (\<lambda>ret.
      andThen (report (nd_size node = 0 \<and> nd_start_cluster node \<noteq> EXFAT_CLUSTER_FREE) node ret) (\<lambda>ret.
      andThen (report (nd_size node > 0 \<and> CLUSTER_INVALID (ef_sb ef) (nd_start_cluster node)) node ret) (\<lambda>ret.
      andThen (report (nd_size node > clusters_heap_size) node ret) (\<lambda>ret.
      andThen (report (nd_size node = 0 \<and> nd_is_contiguous node) node ret) (\<lambda>ret.
      andThen (report (nd_attrib node AND EXFAT_ATTRIB_DIR \<noteq> 0 \<and> nd_size node mod cluster_size \<noteq> 0) node ret) (\<lambda>ret.
        Inr (ret, ef, node)))))))))"

section \<open>Parsing an entry set\<close>

definition parse_file_entries ::
    "exfat \<Rightarrow> exfat_node \<Rightarrow> exfat_entry list \<Rightarrow> fault + (retcode \<times> exfat \<times> exfat_node)" where
  "parse_file_entries ef node entries =
     (if \<not> check_entries entries then Inr (EIO, ef, node)
      else let meta1 = entries ! 0; meta2 = entries ! 1 in
        if meta1_continuations meta1 < 2 then Inr (EIO, ef, node)
        else if meta2_flags meta2 AND NOT (EXFAT_FLAG_ALWAYS1 OR EXFAT_FLAG_CONTIGUOUS) \<noteq> 0 then Inr (EIO, ef, node)
        else let mandatory_entries = 2 + div_round_up (unat (meta2_name_length meta2)) EXFAT_ENAME_MAX in
          if unat (meta1_continuations meta1) < mandatory_entries - 1 then Inr (EIO, ef, node)
          else let node = init_node_name (init_node_meta2 (init_node_meta1 (ef_tz ef) node meta1) meta2)
                            (take (mandatory_entries - 2) (drop 2 entries)) in
            andThen (check_node ef node (exfat_calc_checksum entries) meta1 meta2) (\<lambda>(ok, ef, node).
              Inr (if ok then RC0 else EIO, ef, node)))"

text \<open>The node (when the result is 0) and the offset after the set.\<close>

definition parse_file_entry ::
    "exfat \<Rightarrow> ptr \<Rightarrow> int \<Rightarrow> nat \<Rightarrow> fault + (retcode \<times> ptr \<times> int \<times> exfat)" where
  "parse_file_entry ef parent offset n =
     andThen (read_entries ef parent n offset) (\<lambda>(rc, entries, ef).
       if rc \<noteq> RC0 then Inr (rc, 0, offset, ef)
       else (case allocate_node ef of
          None \<Rightarrow> Inr (ENOMEM, 0, offset, ef)
        | Some (p, ef) \<Rightarrow>
            andThen (parse_file_entries ef (zero_node\<lparr>nd_entry_offset := offset\<rparr>) entries) (\<lambda>(rc, ef, node).
              if rc \<noteq> RC0 then Inr (rc, p, offset, free_node ef p)
              else Inr (RC0, p, offset + 32 * int n, put_node_at ef p node))))"

end
