(* ===== verification/Directory.thy ===== *)
theory Directory
  imports Node
begin

text \<open>
  Directories (node.c): reading the next node of a directory, building and dropping the
  cache of children, and the list of siblings.
\<close>

section \<open>The upper case table and the bitmap\<close>

text \<open>
  The loop of \<open>decompress_upcase\<close>: \<open>src\<close> is what is left of the source. A unit 0xffff that
  is not the last starts a run of characters that keep their value.
\<close>

fun decompress_loop :: "u16 list \<Rightarrow> u16 list \<Rightarrow> nat \<Rightarrow> u16 list" where
  "decompress_loop output [] oi = output"
| "decompress_loop output [ch] oi =
     (if oi < EXFAT_UPCASE_CHARS then output[oi := ch] else output)"
| "decompress_loop output (ch # run # rest) oi =
     (if oi < EXFAT_UPCASE_CHARS then
        (if ch = 0xffff then decompress_loop output rest (oi + unat run)
         else decompress_loop (output[oi := ch]) (run # rest) (oi + 1))
      else output)"

definition decompress_upcase :: "u16 list \<Rightarrow> u16 list" where
  "decompress_upcase source =
     decompress_loop (map word_of_nat [0..<EXFAT_UPCASE_CHARS]) source 0"

text \<open>A buffer read as an array of 16-bit or 64-bit integers.\<close>

definition units_of :: "u8 list \<Rightarrow> u16 list" where
  "units_of bs = map (\<lambda>i. le16_to_cpu (slice_of (2 * i) 2 bs)) [0..<length bs div 2]"

definition blocks_of :: "u8 list \<Rightarrow> u64 list" where
  "blocks_of bs = map (\<lambda>i. le64_to_cpu (slice_of (8 * i) 8 bs)) [0..<length bs div 8]"

definition junk :: "exfat \<Rightarrow> nat \<Rightarrow> u8 list" where
  "junk ef n = map (ef_junk ef) [0..<n]"

section \<open>Reading the next node\<close>

text \<open>The cases of the \<open>switch\<close> in \<open>readdir\<close>: a return code other than 0 is returned.\<close>

definition read_upcase_entry :: "exfat \<Rightarrow> exfat_entry \<Rightarrow> fault + (retcode \<times> exfat)" where
  "read_upcase_entry ef upcase =
     (let sz = unat (upcase_size upcase) in
      if ef_upcase ef \<noteq> [] then Inr (RC0, ef)
      else if CLUSTER_INVALID (ef_sb ef) (upcase_start_cluster upcase) then Inr (EIO, ef)
      else if sz = 0 \<or> sz > EXFAT_UPCASE_CHARS * 2 \<or> sz mod 2 \<noteq> 0 then Inr (EIO, ef)
      else if \<not> ef_malloc_ok ef sz then Inr (ENOMEM, ef)
      else andThen (exfat_c2o (ef_sb ef) (upcase_start_cluster upcase)) (\<lambda>off.
        case pread_into (ef_dev ef) (junk ef sz) off of
          None \<Rightarrow> Inr (EIO, ef)
        | Some packed \<Rightarrow>
            if \<not> ef_malloc_ok ef (EXFAT_UPCASE_CHARS * 2) then Inr (ENOMEM, ef)
            else Inr (RC0, ef\<lparr>ef_upcase := decompress_upcase (units_of packed)\<rparr>)))"

text \<open>The number of bytes the bitmap needs is computed with 32 bits.\<close>

definition read_bitmap_entry :: "exfat \<Rightarrow> exfat_entry \<Rightarrow> fault + (retcode \<times> exfat)" where
  "read_bitmap_entry ef bitmap =
     (let ef = ef\<lparr>cmap_start_cluster := bitmap_start_cluster bitmap\<rparr> in
      if CLUSTER_INVALID (ef_sb ef) (cmap_start_cluster ef) then Inr (EIO, ef)
      else let ef = ef\<lparr>cmap_size := sb_cluster_count (ef_sb ef)\<rparr> in
        if bitmap_size bitmap < ucast ((cmap_size ef + 8 - 1) div 8) then Inr (EIO, ef)
        else let ef = ef\<lparr>cmap_chunk_size := cmap_size ef\<rparr>; n = BMAP_SIZE (unat (cmap_chunk_size ef)) in
          if \<not> ef_malloc_ok ef n then Inr (ENOMEM, ef\<lparr>cmap_chunk := []\<rparr>)
          else andThen (exfat_c2o (ef_sb ef) (cmap_start_cluster ef)) (\<lambda>off.
            case pread_into (ef_dev ef) (junk ef n) off of
              None \<Rightarrow> Inr (EIO, ef\<lparr>cmap_chunk := blocks_of (junk ef n)\<rparr>)
            | Some bs \<Rightarrow> Inr (RC0, ef\<lparr>cmap_chunk := blocks_of bs\<rparr>)))"

text \<open>The bytes a failed conversion has already written to the label are left out.\<close>

definition read_label_entry :: "exfat \<Rightarrow> exfat_entry \<Rightarrow> fault + (retcode \<times> exfat)" where
  "read_label_entry ef label =
     (if unat (label_length label) > EXFAT_ENAME_MAX then Inr (EIO, ef)
      else (case utf16_to_utf8 46 (entry_name label) of
              Inl _ \<Rightarrow> Inr (EIO, ef)
            | Inr bs \<Rightarrow> Inr (RC0, ef\<lparr>ef_label := overlay 0 bs (ef_label ef)\<rparr>)))"

definition read_unknown_entry :: "exfat \<Rightarrow> ptr \<Rightarrow> exfat_entry \<Rightarrow> int \<Rightarrow> fault + (retcode \<times> exfat)" where
  "read_unknown_entry ef parent entry offset =
     (if entry_type entry AND EXFAT_ENTRY_VALID = 0 then Inr (RC0, ef)
      else (case exfat_ask_to_fix ef of (yes, ef) \<Rightarrow>
        if \<not> yes then Inr (EIO, ef)
        else andThen (exfat_fix_unknown_entry ef parent entry offset) (\<lambda>(ok, ef).
          Inr (if ok then RC0 else EIO, ef))))"

text \<open>
  \<open>readdir\<close> reads entries until a file, an error or the end. Each turn of the loop reads 32
  bytes further inside the directory, so its size divided by 32 bounds the number of turns.
\<close>

primrec readdir_loop :: "nat \<Rightarrow> exfat \<Rightarrow> ptr \<Rightarrow> int \<Rightarrow> fault + (retcode \<times> ptr \<times> int \<times> exfat)" where
  "readdir_loop 0 ef parent offset = Inl OutOfFuel"
| "readdir_loop (Suc fuel) ef parent offset =
     andThen (read_entries ef parent 1 offset) (\<lambda>(rc, entries, ef).
       if rc \<noteq> RC0 then Inr (rc, 0, offset, ef)
       else let entry = entries ! 0; t = entry_type entry in
         if t = EXFAT_ENTRY_FILE then
           parse_file_entry ef parent offset (1 + unat (meta1_continuations entry))
         else andThen
           (if t = EXFAT_ENTRY_UPCASE then read_upcase_entry ef entry
            else if t = EXFAT_ENTRY_BITMAP then read_bitmap_entry ef entry
            else if t = EXFAT_ENTRY_LABEL then read_label_entry ef entry
            else read_unknown_entry ef parent entry offset) (\<lambda>(rc, ef).
             if rc \<noteq> RC0 then Inr (rc, 0, offset, ef)
             else readdir_loop fuel ef parent (offset + 32)))"

definition directory_fuel :: "exfat_node \<Rightarrow> nat" where
  "directory_fuel node = unat (nd_size node) div 32 + 2"

definition readdir :: "exfat \<Rightarrow> ptr \<Rightarrow> int \<Rightarrow> fault + (retcode \<times> ptr \<times> int \<times> exfat)" where
  "readdir ef parent offset =
     andThen (node_at ef parent) (\<lambda>node. readdir_loop (directory_fuel node) ef parent offset)"

section \<open>The cache of children\<close>

text \<open>Walks along sibling lists end within the number of nodes ever allocated.\<close>

primrec free_siblings :: "nat \<Rightarrow> exfat \<Rightarrow> ptr option \<Rightarrow> fault + exfat" where
  "free_siblings 0 ef current = Inl OutOfFuel"
| "free_siblings (Suc fuel) ef current =
     (case current of
        None \<Rightarrow> Inr ef
      | Some p \<Rightarrow> andThen (node_at ef p) (\<lambda>n. free_siblings fuel (free_node ef p) (nd_next n)))"

primrec cache_loop :: "nat \<Rightarrow> exfat \<Rightarrow> ptr \<Rightarrow> ptr option \<Rightarrow> int \<Rightarrow> fault + (retcode \<times> exfat)" where
  "cache_loop 0 ef dir current offset = Inl OutOfFuel"
| "cache_loop (Suc fuel) ef dir current offset =
     andThen (readdir ef dir offset) (\<lambda>(rc, node, offset, ef).
       if rc \<noteq> RC0 then Inr (rc, ef)
       else andThen (modify_node ef node (\<lambda>n. n\<lparr>nd_parent := Some dir\<rparr>)) (\<lambda>ef.
         andThen (case current of
             Some c \<Rightarrow>
               andThen (modify_node ef c (\<lambda>n. n\<lparr>nd_next := Some node\<rparr>)) (\<lambda>ef.
                 modify_node ef node (\<lambda>n. n\<lparr>nd_prev := Some c\<rparr>))
           | None \<Rightarrow> modify_node ef dir (\<lambda>n. n\<lparr>nd_child := Some node\<rparr>))
           (\<lambda>ef. cache_loop fuel ef dir (Some node) offset)))"

definition exfat_cache_directory :: "exfat \<Rightarrow> ptr \<Rightarrow> fault + (retcode \<times> exfat)" where
  "exfat_cache_directory ef dir =
     andThen (node_at ef dir) (\<lambda>d.
       if nd_is_cached d then Inr (RC0, ef)
       else andThen (cache_loop (directory_fuel d) ef dir None 0) (\<lambda>(rc, ef).
         if rc \<noteq> ENOENT then
           andThen (node_at ef dir) (\<lambda>d.
             andThen (free_siblings (ef_next_ptr ef + 1) ef (nd_child d)) (\<lambda>ef.
               andThen (modify_node ef dir (\<lambda>n. n\<lparr>nd_child := None\<rparr>)) (\<lambda>ef. Inr (rc, ef))))
         else andThen (modify_node ef dir (\<lambda>n. n\<lparr>nd_is_cached := True\<rparr>)) (\<lambda>ef. Inr (RC0, ef))))"

section \<open>Siblings\<close>

definition tree_attach :: "exfat \<Rightarrow> ptr \<Rightarrow> ptr \<Rightarrow> fault + exfat" where
  "tree_attach ef dir node =
     andThen (modify_node ef node (\<lambda>n. n\<lparr>nd_parent := Some dir\<rparr>)) (\<lambda>ef.
       andThen (node_at ef dir) (\<lambda>d.
         andThen (case nd_child d of
             Some c \<Rightarrow>
               andThen (modify_node ef c (\<lambda>n. n\<lparr>nd_prev := Some node\<rparr>)) (\<lambda>ef.
                 modify_node ef node (\<lambda>n. n\<lparr>nd_next := Some c\<rparr>))
           | None \<Rightarrow> Inr ef)
           (\<lambda>ef. modify_node ef dir (\<lambda>n. n\<lparr>nd_child := Some node\<rparr>))))"

definition tree_detach :: "exfat \<Rightarrow> ptr \<Rightarrow> fault + exfat" where
  "tree_detach ef node =
     andThen (node_at ef node) (\<lambda>n.
       andThen (case nd_prev n of
           Some q \<Rightarrow> modify_node ef q (\<lambda>m. m\<lparr>nd_next := nd_next n\<rparr>)
         | None \<Rightarrow> (case nd_parent n of
             None \<Rightarrow> Inl Undef
           | Some d \<Rightarrow> modify_node ef d (\<lambda>m. m\<lparr>nd_child := nd_next n\<rparr>))) (\<lambda>ef.
         andThen (case nd_next n of
             Some q \<Rightarrow> modify_node ef q (\<lambda>m. m\<lparr>nd_prev := nd_prev n\<rparr>)
           | None \<Rightarrow> Inr ef) (\<lambda>ef.
           modify_node ef node (\<lambda>m. m\<lparr>nd_parent := None, nd_prev := None, nd_next := None\<rparr>))))"

text \<open>
  \<open>reset_cache\<close> drops the first child, with everything below it, until none is left. The
  last loop puts the node as often as it is referenced (a negative count ends the process
  in the first \<open>exfat_put_node\<close>).
\<close>

primrec put_times :: "nat \<Rightarrow> exfat \<Rightarrow> ptr \<Rightarrow> fault + exfat" where
  "put_times 0 ef p = Inr ef"
| "put_times (Suc k) ef p = andThen (exfat_put_node ef p) (\<lambda>ef. put_times k ef p)"

primrec reset_cache :: "nat \<Rightarrow> exfat \<Rightarrow> ptr \<Rightarrow> fault + exfat" where
  "reset_cache 0 ef p = Inl OutOfFuel"
| "reset_cache (Suc fuel) ef p =
     andThen (node_at ef p) (\<lambda>n.
       case nd_child n of
         Some c \<Rightarrow>
           andThen (reset_cache fuel ef c) (\<lambda>ef.
             andThen (tree_detach ef c) (\<lambda>ef. reset_cache fuel (free_node ef c) p))
       | None \<Rightarrow>
           (let n = n\<lparr>nd_is_cached := False\<rparr>; ef = put_node_at ef p n in
            andThen (if nd_references n \<noteq> 0 then andThen (exfat_get_name n) (\<lambda>_. Inr ()) else Inr ()) (\<lambda>_.
              if p \<noteq> ef_root ef \<and> nd_is_dirty n then Inl Abort
              else if nd_references n < 0 then Inl Abort
              else put_times (nat (nd_references n)) ef p)))"

definition exfat_reset_cache :: "exfat \<Rightarrow> fault + exfat" where
  "exfat_reset_cache ef = reset_cache (ef_next_ptr ef + 2) ef (ef_root ef)"

end
