(* ===== verification/Lookup.thy ===== *)
theory Lookup
  imports Directory
begin

text \<open>
  Finding nodes by path (lookup.c). Paths are the bytes of a C string without its
  terminator.
\<close>

section \<open>Iterating over a directory\<close>

record exfat_iterator =
  it_parent :: "ptr option"
  it_current :: "ptr option"

definition exfat_opendir :: "exfat \<Rightarrow> ptr \<Rightarrow> fault + (retcode \<times> exfat_iterator \<times> exfat)" where
  "exfat_opendir ef dir =
     andThen (exfat_get_node ef dir) (\<lambda>ef.
       andThen (exfat_cache_directory ef dir) (\<lambda>(rc, ef).
         andThen (if rc \<noteq> RC0 then exfat_put_node ef dir else Inr ef) (\<lambda>ef.
           Inr (rc, \<lparr>it_parent = Some dir, it_current = None\<rparr>, ef))))"

definition exfat_closedir :: "exfat \<Rightarrow> exfat_iterator \<Rightarrow> fault + (exfat_iterator \<times> exfat)" where
  "exfat_closedir ef it =
     (case it_parent it of
        None \<Rightarrow> Inl Undef
      | Some p \<Rightarrow> andThen (exfat_put_node ef p) (\<lambda>ef. Inr (\<lparr>it_parent = None, it_current = None\<rparr>, ef)))"

definition exfat_readdir :: "exfat \<Rightarrow> exfat_iterator \<Rightarrow> fault + (ptr option \<times> exfat_iterator \<times> exfat)" where
  "exfat_readdir ef it =
     andThen (case it_current it of
         None \<Rightarrow> (case it_parent it of
             None \<Rightarrow> Inl Undef
           | Some d \<Rightarrow> andThen (node_at ef d) (\<lambda>n. Inr (nd_child n)))
       | Some c \<Rightarrow> andThen (node_at ef c) (\<lambda>n. Inr (nd_next n)))
       (\<lambda>current. let it = it\<lparr>it_current := current\<rparr> in
          case current of
            None \<Rightarrow> Inr (None, it, ef)
          | Some p \<Rightarrow> andThen (exfat_get_node ef p) (\<lambda>ef. Inr (Some p, it, ef)))"

section \<open>Comparing names\<close>

definition compare_char :: "u16 list \<Rightarrow> u16 \<Rightarrow> u16 \<Rightarrow> int" where
  "compare_char upcase a b = uint (upcase ! unat a) - uint (upcase ! unat b)"

text \<open>Both names end with a null unit; reading past the end of an array is undefined.\<close>

fun compare_name :: "u16 list \<Rightarrow> u16 list \<Rightarrow> u16 list \<Rightarrow> fault + int" where
  "compare_name upcase (a # as) (b # bs) =
     (if a \<noteq> 0 \<and> b \<noteq> 0 then
        (let rc = compare_char upcase a b in if rc \<noteq> 0 then Inr rc else compare_name upcase as bs)
      else Inr (compare_char upcase a b))"
| "compare_name upcase as bs = Inl Undef"

primrec lookup_loop ::
    "nat \<Rightarrow> exfat \<Rightarrow> exfat_iterator \<Rightarrow> u16 list \<Rightarrow> fault + (retcode \<times> ptr option \<times> exfat)" where
  "lookup_loop 0 ef it buffer = Inl OutOfFuel"
| "lookup_loop (Suc fuel) ef it buffer =
     andThen (exfat_readdir ef it) (\<lambda>(node, it, ef).
       case node of
         None \<Rightarrow> andThen (exfat_closedir ef it) (\<lambda>(_, ef). Inr (ENOENT, None, ef))
       | Some p \<Rightarrow>
           andThen (node_at ef p) (\<lambda>n.
             andThen (if ef_upcase ef = [] then Inl Undef
                      else compare_name (ef_upcase ef) buffer (nd_name n)) (\<lambda>d.
               if d = 0 then andThen (exfat_closedir ef it) (\<lambda>(_, ef). Inr (RC0, Some p, ef))
               else andThen (exfat_put_node ef p) (\<lambda>ef. lookup_loop fuel ef it buffer))))"

definition lookup_name :: "exfat \<Rightarrow> ptr \<Rightarrow> u8 list \<Rightarrow> fault + (retcode \<times> ptr option \<times> exfat)" where
  "lookup_name ef parent name =
     (case utf8_to_utf16 (EXFAT_NAME_MAX + 1) name of
        Inl rc \<Rightarrow> Inr (rc, None, ef)
      | Inr buffer \<Rightarrow>
          andThen (exfat_opendir ef parent) (\<lambda>(rc, it, ef).
            if rc \<noteq> RC0 then Inr (rc, None, ef)
            else lookup_loop (ef_next_ptr ef + 1) ef it buffer))"

section \<open>Components of a path\<close>

abbreviation SLASH :: u8 where "SLASH \<equiv> 0x2f"

text \<open>The length of the first component and the path from there on.\<close>

definition get_comp :: "u8 list \<Rightarrow> nat \<times> u8 list" where
  "get_comp path =
     (let cmp = dropWhile (\<lambda>c. c = SLASH) path in (length (takeWhile (\<lambda>c. c \<noteq> SLASH) cmp), cmp))"

lemma get_comp_shorter:
  "get_comp path = (n, cmp) \<Longrightarrow> n \<noteq> 0 \<Longrightarrow> length (drop n cmp) < length path"
proof -
  assume a: "get_comp path = (n, cmp)" "n \<noteq> 0"
  have "length cmp \<le> length path" using a(1) by (auto simp: get_comp_def Let_def length_dropWhile_le)
  moreover have "n \<le> length cmp" using a(1) by (auto simp: get_comp_def Let_def length_takeWhile_le)
  ultimately show ?thesis using a(2) by simp
qed

function lookup_path :: "exfat \<Rightarrow> ptr \<Rightarrow> u8 list \<Rightarrow> fault + (retcode \<times> ptr option \<times> exfat)" where
  "lookup_path ef parent path =
     (case get_comp path of (n, p) \<Rightarrow>
        if n = 0 then Inr (RC0, Some parent, ef)
        else if n = 1 \<and> p ! 0 = 0x2e then lookup_path ef parent (drop n p)
        else andThen (lookup_name ef parent (take n p)) (\<lambda>(rc, node, ef).
          if rc \<noteq> RC0 then andThen (exfat_put_node ef parent) (\<lambda>ef. Inr (rc, node, ef))
          else andThen (exfat_put_node ef parent) (\<lambda>ef.
            case node of None \<Rightarrow> Inl Undef | Some q \<Rightarrow> lookup_path ef q (drop n p))))"
  by pat_completeness auto
termination
  by (relation "measure (\<lambda>(ef, parent, path). length path)") (auto dest: get_comp_shorter[OF sym])

declare lookup_path.simps [simp del]

definition exfat_lookup :: "exfat \<Rightarrow> u8 list \<Rightarrow> fault + (retcode \<times> ptr option \<times> exfat)" where
  "exfat_lookup ef path =
     andThen (exfat_get_node ef (ef_root ef)) (\<lambda>ef. lookup_path ef (ef_root ef) path)"

definition is_last_comp :: "u8 list \<Rightarrow> nat \<Rightarrow> bool" where
  "is_last_comp cmp len \<longleftrightarrow> fst (get_comp (drop len cmp)) = 0"

definition is_allowed :: "u8 list \<Rightarrow> bool" where
  "is_allowed cmp \<longleftrightarrow>
     (\<forall>c \<in> set cmp. \<not> (1 \<le> c \<and> c \<le> 0x1f) \<and>
        c \<notin> {0x2f, 0x5c, 0x3a, 0x2a, 0x3f, 0x22, 0x3c, 0x3e, 0x7c})"

text \<open>
  The result of \<open>exfat_split\<close>: the code, \<open>*parent\<close>, \<open>*node\<close> and the 256 units of \<open>name\<close>.
\<close>

function split_path ::
    "exfat \<Rightarrow> ptr \<Rightarrow> u8 list \<Rightarrow> fault + (retcode \<times> ptr \<times> ptr option \<times> u16 list \<times> exfat)" where
  "split_path ef parent path =
     (case get_comp path of (n, p) \<Rightarrow>
        let blank = replicate (EXFAT_NAME_MAX + 1) 0 in
        if n = 0 then Inl Abort
        else if n = 1 \<and> p ! 0 = 0x2e then split_path ef parent (drop n p)
        else if is_last_comp p n then
          (if \<not> is_allowed (take n p) then
             andThen (exfat_put_node ef parent) (\<lambda>ef. Inr (ENOENT, parent, Some parent, blank, ef))
           else (case utf8_to_utf16 (EXFAT_NAME_MAX + 1) (take n p) of
               Inl rc \<Rightarrow> andThen (exfat_put_node ef parent) (\<lambda>ef. Inr (rc, parent, Some parent, blank, ef))
             | Inr us \<Rightarrow>
                 andThen (lookup_name ef parent (take n p)) (\<lambda>(rc, node, ef).
                   if rc \<noteq> RC0 \<and> rc \<noteq> ENOENT then
                     andThen (exfat_put_node ef parent) (\<lambda>ef. Inr (rc, parent, node, overlay 0 us blank, ef))
                   else Inr (RC0, parent, node, overlay 0 us blank, ef))))
        else andThen (lookup_name ef parent (take n p)) (\<lambda>(rc, node, ef).
          if rc \<noteq> RC0 then andThen (exfat_put_node ef parent) (\<lambda>ef. Inr (rc, parent, node, blank, ef))
          else andThen (exfat_put_node ef parent) (\<lambda>ef.
            case node of None \<Rightarrow> Inl Undef | Some q \<Rightarrow> split_path ef q (drop n p))))"
  by pat_completeness auto
termination
  by (relation "measure (\<lambda>(ef, parent, path). length path)") (auto dest: get_comp_shorter[OF sym])

declare split_path.simps [simp del]

definition exfat_split ::
    "exfat \<Rightarrow> u8 list \<Rightarrow> fault + (retcode \<times> ptr \<times> ptr option \<times> u16 list \<times> exfat)" where
  "exfat_split ef path =
     andThen (exfat_get_node ef (ef_root ef)) (\<lambda>ef. split_path ef (ef_root ef) path)"

end
