(* ===== verification/NodeOps.thy ===== *)
theory NodeOps
  imports Lookup
begin

text \<open>
  Changing directories (node.c, second half): writing a node back, erasing and creating
  entry sets, renaming, and the volume label.
\<close>

section \<open>Writing a node back\<close>

text \<open>
  The fields \<open>exfat_flush_node\<close> puts into the two first entries; valid and total size are the
  same. The checksum is stored last, over the changed entries.
\<close>

definition update_meta1 :: "int \<Rightarrow> exfat_node \<Rightarrow> exfat_entry \<Rightarrow> exfat_entry" where
  "update_meta1 tz node meta1 =
     (case exfat_unix2exfat tz (nd_mtime node) of (mdate, mtime, mtime_cs) \<Rightarrow>
      case exfat_unix2exfat tz (nd_atime node) of (adate, atime, _) \<Rightarrow>
        put16 16 atime (put16 18 adate (put8 21 mtime_cs (put16 12 mtime (put16 14 mdate
          (put16 4 (nd_attrib node) meta1))))))"

definition update_meta2 :: "exfat_node \<Rightarrow> exfat_entry \<Rightarrow> exfat_entry" where
  "update_meta2 node meta2 =
     put8 1 (if nd_size node \<noteq> 0 \<and> nd_is_contiguous node
             then EXFAT_FLAG_ALWAYS1 OR EXFAT_FLAG_CONTIGUOUS else EXFAT_FLAG_ALWAYS1)
       (put32 20 (nd_start_cluster node) (put64 24 (nd_size node) (put64 8 (nd_size node) meta2)))"

definition store_checksum :: "exfat_entry list \<Rightarrow> exfat_entry list" where
  "store_checksum entries = entries[0 := put16 2 (exfat_calc_checksum entries) (entries ! 0)]"

definition updated_entries :: "int \<Rightarrow> exfat_node \<Rightarrow> exfat_entry list \<Rightarrow> exfat_entry list" where
  "updated_entries tz node entries =
     store_checksum (entries[0 := update_meta1 tz node (entries ! 0), 1 := update_meta2 node (entries ! 1)])"

definition exfat_flush_node :: "exfat \<Rightarrow> ptr \<Rightarrow> fault + (retcode \<times> exfat)" where
  "exfat_flush_node ef p =
     andThen (node_at ef p) (\<lambda>node.
       let n = 1 + unat (nd_continuations node) in
       if \<not> nd_is_dirty node then Inr (RC0, ef)
       else if ef_ro ef \<noteq> 0 then Inl Abort
       else (case nd_parent node of
         None \<Rightarrow> Inr (RC0, ef)
       | Some parent \<Rightarrow>
           andThen (read_entries ef parent n (nd_entry_offset node)) (\<lambda>(rc, entries, ef).
             if rc \<noteq> RC0 then Inr (rc, ef)
             else if \<not> check_entries entries then Inr (EIO, ef)
             else andThen (write_entries ef parent (updated_entries (ef_tz ef) node entries) (nd_entry_offset node))
               (\<lambda>(rc, ef).
                  if rc \<noteq> RC0 then Inr (rc, ef)
                  else andThen (modify_node ef p (\<lambda>n. n\<lparr>nd_is_dirty := False\<rparr>)) exfat_flush))))"

text \<open>
  \<open>flush_nodes\<close> (cluster.c) goes through the children, then flushes the node itself;
  \<open>flush_list\<close> is its loop over the children \<open>p\<close> and their siblings.
\<close>

fun flush_nodes :: "nat \<Rightarrow> exfat \<Rightarrow> ptr \<Rightarrow> fault + (retcode \<times> exfat)"
and flush_list :: "nat \<Rightarrow> exfat \<Rightarrow> ptr option \<Rightarrow> fault + (retcode \<times> exfat)" where
  "flush_nodes 0 ef node = Inl OutOfFuel"
| "flush_nodes (Suc fuel) ef node =
     andThen (node_at ef node) (\<lambda>n.
       andThen (flush_list fuel ef (nd_child n)) (\<lambda>(rc, ef).
         if rc \<noteq> RC0 then Inr (rc, ef) else exfat_flush_node ef node))"
| "flush_list 0 ef p = Inl OutOfFuel"
| "flush_list (Suc fuel) ef p =
     (case p of
        None \<Rightarrow> Inr (RC0, ef)
      | Some q \<Rightarrow>
          andThen (flush_nodes fuel ef q) (\<lambda>(rc, ef).
            if rc \<noteq> RC0 then Inr (rc, ef)
            else andThen (node_at ef q) (\<lambda>n. flush_list fuel ef (nd_next n))))"

definition exfat_flush_nodes :: "exfat \<Rightarrow> fault + (retcode \<times> exfat)" where
  "exfat_flush_nodes ef = flush_nodes (2 * ef_next_ptr ef + 4) ef (ef_root ef)"

section \<open>Erasing\<close>

definition erase_entries :: "exfat \<Rightarrow> ptr \<Rightarrow> nat \<Rightarrow> int \<Rightarrow> fault + (retcode \<times> exfat)" where
  "erase_entries ef dir n offset =
     andThen (read_entries ef dir n offset) (\<lambda>(rc, entries, ef).
       if rc \<noteq> RC0 then Inr (rc, ef)
       else write_entries ef dir (map (\<lambda>e. put8 0 (entry_type e AND NOT EXFAT_ENTRY_VALID) e) entries) offset)"

definition parent_of :: "exfat \<Rightarrow> ptr \<Rightarrow> fault + ptr" where
  "parent_of ef p = andThen (node_at ef p) (\<lambda>n. case nd_parent n of None \<Rightarrow> Inl Undef | Some d \<Rightarrow> Inr d)"

definition erase_node :: "exfat \<Rightarrow> ptr \<Rightarrow> fault + (retcode \<times> exfat)" where
  "erase_node ef p =
     andThen (parent_of ef p) (\<lambda>parent.
       andThen (exfat_get_node ef parent) (\<lambda>ef.
         andThen (node_at ef p) (\<lambda>node.
           andThen (erase_entries ef parent (1 + unat (nd_continuations node)) (nd_entry_offset node)) (\<lambda>(rc, ef).
             if rc \<noteq> RC0 then andThen (exfat_put_node ef parent) (\<lambda>ef. Inr (rc, ef))
             else andThen (exfat_flush_node ef parent) (\<lambda>(rc, ef).
               andThen (exfat_put_node ef parent) (\<lambda>ef. Inr (rc, ef)))))))"

text \<open>
  The loop of \<open>shrink_directory\<close>: \<^const>\<open>None\<close> when an entry follows the deleted one, else
  the last of the nodes seen.
\<close>

primrec find_last_node ::
    "nat \<Rightarrow> exfat \<Rightarrow> int \<Rightarrow> exfat_node option \<Rightarrow> ptr option \<Rightarrow> fault + exfat_node option option" where
  "find_last_node 0 ef deleted_offset last_node p = Inl OutOfFuel"
| "find_last_node (Suc fuel) ef deleted_offset last_node p =
     (case p of
        None \<Rightarrow> Inr (Some last_node)
      | Some q \<Rightarrow> andThen (node_at ef q) (\<lambda>node.
          if deleted_offset < nd_entry_offset node then Inr None
          else find_last_node fuel ef deleted_offset
            (case last_node of
               None \<Rightarrow> Some node
             | Some l \<Rightarrow> if nd_entry_offset l < nd_entry_offset node then Some node else Some l)
            (nd_next node)))"

definition shrink_directory :: "exfat \<Rightarrow> ptr \<Rightarrow> int \<Rightarrow> fault + (retcode \<times> exfat)" where
  "shrink_directory ef dir deleted_offset =
     andThen (node_at ef dir) (\<lambda>d.
       let cs = CLUSTER_SIZE (ef_sb ef) in
       if nd_attrib d AND EXFAT_ATTRIB_DIR = 0 then Inl Abort
       else if \<not> nd_is_cached d then Inl Abort
       else andThen (find_last_node (ef_next_ptr ef + 1) ef deleted_offset None (nd_child d)) (\<lambda>r.
         case r of
           None \<Rightarrow> Inr (RC0, ef)
         | Some last_node \<Rightarrow>
             andThen (case last_node of
                 None \<Rightarrow> Inr 0
               | Some l \<Rightarrow> (case utf16_length (nd_name l) of
                   None \<Rightarrow> Inl Undef
                 | Some len \<Rightarrow> Inr (nat (nd_entry_offset l) div 32 + 2 + div_round_up len EXFAT_ENAME_MAX)))
               (\<lambda>entries.
                  let rounded = round_up (entries * 32) cs;
                      new_size = word_of_nat (if rounded = 0 then cs else rounded) in
                  if new_size = nd_size d then Inr (RC0, ef)
                  else andThen (exfat_truncate ef d new_size True) (\<lambda>(rc, ef, d).
                    Inr (rc, put_node_at ef dir d)))))"

definition delete :: "exfat \<Rightarrow> ptr \<Rightarrow> fault + (retcode \<times> exfat)" where
  "delete ef p =
     andThen (parent_of ef p) (\<lambda>parent.
     andThen (node_at ef p) (\<lambda>node.
     andThen (exfat_get_node ef parent) (\<lambda>ef.
     andThen (erase_node ef p) (\<lambda>(rc, ef).
       if rc \<noteq> RC0 then andThen (exfat_put_node ef parent) (\<lambda>ef. Inr (rc, ef))
       else andThen (tree_detach ef p) (\<lambda>ef.
         andThen (shrink_directory ef parent (nd_entry_offset node)) (\<lambda>(rc, ef).
         andThen (modify_node ef p (\<lambda>n. n\<lparr>nd_is_unlinked := True\<rparr>)) (\<lambda>ef.
           if rc \<noteq> RC0 then
             andThen (exfat_flush_node ef parent) (\<lambda>(_, ef).
               andThen (exfat_put_node ef parent) (\<lambda>ef. Inr (rc, ef)))
           else andThen (modify_node ef parent (exfat_update_mtime ef)) (\<lambda>ef.
             andThen (exfat_flush_node ef parent) (\<lambda>(rc, ef).
               andThen (exfat_put_node ef parent) (\<lambda>ef. Inr (rc, ef)))))))))))"

definition exfat_unlink :: "exfat \<Rightarrow> ptr \<Rightarrow> fault + (retcode \<times> exfat)" where
  "exfat_unlink ef p =
     andThen (node_at ef p) (\<lambda>n.
       if nd_attrib n AND EXFAT_ATTRIB_DIR \<noteq> 0 then Inr (EISDIR, ef) else delete ef p)"

definition exfat_rmdir :: "exfat \<Rightarrow> ptr \<Rightarrow> fault + (retcode \<times> exfat)" where
  "exfat_rmdir ef p =
     andThen (node_at ef p) (\<lambda>n.
       if nd_attrib n AND EXFAT_ATTRIB_DIR = 0 then Inr (ENOTDIR, ef)
       else andThen (exfat_cache_directory ef p) (\<lambda>(rc, ef).
         if rc \<noteq> RC0 then Inr (rc, ef)
         else andThen (node_at ef p) (\<lambda>n.
           if nd_child n \<noteq> None then Inr (ENOTEMPTY, ef) else delete ef p)))"

section \<open>Finding room for an entry set\<close>

definition check_slot :: "exfat \<Rightarrow> ptr \<Rightarrow> int \<Rightarrow> nat \<Rightarrow> fault + (retcode \<times> exfat)" where
  "check_slot ef dir offset n =
     (if dir \<noteq> ef_root ef then Inr (RC0, ef)
      else andThen (read_entries ef dir n offset) (\<lambda>(rc, entries, ef).
        if rc \<noteq> RC0 then Inr (rc, ef)
        else Inr (if \<exists>e \<in> set entries. entry_type e AND EXFAT_ENTRY_VALID \<noteq> 0 then EINVAL else RC0, ef)))"

primrec mark_entries :: "u64 list \<Rightarrow> nat \<Rightarrow> nat \<Rightarrow> fault + u64 list" where
  "mark_entries dmap i 0 = Inr dmap"
| "mark_entries dmap i (Suc k) =
     (if i \<ge> bmap_room dmap then Inl Undef else mark_entries (BMAP_SET dmap i) (i + 1) k)"

primrec directory_map :: "nat \<Rightarrow> exfat \<Rightarrow> u64 list \<Rightarrow> ptr option \<Rightarrow> fault + u64 list" where
  "directory_map 0 ef dmap p = Inl OutOfFuel"
| "directory_map (Suc fuel) ef dmap p =
     (case p of
        None \<Rightarrow> Inr dmap
      | Some q \<Rightarrow> andThen (node_at ef q) (\<lambda>n.
          andThen (mark_entries dmap (nat (nd_entry_offset n) div 32) (1 + unat (nd_continuations n))) (\<lambda>dmap.
            directory_map fuel ef dmap (nd_next n))))"

text \<open>
  The search loop of \<open>find_slot\<close> over the \<open>slots\<close> entries of the directory, at entry \<open>i\<close> with
  \<open>contiguous\<close> free entries before it. The result is a code when the loop returns (with the
  offset found), else \<^const>\<open>None\<close> with the count and offset at its end. A slot that is
  occupied after all sends the search back to the entry after its first one, so \<open>n\<close> turns
  for each entry are enough.
\<close>

primrec slot_loop ::
    "nat \<Rightarrow> exfat \<Rightarrow> ptr \<Rightarrow> u64 list \<Rightarrow> nat \<Rightarrow> nat \<Rightarrow> nat \<Rightarrow> nat \<Rightarrow> int
     \<Rightarrow> fault + (retcode option \<times> nat \<times> int \<times> exfat)" where
  "slot_loop 0 ef dir dmap slots n i contiguous offset = Inl OutOfFuel"
| "slot_loop (Suc fuel) ef dir dmap slots n i contiguous offset =
     (if i \<ge> slots then Inr (None, contiguous, offset, ef)
      else if BMAP_GET dmap i then slot_loop fuel ef dir dmap slots n (i + 1) 0 offset
      else let offset = (if contiguous = 0 then 32 * int i else offset); contiguous = contiguous + 1 in
        if contiguous = n then
          andThen (check_slot ef dir offset n) (\<lambda>(rc, ef).
            if rc = RC0 \<or> rc = EIO then Inr (Some rc, contiguous, offset, ef)
            else if rc = EINVAL then slot_loop fuel ef dir dmap slots n (i - (contiguous - 1) + 1) 0 offset
            else slot_loop fuel ef dir dmap slots n (i + 1) contiguous offset)
        else slot_loop fuel ef dir dmap slots n (i + 1) contiguous offset)"

definition find_slot :: "exfat \<Rightarrow> ptr \<Rightarrow> int \<Rightarrow> nat \<Rightarrow> fault + (retcode \<times> int \<times> exfat)" where
  "find_slot ef dir offset n =
     andThen (node_at ef dir) (\<lambda>d.
       let slots = unat (nd_size d) div 32; room = BMAP_SIZE slots in
       if \<not> nd_is_cached d then Inl Abort
       else if \<not> ef_malloc_ok ef (room * 8) then Inr (ENOMEM, offset, ef)
       else andThen (directory_map (ef_next_ptr ef + 1) ef (replicate room 0) (nd_child d)) (\<lambda>dmap.
         andThen (slot_loop ((slots + 1) * (n + 1) + 1) ef dir dmap slots n 0 0 offset)
           (\<lambda>(found, contiguous, offset, ef).
              case found of
                Some rc \<Rightarrow> Inr (rc, offset, ef)
              | None \<Rightarrow> andThen (node_at ef dir) (\<lambda>d.
                  let offset = (if contiguous = 0 then uint (nd_size d) else offset) in
                  if contiguous > n then Inl Undef
                  else andThen (exfat_truncate ef d
                      (word_of_nat (round_up (unat (nd_size d + word_of_nat (32 * (n - contiguous))))
                                             (CLUSTER_SIZE (ef_sb ef)))) True)
                    (\<lambda>(rc, ef, d). Inr (rc, offset, put_node_at ef dir d))))))"

section \<open>Creating\<close>

text \<open>
  The entry set \<open>commit_entry\<close> builds for a name of \<open>len\<close> units: two entries filled with
  zeros first, then the entries of the name.
\<close>

definition name_entry :: "u16 list \<Rightarrow> nat \<Rightarrow> exfat_entry" where
  "name_entry name i =
     EXFAT_ENTRY_FILE_NAME # 0 # units_bytes (slice_of (i * EXFAT_ENAME_MAX) EXFAT_ENAME_MAX name)"

definition new_meta1 :: "exfat \<Rightarrow> nat \<Rightarrow> u16 \<Rightarrow> exfat_entry" where
  "new_meta1 ef name_entries attrib =
     (case exfat_unix2exfat (ef_tz ef) (ef_now ef) of (crdate, crtime, crtime_cs) \<Rightarrow>
        put8 21 crtime_cs (put16 12 crtime (put16 16 crtime (put16 14 crdate (put16 18 crdate
          (put8 20 crtime_cs (put16 8 crtime (put16 10 crdate (put16 4 attrib
            (put8 1 (1 + word_of_nat name_entries) (put8 0 EXFAT_ENTRY_FILE (replicate 32 0))))))))))))"

definition new_meta2 :: "exfat \<Rightarrow> u16 list \<Rightarrow> nat \<Rightarrow> exfat_entry" where
  "new_meta2 ef name len =
     put32 20 EXFAT_CLUSTER_FREE (put16 4 (exfat_calc_name_hash (ef_upcase ef) name len)
       (put8 3 (word_of_nat len) (put8 1 EXFAT_FLAG_ALWAYS1 (put8 0 EXFAT_ENTRY_FILE_INFO (replicate 32 0)))))"

definition new_entries :: "exfat \<Rightarrow> u16 list \<Rightarrow> nat \<Rightarrow> u16 \<Rightarrow> exfat_entry list" where
  "new_entries ef name len attrib =
     (let name_entries = div_round_up len EXFAT_ENAME_MAX in
      store_checksum (new_meta1 ef name_entries attrib # new_meta2 ef name len #
        map (name_entry name) [0..<name_entries]))"

definition commit_entry :: "exfat \<Rightarrow> ptr \<Rightarrow> u16 list \<Rightarrow> int \<Rightarrow> u16 \<Rightarrow> fault + (retcode \<times> exfat)" where
  "commit_entry ef dir name offset attrib =
     (case utf16_length name of
        None \<Rightarrow> Inl Undef
      | Some len \<Rightarrow>
          if ef_upcase ef = [] then Inl Undef
          else let entries = new_entries ef name len attrib in
            andThen (write_entries ef dir entries offset) (\<lambda>(rc, ef).
              if rc \<noteq> RC0 then Inr (rc, ef)
              else (case allocate_node ef of
                  None \<Rightarrow> Inr (ENOMEM, ef)
                | Some (p, ef) \<Rightarrow>
                    let node = zero_node\<lparr>nd_entry_offset := offset,
                                 nd_name := overlay 0 (take len name) (nd_name zero_node)\<rparr>;
                        node = init_node_meta2 (init_node_meta1 (ef_tz ef) node (entries ! 0)) (entries ! 1) in
                    andThen (tree_attach (put_node_at ef p node) dir p) (\<lambda>ef. Inr (RC0, ef)))))"

definition name_slots :: "u16 list \<Rightarrow> fault + nat" where
  "name_slots name =
     (case utf16_length name of None \<Rightarrow> Inl Undef | Some len \<Rightarrow> Inr (2 + div_round_up len EXFAT_ENAME_MAX))"

definition create :: "exfat \<Rightarrow> u8 list \<Rightarrow> u16 \<Rightarrow> fault + (retcode \<times> exfat)" where
  "create ef path attrib =
     andThen (exfat_split ef path) (\<lambda>(rc, dir, existing, name, ef).
       if rc \<noteq> RC0 then Inr (rc, ef)
       else (case existing of
         Some e \<Rightarrow> andThen (exfat_put_node ef e) (\<lambda>ef.
           andThen (exfat_put_node ef dir) (\<lambda>ef. Inr (EEXIST, ef)))
       | None \<Rightarrow>
           andThen (name_slots name) (\<lambda>n.
           andThen (find_slot ef dir (-1) n) (\<lambda>(rc, offset, ef).
             if rc \<noteq> RC0 then andThen (exfat_put_node ef dir) (\<lambda>ef. Inr (rc, ef))
             else andThen (commit_entry ef dir name offset attrib) (\<lambda>(rc, ef).
               if rc \<noteq> RC0 then andThen (exfat_put_node ef dir) (\<lambda>ef. Inr (rc, ef))
               else andThen (modify_node ef dir (exfat_update_mtime ef)) (\<lambda>ef.
                 andThen (exfat_flush_node ef dir) (\<lambda>(rc, ef).
                   andThen (exfat_put_node ef dir) (\<lambda>ef. Inr (rc, ef)))))))))"

definition exfat_mknod :: "exfat \<Rightarrow> u8 list \<Rightarrow> fault + (retcode \<times> exfat)" where
  "exfat_mknod ef path = create ef path EXFAT_ATTRIB_ARCH"

definition exfat_mkdir :: "exfat \<Rightarrow> u8 list \<Rightarrow> fault + (retcode \<times> exfat)" where
  "exfat_mkdir ef path =
     andThen (create ef path EXFAT_ATTRIB_DIR) (\<lambda>(rc, ef).
       if rc \<noteq> RC0 then Inr (rc, ef)
       else andThen (exfat_lookup ef path) (\<lambda>(rc, node, ef).
         if rc \<noteq> RC0 then Inr (RC0, ef)
         else (case node of
           None \<Rightarrow> Inl Undef
         | Some p \<Rightarrow>
             andThen (node_at ef p) (\<lambda>n.
             andThen (exfat_truncate ef n (word_of_nat (CLUSTER_SIZE (ef_sb ef))) True) (\<lambda>(rc, ef, n).
             let ef = put_node_at ef p n in
             if rc \<noteq> RC0 then
               andThen (delete ef p) (\<lambda>(_, ef). andThen (exfat_put_node ef p) (\<lambda>ef. Inr (rc, ef)))
             else andThen (exfat_flush_node ef p) (\<lambda>(rc, ef).
               if rc \<noteq> RC0 then
                 andThen (delete ef p) (\<lambda>(_, ef). andThen (exfat_put_node ef p) (\<lambda>ef. Inr (rc, ef)))
               else andThen (exfat_put_node ef p) (\<lambda>ef. Inr (RC0, ef))))))))"

section \<open>Renaming\<close>

text \<open>
  \<open>rename_entry\<close> keeps the first two entries of the old set (read before it is erased) and
  changes their lengths, hash and checksum.
\<close>

definition renamed_entries :: "exfat \<Rightarrow> exfat_entry list \<Rightarrow> u16 list \<Rightarrow> nat \<Rightarrow> exfat_entry list" where
  "renamed_entries ef old name len =
     (let name_entries = div_round_up len EXFAT_ENAME_MAX in
      store_checksum (put8 1 (1 + word_of_nat name_entries) (old ! 0) #
        put16 4 (exfat_calc_name_hash (ef_upcase ef) name len) (put8 3 (word_of_nat len) (old ! 1)) #
        map (name_entry name) [0..<name_entries]))"

definition rename_entry :: "exfat \<Rightarrow> ptr \<Rightarrow> ptr \<Rightarrow> u16 list \<Rightarrow> int \<Rightarrow> fault + (retcode \<times> exfat)" where
  "rename_entry ef dir p name new_offset =
     (case utf16_length name of
        None \<Rightarrow> Inl Undef
      | Some len \<Rightarrow>
          if ef_upcase ef = [] then Inl Undef
          else andThen (parent_of ef p) (\<lambda>parent.
            andThen (node_at ef p) (\<lambda>node.
            andThen (read_entries ef parent 2 (nd_entry_offset node)) (\<lambda>(rc, old, ef).
              if rc \<noteq> RC0 then Inr (rc, ef)
              else andThen (erase_node ef p) (\<lambda>(rc, ef).
                if rc \<noteq> RC0 then Inr (rc, ef)
                else andThen (modify_node ef p (\<lambda>n. n\<lparr>nd_entry_offset := new_offset,
                       nd_continuations := 1 + word_of_nat (div_round_up len EXFAT_ENAME_MAX)\<rparr>)) (\<lambda>ef.
                  andThen (write_entries ef dir (renamed_entries ef old name len) new_offset) (\<lambda>(rc, ef).
                    if rc \<noteq> RC0 then Inr (rc, ef)
                    else andThen (modify_node ef p (\<lambda>n. n\<lparr>nd_name := name\<rparr>)) (\<lambda>ef.
                      andThen (tree_detach ef p) (\<lambda>ef.
                        andThen (tree_attach ef dir p) (\<lambda>ef. Inr (RC0, ef)))))))))))"

text \<open>The walk from \<open>dir\<close> to the root that looks for the node being moved.\<close>

primrec is_ancestor :: "nat \<Rightarrow> exfat \<Rightarrow> ptr \<Rightarrow> ptr option \<Rightarrow> fault + bool" where
  "is_ancestor 0 ef node p = Inl OutOfFuel"
| "is_ancestor (Suc fuel) ef node p =
     (case p of
        None \<Rightarrow> Inr False
      | Some q \<Rightarrow> if node = q then Inr True
                  else andThen (node_at ef q) (\<lambda>n. is_ancestor fuel ef node (nd_parent n)))"

text \<open>
  What \<open>exfat_rename\<close> does about an existing target: \<^const>\<open>RC0\<close> when the move may go on. The
  clusters of a removed target are freed in every case.
\<close>

definition replace_target :: "exfat \<Rightarrow> ptr \<Rightarrow> ptr \<Rightarrow> ptr \<Rightarrow> fault + (retcode \<times> exfat)" where
  "replace_target ef node existing dir =
     andThen (node_at ef node) (\<lambda>n.
     andThen (node_at ef existing) (\<lambda>x.
       let node_dir = (nd_attrib n AND EXFAT_ATTRIB_DIR \<noteq> 0) in
       andThen (if nd_attrib x AND EXFAT_ATTRIB_DIR \<noteq> 0 then
                  (if node_dir then exfat_rmdir ef existing else Inr (ENOTDIR, ef))
                else (if \<not> node_dir then exfat_unlink ef existing else Inr (EISDIR, ef))) (\<lambda>(rc, ef).
       andThen (exfat_put_node ef existing) (\<lambda>ef.
         if rc \<noteq> RC0 then
           andThen (exfat_cleanup_node ef existing) (\<lambda>(_, ef).
           andThen (exfat_put_node ef dir) (\<lambda>ef.
           andThen (exfat_put_node ef node) (\<lambda>ef. Inr (rc, ef))))
         else andThen (exfat_cleanup_node ef existing) (\<lambda>(rc, ef).
           if rc \<noteq> RC0 then
             andThen (exfat_put_node ef dir) (\<lambda>ef.
             andThen (exfat_put_node ef node) (\<lambda>ef. Inr (rc, ef)))
           else Inr (RC0, ef))))))"

definition exfat_rename :: "exfat \<Rightarrow> u8 list \<Rightarrow> u8 list \<Rightarrow> fault + (retcode \<times> exfat)" where
  "exfat_rename ef old_path new_path =
     andThen (exfat_lookup ef old_path) (\<lambda>(rc, node, ef).
       if rc \<noteq> RC0 then Inr (rc, ef)
       else (case node of None \<Rightarrow> Inl Undef | Some node \<Rightarrow>
         andThen (exfat_split ef new_path) (\<lambda>(rc, dir, existing, name, ef).
           if rc \<noteq> RC0 then andThen (exfat_put_node ef node) (\<lambda>ef. Inr (rc, ef))
           else andThen (node_at ef node) (\<lambda>n.
           andThen (if nd_attrib n AND EXFAT_ATTRIB_DIR \<noteq> 0
                    then is_ancestor (ef_next_ptr ef + 1) ef node (Some dir) else Inr False) (\<lambda>inside.
             if inside then
               andThen (case existing of None \<Rightarrow> Inr ef | Some e \<Rightarrow> exfat_put_node ef e) (\<lambda>ef.
               andThen (exfat_put_node ef dir) (\<lambda>ef.
               andThen (exfat_put_node ef node) (\<lambda>ef. Inr (EINVAL, ef))))
             else andThen (case existing of
                 None \<Rightarrow> Inr (RC0, ef)
               | Some e \<Rightarrow> if e \<noteq> node then replace_target ef node e dir
                           else andThen (exfat_put_node ef e) (\<lambda>ef. Inr (RC0, ef))) (\<lambda>(rc, ef).
               if rc \<noteq> RC0 then Inr (rc, ef)
               else andThen (name_slots name) (\<lambda>slots.
               andThen (find_slot ef dir (-1) slots) (\<lambda>(rc, offset, ef).
                 if rc \<noteq> RC0 then
                   andThen (exfat_put_node ef dir) (\<lambda>ef. andThen (exfat_put_node ef node) (\<lambda>ef. Inr (rc, ef)))
                 else andThen (rename_entry ef dir node name offset) (\<lambda>(rc, ef).
                   if rc \<noteq> RC0 then
                     andThen (exfat_put_node ef dir) (\<lambda>ef. andThen (exfat_put_node ef node) (\<lambda>ef. Inr (rc, ef)))
                   else andThen (exfat_flush_node ef dir) (\<lambda>(rc, ef).
                     andThen (exfat_put_node ef dir) (\<lambda>ef.
                     andThen (exfat_put_node ef node) (\<lambda>ef. Inr (rc, ef)))))))))))))"

section \<open>Times and the label\<close>

definition exfat_utimes :: "exfat_node \<Rightarrow> int \<Rightarrow> int \<Rightarrow> exfat_node" where
  "exfat_utimes node atime mtime = node\<lparr>nd_atime := atime, nd_mtime := mtime, nd_is_dirty := True\<rparr>"

definition exfat_get_label :: "exfat \<Rightarrow> u8 list" where
  "exfat_get_label ef = takeWhile (\<lambda>b. b \<noteq> 0) (ef_label ef)"

primrec find_label_loop :: "nat \<Rightarrow> exfat \<Rightarrow> int \<Rightarrow> fault + (retcode \<times> int \<times> exfat)" where
  "find_label_loop 0 ef offset = Inl OutOfFuel"
| "find_label_loop (Suc fuel) ef offset =
     andThen (read_entries ef (ef_root ef) 1 offset) (\<lambda>(rc, entries, ef).
       if rc \<noteq> RC0 then Inr (rc, offset, ef)
       else if entry_type (entries ! 0) = EXFAT_ENTRY_LABEL then Inr (RC0, offset, ef)
       else find_label_loop fuel ef (offset + 32))"

definition find_label :: "exfat \<Rightarrow> fault + (retcode \<times> int \<times> exfat)" where
  "find_label ef = andThen (node_at ef (ef_root ef)) (\<lambda>root. find_label_loop (directory_fuel root) ef 0)"

text \<open>\<open>label\<close> is a C string without its terminator; \<open>strcpy\<close> writes one after it.\<close>

definition label_entry :: "u16 list \<Rightarrow> nat \<Rightarrow> exfat_entry" where
  "label_entry units len =
     (if len = 0 then EXFAT_ENTRY_LABEL XOR EXFAT_ENTRY_VALID else EXFAT_ENTRY_LABEL) #
     word_of_nat len # units_bytes (take EXFAT_ENAME_MAX units)"

definition exfat_set_label :: "exfat \<Rightarrow> u8 list \<Rightarrow> fault + (retcode \<times> exfat)" where
  "exfat_set_label ef label =
     (case utf8_to_utf16 (EXFAT_ENAME_MAX + 1) label of
        Inl rc \<Rightarrow> Inr (rc, ef)
      | Inr us \<Rightarrow>
          let units = overlay 0 us (replicate (EXFAT_ENAME_MAX + 1) 0) in
          andThen (find_label ef) (\<lambda>(rc, offset, ef).
          andThen (if rc = ENOENT then find_slot ef (ef_root ef) offset 1 else Inr (rc, offset, ef)) (\<lambda>(rc, offset, ef).
            if rc \<noteq> RC0 then Inr (rc, ef)
            else (case utf16_length units of
              None \<Rightarrow> Inl Undef
            | Some len \<Rightarrow>
                andThen (write_entries ef (ef_root ef) [label_entry units len] offset) (\<lambda>(rc, ef).
                  if rc \<noteq> RC0 then Inr (rc, ef)
                  else if length label \<ge> length (ef_label ef) then Inl Undef
                  else Inr (RC0, ef\<lparr>ef_label := overlay 0 (label @ [0]) (ef_label ef)\<rparr>))))))"

end
