(* ===== verification/Mount.thy ===== *)
theory Mount
  imports NodeOps
begin

text \<open>
  Opening a device (io.c), mounting and unmounting (mount.c).
\<close>

section \<open>Opening\<close>

text \<open>
  What the system calls of \<open>exfat_open\<close> say about a path: whether the two ways of opening
  it succeed, whether the kernel calls the block device read-only, its kind, and what
  \<open>lseek\<close> and later reads and writes return.
\<close>

datatype file_kind = Block_device | Character_device | Regular_file | Other_file

record os_file =
  of_opens_ro :: bool
  of_opens_rw :: bool
  of_blk_ro :: bool
  of_stat_ok :: bool
  of_kind :: file_kind
  of_size :: int
  of_rewinds :: bool
  of_content :: "nat \<Rightarrow> u8"
  of_rd_err :: "nat \<Rightarrow> nat \<Rightarrow> bool"
  of_wr_err :: "nat \<Rightarrow> nat \<Rightarrow> bool"
  of_sync_err :: bool

definition open_ro :: "os_file option \<Rightarrow> os_file option" where
  "open_ro f = (case f of Some f \<Rightarrow> if of_opens_ro f then Some f else None | None \<Rightarrow> None)"

definition open_rw :: "os_file option \<Rightarrow> os_file option" where
  "open_rw f = (case f of Some f \<Rightarrow> if of_opens_rw f \<and> \<not> of_blk_ro f then Some f else None | None \<Rightarrow> None)"

text \<open>
  The loop that protects descriptors 0, 1 and 2: every \<open>open\<close> takes the lowest free one, so
  three turns are enough. The arguments are whether each is open.
\<close>

function protect_descriptors :: "bool \<Rightarrow> bool \<times> bool \<times> bool \<Rightarrow> (bool \<times> bool \<times> bool) option" where
  "protect_descriptors null_ok (a, b, c) =
     (if a \<and> b \<and> c then Some (a, b, c)
      else if \<not> null_ok then None
      else protect_descriptors null_ok
             (if \<not> a then (True, b, c) else if \<not> b then (a, True, c) else (a, b, True)))"
  by pat_completeness auto
termination
  by (relation "measure (\<lambda>(_, a, b, c). (if a then 0 else 1) + (if b then 0 else 1) + (if c then 0 else (1 :: nat)))") auto

text \<open>The size is where seeking to the end leads; the device is rewound after.\<close>

definition device_size :: "os_file \<Rightarrow> nat option" where
  "device_size f =
     (if of_size f \<le> 0 then None
      else if \<not> of_rewinds f then None
      else Some (nat (of_size f)))"

definition exfat_open ::
    "bool \<Rightarrow> bool \<times> bool \<times> bool \<Rightarrow> bool \<Rightarrow> os_file option \<Rightarrow> exfat_mode \<Rightarrow> exfat_dev option" where
  "exfat_open null_ok std malloc_ok f mode =
     (case protect_descriptors null_ok std of
        None \<Rightarrow> None
      | Some _ \<Rightarrow>
          if \<not> malloc_ok then None
          else (case (case mode of
                  EXFAT_MODE_RO \<Rightarrow> map_option (\<lambda>f. (f, EXFAT_MODE_RO)) (open_ro f)
                | EXFAT_MODE_RW \<Rightarrow> map_option (\<lambda>f. (f, EXFAT_MODE_RW)) (open_rw f)
                | EXFAT_MODE_ANY \<Rightarrow>
                    (case open_rw f of
                       Some f \<Rightarrow> Some (f, EXFAT_MODE_RW)
                     | None \<Rightarrow> map_option (\<lambda>f. (f, EXFAT_MODE_RO)) (open_ro f))) of
              None \<Rightarrow> None
            | Some (f, m) \<Rightarrow>
                if \<not> of_stat_ok f then None
                else if of_kind f = Other_file then None
                else map_option (\<lambda>n. \<lparr>dev_mode = m, dev_size = n, dev_bytes = of_content f,
                       dev_rd_err = of_rd_err f, dev_wr_err = of_wr_err f, dev_sync_err = of_sync_err f\<rparr>)
                     (device_size f)))"

definition exfat_fsync :: "exfat_dev \<Rightarrow> retcode" where
  "exfat_fsync d = (if dev_sync_err d then EIO else RC0)"

section \<open>Options\<close>

text \<open>
  \<open>strstr\<close> is called again one character further, so every position of the string is
  looked at in turn; \<open>boundary\<close> says that the position is the first or follows a comma.
\<close>

fun get_option_from :: "bool \<Rightarrow> string \<Rightarrow> string \<Rightarrow> string option" where
  "get_option_from boundary option_name [] = None"
| "get_option_from boundary option_name (c # cs) =
     (if take (length option_name) (c # cs) = option_name \<and> boundary \<and>
         take 1 (drop (length option_name) (c # cs)) = ''=''
      then Some (drop (length option_name + 1) (c # cs))
      else get_option_from (c = CHR '','') option_name cs)"

definition get_option :: "string \<Rightarrow> string \<Rightarrow> string option" where
  "get_option options option_name = get_option_from True option_name options"

text \<open>\<open>strtol\<close>: blanks, a sign, digits of the base, the value cut to the range of \<open>long\<close>.\<close>

definition is_blank :: "char \<Rightarrow> bool" where
  "is_blank c \<longleftrightarrow> c = CHR '' '' \<or> (9 \<le> (of_char c :: nat) \<and> of_char c \<le> (13 :: nat))"

definition digit_of :: "char \<Rightarrow> nat" where
  "digit_of c = of_char c - 48"

definition is_digit :: "nat \<Rightarrow> char \<Rightarrow> bool" where
  "is_digit radix c \<longleftrightarrow> 48 \<le> (of_char c :: nat) \<and> of_char c < 48 + radix"

definition digits_value :: "nat \<Rightarrow> string \<Rightarrow> nat" where
  "digits_value radix s = foldl (\<lambda>v c. v * radix + digit_of c) 0 (takeWhile (is_digit radix) s)"

definition strtol :: "nat \<Rightarrow> string \<Rightarrow> int" where
  "strtol radix s =
     (let t = dropWhile is_blank s;
          u = (if t \<noteq> [] \<and> (hd t = CHR ''-'' \<or> hd t = CHR ''+'') then tl t else t);
          v = int (digits_value radix u)
      in if t \<noteq> [] \<and> hd t = CHR ''-'' then max (- (2 ^ 63)) (- v) else min (2 ^ 63 - 1) v)"

text \<open>The \<open>long\<close> is converted to an \<open>int\<close>.\<close>

definition get_int_option :: "string \<Rightarrow> string \<Rightarrow> nat \<Rightarrow> int \<Rightarrow> int" where
  "get_int_option options option_name radix default_value =
     (case get_option options option_name of
        None \<Rightarrow> default_value
      | Some p \<Rightarrow> sint (word_of_int (strtol radix p) :: u32))"

fun match_option_from :: "bool \<Rightarrow> string \<Rightarrow> string \<Rightarrow> bool" where
  "match_option_from boundary option_name [] = False"
| "match_option_from boundary option_name (c # cs) =
     (if take (length option_name) (c # cs) = option_name \<and> boundary \<and>
         (take 1 (drop (length option_name) (c # cs)) = '','' \<or> drop (length option_name) (c # cs) = [])
      then True
      else match_option_from (c = CHR '','') option_name cs)"

definition match_option :: "string \<Rightarrow> string \<Rightarrow> bool" where
  "match_option options option_name = match_option_from True option_name options"

definition parse_options :: "int \<Rightarrow> int \<Rightarrow> exfat \<Rightarrow> string \<Rightarrow> exfat" where
  "parse_options euid egid ef options =
     (let opt_umask = get_int_option options ''umask'' 8 0;
          rep = get_int_option options ''repair'' 10 0
      in ef\<lparr>ef_dmask := get_int_option options ''dmask'' 8 opt_umask,
            ef_fmask := get_int_option options ''fmask'' 8 opt_umask,
            ef_uid := get_int_option options ''uid'' 10 euid,
            ef_gid := get_int_option options ''gid'' 10 egid,
            ef_noatime := match_option options ''noatime'',
            ef_repair := (if rep = 1 then EXFAT_REPAIR_ASK
                          else if rep = 2 then EXFAT_REPAIR_YES else EXFAT_REPAIR_NO)\<rparr>)"

section \<open>The boot region\<close>

text \<open>
  \<open>sector\<close> is the buffer of one cluster the sectors are read into; a short read leaves the
  bytes of the one before.
\<close>

definition read_sector :: "exfat \<Rightarrow> u8 list \<Rightarrow> nat \<Rightarrow> u8 list option" where
  "read_sector ef sector i =
     (let n = SECTOR_SIZE (ef_sb ef) in
      map_option (\<lambda>bs. bs @ drop n sector) (pread_into (ef_dev ef) (take n sector) (int i * int n)))"

primrec vbr_loop :: "exfat \<Rightarrow> u8 list \<Rightarrow> u32 \<Rightarrow> nat \<Rightarrow> nat \<Rightarrow> (u8 list \<times> u32) option" where
  "vbr_loop ef sector vbr_checksum i 0 = Some (sector, vbr_checksum)"
| "vbr_loop ef sector vbr_checksum i (Suc k) =
     (case read_sector ef sector i of
        None \<Rightarrow> None
      | Some sector \<Rightarrow>
          vbr_loop ef sector (exfat_vbr_add_checksum (take (SECTOR_SIZE (ef_sb ef)) sector) vbr_checksum) (i + 1) k)"

primrec vbr_compare :: "exfat \<Rightarrow> u8 list \<Rightarrow> u32 \<Rightarrow> nat \<Rightarrow> nat \<Rightarrow> bool \<times> exfat" where
  "vbr_compare ef sector vbr_checksum i 0 = (True, ef)"
| "vbr_compare ef sector vbr_checksum i (Suc k) =
     (if le32_to_cpu (slice_of (4 * i) 4 sector) \<noteq> vbr_checksum then
        (case exfat_ask_to_fix ef of (yes, ef) \<Rightarrow>
           if \<not> yes then (False, ef)
           else (case exfat_fix_invalid_vbr_checksum ef sector vbr_checksum of (ok, ef, sector) \<Rightarrow>
             if \<not> ok then (False, ef) else vbr_compare ef sector vbr_checksum (i + 1) k))
      else vbr_compare ef sector vbr_checksum (i + 1) k)"

definition verify_vbr_checksum :: "exfat \<Rightarrow> u8 list \<Rightarrow> bool \<times> exfat" where
  "verify_vbr_checksum ef sector =
     (let n = SECTOR_SIZE (ef_sb ef) in
      case read_sector ef sector 0 of
        None \<Rightarrow> (False, ef)
      | Some sector \<Rightarrow>
          (case vbr_loop ef sector (exfat_vbr_start_checksum (take n sector)) 1 10 of
             None \<Rightarrow> (False, ef)
           | Some (sector, vbr_checksum) \<Rightarrow>
               (case read_sector ef sector 11 of
                  None \<Rightarrow> (False, ef)
                | Some sector \<Rightarrow> vbr_compare ef sector vbr_checksum 0 (n div 4))))"

definition commit_super_block :: "exfat \<Rightarrow> bool \<times> exfat" where
  "commit_super_block ef =
     (case exfat_pwrite (ef_dev ef) (encode_super_block (ef_sb ef)) 0 of
        None \<Rightarrow> (False, ef)
      | Some d \<Rightarrow> (exfat_fsync d = RC0, ef\<lparr>ef_dev := d\<rparr>))"

definition prepare_super_block :: "exfat \<Rightarrow> bool \<times> exfat" where
  "prepare_super_block ef =
     (if ef_ro ef \<noteq> 0 then (True, ef)
      else commit_super_block (ef\<lparr>ef_sb := (ef_sb ef)\<lparr>sb_volume_state :=
             sb_volume_state (ef_sb ef) OR EXFAT_STATE_MOUNTED\<rparr>\<rparr>))"

text \<open>The number of clusters of the root directory, 0 for a chain that is broken or too long.\<close>

primrec rootdir_loop :: "exfat \<Rightarrow> exfat_node \<Rightarrow> cluster_t \<Rightarrow> nat \<Rightarrow> nat \<Rightarrow> fault + nat" where
  "rootdir_loop ef root c clusters 0 = Inr 0"
| "rootdir_loop ef root c clusters (Suc k) =
     (if CLUSTER_INVALID (ef_sb ef) c then Inr 0
      else andThen (exfat_next_cluster ef root c) (\<lambda>c.
        if c = EXFAT_CLUSTER_END then Inr (clusters + 1) else rootdir_loop ef root c (clusters + 1) k))"

definition rootdir_size :: "exfat \<Rightarrow> exfat_node \<Rightarrow> fault + u64" where
  "rootdir_size ef root =
     andThen (rootdir_loop ef root (sb_rootdir_cluster (ef_sb ef)) 0 (unat (sb_cluster_count (ef_sb ef))))
       (\<lambda>clusters. Inr (word_of_nat clusters * word_of_nat (CLUSTER_SIZE (ef_sb ef))))"

section \<open>Mounting\<close>

text \<open>What \<open>exfat_mount\<close> takes from the process and the system.\<close>

record mount_env =
  env_file :: "string \<Rightarrow> os_file option"
  env_std :: "bool \<times> bool \<times> bool"
  env_null_ok :: bool
  env_euid :: int
  env_egid :: int
  env_tz :: int
  env_now :: int
  env_malloc_ok :: "nat \<Rightarrow> bool"
  env_stdin :: "string list"
  env_junk :: "nat \<Rightarrow> u8"

text \<open>\<open>"EXFAT   "\<close>\<close>

definition OEM_NAME :: "u8 list" where
  "OEM_NAME = [0x45, 0x58, 0x46, 0x41, 0x54, 0x20, 0x20, 0x20]"

text \<open>\<open>struct exfat\<close> filled with zeros, over an open device.\<close>

definition zero_exfat :: "mount_env \<Rightarrow> exfat_dev \<Rightarrow> exfat" where
  "zero_exfat env d = \<lparr>ef_dev = d, ef_sb = decode_super_block (replicate 512 0), ef_upcase = [],
     ef_root = 0, cmap_start_cluster = 0, cmap_size = 0, cmap_chunk = [], cmap_chunk_size = 0,
     cmap_dirty = False, ef_label = replicate 46 0, ef_dmask = 0, ef_fmask = 0, ef_uid = 0,
     ef_gid = 0, ef_ro = 0, ef_noatime = False, ef_repair = EXFAT_REPAIR_NO,
     ef_nodes = (\<lambda>_. None), ef_next_ptr = 0, ef_now = env_now env, ef_tz = env_tz env,
     ef_malloc_ok = env_malloc_ok env, ef_stdin = env_stdin env, ef_junk = env_junk env,
     ef_errors_fixed = 0\<rparr>"

text \<open>The checks of the super block, in the order of the code; \<^const>\<open>RC0\<close> when all pass.\<close>

definition check_super_block_early :: "exfat_super_block \<Rightarrow> retcode" where
  "check_super_block_early sb =
     (if sb_oem_name sb \<noteq> OEM_NAME then EIO
      else if sb_sector_bits sb < 9 then EIO
      else if unat (sb_sector_bits sb) + unat (sb_spc_bits sb) > 25 then EIO
      else RC0)"

definition check_super_block_late :: "exfat \<Rightarrow> retcode" where
  "check_super_block_late ef =
     (let sb = ef_sb ef in
      if sb_version_major sb \<noteq> 1 \<or> sb_version_minor sb \<noteq> 0 then EIO
      else if sb_fat_count sb \<noteq> 1 then EIO
      else if unat (sb_cluster_count sb) * CLUSTER_SIZE sb > exfat_get_size (ef_dev ef) then EIO
      else RC0)"

definition root_node :: "exfat_super_block \<Rightarrow> exfat_node" where
  "root_node sb = zero_node\<lparr>nd_attrib := EXFAT_ATTRIB_DIR, nd_start_cluster := sb_rootdir_cluster sb,
     nd_fptr_cluster := sb_rootdir_cluster sb\<rparr>"

text \<open>The label \<open>error\<close> of \<open>exfat_mount\<close>.\<close>

definition mount_error :: "exfat \<Rightarrow> fault + (retcode \<times> exfat option)" where
  "mount_error ef =
     andThen (exfat_put_node ef (ef_root ef)) (\<lambda>ef.
       andThen (exfat_reset_cache ef) (\<lambda>ef. Inr (EIO, Some ef)))"

definition mount_root :: "exfat \<Rightarrow> fault + (retcode \<times> exfat option)" where
  "mount_root ef =
     (case allocate_node ef of
        None \<Rightarrow> Inr (ENOMEM, Some ef)
      | Some (p, ef) \<Rightarrow>
          let root = root_node (ef_sb ef); ef = ef\<lparr>ef_root := p\<rparr> in
          andThen (rootdir_size ef root) (\<lambda>sz.
            if sz = 0 then Inr (EIO, Some ef)
            else andThen (exfat_get_node (put_node_at ef p (root\<lparr>nd_size := sz\<rparr>)) p) (\<lambda>ef.
              andThen (exfat_cache_directory ef p) (\<lambda>(rc, ef).
                if rc \<noteq> RC0 then mount_error ef
                else if ef_upcase ef = [] then mount_error ef
                else if cmap_chunk ef = [] then mount_error ef
                else (case prepare_super_block ef of
                    (ok, ef) \<Rightarrow> if \<not> ok then mount_error ef else Inr (RC0, Some ef))))))"

text \<open>
  The result is the code and the file system; \<^const>\<open>None\<close> when no device was opened. After a
  failure the code has freed everything the structure points to.
\<close>

definition exfat_mount :: "mount_env \<Rightarrow> string \<Rightarrow> string \<Rightarrow> fault + (retcode \<times> exfat option)" where
  "exfat_mount env spec options =
     (let mode = (if match_option options ''ro'' then EXFAT_MODE_RO
                  else if match_option options ''ro_fallback'' then EXFAT_MODE_ANY
                  else EXFAT_MODE_RW) in
      case exfat_open (env_null_ok env) (env_std env) (env_malloc_ok env 16) (env_file env spec) mode of
        None \<Rightarrow> Inr (EIO, None)
      | Some d \<Rightarrow>
          let ef = parse_options (env_euid env) (env_egid env) (zero_exfat env d) options;
              ef = (if exfat_get_mode d = EXFAT_MODE_RO
                    then ef\<lparr>ef_ro := (if mode = EXFAT_MODE_ANY then - 1 else 1)\<rparr> else ef) in
          if \<not> ef_malloc_ok ef 512 then Inr (ENOMEM, Some ef)
          else (case pread_into d (replicate 512 0) 0 of
              None \<Rightarrow> Inr (EIO, Some ef)
            | Some bs \<Rightarrow>
                let ef = ef\<lparr>ef_sb := decode_super_block bs\<rparr> in
                if check_super_block_early (ef_sb ef) \<noteq> RC0 then Inr (EIO, Some ef)
                else if \<not> ef_malloc_ok ef (CLUSTER_SIZE (ef_sb ef)) then Inr (ENOMEM, Some ef)
                else (case verify_vbr_checksum ef (junk ef (CLUSTER_SIZE (ef_sb ef))) of
                  (ok, ef) \<Rightarrow>
                    if \<not> ok then Inr (EIO, Some ef)
                    else if check_super_block_late ef \<noteq> RC0 then Inr (EIO, Some ef)
                    else mount_root ef)))"

section \<open>Unmounting\<close>

text \<open>\<open>((total - free) * 100 + total / 2) / total\<close>, all in 32 bits.\<close>

definition percent_allocated :: "u32 \<Rightarrow> u32 \<Rightarrow> u32" where
  "percent_allocated total_clusters free_count =
     ((total_clusters - free_count) * 100 + total_clusters div 2) div total_clusters"

definition finalize_super_block :: "exfat \<Rightarrow> fault + exfat" where
  "finalize_super_block ef =
     (if ef_ro ef \<noteq> 0 then Inr ef
      else let sb = (ef_sb ef)\<lparr>sb_volume_state := sb_volume_state (ef_sb ef) AND NOT EXFAT_STATE_MOUNTED\<rparr> in
        andThen (if sb_allocated_percent sb \<noteq> 0xff then
                   andThen (exfat_count_free_clusters (ef\<lparr>ef_sb := sb\<rparr>)) (\<lambda>free.
                     if sb_cluster_count sb = 0 then Inl Undef
                     else Inr (sb\<lparr>sb_allocated_percent := ucast (percent_allocated (sb_cluster_count sb) free)\<rparr>))
                 else Inr sb)
          (\<lambda>sb. Inr (snd (commit_super_block (ef\<lparr>ef_sb := sb\<rparr>)))))"

definition exfat_unmount :: "exfat \<Rightarrow> fault + exfat" where
  "exfat_unmount ef =
     andThen (exfat_flush_nodes ef) (\<lambda>(_, ef).
     andThen (exfat_flush ef) (\<lambda>(_, ef).
     andThen (exfat_put_node ef (ef_root ef)) (\<lambda>ef.
     andThen (exfat_reset_cache ef) finalize_super_block)))"

end
