(* ===== verification/VtoyLinux.thy ===== *)
theory VtoyLinux
  imports OsParam Mount
begin

text \<open>
  The Linux tool (vtoydump_linux.c and the entry point of lsexfat.c): finding the parameter
  block, finding the disk it names, and printing the image location. What the tool reads of
  the system is a record; what it prints on standard output is a list of lines. What
  the calls of \<open>debug\<close> in a function \<open>f\<close> print with -v is a definition of its own, \<open>f_debug\<close>.
  Messages on the standard error are not modelled.
\<close>

section \<open>The system\<close>

text \<open>
  \<open>lx_exists\<close> is \<open>access(path, F_OK) >= 0\<close>; \<open>lx_file\<close> the contents of a file that opens for
  reading; \<open>lx_mapped\<close> the address \<open>mmap\<close> returns for a range and \<open>lx_show_ptr\<close> what %p prints of an
  address; \<open>lx_blksize\<close> the \<open>BLKGETSIZE64\<close> of a device; \<open>lx_sys_block\<close> the names in
  /sys/block; \<open>lx_dev_mem\<close> what mapping a range of /dev/mem gives when it can be opened, and
  \<open>lx_errno\<close> the error number of a failed call.
\<close>

record linux =
  lx_exists :: "string \<Rightarrow> bool"
  lx_file :: "string \<Rightarrow> u8 list option"
  lx_blksize :: "string \<Rightarrow> u64 option"
  lx_sys_block :: "string list option"
  lx_dev_mem :: "(nat \<Rightarrow> nat \<Rightarrow> u8 list option) option"
  lx_mapped :: "nat \<Rightarrow> nat \<Rightarrow> nat"
  lx_show_ptr :: "nat \<Rightarrow> string"
  lx_errno :: int
  lx_junk :: "nat \<Rightarrow> u8"
  lx_mount :: mount_env

text \<open>\<open>read\<close> at an offset into a buffer; \<open>snprintf\<close> into \<open>n\<close> bytes.\<close>

definition read_at :: "u8 list \<Rightarrow> nat \<Rightarrow> u8 list \<Rightarrow> nat \<times> u8 list" where
  "read_at content off buf =
     (let bs = take (length buf) (drop off content) in (length bs, bs @ drop (length bs) buf))"

definition snprintf :: "nat \<Rightarrow> string \<Rightarrow> string" where
  "snprintf n s = take (n - 1) s"

fun show_nat :: "nat \<Rightarrow> string" where
  "show_nat n = (if n < 10 then [char_of (48 + n)] else show_nat (n div 10) @ [char_of (48 + n mod 10)])"

declare show_nat.simps [simp del]

text \<open>%d, %x in lower case, and %0kx.\<close>

definition show_int :: "int \<Rightarrow> string" where
  "show_int i = (if i < 0 then ''-'' @ show_nat (nat (- i)) else show_nat (nat i))"

fun show_hex :: "nat \<Rightarrow> string" where
  "show_hex n =
     (let digit = (\<lambda>d. [char_of (if d < 10 then 48 + d else 87 + d)]) in
      if n < 16 then digit n else show_hex (n div 16) @ digit (n mod 16))"

declare show_hex.simps [simp del]

definition pad0 :: "nat \<Rightarrow> string \<Rightarrow> string" where
  "pad0 k s = replicate (k - length s) (CHR ''0'') @ s"

text \<open>The macro \<open>debug\<close>: the lines it prints.\<close>

definition debug :: "bool \<Rightarrow> string list \<Rightarrow> string list" where
  "debug verbose msgs = (if verbose then msgs else [])"

text \<open>\<open>strtoull\<close> in base 10; a minus sign negates modulo 2^64.\<close>

definition strtoull :: "u8 list \<Rightarrow> u64" where
  "strtoull bs =
     (let t = dropWhile is_blank (map (\<lambda>b. char_of (unat b)) bs);
          u = (if t \<noteq> [] \<and> (hd t = CHR ''-'' \<or> hd t = CHR ''+'') then tl t else t);
          v = digits_value 10 u
      in if v \<ge> 2 ^ 64 then - 1
         else if t \<noteq> [] \<and> hd t = CHR ''-'' then - word_of_nat v else word_of_nat v)"

section \<open>Finding the parameter block\<close>

definition SYS_EFI :: string where "SYS_EFI = ''/sys/firmware/efi''"
definition VENTOY_OS_EFIVAR :: string where
  "VENTOY_OS_EFIVAR = ''VentoyOsParam-77772020-2e77-6576-6e74-6f792e6e6574''"
definition VENTOY_SYS_ACPI :: string where "VENTOY_SYS_ACPI = ''/sys/firmware/acpi/tables/VTOY''"

abbreviation SEARCH_MEM_START :: nat where "SEARCH_MEM_START \<equiv> 0x80000"
abbreviation SEARCH_MEM_LEN :: nat where "SEARCH_MEM_LEN \<equiv> 0x20000"
abbreviation acpi_header_size :: nat where "acpi_header_size \<equiv> 36"

text \<open>Each source returns its code (0 for success) and the block.\<close>

definition vtoy_os_param_from_acpi :: "linux \<Rightarrow> ventoy_os_param \<Rightarrow> fault + (int \<times> ventoy_os_param)" where
  "vtoy_os_param_from_acpi lx param =
     (if \<not> lx_exists lx VENTOY_SYS_ACPI then Inr (1, param)
      else let param = replicate 512 0 in
        (case lx_file lx VENTOY_SYS_ACPI of
           None \<Rightarrow> Inr (1, param)
         | Some content \<Rightarrow>
             let param = snd (read_at content acpi_header_size param) in
             andThen (vtoy_check_os_param param) (\<lambda>ok. Inr (if ok then 0 else 1, param))))"

definition vtoy_os_param_from_efivar :: "linux \<Rightarrow> ventoy_os_param \<Rightarrow> fault + (int \<times> ventoy_os_param)" where
  "vtoy_os_param_from_efivar lx param =
     (let new_path = SYS_EFI @ ''/efivars/'' @ VENTOY_OS_EFIVAR;
          old_path = SYS_EFI @ ''/vars/'' @ VENTOY_OS_EFIVAR @ ''/data'';
          newfmt = lx_exists lx new_path in
      if \<not> newfmt \<and> \<not> lx_exists lx old_path then Inr (1, param)
      else (case lx_file lx (if newfmt then new_path else old_path) of
          None \<Rightarrow> Inr (1, param)
        | Some content \<Rightarrow>
            (case read_at content (if newfmt then 4 else 0) param of (len, param) \<Rightarrow>
               andThen (if len = 512 then vtoy_check_os_param param else Inr False) (\<lambda>ok.
                 if ok then Inr (0, param) else Inr (1, replicate 512 0)))))"

text \<open>The search of the mapped memory at offset \<open>i\<close>, for \<open>k\<close> more offsets.\<close>

primrec phymem_loop :: "u8 list \<Rightarrow> nat \<Rightarrow> nat \<Rightarrow> fault + nat option" where
  "phymem_loop mapbuf i 0 = Inr None"
| "phymem_loop mapbuf i (Suc k) =
     andThen (vtoy_check_os_param (drop i mapbuf)) (\<lambda>ok.
       if ok then Inr (Some i) else phymem_loop mapbuf (i + 16) k)"

definition vtoy_os_param_from_phymem :: "linux \<Rightarrow> ventoy_os_param \<Rightarrow> fault + (int \<times> ventoy_os_param)" where
  "vtoy_os_param_from_phymem lx param =
     (case lx_dev_mem lx of
        None \<Rightarrow> Inr (lx_errno lx, param)
      | Some map_mem \<Rightarrow>
          (case map_mem SEARCH_MEM_START SEARCH_MEM_LEN of
             None \<Rightarrow> Inr (lx_errno lx, param)
           | Some mapbuf \<Rightarrow>
               andThen (phymem_loop mapbuf 0 (SEARCH_MEM_LEN div 16)) (\<lambda>r.
                 case r of
                   None \<Rightarrow> Inr (1, param)
                 | Some i \<Rightarrow> Inr (0, take 512 (drop i mapbuf)))))"

subsection \<open>What it prints with -v\<close>

definition vtoy_check_os_param_debug :: "u8 list \<Rightarrow> string list" where
  "vtoy_check_os_param_debug mem =
     (let chksum = sum_list (take 512 mem) in
      if take 16 mem \<noteq> VENTOY_GUID \<or> chksum = 0 then []
      else [''Invalid checksum 0x'' @ pad0 2 (show_hex (unat chksum))])"

definition vtoy_os_param_from_acpi_debug :: "linux \<Rightarrow> string list" where
  "vtoy_os_param_from_acpi_debug lx =
     [''vtoy_os_param_from_acpi '' @ VENTOY_SYS_ACPI] @
     (if \<not> lx_exists lx VENTOY_SYS_ACPI then [''VTOY acpi table NOT exist'']
      else (case lx_file lx VENTOY_SYS_ACPI of
          None \<Rightarrow> [''failed to open VTOY acpi table '' @ show_int (lx_errno lx)]
        | Some content \<Rightarrow> vtoy_check_os_param_debug (snd (read_at content acpi_header_size (replicate 512 0)))))"

definition vtoy_os_param_from_efivar_debug :: "linux \<Rightarrow> ventoy_os_param \<Rightarrow> string list" where
  "vtoy_os_param_from_efivar_debug lx param =
     (let new_path = SYS_EFI @ ''/efivars/'' @ VENTOY_OS_EFIVAR;
          old_path = SYS_EFI @ ''/vars/'' @ VENTOY_OS_EFIVAR @ ''/data'';
          newfmt = lx_exists lx new_path;
          path = (if newfmt then new_path else old_path) in
      [''vtoy_os_param_from_efivar '' @ new_path] @
      (if newfmt then [] else [new_path @ '' NOT exist'']) @
      (if \<not> newfmt \<and> \<not> lx_exists lx old_path then [old_path @ '' NOT exist'']
       else (case lx_file lx path of
           None \<Rightarrow> [''failed to open '' @ path @ '' '' @ show_int (lx_errno lx)]
         | Some content \<Rightarrow>
             (case read_at content (if newfmt then 4 else 0) param of (len, param) \<Rightarrow>
                if len = 512 then vtoy_check_os_param_debug param
                else [''read '' @ path @ '' fail, '' @ show_nat len]))))"

primrec phymem_loop_debug :: "(nat \<Rightarrow> string) \<Rightarrow> u8 list \<Rightarrow> nat \<Rightarrow> nat \<Rightarrow> string list" where
  "phymem_loop_debug show_at mapbuf i 0 = []"
| "phymem_loop_debug show_at mapbuf i (Suc k) =
     vtoy_check_os_param_debug (drop i mapbuf) @
     (if vtoy_check_os_param (drop i mapbuf) = Inr True
      then [''find ventoy os pararm at '' @ show_at i @ '' offset '' @ show_nat i @
            '' phymem:0x'' @ pad0 8 (show_hex (SEARCH_MEM_START + i))]
      else phymem_loop_debug show_at mapbuf (i + 16) k)"

definition vtoy_os_param_from_phymem_debug :: "linux \<Rightarrow> string list" where
  "vtoy_os_param_from_phymem_debug lx =
     (case lx_dev_mem lx of
        None \<Rightarrow> []
      | Some map_mem \<Rightarrow>
          (case map_mem SEARCH_MEM_START SEARCH_MEM_LEN of
             None \<Rightarrow> []
           | Some mapbuf \<Rightarrow>
               let show_at = (\<lambda>i. lx_show_ptr lx (lx_mapped lx SEARCH_MEM_START SEARCH_MEM_LEN + i)) in
               [''map memory 0x'' @ show_hex SEARCH_MEM_START @ '' at '' @ show_at 0] @
               phymem_loop_debug show_at mapbuf 0 (SEARCH_MEM_LEN div 16)))"

section \<open>Finding the disk\<close>

definition vtoy_get_disk_guid ::
    "linux \<Rightarrow> string \<Rightarrow> u8 list \<Rightarrow> u8 list \<Rightarrow> int \<times> u8 list \<times> u8 list" where
  "vtoy_get_disk_guid lx diskname vtguid vtsig =
     (case lx_file lx (snprintf 255 (''/dev/'' @ diskname)) of
        Some content \<Rightarrow> (0, snd (read_at content 0x180 vtguid), snd (read_at content 0x1b8 vtsig))
      | None \<Rightarrow> (lx_errno lx, vtguid, vtsig))"

definition vtoy_get_disk_size_in_byte :: "linux \<Rightarrow> string \<Rightarrow> u64" where
  "vtoy_get_disk_size_in_byte lx disk =
     (let sysfs = snprintf 255 (''/sys/block/'' @ disk @ ''/size'');
          dev = snprintf 255 (''/dev/'' @ disk);
          by_ioctl = (if lx_file lx dev = None then 0
                      else (case lx_blksize lx dev of None \<Rightarrow> 0 | Some z \<Rightarrow> z)) in
      if lx_exists lx sysfs then
        (case lx_file lx sysfs of
           Some content \<Rightarrow> strtoull (snd (read_at content 0 (replicate 64 0))) * 512
         | None \<Rightarrow> by_ioctl)
      else by_ioctl)"

definition vtoy_is_possible_blkdev :: "string \<Rightarrow> bool" where
  "vtoy_is_possible_blkdev name \<longleftrightarrow>
     take 1 name \<noteq> ''.'' \<and> take 3 name \<noteq> ''ram'' \<and> take 4 name \<noteq> ''loop'' \<and>
     take 3 name \<noteq> ''dm-'' \<and> take 2 name \<noteq> ''sr''"

text \<open>The loops over the names: the last match is kept, and the number of matches.\<close>

fun by_size_loop :: "linux \<Rightarrow> u64 \<Rightarrow> nat \<Rightarrow> string list \<Rightarrow> string \<Rightarrow> nat \<Rightarrow> nat \<times> string" where
  "by_size_loop lx sz buflen [] diskname rc = (rc, diskname)"
| "by_size_loop lx sz buflen (name # names) diskname rc =
     (if \<not> vtoy_is_possible_blkdev name then by_size_loop lx sz buflen names diskname rc
      else if vtoy_get_disk_size_in_byte lx name = sz
      then by_size_loop lx sz buflen names (snprintf buflen name) (rc + 1)
      else by_size_loop lx sz buflen names diskname rc)"

definition vtoy_find_disk_by_size :: "linux \<Rightarrow> u64 \<Rightarrow> string \<Rightarrow> nat \<Rightarrow> nat \<times> string" where
  "vtoy_find_disk_by_size lx sz diskname buflen =
     (case lx_sys_block lx of
        None \<Rightarrow> (0, diskname)
      | Some names \<Rightarrow> by_size_loop lx sz buflen names diskname 0)"

definition right_disk :: "ventoy_os_param \<Rightarrow> u8 list \<Rightarrow> u8 list \<Rightarrow> bool" where
  "right_disk param vtguid vtsig \<longleftrightarrow> vtguid = param_disk_guid param \<and> vtsig = param_disk_signature param"

text \<open>The signature buffer is not cleared between two disks.\<close>

fun by_guid_loop ::
    "linux \<Rightarrow> ventoy_os_param \<Rightarrow> nat \<Rightarrow> string list \<Rightarrow> u8 list \<Rightarrow> string \<Rightarrow> nat \<Rightarrow> nat \<times> string" where
  "by_guid_loop lx param buflen [] vtsig diskname cnt = (cnt, diskname)"
| "by_guid_loop lx param buflen (name # names) vtsig diskname cnt =
     (if \<not> vtoy_is_possible_blkdev name then by_guid_loop lx param buflen names vtsig diskname cnt
      else (case vtoy_get_disk_guid lx name (replicate 16 0) vtsig of (rc, vtguid, vtsig) \<Rightarrow>
        if rc = 0 \<and> right_disk param vtguid vtsig
        then by_guid_loop lx param buflen names vtsig (snprintf buflen name) (cnt + 1)
        else by_guid_loop lx param buflen names vtsig diskname cnt))"

definition vtoy_find_disk_by_guid :: "linux \<Rightarrow> ventoy_os_param \<Rightarrow> string \<Rightarrow> nat \<Rightarrow> nat \<times> string" where
  "vtoy_find_disk_by_guid lx param diskname buflen =
     (case lx_sys_block lx of
        None \<Rightarrow> (0, diskname)
      | Some names \<Rightarrow> by_guid_loop lx param buflen names (map (lx_junk lx) [0..<4]) diskname 0)"

definition vtoy_check_device :: "linux \<Rightarrow> ventoy_os_param \<Rightarrow> string \<Rightarrow> int" where
  "vtoy_check_device lx param device =
     (case vtoy_get_disk_guid lx device (replicate 16 0) (replicate 4 0) of (_, vtguid, vtsig) \<Rightarrow>
        if right_disk param vtguid vtsig then 0 else 1)"

definition vtoy_find_disk :: "linux \<Rightarrow> ventoy_os_param \<Rightarrow> string \<Rightarrow> nat \<Rightarrow> int \<times> string" where
  "vtoy_find_disk lx param diskname buflen =
     (case vtoy_find_disk_by_size lx (param_disk_size param) diskname buflen of (cnt, diskname) \<Rightarrow>
        case (if cnt = 1 then
                (if vtoy_check_device lx param diskname \<noteq> 0 then (0, diskname) else (cnt, diskname))
              else vtoy_find_disk_by_guid lx param diskname buflen) of (cnt, diskname) \<Rightarrow>
          if cnt > 1 then (1, diskname) else if cnt = 0 then (1, diskname) else (0, diskname))"

subsection \<open>What it prints with -v\<close>

definition vtoy_get_disk_guid_debug :: "linux \<Rightarrow> string \<Rightarrow> u8 list \<Rightarrow> string list" where
  "vtoy_get_disk_guid_debug lx diskname vtguid =
     (let devdisk = snprintf 255 (''/dev/'' @ diskname) in
      case lx_file lx devdisk of
        Some content \<Rightarrow> [''GUID for '' @ devdisk @ '': <'' @
          concat (map (\<lambda>b. pad0 2 (show_hex (unat b))) (snd (read_at content 0x180 vtguid))) @ ''>'']
      | None \<Rightarrow> [''failed to open '' @ devdisk @ '' '' @ show_int (lx_errno lx)])"

definition vtoy_get_disk_size_in_byte_debug :: "linux \<Rightarrow> string \<Rightarrow> string list" where
  "vtoy_get_disk_size_in_byte_debug lx disk =
     (let sysfs = snprintf 255 (''/sys/block/'' @ disk @ ''/size'');
          dev = snprintf 255 (''/dev/'' @ disk);
          by_ioctl = (if lx_file lx dev = None
              then [''failed to open '' @ dev @ '' '' @ show_int (lx_errno lx), ''disk '' @ disk @ '' size 0 bytes'']
              else [''get disk size from ioctl for '' @ disk] @
                (case lx_blksize lx dev of
                   None \<Rightarrow> [''failed to ioctl -1'', ''disk '' @ disk @ '' size 0 bytes'']
                 | Some z \<Rightarrow> [''disk '' @ disk @ '' size '' @ show_nat (unat z) @ '' bytes''])) in
      if lx_exists lx sysfs then
        [''get disk size from sysfs for '' @ disk] @ (if lx_file lx sysfs = None then by_ioctl else [])
      else [sysfs @ '' not exist ''] @ by_ioctl)"

definition vtoy_find_disk_by_size_debug :: "linux \<Rightarrow> string list" where
  "vtoy_find_disk_by_size_debug lx =
     (case lx_sys_block lx of
        None \<Rightarrow> []
      | Some names \<Rightarrow> concat (map (\<lambda>name.
          if \<not> vtoy_is_possible_blkdev name then [''disk '' @ name @ '' is filted by name'']
          else vtoy_get_disk_size_in_byte_debug lx name @
            [''disk '' @ name @ '' size '' @ show_nat (unat (vtoy_get_disk_size_in_byte lx name))]) names))"

definition vtoy_find_disk_by_guid_debug :: "linux \<Rightarrow> string list" where
  "vtoy_find_disk_by_guid_debug lx =
     (case lx_sys_block lx of
        None \<Rightarrow> []
      | Some names \<Rightarrow> concat (map (\<lambda>name.
          if \<not> vtoy_is_possible_blkdev name then [''disk '' @ name @ '' is filted by name'']
          else vtoy_get_disk_guid_debug lx name (replicate 16 0)) names))"

definition vtoy_check_device_debug :: "linux \<Rightarrow> ventoy_os_param \<Rightarrow> string \<Rightarrow> string list" where
  "vtoy_check_device_debug lx param device =
     [''vtoy_check_device for <'' @ device @ ''>''] @
     vtoy_get_disk_guid_debug lx device (replicate 16 0) @
     [''<'' @ device @ (if vtoy_check_device lx param device = 0 then ''> is right ventoy disk'' else ''> is NOT right ventoy disk'')]"

definition vtoy_find_disk_debug :: "linux \<Rightarrow> ventoy_os_param \<Rightarrow> string \<Rightarrow> nat \<Rightarrow> string list" where
  "vtoy_find_disk_debug lx param diskname buflen =
     (case vtoy_find_disk_by_size lx (param_disk_size param) diskname buflen of (cnt, diskname) \<Rightarrow>
        vtoy_find_disk_by_size_debug lx @
        [''find disk by size '' @ show_nat (unat (param_disk_size param)) @ '', cnt='' @ show_nat cnt @ ''...''] @
        (if cnt = 1 then vtoy_check_device_debug lx param diskname
         else vtoy_find_disk_by_guid_debug lx @
           [''find disk by guid cnt='' @ show_nat (fst (vtoy_find_disk_by_guid lx param diskname buflen)) @ ''...'']))"

section \<open>Where the image lies\<close>

text \<open>A location is \<^const>\<open>None\<close> or the bytes of a table in memory.\<close>

definition ventoy_get_location_by_phymem :: "linux \<Rightarrow> ventoy_os_param \<Rightarrow> u8 list option" where
  "ventoy_get_location_by_phymem lx param =
     (let addr = unat (param_img_location_addr param); len = unat (param_img_location_len param) in
      if addr = 0 \<or> len = 0 then None
      else if \<not> env_malloc_ok (lx_mount lx) len then None
      else (case lx_dev_mem lx of
          None \<Rightarrow> None
        | Some map_mem \<Rightarrow> map_option (take len) (map_mem addr len)))"

definition ventoy_get_location_by_acpi :: "linux \<Rightarrow> fault + u8 list option" where
  "ventoy_get_location_by_acpi lx =
     andThen (vtoy_os_param_from_acpi lx (map (lx_junk lx) [0..<512])) (\<lambda>(rc, acpiparam).
       let len = unat (param_img_location_len acpiparam) in
       Inr (if rc \<noteq> 0 then None
            else if len = 0 then None
            else if \<not> env_malloc_ok (lx_mount lx) len then None
            else (case lx_file lx VENTOY_SYS_ACPI of
                None \<Rightarrow> None
              | Some content \<Rightarrow>
                  Some (snd (read_at content (acpi_header_size + 512) (map (lx_junk lx) [0..<len]))))))"

definition ventoy_get_location_by_lsexfat ::
    "mount_env \<Rightarrow> string \<Rightarrow> nat \<Rightarrow> u8 list \<Rightarrow> fault + ventoy_image_location option" where
  "ventoy_get_location_by_lsexfat env diskname part filename =
     andThen (exfat_mount env (snprintf 127 (''/dev/'' @ diskname @ show_nat part)) ''ro'') (\<lambda>(rc, ef).
       if rc \<noteq> RC0 then Inr None
       else (case ef of None \<Rightarrow> Inl Undef | Some ef \<Rightarrow>
         andThen (exfat_lookup ef filename) (\<lambda>(rc, node, ef).
           andThen (if rc = RC0 then
               (case node of None \<Rightarrow> Inl Undef | Some p \<Rightarrow>
                 andThen (node_at ef p) (\<lambda>n.
                 andThen (exfat_get_image_location ef n \<lparr>g_image_max_region = 0, g_image_location = None\<rparr>)
                   (\<lambda>(rc, n, g). andThen (exfat_put_node (put_node_at ef p n) p) (\<lambda>ef.
                      Inr (rc, g_image_location g, ef)))))
             else Inr (rc, None, ef)) (\<lambda>(rc, location, ef).
               andThen (exfat_unmount ef) (\<lambda>_. Inr (if rc = RC0 then location else None))))))"

definition strstr_in :: "string \<Rightarrow> string \<Rightarrow> bool" where
  "strstr_in pat s = list_ex (\<lambda>i. take (length pat) (drop i s) = pat) [0..<length s + 1]"

text \<open>
  A line of the table: start, count and disk start in sectors of the disk, the last relative
  to the partition.
\<close>

definition table_line :: "bool \<Rightarrow> string \<Rightarrow> nat \<Rightarrow> u32 \<Rightarrow> u32 \<Rightarrow> u64 \<Rightarrow> ventoy_image_disk_region \<Rightarrow> string" where
  "table_line partflag dmdisk part image_sector disk_sector partstart r =
     (let scaled = (\<lambda>x :: u32. (ucast x :: u64) * ucast image_sector div ucast disk_sector) in
      show_nat (unat (scaled (rg_image_start_sector r))) @ '' '' @
      show_nat (unat (scaled (rg_image_sector_count r))) @ '' linear '' @
      dmdisk @ (if partflag then ''p'' else '''') @ show_nat part @ '' '' @
      show_nat (unat (rg_disk_start_sector r - partstart)))"

text \<open>The loop over the regions; a division by a sector size of 0 and a region outside the block are undefined.\<close>

definition print_table :: "bool \<Rightarrow> string \<Rightarrow> nat \<Rightarrow> u64 \<Rightarrow> u8 list \<Rightarrow> fault + string list" where
  "print_table partflag dmdisk part partstart location =
     (let image_sector = le32_to_cpu (slice_of 16 4 location);
          disk_sector = le32_to_cpu (slice_of 20 4 location);
          region_count = unat (le32_to_cpu (slice_of 24 4 location));
          n = (if region_count < 2 ^ 31 then region_count else 0) in
      if length location < 28 then Inl Undef
      else if n = 0 then Inr []
      else if disk_sector = 0 then Inl Undef
      else if length location < 28 + 16 * n then Inl Undef
      else Inr (map (\<lambda>i. table_line partflag dmdisk part image_sector disk_sector partstart (region_at location i))
                  [0..<n]))"

definition part_start :: "linux \<Rightarrow> string \<Rightarrow> u64" where
  "part_start lx sysstart =
     (if \<not> lx_exists lx sysstart then 2048
      else (case lx_file lx sysstart of
          None \<Rightarrow> 2048
        | Some content \<Rightarrow> strtoull (snd (read_at content 0 (replicate 64 0)))))"

text \<open>
  The location, with the device name the table is printed with: \<open>dmdisk\<close> is overwritten with
  the name of the partition when the file system has to be read.
\<close>

definition find_location :: "linux \<Rightarrow> ventoy_os_param \<Rightarrow> string \<Rightarrow> fault + (string \<times> u8 list option)" where
  "find_location lx param diskname =
     (let dmdisk = snprintf 255 (''/dev/'' @ diskname); part = unat (param_disk_part_id param) in
      case ventoy_get_location_by_phymem lx param of
        Some l \<Rightarrow> Inr (dmdisk, Some l)
      | None \<Rightarrow>
          andThen (ventoy_get_location_by_acpi lx) (\<lambda>l.
            case l of
              Some l \<Rightarrow> Inr (dmdisk, Some l)
            | None \<Rightarrow>
                if param_disk_part_type param \<noteq> 0 then Inr (dmdisk, None)
                else andThen (img_path_string param) (\<lambda>path.
                  andThen (ventoy_get_location_by_lsexfat (lx_mount lx) diskname part path) (\<lambda>l.
                    Inr (snprintf 255 (''/dev/'' @ diskname @ show_nat part), map_option encode_location l)))))"

definition ventoy_get_location_by_phymem_debug :: "linux \<Rightarrow> ventoy_os_param \<Rightarrow> string list" where
  "ventoy_get_location_by_phymem_debug lx param =
     (let addr = unat (param_img_location_addr param); len = unat (param_img_location_len param);
          mapbuf = lx_show_ptr lx (lx_mapped lx addr len) in
      [''get image location by phymem''] @
      (if addr = 0 \<or> len = 0 then []
       else if \<not> env_malloc_ok (lx_mount lx) len then []
       else (case lx_dev_mem lx of
           None \<Rightarrow> [''Failed to open memory device /dev/mem '' @ show_int (lx_errno lx)]
         | Some map_mem \<Rightarrow>
             (if map_mem addr len = None
              then [''mmap failed, NULL '' @ show_int (lx_errno lx) @ '' 0x'' @ show_hex addr @ '' '' @ mapbuf]
              else [''map memory 0x'' @ show_hex addr @ '' at '' @ mapbuf]))))"

definition ventoy_get_location_by_acpi_debug :: "linux \<Rightarrow> ventoy_os_param \<Rightarrow> string list" where
  "ventoy_get_location_by_acpi_debug lx param =
     (let where_is = (\<lambda>name p. name @ '': [0x'' @ show_hex (unat (param_img_location_addr p)) @ '' '' @
        show_nat (unat (param_img_location_len p)) @ '']'') in
      [''get image location by acpi''] @ vtoy_os_param_from_acpi_debug lx @
      (case vtoy_os_param_from_acpi lx (map (lx_junk lx) [0..<512]) of
         Inl _ \<Rightarrow> []
       | Inr (rc, acpiparam) \<Rightarrow>
           if rc \<noteq> 0 then []
           else [where_is ''param->vtoy_img_location'' param, where_is ''acpiparam.vtoy_img_location'' acpiparam] @
             (let len = unat (param_img_location_len acpiparam) in
              if len = 0 \<or> \<not> env_malloc_ok (lx_mount lx) len then []
              else if lx_file lx VENTOY_SYS_ACPI = None
              then [''Failed to open '' @ VENTOY_SYS_ACPI @ '' '' @ show_int (lx_errno lx)] else [])))"

definition find_location_debug :: "linux \<Rightarrow> ventoy_os_param \<Rightarrow> string list" where
  "find_location_debug lx param =
     ventoy_get_location_by_phymem_debug lx param @
     (if ventoy_get_location_by_phymem lx param \<noteq> None then []
      else ventoy_get_location_by_acpi_debug lx param @
        (if ventoy_get_location_by_acpi lx = Inr None \<and> param_disk_part_type param = 0
         then [''get image location by fs tool''] else []))"

definition part_start_debug :: "linux \<Rightarrow> string \<Rightarrow> string list" where
  "part_start_debug lx sysstart =
     [if lx_exists lx sysstart then ''get part start from sysfs for '' @ sysstart else sysstart @ '' not exist '']"

definition vtoy_print_image_location ::
    "linux \<Rightarrow> bool \<Rightarrow> nat \<Rightarrow> ventoy_os_param \<Rightarrow> string \<Rightarrow> fault + (int \<times> string list)" where
  "vtoy_print_image_location lx verbose format param diskname =
     andThen (find_location lx param diskname) (\<lambda>(dmdisk, location).
       let searched = debug verbose (find_location_debug lx param) in
       case location of
         None \<Rightarrow> Inr (1, searched)
       | Some loc \<Rightarrow>
           if length loc < 16 then Inl Undef
           else if take 16 loc \<noteq> VENTOY_GUID then Inr (1, searched)
           else let part = unat (param_disk_part_id param);
                    partflag = (strstr_in ''nvme'' diskname \<or> strstr_in ''mmc'' diskname \<or> strstr_in ''nbd'' diskname);
                    sysstart = snprintf 255 (''/sys/class/block/'' @ diskname @
                                 (if partflag then ''p'' else '''') @ show_nat part @ ''/start'') in
             andThen (print_table partflag dmdisk part (part_start lx sysstart) loc) (\<lambda>table.
               Inr (0, searched @ (if format = 1 then [''=== ventoy image location ===''] else []) @
                  debug verbose (part_start_debug lx sysstart) @ table)))"

section \<open>The program\<close>

definition vtoy_fs_type :: "string list" where
  "vtoy_fs_type = [''exfat'', ''ntfs'', ''ext'', ''xfs'', ''udf'', ''fat'']"

definition vtoy_print_os_param :: "ventoy_os_param \<Rightarrow> string \<Rightarrow> fault + string list" where
  "vtoy_print_os_param param diskname =
     (let t = unat (param_disk_part_type param);
          fs = (if t < length vtoy_fs_type then vtoy_fs_type ! t else ''unknown'') in
      andThen (img_path_string param) (\<lambda>path. Inr
       [''=== ventoy runtime data ==='',
        ''disk name : /dev/'' @ diskname,
        ''disk size : '' @ show_nat (unat (param_disk_size param)),
        ''disk part : '' @ show_nat (unat (param_disk_part_id param)),
        ''filesystem: '' @ fs,
        ''image size: '' @ show_nat (unat (param_img_size param)),
        ''image path: '' @ map (\<lambda>b. char_of (unat b)) path]))"

definition print_usage :: "string list" where
  "print_usage =
     [''Usage: vtoydump [ -lL ] [ -v ]'',
      ''  none   Only print ventoy runtime data'',
      ''  -l     Print ventoy runtime data and image location table'',
      ''  -L     Only print image location table (used to generate dmsetup table)'',
      ''  -c     Check whether ventoy runtime data exist'',
      ''  -v     Verbose, print additional debug info'',
      ''  -h     Print this help info'',
      '''']"

text \<open>
  The options \<open>getopt\<close> delivers: the result is the exit status with the output when one of
  them ends the program, else the format, whether only a check is wanted, and \<open>verbose\<close>.
\<close>

fun parse_args :: "char list \<Rightarrow> nat \<Rightarrow> bool \<Rightarrow> bool \<Rightarrow> (int \<times> string list) + (nat \<times> bool \<times> bool)" where
  "parse_args [] format check verbose = Inr (format, check, verbose)"
| "parse_args (ch # chs) format check verbose =
     (if ch = CHR ''l'' then parse_args chs 1 check verbose
      else if ch = CHR ''L'' then parse_args chs 2 check verbose
      else if ch = CHR ''c'' then parse_args chs format True verbose
      else if ch = CHR ''v'' then parse_args chs format check True
      else if ch = CHR ''h'' then Inl (0, print_usage)
      else Inl (1, []))"

definition find_os_param :: "linux \<Rightarrow> fault + (int \<times> ventoy_os_param)" where
  "find_os_param lx =
     andThen (vtoy_os_param_from_acpi lx (replicate 512 0)) (\<lambda>(rc, param).
       if rc = 0 then Inr (rc, param)
       else if lx_exists lx SYS_EFI then vtoy_os_param_from_efivar lx param
       else vtoy_os_param_from_phymem lx param)"

definition find_os_param_debug :: "linux \<Rightarrow> string list" where
  "find_os_param_debug lx =
     vtoy_os_param_from_acpi_debug lx @
     (case vtoy_os_param_from_acpi lx (replicate 512 0) of
        Inl _ \<Rightarrow> []
      | Inr (rc, param) \<Rightarrow>
          if rc = 0 then []
          else if lx_exists lx SYS_EFI then
            [''current is efi system, get os pararm from efivar''] @ vtoy_os_param_from_efivar_debug lx param
          else [''current is legacy bios system, get os pararm from phymem''] @ vtoy_os_param_from_phymem_debug lx)"

definition vtoydump_main :: "linux \<Rightarrow> char list \<Rightarrow> fault + (int \<times> string list)" where
  "vtoydump_main lx opts =
     (case parse_args opts 0 False False of
        Inl r \<Rightarrow> Inr r
      | Inr (format, check, verbose) \<Rightarrow>
          andThen (find_os_param lx) (\<lambda>(rc, param).
            let searched = debug verbose (find_os_param_debug lx) in
            if rc \<noteq> 0 then Inr (rc, searched)
            else if check then Inr (0, searched)
            else (case vtoy_find_disk lx param '''' 255 of (rc, diskname) \<Rightarrow>
              let searched = searched @ debug verbose (vtoy_find_disk_debug lx param '''' 255) in
              if rc \<noteq> 0 then Inr (rc, searched)
              else andThen (if format = 0 \<or> format = 1 then vtoy_print_os_param param diskname else Inr []) (\<lambda>out.
                andThen (if format = 1 \<or> format = 2 then vtoy_print_image_location lx verbose format param diskname
                         else Inr (0, [])) (\<lambda>(_, table). Inr (rc, searched @ out @ table))))))"

end
