(* ===== verification/Format.thy ===== *)
theory Format
  imports VtoyLinux
begin

text \<open>
  What the library reports about files and volumes (utils.c): file status, sizes in human
  units, and the volume information.
\<close>

section \<open>File status\<close>

record stat =
  st_mode :: u32
  st_nlink :: nat
  st_uid :: int
  st_gid :: int
  st_size :: u64
  st_blocks :: u64
  st_mtime :: int
  st_atime :: int
  st_ctime :: int

text \<open>\<open>S_IFDIR\<close> is 0x4000, \<open>S_IFREG\<close> 0x8000, and the permission bits 0777 are 0x1ff.\<close>

definition exfat_stat :: "exfat \<Rightarrow> exfat_node \<Rightarrow> stat" where
  "exfat_stat ef node =
     (let cs = word_of_nat (CLUSTER_SIZE (ef_sb ef)) :: u64 in
      \<lparr>st_mode = (if nd_attrib node AND EXFAT_ATTRIB_DIR \<noteq> 0
                 then 0x4000 OR (0x1ff AND NOT (word_of_int (ef_dmask ef)))
                 else 0x8000 OR (0x1ff AND NOT (word_of_int (ef_fmask ef)))),
       st_nlink = 1, st_uid = ef_uid ef, st_gid = ef_gid ef, st_size = nd_size node,
       st_blocks = (nd_size node + cs - 1) div cs * cs div 512,
       st_mtime = nd_mtime node, st_atime = nd_atime node, st_ctime = nd_mtime node\<rparr>)"

section \<open>Sizes\<close>

definition size_units :: "string list" where
  "size_units = [''bytes'', ''KB'', ''MB'', ''GB'', ''TB'', ''PB'', ''EB'']"

text \<open>
  The loop of \<open>exfat_humanize_bytes\<close> over the units that are left; reading past the last one
  is undefined.
\<close>

primrec humanize_loop :: "u64 \<Rightarrow> u64 \<Rightarrow> string list \<Rightarrow> fault + (u64 \<times> string)" where
  "humanize_loop v divisor [] = Inl Undef"
| "humanize_loop v divisor (unit_name # rest) =
     (let temp = (v + divisor div 2) div divisor in
      if temp = 0 then Inr (temp, unit_name)
      else if temp div 1024 * 1024 = temp then humanize_loop v (divisor * 1024) rest
      else if temp < 10240 then Inr (temp, unit_name)
      else humanize_loop v (divisor * 1024) rest)"

definition exfat_humanize_bytes :: "u64 \<Rightarrow> fault + (u64 \<times> string)" where
  "exfat_humanize_bytes v = humanize_loop v 1 size_units"

text \<open>\<open>%10llu\<close> pads with blanks.\<close>

definition pad10 :: "string \<Rightarrow> string" where
  "pad10 s = replicate (10 - length s) (CHR '' '') @ s"

definition size_line :: "string \<Rightarrow> u64 \<Rightarrow> fault + string" where
  "size_line title v =
     andThen (exfat_humanize_bytes v) (\<lambda>(n, u). Inr (title @ pad10 (show_nat (unat n)) @ '' '' @ u))"

definition exfat_print_info :: "exfat_super_block \<Rightarrow> u32 \<Rightarrow> fault + string list" where
  "exfat_print_info sb free_count =
     (let total_space = sb_sector_count sb * word_of_nat (SECTOR_SIZE sb);
          avail_space = ucast free_count * word_of_nat (CLUSTER_SIZE sb) :: u64 in
      andThen (size_line ''Sector size          '' (word_of_nat (SECTOR_SIZE sb))) (\<lambda>l2.
      andThen (size_line ''Cluster size         '' (word_of_nat (CLUSTER_SIZE sb))) (\<lambda>l3.
      andThen (size_line ''Volume size          '' total_space) (\<lambda>l4.
      andThen (size_line ''Used space           '' (total_space - avail_space)) (\<lambda>l5.
      andThen (size_line ''Available space      '' avail_space) (\<lambda>l6.
        Inr [''File system version           '' @ show_nat (unat (sb_version_major sb)) @ ''.'' @
               show_nat (unat (sb_version_minor sb)), l2, l3, l4, l5, l6]))))))"

section \<open>Sizes are rounded to the nearest\<close>

lemma u64_small: "n < 2 ^ 64 \<Longrightarrow> unat (word_of_nat n :: u64) = n"
  by (simp add: unat_of_nat)

lemma unat_plus_small: "unat a + unat b < 2 ^ 64 \<Longrightarrow> unat (a + b :: u64) = unat a + unat b"
  by (simp add: unat_word_ariths)

lemma round_nearest:
  fixes v d :: nat
  assumes "0 < d" "even d \<or> d = 1"
  shows "2 * ((v + d div 2) div d * d) \<le> 2 * v + d" "2 * v \<le> 2 * ((v + d div 2) div d * d) + d"
proof -
  define q where "q = (v + d div 2) div d"
  have "q * d \<le> v + d div 2" unfolding q_def by (rule div_times_less_eq_dividend)
  moreover have "v + d div 2 < q * d + d" unfolding q_def using assms(1) by (metis add.commute dividend_less_div_times)
  moreover have "2 * (d div 2) \<le> d" "d \<le> 2 * (d div 2) + 1" "even d \<Longrightarrow> 2 * (d div 2) = d" by simp_all
  ultimately show "2 * ((v + d div 2) div d * d) \<le> 2 * v + d" "2 * v \<le> 2 * ((v + d div 2) div d * d) + d"
    unfolding q_def[symmetric] using assms(2) by auto
qed

lemma humanize_loop_spec:
  assumes "length us = 7 - i" "i < 7" "unat v < 2 ^ 64 - 2 ^ 59"
  shows "\<exists>n j. j < length us \<and> humanize_loop v (word_of_nat (1024 ^ i)) us = Inr (n, us ! j) \<and> unat n < 10240 \<and>
    2 * (unat n * 1024 ^ (i + j)) \<le> 2 * unat v + 1024 ^ (i + j) \<and>
    2 * unat v \<le> 2 * (unat n * 1024 ^ (i + j)) + 1024 ^ (i + j)"
  using assms(1,2)
proof (induction us arbitrary: i)
  case Nil
  then show ?case by simp
next
  case (Cons u us)
  let ?d = "1024 ^ i :: nat" and ?w = "word_of_nat (1024 ^ i) :: u64"
  let ?t = "(v + ?w div 2) div ?w"
  have "?d \<le> 1024 ^ 6" using Cons.prems(2) by (intro power_increasing) simp_all
  then have d: "?d \<le> 2 ^ 60" by simp
  have ud: "unat ?w = ?d" by (rule u64_small) (rule le_less_trans[OF d], simp)
  have half: "?d div 2 \<le> 2 ^ 59" using d by simp
  have "unat (?w div 2) = ?d div 2" unfolding unat_div ud by simp
  then have "unat (v + ?w div 2) = unat v + ?d div 2"
    using half assms(3) unat_plus_small[of v "?w div 2"] by simp
  then have ut: "unat ?t = (unat v + ?d div 2) div ?d" unfolding unat_div ud by simp
  have ev: "even ?d \<or> ?d = 1" by (cases i) simp_all
  have close: "2 * (unat ?t * ?d) \<le> 2 * unat v + ?d" "2 * unat v \<le> 2 * (unat ?t * ?d) + ?d"
    unfolding ut by (rule round_nearest[OF _ ev]; simp)+
  have stop: ?case if "humanize_loop v ?w (u # us) = Inr (?t, u)" "unat ?t < 10240"
    using that close by (intro exI[of _ ?t] exI[of _ 0]) simp
  have go: ?case if r: "humanize_loop v ?w (u # us) = humanize_loop v (?w * 1024) us" and "us \<noteq> []"
  proof -
    have i: "Suc i < 7" and len: "length us = 7 - Suc i" using Cons.prems \<open>us \<noteq> []\<close> by (cases us; simp)+
    have w: "?w * 1024 = word_of_nat (1024 ^ Suc i)" by (simp add: mult.commute)
    obtain n j where "j < length us" and "humanize_loop v (word_of_nat (1024 ^ Suc i)) us = Inr (n, us ! j)" and "unat n < 10240"
        and "2 * (unat n * 1024 ^ (Suc i + j)) \<le> 2 * unat v + 1024 ^ (Suc i + j)"
        and "2 * unat v \<le> 2 * (unat n * 1024 ^ (Suc i + j)) + 1024 ^ (Suc i + j)"
      using Cons.IH[OF len i] by blast
    then have "Suc j < length (u # us)" "humanize_loop v ?w (u # us) = Inr (n, (u # us) ! Suc j)" "unat n < 10240"
        "2 * (unat n * 1024 ^ (i + Suc j)) \<le> 2 * unat v + 1024 ^ (i + Suc j)"
        "2 * unat v \<le> 2 * (unat n * 1024 ^ (i + Suc j)) + 1024 ^ (i + Suc j)"
      unfolding r w add_Suc add_Suc_right nth_Cons_Suc by simp_all
    then show ?case by blast
  qed
  show ?case
  proof (cases "us = []")
    case True
    then have "i = 6" using Cons.prems by simp
    then have "unat ?t \<le> 16" using ut unat_bound[of v] by simp
    then have "unat ?t < 1024" by simp
    moreover have "?t div 1024 * 1024 \<noteq> ?t" if "?t \<noteq> 0"
    proof -
      have "unat (?t div 1024) = 0" using \<open>unat ?t < 1024\<close> by (simp add: unat_div)
      then have "?t div 1024 = 0" by (simp add: unat_eq_zero)
      then show ?thesis using that by simp
    qed
    moreover have "?t < 10240" using \<open>unat ?t < 1024\<close> by (simp add: word_less_nat_alt)
    ultimately have "humanize_loop v ?w (u # us) = Inr (?t, u)" by (auto simp: Let_def)
    then show ?thesis using stop \<open>unat ?t < 1024\<close> by simp
  next
    case False
    show ?thesis
    proof (cases "?t = 0 \<or> (?t div 1024 * 1024 \<noteq> ?t \<and> ?t < 10240)")
      case True
      then have "humanize_loop v ?w (u # us) = Inr (?t, u)" by (auto simp: Let_def)
      moreover have "unat ?t < 10240" using True by (auto simp: word_less_nat_alt)
      ultimately show ?thesis using stop by blast
    next
      case f: False
      then have "humanize_loop v ?w (u # us) = humanize_loop v (?w * 1024) us" by (auto simp: Let_def)
      then show ?thesis using go False by blast
    qed
  qed
qed

text \<open>
  Below 2^64 - 2^59 a size is always reported, in a unit of the table, as a number below
  10240 that is the size rounded to the nearest multiple of the unit.
\<close>

lemma humanize_bytes_nearest:
  assumes "unat v < 2 ^ 64 - 2 ^ 59"
  shows "\<exists>n j. j < 7 \<and> exfat_humanize_bytes v = Inr (n, size_units ! j) \<and> unat n < 10240 \<and>
    2 * (unat n * 1024 ^ j) \<le> 2 * unat v + 1024 ^ j \<and> 2 * unat v \<le> 2 * (unat n * 1024 ^ j) + 1024 ^ j"
proof -
  have len: "length size_units = 7" by (simp add: size_units_def)
  have "length size_units = 7 - 0" "0 < (7 :: nat)" using len by simp_all
  from humanize_loop_spec[OF this assms] show ?thesis
    unfolding exfat_humanize_bytes_def len by simp
qed

text \<open>The largest sizes wrap around to nothing.\<close>

lemma humanize_wraps: "exfat_humanize_bytes (- 1) = Inr (0, ''KB'')"
  by (simp add: exfat_humanize_bytes_def size_units_def)

end
