(* ===== verification/Sequential.thy ===== *)
theory Sequential
  imports Fs Utf
begin

text \<open>
  The sequential operations of \<open>io.c\<close>: the position of an open descriptor, and what reading,
  writing, seeking and closing do to it.
\<close>

record exfat_stream =
  st_dev :: exfat_dev
  st_pos :: nat
  st_close_err :: bool

datatype whence = From_Start | From_Here | From_End

text \<open>\<open>lseek\<close>: a position before the start is refused and changes nothing.\<close>

definition exfat_seek :: "exfat_stream \<Rightarrow> int \<Rightarrow> whence \<Rightarrow> int \<times> exfat_stream" where
  "exfat_seek s offset wh =
     (let pos = offset + (case wh of From_Start \<Rightarrow> 0 | From_Here \<Rightarrow> int (st_pos s) | From_End \<Rightarrow> int (dev_size (st_dev s)))
      in if pos < 0 then (- 1, s) else (pos, s\<lparr>st_pos := nat pos\<rparr>))"

definition exfat_read :: "exfat_stream \<Rightarrow> nat \<Rightarrow> u8 list option \<times> exfat_stream" where
  "exfat_read s n = (case exfat_pread (st_dev s) n (int (st_pos s)) of
      None \<Rightarrow> (None, s)
    | Some bs \<Rightarrow> (Some bs, s\<lparr>st_pos := st_pos s + length bs\<rparr>))"

text \<open>The number of bytes written, fewer than asked for at the end of the device.\<close>

definition exfat_write :: "exfat_stream \<Rightarrow> u8 list \<Rightarrow> nat option \<times> exfat_stream" where
  "exfat_write s bs = (case exfat_pwrite (st_dev s) bs (int (st_pos s)) of
      None \<Rightarrow> (None, s)
    | Some d \<Rightarrow>
        let n = min (length bs) (dev_size d - st_pos s)
        in (Some n, s\<lparr>st_dev := d, st_pos := st_pos s + n\<rparr>))"

definition exfat_close :: "exfat_stream \<Rightarrow> retcode" where
  "exfat_close s = (if st_close_err s then EIO else RC0)"

text \<open>What was written is read back after seeking to where it was written.\<close>

lemma seek_write_read:
  assumes w: "exfat_write s bs = (Some (length bs), s')" and r: "readable (st_dev s)"
    and l: "st_pos s + length bs \<le> dev_size (st_dev s)"
  shows "exfat_seek s' (- int (length bs)) From_Here = (int (st_pos s), s'\<lparr>st_pos := st_pos s\<rparr>)"
    and "fst (exfat_read (s'\<lparr>st_pos := st_pos s\<rparr>) (length bs)) = Some bs"
proof -
  obtain d where d: "exfat_pwrite (st_dev s) bs (int (st_pos s)) = Some d"
    and s': "s' = s\<lparr>st_dev := d, st_pos := st_pos s + length bs\<rparr>"
    using w by (auto simp: exfat_write_def Let_def split: option.splits)
  show "exfat_seek s' (- int (length bs)) From_Here = (int (st_pos s), s'\<lparr>st_pos := st_pos s\<rparr>)"
    by (simp add: exfat_seek_def s')
  show "fst (exfat_read (s'\<lparr>st_pos := st_pos s\<rparr>) (length bs)) = Some bs"
    using dev.read_written[OF d r] l by (simp add: exfat_read_def s')
qed

end
