(* ===== verification/EntryProofs.thy ===== *)
theory EntryProofs
  imports NodeOps
begin

text \<open>
  Entry sets: which sequences of types the check accepts, and what is read back from the
  sets that are written for changed and for new nodes.
\<close>

section \<open>Accepted sequences of types\<close>

text \<open>
  One file entry, one information entry, at least one name entry, then only entries of the
  optional tail.
\<close>

definition set_shape :: "u8 list \<Rightarrow> bool" where
  "set_shape ts \<longleftrightarrow> take 3 ts = [EXFAT_ENTRY_FILE, EXFAT_ENTRY_FILE_INFO, EXFAT_ENTRY_FILE_NAME] \<and>
     list_all (\<lambda>t. EXFAT_ENTRY_FILE_TAIL \<le> t) (dropWhile (\<lambda>t. t = EXFAT_ENTRY_FILE_NAME) (drop 3 ts))"

lemma type_values [simp]:
  "\<not> EXFAT_ENTRY_FILE_TAIL \<le> EXFAT_ENTRY_FILE" "\<not> EXFAT_ENTRY_FILE_TAIL \<le> EXFAT_ENTRY_FILE_INFO"
  "\<not> EXFAT_ENTRY_FILE_TAIL \<le> EXFAT_ENTRY_FILE_NAME"
  by (simp_all add: word_le_nat_alt)

lemma check_from_tail:
  "EXFAT_ENTRY_FILE_TAIL \<le> t \<Longrightarrow>
   check_from (Some t) (map Some ts @ [None]) = list_all (\<lambda>t. EXFAT_ENTRY_FILE_TAIL \<le> t) ts"
proof (induction ts arbitrary: t)
  case Nil
  then show ?case by (auto simp: valid_transition_def)
next
  case (Cons s ts)
  then have "valid_transition (Some t) (Some s) \<longleftrightarrow> EXFAT_ENTRY_FILE_TAIL \<le> s"
    by (auto simp: valid_transition_def)
  then show ?case using Cons by auto
qed

lemma check_from_name:
  "check_from (Some EXFAT_ENTRY_FILE_NAME) (map Some ts @ [None]) =
   list_all (\<lambda>t. EXFAT_ENTRY_FILE_TAIL \<le> t) (dropWhile (\<lambda>t. t = EXFAT_ENTRY_FILE_NAME) ts)"
proof (induction ts)
  case Nil
  then show ?case by (simp add: valid_transition_def)
next
  case (Cons s ts)
  have "valid_transition (Some EXFAT_ENTRY_FILE_NAME) (Some s) \<longleftrightarrow>
      s = EXFAT_ENTRY_FILE_NAME \<or> EXFAT_ENTRY_FILE_TAIL \<le> s" by (simp add: valid_transition_def)
  then show ?case using Cons by (auto simp: check_from_tail)
qed

lemma check_from_shape: "check_from None (map Some ts @ [None]) = set_shape ts"
proof (cases "take 3 ts = [EXFAT_ENTRY_FILE, EXFAT_ENTRY_FILE_INFO, EXFAT_ENTRY_FILE_NAME]")
  case True
  then obtain r where ts: "ts = EXFAT_ENTRY_FILE # EXFAT_ENTRY_FILE_INFO # EXFAT_ENTRY_FILE_NAME # r"
    by (metis append_Cons append_Nil append_take_drop_id)
  show ?thesis unfolding ts by (simp add: valid_transition_def set_shape_def check_from_name)
next
  case False
  then show ?thesis
    by (cases ts; cases "tl ts"; cases "tl (tl ts)")
      (auto simp: set_shape_def valid_transition_def)
qed

lemma check_entries_shape: "check_entries es = set_shape (map entry_type es)"
  unfolding check_entries_def check_from_shape[symmetric] by (simp add: comp_def)

text \<open>
  C31: the state machine of check_entries accepts exactly one file entry, one information
  entry, one or more name entries and then optional entries of the tail.
\<close>

theorem check_entries_language:
  "check_entries es \<longleftrightarrow> set_shape (map entry_type es)"
  by (rule check_entries_shape)

lemma check_entries_parts:
  assumes "check_entries es"
  obtains m1 m2 rest where "es = m1 # m2 # rest" "rest \<noteq> []"
    "entry_type m1 = EXFAT_ENTRY_FILE" "entry_type m2 = EXFAT_ENTRY_FILE_INFO"
proof -
  have "take 3 (map entry_type es) = [EXFAT_ENTRY_FILE, EXFAT_ENTRY_FILE_INFO, EXFAT_ENTRY_FILE_NAME]"
    using assms by (simp add: check_entries_shape set_shape_def)
  then obtain a b c r where "es = a # b # c # r" "entry_type a = EXFAT_ENTRY_FILE" "entry_type b = EXFAT_ENTRY_FILE_INFO"
    by (cases es; cases "tl es"; cases "tl (tl es)") auto
  then show ?thesis using that[of a b "c # r"] by simp
qed

section \<open>Parsing a set that was written\<close>

text \<open>What \<open>check_node\<close> demands of the fields of a node.\<close>

definition node_sound :: "exfat_super_block \<Rightarrow> exfat_node \<Rightarrow> bool" where
  "node_sound sb node \<longleftrightarrow>
     (if nd_size node = 0 then nd_start_cluster node = EXFAT_CLUSTER_FREE \<and> \<not> nd_is_contiguous node
      else \<not> CLUSTER_INVALID sb (nd_start_cluster node)) \<and>
     nd_size node \<le> ucast (sb_cluster_count sb) * word_of_nat (CLUSTER_SIZE sb) \<and>
     (nd_attrib node AND EXFAT_ATTRIB_DIR = 0 \<or> nd_size node mod word_of_nat (CLUSTER_SIZE sb) = 0)"

lemma check_node_sound:
  assumes "node_sound (ef_sb ef) node" "meta1_checksum meta1 = actual" "meta2_valid_size meta2 \<le> nd_size node"
  shows "check_node ef node actual meta1 meta2 = Inr (True, ef, node)"
proof -
  have r: "report False node ret = Inr ret" for ret by (simp add: report_def)
  have c: "(meta2_valid_size meta2 > nd_size node) = False"
    "(nd_size node = 0 \<and> nd_start_cluster node \<noteq> EXFAT_CLUSTER_FREE) = False"
    "(nd_size node > 0 \<and> CLUSTER_INVALID (ef_sb ef) (nd_start_cluster node)) = False"
    "(nd_size node > ucast (sb_cluster_count (ef_sb ef)) * word_of_nat (CLUSTER_SIZE (ef_sb ef))) = False"
    "(nd_size node = 0 \<and> nd_is_contiguous node) = False"
    using assms(1,3) by (auto simp: node_sound_def word_neq_0_conv split: if_splits)
  have d: "(nd_attrib node AND EXFAT_ATTRIB_DIR \<noteq> 0 \<and> nd_size node mod word_of_nat (CLUSTER_SIZE (ef_sb ef)) \<noteq> 0) = False"
    using assms(1) unfolding node_sound_def by blast
  show ?thesis unfolding check_node_def Let_def assms(2)
    by (simp only: r c d refl not_True_eq_False if_False andThen_Inr prod.case)
qed

definition parsed_node :: "int \<Rightarrow> exfat_node \<Rightarrow> exfat_entry list \<Rightarrow> exfat_node" where
  "parsed_node tz node es =
     init_node_name (init_node_meta2 (init_node_meta1 tz node (es ! 0)) (es ! 1))
       (take (div_round_up (unat (meta2_name_length (es ! 1))) EXFAT_ENAME_MAX) (drop 2 es))"

lemma parse_written:
  assumes "check_entries es" "2 \<le> meta1_continuations (es ! 0)"
    and "meta2_flags (es ! 1) AND NOT (EXFAT_FLAG_ALWAYS1 OR EXFAT_FLAG_CONTIGUOUS) = 0"
    and "1 + div_round_up (unat (meta2_name_length (es ! 1))) EXFAT_ENAME_MAX \<le> unat (meta1_continuations (es ! 0))"
    and "meta1_checksum (es ! 0) = exfat_calc_checksum es"
    and "meta2_valid_size (es ! 1) \<le> nd_size (parsed_node (ef_tz ef) node es)"
    and "node_sound (ef_sb ef) (parsed_node (ef_tz ef) node es)"
  shows "parse_file_entries ef node es = Inr (RC0, ef, parsed_node (ef_tz ef) node es)"
  using assms(1-4) check_node_sound[OF assms(7,5,6)]
  unfolding parse_file_entries_def Let_def parsed_node_def
  by (simp add: not_less)

lemma calc_checksum_store:
  "length m = 32 \<Longrightarrow> exfat_calc_checksum (put16 2 v m # es) = exfat_calc_checksum (m # es)"
  by (simp add: exfat_calc_checksum_def start_checksum_put_other)

lemma store_checksum_Cons:
  "store_checksum (m # es) = put16 2 (exfat_calc_checksum (m # es)) m # es"
  by (simp add: store_checksum_def)

lemma stored_checksum:
  "length m = 32 \<Longrightarrow> meta1_checksum (store_checksum (m # es) ! 0) = exfat_calc_checksum (store_checksum (m # es))"
  by (simp add: store_checksum_Cons calc_checksum_store meta1_checksum_def buffer_simps)

section \<open>Changed nodes\<close>

definition storable :: "int \<Rightarrow> int \<Rightarrow> bool" where
  "storable tz t \<longleftrightarrow> EPOCH_DIFF_SEC + tz \<le> t \<and> t < EPOCH_DIFF_SEC + tz + 46752 * SEC_IN_DAY"

lemma update_meta1_fields:
  assumes "length m = 32" "storable tz (nd_mtime node)" "storable tz (nd_atime node)"
  defines "u \<equiv> update_meta1 tz node m"
  shows "length u = 32" "entry_type u = entry_type m" "meta1_continuations u = meta1_continuations m"
    "meta1_attrib u = nd_attrib node"
    "exfat_exfat2unix tz (meta1_mdate u) (meta1_mtime u) (meta1_mtime_cs u) = nd_mtime node"
    "exfat_exfat2unix tz (meta1_adate u) (meta1_atime u) 0
       = nd_atime node - (nd_atime node - (EPOCH_DIFF_SEC + tz)) mod 2"
proof -
  obtain md mt mc where m: "exfat_unix2exfat tz (nd_mtime node) = (md, mt, mc)" by (metis prod_cases3)
  obtain ad at ac where a: "exfat_unix2exfat tz (nd_atime node) = (ad, at, ac)" by (metis prod_cases3)
  have u: "u = put16 16 at (put16 18 ad (put8 21 mc (put16 12 mt (put16 14 md (put16 4 (nd_attrib node) m)))))"
    unfolding u_def update_meta1_def m a by simp
  have f: "meta1_mdate u = md" "meta1_mtime u = mt" "meta1_mtime_cs u = mc" "meta1_adate u = ad" "meta1_atime u = at"
    using assms(1) by (simp_all add: u entry_fields buffer_simps)
  show "length u = 32" "entry_type u = entry_type m" "meta1_continuations u = meta1_continuations m"
    "meta1_attrib u = nd_attrib node"
    using assms(1) by (simp_all add: u entry_fields buffer_simps)
  note rm = exfat2unix_after_unix2exfat[OF _ _ m] and ra = exfat2unix_after_unix2exfat[OF _ _ a]
  have mr: "EPOCH_DIFF_SEC + tz \<le> nd_mtime node" "nd_mtime node < EPOCH_DIFF_SEC + tz + 46752 * SEC_IN_DAY"
    and ar: "EPOCH_DIFF_SEC + tz \<le> nd_atime node" "nd_atime node < EPOCH_DIFF_SEC + tz + 46752 * SEC_IN_DAY"
    using assms(2,3) by (simp_all add: storable_def)
  have "(nd_mtime node - (EPOCH_DIFF_SEC + tz)) mod 2 < 2" by simp
  then have "uint mc \<le> 199" unfolding rm(1)[OF mr] by linarith
  then show "exfat_exfat2unix tz (meta1_mdate u) (meta1_mtime u) (meta1_mtime_cs u) = nd_mtime node"
    unfolding f using rm(2)[OF mr, of mc] unfolding rm(1)[OF mr] by simp
  show "exfat_exfat2unix tz (meta1_adate u) (meta1_atime u) 0
       = nd_atime node - (nd_atime node - (EPOCH_DIFF_SEC + tz)) mod 2"
    unfolding f using ra(2)[OF ar, of 0] by simp
qed

lemma update_meta2_fields:
  fixes node :: exfat_node
  assumes "length m = 32"
  defines "u \<equiv> update_meta2 node m"
  shows "length u = 32" "entry_type u = entry_type m" "meta2_name_length u = meta2_name_length m"
    "meta2_size u = nd_size node" "meta2_valid_size u = nd_size node"
    "meta2_start_cluster u = nd_start_cluster node"
    "(meta2_flags u AND EXFAT_FLAG_CONTIGUOUS \<noteq> 0) = (nd_size node \<noteq> 0 \<and> nd_is_contiguous node)"
    "meta2_flags u AND NOT (EXFAT_FLAG_ALWAYS1 OR EXFAT_FLAG_CONTIGUOUS) = 0"
  using assms(1) by (simp_all add: u_def update_meta2_def entry_fields buffer_simps)

lemma length_updated [simp]: "length (updated_entries tz node es) = length es"
  by (simp add: updated_entries_def store_checksum_def)

lemma updated_entries_Cons:
  "updated_entries tz node (m1 # m2 # rest) =
   store_checksum (update_meta1 tz node m1 # update_meta2 node m2 # rest)"
  by (simp add: updated_entries_def)

lemma sound_flags: "node_sound sb node \<Longrightarrow> (nd_size node \<noteq> 0 \<and> nd_is_contiguous node) = nd_is_contiguous node"
  by (auto simp: node_sound_def)

lemma node_sound_cong:
  "nd_size n = nd_size m \<Longrightarrow> nd_start_cluster n = nd_start_cluster m \<Longrightarrow> nd_attrib n = nd_attrib m \<Longrightarrow>
   nd_is_contiguous n = nd_is_contiguous m \<Longrightarrow> node_sound sb n = node_sound sb m"
  by (simp add: node_sound_def)

text \<open>
  C12: the entry set exfat_flush_node writes for a changed node is accepted when the directory
  is read again, and gives back the attributes, size, first cluster, contiguity and times of
  the node (the access time to two seconds).
\<close>

theorem flushed_set_parses:
  assumes "check_entries es" "list_all (\<lambda>e. length e = 32) es" "2 \<le> meta1_continuations (es ! 0)"
    and "1 + div_round_up (unat (meta2_name_length (es ! 1))) EXFAT_ENAME_MAX \<le> unat (meta1_continuations (es ! 0))"
    and "node_sound (ef_sb ef) node"
    and "storable (ef_tz ef) (nd_mtime node)" "storable (ef_tz ef) (nd_atime node)"
  shows "\<exists>n. parse_file_entries ef blank (updated_entries (ef_tz ef) node es) = Inr (RC0, ef, n) \<and>
    nd_attrib n = nd_attrib node \<and> nd_size n = nd_size node \<and>
    nd_start_cluster n = nd_start_cluster node \<and> nd_fptr_cluster n = nd_start_cluster node \<and>
    nd_is_contiguous n = nd_is_contiguous node \<and> nd_continuations n = meta1_continuations (es ! 0) \<and>
    nd_mtime n = nd_mtime node \<and>
    nd_atime n = nd_atime node - (nd_atime node - (EPOCH_DIFF_SEC + ef_tz ef)) mod 2"
proof -
  let ?tz = "ef_tz ef"
  obtain m1 m2 rest where es: "es = m1 # m2 # rest" by (rule check_entries_parts[OF assms(1)])
  let ?u1 = "update_meta1 ?tz node m1" and ?u2 = "update_meta2 node m2"
  let ?new = "updated_entries ?tz node es" and ?n = "parsed_node ?tz blank (updated_entries ?tz node es)"
  have len: "length m1 = 32" "length m2 = 32" using assms(2) es by auto
  note f1 = update_meta1_fields[OF len(1) assms(6,7)] and f2 = update_meta2_fields[OF len(2), of node]
  have new: "?new = put16 2 (exfat_calc_checksum (?u1 # ?u2 # rest)) ?u1 # ?u2 # rest"
    unfolding es updated_entries_Cons store_checksum_Cons ..
  have g: "entry_type (?new ! 0) = entry_type m1" "meta1_continuations (?new ! 0) = meta1_continuations m1"
      "meta1_attrib (?new ! 0) = nd_attrib node"
      "exfat_exfat2unix ?tz (meta1_mdate (?new ! 0)) (meta1_mtime (?new ! 0)) (meta1_mtime_cs (?new ! 0)) = nd_mtime node"
      "exfat_exfat2unix ?tz (meta1_adate (?new ! 0)) (meta1_atime (?new ! 0)) 0
        = nd_atime node - (nd_atime node - (EPOCH_DIFF_SEC + ?tz)) mod 2" "?new ! 1 = ?u2"
    using f1 unfolding new by (simp_all add: entry_fields buffer_simps)
  have "map entry_type ?new = map entry_type es"
    using g(1) f2(2) unfolding new by (simp add: es)
  then have c: "check_entries ?new" using assms(1) by (simp add: check_entries_shape)
  have n: "nd_attrib ?n = nd_attrib node" "nd_size ?n = nd_size node" "nd_start_cluster ?n = nd_start_cluster node"
      "nd_fptr_cluster ?n = nd_start_cluster node" "nd_is_contiguous ?n = nd_is_contiguous node"
      "nd_continuations ?n = meta1_continuations m1" "nd_mtime ?n = nd_mtime node"
      "nd_atime ?n = nd_atime node - (nd_atime node - (EPOCH_DIFF_SEC + ?tz)) mod 2"
    unfolding parsed_node_def init_node_name_def init_node_meta2_def init_node_meta1_def g
    using f2(4,6,7) sound_flags[OF assms(5)] by simp_all
  have "node_sound (ef_sb ef) ?n" using assms(5) node_sound_cong[of ?n node] n by blast
  moreover have "meta1_checksum (?new ! 0) = exfat_calc_checksum ?new"
    unfolding es updated_entries_Cons by (rule stored_checksum) (rule f1(1))
  moreover have "meta2_valid_size (?new ! 1) \<le> nd_size ?n" unfolding g(6) n f2(5) by simp
  ultimately have "parse_file_entries ef blank ?new = Inr (RC0, ef, ?n)"
    using parse_written[OF c] assms(3,4) g(2,6) f2(3,8) es by simp
  then show ?thesis using n es by (intro exI[of _ ?n]) simp
qed

definition demo_set :: "exfat_entry list" where
  "demo_set = [put8 0 EXFAT_ENTRY_FILE (put8 1 2 (replicate 32 0)),
     put8 0 EXFAT_ENTRY_FILE_INFO (put8 3 3 (replicate 32 0)), put8 0 EXFAT_ENTRY_FILE_NAME (replicate 32 0)]"

definition demo_changed :: exfat_node where
  "demo_changed = demo_file\<lparr>nd_mtime := 1600000000, nd_atime := 1600000001\<rparr>"

lemma demo_set_facts:
  "check_entries demo_set" "list_all (\<lambda>e. length e = 32) demo_set" "2 \<le> meta1_continuations (demo_set ! 0)"
  "1 + div_round_up (unat (meta2_name_length (demo_set ! 1))) EXFAT_ENAME_MAX \<le> unat (meta1_continuations (demo_set ! 0))"
  by (simp_all add: demo_set_def check_entries_shape set_shape_def buffer_simps entry_fields div_round_up_def)

lemma demo_changed_facts:
  "node_sound (ef_sb demo_ef) demo_changed"
  "storable (ef_tz demo_ef) (nd_mtime demo_changed)" "storable (ef_tz demo_ef) (nd_atime demo_changed)"
  by (simp_all add: node_sound_def demo_changed_def storable_def EPOCH_DIFF_SEC_def demo_cluster_valid demo_ef_def demo_file_def)

theorem flushed_set_parses_witness:
  "\<exists>n. parse_file_entries demo_ef zero_node (updated_entries (ef_tz demo_ef) demo_changed demo_set) = Inr (RC0, demo_ef, n) \<and>
     nd_size n = 1300 \<and> nd_mtime n = 1600000000"
  using flushed_set_parses[OF demo_set_facts demo_changed_facts, of zero_node]
  by (auto simp: demo_changed_def demo_file_def)

section \<open>New nodes\<close>

lemma entry_name_of_units:
  "length us = EXFAT_ENAME_MAX \<Longrightarrow> entry_name (a # b # units_bytes us) = us"
proof (rule nth_equalityI)
  fix i assume l: "length us = EXFAT_ENAME_MAX" and i: "i < length (entry_name (a # b # units_bytes us))"
  have "slice_of (2 + 2 * i) 2 (a # b # units_bytes us) = slice_of (2 * i) 2 (units_bytes us)"
    by (simp add: slice_of_def)
  then show "entry_name (a # b # units_bytes us) ! i = us ! i"
    using slice_units_bytes[of i us] l i by (simp add: entry_name_def get16_def)
qed (simp add: entry_name_def)

lemma concat_slices: "w * k \<le> length xs \<Longrightarrow> concat (map (\<lambda>i. slice_of (i * w) w xs) [0..<k]) = take (w * k) xs"
proof (induction k)
  case 0
  then show ?case by simp
next
  case (Suc k)
  have "take (w * k) xs @ slice_of (k * w) w xs = take (w * k + w) xs"
    by (simp add: slice_of_def take_add mult.commute)
  then show ?case using Suc by (simp add: add.commute)
qed

lemma name_entries_units:
  assumes "EXFAT_ENAME_MAX * k \<le> length name"
  shows "concat (map entry_name (map (name_entry name) [0..<k])) = take (EXFAT_ENAME_MAX * k) name"
proof -
  have "entry_name (name_entry name i) = slice_of (i * EXFAT_ENAME_MAX) EXFAT_ENAME_MAX name" if "i < k" for i
  proof -
    have "EXFAT_ENAME_MAX * (i + 1) \<le> EXFAT_ENAME_MAX * k" using that by (intro mult_le_mono2) simp
    then show ?thesis unfolding name_entry_def using assms by (intro entry_name_of_units) simp
  qed
  then have "map entry_name (map (name_entry name) [0..<k])
      = map (\<lambda>i. slice_of (i * EXFAT_ENAME_MAX) EXFAT_ENAME_MAX name) [0..<k]" by simp
  then show ?thesis using concat_slices[OF assms] by (simp only:)
qed

lemma padded_prefix:
  assumes "drop len name = replicate (length name - len) 0" "len \<le> m" "m \<le> length name"
  shows "overlay 0 (take m name) (replicate (length name) 0) = name"
proof -
  have "drop m name = drop (m - len) (drop len name)" using assms(2) by simp
  also have "\<dots> = replicate (length name - m) 0" unfolding assms(1) using assms(2) by simp
  finally show ?thesis using assms(3) append_take_drop_id[of m name]
    by (simp add: overlay_def)
qed

lemma length_new_meta [simp]: "length (new_meta1 ef k attrib) = 32" "length (new_meta2 ef name len) = 32"
  by (simp_all add: new_meta1_def new_meta2_def split: prod.splits)

lemma new_meta1_fields:
  fixes attrib :: u16
  assumes "k < 255" "storable (ef_tz ef) (ef_now ef)"
  defines "m \<equiv> new_meta1 ef k attrib"
  shows "entry_type m = EXFAT_ENTRY_FILE" "unat (meta1_continuations m) = k + 1" "meta1_attrib m = attrib"
    "exfat_exfat2unix (ef_tz ef) (meta1_mdate m) (meta1_mtime m) (meta1_mtime_cs m) = ef_now ef"
proof -
  obtain d t c where u: "exfat_unix2exfat (ef_tz ef) (ef_now ef) = (d, t, c)" by (metis prod_cases3)
  have m: "m = put8 21 c (put16 12 t (put16 16 t (put16 14 d (put16 18 d
          (put8 20 c (put16 8 t (put16 10 d (put16 4 attrib
            (put8 1 (1 + word_of_nat k) (put8 0 EXFAT_ENTRY_FILE (replicate 32 0)))))))))))"
    unfolding m_def new_meta1_def u by simp
  have "unat (1 + word_of_nat k :: u8) = k + 1"
  proof -
    have "(1 + word_of_nat k :: u8) = word_of_nat (k + 1)" by simp
    then show ?thesis using assms(1) by (simp only: unat_of_nat) simp
  qed
  then show "entry_type m = EXFAT_ENTRY_FILE" "unat (meta1_continuations m) = k + 1" "meta1_attrib m = attrib"
    by (simp_all add: m entry_fields buffer_simps)
  have r: "EPOCH_DIFF_SEC + ef_tz ef \<le> ef_now ef" "ef_now ef < EPOCH_DIFF_SEC + ef_tz ef + 46752 * SEC_IN_DAY"
    using assms(2) by (simp_all add: storable_def)
  note rt = exfat2unix_after_unix2exfat[OF r u]
  have "(ef_now ef - (EPOCH_DIFF_SEC + ef_tz ef)) mod 2 < 2" by simp
  then have "uint c \<le> 199" unfolding rt(1) by linarith
  then have "exfat_exfat2unix (ef_tz ef) d t c = ef_now ef" using rt(2)[of c] unfolding rt(1) by simp
  moreover have "meta1_mdate m = d" "meta1_mtime m = t" "meta1_mtime_cs m = c"
    by (simp_all add: m entry_fields buffer_simps)
  ultimately show "exfat_exfat2unix (ef_tz ef) (meta1_mdate m) (meta1_mtime m) (meta1_mtime_cs m) = ef_now ef" by simp
qed

lemma new_meta2_fields:
  fixes ef :: exfat and name :: "u16 list"
  assumes "len < 256"
  defines "m \<equiv> new_meta2 ef name len"
  shows "entry_type m = EXFAT_ENTRY_FILE_INFO" "unat (meta2_name_length m) = len" "meta2_flags m = EXFAT_FLAG_ALWAYS1"
    "meta2_size m = 0" "meta2_valid_size m = 0" "meta2_start_cluster m = EXFAT_CLUSTER_FREE"
proof -
  have z: "get64 8 (replicate 32 0) = 0" "get64 24 (replicate 32 0) = 0"
    by (simp_all add: get64_def slice_of_def le64_to_cpu_def numeral_eq_Suc)
  show "entry_type m = EXFAT_ENTRY_FILE_INFO" "unat (meta2_name_length m) = len" "meta2_flags m = EXFAT_FLAG_ALWAYS1"
    "meta2_size m = 0" "meta2_valid_size m = 0" "meta2_start_cluster m = EXFAT_CLUSTER_FREE"
    using assms(1) by (simp_all add: m_def new_meta2_def entry_fields buffer_simps z unat_of_nat)
qed

lemma name_entries_bounds:
  assumes "0 < len" "len \<le> EXFAT_NAME_MAX"
  defines "k \<equiv> div_round_up len EXFAT_ENAME_MAX"
  shows "0 < k" "k \<le> 17" "len \<le> EXFAT_ENAME_MAX * k"
  using assms div_round_up_covers[of EXFAT_ENAME_MAX len] unfolding k_def
  by (simp_all add: div_round_up_def)

text \<open>
  C17: the entry set commit_entry writes for a new file or directory is accepted when the
  directory is read, and yields the very node commit_entry attaches to the tree: the whole
  name, the attributes, no contents, the current time.
\<close>

theorem created_set_parses:
  fixes attrib :: u16 and offset :: int
  assumes "length name = EXFAT_NAME_MAX + 1" "0 < len" "len \<le> EXFAT_NAME_MAX"
    and "drop len name = replicate (EXFAT_NAME_MAX + 1 - len) 0" "storable (ef_tz ef) (ef_now ef)"
  defines "es \<equiv> new_entries ef name len attrib"
  defines "node \<equiv> init_node_meta2 (init_node_meta1 (ef_tz ef)
      (zero_node\<lparr>nd_entry_offset := offset, nd_name := overlay 0 (take len name) (nd_name zero_node)\<rparr>) (es ! 0)) (es ! 1)"
  shows "parse_file_entries ef (zero_node\<lparr>nd_entry_offset := offset\<rparr>) es = Inr (RC0, ef, node)
    \<and> nd_name node = name \<and> nd_attrib node = attrib \<and> nd_size node = 0
    \<and> nd_start_cluster node = EXFAT_CLUSTER_FREE \<and> nd_mtime node = ef_now ef"
proof -
  define k where "k = div_round_up len EXFAT_ENAME_MAX"
  note kb = name_entries_bounds[OF assms(2,3), folded k_def]
  let ?m1 = "new_meta1 ef k attrib" and ?m2 = "new_meta2 ef name len" and ?names = "map (name_entry name) [0..<k]"
  have es: "es = put16 2 (exfat_calc_checksum (?m1 # ?m2 # ?names)) ?m1 # ?m2 # ?names"
    unfolding es_def new_entries_def Let_def k_def[symmetric] by (rule store_checksum_Cons)
  have k255: "k < 255" using kb by simp
  note f1 = new_meta1_fields[OF k255 assms(5), of attrib]
  have l256: "len < 256" using assms(3) by simp
  note f2 = new_meta2_fields[OF l256, of ef name]
  have g: "entry_type (es ! 0) = EXFAT_ENTRY_FILE" "unat (meta1_continuations (es ! 0)) = k + 1"
    "meta1_attrib (es ! 0) = attrib" "es ! 1 = ?m2"
    "exfat_exfat2unix (ef_tz ef) (meta1_mdate (es ! 0)) (meta1_mtime (es ! 0)) (meta1_mtime_cs (es ! 0)) = ef_now ef"
    using f1 by (simp_all add: es entry_fields buffer_simps)
  obtain j where j: "k = Suc j" using kb(1) gr0_implies_Suc by blast
  have types: "map entry_type es = EXFAT_ENTRY_FILE # EXFAT_ENTRY_FILE_INFO # replicate k EXFAT_ENTRY_FILE_NAME"
    using g(1) f2(1) by (simp add: es name_entry_def comp_def map_replicate_const)
  have c: "check_entries es" unfolding check_entries_shape types set_shape_def j by simp
  have names: "overlay 0 (concat (map entry_name (take k (drop 2 es)))) (nd_name zero_node) = name"
  proof -
    have t: "take k (drop 2 es) = ?names" by (simp add: es)
    have "EXFAT_ENAME_MAX * k \<le> EXFAT_NAME_MAX" using kb(2) by simp
    then have "EXFAT_ENAME_MAX * k \<le> length name" using assms(1) by simp
    note n = name_entries_units[OF this] and p = padded_prefix[OF _ kb(3) this]
    have "drop len name = replicate (length name - len) 0" using assms(1,4) by simp
    note p[OF this]
    then show ?thesis unfolding t n zero_node_def using assms(1) by simp
  qed
  have own: "overlay 0 (take len name) (nd_name zero_node) = name"
    using padded_prefix[of len name len] assms(1,3,4) by (simp add: zero_node_def)
  have parsed: "parsed_node (ef_tz ef) (zero_node\<lparr>nd_entry_offset := offset\<rparr>) es = node"
    unfolding parsed_node_def node_def g(4) f2(2) k_def[symmetric] own init_node_name_def
      init_node_meta2_def init_node_meta1_def using names by simp
  have f: "nd_name node = name" "nd_attrib node = attrib" "nd_size node = 0" "nd_start_cluster node = EXFAT_CLUSTER_FREE"
      "\<not> nd_is_contiguous node" "nd_mtime node = ef_now ef"
    unfolding node_def own init_node_meta2_def init_node_meta1_def g using f2 by simp_all
  have "node_sound (ef_sb ef) node" using f by (simp add: node_sound_def)
  moreover have "meta1_checksum (es ! 0) = exfat_calc_checksum es"
    unfolding es_def new_entries_def Let_def by (rule stored_checksum) simp
  moreover have "2 \<le> meta1_continuations (es ! 0)" using g(2) kb(1) by (simp add: word_le_nat_alt)
  ultimately have "parse_file_entries ef (zero_node\<lparr>nd_entry_offset := offset\<rparr>) es = Inr (RC0, ef, node)"
    using parse_written[OF c, of ef "zero_node\<lparr>nd_entry_offset := offset\<rparr>"] g f2 f parsed by (simp add: k_def)
  then show ?thesis using f by blast
qed

definition demo_name :: "u16 list" where
  "demo_name = [0x61, 0x62, 0x63] @ replicate 253 0"

theorem created_set_parses_witness:
  "\<exists>node. parse_file_entries demo_ef (zero_node\<lparr>nd_entry_offset := 96\<rparr>) (new_entries demo_ef demo_name 3 EXFAT_ATTRIB_ARCH)
     = Inr (RC0, demo_ef, node) \<and> nd_name node = demo_name"
proof -
  have "length demo_name = EXFAT_NAME_MAX + 1" "drop 3 demo_name = replicate (EXFAT_NAME_MAX + 1 - 3) 0"
    by (simp_all add: demo_name_def)
  moreover have "storable (ef_tz demo_ef) (ef_now demo_ef)"
    by (simp add: storable_def demo_ef_def EPOCH_DIFF_SEC_def)
  ultimately show ?thesis
    using created_set_parses[where name = demo_name and len = 3 and ef = demo_ef and attrib = EXFAT_ATTRIB_ARCH and offset = 96]
    by auto
qed

end
