(* ===== verification/Siblings.thy ===== *)
theory Siblings
  imports Directory
begin

text \<open>
  The doubly linked lists of children (node.c): an abstraction of the pointers to a list of
  nodes, and what attaching, detaching and counting references do to it.
\<close>

section \<open>Single steps on the heap\<close>

lemma node_at_Inr [simp]: "node_at ef p = Inr n \<longleftrightarrow> ef_nodes ef p = Some n"
  by (simp add: node_at_def split: option.splits)

lemma node_at_Some: "ef_nodes ef p = Some n \<Longrightarrow> node_at ef p = Inr n"
  by simp

lemma nodes_put [simp]: "ef_nodes (put_node_at ef p n) = (ef_nodes ef)(p \<mapsto> n)"
  by (simp add: put_node_at_def)

lemma modify_node_Some: "ef_nodes ef p = Some n \<Longrightarrow> modify_node ef p f = Inr (put_node_at ef p (f n))"
  by (simp add: modify_node_def node_at_Some)

lemma put_node_same: "ef_nodes ef p = Some n \<Longrightarrow> put_node_at ef p n = ef"
  by (simp add: put_node_at_def fun_upd_idem)

lemma put_node_twice [simp]: "put_node_at (put_node_at ef p n) p m = put_node_at ef p m"
  by (simp add: put_node_at_def)

lemma put_node_commute: "p \<noteq> q \<Longrightarrow> put_node_at (put_node_at ef p n) q m = put_node_at (put_node_at ef q m) p n"
  by (simp add: put_node_at_def fun_upd_twist)

lemma put_node_frame [simp]:
  "ef_root (put_node_at ef p n) = ef_root ef" "ef_upcase (put_node_at ef p n) = ef_upcase ef"
  "ef_next_ptr (put_node_at ef p n) = ef_next_ptr ef" "ef_sb (put_node_at ef p n) = ef_sb ef"
  "ef_dev (put_node_at ef p n) = ef_dev ef" "ef_malloc_ok (put_node_at ef p n) = ef_malloc_ok ef"
  by (simp_all add: put_node_at_def)

section \<open>Reference counts\<close>

definition named :: "exfat_node \<Rightarrow> bool" where
  "named n \<longleftrightarrow> \<not> isl (exfat_get_name n)"

lemma get_name_frame [simp]: "exfat_get_name (n\<lparr>nd_references := r\<rparr>) = exfat_get_name n"
  by (simp add: exfat_get_name_def)

lemma get_node_Some:
  "ef_nodes ef p = Some n \<Longrightarrow> exfat_get_node ef p = Inr (put_node_at ef p (n\<lparr>nd_references := nd_references n + 1\<rparr>))"
  by (simp add: exfat_get_node_def modify_node_Some)

lemma put_node_Some:
  assumes "ef_nodes ef p = Some n" "0 < nd_references n" "\<not> nd_is_dirty n \<or> named n"
  shows "exfat_put_node ef p = Inr (put_node_at ef p (n\<lparr>nd_references := nd_references n - 1\<rparr>))"
  using assms
  by (auto simp: exfat_put_node_def node_at_Some Let_def named_def isl_def andThen_def split: sum.splits)

lemma put_after_get:
  assumes "ef_nodes ef p = Some n" "0 \<le> nd_references n" "\<not> nd_is_dirty n \<or> named n"
  shows "andThen (exfat_get_node ef p) (\<lambda>ef. exfat_put_node ef p) = Inr ef"
proof -
  let ?m = "n\<lparr>nd_references := nd_references n + 1\<rparr>"
  have "exfat_put_node (put_node_at ef p ?m) p = Inr (put_node_at (put_node_at ef p ?m) p (?m\<lparr>nd_references := nd_references ?m - 1\<rparr>))"
    using assms by (intro put_node_Some) (auto simp: named_def)
  then show ?thesis using put_node_same[OF assms(1)] by (simp add: get_node_Some[OF assms(1)])
qed

section \<open>Linked lists of children\<close>

text \<open>
  The list fields of a node: parent, previous and next. \<open>seg L d a p xs b q\<close> is the part of the
  list of the children of \<open>d\<close> that starts at \<open>p\<close> after the node \<open>a\<close>, consists of the nodes
  \<open>xs\<close>, ends with \<open>b\<close> and is followed by \<open>q\<close>.
\<close>

definition links :: "exfat \<Rightarrow> ptr \<Rightarrow> (ptr option \<times> ptr option \<times> ptr option) option" where
  "links ef p = map_option (\<lambda>n. (nd_parent n, nd_prev n, nd_next n)) (ef_nodes ef p)"

fun seg :: "(ptr \<Rightarrow> (ptr option \<times> ptr option \<times> ptr option) option) \<Rightarrow> ptr \<Rightarrow> ptr option \<Rightarrow> ptr option
    \<Rightarrow> ptr list \<Rightarrow> ptr option \<Rightarrow> ptr option \<Rightarrow> bool" where
  "seg L d a p [] b q \<longleftrightarrow> p = q \<and> b = a"
| "seg L d a p (x # xs) b q \<longleftrightarrow> p = Some x \<and>
     (case L x of None \<Rightarrow> False | Some (pa, pr, nx) \<Rightarrow> pa = Some d \<and> pr = a \<and> seg L d (Some x) nx xs b q)"

lemma seg_append:
  "seg L d a p (xs @ ys) b q \<longleftrightarrow> (\<exists>m r. seg L d a p xs m r \<and> seg L d m r ys b q)"
  by (induction xs arbitrary: a p) (auto split: option.splits)

lemma seg_cong: "(\<And>x. x \<in> set xs \<Longrightarrow> L x = M x) \<Longrightarrow> seg L d a p xs b q = seg M d a p xs b q"
  by (induction xs arbitrary: a p) (auto split: option.splits)

lemma seg_upd [simp]: "x \<notin> set xs \<Longrightarrow> seg (L(x := v)) d a p xs b q = seg L d a p xs b q"
  by (rule seg_cong) auto

lemma seg_single: "seg L d a p [x] b q \<longleftrightarrow> p = Some x \<and> b = Some x \<and> L x = Some (Some d, a, q)"
  by (auto split: option.splits)

definition children :: "exfat \<Rightarrow> ptr \<Rightarrow> ptr list \<Rightarrow> bool" where
  "children ef d xs \<longleftrightarrow> distinct (d # xs) \<and>
     (case ef_nodes ef d of None \<Rightarrow> False
      | Some n \<Rightarrow> seg (links ef) d None (nd_child n) xs (if xs = [] then None else Some (last xs)) None)"

lemma seg_last: "seg L d a p xs b q \<Longrightarrow> b = (if xs = [] then a else Some (last xs))"
  by (induction xs arbitrary: a p) (auto split: option.splits)

lemma children_iff:
  "children ef d xs \<longleftrightarrow> distinct (d # xs) \<and> (\<exists>n b. ef_nodes ef d = Some n \<and> seg (links ef) d None (nd_child n) xs b None)"
proof -
  have "(\<exists>b. seg L d a p xs b q) \<longleftrightarrow> seg L d a p xs (if xs = [] then a else Some (last xs)) q" for L a p q
    using seg_last by metis
  then show ?thesis by (auto simp: children_def split: option.splits)
qed

lemma links_put: "links (put_node_at ef p n) = (links ef)(p := Some (nd_parent n, nd_prev n, nd_next n))"
  by (auto simp: links_def)

lemma seg_set_next:
  "seg L d a p (xs @ [r]) b q \<Longrightarrow> r \<notin> set xs \<Longrightarrow> L r = Some (pa, pr, nx) \<Longrightarrow>
   seg (L(r := Some (pa, pr, q'))) d a p (xs @ [r]) b q'"
  by (auto simp: seg_append)

lemma seg_set_prev:
  "seg L d a p (s # ys) b q \<Longrightarrow> s \<notin> set ys \<Longrightarrow> L s = Some (pa, pr, nx) \<Longrightarrow>
   seg (L(s := Some (pa, a', nx))) d a' p (s # ys) b q"
  by auto

lemma children_node:
  "children ef d xs \<Longrightarrow> x \<in> set xs \<Longrightarrow> \<exists>n. ef_nodes ef x = Some n \<and> nd_parent n = Some d"
proof -
  assume "children ef d xs" "x \<in> set xs"
  then obtain b and n :: exfat_node where s: "seg (links ef) d None (nd_child n) xs b None" unfolding children_iff by blast
  obtain ys zs where "xs = ys @ x # zs" using split_list \<open>x \<in> set xs\<close> by fast
  with s have "\<exists>pr nx. links ef x = Some (Some d, pr, nx)" by (auto simp: seg_append split: option.splits)
  then show ?thesis by (auto simp: links_def)
qed

section \<open>Attaching and detaching\<close>

lemma tree_attach_spec:
  assumes c: "children ef d xs" and q: "q \<noteq> d" "q \<notin> set xs" "ef_nodes ef q = Some n"
    and n: "nd_prev n = None" "nd_next n = None"
  shows "\<exists>ef'. tree_attach ef d q = Inr ef' \<and> children ef' d (q # xs) \<and>
    (\<forall>p. p \<noteq> d \<and> p \<noteq> q \<and> p \<notin> set xs \<longrightarrow> ef_nodes ef' p = ef_nodes ef p)"
proof -
  obtain dn b where d: "ef_nodes ef d = Some dn" and s: "seg (links ef) d None (nd_child dn) xs b None"
    and dist: "d \<notin> set xs" "distinct xs" using c by (auto simp: children_iff)
  show ?thesis
  proof (cases xs)
    case Nil
    then have "nd_child dn = None" using s by simp
    then show ?thesis using d q n Nil
      by (simp add: tree_attach_def modify_node_Some node_at_Some children_iff links_put seg_single)
  next
    case (Cons x ys)
    have "nd_child dn = Some x" using s Cons by simp
    obtain xn where x: "ef_nodes ef x = Some xn" "links ef x = Some (nd_parent xn, nd_prev xn, nd_next xn)"
      using s Cons by (auto simp: links_def split: option.splits)
    have ne: "x \<noteq> d" "x \<noteq> q" "x \<notin> set ys" "d \<notin> set ys" "q \<notin> set ys" "distinct ys" using dist q Cons by auto
    have "seg ((links ef)(x := Some (nd_parent xn, Some q, nd_next xn))) d (Some q) (Some x) (x # ys) b None"
      using seg_set_prev[OF s[unfolded Cons \<open>nd_child dn = Some x\<close>] ne(3) x(2)] .
    then show ?thesis using d q n Cons x ne \<open>nd_child dn = Some x\<close>
      by (auto simp: tree_attach_def modify_node_Some node_at_Some children_iff links_put)
  qed
qed

lemma tree_detach_spec:
  assumes c: "children ef d (xs @ q # ys)"
  shows "\<exists>ef'. tree_detach ef q = Inr ef' \<and> children ef' d (xs @ ys) \<and> links ef' q = Some (None, None, None) \<and>
    (\<forall>p. p \<noteq> d \<and> p \<notin> set (xs @ q # ys) \<longrightarrow> ef_nodes ef' p = ef_nodes ef p)"
proof -
  obtain dn b where d: "ef_nodes ef d = Some dn" and s: "seg (links ef) d None (nd_child dn) (xs @ q # ys) b None"
    and dist: "d \<notin> set (xs @ q # ys)" "distinct (xs @ q # ys)" using c by (auto simp: children_iff)
  obtain m where sx: "seg (links ef) d None (nd_child dn) xs m (Some q)"
    and lq: "seg (links ef) d m (Some q) (q # ys) b None"
    using s by (auto simp: seg_append)
  obtain n where q: "ef_nodes ef q = Some n" "nd_parent n = Some d" "nd_prev n = m"
      and sy: "seg (links ef) d (Some q) (nd_next n) ys b None"
    using lq by (auto simp: links_def split: option.splits)
  have m: "m = (if xs = [] then None else Some (last xs))" using seg_last[OF sx] by simp
  have "\<exists>ef1 dn1. (case m of Some r \<Rightarrow> modify_node ef r (\<lambda>m. m\<lparr>nd_next := nd_next n\<rparr>)
        | None \<Rightarrow> (case nd_parent n of None \<Rightarrow> Inl Undef | Some d \<Rightarrow> modify_node ef d (\<lambda>m. m\<lparr>nd_child := nd_next n\<rparr>))) = Inr ef1
      \<and> ef_nodes ef1 d = Some dn1 \<and> seg (links ef1) d None (nd_child dn1) xs m (nd_next n)
      \<and> (\<forall>p. p \<noteq> d \<and> p \<notin> set xs \<longrightarrow> ef_nodes ef1 p = ef_nodes ef p)"
  proof (cases xs rule: rev_cases)
    case Nil
    then show ?thesis using d q m by (simp add: modify_node_Some)
  next
    case (snoc zs r)
    then obtain rn where r: "ef_nodes ef r = Some rn" "links ef r = Some (nd_parent rn, nd_prev rn, nd_next rn)"
      using sx by (auto simp: seg_append links_def split: option.splits)
    have "r \<notin> set zs" "r \<noteq> d" using dist snoc by auto
    then show ?thesis using seg_set_next[OF sx[unfolded snoc] _ r(2), of "nd_next n"] snoc m r d
      by (simp add: modify_node_Some links_put)
  qed
  then obtain ef1 dn1 where e1: "(case m of Some r \<Rightarrow> modify_node ef r (\<lambda>m. m\<lparr>nd_next := nd_next n\<rparr>)
        | None \<Rightarrow> (case nd_parent n of None \<Rightarrow> Inl Undef | Some d \<Rightarrow> modify_node ef d (\<lambda>m. m\<lparr>nd_child := nd_next n\<rparr>))) = Inr ef1"
      "ef_nodes ef1 d = Some dn1" "seg (links ef1) d None (nd_child dn1) xs m (nd_next n)"
      "\<And>p. p \<noteq> d \<Longrightarrow> p \<notin> set xs \<Longrightarrow> ef_nodes ef1 p = ef_nodes ef p" by blast
  have same: "links ef1 p = links ef p" if "p \<in> set (q # ys)" for p
  proof -
    have "p \<noteq> d" "p \<notin> set xs" using that dist by auto
    then show ?thesis using e1(4)[of p] by (simp add: links_def)
  qed
  have sy1: "seg (links ef1) d (Some q) (nd_next n) ys b None"
    using sy seg_cong[of ys "links ef1" "links ef"] same by simp
  have "\<exists>ef2 b'. (case nd_next n of Some r \<Rightarrow> modify_node ef1 r (\<lambda>k. k\<lparr>nd_prev := m\<rparr>) | None \<Rightarrow> Inr ef1) = Inr ef2
      \<and> seg (links ef2) d m (nd_next n) ys b' None \<and> (\<forall>p. p \<notin> set ys \<longrightarrow> ef_nodes ef2 p = ef_nodes ef1 p)"
  proof (cases ys)
    case Nil
    then show ?thesis using sy1 by simp
  next
    case (Cons y zs)
    then obtain yn where y: "nd_next n = Some y" "ef_nodes ef1 y = Some yn" "links ef1 y = Some (nd_parent yn, nd_prev yn, nd_next yn)"
      using sy1 by (auto simp: links_def split: option.splits)
    have "y \<notin> set zs" using dist Cons by simp
    then show ?thesis using seg_set_prev[OF sy1[unfolded Cons] _ y(3), of m] Cons y
      by (auto simp: modify_node_Some links_put)
  qed
  then obtain ef2 b' where e2: "(case nd_next n of Some r \<Rightarrow> modify_node ef1 r (\<lambda>k. k\<lparr>nd_prev := m\<rparr>) | None \<Rightarrow> Inr ef1) = Inr ef2"
      "seg (links ef2) d m (nd_next n) ys b' None" "\<And>p. p \<notin> set ys \<Longrightarrow> ef_nodes ef2 p = ef_nodes ef1 p" by blast
  have q2: "ef_nodes ef2 q = Some n" using e2(3)[of q] e1(4)[of q] dist q by auto
  let ?ef' = "put_node_at ef2 q (n\<lparr>nd_parent := None, nd_prev := None, nd_next := None\<rparr>)"
  have run: "tree_detach ef q = Inr ?ef'"
    unfolding tree_detach_def node_at_Some[OF q(1)] andThen_Inr q(3) e1(1) e2(1) by (simp add: modify_node_Some q2)
  have "links ef2 p = links ef1 p" if "p \<in> set xs" for p
  proof -
    have "p \<notin> set ys" using that dist by auto
    then show ?thesis using e2(3)[of p] by (simp add: links_def)
  qed
  then have "seg (links ef2) d None (nd_child dn1) xs m (nd_next n)" using e1(3) seg_cong[of xs "links ef2" "links ef1"] by simp
  then have "seg (links ef2) d None (nd_child dn1) (xs @ ys) b' None" using e2(2) seg_append by blast
  moreover have "ef_nodes ef2 d = Some dn1" using e2(3)[of d] e1(2) dist by auto
  ultimately have "children ?ef' d (xs @ ys)" using dist by (auto simp: children_iff links_put)
  moreover have "links ?ef' q = Some (None, None, None)" by (simp add: links_put)
  moreover have "ef_nodes ?ef' p = ef_nodes ef p" if "p \<noteq> d" "p \<notin> set (xs @ q # ys)" for p
    using that e2(3)[of p] e1(4)[of p] by simp
  ultimately show ?thesis using run by blast
qed

text \<open>
  tree_attach puts a node that is in no list in front of the children of a directory, and
  touches no node outside that directory.
\<close>

lemma tree_attach_children:
  assumes "children ef d xs" "q \<noteq> d" "q \<notin> set xs" "ef_nodes ef q = Some n" "nd_prev n = None" "nd_next n = None"
  shows "\<exists>ef'. tree_attach ef d q = Inr ef' \<and> children ef' d (q # xs) \<and>
    (\<forall>p. p \<noteq> d \<and> p \<noteq> q \<and> p \<notin> set xs \<longrightarrow> ef_nodes ef' p = ef_nodes ef p)"
  using assms by (rule tree_attach_spec)

text \<open>
  tree_detach removes a node from the children of its directory, wherever it is in the
  list, clears its links, and touches no node outside that directory.
\<close>

lemma tree_detach_children:
  assumes "children ef d xs" "q \<in> set xs"
  shows "\<exists>ef'. tree_detach ef q = Inr ef' \<and> children ef' d (remove1 q xs) \<and>
    links ef' q = Some (None, None, None) \<and>
    (\<forall>p. p \<noteq> d \<and> p \<notin> set xs \<longrightarrow> ef_nodes ef' p = ef_nodes ef p)"
proof -
  obtain ys zs where xs: "xs = ys @ q # zs" "q \<notin> set ys" using split_list_first[OF assms(2)] by blast
  then have "remove1 q xs = ys @ zs" by (simp add: remove1_append)
  then show ?thesis using tree_detach_spec[of ef d ys q zs] assms(1) xs(1) by simp
qed

lemma zero_node_links [simp]:
  "nd_parent zero_node = None" "nd_prev zero_node = None" "nd_next zero_node = None"
  "nd_child zero_node = None" "nd_references zero_node = 0" "\<not> nd_is_dirty zero_node"
  by (simp_all add: zero_node_def)

text \<open>A directory with two children.\<close>

definition demo_tree :: exfat where
  "demo_tree = demo_ef\<lparr>ef_nodes := [0 \<mapsto> zero_node\<lparr>nd_child := Some 1, nd_references := 1, nd_attrib := EXFAT_ATTRIB_DIR,
       nd_is_cached := True, nd_start_cluster := 4, nd_fptr_cluster := 4, nd_size := 512\<rparr>,
     1 \<mapsto> zero_node\<lparr>nd_parent := Some 0, nd_next := Some 2, nd_name := overlay 0 [0x61] (replicate 256 0)\<rparr>,
     2 \<mapsto> zero_node\<lparr>nd_parent := Some 0, nd_prev := Some 1, nd_name := overlay 0 [0x62] (replicate 256 0)\<rparr>,
     3 \<mapsto> zero_node], ef_next_ptr := 4, ef_upcase := map word_of_nat [0..<EXFAT_UPCASE_CHARS]\<rparr>"

lemma demo_children: "children demo_tree 0 [1, 2]"
  by (simp add: children_def demo_tree_def links_def)

end
