(* ===== verification/LookupProofs.thy ===== *)
theory LookupProofs
  imports Lookup Siblings
begin

text \<open>
  Looking up paths: comparing names is comparing folded strings, \<open>lookup_name\<close> finds the first
  child of that name, and a path is walked by its components.
\<close>

section \<open>Names\<close>

definition cstr :: "u16 list \<Rightarrow> u16 list" where
  "cstr us = takeWhile (\<lambda>u. u \<noteq> 0) us"

definition folded :: "u16 list \<Rightarrow> u16 list \<Rightarrow> u16 list" where
  "folded upcase us = map (\<lambda>u. upcase ! unat u) (cstr us)"

text \<open>Only the null character has its upper case.\<close>

definition null_apart :: "u16 list \<Rightarrow> bool" where
  "null_apart upcase \<longleftrightarrow> (\<forall>u :: u16. u \<noteq> 0 \<longrightarrow> upcase ! unat u \<noteq> upcase ! unat (0 :: u16))"

lemma compare_char_0 [simp]: "compare_char upcase a b = 0 \<longleftrightarrow> upcase ! unat a = upcase ! unat b"
  by (simp add: compare_char_def word_uint_eq_iff)

lemma compare_name_folded:
  assumes "null_apart upcase" "0 \<in> set as" "0 \<in> set bs"
  shows "\<exists>d. compare_name upcase as bs = Inr d \<and> (d = 0 \<longleftrightarrow> folded upcase as = folded upcase bs)"
  using assms(2,3)
proof (induction as arbitrary: bs)
  case Nil
  then show ?case by simp
next
  case (Cons a as)
  then obtain b bs' where bs: "bs = b # bs'" by (cases bs) auto
  have z: "upcase ! unat (0 :: u16) = upcase ! unat u \<longleftrightarrow> u = 0" "upcase ! unat u = upcase ! unat (0 :: u16) \<longleftrightarrow> u = 0" for u :: u16
    using assms(1) unfolding null_apart_def by metis+
  show ?case
  proof (cases "a \<noteq> 0 \<and> b \<noteq> 0 \<and> upcase ! unat a = upcase ! unat b")
    case True
    then show ?thesis using Cons bs by (auto simp: folded_def cstr_def compare_char_def)
  next
    case False
    then have "compare_name upcase (a # as) bs = Inr (compare_char upcase a b)" using bs by (auto simp: Let_def)
    moreover have "compare_char upcase a b = 0 \<longleftrightarrow> folded upcase (a # as) = folded upcase bs"
      using False bs z by (auto simp: folded_def cstr_def)
    ultimately show ?thesis by simp
  qed
qed

text \<open>
  compare_name is 0 exactly for two strings that are the same after every character has
  been replaced by its upper case.
\<close>

lemma compare_name_equal:
  assumes "null_apart upcase" "0 \<in> set as" "0 \<in> set bs"
  shows "\<exists>d. compare_name upcase as bs = Inr d \<and> (d = 0 \<longleftrightarrow> folded upcase as = folded upcase bs)"
  using assms by (rule compare_name_folded)

text \<open>A small table: the letters a, b and c.\<close>

definition demo_upcase :: "u16 list" where
  "demo_upcase = (map word_of_nat [0..<EXFAT_UPCASE_CHARS])[0x61 := 0x41, 0x62 := 0x42, 0x63 := 0x43]"

lemma demo_upcase_at: "i < 65536 \<Longrightarrow> demo_upcase ! i =
    (if i = 0x63 then 0x43 else if i = 0x62 then 0x42 else if i = 0x61 then 0x41 else word_of_nat i)"
  unfolding demo_upcase_def by (simp add: nth_list_update del: upt_rec_numeral)

lemma demo_upcase_apart: "null_apart demo_upcase"
  unfolding null_apart_def
proof (intro allI impI)
  fix u :: u16 assume "u \<noteq> 0"
  then have "0 < unat u" "unat u < 65536" using unat_bound[of u] by (simp_all add: unat_gt_0)
  then show "demo_upcase ! unat u \<noteq> demo_upcase ! unat (0 :: u16)" using \<open>u \<noteq> 0\<close> by (simp add: demo_upcase_at)
qed

lemma utf8_to_utf16_terminated: "utf8_to_utf16 outsize inp = Inr us \<Longrightarrow> 0 \<in> set us"
proof (induction outsize inp arbitrary: us rule: utf8_to_utf16.induct)
  case (1 outsize inp)
  then show ?case
    by (subst (asm) utf8_to_utf16.simps) (auto split: if_splits option.splits sum.splits)
qed

section \<open>Finding a child\<close>

definition same_name :: "exfat \<Rightarrow> u16 list \<Rightarrow> ptr \<Rightarrow> bool" where
  "same_name ef us q = (case ef_nodes ef q of None \<Rightarrow> False
     | Some n \<Rightarrow> folded (ef_upcase ef) us = folded (ef_upcase ef) (nd_name n))"

text \<open>
  A node that a reference can be taken of and given back without any trace, and whose name has
  its terminator.
\<close>

definition settled :: "exfat_node \<Rightarrow> bool" where
  "settled n \<longleftrightarrow> 0 \<le> nd_references n \<and> (\<not> nd_is_dirty n \<or> named n) \<and> 0 \<in> set (nd_name n)"

definition all_settled :: "exfat \<Rightarrow> ptr list \<Rightarrow> bool" where
  "all_settled ef xs \<longleftrightarrow> list_all (\<lambda>x. case ef_nodes ef x of None \<Rightarrow> False | Some n \<Rightarrow> settled n) xs"

definition bump :: "ptr \<Rightarrow> exfat \<Rightarrow> exfat" where
  "bump p ef = (case ef_nodes ef p of None \<Rightarrow> ef
     | Some n \<Rightarrow> put_node_at ef p (n\<lparr>nd_references := nd_references n + 1\<rparr>))"

lemma get_node_bump: "ef_nodes ef p = Some n \<Longrightarrow> exfat_get_node ef p = Inr (bump p ef)"
  by (simp add: get_node_Some bump_def)

lemma put_node_bump:
  "ef_nodes ef p = Some n \<Longrightarrow> settled n \<Longrightarrow> exfat_put_node (bump p ef) p = Inr ef"
  using put_after_get[of ef p n] by (simp add: get_node_bump settled_def)

lemma bump_frame [simp]: "ef_upcase (bump p ef) = ef_upcase ef" "ef_next_ptr (bump p ef) = ef_next_ptr ef"
  "links (bump p ef) = links ef"
  by (auto simp: bump_def links_put links_def split: option.splits)

lemma nodes_bump: "ef_nodes (bump p ef) x =
    (if x = p then map_option (\<lambda>n. n\<lparr>nd_references := nd_references n + 1\<rparr>) (ef_nodes ef p) else ef_nodes ef x)"
  by (auto simp: bump_def split: option.splits)

lemma bump_commute: "bump p (bump q ef) = bump q (bump p ef)"
  by (cases "p = q") (auto simp: bump_def put_node_commute split: option.splits)

text \<open>
  The loop over the children that are left, \<open>xs\<close>, of a directory \<open>d\<close> that was opened: the
  first one of the name is returned with a reference, and the directory is closed.
\<close>

lemma lookup_loop_find:
  assumes "ef_nodes ef d = Some dn" "settled dn" "d \<notin> set xs" "distinct xs" "all_settled ef xs"
    and "null_apart (ef_upcase ef)" "ef_upcase ef \<noteq> []" "0 \<in> set us"
    and "seg (links ef) d a p xs b None"
    and "p = (case a of None \<Rightarrow> nd_child dn | Some c \<Rightarrow> (case ef_nodes ef c of None \<Rightarrow> None | Some n \<Rightarrow> nd_next n))"
    and "\<forall>c. a = Some c \<longrightarrow> c \<noteq> d \<and> ef_nodes ef c \<noteq> None" "length xs < fuel"
  shows "lookup_loop fuel (bump d ef) \<lparr>it_parent = Some d, it_current = a\<rparr> us =
    Inr (case find (same_name ef us) xs of None \<Rightarrow> (ENOENT, None, ef) | Some q \<Rightarrow> (RC0, Some q, bump q ef))"
  using assms(3-)
proof (induction xs arbitrary: a p fuel)
  case Nil
  then obtain k where "fuel = Suc k" by (cases fuel) auto
  moreover have "p = None" using Nil by simp
  ultimately show ?case using Nil.prems assms(1,2)
    by (cases a) (auto simp: exfat_readdir_def exfat_closedir_def node_at_Some nodes_bump put_node_bump[OF assms(1,2)])
next
  case (Cons x xs)
  then obtain k where k: "fuel = Suc k" by (cases fuel) auto
  obtain n where n: "ef_nodes ef x = Some n" "settled n" and set: "all_settled ef xs"
    using Cons.prems(3) by (auto simp: all_settled_def split: option.splits)
  have lx: "links ef x = Some (nd_parent n, nd_prev n, nd_next n)" using n by (simp add: links_def)
  have p: "p = Some x" and s: "seg (links ef) d (Some x) (nd_next n) xs b None"
    using Cons.prems(7) lx by (auto split: option.splits)
  have xd: "x \<noteq> d" using Cons.prems(1) by auto
  have x1: "ef_nodes (bump d ef) x = Some n" using n xd by (simp add: nodes_bump)
  have x2: "ef_nodes (bump x (bump d ef)) x = Some (n\<lparr>nd_references := nd_references n + 1\<rparr>)"
    using x1 by (simp add: nodes_bump)
  have rd: "exfat_readdir (bump d ef) \<lparr>it_parent = Some d, it_current = a\<rparr>
      = Inr (Some x, \<lparr>it_parent = Some d, it_current = Some x\<rparr>, bump x (bump d ef))"
    using Cons.prems(8)[unfolded p, symmetric] Cons.prems(9) assms(1) get_node_bump[OF x1]
    by (cases a) (auto simp: exfat_readdir_def node_at_Some nodes_bump split: option.splits)
  obtain c where c: "compare_name (ef_upcase ef) us (nd_name n) = Inr c"
      "c = 0 \<longleftrightarrow> folded (ef_upcase ef) us = folded (ef_upcase ef) (nd_name n)"
    using compare_name_folded[OF Cons.prems(4,6)] n(2) by (auto simp: settled_def)
  have d2: "ef_nodes (bump x ef) d = Some dn" using assms(1) xd by (simp add: nodes_bump)
  show ?case
  proof (cases "c = 0")
    case True
    then have "same_name ef us x" using c n by (simp add: same_name_def)
    then show ?thesis using c True Cons.prems(5) x2 put_node_bump[OF d2 assms(2)]
      by (simp add: k rd node_at_Some exfat_closedir_def bump_commute[of x d])
  next
    case False
    then have "\<not> same_name ef us x" using c n by (simp add: same_name_def)
    moreover have "lookup_loop k (bump d ef) \<lparr>it_parent = Some d, it_current = Some x\<rparr> us =
      Inr (case find (same_name ef us) xs of None \<Rightarrow> (ENOENT, None, ef) | Some q \<Rightarrow> (RC0, Some q, bump q ef))"
      using Cons.prems s n xd k set by (intro Cons.IH[of "Some x" "nd_next n"]) auto
    ultimately show ?thesis using c False Cons.prems(5) x2 put_node_bump[OF x1 n(2)]
      by (simp add: k rd node_at_Some)
  qed
qed

definition heap_bounded :: "exfat \<Rightarrow> bool" where
  "heap_bounded ef \<longleftrightarrow> (\<forall>p. ef_nodes ef p \<noteq> None \<longrightarrow> p < ef_next_ptr ef)"

lemma children_few: "children ef d xs \<Longrightarrow> heap_bounded ef \<Longrightarrow> length xs \<le> ef_next_ptr ef"
proof -
  assume c: "children ef d xs" and h: "heap_bounded ef"
  have "set xs \<subseteq> {..<ef_next_ptr ef}" using children_node[OF c] h by (force simp: heap_bounded_def)
  then have "card (set xs) \<le> ef_next_ptr ef" using card_mono[of "{..<ef_next_ptr ef}"] by fastforce
  then show ?thesis using c by (simp add: children_def distinct_card)
qed

lemma lookup_name_find:
  assumes "utf8_to_utf16 (EXFAT_NAME_MAX + 1) name = Inr us"
    and "ef_nodes ef d = Some dn" "nd_is_cached dn" "children ef d xs" "all_settled ef (d # xs)"
    and "heap_bounded ef" "null_apart (ef_upcase ef)" "ef_upcase ef \<noteq> []"
  shows "lookup_name ef d name =
    Inr (case find (same_name ef us) xs of None \<Rightarrow> (ENOENT, None, ef) | Some q \<Rightarrow> (RC0, Some q, bump q ef))"
proof -
  have dn: "settled dn" "all_settled ef xs" using assms(2,5) by (auto simp: all_settled_def)
  obtain b where s: "seg (links ef) d None (nd_child dn) xs b None" and dist: "d \<notin> set xs" "distinct xs"
    using assms(2,4) by (auto simp: children_iff)
  have "exfat_opendir ef d = Inr (RC0, \<lparr>it_parent = Some d, it_current = None\<rparr>, bump d ef)"
    using assms(2,3) by (simp add: exfat_opendir_def get_node_bump exfat_cache_directory_def node_at_Some nodes_bump)
  moreover have "length xs < ef_next_ptr ef + 1" using children_few[OF assms(4,6)] by simp
  ultimately show ?thesis
    using lookup_loop_find[OF assms(2) dn(1) dist dn(2) assms(7,8) utf8_to_utf16_terminated[OF assms(1)] s]
    by (simp add: lookup_name_def assms(1)[simplified] del: lookup_loop.simps)
qed

text \<open>
  C18: in a directory whose children are cached, lookup_name finds the first child whose name
  is the wanted one but for case, and takes one reference to it; without one it reports
  ENOENT and changes nothing. It always terminates.
\<close>

theorem lookup_name_correct:
  assumes "utf8_to_utf16 (EXFAT_NAME_MAX + 1) name = Inr us"
    and "ef_nodes ef d = Some dn" "nd_is_cached dn" "children ef d xs" "all_settled ef (d # xs)"
    and "heap_bounded ef" "null_apart (ef_upcase ef)" "ef_upcase ef \<noteq> []"
  shows "lookup_name ef d name =
    Inr (case find (same_name ef us) xs of None \<Rightarrow> (ENOENT, None, ef) | Some q \<Rightarrow> (RC0, Some q, bump q ef))"
  using assms by (rule lookup_name_find)

definition demo_dir :: exfat where
  "demo_dir = demo_tree\<lparr>ef_upcase := demo_upcase\<rparr>"

lemma demo_dir_ok:
  "children demo_dir 0 [1, 2]" "all_settled demo_dir [0, 1, 2]" "heap_bounded demo_dir"
  "null_apart (ef_upcase demo_dir)" "ef_upcase demo_dir \<noteq> []"
proof -
  show "children demo_dir 0 [1, 2]" by (simp add: children_def demo_dir_def demo_tree_def links_def)
  show "all_settled demo_dir [0, 1, 2]"
    by (simp add: all_settled_def demo_dir_def demo_tree_def settled_def zero_node_def overlay_def)
  show "heap_bounded demo_dir" by (simp add: heap_bounded_def demo_dir_def demo_tree_def)
  show "null_apart (ef_upcase demo_dir)" by (simp add: demo_dir_def demo_upcase_apart)
  show "ef_upcase demo_dir \<noteq> []" by (simp add: demo_dir_def demo_upcase_def)
qed

theorem lookup_name_correct_witness:
  "lookup_name demo_dir 0 [0x42] = Inr (RC0, Some 2, bump 2 demo_dir)"
proof -
  have u: "utf8_to_utf16 (EXFAT_NAME_MAX + 1) [0x42] = Inr [0x42, 0]" by code_simp
  obtain dn where d: "ef_nodes demo_dir 0 = Some dn" "nd_is_cached dn" by (simp add: demo_dir_def demo_tree_def)
  have "folded demo_upcase [0x42, 0] = [0x42]" "folded demo_upcase (overlay 0 [0x61] (replicate 256 0)) = [0x41]"
    "folded demo_upcase (overlay 0 [0x62] (replicate 256 0)) = [0x42]"
    by (simp_all add: folded_def cstr_def overlay_def demo_upcase_at)
  then have "find (same_name demo_dir [0x42, 0]) [1, 2] = Some 2"
    by (simp add: same_name_def demo_dir_def demo_tree_def)
  then show ?thesis using lookup_name_correct[OF u d demo_dir_ok] by simp
qed

section \<open>Paths\<close>

text \<open>The components of a path: the words between slashes that are neither empty nor ".".\<close>

definition components :: "u8 list \<Rightarrow> u8 list list" where
  "components path = filter (\<lambda>c. c \<noteq> [] \<and> c \<noteq> [0x2e]) (split_at SLASH path)"

lemma components_slash: "components (SLASH # path) = components path"
  by (simp add: components_def)

lemma components_skip: "components (dropWhile (\<lambda>c. c = SLASH) path) = components path"
  by (induction path) (auto simp: components_slash)

lemma components_word:
  assumes "SLASH \<notin> set w" "rest = [] \<or> hd rest = SLASH"
  shows "components (w @ rest) = (if w = [] \<or> w = [0x2e] then [] else [w]) @ components rest"
proof (cases rest)
  case Nil
  then show ?thesis using assms(1) by (simp add: components_def split_at_word)
next
  case (Cons s r)
  then have "s = SLASH" using assms(2) by simp
  then show ?thesis using assms(1) Cons by (simp add: components_def split_at_append)
qed

lemma get_comp_parts:
  assumes "get_comp path = (n, p)"
  shows "p = dropWhile (\<lambda>c. c = SLASH) path" "take n p = takeWhile (\<lambda>c. c \<noteq> SLASH) p"
    "drop n p = dropWhile (\<lambda>c. c \<noteq> SLASH) p" "n = length (take n p)" "n = 0 \<longleftrightarrow> p = []"
proof -
  have p: "p = dropWhile (\<lambda>c. c = SLASH) path" "n = length (takeWhile (\<lambda>c. c \<noteq> SLASH) p)"
    using assms by (auto simp: get_comp_def Let_def)
  show "p = dropWhile (\<lambda>c. c = SLASH) path" by (rule p(1))
  show t: "take n p = takeWhile (\<lambda>c. c \<noteq> SLASH) p" unfolding p(2) by (rule takeWhile_eq_take[symmetric])
  show "drop n p = dropWhile (\<lambda>c. c \<noteq> SLASH) p" unfolding p(2) by (rule dropWhile_eq_drop[symmetric])
  show "n = length (take n p)" unfolding t by (rule p(2))
  show "n = 0 \<longleftrightarrow> p = []"
  proof (cases p)
    case (Cons x xs)
    then have "x \<noteq> SLASH" using hd_dropWhile[of "\<lambda>c. c = SLASH" path] p(1) by simp
    then show ?thesis using p(2) Cons by simp
  qed (simp add: p(2))
qed

lemma get_comp_components:
  assumes "get_comp path = (n, p)"
  shows "components path = (if n = 0 \<or> take n p = [0x2e] then [] else [take n p]) @ components (drop n p)"
proof -
  note g = get_comp_parts[OF assms]
  have "SLASH \<notin> set (take n p)" unfolding g(2) by (auto dest: set_takeWhileD)
  moreover have "drop n p = [] \<or> hd (drop n p) = SLASH"
    using hd_dropWhile[of "\<lambda>c. c \<noteq> SLASH" p] unfolding g(3) by blast
  ultimately have "components (take n p @ drop n p)
      = (if take n p = [] \<or> take n p = [0x2e] then [] else [take n p]) @ components (drop n p)"
    by (rule components_word)
  moreover have "components path = components p" unfolding g(1) by (rule components_skip[symmetric])
  moreover have "take n p = [] \<longleftrightarrow> n = 0" using g(4,5) by auto
  ultimately show ?thesis by (simp only: append_take_drop_id)
qed

text \<open>Walking a list of components, one \<open>lookup_name\<close> each.\<close>

primrec walk_components :: "exfat \<Rightarrow> ptr \<Rightarrow> u8 list list \<Rightarrow> fault + (retcode \<times> ptr option \<times> exfat)" where
  "walk_components ef parent [] = Inr (RC0, Some parent, ef)"
| "walk_components ef parent (c # cs) =
     andThen (lookup_name ef parent c) (\<lambda>(rc, node, ef).
       andThen (exfat_put_node ef parent) (\<lambda>ef.
         if rc \<noteq> RC0 then Inr (rc, node, ef)
         else case node of None \<Rightarrow> Inl Undef | Some q \<Rightarrow> walk_components ef q cs))"

lemma andThen_cong_fun: "(\<And>x. k x = k' x) \<Longrightarrow> andThen r k = andThen r k'"
  by (cases r) auto

lemma dot_component: "n = length (take n p) \<Longrightarrow> n = 1 \<and> p ! 0 = c \<longleftrightarrow> take n p = [c]"
  by (cases p) (auto simp: take_Cons split: nat.splits)

lemma lookup_path_walk: "lookup_path ef parent path = walk_components ef parent (components path)"
proof (induction ef parent path rule: lookup_path.induct)
  case (1 ef parent path)
  obtain n p where g: "get_comp path = (n, p)" by (cases "get_comp path")
  note c = get_comp_components[OF g] and parts = get_comp_parts[OF g] and dot = dot_component[OF get_comp_parts(4)[OF g]]
    and unf = lookup_path.simps[of ef parent path, unfolded g prod.case]
  consider "n = 0" | "n \<noteq> 0" "take n p = [0x2e]" | "n \<noteq> 0" "take n p \<noteq> [0x2e]" by blast
  then show ?case
  proof cases
    case 1
    then have "components path = []" using c parts(5) by (simp add: components_def)
    then show ?thesis unfolding unf if_P[OF 1] by simp
  next
    case 2
    then have d: "n = 1 \<and> p ! 0 = 0x2e" using dot by blast
    have "components path = components (drop n p)" using c 2 by simp
    then show ?thesis using "1.IH"(1)[OF g[symmetric] 2(1) d] unfolding unf if_not_P[OF 2(1)] if_P[OF d] by simp
  next
    case 3
    then have d: "\<not> (n = 1 \<and> p ! 0 = 0x2e)" using dot by blast
    have comps: "components path = take n p # components (drop n p)" using c 3 by simp
    show ?thesis unfolding unf if_not_P[OF 3(1)] if_not_P[OF d] comps walk_components.simps
    proof (rule andThen_cong[OF refl])
      fix r assume r: "lookup_name ef parent (take n p) = Inr r"
      obtain rc node ef1 where rr: "r = (rc, node, ef1)" by (cases r)
      show "(case r of (rc, node, ef) \<Rightarrow>
          if rc \<noteq> RC0 then andThen (exfat_put_node ef parent) (\<lambda>ef. Inr (rc, node, ef))
          else andThen (exfat_put_node ef parent) (\<lambda>ef.
            case node of None \<Rightarrow> Inl Undef | Some q \<Rightarrow> lookup_path ef q (drop n p))) =
        (case r of (rc, node, ef) \<Rightarrow> andThen (exfat_put_node ef parent) (\<lambda>ef.
         if rc \<noteq> RC0 then Inr (rc, node, ef)
         else case node of None \<Rightarrow> Inl Undef | Some q \<Rightarrow> walk_components ef q (components (drop n p))))"
      proof (cases "rc = RC0")
        case True
        have "lookup_path ef2 q (drop n p) = walk_components ef2 q (components (drop n p))"
          if "node = Some q" "exfat_put_node ef1 parent = Inr ef2" for q ef2
          using "1.IH"(2)[OF g[symmetric] 3(1) d r, of rc "(node, ef1)" node ef1 ef2 q] rr True that by simp
        then show ?thesis using True by (cases node; cases "exfat_put_node ef1 parent") (simp_all add: rr)
      next
        case False
        then show ?thesis by (simp add: rr)
      qed
    qed
  qed
qed

text \<open>
  C19: looking up a path walks the tree along its components: repeated slashes, leading and
  trailing ones and "." make no difference.
\<close>

theorem lookup_by_components:
  "exfat_lookup ef path =
   andThen (exfat_get_node ef (ef_root ef)) (\<lambda>ef. walk_components ef (ef_root ef) (components path))"
  by (simp add: exfat_lookup_def lookup_path_walk)

end
