(* ===== verification/CacheProofs.thy ===== *)
theory CacheProofs
  imports LookupProofs
begin

text \<open>
  Caching a directory: the walk over its entries ends within its fuel, and builds the list of
  children or leaves none behind.
\<close>

section \<open>Ending within the fuel\<close>

text \<open>\<open>ends P r\<close>: the computation does not run out of fuel, and a result satisfies \<open>P\<close>.\<close>

definition ends :: "('a \<Rightarrow> bool) \<Rightarrow> fault + 'a \<Rightarrow> bool" where
  "ends P r \<longleftrightarrow> r \<noteq> Inl OutOfFuel \<and> post P r"

lemma ends_Inr [simp]: "ends P (Inr x) = P x" and ends_Inl [simp]: "ends P (Inl e) \<longleftrightarrow> e \<noteq> OutOfFuel"
  by (auto simp: ends_def)

lemma ends_bind: "ends Q r \<Longrightarrow> (\<And>x. Q x \<Longrightarrow> ends P (k x)) \<Longrightarrow> ends P (andThen r k)"
  by (cases r) auto

lemma ends_weaken: "ends Q r \<Longrightarrow> (\<And>x. Q x \<Longrightarrow> P x) \<Longrightarrow> ends P r"
  by (cases r) auto

lemma ends_bind_any: "ends (\<lambda>_. True) r \<Longrightarrow> (\<And>x. ends P (k x)) \<Longrightarrow> ends P (andThen r k)"
  by (rule ends_bind)

section \<open>What leaves the list of children alone\<close>

definition same_dir :: "exfat_node \<Rightarrow> exfat_node \<Rightarrow> bool" where
  "same_dir n m \<longleftrightarrow> nd_size m = nd_size n \<and> nd_child m = nd_child n \<and> nd_parent m = nd_parent n \<and>
     nd_prev m = nd_prev n \<and> nd_next m = nd_next n \<and> nd_is_cached m = nd_is_cached n"

definition touched :: "ptr \<Rightarrow> exfat \<Rightarrow> exfat \<Rightarrow> bool" where
  "touched dir ef ef' \<longleftrightarrow> ef_next_ptr ef \<le> ef_next_ptr ef' \<and>
     (\<exists>d d'. ef_nodes ef dir = Some d \<and> ef_nodes ef' = (ef_nodes ef)(dir \<mapsto> d') \<and> same_dir d d')"

lemma same_dir_refl [simp]: "same_dir n n"
  by (simp add: same_dir_def)

lemma same_dir_trans: "same_dir a b \<Longrightarrow> same_dir b c \<Longrightarrow> same_dir a c"
  by (simp add: same_dir_def)

lemma touched_refl: "ef_nodes ef dir = Some d \<Longrightarrow> touched dir ef ef"
  by (auto simp: touched_def fun_upd_idem intro!: exI[of _ d])

lemma touched_frame:
  "touched dir ef ef1 \<Longrightarrow> ef_nodes ef2 = ef_nodes ef1 \<Longrightarrow> ef_next_ptr ef2 = ef_next_ptr ef1 \<Longrightarrow> touched dir ef ef2"
  by (simp add: touched_def)

lemma touched_put:
  "ef_nodes ef dir = Some d \<Longrightarrow> ef_nodes ef1 = ef_nodes ef \<Longrightarrow> ef_next_ptr ef1 = ef_next_ptr ef \<Longrightarrow> same_dir d d' \<Longrightarrow>
   touched dir ef (put_node_at ef1 dir d')"
  by (auto simp: touched_def)

lemma touched_trans: "touched dir ef ef1 \<Longrightarrow> touched dir ef1 ef2 \<Longrightarrow> touched dir ef ef2"
  using same_dir_trans by (fastforce simp: touched_def)

lemma touched_dir: "touched dir ef ef1 \<Longrightarrow> ef_nodes ef dir = Some d \<Longrightarrow> \<exists>d'. ef_nodes ef1 dir = Some d' \<and> same_dir d d'"
  by (auto simp: touched_def)

section \<open>Reading and writing inside the directory\<close>

lemma next_ends: "ends (\<lambda>_. True) (exfat_next_cluster ef node c)" and c2o_ends: "ends (\<lambda>_. True) (exfat_c2o sb c)"
  by (auto simp: exfat_next_cluster_def exfat_c2o_def c2s_def andThen_def split: option.splits sum.splits)

lemma advance_loop_ends: "ends (\<lambda>_. True) (advance_loop ef node c k)"
  by (induction k arbitrary: c) (auto intro!: ends_bind_any next_ends)

lemma advance_ends: "ends (\<lambda>(_, node'). same_dir node node') (exfat_advance_cluster ef node u)"
  by (auto simp: exfat_advance_cluster_def Let_def same_dir_def intro!: ends_bind_any advance_loop_ends)

lemma read_loop_ends: "ends (\<lambda>(_, got). length got = length buf) (read_loop ef node c lo buf)"
proof (induction "length buf + (if lo = 0 then 0 else 1)" arbitrary: c lo buf rule: less_induct)
  case less
  let ?l = "min (CLUSTER_SIZE (ef_sb ef) - lo) (length buf)"
  have ih: "ends (\<lambda>(_, got). length got = length (drop ?l buf)) (read_loop ef node c' 0 (drop ?l buf))" if "buf \<noteq> []" for c'
    using that less[of "drop ?l buf" 0] by (cases "lo = 0") auto
  then show ?case
    by (subst read_loop.simps)
      (auto simp: Let_def intro!: ends_bind_any[OF c2o_ends] ends_bind_any[OF next_ends] ends_bind[OF ih] split: option.splits
        dest!: length_pread_into)
qed

lemma unat_off: "0 \<le> off \<Longrightarrow> off < 2 ^ 64 \<Longrightarrow> unat (word_of_int off :: u64) = nat off"
  by (simp add: unat_eq_nat_uint uint_word_of_int)

lemma off_below:
  assumes "0 \<le> off" "nat off + n \<le> unat (z :: u64)"
  shows "off + int n < 2 ^ 64"
proof -
  have "nat off + n < 2 ^ 64" using assms(2) unat_bound[of z] by simp
  then have "int (nat off + n) < int (2 ^ 64)" by (simp only: of_nat_less_iff)
  then show ?thesis using assms(1) by simp
qed

lemma pread_ends:
  "ends (\<lambda>(r, bs, node'). same_dir node node' \<and> length bs = length buf \<and>
     (r = Inr (length buf) \<and> buf \<noteq> [] \<and> 0 \<le> off \<and> off < 2 ^ 64 \<longrightarrow> nat off + length buf \<le> unat (nd_size node)))
   (exfat_generic_pread ef node buf off)"
proof -
  have inside: "nat off + n \<le> unat z" if "min n (unat (z - word_of_int off)) = n" "\<not> z \<le> word_of_int off" "0 \<le> off" "off < 18446744073709551616"
    for n and z :: u64
  proof -
    have "unat (word_of_int off :: u64) = nat off" using that(3,4) unat_off[of off] by simp
    then show ?thesis using that(1,2) by (simp add: unat_sub word_le_nat_alt)
  qed
  show ?thesis
    unfolding exfat_generic_pread_def Let_def
    by (auto intro!: ends_bind[OF advance_ends] ends_bind[OF read_loop_ends] simp: exfat_update_atime_def same_dir_def;
      rule inside; simp)
qed

lemma write_loop_ends:
  "ends (\<lambda>(_, ef'). ef_nodes ef' = ef_nodes ef \<and> ef_next_ptr ef' = ef_next_ptr ef) (write_loop ef node c lo bs)"
proof (induction "length bs + (if lo = 0 then 0 else 1)" arbitrary: ef c lo bs rule: less_induct)
  case less
  let ?l = "min (CLUSTER_SIZE (ef_sb ef) - lo) (length bs)"
  have "ends (\<lambda>(_, ef'). ef_nodes ef' = ef_nodes ef \<and> ef_next_ptr ef' = ef_next_ptr ef)
      (write_loop (ef\<lparr>ef_dev := d\<rparr>) node c' 0 (drop ?l bs))" if "bs \<noteq> []" for c' d
    using that less[of "drop ?l bs" 0 "ef\<lparr>ef_dev := d\<rparr>"] by (cases "lo = 0") auto
  then show ?case
    by (subst write_loop.simps) (auto simp: Let_def intro!: ends_bind_any c2o_ends next_ends split: option.splits)
qed

lemma pwrite_ends:
  assumes "0 \<le> off" "nat off + length bs \<le> unat (nd_size node)"
  shows "ends (\<lambda>(_, ef', node'). same_dir node node' \<and> ef_nodes ef' = ef_nodes ef \<and> ef_next_ptr ef' = ef_next_ptr ef)
    (exfat_generic_pwrite ef node bs off)"
proof -
  have b: "nat off + length bs < 2 ^ 64" using assms(2) unat_bound[of "nd_size node"] by simp
  then have "nat off < 2 ^ 64" by linarith
  then have "unat (word_of_int off :: u64) = nat off" using assms(1) unat_off[of off] by (simp add: nat_less_iff)
  moreover from this and b have "unat (word_of_int off + word_of_nat (length bs) :: u64) = nat off + length bs"
    by (simp add: unat_add_lem[THEN iffD1] unat_of_nat)
  ultimately have c: "\<not> nd_size node < word_of_int off" "\<not> nd_size node < word_of_int off + word_of_nat (length bs)"
    using assms(2) by (simp_all add: word_less_nat_alt)
  show ?thesis
    unfolding exfat_generic_pwrite_def Let_def if_not_P[OF c(1)] andThen_Inr prod.case if_not_P[OF c(2)]
    by (auto intro!: ends_bind[OF advance_ends] ends_bind[OF write_loop_ends] simp: exfat_update_mtime_def same_dir_def)
qed

lemma node_at_ends: "ef_nodes ef p = Some n \<Longrightarrow> ends (\<lambda>m. m = n) (node_at ef p)"
  by (simp add: node_at_Some)

lemma read_entries_ends:
  assumes "ef_nodes ef dir = Some d" "0 < n"
  shows "ends (\<lambda>(rc, es, ef'). touched dir ef ef' \<and> length es = n \<and> length (es ! 0) = 32 \<and>
      (rc = RC0 \<and> 0 \<le> off \<and> off < 2 ^ 64 \<longrightarrow> nat off + 32 * n \<le> unat (nd_size d))) (read_entries ef dir n off)"
  unfolding read_entries_def node_at_Some[OF assms(1)] andThen_Inr
  using assms
  by (auto intro!: ends_bind[OF pread_ends] touched_put simp: entries_of_def split: sum.splits if_splits)

section \<open>Parsing an entry set\<close>

definition entered :: "ptr \<Rightarrow> exfat \<Rightarrow> ptr \<Rightarrow> exfat \<Rightarrow> bool" where
  "entered dir ef p ef' \<longleftrightarrow> (\<exists>ef1 new. touched dir ef ef1 \<and> p = ef_next_ptr ef1 \<and>
     ef_nodes ef' = (ef_nodes ef1)(p \<mapsto> new) \<and> ef_next_ptr ef' = Suc p \<and>
     nd_parent new = None \<and> nd_prev new = None \<and> nd_next new = None)"

lemma entered_trans: "touched dir ef ef1 \<Longrightarrow> entered dir ef1 p ef2 \<Longrightarrow> entered dir ef p ef2"
  unfolding entered_def using touched_trans by blast

lemma get_name_ends: "ends (\<lambda>_. True) (exfat_get_name n)"
  by (auto simp: exfat_get_name_def split: sum.splits)

lemma report_ends: "ends (\<lambda>_. True) (report bad n r)"
  by (auto simp: report_def intro!: ends_bind_any get_name_ends)

text \<open>The nodes and the links of the node in hand.\<close>

definition unlinked :: "exfat_node \<Rightarrow> bool" where
  "unlinked n \<longleftrightarrow> nd_parent n = None \<and> nd_prev n = None \<and> nd_next n = None"

definition heap_kept :: "exfat \<Rightarrow> exfat \<Rightarrow> bool" where
  "heap_kept ef ef' \<longleftrightarrow> ef_nodes ef' = ef_nodes ef \<and> ef_next_ptr ef' = ef_next_ptr ef"

lemma heap_kept_refl [simp]: "heap_kept ef ef"
  by (simp add: heap_kept_def)

lemma ask_heap: "exfat_ask_to_fix ef = (yes, ef') \<Longrightarrow> heap_kept ef ef'"
  by (auto simp: exfat_ask_to_fix_def heap_kept_def split: repair_mode.splits prod.splits)

lemma check_node_ends:
  "unlinked node \<Longrightarrow> ends (\<lambda>(ok, ef', node'). heap_kept ef ef' \<and> unlinked node') (check_node ef node s m1 m2)"
  unfolding check_node_def Let_def
  by (rule ends_bind[where Q = "\<lambda>(ret, ef', node'). heap_kept ef ef' \<and> unlinked node'"])
    (auto intro!: ends_bind_any get_name_ends report_ends simp: exfat_fix_invalid_node_checksum_def unlinked_def
      split: prod.splits dest!: ask_heap simp: heap_kept_def)

lemma parse_file_entries_ends:
  "unlinked node \<Longrightarrow> ends (\<lambda>(rc, ef', node'). heap_kept ef ef' \<and> unlinked node') (parse_file_entries ef node es)"
  unfolding parse_file_entries_def Let_def
  by (auto intro!: ends_bind[OF check_node_ends] simp: unlinked_def init_node_name_def init_node_meta1_def init_node_meta2_def)

lemma touched_bounded: "touched dir ef ef' \<Longrightarrow> heap_bounded ef \<Longrightarrow> heap_bounded ef'"
  by (force simp: touched_def heap_bounded_def split: if_splits)

text \<open>A number given to a node and taken back: the number of the next one has grown.\<close>

lemma parse_file_entry_ends:
  assumes "ef_nodes ef dir = Some d" "heap_bounded ef" "0 < n" "0 \<le> off" "off < 2 ^ 64"
  shows "ends (\<lambda>(rc, p, off', ef'). (rc \<noteq> RC0 \<longrightarrow> touched dir ef ef') \<and>
      (rc = RC0 \<longrightarrow> entered dir ef p ef' \<and> off + 32 \<le> off' \<and> nat off' \<le> unat (nd_size d)))
    (parse_file_entry ef dir off n)"
  unfolding parse_file_entry_def
proof (rule ends_bind[OF read_entries_ends[OF assms(1,3)]])
  fix x :: "retcode \<times> exfat_entry list \<times> exfat"
  assume x: "case x of (rc, es, ef') \<Rightarrow> touched dir ef ef' \<and> length es = n \<and> length (es ! 0) = 32 \<and>
      (rc = RC0 \<and> 0 \<le> off \<and> off < 2 ^ 64 \<longrightarrow> nat off + 32 * n \<le> unat (nd_size d))"
  obtain rc es ef1 where xx: "x = (rc, es, ef1)" by (cases x)
  then have t: "touched dir ef ef1" and sz: "rc = RC0 \<Longrightarrow> nat off + 32 * n \<le> unat (nd_size d)" using x assms by auto
  have b1: "ef_nodes ef1 (ef_next_ptr ef1) = None" using touched_bounded[OF t assms(2)] by (auto simp: heap_bounded_def)
  show "ends (\<lambda>(rc, p, off', ef'). (rc \<noteq> RC0 \<longrightarrow> touched dir ef ef') \<and>
      (rc = RC0 \<longrightarrow> entered dir ef p ef' \<and> off + 32 \<le> off' \<and> nat off' \<le> unat (nd_size d)))
    (case x of (rc, entries, ef) \<Rightarrow>
      if rc \<noteq> RC0 then Inr (rc, 0, off, ef)
      else (case allocate_node ef of
          None \<Rightarrow> Inr (ENOMEM, 0, off, ef)
        | Some (p, ef) \<Rightarrow>
            andThen (parse_file_entries ef (zero_node\<lparr>nd_entry_offset := off\<rparr>) entries) (\<lambda>(rc, ef, node).
              if rc \<noteq> RC0 then Inr (rc, p, off, free_node ef p)
              else Inr (RC0, p, off + 32 * int n, put_node_at ef p node))))"
  proof (cases "rc = RC0 \<and> ef_malloc_ok ef1 600")
    case False
    then show ?thesis using t by (auto simp: xx allocate_node_def)
  next
    case True
    let ?ef2 = "(put_node_at ef1 (ef_next_ptr ef1) zero_node)\<lparr>ef_next_ptr := ef_next_ptr ef1 + 1\<rparr>"
    have a: "allocate_node ef1 = Some (ef_next_ptr ef1, ?ef2)" using True by (simp add: allocate_node_def)
    have u: "unlinked (zero_node\<lparr>nd_entry_offset := off\<rparr>)" by (simp add: unlinked_def)
    have "touched dir ef (free_node ef' (ef_next_ptr ef1))" if "heap_kept ?ef2 ef'" for ef'
    proof -
      have "ef_nodes (free_node ef' (ef_next_ptr ef1)) = ef_nodes ef1"
        using b1 that by (simp add: free_node_def heap_kept_def put_node_at_def fun_upd_idem)
      then show ?thesis using t that by (auto simp: touched_def heap_kept_def free_node_def)
    qed
    moreover have "entered dir ef (ef_next_ptr ef1) (put_node_at ef' (ef_next_ptr ef1) n)" if "heap_kept ?ef2 ef'" "unlinked n" for ef' n
      using t that by (auto simp: entered_def unlinked_def heap_kept_def put_node_at_def intro!: exI[of _ ef1])
    moreover have "nat (off + 32 * int n) = nat off + 32 * n" using assms(4) by (simp add: nat_add_distrib)
    ultimately show ?thesis using sz True assms(3)
      by (auto simp: xx a intro!: ends_bind[OF parse_file_entries_ends[OF u]])
  qed
qed

section \<open>Reading the next node\<close>

lemma touched_kept: "ef_nodes ef dir = Some d \<Longrightarrow> heap_kept ef ef' \<Longrightarrow> touched dir ef ef'"
  by (auto simp: touched_def heap_kept_def fun_upd_idem intro!: exI[of _ d])

lemma upcase_entry_ends: "ends (\<lambda>(_, ef'). heap_kept ef ef') (read_upcase_entry ef e)"
  and bitmap_entry_ends: "ends (\<lambda>(_, ef'). heap_kept ef ef') (read_bitmap_entry ef e)"
  and label_entry_ends: "ends (\<lambda>(_, ef'). heap_kept ef ef') (read_label_entry ef e)"
  unfolding read_upcase_entry_def read_bitmap_entry_def read_label_entry_def Let_def
  by (auto intro!: ends_bind_any c2o_ends simp: heap_kept_def split: option.splits sum.splits)

lemma unknown_entry_ends:
  assumes "ef_nodes ef dir = Some d" "length e = 32" "0 \<le> off" "nat off + 32 \<le> unat (nd_size d)"
  shows "ends (\<lambda>(_, ef'). touched dir ef ef') (read_unknown_entry ef dir e off)"
proof -
  have repaired: "ends (\<lambda>(_, ef'). touched dir ef1 ef') (exfat_fix_unknown_entry ef1 dir e off)" if "heap_kept ef ef1" for ef1
    unfolding exfat_fix_unknown_entry_def Let_def
    by (rule ends_bind[OF node_at_ends[of _ _ d]], use that assms(1) in \<open>simp add: heap_kept_def\<close>)
      (use that assms in \<open>auto simp: heap_kept_def touched_def intro!: ends_bind[OF pwrite_ends]\<close>)
  have k: "heap_kept ef ef1 \<Longrightarrow> touched dir ef1 ef2 \<Longrightarrow> touched dir ef ef2" for ef1 ef2
    by (simp add: touched_def heap_kept_def)
  show ?thesis
    unfolding read_unknown_entry_def
    by (auto split: prod.splits dest!: ask_heap intro!: ends_bind[OF repaired] intro: k touched_kept[OF assms(1)])
qed

lemma readdir_loop_ends:
  assumes "ef_nodes ef dir = Some d" "heap_bounded ef" "0 \<le> off" "off < 2 ^ 64" "0 < fuel" "unat (nd_size d) < nat off + 32 * fuel"
  shows "ends (\<lambda>(rc, p, off', ef'). (rc \<noteq> RC0 \<longrightarrow> touched dir ef ef') \<and>
      (rc = RC0 \<longrightarrow> entered dir ef p ef' \<and> off + 32 \<le> off' \<and> nat off' \<le> unat (nd_size d)))
    (readdir_loop fuel ef dir off)"
  using assms
proof (induction fuel arbitrary: ef d off)
  case (Suc fuel)
  let ?P = "\<lambda>ef (d :: exfat_node) off (rc, p, off', ef'). (rc \<noteq> RC0 \<longrightarrow> touched dir ef ef') \<and>
      (rc = RC0 \<longrightarrow> entered dir ef p ef' \<and> off + 32 \<le> off' \<and> nat off' \<le> unat (nd_size d))"
  show ?case
    unfolding readdir_loop.simps
  proof (rule ends_bind[OF read_entries_ends[OF Suc.prems(1) zero_less_one]], clarify)
    fix rc :: retcode and es :: "exfat_entry list" and ef1 :: exfat
    assume t: "touched dir ef ef1" and es: "length es = 1" "length (es ! 0) = 32"
      and sz: "rc = RC0 \<and> 0 \<le> off \<and> off < 2 ^ 64 \<longrightarrow> nat off + 32 * 1 \<le> unat (nd_size d)"
    obtain d1 where d1: "ef_nodes ef1 dir = Some d1" "nd_size d1 = nd_size d"
      using touched_dir[OF t Suc.prems(1)] by (auto simp: same_dir_def)
    have hb1: "heap_bounded ef1" by (rule touched_bounded[OF t Suc.prems(2)])
    show "ends (?P ef d off) (if rc \<noteq> RC0 then Inr (rc, 0, off, ef1)
       else let entry = es ! 0; t = entry_type entry in
         if t = EXFAT_ENTRY_FILE then
           parse_file_entry ef1 dir off (1 + unat (meta1_continuations entry))
         else andThen
           (if t = EXFAT_ENTRY_UPCASE then read_upcase_entry ef1 entry
            else if t = EXFAT_ENTRY_BITMAP then read_bitmap_entry ef1 entry
            else if t = EXFAT_ENTRY_LABEL then read_label_entry ef1 entry
            else read_unknown_entry ef1 dir entry off) (\<lambda>(rc, ef).
             if rc \<noteq> RC0 then Inr (rc, 0, off, ef)
             else readdir_loop fuel ef dir (off + 32)))"
    proof (cases "rc = RC0")
      case False
      then show ?thesis using t by simp
    next
      case True
      then have in_dir: "nat off + 32 \<le> unat (nd_size d)" using sz Suc.prems by simp
      have filed: "ends (?P ef d off) (parse_file_entry ef1 dir off (1 + unat (meta1_continuations (es ! 0))))"
        by (rule ends_weaken[OF parse_file_entry_ends[OF d1(1) hb1 _ Suc.prems(3,4)]])
          (auto simp: d1 intro: touched_trans[OF t] entered_trans[OF t])
      have rest: "ends (?P ef d off) (if rc' \<noteq> RC0 then Inr (rc', 0, off, ef2) else readdir_loop fuel ef2 dir (off + 32))"
        if "touched dir ef1 ef2" for rc' ef2
      proof -
        have t2: "touched dir ef ef2" by (rule touched_trans[OF t that])
        obtain d2 where d2: "ef_nodes ef2 dir = Some d2" "nd_size d2 = nd_size d"
          using touched_dir[OF t2 Suc.prems(1)] by (auto simp: same_dir_def)
        have off: "nat (off + 32) = nat off + 32" using Suc.prems(3) by (simp add: nat_add_distrib)
        have "off + 32 < 2 ^ 64" using off_below[OF Suc.prems(3) in_dir] by simp
        moreover have "0 < fuel" using in_dir Suc.prems(6) by (cases fuel) auto
        ultimately have "ends (?P ef2 d2 (off + 32)) (readdir_loop fuel ef2 dir (off + 32))"
          using Suc.IH[OF d2(1) touched_bounded[OF t2 Suc.prems(2)], of "off + 32"] Suc.prems(3,6) off d2(2) by simp
        then have "ends (?P ef d off) (readdir_loop fuel ef2 dir (off + 32))"
          by (rule ends_weaken) (auto simp: d2 intro: touched_trans[OF t2] entered_trans[OF t2])
        then show ?thesis using t2 by simp
      qed
      have k: "touched dir ef1 ef2" if "heap_kept ef1 ef2" for ef2 using touched_kept[OF d1(1) that] .
      show ?thesis
        using True filed
        by (auto simp: Let_def intro!: ends_bind[OF upcase_entry_ends] ends_bind[OF bitmap_entry_ends] ends_bind[OF label_entry_ends]
            ends_bind[OF unknown_entry_ends[OF d1(1) es(2) Suc.prems(3)]] rest k in_dir[folded d1(2)])
    qed
  qed
qed simp

section \<open>The list of children while it is built\<close>

lemma children_touched: "touched dir ef ef' \<Longrightarrow> children ef dir xs \<Longrightarrow> children ef' dir xs"
proof -
  assume t: "touched dir ef ef'" and c: "children ef dir xs"
  obtain d d' where d: "ef_nodes ef dir = Some d" "ef_nodes ef' = (ef_nodes ef)(dir \<mapsto> d')" "same_dir d d'"
    using t by (auto simp: touched_def)
  have "links ef' = links ef" using d by (auto simp: links_def same_dir_def)
  then show ?thesis using c d by (simp add: children_def same_dir_def)
qed

lemma children_add_node:
  "children ef dir xs \<Longrightarrow> p \<noteq> dir \<Longrightarrow> p \<notin> set xs \<Longrightarrow> ef_nodes ef' = (ef_nodes ef)(p \<mapsto> n) \<Longrightarrow> children ef' dir xs"
proof -
  assume c: "children ef dir xs" and p: "p \<noteq> dir" "p \<notin> set xs" and n: "ef_nodes ef' = (ef_nodes ef)(p \<mapsto> n)"
  have "seg (links ef') d a q xs b r = seg (links ef) d a q xs b r" for d a q b r
    by (rule seg_cong) (use p n in \<open>auto simp: links_def\<close>)
  then show ?thesis using c p n by (auto simp: children_iff)
qed

text \<open>The part of \<open>cache_loop\<close> that puts a node at the end of the list.\<close>

definition append_child :: "exfat \<Rightarrow> ptr \<Rightarrow> ptr option \<Rightarrow> ptr \<Rightarrow> fault + exfat" where
  "append_child ef dir current node =
     andThen (modify_node ef node (\<lambda>n. n\<lparr>nd_parent := Some dir\<rparr>)) (\<lambda>ef.
       case current of
         Some c \<Rightarrow>
           andThen (modify_node ef c (\<lambda>n. n\<lparr>nd_next := Some node\<rparr>)) (\<lambda>ef.
             modify_node ef node (\<lambda>n. n\<lparr>nd_prev := Some c\<rparr>))
       | None \<Rightarrow> modify_node ef dir (\<lambda>n. n\<lparr>nd_child := Some node\<rparr>))"

lemma cache_loop_append:
  "cache_loop (Suc fuel) ef dir current offset =
     andThen (readdir ef dir offset) (\<lambda>(rc, node, offset, ef).
       if rc \<noteq> RC0 then Inr (rc, ef)
       else andThen (append_child ef dir current node) (\<lambda>ef. cache_loop fuel ef dir (Some node) offset))"
  by (auto simp: append_child_def andThen_assoc intro!: arg_cong[where f = "andThen _"])

lemma append_child_children:
  assumes c: "children ef dir xs" and p: "p \<noteq> dir" "p \<notin> set xs" "ef_nodes ef p = Some n"
    and n: "nd_prev n = None" "nd_next n = None" and d: "ef_nodes ef dir = Some d"
  shows "\<exists>ef'. append_child ef dir (if xs = [] then None else Some (last xs)) p = Inr ef' \<and> children ef' dir (xs @ [p]) \<and>
    ef_next_ptr ef' = ef_next_ptr ef \<and> dom (ef_nodes ef') = dom (ef_nodes ef) \<and>
    (\<exists>d'. ef_nodes ef' dir = Some d' \<and> nd_size d' = nd_size d) \<and>
    (\<forall>q. q \<noteq> dir \<and> q \<notin> set (xs @ [p]) \<longrightarrow> ef_nodes ef' q = ef_nodes ef q)"
proof (cases xs rule: rev_cases)
  case Nil
  then have "nd_child d = None" using c d by (simp add: children_iff)
  then show ?thesis using p n d Nil
    by (auto simp: append_child_def modify_node_Some children_iff links_put seg_single)
next
  case (snoc zs r)
  obtain b where s: "seg (links ef) dir None (nd_child d) (zs @ [r]) b None" and dist: "distinct (dir # zs @ [r])"
    using c d snoc by (auto simp: children_iff)
  then obtain rn where r: "ef_nodes ef r = Some rn" "links ef r = Some (nd_parent rn, nd_prev rn, nd_next rn)"
    by (auto simp: seg_append links_def split: option.splits)
  have "b = Some r" using seg_last[OF s] by simp
  have ne: "r \<noteq> dir" "r \<noteq> p" "r \<notin> set zs" "p \<notin> set zs" "p \<noteq> r" using dist p snoc by auto
  have "seg ((links ef)(r := Some (nd_parent rn, nd_prev rn, Some p))) dir None (nd_child d) (zs @ [r]) (Some r) (Some p)"
    using seg_set_next[OF s ne(3) r(2)] \<open>b = Some r\<close> by simp
  then have "seg ((links ef)(p := Some (Some dir, Some r, None), r := Some (nd_parent rn, nd_prev rn, Some p)))
      dir None (nd_child d) ((zs @ [r]) @ [p]) (Some p) None"
    unfolding seg_append[of _ _ _ _ "zs @ [r]"] using ne
    by (intro exI conjI) (subst seg_cong[of _ _ "(links ef)(r := Some (nd_parent rn, nd_prev rn, Some p))"], auto)
  then show ?thesis using p n d snoc r ne dist
    by (auto simp: append_child_def modify_node_Some children_iff links_put fun_upd_twist)
qed

section \<open>Caching a directory\<close>

lemma fuel_enough: "z < x + 32 * (z div 32 + 2)" for z x :: nat
  by presburger

lemma readdir_ends:
  assumes "ef_nodes ef dir = Some d" "heap_bounded ef" "0 \<le> off" "off < 2 ^ 64"
  shows "ends (\<lambda>(rc, p, off', ef'). (rc \<noteq> RC0 \<longrightarrow> touched dir ef ef') \<and>
      (rc = RC0 \<longrightarrow> entered dir ef p ef' \<and> off + 32 \<le> off' \<and> nat off' \<le> unat (nd_size d)))
    (readdir ef dir off)"
proof -
  have "unat (nd_size d) < nat off + 32 * directory_fuel d"
    unfolding directory_fuel_def by (rule fuel_enough)
  then show ?thesis
    using readdir_loop_ends[OF assms, of "directory_fuel d"]
    by (simp add: readdir_def node_at_Some[OF assms(1)] directory_fuel_def)
qed

lemma entered_parts:
  assumes e: "entered dir ef p ef'" and c: "children ef dir xs" and h: "heap_bounded ef" and d: "ef_nodes ef dir = Some d"
  shows "children ef' dir xs \<and> p \<noteq> dir \<and> p \<notin> set xs \<and> heap_bounded ef' \<and>
    (\<exists>n. ef_nodes ef' p = Some n \<and> nd_prev n = None \<and> nd_next n = None) \<and> (\<exists>d'. ef_nodes ef' dir = Some d' \<and> nd_size d' = nd_size d) \<and>
    ef_nodes ef p = None \<and> (\<forall>q. q \<noteq> dir \<and> q \<noteq> p \<longrightarrow> ef_nodes ef' q = ef_nodes ef q)"
proof -
  obtain ef1 new where e: "touched dir ef ef1" "p = ef_next_ptr ef1" "ef_nodes ef' = (ef_nodes ef1)(p \<mapsto> new)"
    "ef_next_ptr ef' = Suc p" "nd_prev new = None" "nd_next new = None" using e by (auto simp: entered_def)
  have c1: "children ef1 dir xs" by (rule children_touched[OF e(1) c])
  have h1: "heap_bounded ef1" by (rule touched_bounded[OF e(1) h])
  obtain d1 where d1: "ef_nodes ef1 dir = Some d1" "nd_size d1 = nd_size d" using touched_dir[OF e(1) d] by (auto simp: same_dir_def)
  have none: "ef_nodes ef1 p = None" using h1 e(2) by (auto simp: heap_bounded_def)
  have "p \<noteq> dir" using none d1 by auto
  moreover have "p \<notin> set xs" using children_node[OF c1, of p] none by auto
  moreover from calculation have "children ef' dir xs" using children_add_node[OF c1 _ _ e(3)] by blast
  moreover have "heap_bounded ef'" using h1 e(2,3,4) by (auto simp: heap_bounded_def less_Suc_eq)
  moreover have o: "ef_nodes ef1 q = ef_nodes ef q" if "q \<noteq> dir" for q using e(1) that by (auto simp: touched_def)
  have "ef_nodes ef p = None" using none o[OF \<open>p \<noteq> dir\<close>] by simp
  moreover have "ef_nodes ef' q = ef_nodes ef q" if "q \<noteq> dir" "q \<noteq> p" for q using e(3) o that by simp
  ultimately show ?thesis using e d1 by auto
qed

text \<open>The nodes that have been added to those of a state, all of them new; only the directory itself may change.\<close>

definition grown :: "ptr \<Rightarrow> exfat \<Rightarrow> ptr list \<Rightarrow> exfat \<Rightarrow> bool" where
  "grown dir ef0 xs ef \<longleftrightarrow> (\<forall>p \<in> set xs. ef_nodes ef0 p = None) \<and>
     (\<forall>p. p \<noteq> dir \<and> p \<notin> set xs \<longrightarrow> ef_nodes ef p = ef_nodes ef0 p)"

lemma grown_touched: "grown dir ef0 xs ef \<Longrightarrow> touched dir ef ef' \<Longrightarrow> grown dir ef0 xs ef'"
  by (auto simp: grown_def touched_def)

lemma cache_loop_ends:
  assumes "children ef dir xs" "ef_nodes ef dir = Some d" "heap_bounded ef" "0 \<le> off" "off < 2 ^ 64" "0 < fuel"
    and "unat (nd_size d) < nat off + 32 * fuel" "current = (if xs = [] then None else Some (last xs))"
    and "grown dir ef0 xs ef"
  shows "ends (\<lambda>(rc, ef'). rc \<noteq> RC0 \<and> heap_bounded ef' \<and> (\<exists>ys. children ef' dir (xs @ ys) \<and> grown dir ef0 (xs @ ys) ef')) (cache_loop fuel ef dir current off)"
  using assms
proof (induction fuel arbitrary: ef d xs off current)
  case (Suc fuel)
  show ?case
    unfolding cache_loop_append
  proof (rule ends_bind[OF readdir_ends[OF Suc.prems(2-5)]], clarify)
    fix rc :: retcode and p :: ptr and off' :: int and ef1 :: exfat
    assume n: "rc \<noteq> RC0 \<longrightarrow> touched dir ef ef1" "rc = RC0 \<longrightarrow> entered dir ef p ef1 \<and> off + 32 \<le> off' \<and> nat off' \<le> unat (nd_size d)"
    show "ends (\<lambda>(rc, ef'). rc \<noteq> RC0 \<and> heap_bounded ef' \<and> (\<exists>ys. children ef' dir (xs @ ys) \<and> grown dir ef0 (xs @ ys) ef'))
      (if rc \<noteq> RC0 then Inr (rc, ef1)
       else andThen (append_child ef1 dir current p) (\<lambda>ef. cache_loop fuel ef dir (Some p) off'))"
    proof (cases "rc = RC0")
      case False
      then have t: "touched dir ef ef1" using n(1) by simp
      have "children ef1 dir (xs @ [])" "grown dir ef0 (xs @ []) ef1"
        using children_touched[OF t Suc.prems(1)] grown_touched[OF Suc.prems(9) t] by simp_all
      then have "\<exists>ys. children ef1 dir (xs @ ys) \<and> grown dir ef0 (xs @ ys) ef1" by blast
      then show ?thesis using False touched_bounded[OF t Suc.prems(3)] by simp
    next
      case True
      then have e: "entered dir ef p ef1" "off + 32 \<le> off'" "nat off' \<le> unat (nd_size d)" using n(2) by simp_all
      obtain m d1 where p: "children ef1 dir xs" "p \<noteq> dir" "p \<notin> set xs" "heap_bounded ef1" "ef_nodes ef1 p = Some m"
        "nd_prev m = None" "nd_next m = None" "ef_nodes ef1 dir = Some d1" "nd_size d1 = nd_size d"
        "ef_nodes ef p = None" "\<And>q. q \<noteq> dir \<Longrightarrow> q \<noteq> p \<Longrightarrow> ef_nodes ef1 q = ef_nodes ef q"
        using entered_parts[OF e(1) Suc.prems(1,3,2)] by auto
      obtain ef2 d2 where a: "append_child ef1 dir current p = Inr ef2" "children ef2 dir (xs @ [p])"
        "ef_next_ptr ef2 = ef_next_ptr ef1" "dom (ef_nodes ef2) = dom (ef_nodes ef1)" "ef_nodes ef2 dir = Some d2" "nd_size d2 = nd_size d"
        "\<And>q. q \<noteq> dir \<Longrightarrow> q \<notin> set (xs @ [p]) \<Longrightarrow> ef_nodes ef2 q = ef_nodes ef1 q"
        using append_child_children[OF p(1-3,5-8)] p(9) Suc.prems(8) by auto
      have gr: "grown dir ef0 (xs @ [p]) ef2"
        using Suc.prems(9) p(2,3,10,11) a(7) unfolding grown_def by auto
      have "heap_bounded ef2" using p(4) a(3,4) unfolding heap_bounded_def by (metis domIff)
      moreover have "off' < 2 ^ 64" using off_below[of off' 0 "nd_size d"] e Suc.prems(4) by simp
      moreover have "nat off + 32 \<le> nat off'" using e(2) Suc.prems(4) by linarith
      then have "0 < fuel" "unat (nd_size d2) < nat off' + 32 * fuel" using e(3) Suc.prems(7) a(6) by (cases fuel; simp)+
      ultimately have "ends (\<lambda>(rc, ef'). rc \<noteq> RC0 \<and> heap_bounded ef' \<and> (\<exists>ys. children ef' dir ((xs @ [p]) @ ys) \<and> grown dir ef0 ((xs @ [p]) @ ys) ef'))
          (cache_loop fuel ef2 dir (Some p) off')"
        using Suc.IH[OF a(2,5), of off' "Some p"] e(2) Suc.prems(4) gr by simp
      then have "ends (\<lambda>(rc, ef'). rc \<noteq> RC0 \<and> heap_bounded ef' \<and> (\<exists>ys. children ef' dir (xs @ ys) \<and> grown dir ef0 (xs @ ys) ef')) (cache_loop fuel ef2 dir (Some p) off')"
        by (rule ends_weaken) auto
      then show ?thesis using True a(1) by simp
    qed
  qed
qed simp

lemma free_siblings_all:
  assumes "seg (links ef) dir a q xs b None" "distinct xs" "length xs < fuel"
  shows "\<exists>ef'. free_siblings fuel ef q = Inr ef' \<and> (\<forall>p. p \<notin> set xs \<longrightarrow> ef_nodes ef' p = ef_nodes ef p) \<and>
    (\<forall>p \<in> set xs. ef_nodes ef' p = None) \<and> ef_next_ptr ef' = ef_next_ptr ef"
  using assms
proof (induction xs arbitrary: ef a q fuel)
  case Nil
  then show ?case by (cases fuel) auto
next
  case (Cons x xs)
  obtain k where k: "fuel = Suc k" using Cons.prems(3) by (cases fuel) auto
  have "\<exists>n. q = Some x \<and> ef_nodes ef x = Some n \<and> seg (links ef) dir (Some x) (nd_next n) xs b None"
    using Cons.prems(1) unfolding seg.simps by (cases "ef_nodes ef x") (auto simp: links_def[of ef x])
  then obtain n where n: "q = Some x" "ef_nodes ef x = Some n" "seg (links ef) dir (Some x) (nd_next n) xs b None" by blast
  have "links (free_node ef x) p = links ef p" if "p \<in> set xs" for p
    using that Cons.prems(2) by (auto simp: links_def free_node_def)
  then have "seg (links (free_node ef x)) dir (Some x) (nd_next n) xs b None"
    using n(3) seg_cong[of xs "links (free_node ef x)" "links ef"] by simp
  from Cons.IH[OF this, of k] show ?case
    using Cons.prems(2,3) k n by (auto simp: node_at_Some free_node_def)
qed

lemma links_put_same: "ef_nodes ef p = Some n \<Longrightarrow> nd_parent m = nd_parent n \<Longrightarrow> nd_prev m = nd_prev n \<Longrightarrow> nd_next m = nd_next n \<Longrightarrow>
    links (put_node_at ef p m) = links ef"
  by (auto simp: links_def)

text \<open>
  What caching leaves of the nodes: on success a list of new children below the directory; after
  an error exactly the nodes there were, and no children.
\<close>

definition cached_or_clean :: "exfat \<Rightarrow> ptr \<Rightarrow> retcode \<Rightarrow> exfat \<Rightarrow> bool" where
  "cached_or_clean ef dir rc ef' \<longleftrightarrow> heap_bounded ef' \<and>
     (if rc = RC0
      then \<exists>xs d'. children ef' dir xs \<and> grown dir ef xs ef' \<and> ef_nodes ef' dir = Some d' \<and> nd_is_cached d'
      else children ef' dir [] \<and> (\<forall>p. p \<noteq> dir \<longrightarrow> ef_nodes ef' p = ef_nodes ef p))"

lemma cache_directory_ends:
  assumes "ef_nodes ef dir = Some d" "\<not> nd_is_cached d" "nd_child d = None" "heap_bounded ef"
  shows "ends (\<lambda>(rc, ef'). cached_or_clean ef dir rc ef') (exfat_cache_directory ef dir)"
proof -
  have c: "children ef dir []" using assms(1,3) by (simp add: children_iff)
  have g: "grown dir ef [] ef" by (simp add: grown_def)
  have "unat (nd_size d) < nat 0 + 32 * directory_fuel d"
    unfolding directory_fuel_def by (rule fuel_enough)
  then have l: "ends (\<lambda>(rc, ef'). rc \<noteq> RC0 \<and> heap_bounded ef' \<and> (\<exists>ys. children ef' dir ([] @ ys) \<and> grown dir ef ([] @ ys) ef'))
      (cache_loop (directory_fuel d) ef dir None 0)"
    using cache_loop_ends[OF c assms(1,4), of 0 "directory_fuel d" None, OF _ _ _ _ _ g] by (simp add: directory_fuel_def)
  show ?thesis
    unfolding exfat_cache_directory_def node_at_Some[OF assms(1)] andThen_Inr if_not_P[OF assms(2)]
  proof (rule ends_bind[OF l], clarify)
    fix rc :: retcode and ef1 :: exfat and ys :: "ptr list"
    assume rc: "rc \<noteq> RC0" and h: "heap_bounded ef1" and ys: "children ef1 dir ([] @ ys)" and gr: "grown dir ef ([] @ ys) ef1"
    obtain d1 b where d1: "ef_nodes ef1 dir = Some d1" "seg (links ef1) dir None (nd_child d1) ys b None" and dist: "distinct (dir # ys)"
      using ys by (auto simp: children_iff)
    obtain ef2 where f: "free_siblings (ef_next_ptr ef1 + 1) ef1 (nd_child d1) = Inr ef2"
      "\<And>p. p \<notin> set ys \<Longrightarrow> ef_nodes ef2 p = ef_nodes ef1 p" "\<And>p. p \<in> set ys \<Longrightarrow> ef_nodes ef2 p = None"
      "ef_next_ptr ef2 = ef_next_ptr ef1"
      using free_siblings_all[OF d1(2), of "ef_next_ptr ef1 + 1"] dist children_few[of ef1 dir ys] ys h by auto
    have h2: "heap_bounded ef2" using h f(2,3) f(4) unfolding heap_bounded_def by metis
    have d2: "ef_nodes ef2 dir = Some d1" using f(2)[of dir] dist d1 by simp
    have keep: "heap_bounded (put_node_at ef dir m)" if "heap_bounded ef" "ef_nodes ef dir = Some n" for ef m n
      using that by (auto simp: heap_bounded_def put_node_at_def)
    let ?ok = "put_node_at ef1 dir (d1\<lparr>nd_is_cached := True\<rparr>)" and ?no = "put_node_at ef2 dir (d1\<lparr>nd_child := None\<rparr>)"
    have "children ?ok dir ys"
      using ys d1(1) links_put_same[OF d1(1), of "d1\<lparr>nd_is_cached := True\<rparr>"] by (auto simp: children_iff)
    moreover have "grown dir ef ys ?ok" using gr by (simp add: grown_def put_node_at_def)
    moreover have "ef_nodes ?ok dir = Some (d1\<lparr>nd_is_cached := True\<rparr>)" by (simp add: put_node_at_def)
    ultimately have ok: "cached_or_clean ef dir RC0 ?ok"
      unfolding cached_or_clean_def using keep[OF h d1(1)] by (auto intro!: exI[of _ ys])
    have "ef_nodes ?no p = ef_nodes ef p" if "p \<noteq> dir" for p
      using f(2,3)[of p] gr that by (cases "p \<in> set ys") (auto simp: grown_def put_node_at_def)
    moreover have "children ?no dir []" by (simp add: children_iff)
    ultimately have no: "cached_or_clean ef dir rc ?no"
      unfolding cached_or_clean_def using keep[OF h2 d2] rc by simp
    show "ends (\<lambda>(rc, ef'). cached_or_clean ef dir rc ef')
      (if rc \<noteq> ENOENT then
          andThen (node_at ef1 dir) (\<lambda>d.
            andThen (free_siblings (ef_next_ptr ef1 + 1) ef1 (nd_child d)) (\<lambda>ef.
              andThen (modify_node ef dir (\<lambda>n. n\<lparr>nd_child := None\<rparr>)) (\<lambda>ef. Inr (rc, ef))))
        else andThen (modify_node ef1 dir (\<lambda>n. n\<lparr>nd_is_cached := True\<rparr>)) (\<lambda>ef. Inr (RC0, ef)))"
      using f(1) d1(1) d2 ok no by (simp add: node_at_Some modify_node_Some)
  qed
qed

text \<open>A directory alone in memory, on the demonstration volume.\<close>

definition demo_dir_ef :: exfat where
  "demo_dir_ef = demo_ef\<lparr>ef_nodes := [0 \<mapsto> demo_file\<lparr>nd_attrib := EXFAT_ATTRIB_DIR\<rparr>], ef_next_ptr := 1\<rparr>"

text \<open>
  C8: caching a directory always ends within its fuel, whatever is on the disk. On success the
  directory is marked as cached and has a properly linked list of children, all of them new
  nodes, and no other node has changed. After an error every node that was read has been freed:
  the nodes are exactly those there were before, and the directory has no children.
\<close>

theorem cache_directory_complete:
  assumes "ef_nodes ef dir = Some d" "\<not> nd_is_cached d" "nd_child d = None" "heap_bounded ef"
  shows "exfat_cache_directory ef dir \<noteq> Inl OutOfFuel \<and>
    post (\<lambda>(rc, ef'). heap_bounded ef' \<and>
      (if rc = RC0
       then \<exists>xs d'. children ef' dir xs \<and> ef_nodes ef' dir = Some d' \<and> nd_is_cached d' \<and>
         (\<forall>p \<in> set xs. ef_nodes ef p = None) \<and> (\<forall>p. p \<noteq> dir \<and> p \<notin> set xs \<longrightarrow> ef_nodes ef' p = ef_nodes ef p)
       else children ef' dir [] \<and> (\<forall>p. p \<noteq> dir \<longrightarrow> ef_nodes ef' p = ef_nodes ef p)))
      (exfat_cache_directory ef dir)"
  using cache_directory_ends[OF assms] unfolding ends_def cached_or_clean_def grown_def by (auto elim!: post_weaken) blast

theorem cache_directory_complete_witness:
  "exfat_cache_directory demo_dir_ef 0 \<noteq> Inl OutOfFuel \<and>
    post (\<lambda>(rc, ef'). rc \<noteq> RC0 \<longrightarrow> (\<forall>p. p \<noteq> 0 \<longrightarrow> ef_nodes ef' p = None)) (exfat_cache_directory demo_dir_ef 0)"
proof -
  have "ef_nodes demo_dir_ef 0 = Some (demo_file\<lparr>nd_attrib := EXFAT_ATTRIB_DIR\<rparr>)" "heap_bounded demo_dir_ef"
    by (simp_all add: demo_dir_ef_def heap_bounded_def)
  from cache_directory_complete[OF this(1) _ _ this(2)] show ?thesis
    by (auto simp: demo_file_def zero_node_def demo_dir_ef_def elim!: post_weaken)
qed

end
