(* ===== verification/Frame.thy ===== *)
theory Frame
  imports Mount LookupProofs
begin

text \<open>
  What every operation of the file system leaves alone. The locale lists the elementary
  changes of the state; a condition that survives each of them survives every operation.
\<close>

named_theorems passes \<open>operations that do not return the file system\<close>

lemma pass_any [passes]:
  "(\<And>x. post P (k1 x)) \<Longrightarrow> post P (andThen (node_at ef p) k1)"
  "(\<And>x. post P (k3 x)) \<Longrightarrow> post P (andThen (exfat_next_cluster ef nd c) k3)"
  "(\<And>x. post P (k4 x)) \<Longrightarrow> post P (andThen (exfat_advance_cluster ef nd u) k4)"
  "(\<And>x. post P (k5 x)) \<Longrightarrow> post P (andThen (exfat_get_name nd) k5)"
  "(\<And>x. post P (k6 x)) \<Longrightarrow> post P (andThen (exfat_generic_pread ef nd bs off) k6)"
  "(\<And>x. post P (k7 x)) \<Longrightarrow> post P (andThen (find_bit_and_set bm i j) k7)"
  "(\<And>x. post P (k8 x)) \<Longrightarrow> post P (andThen (parent_of ef p) k8)"
  "(\<And>x. post P (k9 x)) \<Longrightarrow> post P (andThen (find_last_node fuel ef off l q) k9)"
  "(\<And>x. post P (k10 x)) \<Longrightarrow> post P (andThen (directory_map fuel ef bm q) k10)"
  "(\<And>x. post P (k11 x)) \<Longrightarrow> post P (andThen (name_slots us) k11)"
  by (rule post_any, assumption)+

lemma pass_compare [passes]: "(\<And>x. post P (k x)) \<Longrightarrow> post P (andThen (compare_name up as bs) k)"
  by (rule post_any)

lemma post_eq: "(\<And>x. r = Inr x \<Longrightarrow> post P (k x)) \<Longrightarrow> post P (andThen r k)"
  by (cases r) simp_all

lemma post_if [passes]:
  "(c \<Longrightarrow> post P a) \<Longrightarrow> (\<not> c \<Longrightarrow> post P b) \<Longrightarrow> post P (if c then a else b)"
  by simp

lemma post_prod [passes]: "(\<And>a b. x = (a, b) \<Longrightarrow> post P (k a b)) \<Longrightarrow> post P (case x of (a, b) \<Rightarrow> k a b)"
  by (cases x) simp

lemma post_option [passes]:
  "(x = None \<Longrightarrow> post P a) \<Longrightarrow> (\<And>y. x = Some y \<Longrightarrow> post P (b y)) \<Longrightarrow> post P (case x of None \<Rightarrow> a | Some y \<Rightarrow> b y)"
  by (cases x) simp_all

lemma post_Inl [passes]: "post P (Inl e)"
  by simp

lemma post_bind_if [passes]:
  "post P (andThen a k) \<Longrightarrow> post P (andThen b k) \<Longrightarrow> post P (andThen (if c then a else b) k)"
  by simp

lemma post_bind_assoc [passes]:
  "post P (andThen r (\<lambda>x. andThen (f x) g)) \<Longrightarrow> post P (andThen (andThen r f) g)"
  by (simp add: andThen_assoc)

lemma post_bind_prod [passes]:
  "(\<And>a b. x = (a, b) \<Longrightarrow> post P (andThen (f a b) k)) \<Longrightarrow> post P (andThen (case x of (a, b) \<Rightarrow> f a b) k)"
  by (cases x) simp

lemma post_bind_option [passes]:
  "(x = None \<Longrightarrow> post P (andThen a k)) \<Longrightarrow> (\<And>y. x = Some y \<Longrightarrow> post P (andThen (b y) k)) \<Longrightarrow>
   post P (andThen (case x of None \<Rightarrow> a | Some y \<Rightarrow> b y) k)"
  by (cases x) simp_all

text \<open>
  Where the table and the clusters begin, whichever comes first: no operation but the mount and
  the unmount writes in front of it.
\<close>

definition data_start :: "exfat_super_block \<Rightarrow> int" where
  "data_start sb = min (s2o sb (uint (sb_fat_sector_start sb))) (s2o sb (uint (sb_cluster_sector_start sb)))"

lemma fat_offset_data: "data_start sb \<le> fat_offset sb c"
proof -
  have "s2o sb (uint (sb_fat_sector_start sb)) \<le> fat_offset sb c" by (simp add: fat_offset_def)
  then show ?thesis by (simp add: data_start_def)
qed

lemma c2o_data: "exfat_c2o sb c = Inr off \<Longrightarrow> data_start sb \<le> off"
proof -
  assume "exfat_c2o sb c = Inr off"
  then have "off = s2o sb (uint (sb_cluster_sector_start sb) + uint (c - EXFAT_FIRST_DATA_CLUSTER) * 2 ^ unat (sb_spc_bits sb))"
    by (auto simp: exfat_c2o_def c2s_def split: if_splits)
  then have "s2o sb (uint (sb_cluster_sector_start sb)) \<le> off" by (simp add: s2o_def)
  then show ?thesis by (simp add: data_start_def)
qed

lemma c2o_data_plus: "exfat_c2o sb c = Inr off \<Longrightarrow> data_start sb \<le> off + int n"
  using c2o_data[of sb c off] by simp

lemma post_c2o [passes]: "(\<And>off. exfat_c2o sb c = Inr off \<Longrightarrow> post P (k off)) \<Longrightarrow> post P (andThen (exfat_c2o sb c) k)"
  by (rule post_eq)

locale kept =
  fixes I :: "exfat \<Rightarrow> bool"
  assumes dev: "I ef \<Longrightarrow> data_start (ef_sb ef) \<le> off \<Longrightarrow> exfat_pwrite (ef_dev ef) bs off = Some d \<Longrightarrow> I (ef\<lparr>ef_dev := d\<rparr>)"
    and chunk: "I ef \<Longrightarrow> I (ef\<lparr>cmap_chunk := bm\<rparr>)"
    and dirty: "I ef \<Longrightarrow> I (ef\<lparr>cmap_dirty := b\<rparr>)"
    and start: "I ef \<Longrightarrow> I (ef\<lparr>cmap_start_cluster := c\<rparr>)"
    and count: "I ef \<Longrightarrow> I (ef\<lparr>cmap_size := sb_cluster_count (ef_sb ef)\<rparr>)"
    and chunk_size: "I ef \<Longrightarrow> I (ef\<lparr>cmap_chunk_size := cmap_size ef\<rparr>)"
    and upcase: "I ef \<Longrightarrow> us \<noteq> [] \<Longrightarrow> I (ef\<lparr>ef_upcase := us\<rparr>)"
    and label: "I ef \<Longrightarrow> I (ef\<lparr>ef_label := l\<rparr>)"
    and nodes: "I ef \<Longrightarrow> I (ef\<lparr>ef_nodes := m\<rparr>)"
    and fresh: "I ef \<Longrightarrow> I (ef\<lparr>ef_next_ptr := ef_next_ptr ef + 1\<rparr>)"
    and stdin: "I ef \<Longrightarrow> I (ef\<lparr>ef_stdin := ls\<rparr>)"
    and fixed: "I ef \<Longrightarrow> I (ef\<lparr>ef_errors_fixed := k\<rparr>)"
begin

lemma node_put: "I ef \<Longrightarrow> I (put_node_at ef p n)"
  by (simp add: put_node_at_def nodes)

lemma node_free: "I ef \<Longrightarrow> I (free_node ef p)"
  by (simp add: free_node_def nodes)

lemmas changes = chunk dirty start count chunk_size upcase label nodes fresh stdin fixed node_put node_free

lemma set_next: "set_next_cluster ef contig c n = (ok, ef') \<Longrightarrow> I ef \<Longrightarrow> I ef'"
  by (auto simp: set_next_cluster_def intro: dev fat_offset_data split: option.splits if_splits)

lemma make_noncontig: "make_noncontiguous ef c k = (ok, ef') \<Longrightarrow> I ef \<Longrightarrow> I ef'"
  by (induction k arbitrary: ef c) (auto split: prod.splits if_splits intro: set_next)

lemma erase_raw: "erase_raw ef n off = (ok, ef') \<Longrightarrow> data_start (ef_sb ef) \<le> off \<Longrightarrow> I ef \<Longrightarrow> I ef'"
  by (auto simp: erase_raw_def dev split: option.splits)

lemma ask: "exfat_ask_to_fix ef = (yes, ef') \<Longrightarrow> I ef \<Longrightarrow> I ef'"
  by (auto simp: exfat_ask_to_fix_def stdin split: repair_mode.splits prod.splits)

lemmas steps = set_next make_noncontig ask erase_raw c2o_data c2o_data_plus

text \<open>The outcomes: the changed state is the second component, or the last one.\<close>

definition K2 :: "'a \<times> exfat \<Rightarrow> bool" where "K2 x \<longleftrightarrow> I (snd x)"
definition K3 :: "'a \<times> exfat \<times> 'b \<Rightarrow> bool" where "K3 x \<longleftrightarrow> I (fst (snd x))"
definition L3 :: "'a \<times> 'b \<times> exfat \<Rightarrow> bool" where "L3 x \<longleftrightarrow> I (snd (snd x))"
definition L5 :: "'a \<times> 'b \<times> 'c \<times> 'd \<times> exfat \<Rightarrow> bool" where "L5 x \<longleftrightarrow> I (snd (snd (snd (snd x))))"
definition K4 :: "'a \<times> exfat \<times> 'b \<times> 'c \<Rightarrow> bool" where "K4 x \<longleftrightarrow> I (fst (snd x))"
definition L4 :: "'a \<times> 'b \<times> 'c \<times> exfat \<Rightarrow> bool" where "L4 x \<longleftrightarrow> I (snd (snd (snd x)))"

lemma K_simps [simp]: "K2 (a, ef) = I ef" "K3 (a, ef, n) = I ef" "L3 (a, b', ef) = I ef"
  "K4 (a, ef, n, m) = I ef" "L4 (a, b', c', ef) = I ef" "L5 (a, b', c', d', ef) = I ef"
  by (simp_all add: L5_def K2_def K3_def L3_def K4_def L4_def)

lemma K2_eq: "K2 = (\<lambda>(_, ef). I ef)"
  by (auto simp: fun_eq_iff K2_def)

lemma allocate: "I ef \<Longrightarrow> post K2 (allocate_cluster ef hint)"
  unfolding allocate_cluster_def Let_def by (auto intro!: passes; auto intro: changes)

lemma free_cluster: "I ef \<Longrightarrow> post I (free_cluster ef c)"
  unfolding free_cluster_def Let_def by (auto intro!: passes; auto intro: changes)

lemma free_chain: "I ef \<Longrightarrow> post K2 (free_chain ef node c k)"
proof (induction k arbitrary: ef c)
  case (Suc k)
  then show ?case
    by (auto intro!: passes free_cluster[THEN post_bind] Suc.IH split: prod.splits; auto intro: steps)
qed simp

lemma shrink: "I ef \<Longrightarrow> post K3 (shrink_file ef node cur diff)"
  unfolding shrink_file_def Let_def
  by (auto intro!: passes free_chain[THEN post_bind] split: prod.splits; auto intro: steps)

lemma grow_loop: "I ef \<Longrightarrow> post K4 (grow_loop ef node cur al c k)"
proof (induction k arbitrary: ef node al c)
  case (Suc k)
  then show ?case
    by (auto intro!: passes allocate[THEN post_bind] shrink[THEN post_bind] Suc.IH split: prod.splits if_splits;
        auto intro: steps)
qed simp

lemma grow: "I ef \<Longrightarrow> post K3 (grow_file ef node cur diff)"
  unfolding grow_file_def Let_def
  by (auto intro!: passes allocate[THEN post_bind] grow_loop[THEN post_bind] split: prod.splits; auto intro: steps)

lemma erase_clusters: "I ef \<Longrightarrow> post K2 (erase_clusters ef node c k)"
proof (induction k arbitrary: ef c)
  case (Suc k)
  then show ?case by (auto intro!: passes Suc.IH split: prod.splits; auto intro: steps)
qed simp

lemma erase_range: "I ef \<Longrightarrow> post K3 (erase_range ef node a b)"
  unfolding erase_range_def Let_def
  by (auto intro!: passes erase_clusters[THEN post_bind] split: prod.splits; auto intro: steps)

lemma truncate: "I ef \<Longrightarrow> post K3 (exfat_truncate ef node n e)"
  unfolding exfat_truncate_def Let_def
  by (auto intro!: passes shrink[THEN post_bind] grow[THEN post_bind] erase_range[THEN post_bind] split: prod.splits)

lemma flush: "I ef \<Longrightarrow> post K2 (exfat_flush ef)"
  unfolding exfat_flush_def by (auto intro!: passes; auto intro: changes dev c2o_data)

lemma write_loop: "I ef \<Longrightarrow> post K2 (write_loop ef node c lo bs)"
proof (induction ef node c lo bs rule: write_loop.induct)
  case (1 ef node c lo bs)
  show ?case
    by (subst write_loop.simps, unfold Let_def, intro post_if post_eq post_option, simp_all add: 1)
      (rule "1.IH", auto intro: dev 1 c2o_data_plus)
qed

lemma pwrite: "I ef \<Longrightarrow> post K3 (exfat_generic_pwrite ef node bs off)"
  unfolding exfat_generic_pwrite_def Let_def
  by (auto intro!: passes truncate[THEN post_bind] write_loop[THEN post_bind] split: prod.splits)

lemma modify: "I ef \<Longrightarrow> post I (modify_node ef p f)"
  unfolding modify_node_def by (auto intro!: passes node_put)

lemma get_node: "I ef \<Longrightarrow> post I (exfat_get_node ef p)"
  unfolding exfat_get_node_def by (rule modify)

lemma put_node: "I ef \<Longrightarrow> post I (exfat_put_node ef p)"
  unfolding exfat_put_node_def Let_def by (auto intro!: passes node_put)

lemma cleanup: "I ef \<Longrightarrow> post K2 (exfat_cleanup_node ef p)"
  unfolding exfat_cleanup_node_def by (auto intro!: passes truncate[THEN post_bind] node_free split: prod.splits)

lemma read_entries: "I ef \<Longrightarrow> post L3 (read_entries ef p n off)"
  unfolding read_entries_def by (auto intro!: passes node_put split: prod.splits)

lemma write_entries: "I ef \<Longrightarrow> post K2 (write_entries ef p es off)"
  unfolding write_entries_def by (auto intro!: passes pwrite[THEN post_bind] node_put split: prod.splits)

lemma fix_unknown: "I ef \<Longrightarrow> post K2 (exfat_fix_unknown_entry ef p e off)"
  unfolding exfat_fix_unknown_entry_def Let_def
  by (auto intro!: passes pwrite[THEN post_bind] split: prod.splits; auto intro: changes)

lemma allocated: "allocate_node ef = Some (p, ef') \<Longrightarrow> I ef \<Longrightarrow> I ef'"
proof -
  assume a: "allocate_node ef = Some (p, ef')" and "I ef"
  then have "I ((put_node_at ef (ef_next_ptr ef) zero_node)\<lparr>ef_next_ptr :=
      ef_next_ptr (put_node_at ef (ef_next_ptr ef) zero_node) + 1\<rparr>)" by (intro fresh node_put)
  then show "I ef'" using a by (auto simp: allocate_node_def split: if_splits)
qed

lemma report_any: "(\<And>x. post P (k x)) \<Longrightarrow> post P (andThen (report bad n r) k)"
  by (rule post_any)

lemma check_node: "I ef \<Longrightarrow> post K3 (check_node ef n acc m1 m2)"
  unfolding check_node_def Let_def exfat_fix_invalid_node_checksum_def
  by (auto intro!: passes report_any split: prod.splits; auto intro: steps changes)

lemma parse_entries: "I ef \<Longrightarrow> post K3 (parse_file_entries ef n es)"
  unfolding parse_file_entries_def Let_def
  by (auto intro!: passes check_node[THEN post_bind] split: prod.splits)

lemma parse_entry: "I ef \<Longrightarrow> post L4 (parse_file_entry ef p off n)"
  unfolding parse_file_entry_def
  by (auto intro!: passes read_entries[THEN post_bind] parse_entries[THEN post_bind] split: prod.splits;
      auto intro: allocated changes)

lemma junk_frame: "junk (ef\<lparr>cmap_size := u\<rparr>) = junk ef"
  by (simp add: junk_def fun_eq_iff)

lemma decompress_not_Nil: "decompress_upcase us \<noteq> []"
proof -
  have "length (decompress_loop out src oi) = length out" for out src oi
    by (induction out src oi rule: decompress_loop.induct) auto
  then have "length (decompress_upcase us) = EXFAT_UPCASE_CHARS" by (simp add: decompress_upcase_def)
  then show ?thesis by auto
qed

lemma upcase_entry: "I ef \<Longrightarrow> post K2 (read_upcase_entry ef e)"
  unfolding read_upcase_entry_def Let_def
  by (auto intro!: passes; auto intro!: changes decompress_not_Nil)

lemma bitmap_entry: "I ef \<Longrightarrow> post K2 (read_bitmap_entry ef e)"
proof -
  assume I: "I ef"
  have s: "I (ef\<lparr>cmap_start_cluster := c\<rparr>)" for c by (rule start[OF I])
  have n: "I (ef\<lparr>cmap_start_cluster := c, cmap_size := sb_cluster_count (ef_sb ef)\<rparr>)" for c
    using count[OF s[of c]] by simp
  have z: "I (ef\<lparr>cmap_start_cluster := c, cmap_size := sb_cluster_count (ef_sb ef), cmap_chunk_size := sb_cluster_count (ef_sb ef)\<rparr>)" for c
    using chunk_size[OF n[of c]] by simp
  have b: "I (ef\<lparr>cmap_start_cluster := c, cmap_size := sb_cluster_count (ef_sb ef),
      cmap_chunk_size := sb_cluster_count (ef_sb ef), cmap_chunk := bm\<rparr>)" for c bm
    by (rule chunk[OF z[of c]])
  show ?thesis unfolding read_bitmap_entry_def Let_def using s n z b by (auto intro!: passes)
qed

lemma label_entry: "I ef \<Longrightarrow> post K2 (read_label_entry ef e)"
  unfolding read_label_entry_def by (auto intro!: passes label split: sum.splits)

lemma unknown_entry: "I ef \<Longrightarrow> post K2 (read_unknown_entry ef p e off)"
  unfolding read_unknown_entry_def
  by (auto intro!: passes fix_unknown[THEN post_bind] split: prod.splits; auto intro: steps)

lemma readdir_loop: "I ef \<Longrightarrow> post L4 (readdir_loop fuel ef p off)"
proof (induction fuel arbitrary: ef off)
  case (Suc fuel)
  then show ?case
    by (auto simp: Let_def intro!: passes read_entries[THEN post_bind] parse_entry upcase_entry[THEN post_bind]
        bitmap_entry[THEN post_bind] label_entry[THEN post_bind] unknown_entry[THEN post_bind] Suc.IH split: prod.splits)
qed simp

lemma readdir: "I ef \<Longrightarrow> post L4 (readdir ef p off)"
  unfolding readdir_def by (auto intro!: passes readdir_loop)

lemma free_siblings: "I ef \<Longrightarrow> post I (free_siblings fuel ef q)"
proof (induction fuel arbitrary: ef q)
  case (Suc fuel)
  then show ?case by (auto intro!: passes Suc.IH node_free split: option.splits)
qed simp

lemma cache_loop: "I ef \<Longrightarrow> post K2 (cache_loop fuel ef d cur off)"
proof (induction fuel arbitrary: ef cur off)
  case (Suc fuel)
  then show ?case
    by (auto intro!: passes readdir[THEN post_bind] modify[THEN post_bind] Suc.IH split: prod.splits)
qed simp

lemma cache_directory: "I ef \<Longrightarrow> post K2 (exfat_cache_directory ef d)"
  unfolding exfat_cache_directory_def
  by (auto intro!: passes cache_loop[THEN post_bind] free_siblings[THEN post_bind] modify[THEN post_bind] split: prod.splits)

lemma attach: "I ef \<Longrightarrow> post I (tree_attach ef d p)"
  unfolding tree_attach_def by (auto intro!: passes modify[THEN post_bind] modify)

lemma detach: "I ef \<Longrightarrow> post I (tree_detach ef p)"
  unfolding tree_detach_def by (auto intro!: passes modify[THEN post_bind] modify)

lemma put_times: "I ef \<Longrightarrow> post I (put_times k ef p)"
proof (induction k arbitrary: ef)
  case (Suc k)
  then show ?case by (auto intro!: put_node[THEN post_bind])
qed simp

lemma reset_cache: "I ef \<Longrightarrow> post I (reset_cache fuel ef p)"
proof (induction fuel arbitrary: ef p)
  case (Suc fuel)
  then show ?case
    by (auto simp: Let_def intro!: passes Suc.IH[THEN post_bind] detach[THEN post_bind] Suc.IH put_times node_put node_free
        split: option.splits)
qed simp

lemma flush_node: "I ef \<Longrightarrow> post K2 (exfat_flush_node ef p)"
  unfolding exfat_flush_node_def Let_def
  by (auto intro!: passes read_entries[THEN post_bind] write_entries[THEN post_bind] modify[THEN post_bind] flush split: prod.splits)

lemma flush_tree: "I ef \<Longrightarrow> post K2 (flush_nodes fuel ef p) \<and> post K2 (flush_list fuel ef q)"
proof (induction fuel arbitrary: ef p q)
  case (Suc fuel)
  note n = Suc.IH[THEN conjunct1] and l = Suc.IH[THEN conjunct2]
  show ?case using Suc.prems
    by (auto intro!: passes n[THEN post_bind] l[THEN post_bind] l flush_node split: prod.splits option.splits)
qed simp

lemma flush_all: "I ef \<Longrightarrow> post K2 (exfat_flush_nodes ef)"
  unfolding exfat_flush_nodes_def using flush_tree by blast

lemma erase_entries: "I ef \<Longrightarrow> post K2 (erase_entries ef p n off)"
  unfolding erase_entries_def
  by (auto intro!: passes read_entries[THEN post_bind] write_entries split: prod.splits)

lemma erase_node: "I ef \<Longrightarrow> post K2 (erase_node ef p)"
  unfolding erase_node_def
  by (auto intro!: passes get_node[THEN post_bind] put_node[THEN post_bind] erase_entries[THEN post_bind]
      flush_node[THEN post_bind] split: prod.splits)

lemma shrink_directory: "I ef \<Longrightarrow> post K2 (shrink_directory ef p off)"
  unfolding shrink_directory_def Let_def
  by (auto intro!: passes truncate[THEN post_bind] node_put split: prod.splits)

lemma delete: "I ef \<Longrightarrow> post K2 (delete ef p)"
  unfolding delete_def
  by (auto intro!: passes get_node[THEN post_bind] put_node[THEN post_bind] erase_node[THEN post_bind]
      detach[THEN post_bind] shrink_directory[THEN post_bind] modify[THEN post_bind] flush_node[THEN post_bind]
      split: prod.splits)

lemma unlink: "I ef \<Longrightarrow> post K2 (exfat_unlink ef p)"
  unfolding exfat_unlink_def by (auto intro!: passes delete)

lemma rmdir: "I ef \<Longrightarrow> post K2 (exfat_rmdir ef p)"
  unfolding exfat_rmdir_def by (auto intro!: passes cache_directory[THEN post_bind] delete split: prod.splits)

lemma check_slot: "I ef \<Longrightarrow> post K2 (check_slot ef p off n)"
  unfolding check_slot_def by (auto intro!: passes read_entries[THEN post_bind] split: prod.splits)

lemma slot_loop: "I ef \<Longrightarrow> post L4 (slot_loop fuel ef p bm slots n i j off)"
proof (induction fuel arbitrary: ef i j off)
  case (Suc fuel)
  then show ?case by (auto simp: Let_def intro!: passes check_slot[THEN post_bind] Suc.IH split: prod.splits)
qed simp

lemma find_slot: "I ef \<Longrightarrow> post L3 (find_slot ef p off n)"
  unfolding find_slot_def Let_def
  by (auto intro!: passes slot_loop[THEN post_bind] truncate[THEN post_bind] node_put split: prod.splits)

lemma commit: "I ef \<Longrightarrow> post K2 (commit_entry ef p us off a)"
  unfolding commit_entry_def Let_def
  by (auto intro!: passes write_entries[THEN post_bind] attach[THEN post_bind] node_put split: prod.splits;
      auto intro: allocated)

lemma opendir: "I ef \<Longrightarrow> post L3 (exfat_opendir ef d)"
  unfolding exfat_opendir_def
  by (auto intro!: passes get_node[THEN post_bind] cache_directory[THEN post_bind] put_node[THEN post_bind] split: prod.splits)

lemma closedir: "I ef \<Longrightarrow> post K2 (exfat_closedir ef it)"
  unfolding exfat_closedir_def by (auto intro!: passes put_node[THEN post_bind])

lemma next_child: "I ef \<Longrightarrow> post L3 (exfat_readdir ef it)"
  unfolding exfat_readdir_def Let_def
  by (auto intro!: passes get_node[THEN post_bind])

lemma lookup_loop: "I ef \<Longrightarrow> post L3 (lookup_loop fuel ef it us)"
proof (induction fuel arbitrary: ef it)
  case (Suc fuel)
  then show ?case
    by (auto intro!: passes next_child[THEN post_bind] closedir[THEN post_bind] put_node[THEN post_bind] Suc.IH split: prod.splits)
qed simp

lemma lookup_name: "I ef \<Longrightarrow> post L3 (lookup_name ef d name)"
  unfolding lookup_name_def
  by (auto intro!: passes opendir[THEN post_bind] lookup_loop split: prod.splits sum.splits)

lemma walk: "I ef \<Longrightarrow> post L3 (walk_components ef d cs)"
proof (induction cs arbitrary: ef d)
  case (Cons c cs)
  then show ?case
    by (auto intro!: passes lookup_name[THEN post_bind] put_node[THEN post_bind] Cons.IH split: prod.splits)
qed simp

lemma lookup: "I ef \<Longrightarrow> post L3 (exfat_lookup ef path)"
  unfolding exfat_lookup_def lookup_path_walk by (auto intro!: get_node[THEN post_bind] walk)

lemma split_path: "I ef \<Longrightarrow> post L5 (split_path ef d path)"
proof (induction "length path" arbitrary: ef d path rule: less_induct)
  case less
  obtain n p where g: "get_comp path = (n, p)" by (cases "get_comp path")
  have ih: "post L5 (split_path ef' d' (drop n p))" if "n \<noteq> 0" "I ef'" for ef' d'
    using less.hyps[OF get_comp_shorter[OF g that(1)] that(2)] .
  have one: "post L5 (split_path ef' d' (drop (Suc 0) p))" if "n = Suc 0" "I ef'" for ef' d'
    using ih[of ef' d'] that by simp
  show ?case unfolding split_path.simps[of ef d path] g Let_def using less.prems
    by (auto intro!: passes lookup_name[THEN post_bind] put_node[THEN post_bind] ih one split: prod.splits sum.splits)
qed

lemma split: "I ef \<Longrightarrow> post L5 (exfat_split ef path)"
  unfolding exfat_split_def by (auto intro!: get_node[THEN post_bind] split_path)

lemma create: "I ef \<Longrightarrow> post K2 (create ef path a)"
  unfolding create_def
  by (auto intro!: passes split[THEN post_bind] put_node[THEN post_bind] find_slot[THEN post_bind]
      commit[THEN post_bind] modify[THEN post_bind] flush_node[THEN post_bind] split: prod.splits)

lemma mknod: "I ef \<Longrightarrow> post K2 (exfat_mknod ef path)"
  unfolding exfat_mknod_def by (rule create)

lemma mkdir: "I ef \<Longrightarrow> post K2 (exfat_mkdir ef path)"
  unfolding exfat_mkdir_def Let_def
  by (auto intro!: passes create[THEN post_bind] lookup[THEN post_bind] truncate[THEN post_bind] delete[THEN post_bind]
      put_node[THEN post_bind] flush_node[THEN post_bind] node_put split: prod.splits)

lemma rename_entry: "I ef \<Longrightarrow> post K2 (rename_entry ef d p us off)"
  unfolding rename_entry_def
  by (auto intro!: passes read_entries[THEN post_bind] erase_node[THEN post_bind] modify[THEN post_bind]
      write_entries[THEN post_bind] attach[THEN post_bind] detach[THEN post_bind] split: prod.splits)

lemma replace_target: "I ef \<Longrightarrow> post K2 (replace_target ef p e d)"
  unfolding replace_target_def Let_def
  by (auto intro!: passes rmdir[THEN post_bind] unlink[THEN post_bind] put_node[THEN post_bind]
      cleanup[THEN post_bind] split: prod.splits)

lemma rename: "I ef \<Longrightarrow> post K2 (exfat_rename ef old new)"
proof -
  have anc: "(\<And>x. post P (k x)) \<Longrightarrow> post P (andThen (is_ancestor fuel ef p q) k)"
    for P fuel ef p q and k :: "bool \<Rightarrow> fault + retcode \<times> exfat" by (rule post_any)
  assume "I ef"
  then show ?thesis
    unfolding exfat_rename_def
    by (auto intro!: passes anc lookup[THEN post_bind] split[THEN post_bind] put_node[THEN post_bind]
        replace_target[THEN post_bind] find_slot[THEN post_bind] rename_entry[THEN post_bind] flush_node[THEN post_bind]
        split: prod.splits)
qed

lemma find_label: "I ef \<Longrightarrow> post L3 (find_label ef)"
proof -
  have "I ef \<Longrightarrow> post L3 (find_label_loop fuel ef off)" for fuel ef off
  proof (induction fuel arbitrary: ef off)
    case (Suc fuel)
    then show ?case by (auto intro!: passes read_entries[THEN post_bind] Suc.IH split: prod.splits)
  qed simp
  then show "I ef \<Longrightarrow> post L3 (find_label ef)" unfolding find_label_def by (auto intro!: passes)
qed

lemma set_label: "I ef \<Longrightarrow> post K2 (exfat_set_label ef l)"
  unfolding exfat_set_label_def Let_def
  by (auto intro!: passes find_label[THEN post_bind] find_slot[THEN post_bind] write_entries[THEN post_bind] label
      split: prod.splits sum.splits)

lemma flush_and_close: "I ef \<Longrightarrow> post I (exfat_reset_cache ef)"
  unfolding exfat_reset_cache_def by (rule reset_cache)

end

text \<open>The repair of the checksum, before the mount, writes in the boot region.\<close>

locale kept_anywhere = kept +
  assumes anywhere: "I ef \<Longrightarrow> exfat_pwrite (ef_dev ef) bs off = Some d \<Longrightarrow> I (ef\<lparr>ef_dev := d\<rparr>)"
begin

lemma fix_vbr: "exfat_fix_invalid_vbr_checksum ef sec v = (ok, ef', sec') \<Longrightarrow> I ef \<Longrightarrow> I ef'"
  by (auto simp: exfat_fix_invalid_vbr_checksum_def Let_def split: option.splits intro: anywhere fixed)

lemma vbr_compare: "vbr_compare ef sec v i k = (ok, ef') \<Longrightarrow> I ef \<Longrightarrow> I ef'"
proof (induction k arbitrary: ef sec i)
  case (Suc k)
  then show ?case by (auto split: if_splits prod.splits dest: ask fix_vbr)
qed simp

lemma verify_vbr: "verify_vbr_checksum ef sec = (ok, ef') \<Longrightarrow> I ef \<Longrightarrow> I ef'"
  by (auto simp: verify_vbr_checksum_def Let_def split: option.splits prod.splits dest: vbr_compare)

end

section \<open>The volume stays the same\<close>

text \<open>
  The super block in memory, the size and mode of the device, the root, whether the volume is
  read-only, and that an upper case table is present.
\<close>

definition same_disk :: "exfat \<Rightarrow> exfat \<Rightarrow> bool" where
  "same_disk ef ef' \<longleftrightarrow> ef_sb ef' = ef_sb ef \<and> dev_size (ef_dev ef') = dev_size (ef_dev ef) \<and>
     dev_mode (ef_dev ef') = dev_mode (ef_dev ef) \<and> ef_root ef' = ef_root ef \<and> ef_ro ef' = ef_ro ef \<and>
     ef_next_ptr ef \<le> ef_next_ptr ef' \<and> (ef_upcase ef \<noteq> [] \<longrightarrow> ef_upcase ef' \<noteq> [])"

interpretation disk: kept_anywhere "same_disk e" for e
  by unfold_locales (auto simp: same_disk_def pwrite_Some)

lemma same_disk_refl [simp]: "same_disk ef ef"
  by (simp add: same_disk_def)

text \<open>A device that was opened for reading stays as it is.\<close>

interpretation readonly: kept_anywhere "\<lambda>ef. ef_dev ef = d \<and> dev_mode d \<noteq> EXFAT_MODE_RW" for d
  by unfold_locales (auto simp: exfat_pwrite_def)

end
