(* ===== verification/BootRegion.thy ===== *)
theory BootRegion
  imports Mount
begin

text \<open>
  The boot region: what \<open>verify_vbr_checksum\<close> computes, and that mounting and unmounting,
  which rewrite the super block, leave a valid region valid.
\<close>

section \<open>The checksum of the region\<close>

definition sector_bytes :: "exfat \<Rightarrow> nat \<Rightarrow> u8 list" where
  "sector_bytes ef i = map (dev_bytes (ef_dev ef)) [i * SECTOR_SIZE (ef_sb ef)..<(i + 1) * SECTOR_SIZE (ef_sb ef)]"

definition boot_sum :: "exfat \<Rightarrow> u32" where
  "boot_sum ef = foldl (\<lambda>s i. exfat_vbr_add_checksum (sector_bytes ef i) s)
     (exfat_vbr_start_checksum (sector_bytes ef 0)) [1..<11]"

text \<open>The twelfth sector holds the checksum in every word.\<close>

definition boot_ok :: "exfat \<Rightarrow> bool" where
  "boot_ok ef \<longleftrightarrow> list_all (\<lambda>i. le32_to_cpu (slice_of (4 * i) 4 (sector_bytes ef 11)) = boot_sum ef)
     [0..<SECTOR_SIZE (ef_sb ef) div 4]"

lemma length_sector_bytes [simp]: "length (sector_bytes ef i) = SECTOR_SIZE (ef_sb ef)"
  by (simp add: sector_bytes_def)

lemma read_sector_bytes:
  assumes "readable (ef_dev ef)" "(i + 1) * SECTOR_SIZE (ef_sb ef) \<le> dev_size (ef_dev ef)"
    and "SECTOR_SIZE (ef_sb ef) \<le> length sector"
  shows "read_sector ef sector i = Some (sector_bytes ef i @ drop (SECTOR_SIZE (ef_sb ef)) sector)"
proof -
  let ?n = "SECTOR_SIZE (ef_sb ef)"
  have "nat (int i * int ?n) = i * ?n" by (metis nat_int of_nat_mult)
  then have "exfat_pread (ef_dev ef) (length (take ?n sector)) (int i * int ?n) = Some (sector_bytes ef i)"
    using assms by (simp add: exfat_pread_def readable_def sector_bytes_def algebra_simps not_less)
  then have "pread_into (ef_dev ef) (take ?n sector) (int i * int ?n) = Some (sector_bytes ef i)"
    by (rule pread_into_full) (use assms(3) in simp)
  then show ?thesis by (simp add: read_sector_def Let_def)
qed

lemma vbr_loop_sum:
  assumes "readable (ef_dev ef)" "(i + k) * SECTOR_SIZE (ef_sb ef) \<le> dev_size (ef_dev ef)"
    and "SECTOR_SIZE (ef_sb ef) \<le> length sector"
  shows "\<exists>sec. vbr_loop ef sector s i k = Some (sec, foldl (\<lambda>s j. exfat_vbr_add_checksum (sector_bytes ef j) s) s [i..<i + k])
    \<and> length sec = length sector"
  using assms(2,3)
proof (induction k arbitrary: sector s i)
  case 0
  then show ?case by simp
next
  case (Suc k)
  let ?n = "SECTOR_SIZE (ef_sb ef)"
  have "(i + 1) * ?n \<le> (i + Suc k) * ?n" by (intro mult_le_mono1) simp
  then have r: "read_sector ef sector i = Some (sector_bytes ef i @ drop ?n sector)"
    using Suc.prems by (intro read_sector_bytes[OF assms(1)]) linarith+
  have "[i..<i + Suc k] = i # [Suc i..<Suc i + k]" by (simp add: upt_rec)
  then show ?case using Suc.IH[of "Suc i" "sector_bytes ef i @ drop ?n sector"] Suc.prems r by simp
qed

lemma vbr_compare_all:
  assumes "ef_repair ef = EXFAT_REPAIR_NO"
  shows "vbr_compare ef sector s i k = (list_all (\<lambda>j. le32_to_cpu (slice_of (4 * j) 4 sector) = s) [i..<i + k], ef)"
proof (induction k arbitrary: i)
  case (Suc k)
  have "[i..<i + Suc k] = i # [Suc i..<Suc i + k]" by (simp add: upt_rec)
  then show ?case using Suc[of "Suc i"] assms by (simp add: exfat_ask_to_fix_def)
qed simp

lemma verify_vbr_boot_ok:
  assumes "readable (ef_dev ef)" "12 * SECTOR_SIZE (ef_sb ef) \<le> dev_size (ef_dev ef)"
    and "SECTOR_SIZE (ef_sb ef) \<le> length sector" "ef_repair ef = EXFAT_REPAIR_NO"
  shows "verify_vbr_checksum ef sector = (boot_ok ef, ef)"
proof -
  let ?n = "SECTOR_SIZE (ef_sb ef)"
  have r: "read_sector ef sec i = Some (sector_bytes ef i @ drop ?n sec)" if "length sec = length sector" "i < 12" for sec i
  proof (rule read_sector_bytes[OF assms(1)])
    show "(i + 1) * ?n \<le> dev_size (ef_dev ef)"
      by (rule le_trans[OF mult_le_mono1 assms(2)]) (use that(2) in simp)
  qed (use that assms(3) in simp)
  have "(1 + 10) * ?n \<le> dev_size (ef_dev ef)" using assms(2) by simp
  from vbr_loop_sum[OF assms(1) this, of "sector_bytes ef 0 @ drop ?n sector" "exfat_vbr_start_checksum (sector_bytes ef 0)"]
  obtain sec where l: "vbr_loop ef (sector_bytes ef 0 @ drop ?n sector) (exfat_vbr_start_checksum (sector_bytes ef 0)) 1 10
      = Some (sec, boot_sum ef)" "length sec = length sector" using assms(3) by (auto simp: boot_sum_def)
  have eq: "slice_of (4 * j) 4 (sector_bytes ef 11 @ drop ?n sec) = slice_of (4 * j) 4 (sector_bytes ef 11)" if "j < ?n div 4" for j
  proof -
    have "(j + 1) * 4 \<le> ?n" using that by (simp add: less_eq_div_iff_mult_less_eq[symmetric])
    then show ?thesis by (simp add: slice_of_append)
  qed
  have "vbr_compare ef (sector_bytes ef 11 @ drop ?n sec) (boot_sum ef) 0 (?n div 4) = (boot_ok ef, ef)"
    unfolding vbr_compare_all[OF assms(4)] boot_ok_def using eq by (simp add: list_all_iff)
  then show ?thesis using r[of sector 0] r[of sec 11] l by (simp add: verify_vbr_checksum_def Let_def)
qed

text \<open>
  C26: without repairs, verify_vbr_checksum accepts exactly the boot regions whose twelfth
  sector repeats the checksum of the first eleven, and changes nothing.
\<close>

theorem verify_vbr_correct:
  assumes "readable (ef_dev ef)" "12 * SECTOR_SIZE (ef_sb ef) \<le> dev_size (ef_dev ef)"
    and "SECTOR_SIZE (ef_sb ef) \<le> length sector" "ef_repair ef = EXFAT_REPAIR_NO"
  shows "verify_vbr_checksum ef sector = (boot_ok ef, ef)"
  using assms by (rule verify_vbr_boot_ok)

section \<open>The super block is rewritten\<close>

text \<open>
  The fields that mounting and unmounting change are the ones the checksum leaves out.
\<close>

definition state_changed :: "exfat_super_block \<Rightarrow> u16 \<Rightarrow> u8 \<Rightarrow> exfat_super_block" where
  "state_changed sb v p = sb\<lparr>sb_volume_state := v, sb_allocated_percent := p\<rparr>"

lemma encode_state_changed:
  assumes "super_block_wf sb" "i < 512" "i \<notin> {0x6a, 0x6b, 0x70}"
  shows "encode_super_block (state_changed sb v p) ! i = encode_super_block sb ! i"
proof -
  define a where "a = sb_jump sb @ sb_oem_name sb @ sb_unused1 sb @
     cpu_to_le64 (sb_sector_start sb) @ cpu_to_le64 (sb_sector_count sb) @
     cpu_to_le32 (sb_fat_sector_start sb) @ cpu_to_le32 (sb_fat_sector_count sb) @
     cpu_to_le32 (sb_cluster_sector_start sb) @ cpu_to_le32 (sb_cluster_count sb) @
     cpu_to_le32 (sb_rootdir_cluster sb) @ cpu_to_le32 (sb_volume_serial sb) @
     [sb_version_minor sb, sb_version_major sb]"
  define b where "b = [sb_sector_bits sb, sb_spc_bits sb, sb_fat_count sb, sb_drive_no sb]"
  define c where "c = sb_unused2 sb @ cpu_to_le16 (sb_boot_signature sb)"
  have e: "encode_super_block sb = a @ cpu_to_le16 (sb_volume_state sb) @ b @ [sb_allocated_percent sb] @ c"
    "encode_super_block (state_changed sb v p) = a @ cpu_to_le16 v @ b @ [p] @ c"
    by (simp_all add: encode_super_block_def state_changed_def a_def b_def c_def)
  have "length a = 106" "length b = 4" using assms(1) by (simp_all add: a_def b_def super_block_wf_def)
  then show ?thesis using assms(2,3) unfolding e by (auto simp: nth_append nth_Cons')
qed

text \<open>The first 512 bytes of the device are the super block in memory.\<close>

definition sb_on_disk :: "exfat \<Rightarrow> bool" where
  "sb_on_disk ef \<longleftrightarrow> super_block_wf (ef_sb ef) \<and> 512 \<le> SECTOR_SIZE (ef_sb ef) \<and> 512 \<le> dev_size (ef_dev ef) \<and>
     map (dev_bytes (ef_dev ef)) [0..<512] = encode_super_block (ef_sb ef)"

lemma wf_state_changed [simp]: "super_block_wf (state_changed sb v p) = super_block_wf sb"
  by (simp add: super_block_wf_def state_changed_def)

lemma sizes_state_changed [simp]: "SECTOR_SIZE (state_changed sb v p) = SECTOR_SIZE sb"
  "CLUSTER_SIZE (state_changed sb v p) = CLUSTER_SIZE sb"
  by (simp_all add: CLUSTER_SIZE_def SECTOR_SIZE_def state_changed_def)

lemma commit_boot_ok:
  assumes "sb_on_disk ef" "commit_super_block (ef\<lparr>ef_sb := state_changed (ef_sb ef) v p\<rparr>) = (ok, ef')"
    and "boot_ok ef" "exfat_pwrite (ef_dev ef) (encode_super_block (state_changed (ef_sb ef) v p)) 0 \<noteq> None"
  shows "boot_ok ef' \<and> sb_on_disk ef'"
proof -
  let ?n = "SECTOR_SIZE (ef_sb ef)" and ?new = "encode_super_block (state_changed (ef_sb ef) v p)"
  have wf: "super_block_wf (ef_sb ef)" and n: "512 \<le> ?n" and dz: "512 \<le> dev_size (ef_dev ef)"
    and old: "map (dev_bytes (ef_dev ef)) [0..<512] = encode_super_block (ef_sb ef)"
    using assms(1) by (simp_all add: sb_on_disk_def)
  have len: "length ?new = 512" using wf by simp
  obtain d where d: "exfat_pwrite (ef_dev ef) ?new 0 = Some d" using assms(4) by auto
  then have ef': "ef' = ef\<lparr>ef_sb := state_changed (ef_sb ef) v p, ef_dev := d\<rparr>"
    using assms(2) by (simp add: commit_super_block_def)
  have db: "dev_bytes d i = (if i < 512 then ?new ! i else dev_bytes (ef_dev ef) i)" "dev_size d = dev_size (ef_dev ef)" for i
    using d len dz by (auto simp: pwrite_Some)
  have sec0: "exfat_vbr_start_checksum (sector_bytes ef' 0) = exfat_vbr_start_checksum (sector_bytes ef 0)"
  proof (rule vbr_start_checksum_cong)
    show "length (sector_bytes ef' 0) = length (sector_bytes ef 0)" by (simp add: ef')
    fix i assume i: "i < length (sector_bytes ef' 0)" "i \<notin> {0x6a, 0x6b, 0x70}"
    have "dev_bytes (ef_dev ef) i = encode_super_block (ef_sb ef) ! i" if "i < 512"
      using arg_cong[OF old, of "\<lambda>xs. xs ! i"] that by simp
    then show "sector_bytes ef' 0 ! i = sector_bytes ef 0 ! i"
      using i encode_state_changed[OF wf _ i(2), of v p] by (simp add: sector_bytes_def ef' db)
  qed
  have other: "sector_bytes ef' i = sector_bytes ef i" if "0 < i" for i
  proof -
    have "512 \<le> i * ?n" using n that by (cases i) auto
    then show ?thesis by (auto simp: sector_bytes_def ef' db)
  qed
  have "foldl (\<lambda>s i. exfat_vbr_add_checksum (sector_bytes ef' i) s) s xs
      = foldl (\<lambda>s i. exfat_vbr_add_checksum (sector_bytes ef i) s) s xs" if "\<forall>i \<in> set xs. 0 < i" for s xs
    using that other by (induction xs arbitrary: s) auto
  then have "boot_sum ef' = boot_sum ef" by (simp add: boot_sum_def sec0)
  then have "boot_ok ef'" using assms(3) other[of 11] by (simp add: boot_ok_def ef')
  moreover have "map (dev_bytes d) [0..<512] = ?new"
    by (rule nth_equalityI) (simp_all add: len db)
  then have "sb_on_disk ef'" using wf n dz by (simp add: sb_on_disk_def ef' db)
  ultimately show ?thesis by simp
qed

lemma rewritten_boot_ok:
  assumes "sb_on_disk ef" "boot_ok ef" "writable (ef_dev ef)"
  shows "boot_ok (snd (prepare_super_block ef)) \<and> post (\<lambda>ef'. boot_ok ef' \<and> sb_on_disk ef') (finalize_super_block ef)"
proof -
  have w: "exfat_pwrite (ef_dev ef) bs 0 \<noteq> None" for bs using assms(3) by (simp add: exfat_pwrite_def writable_def)
  have c: "boot_ok (snd (commit_super_block (ef\<lparr>ef_sb := state_changed (ef_sb ef) v p\<rparr>))) \<and>
      sb_on_disk (snd (commit_super_block (ef\<lparr>ef_sb := state_changed (ef_sb ef) v p\<rparr>)))" for v p
    using commit_boot_ok[OF assms(1) _ assms(2) w] by (metis prod.collapse)
  have s: "state_changed (ef_sb ef) v (sb_allocated_percent (ef_sb ef)) = (ef_sb ef)\<lparr>sb_volume_state := v\<rparr>" for v
    by (simp add: state_changed_def)
  have "boot_ok (snd (prepare_super_block ef))"
    using c[of _ "sb_allocated_percent (ef_sb ef)"] assms(2) unfolding s by (simp add: prepare_super_block_def)
  moreover have "post (\<lambda>ef'. boot_ok ef' \<and> sb_on_disk ef') (finalize_super_block ef)"
  proof (cases "ef_ro ef = 0")
    case True
    have r: "finalize_super_block ef = andThen r (\<lambda>sb. Inr (snd (commit_super_block (ef\<lparr>ef_sb := sb\<rparr>))))
        \<Longrightarrow> post (\<lambda>sb. \<exists>v p. sb = state_changed (ef_sb ef) v p) r \<Longrightarrow> ?thesis" for r
      using c by (cases r) auto
    show ?thesis
      by (rule r, simp add: finalize_super_block_def Let_def True)
        (auto simp: s[symmetric] state_changed_def[symmetric] andThen_def post_def split: sum.splits; auto simp: state_changed_def)
  qed (use assms in \<open>simp add: finalize_super_block_def\<close>)
  ultimately show ?thesis by simp
qed

text \<open>
  C25: prepare_super_block (at mount) and finalize_super_block (at unmount) rewrite the volume
  state and the allocated percentage on the disk, and a boot region that passed the check
  before passes it after.
\<close>

theorem boot_region_survives:
  assumes "sb_on_disk ef" "boot_ok ef" "writable (ef_dev ef)"
  shows "boot_ok (snd (prepare_super_block ef)) \<and> post (\<lambda>ef'. boot_ok ef' \<and> sb_on_disk ef') (finalize_super_block ef)"
  by (rule rewritten_boot_ok[OF assms])

section \<open>A concrete volume\<close>

text \<open>
  512-byte sectors and clusters. The table is in sector 12 and four clusters follow it: the
  root directory, the bitmap, the upper case table and a free one.
\<close>

definition mount_sb :: exfat_super_block where
  "mount_sb = demo_sb\<lparr>sb_sector_count := 17, sb_fat_sector_start := 12, sb_cluster_sector_start := 13,
     sb_cluster_count := 4, sb_rootdir_cluster := 2\<rparr>"

definition mount_sum :: u32 where
  "mount_sum = foldl (\<lambda>s (i :: nat). exfat_vbr_add_checksum (replicate 512 0) s)
     (exfat_vbr_start_checksum (encode_super_block mount_sb)) [1..<11]"

definition mount_bytes :: "nat \<Rightarrow> u8" where
  "mount_bytes i =
     (if i < 512 then encode_super_block mount_sb ! i
      else if i < 5632 then 0
      else if i < 6144 then cpu_to_le32 mount_sum ! (i mod 4)
      else if i < 6656 then (if 6152 \<le> i \<and> i < 6164 then 0xff else 0)
      else if i < 6688 then put64 24 1 (put32 20 3 (EXFAT_ENTRY_BITMAP # replicate 31 0)) ! (i - 6656)
      else if i < 6720 then put64 24 2 (put32 20 4 (EXFAT_ENTRY_UPCASE # replicate 31 0)) ! (i - 6688)
      else if i = 7168 then 7
      else 0)"

definition mount_dev :: "exfat_mode \<Rightarrow> exfat_dev" where
  "mount_dev m = \<lparr>dev_mode = m, dev_size = 8704, dev_bytes = mount_bytes,
     dev_rd_err = (\<lambda>_ _. False), dev_wr_err = (\<lambda>_ _. False), dev_sync_err = False\<rparr>"

definition mount_ef :: "exfat_mode \<Rightarrow> exfat" where
  "mount_ef m = demo_ef\<lparr>ef_dev := mount_dev m, ef_sb := mount_sb\<rparr>"

lemma mount_sb_sel [simp]:
  "SECTOR_SIZE mount_sb = 512" "CLUSTER_SIZE mount_sb = 512" "geometry_ok mount_sb" "super_block_wf mount_sb"
  "sb_cluster_count mount_sb = 4" "sb_rootdir_cluster mount_sb = 2" "sb_cluster_sector_start mount_sb = 13"
  "sb_fat_sector_start mount_sb = 12" "sb_sector_bits mount_sb = 9" "sb_spc_bits mount_sb = 0"
  by (simp_all add: SECTOR_SIZE_def CLUSTER_SIZE_def mount_sb_def demo_sb_def geometry_ok_def super_block_wf_def)

lemma mount_dev_sel [simp]:
  "dev_mode (mount_dev m) = m" "dev_size (mount_dev m) = 8704" "dev_bytes (mount_dev m) = mount_bytes"
  "readable (mount_dev m)" "writable (mount_dev m) \<longleftrightarrow> m = EXFAT_MODE_RW" "dev_rd_err (mount_dev m) = (\<lambda>_ _. False)"
  by (simp_all add: mount_dev_def readable_def writable_def)

lemma mount_super_block: "map mount_bytes [0..<512] = encode_super_block mount_sb"
  by (rule nth_equalityI) (simp_all add: mount_bytes_def del: upt_rec_numeral)

lemma mount_boot_ok:
  assumes "ef_dev ef = mount_dev m" "ef_sb ef = mount_sb"
  shows "boot_ok ef"
proof -
  have s: "sector_bytes ef 0 = encode_super_block mount_sb"
    using mount_super_block by (simp add: sector_bytes_def assms del: upt_rec_numeral)
  have z: "sector_bytes ef i = replicate 512 0" if "0 < i" "i < 11" for i
    using that by (intro nth_equalityI) (auto simp: sector_bytes_def assms mount_bytes_def nth_append del: upt_rec_numeral)
  have "foldl (\<lambda>s i. exfat_vbr_add_checksum (sector_bytes ef i) s) s xs
      = foldl (\<lambda>s (i :: nat). exfat_vbr_add_checksum (replicate 512 0) s) s xs" if "set xs \<subseteq> {1..<11}" for s xs
    using that by (induction xs arbitrary: s) (auto simp: z simp del:)
  from this[of "[1..<11]"] have "boot_sum ef = mount_sum" by (simp add: boot_sum_def mount_sum_def s del: upt_rec_numeral)
  moreover have "slice_of (4 * i) 4 (sector_bytes ef 11) = cpu_to_le32 mount_sum" if "i < 128" for i
  proof (rule nth_equalityI)
    fix k assume "k < length (slice_of (4 * i) 4 (sector_bytes ef 11))"
    then have k: "k < 4" using that by (simp add: assms)
    moreover have "(5632 + (4 * i + k)) mod 4 = k" using k by presburger
    ultimately have "sector_bytes ef 11 ! (4 * i + k) = cpu_to_le32 mount_sum ! k"
      using that by (simp add: sector_bytes_def assms mount_bytes_def del: upt_rec_numeral)
    then show "slice_of (4 * i) 4 (sector_bytes ef 11) ! k = cpu_to_le32 mount_sum ! k"
      using that k by (simp add: nth_slice_of assms)
  qed (use that in \<open>simp add: assms\<close>)
  ultimately show ?thesis by (simp add: boot_ok_def assms list_all_iff)
qed

theorem verify_vbr_correct_witness:
  "verify_vbr_checksum (mount_ef EXFAT_MODE_RO) (replicate 512 0) = (True, mount_ef EXFAT_MODE_RO)"
  using verify_vbr_correct[of "mount_ef EXFAT_MODE_RO" "replicate 512 0"] mount_boot_ok[of "mount_ef EXFAT_MODE_RO"]
  by (simp add: mount_ef_def demo_ef_def)

theorem boot_region_survives_witness:
  "boot_ok (snd (prepare_super_block (mount_ef EXFAT_MODE_RW))) \<and>
   post boot_ok (finalize_super_block (mount_ef EXFAT_MODE_RW))"
proof -
  have "sb_on_disk (mount_ef EXFAT_MODE_RW)" using mount_super_block
    by (simp add: sb_on_disk_def mount_ef_def del: upt_rec_numeral)
  from boot_region_survives[OF this mount_boot_ok] show ?thesis
    by (auto simp: mount_ef_def elim: post_weaken)
qed

end
