(* ===== verification/MountProofs.thy ===== *)
theory MountProofs
  imports Frame BootRegion
begin

text \<open>
  Mounting: every way \<open>exfat_mount\<close> can end, what a mounted volume satisfies, and a concrete
  volume that mounts.
\<close>

section \<open>What a successful mount has checked\<close>

definition mounted :: "exfat \<Rightarrow> bool" where
  "mounted ef \<longleftrightarrow> geometry_ok (ef_sb ef) \<and> sb_oem_name (ef_sb ef) = OEM_NAME \<and>
     sb_version_major (ef_sb ef) = 1 \<and> sb_version_minor (ef_sb ef) = 0 \<and> sb_fat_count (ef_sb ef) = 1 \<and>
     unat (sb_cluster_count (ef_sb ef)) * CLUSTER_SIZE (ef_sb ef) \<le> dev_size (ef_dev ef) \<and>
     ef_upcase ef \<noteq> [] \<and> cmap_chunk ef \<noteq> [] \<and> ef_nodes ef (ef_root ef) \<noteq> None \<and>
     (ef_ro ef = 0 \<longrightarrow> dev_mode (ef_dev ef) = EXFAT_MODE_RW)"

lemma geometry_state [simp]:
  "geometry_ok (sb\<lparr>sb_volume_state := v\<rparr>) = geometry_ok sb" "CLUSTER_SIZE (sb\<lparr>sb_volume_state := v\<rparr>) = CLUSTER_SIZE sb"
  by (simp_all add: geometry_ok_def CLUSTER_SIZE_def SECTOR_SIZE_def)

lemma check_early_geometry: "check_super_block_early sb = RC0 \<Longrightarrow> geometry_ok sb \<and> sb_oem_name sb = OEM_NAME"
  by (auto simp: check_super_block_early_def geometry_ok_def word_less_nat_alt split: if_splits)

lemma commit_mounted: "commit_super_block ef = (ok, ef') \<Longrightarrow> mounted ef' = mounted ef"
  by (auto simp: commit_super_block_def pwrite_Some mounted_def split: option.splits)

lemma state_mounted: "mounted (ef\<lparr>ef_sb := (ef_sb ef)\<lparr>sb_volume_state := v\<rparr>\<rparr>) = mounted ef"
  by (simp add: mounted_def)

lemma prepare_keeps: "prepare_super_block ef = (ok, ef') \<Longrightarrow> mounted ef' = mounted ef"
  by (auto simp: prepare_super_block_def state_mounted split: if_splits dest: commit_mounted)

lemma open_mode:
  assumes "exfat_open null_ok std m f mode = Some d"
  shows "dev_mode d \<noteq> EXFAT_MODE_ANY \<and> (mode = EXFAT_MODE_RO \<longrightarrow> dev_mode d = EXFAT_MODE_RO \<and>
    (\<exists>g. f = Some g \<and> dev_bytes d = of_content g))"
  using assms
  by (auto simp: exfat_open_def open_ro_def open_rw_def split: option.splits exfat_mode.splits if_splits)

lemma cached_root:
  assumes "exfat_cache_directory ef p = Inr (rc, ef')" "ef_nodes ef p = Some n"
  shows "ef_nodes ef' p \<noteq> None \<or> rc \<noteq> RC0"
  using assms by (auto simp: exfat_cache_directory_def node_at_Some outcome_simps modify_node_def split: if_splits prod.splits)

lemma mount_root_mounted:
  assumes "mount_root ef = Inr (RC0, Some ef')"
    and "geometry_ok (ef_sb ef)" "sb_oem_name (ef_sb ef) = OEM_NAME" "check_super_block_late ef = RC0"
    and "ef_ro ef = 0 \<longrightarrow> dev_mode (ef_dev ef) = EXFAT_MODE_RW"
  shows "mounted ef'"
proof -
  obtain p ef1 where a: "allocate_node ef = Some (p, ef1)" using assms(1) by (auto simp: mount_root_def split: option.splits)
  have e1: "ef_sb ef1 = ef_sb ef" "ef_dev ef1 = ef_dev ef" "ef_ro ef1 = ef_ro ef"
    using a by (auto simp: allocate_node_def put_node_at_def split: if_splits)
  let ?root = "root_node (ef_sb ef1)" and ?ef2 = "ef1\<lparr>ef_root := p\<rparr>"
  obtain sz where sz: "rootdir_size ?ef2 ?root = Inr sz" "sz \<noteq> 0"
    and r1: "andThen (exfat_get_node (put_node_at ?ef2 p (?root\<lparr>nd_size := sz\<rparr>)) p) (\<lambda>ef.
              andThen (exfat_cache_directory ef p) (\<lambda>(rc, ef).
                if rc \<noteq> RC0 then mount_error ef
                else if ef_upcase ef = [] then mount_error ef
                else if cmap_chunk ef = [] then mount_error ef
                else (case prepare_super_block ef of
                    (ok, ef) \<Rightarrow> if \<not> ok then mount_error ef else Inr (RC0, Some ef)))) = Inr (RC0, Some ef')"
    using assms(1) by (auto simp: mount_root_def a Let_def outcome_simps split: if_splits)
  let ?ef3 = "bump p (put_node_at ?ef2 p (?root\<lparr>nd_size := sz\<rparr>))"
  have g: "exfat_get_node (put_node_at ?ef2 p (?root\<lparr>nd_size := sz\<rparr>)) p = Inr ?ef3" by (rule get_node_bump) simp
  have err: "mount_error ef \<noteq> Inr (RC0, Some ef')" for ef by (auto simp: mount_error_def outcome_simps)
  obtain ef4 ok where c: "exfat_cache_directory ?ef3 p = Inr (RC0, ef4)" and t: "ef_upcase ef4 \<noteq> []" "cmap_chunk ef4 \<noteq> []"
    and pr: "prepare_super_block ef4 = (ok, ef')"
    using r1 err by (auto simp: g outcome_simps split: if_splits prod.splits)
  have "same_disk ?ef3 ef4" using disk.cache_directory[OF same_disk_refl, of ?ef3 p] c by simp
  moreover have "ef_sb ?ef3 = ef_sb ef" "ef_dev ?ef3 = ef_dev ef" "ef_ro ?ef3 = ef_ro ef" "ef_root ?ef3 = p"
    using e1 by (simp_all add: bump_def put_node_at_def)
  ultimately have d: "ef_sb ef4 = ef_sb ef" "dev_size (ef_dev ef4) = dev_size (ef_dev ef)"
      "dev_mode (ef_dev ef4) = dev_mode (ef_dev ef)" "ef_ro ef4 = ef_ro ef" "ef_root ef4 = p"
    by (auto simp: same_disk_def)
  have "ef_nodes ?ef3 p \<noteq> None" by (simp add: nodes_bump)
  then have "ef_nodes ef4 p \<noteq> None" using cached_root[OF c] by blast
  then have "mounted ef4"
    using assms(2-5) d t
    by (auto simp: mounted_def check_super_block_late_def exfat_get_size_def Let_def split: if_splits)
  then show ?thesis using prepare_keeps[OF pr] by simp
qed

lemma parse_options_frame [simp]:
  "ef_dev (parse_options u g ef opts) = ef_dev ef" "ef_sb (parse_options u g ef opts) = ef_sb ef"
  "ef_ro (parse_options u g ef opts) = ef_ro ef" "ef_malloc_ok (parse_options u g ef opts) = ef_malloc_ok ef"
  by (simp_all add: parse_options_def Let_def)

text \<open>The state before the device is read: the options and whether it is read-only.\<close>

definition opened :: "mount_env \<Rightarrow> string \<Rightarrow> exfat_mode \<Rightarrow> exfat_dev \<Rightarrow> exfat" where
  "opened env options mode d =
     (let ef = parse_options (env_euid env) (env_egid env) (zero_exfat env d) options in
      if exfat_get_mode d = EXFAT_MODE_RO then ef\<lparr>ef_ro := (if mode = EXFAT_MODE_ANY then - 1 else 1)\<rparr> else ef)"

lemma opened_frame [simp]: "ef_dev (opened env options mode d) = d"
  by (simp add: opened_def Let_def zero_exfat_def)

lemma opened_ro: "ef_ro (opened env options mode d) = 0 \<longleftrightarrow> dev_mode d \<noteq> EXFAT_MODE_RO"
  by (simp add: opened_def Let_def zero_exfat_def exfat_get_mode_def)

definition mode_of :: "string \<Rightarrow> exfat_mode" where
  "mode_of options = (if match_option options ''ro'' then EXFAT_MODE_RO
     else if match_option options ''ro_fallback'' then EXFAT_MODE_ANY else EXFAT_MODE_RW)"

text \<open>Every result of a mount: the state is the opened one, or what comes after it.\<close>

lemma exfat_mount_cases:
  assumes "exfat_mount env spec options = Inr (rc, Some ef)"
  obtains d where "exfat_open (env_null_ok env) (env_std env) (env_malloc_ok env 16) (env_file env spec) (mode_of options) = Some d"
    "ef = opened env options (mode_of options) d \<and> rc \<noteq> RC0"
  | d bs where "exfat_open (env_null_ok env) (env_std env) (env_malloc_ok env 16) (env_file env spec) (mode_of options) = Some d"
    "ef = (opened env options (mode_of options) d)\<lparr>ef_sb := decode_super_block bs\<rparr> \<and> rc \<noteq> RC0"
  | d bs ok ef1 sec where "exfat_open (env_null_ok env) (env_std env) (env_malloc_ok env 16) (env_file env spec) (mode_of options) = Some d"
    "check_super_block_early (decode_super_block bs) = RC0"
    "verify_vbr_checksum ((opened env options (mode_of options) d)\<lparr>ef_sb := decode_super_block bs\<rparr>) sec = (ok, ef1)"
    "ef = ef1 \<and> rc \<noteq> RC0 \<or> check_super_block_late ef1 = RC0 \<and> mount_root ef1 = Inr (rc, Some ef)"
proof -
  obtain d where d: "exfat_open (env_null_ok env) (env_std env) (env_malloc_ok env 16) (env_file env spec) (mode_of options) = Some d"
    using assms by (auto simp: exfat_mount_def mode_of_def Let_def split: option.splits)
  let ?ef = "opened env options (mode_of options) d"
  have r: "(if \<not> ef_malloc_ok ?ef 512 then Inr (ENOMEM, Some ?ef)
          else (case pread_into d (replicate 512 0) 0 of
              None \<Rightarrow> Inr (EIO, Some ?ef)
            | Some bs \<Rightarrow>
                let ef = ?ef\<lparr>ef_sb := decode_super_block bs\<rparr> in
                if check_super_block_early (ef_sb ef) \<noteq> RC0 then Inr (EIO, Some ef)
                else if \<not> ef_malloc_ok ef (CLUSTER_SIZE (ef_sb ef)) then Inr (ENOMEM, Some ef)
                else (case verify_vbr_checksum ef (junk ef (CLUSTER_SIZE (ef_sb ef))) of
                  (ok, ef) \<Rightarrow>
                    if \<not> ok then Inr (EIO, Some ef)
                    else if check_super_block_late ef \<noteq> RC0 then Inr (EIO, Some ef)
                    else mount_root ef))) = Inr (rc, Some ef)"
    using assms unfolding exfat_mount_def mode_of_def[symmetric] Let_def d opened_def option.case .
  show thesis
  proof (cases "\<exists>bs. pread_into d (replicate 512 0) 0 = Some bs \<and> check_super_block_early (decode_super_block bs) = RC0 \<and>
      ef_malloc_ok ?ef 512 \<and> ef_malloc_ok ?ef (CLUSTER_SIZE (decode_super_block bs))")
    case True
    then obtain bs where bs: "pread_into d (replicate 512 0) 0 = Some bs" "check_super_block_early (decode_super_block bs) = RC0"
      "ef_malloc_ok ?ef 512" "ef_malloc_ok ?ef (CLUSTER_SIZE (decode_super_block bs))" by blast
    obtain ok ef1 where v: "verify_vbr_checksum (?ef\<lparr>ef_sb := decode_super_block bs\<rparr>)
        (junk (?ef\<lparr>ef_sb := decode_super_block bs\<rparr>) (CLUSTER_SIZE (decode_super_block bs))) = (ok, ef1)" by fastforce
    have "ef = ef1 \<and> rc \<noteq> RC0 \<or> check_super_block_late ef1 = RC0 \<and> mount_root ef1 = Inr (rc, Some ef)"
      using r bs v by (auto simp: Let_def split: if_splits)
    then show thesis using that(3)[OF d bs(2) v] by blast
  next
    case False
    then have "ef = ?ef \<and> rc \<noteq> RC0 \<or> (\<exists>bs. ef = ?ef\<lparr>ef_sb := decode_super_block bs\<rparr> \<and> rc \<noteq> RC0)"
      using r by (auto simp: Let_def split: if_splits option.splits)
    then show thesis using that(1,2)[OF d] by blast
  qed
qed

lemma exfat_mount_mounted:
  assumes "exfat_mount env spec options = Inr (RC0, Some ef)"
  shows "mounted ef"
  using assms
proof (cases rule: exfat_mount_cases)
  case (3 d bs ok ef1 sec)
  let ?ef = "(opened env options (mode_of options) d)\<lparr>ef_sb := decode_super_block bs\<rparr>"
  have "same_disk ?ef ef1" using disk.verify_vbr[OF 3(3) same_disk_refl] .
  then have e1: "ef_sb ef1 = decode_super_block bs" "dev_mode (ef_dev ef1) = dev_mode d" "ef_ro ef1 = ef_ro ?ef"
    by (simp_all add: same_disk_def)
  have "dev_mode d \<noteq> EXFAT_MODE_ANY" using open_mode[OF 3(1)] by blast
  then have "ef_ro ef1 = 0 \<longrightarrow> dev_mode (ef_dev ef1) = EXFAT_MODE_RW"
    using opened_ro[of env options "mode_of options" d] e1 by (cases "dev_mode d") auto
  then show ?thesis using mount_root_mounted[of ef1 ef] 3(4) check_early_geometry[OF 3(2)] e1 by auto
qed auto


section \<open>Mounting the concrete volume\<close>

definition mount_file :: os_file where
  "mount_file = \<lparr>of_opens_ro = True, of_opens_rw = True, of_blk_ro = False, of_stat_ok = True,
     of_kind = Block_device, of_size = 8704, of_rewinds = True, of_content = mount_bytes,
     of_rd_err = (\<lambda>_ _. False), of_wr_err = (\<lambda>_ _. False), of_sync_err = False\<rparr>"

definition mount_demo :: mount_env where
  "mount_demo = \<lparr>env_file = (\<lambda>_. Some mount_file), env_std = (True, True, True), env_null_ok = True,
     env_euid = 0, env_egid = 0, env_tz = 0, env_now = 0, env_malloc_ok = (\<lambda>_. True), env_stdin = [],
     env_junk = (\<lambda>_. 0)\<rparr>"

text \<open>The states while the root directory, node \<open>p\<close>, is read.\<close>

definition reading :: "exfat_mode \<Rightarrow> ptr \<Rightarrow> exfat \<Rightarrow> bool" where
  "reading m p ef \<longleftrightarrow> ef_dev ef = mount_dev m \<and> ef_sb ef = mount_sb \<and> ef_malloc_ok ef = (\<lambda>_. True) \<and>
     (\<exists>n. ef_nodes ef p = Some n \<and> nd_attrib n = EXFAT_ATTRIB_DIR \<and> nd_start_cluster n = 2 \<and>
       nd_size n = 512 \<and> \<not> nd_is_cached n \<and> fptr_ok ef n)"

lemma mount_cluster: "valid_cluster ef c \<longleftrightarrow> 2 \<le> unat c \<and> unat c < 6" if "ef_sb ef = mount_sb"
  using that by (auto simp: valid_cluster_def cluster_valid_iff)

lemma mount_volume_ok: "ef_dev ef = mount_dev m \<Longrightarrow> ef_sb ef = mount_sb \<Longrightarrow> volume_ok ef"
  by (auto simp: volume_ok_def mount_cluster fat_offset_def s2o_def cluster_start_def nat_add_distrib nat_mult_distrib)

lemma fptr_ok_cong:
  "ef_dev ef' = ef_dev ef \<Longrightarrow> ef_sb ef' = ef_sb ef \<Longrightarrow> ef_junk ef' = ef_junk ef \<Longrightarrow> fptr_ok ef' n = fptr_ok ef n"
proof -
  assume "ef_dev ef' = ef_dev ef" "ef_sb ef' = ef_sb ef" "ef_junk ef' = ef_junk ef"
  then have "next_of ef' n = next_of ef n" by (auto simp: next_of_def fat_link_def)
  then show ?thesis by (simp add: fptr_ok_def chain_at_def)
qed

lemma read_root:
  assumes "reading m p ef" "k \<le> 16"
  shows "\<exists>bs n. read_entries ef p 1 (int (32 * k)) = Inr (if k < 16 then RC0 else ENOENT, [bs], put_node_at ef p n) \<and>
    (k < 16 \<longrightarrow> bs = map mount_bytes [6656 + 32 * k..<6656 + 32 * k + 32]) \<and> reading m p (put_node_at ef p n)"
proof -
  obtain n where n: "ef_nodes ef p = Some n" "nd_attrib n = EXFAT_ATTRIB_DIR" "nd_start_cluster n = 2"
    "nd_size n = 512" "\<not> nd_is_cached n" "fptr_ok ef n" using assms(1) by (auto simp: reading_def)
  have d: "ef_dev ef = mount_dev m" "ef_sb ef = mount_sb" "ef_malloc_ok ef = (\<lambda>_. True)" using assms(1) by (simp_all add: reading_def)
  have cov: "covered ef n (nd_start_cluster n) (unat (nd_size n))"
    by (auto simp: covered_def n d mount_cluster)
  let ?buf = "map (ef_junk ef) [0..<32 * 1]"
  obtain i c a dd where r: "exfat_generic_pread ef n ?buf (int (32 * k)) =
      Inr (Inr (min 32 (512 - 32 * k)), map (file_byte ef n) [32 * k..<32 * k + min 32 (512 - 32 * k)] @ drop (min 32 (512 - 32 * k)) ?buf,
        n\<lparr>nd_fptr_index := i, nd_fptr_cluster := c, nd_atime := a, nd_is_dirty := dd\<rparr>)"
    and f: "fptr_ok ef (n\<lparr>nd_fptr_index := i, nd_fptr_cluster := c\<rparr>)"
    using generic_pread_bytes[OF mount_volume_ok[OF d(1,2)] n(6) cov, of "32 * k" ?buf] assms(2) n(4) d(2)
    by (auto simp del: upt_rec_numeral)
  let ?n = "n\<lparr>nd_fptr_index := i, nd_fptr_cluster := c, nd_atime := a, nd_is_dirty := dd\<rparr>"
  have "fptr_ok ef ?n" using f by (simp add: fptr_ok_def chain_at_def next_of_def)
  then have "fptr_ok (put_node_at ef p ?n) ?n" by (subst fptr_ok_cong) (simp_all add: put_node_at_def)
  then have g: "reading m p (put_node_at ef p ?n)" using d n by (simp add: reading_def)
  have "min 32 (512 - 32 * k) = (if k < 16 then 32 else 0)" using assms(2) by auto
  moreover have "map (file_byte ef n) [32 * k..<32 * k + 32] = map mount_bytes [6656 + 32 * k..<6656 + 32 * k + 32]" if "k < 16"
    using that by (intro nth_equalityI) (auto simp: file_byte_def d n byte_pos_def cluster_start_def add.assoc simp del: upt_rec_numeral)
  ultimately show ?thesis
    using r g by (auto simp: read_entries_def node_at_Some[OF n(1)] n entries_of_def slice_of_def simp del: upt_rec_numeral intro!: exI[of _ ?n])
qed


lemma root_rest:
  assumes "reading m p ef" "2 \<le> k" "k \<le> 16" "17 - k \<le> fuel"
  shows "\<exists>ef'. readdir_loop fuel ef p (int (32 * k)) = Inr (ENOENT, 0, 512, ef') \<and> reading m p ef' \<and>
    ef_upcase ef' = ef_upcase ef \<and> cmap_chunk ef' = cmap_chunk ef \<and> ef_ro ef' = ef_ro ef \<and> ef_root ef' = ef_root ef"
  using assms
proof (induction fuel arbitrary: k ef)
  case (Suc fuel)
  obtain bs n where r: "read_entries ef p 1 (int (32 * k)) = Inr (if k < 16 then RC0 else ENOENT, [bs], put_node_at ef p n)"
    "k < 16 \<longrightarrow> bs = map mount_bytes [6656 + 32 * k..<6656 + 32 * k + 32]" "reading m p (put_node_at ef p n)"
    using read_root[OF Suc.prems(1,3)] by blast
  show ?case
  proof (cases "k < 16")
    case True
    have "map mount_bytes [6656 + 32 * k..<6656 + 32 * k + 32] ! 0 = mount_bytes (6656 + 32 * k)" by simp
    also have "\<dots> = 0" using Suc.prems(2) True by (simp add: mount_bytes_def)
    finally have "entry_type bs = 0" using r(2) True by simp
    then have "entry_type bs \<noteq> EXFAT_ENTRY_FILE" "entry_type bs \<noteq> EXFAT_ENTRY_UPCASE" "entry_type bs \<noteq> EXFAT_ENTRY_BITMAP"
      "entry_type bs \<noteq> EXFAT_ENTRY_LABEL" "entry_type bs AND EXFAT_ENTRY_VALID = 0" by simp_all
    moreover have "17 - Suc k \<le> fuel" "Suc k \<le> 16" "2 \<le> Suc k" using Suc.prems(2,4) True by linarith+
    from Suc.IH[OF r(3) this(3,2,1)] obtain ef' where "readdir_loop fuel (put_node_at ef p n) p (int (32 * Suc k)) = Inr (ENOENT, 0, 512, ef')" "reading m p ef'"
      "ef_upcase ef' = ef_upcase ef" "cmap_chunk ef' = cmap_chunk ef" "ef_ro ef' = ef_ro ef" "ef_root ef' = ef_root ef"
      by (auto simp: put_node_at_def)
    ultimately show ?thesis using r(1) True by (simp add: read_unknown_entry_def add.commute)
  next
    case False
    then show ?thesis using r Suc.prems by (simp add: put_node_at_def)
  qed
qed simp

lemma root_entries:
  "map mount_bytes [6656..<6688] = put64 24 1 (put32 20 3 (EXFAT_ENTRY_BITMAP # replicate 31 0))"
  "map mount_bytes [6688..<6720] = put64 24 2 (put32 20 4 (EXFAT_ENTRY_UPCASE # replicate 31 0))"
  by (rule nth_equalityI; simp add: mount_bytes_def del: upt_rec_numeral)+

lemma reading_other:
  assumes "reading m p ef" "ef_dev ef' = ef_dev ef" "ef_sb ef' = ef_sb ef" "ef_malloc_ok ef' = ef_malloc_ok ef"
    "ef_nodes ef' = ef_nodes ef" "ef_junk ef' = ef_junk ef"
  shows "reading m p ef'"
  using assms fptr_ok_cong[OF assms(2,3,6)] by (simp add: reading_def)

lemma mount_read: "off + length buf \<le> 8704 \<Longrightarrow> pread_into (mount_dev m) buf (int off) = Some (map mount_bytes [off..<off + length buf])"
  by (rule pread_into_full) (simp_all add: exfat_pread_def min_def)

lemma mount_c2o: "exfat_c2o mount_sb 3 = Inr (int 7168)" "exfat_c2o mount_sb 4 = Inr (int 7680)"
  by (simp_all add: c2o_eq cluster_start_def)

lemma reading_bitmap:
  assumes "reading m p ef"
  shows "\<exists>ef'. read_bitmap_entry ef (put64 24 1 (put32 20 3 (EXFAT_ENTRY_BITMAP # replicate 31 0))) = Inr (RC0, ef') \<and>
    reading m p ef' \<and> cmap_chunk ef' \<noteq> [] \<and> ef_upcase ef' = ef_upcase ef \<and> ef_ro ef' = ef_ro ef \<and> ef_root ef' = ef_root ef"
proof -
  have d: "ef_dev ef = mount_dev m" "ef_sb ef = mount_sb" "ef_malloc_ok ef = (\<lambda>_. True)" using assms by (simp_all add: reading_def)
  let ?b = "put64 24 1 (put32 20 3 (EXFAT_ENTRY_BITMAP # replicate 31 0))"
  let ?ef = "ef\<lparr>cmap_start_cluster := 3, cmap_size := 4, cmap_chunk_size := 4\<rparr>"
  have e: "bitmap_start_cluster ?b = 3" "bitmap_size ?b = 1" by (simp_all add: entry_fields buffer_simps)
  have "read_bitmap_entry ef ?b = Inr (RC0, ?ef\<lparr>cmap_chunk := blocks_of (map mount_bytes [7168..<7176])\<rparr>)"
    unfolding read_bitmap_entry_def e
    by (simp add: Let_def d BMAP_SIZE_def div_round_up_def round_up_def CLUSTER_INVALID_def word_le_nat_alt mount_c2o
      mount_read[where off = 7168, simplified] mount_read[where off = 7680, simplified] junk_def del: upt_rec_numeral)
  moreover have "reading m p (?ef\<lparr>cmap_chunk := blocks_of (map mount_bytes [7168..<7176])\<rparr>)"
    by (rule reading_other[OF assms]) simp_all
  moreover have "blocks_of (map mount_bytes [7168..<7176]) \<noteq> []" by (simp add: blocks_of_def)
  ultimately show ?thesis by simp
qed

lemma reading_upcase:
  assumes "reading m p ef" "ef_upcase ef = []"
  shows "\<exists>ef'. read_upcase_entry ef (put64 24 2 (put32 20 4 (EXFAT_ENTRY_UPCASE # replicate 31 0))) = Inr (RC0, ef') \<and>
    reading m p ef' \<and> ef_upcase ef' \<noteq> [] \<and> cmap_chunk ef' = cmap_chunk ef \<and> ef_ro ef' = ef_ro ef \<and> ef_root ef' = ef_root ef"
proof -
  have d: "ef_dev ef = mount_dev m" "ef_sb ef = mount_sb" "ef_malloc_ok ef = (\<lambda>_. True)" using assms by (simp_all add: reading_def)
  let ?b = "put64 24 2 (put32 20 4 (EXFAT_ENTRY_UPCASE # replicate 31 0))"
  let ?u = "decompress_upcase (units_of (map mount_bytes [7680..<7682]))"
  have e: "upcase_start_cluster ?b = 4" "upcase_size ?b = 2" by (simp_all add: entry_fields buffer_simps)
  have "read_upcase_entry ef ?b = Inr (RC0, ef\<lparr>ef_upcase := ?u\<rparr>)"
    unfolding read_upcase_entry_def e
    by (simp add: Let_def d assms(2) CLUSTER_INVALID_def word_le_nat_alt mount_c2o
      mount_read[where off = 7168, simplified] mount_read[where off = 7680, simplified] junk_def del: upt_rec_numeral)
  moreover have "reading m p (ef\<lparr>ef_upcase := ?u\<rparr>)" by (rule reading_other[OF assms(1)]) simp_all
  ultimately show ?thesis using disk.decompress_not_Nil by simp
qed


lemma root_cached:
  assumes "reading m p ef" "ef_upcase ef = []"
  shows "\<exists>ef'. exfat_cache_directory ef p = Inr (RC0, ef') \<and> ef_upcase ef' \<noteq> [] \<and> cmap_chunk ef' \<noteq> [] \<and>
    ef_ro ef' = ef_ro ef"
proof -
  obtain n where n: "ef_nodes ef p = Some n" "nd_size n = 512" "\<not> nd_is_cached n" using assms(1) by (auto simp: reading_def)
  obtain n1 where r1: "read_entries ef p 1 0 = Inr (RC0, [map mount_bytes [6656..<6688]], put_node_at ef p n1)"
    and g1: "reading m p (put_node_at ef p n1)" using read_root[OF assms(1), of 0] by (auto simp del: upt_rec_numeral)
  obtain ef2 where b: "read_bitmap_entry (put_node_at ef p n1) (map mount_bytes [6656..<6688]) = Inr (RC0, ef2)"
    "reading m p ef2" "cmap_chunk ef2 \<noteq> []" "ef_upcase ef2 = []" "ef_ro ef2 = ef_ro ef"
    using reading_bitmap[OF g1] assms(2) unfolding root_entries by (auto simp: put_node_at_def)
  obtain n3 where r3: "read_entries ef2 p 1 32 = Inr (RC0, [map mount_bytes [6688..<6720]], put_node_at ef2 p n3)"
    and g3: "reading m p (put_node_at ef2 p n3)" using read_root[OF b(2), of 1] by (auto simp del: upt_rec_numeral)
  obtain ef4 where u: "read_upcase_entry (put_node_at ef2 p n3) (map mount_bytes [6688..<6720]) = Inr (RC0, ef4)"
    "reading m p ef4" "cmap_chunk ef4 \<noteq> []" "ef_upcase ef4 \<noteq> []" "ef_ro ef4 = ef_ro ef"
    using reading_upcase[OF g3] b unfolding root_entries by (auto simp: put_node_at_def)
  obtain ef5 where e: "readdir_loop 16 ef4 p 64 = Inr (ENOENT, 0, 512, ef5)" "reading m p ef5"
    "cmap_chunk ef5 \<noteq> []" "ef_upcase ef5 \<noteq> []" "ef_ro ef5 = ef_ro ef"
    using root_rest[OF u(2), of 2 16] u by auto
  have t: "entry_type (map mount_bytes [6656..<6688]) = EXFAT_ENTRY_BITMAP" "entry_type (map mount_bytes [6688..<6720]) = EXFAT_ENTRY_UPCASE"
    unfolding root_entries by (simp_all add: buffer_simps)
  have f: "directory_fuel n = Suc (Suc 16)" by (simp add: directory_fuel_def n)
  have l: "readdir_loop (directory_fuel n) ef p 0 = Inr (ENOENT, 0, 512, ef5)"
    unfolding f readdir_loop.simps(2) using r1 r3 b u e t by (simp del: upt_rec_numeral)
  obtain n5 where "ef_nodes ef5 p = Some n5" using e(2) by (auto simp: reading_def)
  moreover have "cache_loop (directory_fuel n) ef p None 0 = Inr (ENOENT, ef5)"
    unfolding f cache_loop.simps(2) using l by (simp add: readdir_def node_at_Some[OF n(1)])
  ultimately show ?thesis using e n
    by (simp add: exfat_cache_directory_def node_at_Some modify_node_Some) (simp add: put_node_at_def)
qed


lemma mount_demo_root:
  assumes "ef_dev ef = mount_dev m" "ef_sb ef = mount_sb" "ef_malloc_ok ef = (\<lambda>_. True)" "ef_upcase ef = []" "ef_ro ef \<noteq> 0"
  shows "\<exists>ef'. mount_root ef = Inr (RC0, Some ef')"
proof -
  let ?p = "ef_next_ptr ef"
  let ?ef1 = "((put_node_at ef ?p zero_node)\<lparr>ef_next_ptr := ?p + 1\<rparr>)\<lparr>ef_root := ?p\<rparr>" and ?root = "root_node mount_sb"
  have a: "allocate_node ef = Some (?p, (put_node_at ef ?p zero_node)\<lparr>ef_next_ptr := ?p + 1\<rparr>)"
    by (simp add: allocate_node_def assms(3))
  have "exfat_next_cluster ?ef1 ?root 2 = Inr EXFAT_CLUSTER_END"
    by (subst next_cluster_next_of)
      (simp_all add: next_of_def root_node_def zero_node_def fat_link_def put_node_at_def assms fat_offset_def s2o_def
        mount_read[where off = 6152, simplified] mount_bytes_def le32_to_cpu_def)
  then have "rootdir_loop ?ef1 ?root 2 0 (Suc 3) = Inr 1"
    by (simp add: CLUSTER_INVALID_def word_le_nat_alt put_node_at_def assms del: Suc_numeral)
  then have sz: "rootdir_size ?ef1 ?root = Inr 512"
    by (simp add: rootdir_size_def put_node_at_def assms)
  let ?n = "?root\<lparr>nd_size := 512, nd_references := 1\<rparr>"
  let ?ef2 = "put_node_at ?ef1 ?p ?n"
  have g: "exfat_get_node (put_node_at ?ef1 ?p (?root\<lparr>nd_size := 512\<rparr>)) ?p = Inr ?ef2"
    by (simp add: get_node_Some root_node_def zero_node_def)
  have "reading m ?p ?ef2"
    by (simp add: reading_def put_node_at_def assms root_node_def zero_node_def fptr_ok_def chain_at_def)
  from root_cached[OF this] obtain ef' where c: "exfat_cache_directory ?ef2 ?p = Inr (RC0, ef')" "ef_upcase ef' \<noteq> []"
      "cmap_chunk ef' \<noteq> []" "ef_ro ef' = ef_ro ef"
    using assms(4) by (auto simp: put_node_at_def)
  then have "prepare_super_block ef' = (True, ef')" using assms(5) by (simp add: prepare_super_block_def)
  then show ?thesis using c sz g a by (simp add: mount_root_def Let_def assms(2))
qed

lemma mount_demo_ok: "\<exists>ef. exfat_mount mount_demo spec ''ro'' = Inr (RC0, Some ef)"
proof -
  have o: "match_option ''ro'' ''ro''" by (simp add: match_option_def)
  have d: "exfat_open (env_null_ok mount_demo) (env_std mount_demo) (env_malloc_ok mount_demo 16) (env_file mount_demo spec) EXFAT_MODE_RO
      = Some (mount_dev EXFAT_MODE_RO)"
    by (simp add: exfat_open_def mount_demo_def mount_file_def open_ro_def device_size_def mount_dev_def)
  let ?ef = "(parse_options 0 0 (zero_exfat mount_demo (mount_dev EXFAT_MODE_RO)) ''ro'')\<lparr>ef_ro := 1\<rparr>"
  let ?ef1 = "?ef\<lparr>ef_sb := mount_sb\<rparr>"
  have bs: "pread_into (mount_dev EXFAT_MODE_RO) (replicate 512 0) 0 = Some (encode_super_block mount_sb)"
    using mount_read[of 0 "replicate 512 0"] mount_super_block by (simp del: upt_rec_numeral)
  have early: "check_super_block_early mount_sb = RC0"
    by (simp add: check_super_block_early_def OEM_NAME_def mount_sb_def demo_sb_def)
  have "ef_repair ?ef1 = EXFAT_REPAIR_NO" by (simp add: parse_options_def Let_def get_int_option_def get_option_def)
  then have v: "verify_vbr_checksum ?ef1 (junk ?ef1 512) = (True, ?ef1)"
    using mount_boot_ok[of ?ef1] by (subst verify_vbr_boot_ok) (simp_all add: zero_exfat_def junk_def del: upt_rec_numeral)
  have late: "check_super_block_late ?ef1 = RC0"
    by (simp add: check_super_block_late_def exfat_get_size_def zero_exfat_def) (simp add: mount_sb_def demo_sb_def)
  have "ef_upcase ?ef1 = []" by (simp add: zero_exfat_def parse_options_def Let_def)
  then obtain ef' where r: "mount_root ?ef1 = Inr (RC0, Some ef')"
    using mount_demo_root[of ?ef1] by (auto simp: zero_exfat_def mount_demo_def simp del: upt_rec_numeral)
  have "decode_super_block (encode_super_block mount_sb) = mount_sb" by (simp add: decode_encode_super_block)
  moreover have "ef_malloc_ok ?ef n" for n by (simp add: zero_exfat_def mount_demo_def)
  moreover have "env_euid mount_demo = 0" "env_egid mount_demo = 0" by (simp_all add: mount_demo_def)
  ultimately show ?thesis
    unfolding exfat_mount_def if_P[OF o] Let_def d option.case
    using bs early v late r by (simp add: exfat_get_mode_def)
qed


end
