(* ===== verification/Session.thy ===== *)
theory Session
  imports MountProofs
begin

text \<open>
  Sessions: any sequence of the library's operations between mounting and unmounting, as a
  step relation, and what holds at every moment of one.
\<close>

section \<open>The operations a client may call\<close>

inductive operation :: "exfat \<Rightarrow> exfat \<Rightarrow> bool" where
  op_mknod: "exfat_mknod ef path = Inr (rc, ef') \<Longrightarrow> operation ef ef'"
| op_mkdir: "exfat_mkdir ef path = Inr (rc, ef') \<Longrightarrow> operation ef ef'"
| op_unlink: "exfat_unlink ef p = Inr (rc, ef') \<Longrightarrow> operation ef ef'"
| op_rmdir: "exfat_rmdir ef p = Inr (rc, ef') \<Longrightarrow> operation ef ef'"
| op_rename: "exfat_rename ef path new_path = Inr (rc, ef') \<Longrightarrow> operation ef ef'"
| op_lookup: "exfat_lookup ef path = Inr (rc, node, ef') \<Longrightarrow> operation ef ef'"
| op_split: "exfat_split ef path = Inr (rc, node, parent, name, ef') \<Longrightarrow> operation ef ef'"
| op_opendir: "exfat_opendir ef p = Inr (rc, it, ef') \<Longrightarrow> operation ef ef'"
| op_readdir: "exfat_readdir ef it = Inr (node, it', ef') \<Longrightarrow> operation ef ef'"
| op_closedir: "exfat_closedir ef it = Inr (it', ef') \<Longrightarrow> operation ef ef'"
| op_get: "exfat_get_node ef p = Inr ef' \<Longrightarrow> operation ef ef'"
| op_put: "exfat_put_node ef p = Inr ef' \<Longrightarrow> operation ef ef'"
| op_cleanup: "exfat_cleanup_node ef p = Inr (rc, ef') \<Longrightarrow> operation ef ef'"
| op_flush_node: "exfat_flush_node ef p = Inr (rc, ef') \<Longrightarrow> operation ef ef'"
| op_flush_nodes: "exfat_flush_nodes ef = Inr (rc, ef') \<Longrightarrow> operation ef ef'"
| op_flush: "exfat_flush ef = Inr (rc, ef') \<Longrightarrow> operation ef ef'"
| op_label: "exfat_set_label ef label_text = Inr (rc, ef') \<Longrightarrow> operation ef ef'"
| op_read: "ef_nodes ef p = Some n \<Longrightarrow> exfat_generic_pread ef n buf off = Inr (r, bs, n') \<Longrightarrow>
    operation ef (put_node_at ef p n')"
| op_write: "ef_nodes ef p = Some n \<Longrightarrow> exfat_generic_pwrite ef n bs off = Inr (r, ef', n') \<Longrightarrow>
    operation ef (put_node_at ef' p n')"
| op_truncate: "ef_nodes ef p = Some n \<Longrightarrow> exfat_truncate ef n sz erase = Inr (rc, ef', n') \<Longrightarrow>
    operation ef (put_node_at ef' p n')"
| op_utimes: "ef_nodes ef p = Some n \<Longrightarrow> operation ef (put_node_at ef p (exfat_utimes n atime mtime))"

inductive session :: "exfat \<Rightarrow> exfat \<Rightarrow> bool" where
  session_start: "session ef ef"
| session_step: "session ef ef1 \<Longrightarrow> operation ef1 ef2 \<Longrightarrow> session ef ef2"

inductive_cases operationE: "operation ef ef'"

context kept
begin

lemma outcome: "post I r0 \<Longrightarrow> r0 = Inr ef' \<Longrightarrow> I ef'" "post K2 r2 \<Longrightarrow> r2 = Inr (a, ef') \<Longrightarrow> I ef'"
  "post K3 r3 \<Longrightarrow> r3 = Inr (a, ef', b) \<Longrightarrow> I ef'" "post L3 r4 \<Longrightarrow> r4 = Inr (a, b, ef') \<Longrightarrow> I ef'"
  "post L5 r5 \<Longrightarrow> r5 = Inr (a, b, c, d, ef') \<Longrightarrow> I ef'"
  by (simp_all add: K3_def L3_def L5_def)

lemma operation: "operation ef ef' \<Longrightarrow> I ef \<Longrightarrow> I ef'"
proof (induction rule: operation.induct)
  case op_mknod then show ?case using outcome(2)[OF mknod] by blast
next
  case op_mkdir then show ?case using outcome(2)[OF mkdir] by blast
next
  case op_unlink then show ?case using outcome(2)[OF unlink] by blast
next
  case op_rmdir then show ?case using outcome(2)[OF rmdir] by blast
next
  case op_rename then show ?case using outcome(2)[OF rename] by blast
next
  case op_lookup then show ?case using outcome(4)[OF lookup] by blast
next
  case op_split then show ?case using outcome(5)[OF split] by blast
next
  case op_opendir then show ?case using outcome(4)[OF opendir] by blast
next
  case op_readdir then show ?case using outcome(4)[OF next_child] by blast
next
  case op_closedir then show ?case using outcome(2)[OF closedir] by blast
next
  case op_get then show ?case using outcome(1)[OF get_node] by blast
next
  case op_put then show ?case using outcome(1)[OF put_node] by blast
next
  case op_cleanup then show ?case using outcome(2)[OF cleanup] by blast
next
  case op_flush_node then show ?case using outcome(2)[OF flush_node] by blast
next
  case op_flush_nodes then show ?case using outcome(2)[OF flush_all] by blast
next
  case op_flush then show ?case using outcome(2)[OF flush] by blast
next
  case op_label then show ?case using outcome(2)[OF set_label] by blast
next
  case op_read then show ?case using node_put by blast
next
  case op_write then show ?case using node_put outcome(3)[OF pwrite] by blast
next
  case op_truncate then show ?case using node_put outcome(3)[OF truncate] by blast
next
  case op_utimes then show ?case using node_put by blast
qed

lemma session: "session ef ef' \<Longrightarrow> I ef \<Longrightarrow> I ef'"
  by (induction rule: session.induct) (auto intro: operation)

end

section \<open>A read-only mount\<close>

abbreviation unwritten :: "exfat_dev \<Rightarrow> exfat \<Rightarrow> bool" where
  "unwritten d ef \<equiv> ef_dev ef = d \<and> dev_mode d \<noteq> EXFAT_MODE_RW"

lemma commit_unwritten: "dev_mode (ef_dev ef) \<noteq> EXFAT_MODE_RW \<Longrightarrow> ef_dev (snd (commit_super_block ef)) = ef_dev ef"
  by (auto simp: commit_super_block_def exfat_pwrite_def)

lemma mount_error_unwritten: "unwritten d ef \<Longrightarrow> post (\<lambda>(_, r). \<exists>ef'. r = Some ef' \<and> unwritten d ef') (mount_error ef)"
  unfolding mount_error_def by (intro post_bind[OF readonly.put_node] post_bind[OF readonly.flush_and_close]) auto

lemma mount_root_unwritten:
  assumes "unwritten d ef"
  shows "post (\<lambda>(_, r). \<exists>ef'. r = Some ef' \<and> unwritten d ef') (mount_root ef)"
proof (cases "allocate_node ef")
  case None
  then show ?thesis using assms by (simp add: mount_root_def)
next
  case (Some a)
  obtain p ef1 where a: "allocate_node ef = Some (p, ef1)" using Some by (cases a) auto
  have u1: "unwritten d (put_node_at (ef1\<lparr>ef_root := p\<rparr>) p n)" for n
    using readonly.allocated[OF a, of d] assms by (simp add: put_node_at_def)
  have u2: "unwritten d (ef1\<lparr>ef_root := p\<rparr>)" using readonly.allocated[OF a, of d] assms by simp
  show ?thesis
    unfolding mount_root_def a option.case prod.case Let_def
  proof (rule post_any, rule post_if)
    fix sz
    show "post (\<lambda>(_, r). \<exists>ef'. r = Some ef' \<and> unwritten d ef') (Inr (EIO, Some (ef1\<lparr>ef_root := p\<rparr>)))" using u2 by simp
    show "post (\<lambda>(_, r). \<exists>ef'. r = Some ef' \<and> unwritten d ef')
      (andThen (exfat_get_node (put_node_at (ef1\<lparr>ef_root := p\<rparr>) p (root_node (ef_sb ef1)\<lparr>nd_size := sz\<rparr>)) p) (\<lambda>ef.
        andThen (exfat_cache_directory ef p) (\<lambda>(rc, ef).
          if rc \<noteq> RC0 then mount_error ef
          else if ef_upcase ef = [] then mount_error ef
          else if cmap_chunk ef = [] then mount_error ef
          else (case prepare_super_block ef of
              (ok, ef) \<Rightarrow> if \<not> ok then mount_error ef else Inr (RC0, Some ef)))))"
    proof (rule post_bind[OF readonly.get_node[OF u1]], rule post_bind[OF readonly.cache_directory], assumption)
      fix x :: "retcode \<times> exfat" assume "readonly.K2 d x"
      then have u: "unwritten d (snd x)" by (simp add: readonly.K2_def)
      have "unwritten d (snd (prepare_super_block (snd x)))"
        using u by (auto simp: prepare_super_block_def commit_unwritten)
      then show "post (\<lambda>(_, r). \<exists>ef'. r = Some ef' \<and> unwritten d ef')
        (case x of (rc, ef) \<Rightarrow>
          if rc \<noteq> RC0 then mount_error ef
          else if ef_upcase ef = [] then mount_error ef
          else if cmap_chunk ef = [] then mount_error ef
          else (case prepare_super_block ef of
              (ok, ef) \<Rightarrow> if \<not> ok then mount_error ef else Inr (RC0, Some ef)))"
        using u mount_error_unwritten[of _ d] by (auto split: prod.splits)
    qed
  qed
qed


lemma mount_unwritten:
  assumes "exfat_mount env spec options = Inr (rc, Some ef)" "match_option options ''ro''" "env_file env spec = Some f"
  shows "\<exists>d. unwritten d ef \<and> dev_bytes d = of_content f"
proof -
  have m: "mode_of options = EXFAT_MODE_RO" using assms(2) by (simp add: mode_of_def)
  show ?thesis using assms(1)
  proof (cases rule: exfat_mount_cases)
    case (3 d bs ok ef1 sec)
    have d: "dev_mode d = EXFAT_MODE_RO" "dev_bytes d = of_content f" using open_mode[OF 3(1)] m assms(3) by auto
    have "unwritten d ef1" by (rule readonly.verify_vbr[OF 3(3)]) (simp add: d)
    then have "unwritten d ef" using 3(4) postD[OF mount_root_unwritten[of ef1 d]] by auto
    then show ?thesis using d by blast
  next
    case (1 d)
    then show ?thesis using open_mode[OF 1(1)] m assms(3) by auto
  next
    case (2 d bs)
    then show ?thesis using open_mode[OF 2(1)] m assms(3) by auto
  qed
qed

lemma finalize_unwritten: "unwritten d ef \<Longrightarrow> post (unwritten d) (finalize_super_block ef)"
  unfolding finalize_super_block_def Let_def
  by (auto intro!: post_any simp: commit_unwritten)

lemma bind_unwritten:
  assumes "post (readonly.K2 d) r" "\<And>a ef. unwritten d ef \<Longrightarrow> post P (k a ef)"
  shows "post P (andThen r (\<lambda>(a, ef). k a ef))"
  by (rule post_bind[OF assms(1)]) (auto simp: readonly.K2_def intro: assms(2))

lemma unmount_unwritten: "unwritten d ef \<Longrightarrow> post (unwritten d) (exfat_unmount ef)"
  unfolding exfat_unmount_def
  by (rule bind_unwritten[OF readonly.flush_all], assumption, rule bind_unwritten[OF readonly.flush], assumption,
      rule post_bind[OF readonly.put_node], assumption, rule post_bind[OF readonly.flush_and_close], assumption,
      rule finalize_unwritten)

text \<open>
  C3: a volume mounted with the option ro is never written: after mounting, after any sequence
  of operations and after unmounting every byte of the device is what it was.
\<close>

theorem readonly_never_writes:
  assumes "exfat_mount env spec options = Inr (rc, Some ef)" "match_option options ''ro''" "env_file env spec = Some f"
    and "session ef ef'"
  shows "dev_bytes (ef_dev ef') = of_content f \<and> post (\<lambda>ef''. dev_bytes (ef_dev ef'') = of_content f) (exfat_unmount ef')"
proof -
  obtain d where d: "unwritten d ef" "dev_bytes d = of_content f" using mount_unwritten[OF assms(1-3)] by blast
  have u: "unwritten d ef'" by (rule readonly.session[OF assms(4) d(1)])
  then show ?thesis using d(2) post_weaken[OF unmount_unwritten[OF u]] by auto
qed

theorem readonly_never_writes_witness:
  "\<exists>ef. exfat_mount mount_demo ''/dev/sda1'' ''ro'' = Inr (RC0, Some ef) \<and> dev_bytes (ef_dev ef) = mount_bytes"
proof -
  obtain ef where m: "exfat_mount mount_demo ''/dev/sda1'' ''ro'' = Inr (RC0, Some ef)" using mount_demo_ok by blast
  have "match_option ''ro'' ''ro''" by (simp add: match_option_def)
  moreover have "env_file mount_demo ''/dev/sda1'' = Some mount_file" by (simp add: mount_demo_def)
  ultimately have "dev_bytes (ef_dev ef) = of_content mount_file"
    using readonly_never_writes[OF m _ _ session_start] by blast
  then show ?thesis using m by (simp add: mount_file_def)
qed

section \<open>The volume during a session\<close>

text \<open>The part of \<^const>\<open>mounted\<close> that concerns the disk.\<close>

definition sound_volume :: "exfat \<Rightarrow> bool" where
  "sound_volume ef \<longleftrightarrow> geometry_ok (ef_sb ef) \<and> sb_version_major (ef_sb ef) = 1 \<and> sb_version_minor (ef_sb ef) = 0 \<and>
     unat (sb_cluster_count (ef_sb ef)) * CLUSTER_SIZE (ef_sb ef) \<le> dev_size (ef_dev ef) \<and> ef_upcase ef \<noteq> [] \<and>
     (ef_ro ef = 0 \<longrightarrow> dev_mode (ef_dev ef) = EXFAT_MODE_RW)"

lemma mounted_sound: "mounted ef \<Longrightarrow> sound_volume ef"
  by (simp add: mounted_def sound_volume_def)

lemma same_disk_sound: "same_disk ef ef' \<Longrightarrow> sound_volume ef \<Longrightarrow> sound_volume ef'"
  by (simp add: same_disk_def sound_volume_def)

section \<open>The boot region during a session\<close>

text \<open>The bytes in front of the table and of the clusters, and what the boot region depends on besides them.\<close>

definition boot_kept :: "exfat \<Rightarrow> exfat \<Rightarrow> bool" where
  "boot_kept ef ef' \<longleftrightarrow> ef_sb ef' = ef_sb ef \<and> dev_size (ef_dev ef') = dev_size (ef_dev ef) \<and>
     (writable (ef_dev ef) \<longrightarrow> writable (ef_dev ef')) \<and>
     (\<forall>i. int i < data_start (ef_sb ef) \<longrightarrow> dev_bytes (ef_dev ef') i = dev_bytes (ef_dev ef) i)"

lemma boot_kept_refl [simp]: "boot_kept ef ef"
  by (simp add: boot_kept_def)

interpretation boot: kept "boot_kept e" for e
proof unfold_locales
  fix ef bs off d
  assume k: "boot_kept e ef" and off: "data_start (ef_sb ef) \<le> off" and w: "exfat_pwrite (ef_dev ef) bs off = Some d"
  have "dev_bytes d i = dev_bytes (ef_dev ef) i" if "int i < data_start (ef_sb e)" for i
  proof -
    have "\<not> nat off \<le> i" using that off k by (simp add: boot_kept_def nat_le_iff)
    then show ?thesis using w by (auto simp: pwrite_Some)
  qed
  then show "boot_kept e (ef\<lparr>ef_dev := d\<rparr>)" using k w by (auto simp: boot_kept_def pwrite_Some writable_def)
qed (simp_all add: boot_kept_def)

text \<open>A boot region of twelve sectors in front of the data is the same as far as the checksum goes.\<close>

lemma kept_boot_ok:
  assumes k: "boot_kept ef ef'" and room: "12 * int (SECTOR_SIZE (ef_sb ef)) \<le> data_start (ef_sb ef)"
  shows "boot_ok ef' = boot_ok ef" "sb_on_disk ef \<Longrightarrow> sb_on_disk ef'"
proof -
  let ?n = "SECTOR_SIZE (ef_sb ef)"
  have sb: "ef_sb ef' = ef_sb ef" and sz: "dev_size (ef_dev ef') = dev_size (ef_dev ef)" using k by (simp_all add: boot_kept_def)
  have b: "dev_bytes (ef_dev ef') i = dev_bytes (ef_dev ef) i" if "i < 12 * ?n" for i
  proof -
    have "int i < 12 * int ?n" using that by linarith
    then show ?thesis using k room by (simp add: boot_kept_def)
  qed
  have s: "sector_bytes ef' x = sector_bytes ef x" if "x < 12" for x
  proof -
    have "i < 12 * ?n" if "i < (x + 1) * ?n" for i
      using that mult_le_mono1[of "x + 1" 12 ?n] \<open>x < 12\<close> by linarith
    then show ?thesis unfolding sector_bytes_def sb by (intro map_cong refl b) (auto simp del: mult_Suc)
  qed
  have "boot_sum ef' = boot_sum ef" unfolding boot_sum_def s[of 0, simplified]
    by (rule foldl_cong) (use s in \<open>auto simp del: upt_rec_numeral\<close>)
  then show "boot_ok ef' = boot_ok ef" using s[of 11] by (simp add: boot_ok_def sb)
  show "sb_on_disk ef'" if o: "sb_on_disk ef"
  proof -
    have "i < 12 * ?n" if "i < 512" for i using that o by (simp add: sb_on_disk_def)
    then have "map (dev_bytes (ef_dev ef')) [0..<512] = map (dev_bytes (ef_dev ef)) [0..<512]"
      by (intro map_cong refl b) (simp del: upt_rec_numeral)
    then show ?thesis using o unfolding sb_on_disk_def sb sz by (simp only: simp_thms)
  qed
qed

lemma boot_bind:
  assumes "post (boot.K2 e) r" "\<And>a ef. boot_kept e ef \<Longrightarrow> post P (k a ef)"
  shows "post P (andThen r (\<lambda>(a, ef). k a ef))"
  by (rule post_bind[OF assms(1)]) (auto simp: boot.K2_def intro: assms(2))

lemma unmount_boot_ok:
  assumes k: "boot_kept e ef" and room: "12 * int (SECTOR_SIZE (ef_sb e)) \<le> data_start (ef_sb e)"
    and ok: "sb_on_disk e" "boot_ok e" "writable (ef_dev e)"
  shows "post (\<lambda>ef'. boot_ok ef' \<and> sb_on_disk ef') (exfat_unmount ef)"
proof -
  have f: "post (\<lambda>ef'. boot_ok ef' \<and> sb_on_disk ef') (finalize_super_block ef1)" if "boot_kept e ef1" for ef1
  proof -
    have "sb_on_disk ef1" "boot_ok ef1" "writable (ef_dev ef1)"
      using kept_boot_ok[OF that room] ok that by (simp_all add: boot_kept_def)
    then show ?thesis using rewritten_boot_ok by blast
  qed
  show ?thesis
    unfolding exfat_unmount_def
    by (rule boot_bind[OF boot.flush_all[OF k]], rule boot_bind[OF boot.flush], assumption,
        rule post_bind[OF boot.put_node], assumption, rule post_bind[OF boot.flush_and_close], assumption, rule f)
qed

text \<open>
  C24: no sequence of operations writes to the boot region. On a volume that was sound after
  mounting it stays sound, no byte in front of the table and the clusters changes whatever is
  created, written, moved, truncated or deleted, and when the twelve sectors of the boot region
  lie there, a region that passes the check at mounting passes it at every moment and after
  unmounting, which is the only time it is written.
\<close>

theorem session_keeps_boot_region:
  assumes "session ef ef'"
  shows "same_disk ef ef' \<and> (mounted ef \<longrightarrow> sound_volume ef') \<and>
    (\<forall>i. int i < data_start (ef_sb ef) \<longrightarrow> dev_bytes (ef_dev ef') i = dev_bytes (ef_dev ef) i) \<and>
    (12 * int (SECTOR_SIZE (ef_sb ef)) \<le> data_start (ef_sb ef) \<and> sb_on_disk ef \<and> boot_ok ef \<and> writable (ef_dev ef) \<longrightarrow>
      boot_ok ef' \<and> sb_on_disk ef' \<and> post (\<lambda>ef''. boot_ok ef'' \<and> sb_on_disk ef'') (exfat_unmount ef'))"
proof -
  have b: "boot_kept ef ef'" by (rule boot.session[OF assms boot_kept_refl])
  have "same_disk ef ef'" "mounted ef \<longrightarrow> sound_volume ef'"
    using disk.session[OF assms same_disk_refl] mounted_sound same_disk_sound by blast+
  then show ?thesis using b kept_boot_ok[OF b] unmount_boot_ok[OF b] unfolding boot_kept_def by blast
qed

theorem session_keeps_boot_region_witness:
  "\<exists>ef'. exfat_flush (mount_ef EXFAT_MODE_RW\<lparr>cmap_dirty := True, cmap_start_cluster := 3\<rparr>) = Inr (RC0, ef') \<and>
     boot_ok ef' \<and> sb_on_disk ef' \<and> post boot_ok (exfat_unmount ef')"
proof -
  let ?ef = "mount_ef EXFAT_MODE_RW\<lparr>cmap_dirty := True, cmap_start_cluster := 3\<rparr>"
  obtain ef' where f: "exfat_flush ?ef = Inr (RC0, ef')"
    by (auto simp: exfat_flush_def exfat_c2o_def c2s_def s2o_def exfat_pwrite_def mount_ef_def mount_dev_def)
  have "session ?ef ef'" by (rule session_step[OF session_start op_flush[OF f]])
  moreover have "sb_on_disk ?ef" using mount_super_block by (simp add: sb_on_disk_def mount_ef_def del: upt_rec_numeral)
  moreover have "12 * int (SECTOR_SIZE (ef_sb ?ef)) \<le> data_start (ef_sb ?ef)"
    by (simp add: mount_ef_def mount_sb_def demo_sb_def data_start_def s2o_def SECTOR_SIZE_def)
  moreover have "boot_ok ?ef" by (rule mount_boot_ok) (simp_all add: mount_ef_def)
  moreover have "writable (ef_dev ?ef)" by (simp add: mount_ef_def)
  ultimately show ?thesis using session_keeps_boot_region[of ?ef ef'] f by (auto elim: post_weaken)
qed

end
