(* ===== verification/LinuxProofs.thy ===== *)
theory LinuxProofs
  imports VtoyLinux MountProofs
begin

text \<open>
  The Linux tool: which parameter blocks it accepts and finds, which disk it picks, and what
  it prints.
\<close>

section \<open>The parameter block\<close>

lemma check_True_full:
  "vtoy_check_os_param mem = Inr True \<Longrightarrow> 512 \<le> length mem"
  by (simp add: vtoy_check_os_param_def split: if_splits)

lemma check_take: "512 \<le> length mem \<Longrightarrow> vtoy_check_os_param (take 512 mem) = vtoy_check_os_param mem"
  by (simp add: check_os_param_full min_def)

lemma length_read_at [simp]: "length (snd (read_at content off buf)) = length buf"
  by (simp add: read_at_def Let_def)

lemma phymem_loop_Some:
  "phymem_loop mapbuf i k = Inr (Some j) \<Longrightarrow> vtoy_check_os_param (drop j mapbuf) = Inr True"
proof (induction k arbitrary: i)
  case (Suc k)
  then show ?case by (auto simp: outcome_simps split: if_splits)
qed simp

lemma acpi_valid:
  "vtoy_os_param_from_acpi lx param = Inr (0, p) \<Longrightarrow> length p = 512 \<and> vtoy_check_os_param p = Inr True"
  by (auto simp: vtoy_os_param_from_acpi_def Let_def outcome_simps split: if_splits option.splits)

lemma efivar_valid:
  "vtoy_os_param_from_efivar lx param = Inr (0, p) \<Longrightarrow> length param = 512 \<Longrightarrow>
   length p = 512 \<and> vtoy_check_os_param p = Inr True"
  by (auto simp: vtoy_os_param_from_efivar_def read_at_def Let_def outcome_simps split: if_splits option.splits)

lemma phymem_valid:
  "vtoy_os_param_from_phymem lx param = Inr (0, p) \<Longrightarrow> lx_errno lx \<noteq> 0 \<Longrightarrow>
   length p = 512 \<and> vtoy_check_os_param p = Inr True"
proof -
  assume "vtoy_os_param_from_phymem lx param = Inr (0, p)" "lx_errno lx \<noteq> 0"
  then obtain mapbuf i where "p = take 512 (drop i mapbuf)" "vtoy_check_os_param (drop i mapbuf) = Inr True"
    by (auto simp: vtoy_os_param_from_phymem_def outcome_simps split: option.splits dest!: phymem_loop_Some)
  then show ?thesis using check_True_full[of "drop i mapbuf"] check_take[of "drop i mapbuf"] by simp
qed

lemma acpi_length: "vtoy_os_param_from_acpi lx param = Inr (rc, p) \<Longrightarrow> length param = 512 \<Longrightarrow> length p = 512"
  by (auto simp: vtoy_os_param_from_acpi_def Let_def outcome_simps split: if_splits option.splits)

text \<open>
  C27: whichever source it comes from, a parameter block the program goes on with has 512 bytes,
  carries the identifier of Ventoy and has a valid checksum.
\<close>

theorem find_os_param_valid:
  assumes "find_os_param lx = Inr (0, p)" "lx_errno lx \<noteq> 0"
  shows "length p = 512 \<and> param_guid p = VENTOY_GUID \<and> sum_list p = 0"
proof -
  have "length p = 512 \<and> vtoy_check_os_param p = Inr True"
    using assms acpi_length[of lx "replicate 512 0"]
    by (auto simp: find_os_param_def outcome_simps split: if_splits prod.splits
        dest: acpi_valid efivar_valid phymem_valid)
  then show ?thesis by (auto simp: check_os_param_full param_guid_def slice_of_def)
qed

text \<open>
  The search reads a block only where the identifier is, so nothing is read past the mapping
  before a block that lies inside it.
\<close>

lemma check_inside: "512 \<le> length mem \<Longrightarrow> \<exists>b. vtoy_check_os_param mem = Inr b"
  by (simp add: check_os_param_full)

lemma phymem_loop_first:
  assumes "j < k" "i + 16 * j + 512 \<le> length mapbuf" "vtoy_check_os_param (drop (i + 16 * j) mapbuf) = Inr True"
    and "list_all (\<lambda>m. vtoy_check_os_param (drop (i + 16 * m) mapbuf) \<noteq> Inr True) [0..<j]"
  shows "phymem_loop mapbuf i k = Inr (Some (i + 16 * j))"
  using assms
proof (induction k arbitrary: i j)
  case (Suc k)
  show ?case
  proof (cases j)
    case 0
    then show ?thesis using Suc.prems(3) by simp
  next
    case (Suc j')
    obtain b where b: "vtoy_check_os_param (drop i mapbuf) = Inr b" using check_inside[of "drop i mapbuf"] Suc.prems(2) by force
    have a: "vtoy_check_os_param (drop (i + 16 * m) mapbuf) \<noteq> Inr True" if "m < j" for m
      using Suc.prems(4) that by (simp add: list_all_iff)
    then have "\<not> b" using a[of 0] b Suc by simp
    moreover have "list_all (\<lambda>m. vtoy_check_os_param (drop (i + 16 + 16 * m) mapbuf) \<noteq> Inr True) [0..<j']"
      using a[of "Suc m" for m] Suc by (auto simp: list_all_iff add.assoc)
    ultimately show ?thesis
      using Suc.IH[of j' "i + 16"] Suc.prems(1-3) b Suc by (simp add: add.assoc)
  qed
qed simp

lemma phymem_first:
  assumes "lx_dev_mem lx = Some map_mem" "map_mem SEARCH_MEM_START SEARCH_MEM_LEN = Some mapbuf"
    and "16 * j + 512 \<le> length mapbuf" "16 * j < SEARCH_MEM_LEN" "vtoy_check_os_param (drop (16 * j) mapbuf) = Inr True"
    and "list_all (\<lambda>m. vtoy_check_os_param (drop (16 * m) mapbuf) \<noteq> Inr True) [0..<j]"
  shows "vtoy_os_param_from_phymem lx param = Inr (0, take 512 (drop (16 * j) mapbuf))"
proof -
  have "phymem_loop mapbuf 0 (SEARCH_MEM_LEN div 16) = Inr (Some (16 * j))"
    using phymem_loop_first[of j "SEARCH_MEM_LEN div 16" 0 mapbuf] assms(3-6) by simp
  then show ?thesis using assms(1,2) by (simp add: vtoy_os_param_from_phymem_def)
qed

text \<open>
  C22: when the low memory can be mapped and a valid block lies in it at a multiple of 16, the
  search finds it, and the first one when there are several.
\<close>

theorem phymem_finds_first:
  assumes "lx_dev_mem lx = Some map_mem" "map_mem SEARCH_MEM_START SEARCH_MEM_LEN = Some mapbuf"
    and "16 * j + 512 \<le> length mapbuf" "16 * j < SEARCH_MEM_LEN" "vtoy_check_os_param (drop (16 * j) mapbuf) = Inr True"
    and "list_all (\<lambda>m. vtoy_check_os_param (drop (16 * m) mapbuf) \<noteq> Inr True) [0..<j]"
  shows "vtoy_os_param_from_phymem lx param = Inr (0, take 512 (drop (16 * j) mapbuf))"
  using assms by (rule phymem_first)

section \<open>The disk\<close>

text \<open>A disk carries the identity of the block in its first sector.\<close>

definition disk_matches :: "linux \<Rightarrow> ventoy_os_param \<Rightarrow> string \<Rightarrow> bool" where
  "disk_matches lx param name =
     (case lx_file lx (snprintf 255 (''/dev/'' @ name)) of
        None \<Rightarrow> False
      | Some content \<Rightarrow> slice_of 0x180 16 content = param_disk_guid param \<and>
          slice_of 0x1b8 4 content = param_disk_signature param)"

text \<open>Every device that opens has a whole first sector.\<close>

definition whole_sectors :: "linux \<Rightarrow> string list \<Rightarrow> bool" where
  "whole_sectors lx names = list_all (\<lambda>name. case lx_file lx (snprintf 255 (''/dev/'' @ name)) of
     None \<Rightarrow> True | Some content \<Rightarrow> 512 \<le> length content) names"

lemma read_at_whole: "off + length buf \<le> length content \<Longrightarrow> read_at content off buf = (length buf, slice_of off (length buf) content)"
  by (simp add: read_at_def slice_of_def)

lemma get_disk_guid_whole:
  assumes "whole_sectors lx [name]" "length vtguid = 16" "length vtsig = 4" "lx_errno lx \<noteq> 0"
  shows "\<exists>rc g s. vtoy_get_disk_guid lx name vtguid vtsig = (rc, g, s) \<and> length s = 4 \<and>
    (rc = 0 \<and> right_disk param g s \<longleftrightarrow> disk_matches lx param name) \<and> (rc \<noteq> 0 \<longrightarrow> g = vtguid \<and> s = vtsig)"
  using assms
  by (auto simp: vtoy_get_disk_guid_def whole_sectors_def read_at_whole disk_matches_def right_disk_def split: option.splits)

definition candidates_by_size :: "linux \<Rightarrow> ventoy_os_param \<Rightarrow> string list \<Rightarrow> string list" where
  "candidates_by_size lx param = filter (\<lambda>name. vtoy_is_possible_blkdev name \<and>
     vtoy_get_disk_size_in_byte lx name = param_disk_size param)"

definition candidates_by_guid :: "linux \<Rightarrow> ventoy_os_param \<Rightarrow> string list \<Rightarrow> string list" where
  "candidates_by_guid lx param = filter (\<lambda>name. vtoy_is_possible_blkdev name \<and> disk_matches lx param name)"

lemma by_size_candidates:
  "list_all (\<lambda>name. length name < buflen) names \<Longrightarrow>
   by_size_loop lx (param_disk_size param) buflen names d rc =
     (rc + length (candidates_by_size lx param names), last (d # candidates_by_size lx param names))"
  by (induction names arbitrary: d rc) (auto simp: candidates_by_size_def snprintf_def)

lemma by_guid_candidates:
  "list_all (\<lambda>name. length name < buflen) names \<Longrightarrow> whole_sectors lx names \<Longrightarrow> length vtsig = 4 \<Longrightarrow> lx_errno lx \<noteq> 0 \<Longrightarrow>
   by_guid_loop lx param buflen names vtsig d rc =
     (rc + length (candidates_by_guid lx param names), last (d # candidates_by_guid lx param names))"
proof (induction names arbitrary: d rc vtsig)
  case Nil
  then show ?case by (simp add: candidates_by_guid_def)
next
  case (Cons name names)
  obtain r g s where "vtoy_get_disk_guid lx name (replicate 16 0) vtsig = (r, g, s)" "length s = 4"
    "r = 0 \<and> right_disk param g s \<longleftrightarrow> disk_matches lx param name"
    using get_disk_guid_whole[of lx name "replicate 16 0" vtsig param] Cons.prems by (auto simp: whole_sectors_def)
  moreover have "whole_sectors lx names" using Cons.prems(2) by (simp add: whole_sectors_def)
  ultimately show ?case
    using Cons.IH Cons.prems by (auto simp: candidates_by_guid_def snprintf_def)
qed

lemma check_device_matches:
  assumes "whole_sectors lx [name]" "lx_errno lx \<noteq> 0" "param_disk_guid param \<noteq> replicate 16 0"
  shows "vtoy_check_device lx param name = 0 \<longleftrightarrow> disk_matches lx param name"
proof -
  obtain rc g s where "vtoy_get_disk_guid lx name (replicate 16 0) (replicate 4 0) = (rc, g, s)"
    "rc = 0 \<and> right_disk param g s \<longleftrightarrow> disk_matches lx param name" "rc \<noteq> 0 \<longrightarrow> g = replicate 16 0"
    using get_disk_guid_whole[OF assms(1) _ _ assms(2), of "replicate 16 0" "replicate 4 0" param] by auto
  then show ?thesis using assms(3) by (auto simp: vtoy_check_device_def right_disk_def)
qed

lemma find_disk_result:
  assumes "lx_sys_block lx = Some names" "list_all (\<lambda>name. length name < buflen) names" "whole_sectors lx names"
    and "lx_errno lx \<noteq> 0" "param_disk_guid param \<noteq> replicate 16 0"
  shows "vtoy_find_disk lx param diskname buflen = (0, d) \<longleftrightarrow>
    (if length (candidates_by_size lx param names) = 1
     then candidates_by_size lx param names = [d] \<and> disk_matches lx param d
     else candidates_by_guid lx param names = [d])"
proof -
  let ?s = "candidates_by_size lx param names" and ?g = "candidates_by_guid lx param names"
  have s: "vtoy_find_disk_by_size lx (param_disk_size param) diskname buflen = (length ?s, last (diskname # ?s))"
    using by_size_candidates[OF assms(2)] assms(1) by (simp add: vtoy_find_disk_by_size_def)
  have g: "vtoy_find_disk_by_guid lx param x buflen = (length ?g, last (x # ?g))" for x
    using by_guid_candidates[OF assms(2,3) _ assms(4)] assms(1) by (simp add: vtoy_find_disk_by_guid_def)
  have one: "length xs = Suc 0 \<longleftrightarrow> (\<exists>x. xs = [x])" for xs :: "string list" by (cases xs) auto
  show ?thesis
  proof (cases "length ?s = 1")
    case True
    then obtain n where n: "?s = [n]" by (auto simp: one)
    have "set (candidates_by_size lx param names) \<subseteq> set names" by (auto simp: candidates_by_size_def)
    then have "n \<in> set names" using n by simp
    then have "whole_sectors lx [n]" using assms(3) by (simp add: whole_sectors_def list_all_iff)
    from check_device_matches[OF this assms(4,5)] show ?thesis
      using s n by (auto simp: vtoy_find_disk_def)
  next
    case False
    then have "vtoy_find_disk lx param diskname buflen =
        (if length ?g = 1 then 0 else 1, last (last (diskname # ?s) # ?g))"
      by (cases ?g; cases "tl ?g") (simp_all add: vtoy_find_disk_def s g)
    then show ?thesis using False by (auto simp: one)
  qed
qed

text \<open>
  C11: the disk that is found: the only one of the size in the block if it has its identity, and,
  when several or none have the size, the only one with the identity. In every other case
  the search fails.
\<close>

theorem find_disk_correct:
  assumes "lx_sys_block lx = Some names" "list_all (\<lambda>name. length name < buflen) names" "whole_sectors lx names"
    and "lx_errno lx \<noteq> 0" "param_disk_guid param \<noteq> replicate 16 0"
  shows "vtoy_find_disk lx param diskname buflen = (0, d) \<longleftrightarrow>
    (if length (candidates_by_size lx param names) = 1
     then candidates_by_size lx param names = [d] \<and> disk_matches lx param d
     else candidates_by_guid lx param names = [d])"
  using assms by (rule find_disk_result)

section \<open>The table\<close>

lemma length_regions: "length (concat (map encode_region rs)) = 16 * length rs"
  by (induction rs) simp_all

lemma location_header:
  assumes "length (loc_guid l) = 16"
  shows "take 16 (encode_location l) = loc_guid l"
    "slice_of 16 4 (encode_location l) = cpu_to_le32 (loc_image_sector_size l)"
    "slice_of 20 4 (encode_location l) = cpu_to_le32 (loc_disk_sector_size l)"
    "slice_of 24 4 (encode_location l) = cpu_to_le32 (word_of_nat (length (loc_regions l)))"
    "length (encode_location l) = 28 + 16 * length (loc_regions l)"
  using assms by (simp_all add: encode_location_def slice_of_def length_regions)

text \<open>
  a table in memory is printed with one line for each region, in their order, and nothing
  else: the layout that is written is the layout that is read.
\<close>

lemma print_table_lines:
  assumes "length (loc_guid l) = 16" "length (loc_regions l) < 2 ^ 31" "loc_disk_sector_size l \<noteq> 0"
  shows "print_table partflag dmdisk part partstart (encode_location l) =
    Inr (map (table_line partflag dmdisk part (loc_image_sector_size l) (loc_disk_sector_size l) partstart) (loc_regions l))"
proof -
  have n: "unat (word_of_nat (length (loc_regions l)) :: u32) = length (loc_regions l)"
    using assms(2) by (simp add: unat_of_nat)
  have "map (\<lambda>i. f (region_at (encode_location l) i)) [0..<length (loc_regions l)] = map f (loc_regions l)"
    for f :: "ventoy_image_disk_region \<Rightarrow> string"
    by (rule nth_equalityI) (simp_all add: region_at_encode[OF assms(1)])
  then show ?thesis using assms(2,3)
    by (simp add: print_table_def location_header[OF assms(1)] n Let_def)
qed

section \<open>The program\<close>

lemma os_param_lines:
  assumes "vtoy_print_os_param p d = Inr out"
  shows "\<exists>rest. out = ''=== ventoy runtime data ==='' # (''disk name : /dev/'' @ d) # rest"
  using assms by (auto simp: vtoy_print_os_param_def Let_def outcome_simps)

text \<open>
  C21: the outcome of a run without \<open>-c\<close> whose options are accepted. It succeeds exactly when a
  valid block and the disk it names have been found. On standard output it prints, with \<open>-v\<close>,
  the debug lines of the two searches, and then the results: nothing when it fails, else the
  data of the block, starting with the disk, then with \<open>-l\<close> the table; with \<open>-L\<close> the table alone. So a
  run that fails without \<open>-v\<close> prints nothing.
\<close>

theorem main_outcome:
  assumes "vtoydump_main lx opts = Inr (rc, out)" "parse_args opts 0 False False = Inr (format, False, verbose)"
  shows "(rc = 0 \<longleftrightarrow> (\<exists>p d. find_os_param lx = Inr (0, p) \<and> vtoy_find_disk lx p '''' 255 = (0, d))) \<and>
    (rc \<noteq> 0 \<longrightarrow> out = debug verbose (find_os_param_debug lx @
       (case find_os_param lx of Inr (r, p) \<Rightarrow> if r = 0 then vtoy_find_disk_debug lx p '''' 255 else [] | _ \<Rightarrow> []))) \<and>
    (rc \<noteq> 0 \<and> \<not> verbose \<longrightarrow> out = []) \<and>
    (rc = 0 \<longrightarrow> (\<exists>p d res. find_os_param lx = Inr (0, p) \<and> vtoy_find_disk lx p '''' 255 = (0, d) \<and>
      out = debug verbose (find_os_param_debug lx @ vtoy_find_disk_debug lx p '''' 255) @ res \<and>
      (format < 2 \<longrightarrow> take 2 res = [''=== ventoy runtime data ==='', ''disk name : /dev/'' @ d]) \<and>
      (format = 0 \<longrightarrow> vtoy_print_os_param p d = Inr res) \<and>
      (format = 1 \<longrightarrow> (\<exists>o1 c table. vtoy_print_os_param p d = Inr o1 \<and>
         vtoy_print_image_location lx verbose 1 p d = Inr (c, table) \<and> res = o1 @ table)) \<and>
      (format = 2 \<longrightarrow> (\<exists>c. vtoy_print_image_location lx verbose 2 p d = Inr (c, res)))))"
proof -
  obtain r p where f: "find_os_param lx = Inr (r, p)"
    using assms(1,2) by (cases "find_os_param lx") (auto simp: vtoydump_main_def)
  obtain r' d where d: "vtoy_find_disk lx p '''' 255 = (r', d)" by fastforce
  have v: "debug verbose a @ debug verbose b @ c = debug verbose (a @ b) @ c" for a b and c :: "string list"
    by (simp add: debug_def)
  consider "r \<noteq> 0" | "r = 0" "r' \<noteq> 0" | "r = 0" "r' = 0" by blast
  then show ?thesis
  proof cases
    case 3
    then have "andThen (if format = 0 \<or> format = 1 then vtoy_print_os_param p d else Inr []) (\<lambda>o1.
        andThen (if format = 1 \<or> format = 2 then vtoy_print_image_location lx verbose format p d else Inr (0, []))
          (\<lambda>(_, table). Inr (0, debug verbose (find_os_param_debug lx @ vtoy_find_disk_debug lx p '''' 255) @ o1 @ table)))
        = Inr (rc, out)"
      using assms(1,2) f d v by (simp add: vtoydump_main_def Let_def)
    then obtain o1 c table where
      o1: "(if format = 0 \<or> format = 1 then vtoy_print_os_param p d else Inr []) = Inr o1" and
      t: "(if format = 1 \<or> format = 2 then vtoy_print_image_location lx verbose format p d else Inr (0, [])) = Inr (c, table)" and
      r: "rc = 0" "out = debug verbose (find_os_param_debug lx @ vtoy_find_disk_debug lx p '''' 255) @ o1 @ table"
      by (auto simp: outcome_simps)
    have "(format < 2 \<longrightarrow> take 2 (o1 @ table) = [''=== ventoy runtime data ==='', ''disk name : /dev/'' @ d]) \<and>
      (format = 0 \<longrightarrow> vtoy_print_os_param p d = Inr (o1 @ table)) \<and>
      (format = 1 \<longrightarrow> vtoy_print_os_param p d = Inr o1 \<and> vtoy_print_image_location lx verbose 1 p d = Inr (c, table)) \<and>
      (format = 2 \<longrightarrow> vtoy_print_image_location lx verbose 2 p d = Inr (c, o1 @ table))"
    proof (intro conjI impI)
      assume "format < 2"
      then have "vtoy_print_os_param p d = Inr o1" using o1 by (simp add: less_2_cases_iff)
      then show "take 2 (o1 @ table) = [''=== ventoy runtime data ==='', ''disk name : /dev/'' @ d]"
        using os_param_lines by fastforce
    qed (use o1 t in simp_all)
    then show ?thesis using 3 f d r by (simp add: r)
  qed (use assms(1,2) f d v in \<open>auto simp: vtoydump_main_def outcome_simps Let_def debug_def\<close>)
qed


section \<open>A concrete system\<close>

text \<open>One disk, named in /sys/block, and a block in low memory that names it.\<close>

definition linux_param :: "u8 list" where
  "linux_param = VENTOY_GUID @ [0x66] @ replicate 16 1 @ cpu_to_le64 1024 @ cpu_to_le16 1 @ cpu_to_le16 0 @
     [0x2f, 0x61] @ replicate 434 0 @ [2, 2, 2, 2] @ replicate 27 0"

definition linux_mem :: "u8 list" where
  "linux_mem = replicate 16 0 @ linux_param @ replicate 130544 0"

definition linux_disk :: "u8 list" where
  "linux_disk = replicate 0x180 0 @ replicate 16 1 @ replicate 40 0 @ [2, 2, 2, 2] @ replicate 580 0"

definition linux_demo :: linux where
  "linux_demo = \<lparr>lx_exists = (\<lambda>_. False), lx_file = (\<lambda>name. if name = ''/dev/sda'' then Some linux_disk else None),
     lx_blksize = (\<lambda>_. Some 1024), lx_sys_block = Some [''loop0'', ''sda''],
     lx_dev_mem = Some (\<lambda>_ _. Some linux_mem), lx_mapped = (\<lambda>_ _. 4096), lx_show_ptr = (\<lambda>n. ''0x'' @ show_hex n), lx_errno = 2, lx_junk = (\<lambda>_. 0), lx_mount = mount_demo\<rparr>"

lemma length_linux_param: "length linux_param = 512"
  by (simp add: linux_param_def)

lemma linux_param_ok: "vtoy_check_os_param linux_param = Inr True"
proof -
  have "cpu_to_le64 1024 = [0, 4, 0, 0, 0, 0, 0, 0]" "cpu_to_le16 1 = [1, 0]" "cpu_to_le16 0 = [0, 0]" by code_simp+
  then have "sum_list linux_param = 0"
    by (simp add: linux_param_def VENTOY_GUID_def sum_list_replicate)
  moreover have "take 16 linux_param = VENTOY_GUID" by (simp add: linux_param_def)
  ultimately show ?thesis by (simp add: check_os_param_full length_linux_param)
qed

lemma linux_mem_block: "drop 16 linux_mem = linux_param @ replicate 130544 0" "length linux_mem = 131072"
  by (simp_all add: linux_mem_def length_linux_param)

lemma linux_mem_first: "vtoy_check_os_param linux_mem = Inr False"
proof -
  have "take 16 linux_mem = replicate 16 0" by (simp add: linux_mem_def)
  moreover have "hd VENTOY_GUID \<noteq> hd (replicate 16 0)" by (simp add: VENTOY_GUID_def)
  ultimately have "take 16 linux_mem \<noteq> VENTOY_GUID" by metis
  then show ?thesis by (simp add: check_os_param_full linux_mem_block)
qed

lemma linux_demo_search: "vtoy_check_os_param (drop (16 * 1) linux_mem) = Inr True"
  "list_all (\<lambda>m. vtoy_check_os_param (drop (16 * m) linux_mem) \<noteq> Inr True) [0..<1]"
  using linux_param_ok by (simp_all add: linux_mem_block check_os_param_full length_linux_param linux_mem_first)

theorem phymem_finds_first_witness:
  "vtoy_os_param_from_phymem linux_demo [] = Inr (0, linux_param)"
  using phymem_finds_first[OF _ _ _ _ linux_demo_search, of linux_demo "\<lambda>_ _. Some linux_mem" "[]"]
  by (simp add: linux_demo_def linux_mem_block length_linux_param)

lemma linux_demo_param: "find_os_param linux_demo = Inr (0, linux_param)"
  using phymem_first[OF _ _ _ _ linux_demo_search, of linux_demo "\<lambda>_ _. Some linux_mem" "replicate 512 0"]
  by (simp add: find_os_param_def vtoy_os_param_from_acpi_def linux_mem_block length_linux_param) (simp add: linux_demo_def)

theorem find_os_param_valid_witness:
  "length linux_param = 512 \<and> param_guid linux_param = VENTOY_GUID \<and> sum_list linux_param = 0"
  by (rule find_os_param_valid[OF linux_demo_param]) (simp add: linux_demo_def)

lemma linux_param_fields:
  "param_disk_guid linux_param = replicate 16 1" "param_disk_size linux_param = 1024"
  "param_disk_signature linux_param = [2, 2, 2, 2]" "param_disk_part_type linux_param = 0"
  "img_path_string linux_param = Inr [0x2f, 0x61]"
  by (simp_all add: linux_param_def param_disk_guid_def param_disk_size_def param_disk_signature_def param_disk_part_type_def
      slice_of_def img_path_string_def)

lemma linux_demo_disk:
  "whole_sectors linux_demo [''loop0'', ''sda'']" "candidates_by_size linux_demo linux_param [''loop0'', ''sda''] = [''sda'']"
  "disk_matches linux_demo linux_param ''sda''"
  by (simp_all add: whole_sectors_def snprintf_def candidates_by_size_def vtoy_is_possible_blkdev_def
      vtoy_get_disk_size_in_byte_def linux_param_fields disk_matches_def slice_of_def linux_demo_def linux_disk_def)

lemma linux_demo_find: "vtoy_find_disk linux_demo linux_param '''' 255 = (0, ''sda'')"
  using find_disk_result[of linux_demo "[''loop0'', ''sda'']" 255 linux_param "''''" "''sda''"] linux_demo_disk
  by (simp add: linux_param_fields) (simp add: linux_demo_def)

theorem find_disk_correct_witness: "vtoy_find_disk linux_demo linux_param '''' 255 = (0, ''sda'')"
  using find_disk_correct[of linux_demo "[''loop0'', ''sda'']" 255 linux_param "''''" "''sda''"] linux_demo_disk
  by (simp add: linux_param_fields) (simp add: linux_demo_def)

definition linux_location :: ventoy_image_location where
  "linux_location = \<lparr>loc_guid = VENTOY_GUID, loc_image_sector_size = 2048, loc_disk_sector_size = 512,
     loc_regions = [\<lparr>rg_image_sector_count = 3, rg_image_start_sector = 0, rg_disk_start_sector = 2148\<rparr>]\<rparr>"

theorem main_outcome_witness:
  "\<exists>out. vtoydump_main linux_demo '''' = Inr (0, out) \<and>
     take 2 out = [''=== ventoy runtime data ==='', ''disk name : /dev/sda'']"
proof -
  let ?out = "case vtoy_print_os_param linux_param ''sda'' of Inr out \<Rightarrow> out | Inl _ \<Rightarrow> []"
  have m: "vtoydump_main linux_demo '''' = Inr (0, ?out)"
    by (simp add: vtoydump_main_def linux_demo_param linux_demo_find vtoy_print_os_param_def linux_param_fields Let_def debug_def)
  show ?thesis using main_outcome[OF m, of 0 False] m linux_demo_find by (auto simp: linux_demo_param debug_def)
qed

end
