(* ===== verification/FatDisk.thy ===== *)
theory FatDisk
  imports Chain
begin

text \<open>
  The FAT file system library the Windows tool reads its files with (\<open>fat_io_lib\<close>): the
  state of a volume (\<open>struct fatfs\<close> of \<open>fat_access.h\<close>), the media callbacks of
  \<open>struct disk_if\<close>, and the macros of \<open>fat_misc.h\<close> that read and write integers in a
  sector. The library is modelled in the configuration of \<open>fat_opts.h\<close>: little endian, write
  and long file name support, no time stamps, no cluster cache, one sector to a FAT buffer.
\<close>

section \<open>Media\<close>

text \<open>
  \<open>read_media (sector, buffer, count)\<close> and \<open>write_media\<close> are functions of the user of the
  library, and either may be missing (a null pointer). A callback fails, leaving the buffer
  and the media as they were, or transfers \<open>count\<close> sectors of 512 bytes; which calls fail is
  part of the media.
\<close>

record fat_media =
  md_can_read :: bool
  md_can_write :: bool
  md_byte :: "nat \<Rightarrow> u8"
  md_rd_err :: "nat \<Rightarrow> nat \<Rightarrow> bool"
  md_wr_err :: "nat \<Rightarrow> nat \<Rightarrow> bool"

definition md_bytes :: "fat_media \<Rightarrow> nat \<Rightarrow> nat \<Rightarrow> u8 list" where
  "md_bytes m lba n = map (md_byte m) [lba * 512 ..< (lba + n) * 512]"

definition media_read :: "fat_media \<Rightarrow> u32 \<Rightarrow> nat \<Rightarrow> fault + u8 list option" where
  "media_read m lba n =
     (if \<not> md_can_read m then Inl Undef
      else if md_rd_err m (unat lba) n then Inr None
      else Inr (Some (md_bytes m (unat lba) n)))"

text \<open>Writing more sectors than the buffer holds reads past its end.\<close>

definition media_store :: "fat_media \<Rightarrow> nat \<Rightarrow> u8 list \<Rightarrow> fat_media" where
  "media_store m a bs = m\<lparr>md_byte :=
     (\<lambda>i. if a \<le> i \<and> i < a + length bs then bs ! (i - a) else md_byte m i)\<rparr>"

definition media_write :: "fat_media \<Rightarrow> u32 \<Rightarrow> u8 list \<Rightarrow> nat \<Rightarrow> fault + fat_media option" where
  "media_write m lba bs n =
     (if \<not> md_can_write m \<or> length bs < n * 512 then Inl Undef
      else if md_wr_err m (unat lba) n then Inr None
      else Inr (Some (media_store m (unat lba * 512) (take (n * 512) bs))))"

lemma length_md_bytes [simp]: "length (md_bytes m lba n) = n * 512"
  by (simp add: md_bytes_def algebra_simps)

lemma nth_md_bytes: "i < n * 512 \<Longrightarrow> md_bytes m lba n ! i = md_byte m (lba * 512 + i)"
  by (simp add: md_bytes_def algebra_simps)

lemma md_bytes_slice:
  "k + j \<le> n \<Longrightarrow> slice_of (k * 512) (j * 512) (md_bytes m lba n) = md_bytes m (lba + k) j"
  by (rule nth_equalityI) (auto simp: nth_slice_of nth_md_bytes algebra_simps)

lemma media_store_fields [simp]:
  "md_can_read (media_store m a bs) = md_can_read m" "md_can_write (media_store m a bs) = md_can_write m"
  "md_rd_err (media_store m a bs) = md_rd_err m" "md_wr_err (media_store m a bs) = md_wr_err m"
  by (simp_all add: media_store_def)

lemma md_bytes_stored:
  "length bs = 512 \<Longrightarrow> md_bytes (media_store m (lba * 512) bs) lba 1 = bs"
  by (rule nth_equalityI) (simp_all add: nth_md_bytes media_store_def)

lemma md_bytes_other:
  assumes "lba + n \<le> lba' \<or> lba' + k \<le> lba" "length bs \<le> k * 512"
  shows "md_bytes (media_store m (lba' * 512) bs) lba n = md_bytes m lba n"
proof (rule nth_equalityI)
  fix i assume "i < length (md_bytes (media_store m (lba' * 512) bs) lba n)"
  then have i: "i < n * 512" by simp
  have "\<not> (lba' * 512 \<le> lba * 512 + i \<and> lba * 512 + i < lba' * 512 + length bs)"
    using assms i by auto
  then show "md_bytes (media_store m (lba' * 512) bs) lba n ! i = md_bytes m lba n ! i"
    using i by (auto simp: nth_md_bytes media_store_def)
qed simp

lemma md_bytes_sector_other:
  "lba \<noteq> lba' \<Longrightarrow> length bs = 512 \<Longrightarrow> md_bytes (media_store m (lba' * 512) bs) lba 1 = md_bytes m lba 1"
  by (rule md_bytes_other [where k = 1]) auto

section \<open>The state of a volume\<close>

text \<open>
  \<open>struct fat_buffer\<close>: a buffer holds one sector; its \<open>ptr\<close> always is the start of it, and the
  list of buffers stands for the \<open>next\<close> pointers from \<open>fat_buffer_head\<close> on.
\<close>

record fat_buffer =
  fb_sector :: "u8 list"
  fb_address :: u32
  fb_dirty :: bool

datatype tFatType = FAT_TYPE_16 | FAT_TYPE_32

record fatfs =
  fs_sectors_per_cluster :: u8
  fs_cluster_begin_lba :: u32
  fs_rootdir_first_cluster :: u32
  fs_rootdir_first_sector :: u32
  fs_rootdir_sectors :: u32
  fs_fat_begin_lba :: u32
  fs_info_sector :: u16
  fs_lba_begin :: u32
  fs_fat_sectors :: u32
  fs_next_free_cluster :: u32
  fs_root_entry_count :: u16
  fs_reserved_sectors :: u16
  fs_num_of_fats :: u8
  fs_fat_type :: tFatType
  fs_disk_io :: fat_media
  fs_currentsector :: fat_buffer
  fs_fat_buffers :: "fat_buffer list"

definition FAT_SECTOR_SIZE :: nat where "FAT_SECTOR_SIZE = 512"
definition FAT32_LAST_CLUSTER :: u32 where "FAT32_LAST_CLUSTER = 0xFFFFFFFF"
definition FAT32_INVALID_CLUSTER :: u32 where "FAT32_INVALID_CLUSTER = 0xFFFFFFFF"
definition FAT_BUFFERS :: nat where "FAT_BUFFERS = 1"
definition FAT_BUFFER_SECTORS :: u32 where "FAT_BUFFER_SECTORS = 1"

section \<open>Integers in a sector (fat_misc.h)\<close>

definition word_byte :: "nat \<Rightarrow> 'a :: len word \<Rightarrow> u8" where
  "word_byte k v = ucast (drop_bit k v AND 0xFF)"

definition GET_32BIT_WORD :: "u8 list \<Rightarrow> nat \<Rightarrow> u32" where
  "GET_32BIT_WORD b l = push_bit 24 (ucast (b ! (l + 3))) + push_bit 16 (ucast (b ! (l + 2)))
     + push_bit 8 (ucast (b ! (l + 1))) + ucast (b ! l)"

definition GET_16BIT_WORD :: "u8 list \<Rightarrow> nat \<Rightarrow> u32" where
  "GET_16BIT_WORD b l = push_bit 8 (ucast (b ! (l + 1))) + ucast (b ! l)"

definition SET_32BIT_WORD :: "u8 list \<Rightarrow> nat \<Rightarrow> u32 \<Rightarrow> u8 list" where
  "SET_32BIT_WORD b l v = b[l := word_byte 0 v, l + 1 := word_byte 8 v,
     l + 2 := word_byte 16 v, l + 3 := word_byte 24 v]"

definition SET_16BIT_WORD :: "u8 list \<Rightarrow> nat \<Rightarrow> u16 \<Rightarrow> u8 list" where
  "SET_16BIT_WORD b l v = b[l := word_byte 0 v, l + 1 := word_byte 8 v]"

lemma length_SET_WORD [simp]:
  "length (SET_32BIT_WORD b l v) = length b" "length (SET_16BIT_WORD b l w) = length b"
  by (simp_all add: SET_32BIT_WORD_def SET_16BIT_WORD_def)

lemma join_bytes:
  fixes v :: "'a :: len word"
  assumes "\<And>n. bit a n = (24 \<le> n \<and> bit v n)" "\<And>n. bit b n = (16 \<le> n \<and> n < 24 \<and> bit v n)"
    "\<And>n. bit c n = (8 \<le> n \<and> n < 16 \<and> bit v n)" "\<And>n. bit d n = (n < 8 \<and> bit v n)"
  shows "a + b + c + d = v"
proof -
  have 1: "a + b = a OR b" by (rule disjunctive_add) (use assms in auto)
  have 2: "(a OR b) + c = a OR b OR c"
    using disjunctive_add[of "a OR b" c] assms by (auto simp: bit_or_iff or.assoc)
  have 3: "(a OR b OR c) + d = a OR b OR c OR d"
    using disjunctive_add[of "a OR b OR c" d] assms by (auto simp: bit_or_iff or.assoc)
  have "a OR b OR c OR d = v"
    by (rule bit_word_eqI) (use assms in \<open>auto simp: bit_or_iff\<close>)
  then show ?thesis unfolding 1 2 3 .
qed

lemma bit_word_byte:
  assumes "8 \<le> LENGTH('a)"
  shows "bit (word_byte k v) n \<longleftrightarrow> n < 8 \<and> bit (v :: 'a :: len word) (k + n)"
proof -
  have "bit (0xFF :: 'a word) n \<longleftrightarrow> n < LENGTH('a) \<and> 0 \<le> n \<and> n < 0 + 8"
    by (rule bit_run) (simp add: mask_eq_decr_exp)
  then show ?thesis using assms
    by (auto simp: word_byte_def bit_ucast_iff bit_and_iff bit_drop_bit_eq dest: bit_imp_le_length)
qed

lemma bit_byte_at:
  assumes "8 \<le> LENGTH('a)"
  shows "bit (push_bit k (ucast (word_byte k v)) :: u32) n \<longleftrightarrow>
   k \<le> n \<and> n < k + 8 \<and> n < 32 \<and> bit (v :: 'a :: len word) n"
  using bit_word_byte[OF assms, of k v "n - k"] by (auto simp: bit_push_bit_iff bit_ucast_iff)

lemma bit_u32: "bit (v :: u32) n \<Longrightarrow> n < 32"
  by (drule bit_imp_le_length) simp

lemma bit_u16: "bit (v :: u16) n \<Longrightarrow> n < 16"
  by (drule bit_imp_le_length) simp

lemma bytes_of_u32:
  fixes v :: u32
  shows "push_bit 24 (ucast (word_byte 24 v)) + push_bit 16 (ucast (word_byte 16 v)) +
        push_bit 8 (ucast (word_byte 8 v)) + ucast (word_byte 0 v) = v"
proof (rule join_bytes)
  fix n
  have l: "8 \<le> LENGTH(32)" by simp
  show "bit (push_bit 24 (ucast (word_byte 24 v)) :: u32) n = (24 \<le> n \<and> bit v n)"
    unfolding bit_byte_at[OF l] using bit_u32[of v n] by linarith
  show "bit (push_bit 16 (ucast (word_byte 16 v)) :: u32) n = (16 \<le> n \<and> n < 24 \<and> bit v n)"
    unfolding bit_byte_at[OF l] by linarith
  show "bit (push_bit 8 (ucast (word_byte 8 v)) :: u32) n = (8 \<le> n \<and> n < 16 \<and> bit v n)"
    unfolding bit_byte_at[OF l] by linarith
  show "bit (ucast (word_byte 0 v) :: u32) n = (n < 8 \<and> bit v n)"
    using bit_byte_at[OF l, of 0 v n] unfolding push_bit_0_id id_apply by linarith
qed

lemma bytes_of_u16:
  fixes v :: u16
  shows "push_bit 8 (ucast (word_byte 8 v)) + ucast (word_byte 0 v) = (ucast v :: u32)"
proof (rule join_bytes [of 0 "ucast v" 0, unfolded add_0])
  fix n
  have l: "8 \<le> LENGTH(16)" by simp
  have u: "bit (ucast v :: u32) n = bit v n"
    using bit_u16[of v n] by (auto simp: bit_ucast_iff)
  show "bit (0 :: u32) n = (24 \<le> n \<and> bit (ucast v :: u32) n)"
       "bit (0 :: u32) n = (16 \<le> n \<and> n < 24 \<and> bit (ucast v :: u32) n)"
    unfolding u using bit_u16[of v n] by auto
  show "bit (push_bit 8 (ucast (word_byte 8 v)) :: u32) n = (8 \<le> n \<and> n < 16 \<and> bit (ucast v :: u32) n)"
    unfolding u bit_byte_at[OF l] by linarith
  show "bit (ucast (word_byte 0 v) :: u32) n = (n < 8 \<and> bit (ucast v :: u32) n)"
    using bit_byte_at[OF l, of 0 v n] unfolding u push_bit_0_id id_apply by linarith
qed
lemma GET_SET_32 [simp]:
  "l + 3 < length b \<Longrightarrow> GET_32BIT_WORD (SET_32BIT_WORD b l v) l = v"
  by (simp add: GET_32BIT_WORD_def SET_32BIT_WORD_def nth_list_update bytes_of_u32)

lemma GET_SET_16 [simp]:
  "l + 1 < length b \<Longrightarrow> GET_16BIT_WORD (SET_16BIT_WORD b l v) l = ucast v"
  by (simp add: GET_16BIT_WORD_def SET_16BIT_WORD_def nth_list_update bytes_of_u16)

lemma GET_SET_other [simp]:
  "l + 4 \<le> k \<or> k + 4 \<le> l \<Longrightarrow> GET_32BIT_WORD (SET_32BIT_WORD b l v) k = GET_32BIT_WORD b k"
  "l + 2 \<le> k \<or> k + 2 \<le> l \<Longrightarrow> GET_16BIT_WORD (SET_16BIT_WORD b l w) k = GET_16BIT_WORD b k"
  by (auto simp: GET_32BIT_WORD_def SET_32BIT_WORD_def GET_16BIT_WORD_def SET_16BIT_WORD_def nth_list_update)

end
