(* ===== verification/FatTable.thy ===== *)
theory FatTable
  imports FatDisk
begin

text \<open>
  The file allocation table of the FAT library (\<open>fat_table.c\<close>): the write-back buffers its
  sectors are read and changed in, the operations on links, and the view of the table the
  buffers and the media together stand for.
\<close>

section \<open>Sector buffers\<close>

definition upd_buffer :: "fatfs \<Rightarrow> nat \<Rightarrow> (fat_buffer \<Rightarrow> fat_buffer) \<Rightarrow> fatfs" where
  "upd_buffer fs i f = fs\<lparr>fs_fat_buffers := (fs_fat_buffers fs)[i := f (fs_fat_buffers fs ! i)]\<rparr>"

definition fatfs_fat_init :: "fatfs \<Rightarrow> fatfs" where
  "fatfs_fat_init fs = fs\<lparr>fs_fat_buffers := replicate FAT_BUFFERS
     \<lparr>fb_sector = replicate FAT_SECTOR_SIZE 0, fb_address = FAT32_INVALID_CLUSTER, fb_dirty = False\<rparr>\<rparr>"

text \<open>
  A buffer is named by its position in the chain. A buffer past the end of the table is
  limited to a sector count below 0, which wraps around and asks for more sectors than the
  buffer has.
\<close>

definition fatfs_fat_writeback :: "fatfs \<Rightarrow> nat \<Rightarrow> fault + bool \<times> fatfs" where
  "fatfs_fat_writeback fs i =
     (let pcur = fs_fat_buffers fs ! i in
      if fb_dirty pcur then
        if md_can_write (fs_disk_io fs) then
          let offset = fb_address pcur - fs_fat_begin_lba fs;
              sectors = (if offset + FAT_BUFFER_SECTORS \<le> fs_fat_sectors fs then FAT_BUFFER_SECTORS
                         else fs_fat_sectors fs - offset)
          in andThen (media_write (fs_disk_io fs) (fb_address pcur) (fb_sector pcur) (unat sectors)) (\<lambda>r.
            case r of None \<Rightarrow> Inr (False, fs)
            | Some m \<Rightarrow> Inr (True, upd_buffer (fs\<lparr>fs_disk_io := m\<rparr>) i (fb_dirty_update (\<lambda>_. False))))
        else Inr (True, upd_buffer fs i (fb_dirty_update (\<lambda>_. False)))
      else Inr (True, fs))"

text \<open>
  The search for a buffer; a missing sector takes the last buffer of the chain, which moves
  to the head.
\<close>

fun find_buffer :: "u32 \<Rightarrow> fat_buffer list \<Rightarrow> nat option" where
  "find_buffer sector [] = None"
| "find_buffer sector (b # bs) =
     (if fb_address b \<le> sector \<and> sector < fb_address b + FAT_BUFFER_SECTORS then Some 0
      else map_option Suc (find_buffer sector bs))"

definition fatfs_fat_read_sector :: "fatfs \<Rightarrow> u32 \<Rightarrow> fault + nat option \<times> fatfs" where
  "fatfs_fat_read_sector fs sector =
     (case find_buffer sector (fs_fat_buffers fs) of
        Some i \<Rightarrow> Inr (Some i, fs)
      | None \<Rightarrow>
          if fs_fat_buffers fs = [] then Inl Undef
          else
            let fs = fs\<lparr>fs_fat_buffers := last (fs_fat_buffers fs) # butlast (fs_fat_buffers fs)\<rparr> in
            andThen (if fb_dirty (fs_fat_buffers fs ! 0) then fatfs_fat_writeback fs 0 else Inr (True, fs)) (\<lambda>(ok, fs).
              if \<not> ok then Inr (None, fs)
              else andThen (media_read (fs_disk_io fs) sector (unat FAT_BUFFER_SECTORS)) (\<lambda>r.
                case r of
                  None \<Rightarrow> Inr (None, upd_buffer fs 0 (fb_address_update (\<lambda>_. FAT32_INVALID_CLUSTER)))
                | Some bs \<Rightarrow> Inr (Some 0, upd_buffer fs 0 (\<lambda>b. b\<lparr>fb_address := sector, fb_sector := bs\<rparr>)))))"

text \<open>\<open>purge_from i k\<close>: \<open>k\<close> more buffers of the chain, from position \<open>i\<close> on.\<close>

primrec purge_from :: "fatfs \<Rightarrow> nat \<Rightarrow> nat \<Rightarrow> fault + bool \<times> fatfs" where
  "purge_from fs i 0 = Inr (True, fs)"
| "purge_from fs i (Suc k) =
     andThen (if fb_dirty (fs_fat_buffers fs ! i) then fatfs_fat_writeback fs i else Inr (True, fs)) (\<lambda>(ok, fs).
       if ok then purge_from fs (Suc i) k else Inr (False, fs))"

definition fatfs_fat_purge :: "fatfs \<Rightarrow> fault + bool \<times> fatfs" where
  "fatfs_fat_purge fs = purge_from fs 0 (length (fs_fat_buffers fs))"

section \<open>Links\<close>

text \<open>The sector of the table that holds the entry of a cluster, and its place there.\<close>

definition fat_sector_offset :: "fatfs \<Rightarrow> u32 \<Rightarrow> u32" where
  "fat_sector_offset fs c = (case fs_fat_type fs of FAT_TYPE_16 \<Rightarrow> c div 256 | FAT_TYPE_32 \<Rightarrow> c div 128)"

definition fat_position :: "fatfs \<Rightarrow> u32 \<Rightarrow> nat" where
  "fat_position fs c =
     (let position = (case fs_fat_type fs of
          FAT_TYPE_16 \<Rightarrow> (c - fat_sector_offset fs c * 256) * 2
        | FAT_TYPE_32 \<Rightarrow> (c - fat_sector_offset fs c * 128) * 4)
      in unat (ucast position :: u16))"

definition fat_get :: "fatfs \<Rightarrow> u8 list \<Rightarrow> nat \<Rightarrow> u32" where
  "fat_get fs b position = (case fs_fat_type fs of
      FAT_TYPE_16 \<Rightarrow> GET_16BIT_WORD b position
    | FAT_TYPE_32 \<Rightarrow> GET_32BIT_WORD b position AND 0x0FFFFFFF)"

definition fatfs_find_next_cluster :: "fatfs \<Rightarrow> u32 \<Rightarrow> fault + u32 \<times> fatfs" where
  "fatfs_find_next_cluster fs current_cluster =
     (let c = (if current_cluster = 0 then 2 else current_cluster) in
      andThen (fatfs_fat_read_sector fs (fs_fat_begin_lba fs + fat_sector_offset fs c)) (\<lambda>(pbuf, fs).
        case pbuf of
          None \<Rightarrow> Inr (FAT32_LAST_CLUSTER, fs)
        | Some i \<Rightarrow>
            let nextcluster = fat_get fs (fb_sector (fs_fat_buffers fs ! i)) (fat_position fs c) in
            if (case fs_fat_type fs of
                  FAT_TYPE_16 \<Rightarrow> 0xFFF8 \<le> nextcluster \<and> nextcluster \<le> 0xFFFF
                | FAT_TYPE_32 \<Rightarrow> 0x0FFFFFF8 \<le> nextcluster \<and> nextcluster \<le> 0x0FFFFFFF)
            then Inr (FAT32_LAST_CLUSTER, fs)
            else Inr (nextcluster, fs)))"

definition fatfs_set_fs_info_next_free_cluster :: "fatfs \<Rightarrow> u32 \<Rightarrow> fault + fatfs" where
  "fatfs_set_fs_info_next_free_cluster fs newValue =
     (case fs_fat_type fs of
        FAT_TYPE_16 \<Rightarrow> Inr fs
      | FAT_TYPE_32 \<Rightarrow>
          andThen (fatfs_fat_read_sector fs (fs_lba_begin fs + ucast (fs_info_sector fs))) (\<lambda>(pbuf, fs).
            case pbuf of
              None \<Rightarrow> Inr fs
            | Some i \<Rightarrow>
                let fs = (upd_buffer fs i (\<lambda>b. b\<lparr>fb_sector := SET_32BIT_WORD (fb_sector b) 492 newValue,
                                                fb_dirty := True\<rparr>))\<lparr>fs_next_free_cluster := newValue\<rparr>
                in andThen
                    (if md_can_write (fs_disk_io fs) then
                       media_write (fs_disk_io fs) (fb_address (fs_fat_buffers fs ! i))
                         (fb_sector (fs_fat_buffers fs ! i)) 1
                     else Inr None) (\<lambda>r.
                  Inr (upd_buffer (case r of None \<Rightarrow> fs | Some m \<Rightarrow> fs\<lparr>fs_disk_io := m\<rparr>) i
                    (\<lambda>b. b\<lparr>fb_address := FAT32_INVALID_CLUSTER, fb_dirty := False\<rparr>)))))"

text \<open>The number of entries the table has room for.\<close>

definition fat_entries :: "fatfs \<Rightarrow> nat" where
  "fat_entries fs = unat (fs_fat_sectors fs) * (case fs_fat_type fs of FAT_TYPE_16 \<Rightarrow> 256 | FAT_TYPE_32 \<Rightarrow> 128)"

text \<open>
  The search moves to the next cluster at each step and ends at the end of the table, so as
  many steps as the table has entries are enough.
\<close>

primrec blank_loop :: "nat \<Rightarrow> fatfs \<Rightarrow> u32 \<Rightarrow> fault + u32 option \<times> fatfs" where
  "blank_loop 0 fs current_cluster = Inl OutOfFuel"
| "blank_loop (Suc fuel) fs current_cluster =
     (if fat_sector_offset fs current_cluster < fs_fat_sectors fs then
        andThen (fatfs_fat_read_sector fs (fs_fat_begin_lba fs + fat_sector_offset fs current_cluster)) (\<lambda>(pbuf, fs).
          case pbuf of
            None \<Rightarrow> Inr (None, fs)
          | Some i \<Rightarrow>
              if fat_get fs (fb_sector (fs_fat_buffers fs ! i)) (fat_position fs current_cluster) \<noteq> 0
              then blank_loop fuel fs (current_cluster + 1)
              else Inr (Some current_cluster, fs))
      else Inr (None, fs))"

definition fatfs_find_blank_cluster :: "fatfs \<Rightarrow> u32 \<Rightarrow> fault + u32 option \<times> fatfs" where
  "fatfs_find_blank_cluster fs start_cluster = blank_loop (Suc (fat_entries fs)) fs start_cluster"

definition fatfs_fat_set_cluster :: "fatfs \<Rightarrow> u32 \<Rightarrow> u32 \<Rightarrow> fault + bool \<times> fatfs" where
  "fatfs_fat_set_cluster fs cluster next_cluster =
     andThen (fatfs_fat_read_sector fs (fs_fat_begin_lba fs + fat_sector_offset fs cluster)) (\<lambda>(pbuf, fs).
       case pbuf of
         None \<Rightarrow> Inr (False, fs)
       | Some i \<Rightarrow>
           Inr (True, upd_buffer fs i (\<lambda>b. b\<lparr>fb_sector :=
             (case fs_fat_type fs of
                FAT_TYPE_16 \<Rightarrow> SET_16BIT_WORD (fb_sector b) (fat_position fs cluster) (ucast next_cluster)
              | FAT_TYPE_32 \<Rightarrow> SET_32BIT_WORD (fb_sector b) (fat_position fs cluster) next_cluster),
             fb_dirty := True\<rparr>)))"

text \<open>Every step frees a cluster of the table, so a chain inside the table ends in time.\<close>

primrec free_chain_loop :: "nat \<Rightarrow> fatfs \<Rightarrow> u32 \<Rightarrow> fault + fatfs" where
  "free_chain_loop 0 fs next_cluster = Inl OutOfFuel"
| "free_chain_loop (Suc fuel) fs next_cluster =
     (if next_cluster \<noteq> FAT32_LAST_CLUSTER \<and> next_cluster \<noteq> 0 then
        andThen (fatfs_find_next_cluster fs next_cluster) (\<lambda>(next, fs).
        andThen (fatfs_fat_set_cluster fs next_cluster 0) (\<lambda>(_, fs).
          free_chain_loop fuel fs next))
      else Inr fs)"

definition fatfs_free_cluster_chain :: "fatfs \<Rightarrow> u32 \<Rightarrow> fault + bool \<times> fatfs" where
  "fatfs_free_cluster_chain fs start_cluster =
     andThen (free_chain_loop (Suc (fat_entries fs)) fs start_cluster) (\<lambda>fs. Inr (True, fs))"

text \<open>
  The last cluster of a chain: \<^const>\<open>None\<close> if a link is 0. A chain that does not end keeps
  the loop of the code running; in a chain that ends, every cluster of the table occurs at
  most once.
\<close>

primrec tail_loop :: "nat \<Rightarrow> fatfs \<Rightarrow> u32 \<Rightarrow> u32 \<Rightarrow> fault + u32 option \<times> fatfs" where
  "tail_loop 0 fs last_cluster next_cluster = Inl OutOfFuel"
| "tail_loop (Suc fuel) fs last_cluster next_cluster =
     (if next_cluster \<noteq> FAT32_LAST_CLUSTER then
        andThen (fatfs_find_next_cluster fs next_cluster) (\<lambda>(next, fs).
          if next = 0 then Inr (None, fs) else tail_loop fuel fs next_cluster next)
      else Inr (Some last_cluster, fs))"

definition fatfs_fat_add_cluster_to_chain :: "fatfs \<Rightarrow> u32 \<Rightarrow> u32 \<Rightarrow> fault + bool \<times> fatfs" where
  "fatfs_fat_add_cluster_to_chain fs start_cluster newEntry =
     (if start_cluster = FAT32_LAST_CLUSTER then Inr (False, fs)
      else andThen (tail_loop (Suc (fat_entries fs)) fs FAT32_LAST_CLUSTER start_cluster) (\<lambda>(tail, fs).
        case tail of
          None \<Rightarrow> Inr (False, fs)
        | Some last_cluster \<Rightarrow>
            andThen (fatfs_fat_set_cluster fs last_cluster newEntry) (\<lambda>(_, fs).
            andThen (fatfs_fat_set_cluster fs newEntry FAT32_LAST_CLUSTER) (\<lambda>(_, fs).
              Inr (True, fs)))))"

text \<open>
  The zero entries of one sector of the table, and of the \<open>k\<close> sectors from the \<open>i\<close>-th on; a
  sector that cannot be read ends the count.
\<close>

definition count_sector :: "fatfs \<Rightarrow> u8 list \<Rightarrow> nat" where
  "count_sector fs b = (case fs_fat_type fs of
      FAT_TYPE_16 \<Rightarrow> length (filter (\<lambda>j. GET_16BIT_WORD b (j * 2) = 0) [0..<256])
    | FAT_TYPE_32 \<Rightarrow> length (filter (\<lambda>j. GET_32BIT_WORD b (j * 4) = 0) [0..<128]))"

primrec count_loop :: "fatfs \<Rightarrow> u32 \<Rightarrow> nat \<Rightarrow> u32 \<Rightarrow> fault + u32 \<times> fatfs" where
  "count_loop fs i 0 count = Inr (count, fs)"
| "count_loop fs i (Suc k) count =
     andThen (fatfs_fat_read_sector fs (fs_fat_begin_lba fs + i)) (\<lambda>(pbuf, fs).
       case pbuf of
         None \<Rightarrow> Inr (count, fs)
       | Some p \<Rightarrow> count_loop fs (i + 1) k
                    (count + word_of_nat (count_sector fs (fb_sector (fs_fat_buffers fs ! p)))))"

definition fatfs_count_free_clusters :: "fatfs \<Rightarrow> fault + u32 \<times> fatfs" where
  "fatfs_count_free_clusters fs = count_loop fs 0 (unat (fs_fat_sectors fs)) 0"

end
