(* ===== verification/FatString.thy ===== *)
theory FatString
  imports Prelude
begin

text \<open>
  The string functions of the FAT library (\<open>fat_string.c\<close>): splitting a path into its
  components and comparing file names. A C string is the list of its bytes before the
  terminating 0, and no byte of it is 0; a read past the terminator is undefined.
\<close>

definition ch_slash :: u8 where "ch_slash = 47"
definition ch_backslash :: u8 where "ch_backslash = 92"
definition ch_colon :: u8 where "ch_colon = 58"
definition ch_dot :: u8 where "ch_dot = 46"
definition ch_space :: u8 where "ch_space = 32"

definition c_string :: "u8 list \<Rightarrow> bool" where
  "c_string s \<longleftrightarrow> 0 \<notin> set s"

text \<open>The character a pointer into a string points at, the terminator at its end.\<close>

definition char_at :: "u8 list \<Rightarrow> nat \<Rightarrow> u8" where
  "char_at s i = (if i < length s then s ! i else 0)"

text \<open>\<open>if ((a>='A') && (a<='Z')) a+= 32;\<close>\<close>

definition lower :: "u8 \<Rightarrow> u8" where
  "lower a = (if 65 \<le> a \<and> a \<le> 90 then a + 32 else a)"

section \<open>Paths\<close>

text \<open>
  The separator of a path and what follows its root. The tests \<open>path[1]\<close> and \<open>path[2]\<close> and
  the step to \<open>path + 3\<close> leave a short string.
\<close>

definition path_start :: "u8 list \<Rightarrow> fault + (u8 \<times> u8 list) option" where
  "path_start path =
     (if char_at path 0 = ch_slash then Inr (Some (ch_slash, drop 1 path))
      else if length path < 1 then Inl Undef
      else if char_at path 1 = ch_colon then
        (if length path < 3 then Inl Undef else Inr (Some (ch_backslash, drop 3 path)))
      else if length path < 2 then Inl Undef
      else if char_at path 2 = ch_backslash then Inr (Some (ch_backslash, drop 3 path))
      else Inr None)"

fun skip_component :: "u8 \<Rightarrow> u8 list \<Rightarrow> u8 list" where
  "skip_component e [] = []"
| "skip_component e (c # path) = (if c = e then path else skip_component e path)"

lemma length_skip_component: "length (skip_component e path) \<le> length path"
  by (induction path) auto

function path_levels :: "u8 \<Rightarrow> u8 list \<Rightarrow> int \<Rightarrow> int" where
  "path_levels e path levels =
     (if path = [] then levels else path_levels e (skip_component e path) (levels + 1))"
  by pat_completeness auto
termination
proof (relation "measure (\<lambda>(e, path, levels). length path)")
  fix e :: u8 and path :: "u8 list" and levels :: int
  assume "path \<noteq> []"
  then obtain c cs where "path = c # cs" by (cases path) auto
  then show "((e, skip_component e path, levels + 1), e, path, levels) \<in> measure (\<lambda>(e, path, levels). length path)"
    using length_skip_component[of e cs] by (simp add: le_imp_less_Suc)
qed simp

definition fatfs_total_path_levels :: "u8 list option \<Rightarrow> fault + int" where
  "fatfs_total_path_levels path =
     (case path of None \<Rightarrow> Inr (- 1) | Some path \<Rightarrow>
        andThen (path_start path) (\<lambda>r. case r of
            None \<Rightarrow> Inr (- 1)
          | Some (expectedchar, path) \<Rightarrow> Inr (path_levels expectedchar path 0 - 1)))"

text \<open>The characters of one level, as many as fit before the terminator.\<close>

fun sub_loop :: "u8 \<Rightarrow> int \<Rightarrow> int \<Rightarrow> u8 list \<Rightarrow> int \<Rightarrow> u8 list \<Rightarrow> u8 list" where
  "sub_loop e levelreq max_len [] levels output = output"
| "sub_loop e levelreq max_len (c # path) levels output =
     (let levels = (if c = e then levels + 1 else levels) in
      sub_loop e levelreq max_len path levels
        (if levels = levelreq \<and> c \<noteq> e \<and> int (length output) < max_len - 1 then output @ [c] else output))"

text \<open>\<^const>\<open>None\<close> for the output: nothing is written to it.\<close>

definition fatfs_get_substring :: "u8 list option \<Rightarrow> int \<Rightarrow> int \<Rightarrow> fault + int \<times> u8 list option" where
  "fatfs_get_substring path levelreq max_len =
     (case path of None \<Rightarrow> Inr (- 1, None) | Some path \<Rightarrow>
        if max_len \<le> 0 then Inr (- 1, None)
        else andThen (path_start path) (\<lambda>r. case r of
            None \<Rightarrow> Inr (- 1, None)
          | Some (expectedchar, path) \<Rightarrow>
              let output = sub_loop expectedchar levelreq max_len path 0 [] in
              Inr (if output \<noteq> [] then 0 else - 1, Some output)))"

text \<open>The path and the file name are results of their own, each a string.\<close>

definition fatfs_split_path :: "u8 list \<Rightarrow> int \<Rightarrow> int \<Rightarrow> fault + (u8 list \<times> u8 list) option" where
  "fatfs_split_path full_path max_path max_filename =
     andThen (fatfs_total_path_levels (Some full_path)) (\<lambda>levels.
       if levels = - 1 then Inr None
       else andThen (fatfs_get_substring (Some full_path) levels max_filename) (\<lambda>(res, filename).
         if res \<noteq> 0 then Inr None
         else let filename = the filename in
           if levels = 0 then Inr (Some ([], filename))
           else let strindex = int (length full_path) - int (length filename);
                    strindex = (if max_path < strindex then max_path else strindex)
                in if strindex < 1 then Inl Undef
                   else Inr (Some (take (nat strindex - 1) full_path, filename))))"

section \<open>Names\<close>

fun FileString_StrCmpNoCase :: "u8 list \<Rightarrow> u8 list \<Rightarrow> nat \<Rightarrow> int" where
  "FileString_StrCmpNoCase s1 s2 0 = 0"
| "FileString_StrCmpNoCase s1 s2 (Suc n) =
     (let diff = sint (lower (char_at s1 0)) - sint (lower (char_at s2 0)) in
      if diff \<noteq> 0 then diff
      else if char_at s1 0 = 0 \<or> char_at s2 0 = 0 then 0
      else FileString_StrCmpNoCase (drop 1 s1) (drop 1 s2) n)"

fun extension_loop :: "u8 list \<Rightarrow> int \<Rightarrow> int \<Rightarrow> int" where
  "extension_loop [] i dotPos = dotPos"
| "extension_loop (c # str) i dotPos = extension_loop str (i + 1) (if c = ch_dot then i else dotPos)"

definition FileString_GetExtension :: "u8 list \<Rightarrow> int" where
  "FileString_GetExtension str = extension_loop str 0 (- 1)"

fun FileString_TrimLength :: "u8 list \<Rightarrow> nat \<Rightarrow> nat" where
  "FileString_TrimLength str 0 = 0"
| "FileString_TrimLength str (Suc n) =
     (if char_at str n = ch_space then FileString_TrimLength str n else Suc n)"

definition fatfs_compare_names :: "u8 list \<Rightarrow> u8 list \<Rightarrow> bool" where
  "fatfs_compare_names strA strB =
     (let ext1Pos = FileString_GetExtension strA; ext2Pos = FileString_GetExtension strB in
      if ext1Pos = - 1 \<and> ext2Pos \<noteq> - 1 then False
      else if ext2Pos = - 1 \<and> ext1Pos \<noteq> - 1 then False
      else
        let ext1 = drop (nat (ext1Pos + 1)) strA; ext2 = drop (nat (ext2Pos + 1)) strB in
        if ext1Pos \<noteq> - 1 \<and> (length ext1 \<noteq> length ext2 \<or> FileString_StrCmpNoCase ext1 ext2 (length ext1) \<noteq> 0)
        then False
        else
          let file1Len = FileString_TrimLength strA (if ext1Pos \<noteq> - 1 then nat ext1Pos else length strA);
              file2Len = FileString_TrimLength strB (if ext1Pos \<noteq> - 1 then nat ext2Pos else length strB)
          in if file1Len \<noteq> file2Len then False
             else FileString_StrCmpNoCase strA strB file1Len = 0)"

fun ends_loop :: "u8 list \<Rightarrow> bool" where
  "ends_loop [] = False"
| "ends_loop (c # path) =
     (if char_at path 0 = 0 \<and> (c = ch_backslash \<or> c = ch_slash) then True else ends_loop path)"

definition fatfs_string_ends_with_slash :: "u8 list option \<Rightarrow> bool" where
  "fatfs_string_ends_with_slash path = (case path of None \<Rightarrow> False | Some path \<Rightarrow> ends_loop path)"

fun display_loop :: "u8 list \<Rightarrow> nat \<Rightarrow> u8 list" where
  "display_loop [] len = []"
| "display_loop (a # s) len =
     (if 11 < len then []
      else if a = ch_space then display_loop s len
      else lower a # display_loop s (len + 1))"

definition fatfs_get_sfn_display_name :: "u8 list \<Rightarrow> u8 list" where
  "fatfs_get_sfn_display_name s = display_loop s 0"

text \<open>\<^const>\<open>None\<close>: the function returns 0 and writes nothing.\<close>

definition fatfs_get_extension :: "u8 list \<Rightarrow> int \<Rightarrow> u8 list option" where
  "fatfs_get_extension filename maxlen =
     (let ext_pos = FileString_GetExtension filename in
      if 0 < ext_pos \<and> maxlen \<noteq> 0
      then Some (map lower (take (nat (maxlen - 1)) (drop (nat (ext_pos + 1)) filename)))
      else None)"

text \<open>
  The separator follows the last one of the two slashes the path uses; it is not counted in
  \<open>len\<close>.
\<close>

definition fatfs_create_path_string :: "u8 list \<Rightarrow> u8 list \<Rightarrow> int \<Rightarrow> u8 list option" where
  "fatfs_create_path_string path filename maxlen =
     (if maxlen \<le> 0 then None
      else
        let p = take (nat (maxlen - 2)) path;
            last = (if p = [] then 0 else last p);
            seperator = (if ch_backslash \<in> set p then ch_backslash else ch_slash);
            sep = (if last \<noteq> ch_backslash \<and> last \<noteq> ch_slash then [seperator] else [])
        in Some (p @ sep @ take (nat (maxlen - 1) - length p) filename))"

section \<open>What splitting computes\<close>

text \<open>The number of levels is the number of components, a last empty one left out.\<close>

lemma split_skip:
  "path \<noteq> [] \<Longrightarrow> split_at e path =
     takeWhile (\<lambda>c. c \<noteq> e) path # (if e \<in> set path then split_at e (skip_component e path) else [])"
proof (induction path)
  case (Cons c path)
  show ?case
  proof (cases "c = e")
    case False
    then show ?thesis using Cons.IH by (cases path) auto
  qed simp
qed simp

lemma skip_absent: "e \<notin> set path \<Longrightarrow> skip_component e path = []"
  by (induction path) auto

definition level_count :: "u8 \<Rightarrow> u8 list \<Rightarrow> nat" where
  "level_count e path = length (split_at e path) - (if last (split_at e path) = [] then 1 else 0)"

lemma path_levels_count: "path_levels e path n = n + int (level_count e path)"
proof (induction e path n rule: path_levels.induct)
  case (1 e path n)
  show ?case
  proof (cases "path = []")
    case True
    then show ?thesis by (simp add: level_count_def)
  next
    case False
    have "level_count e path = Suc (level_count e (skip_component e path))"
    proof (cases "e \<in> set path")
      case True
      have "(if last (split_at e (skip_component e path)) = [] then 1 else 0) \<le> length (split_at e (skip_component e path))"
        by (simp add: Suc_leI)
      then show ?thesis using True split_skip[OF False, of e] by (simp add: level_count_def)
    next
      case e: False
      have "takeWhile (\<lambda>c. c \<noteq> e) path \<noteq> []" using e False by (cases path) auto
      then show ?thesis using e split_skip[OF False, of e] skip_absent[OF e] by (simp add: level_count_def)
    qed
    then show ?thesis using 1 False by (subst path_levels.simps) simp
  qed
qed

text \<open>\<open>fatfs_get_substring\<close> copies a component.\<close>

lemma sub_loop_past: "levelreq < levels \<Longrightarrow> sub_loop e levelreq max_len path levels out = out"
  by (induction path arbitrary: levels) (auto simp: Let_def)

lemma sub_loop_here:
  "int (length out) \<le> max_len - 1 \<Longrightarrow>
   sub_loop e l max_len path l out = take (nat (max_len - 1)) (out @ hd (split_at e path))"
proof (induction path arbitrary: out)
  case (Cons c path)
  obtain w ws where w: "split_at e path = w # ws" using split_at_not_Nil by (metis list.exhaust)
  show ?case
  proof (cases "c = e")
    case True
    then show ?thesis using Cons.prems by (simp add: sub_loop_past)
  next
    case c: False
    show ?thesis
    proof (cases "int (length out) < max_len - 1")
      case True
      then have "int (length (out @ [c])) \<le> max_len - 1" by simp
      from Cons.IH[OF this] show ?thesis using c True w by simp
    next
      case False
      then have "nat (max_len - 1) = length out" using Cons.prems by simp
      then show ?thesis using c False w Cons.IH[OF Cons.prems] by simp
    qed
  qed
qed simp

lemma sub_loop_component:
  assumes "0 < max_len"
  shows "levels \<le> l \<Longrightarrow> sub_loop e l max_len path levels [] =
     (if nat (l - levels) < length (split_at e path)
      then take (nat (max_len - 1)) (split_at e path ! nat (l - levels)) else [])"
proof (induction path arbitrary: levels)
  case Nil
  then show ?case by simp
next
  case (Cons c path)
  obtain w ws where w: "split_at e path = w # ws" using split_at_not_Nil by (metis list.exhaust)
  show ?case
  proof (cases "levels = l")
    case True
    have "hd (split_at e (c # path)) = split_at e (c # path) ! 0" 
      by (rule hd_conv_nth) (rule split_at_not_Nil)
    moreover have "0 < length (split_at e (c # path))" by (simp only: length_greater_0_conv split_at_not_Nil not_False_eq_True)
    ultimately show ?thesis using sub_loop_here[of "[]" max_len e l "c # path"] assms True
      by (simp del: split_at.simps sub_loop.simps)
  next
    case False
    then have l: "levels < l" "levels + 1 \<le> l" using Cons.prems by simp_all
    have n: "nat (l - levels) = Suc (nat (l - (levels + 1)))" using l by simp
    show ?thesis
    proof (cases "c = e")
      case True
      then show ?thesis using Cons.IH[OF l(2)] unfolding n by simp
    next
      case False
      then show ?thesis using Cons.IH[of levels] l w unfolding n by simp
    qed
  qed
qed

text \<open>Splitting a path below the root.\<close>

lemma substring_slash:
  assumes "0 \<le> l" "0 < max_len"
  shows "fatfs_get_substring (Some (ch_slash # p)) l max_len =
    (let w = (if nat l < length (split_at ch_slash p) then take (nat (max_len - 1)) (split_at ch_slash p ! nat l) else [])
     in Inr (if w \<noteq> [] then 0 else - 1, Some w))"
  using sub_loop_component[OF assms(2,1), of ch_slash p] assms
  by (simp add: fatfs_get_substring_def path_start_def char_at_def Let_def)

lemma levels_slash:
  "fatfs_total_path_levels (Some (ch_slash # p)) = Inr (int (level_count ch_slash p) - 1)"
  by (simp add: fatfs_total_path_levels_def path_start_def char_at_def path_levels_count del: path_levels.simps)

section \<open>What comparing decides\<close>

text \<open>
  A name is split at its last dot; the stem loses its trailing spaces, and case is ignored.
\<close>

definition name_key :: "u8 list \<Rightarrow> u8 list \<times> u8 list option" where
  "name_key s =
     (let trim = (\<lambda>w. map lower (rev (dropWhile (\<lambda>c. c = ch_space) (rev w)))) in
      if ch_dot \<in> set s
      then (trim (rev (tl (dropWhile (\<lambda>c. c \<noteq> ch_dot) (rev s)))),
            Some (map lower (rev (takeWhile (\<lambda>c. c \<noteq> ch_dot) (rev s)))))
      else (trim s, None))"

lemma extension_loop_eq:
  "extension_loop s i d = (if ch_dot \<in> set s
     then i + int (length (dropWhile (\<lambda>c. c \<noteq> ch_dot) (rev s))) - 1 else d)"
proof (induction s arbitrary: i d)
  case (Cons c s)
  then show ?case by (auto simp: dropWhile_append)
qed simp

lemma trim_length: "n \<le> length s \<Longrightarrow>
   take (FileString_TrimLength s n) s = rev (dropWhile (\<lambda>c. c = ch_space) (rev (take n s)))"
  by (induction n) (auto simp: char_at_def take_Suc_conv_app_nth)

lemma trim_bound: "FileString_TrimLength s n \<le> n"
  by (induction n) auto

lemma sint_eq: "sint (a :: u8) - sint b = 0 \<longleftrightarrow> a = b"
  using signed_word_eqI[of a b] by auto

lemma lower_zero: "lower a = 0 \<longleftrightarrow> a = 0"
proof (cases "65 \<le> a \<and> a \<le> 90")
  case True
  then have "unat a \<le> 90" "65 \<le> unat a" by (simp_all add: word_le_nat_alt)
  then have "unat (a + 32) = unat a + 32" by (simp add: unat_word_ariths)
  then have "a + 32 \<noteq> 0" by (metis add_eq_0_iff_both_eq_0 unat_0 zero_neq_numeral)
  then show ?thesis using True by (auto simp: lower_def)
qed (auto simp: lower_def)

lemma strcmp_eq:
  "c_string s \<Longrightarrow> c_string t \<Longrightarrow>
   FileString_StrCmpNoCase s t n = 0 \<longleftrightarrow> map lower (take n s) = map lower (take n t)"
proof (induction n arbitrary: s t)
  case (Suc n)
  have step: "FileString_StrCmpNoCase s t (Suc n) =
      (let diff = sint (lower (char_at s 0)) - sint (lower (char_at t 0)) in
       if diff \<noteq> 0 then diff
       else if char_at s 0 = 0 \<or> char_at t 0 = 0 then 0
       else FileString_StrCmpNoCase (drop 1 s) (drop 1 t) n)" by (rule FileString_StrCmpNoCase.simps)
  have z: "char_at u 0 = 0 \<longleftrightarrow> u = []" if "c_string u" for u
    using that by (cases u) (auto simp: char_at_def c_string_def)
  show ?case
  proof (cases "s = [] \<or> t = []")
    case True
    have "sint (lower (char_at s 0)) - sint (lower (char_at t 0)) = 0 \<longleftrightarrow> s = [] \<and> t = []"
      unfolding sint_eq using z[OF Suc.prems(1)] z[OF Suc.prems(2)] True lower_zero
      by (metis char_at_def length_0_conv less_numeral_extra(3) list.size(3))
    then show ?thesis using True step z[of "[]"] by (auto simp: Let_def z Suc.prems c_string_def)
  next
    case False
    then obtain a s' b t' where st: "s = a # s'" "t = b # t'" by (meson list.exhaust)
    have nz: "a \<noteq> 0" "b \<noteq> 0" "c_string s'" "c_string t'" using Suc.prems st by (auto simp: c_string_def)
    have "FileString_StrCmpNoCase s t (Suc n) =
        (if sint (lower a) - sint (lower b) \<noteq> 0 then sint (lower a) - sint (lower b)
         else FileString_StrCmpNoCase s' t' n)"
      using step nz by (simp add: st char_at_def Let_def)
    then show ?thesis using Suc.IH[OF nz(3,4)] sint_eq[of "lower a" "lower b"] by (simp add: st)
  qed
qed simp

lemma extension_split:
  "ch_dot \<in> set s \<Longrightarrow> \<exists>w x. s = w @ ch_dot # x \<and> ch_dot \<notin> set x"
  by (rule split_list_last)

lemma extension_none: "ch_dot \<notin> set s \<Longrightarrow> FileString_GetExtension s = - 1"
  by (simp add: FileString_GetExtension_def extension_loop_eq)

lemma dropWhile_last_dot:
  assumes "ch_dot \<notin> set x"
  shows "dropWhile (\<lambda>c. c \<noteq> ch_dot) (rev (w @ ch_dot # x)) = ch_dot # rev w"
    "takeWhile (\<lambda>c. c \<noteq> ch_dot) (rev (w @ ch_dot # x)) = rev x"
proof -
  have r: "rev (w @ ch_dot # x) = rev x @ (ch_dot # rev w)" by simp
  have n: "c \<noteq> ch_dot" if "c \<in> set (rev x)" for c using assms that by auto
  show "dropWhile (\<lambda>c. c \<noteq> ch_dot) (rev (w @ ch_dot # x)) = ch_dot # rev w"
    unfolding r by (subst dropWhile_append2[OF n]) auto
  show "takeWhile (\<lambda>c. c \<noteq> ch_dot) (rev (w @ ch_dot # x)) = rev x"
    unfolding r by (subst takeWhile_append2[OF n]) auto
qed

lemma extension_dot:
  assumes "ch_dot \<notin> set x" shows "FileString_GetExtension (w @ ch_dot # x) = int (length w)"
  unfolding FileString_GetExtension_def extension_loop_eq dropWhile_last_dot(1)[OF assms] by simp

lemma name_key_none:
  "ch_dot \<notin> set s \<Longrightarrow> name_key s = (map lower (take (FileString_TrimLength s (length s)) s), None)"
  by (simp add: name_key_def trim_length)

lemma name_key_dot:
  assumes "ch_dot \<notin> set x"
  shows "name_key (w @ ch_dot # x) =
    (map lower (take (FileString_TrimLength (w @ ch_dot # x) (length w)) (w @ ch_dot # x)), Some (map lower x))"
proof -
  have "rev (takeWhile (\<lambda>c. c \<noteq> ch_dot) (rev (w @ ch_dot # x))) = x"
    unfolding dropWhile_last_dot(2)[OF assms] by simp
  moreover have "take (FileString_TrimLength (w @ ch_dot # x) (length w)) (w @ ch_dot # x) =
      rev (dropWhile (\<lambda>c. c = ch_space) (rev w))"
    using trim_length[of "length w" "w @ ch_dot # x"] by simp
  ultimately show ?thesis
    unfolding name_key_def Let_def dropWhile_last_dot(1)[OF assms] by simp
qed

lemma take_both:
  assumes "n \<le> length s" "m \<le> length t"
  shows "n = m \<and> map lower (take n s) = map lower (take n t) \<longleftrightarrow> map lower (take n s) = map lower (take m t)"
  using assms by (metis length_map length_take min.absorb2)

lemma compare_names_key:
  assumes a: "c_string a" and b: "c_string b"
  shows "fatfs_compare_names a b \<longleftrightarrow> name_key a = name_key b"
proof (cases "ch_dot \<in> set a")
  case False
  note ka = extension_none[OF False] name_key_none[OF False]
  show ?thesis
  proof (cases "ch_dot \<in> set b")
    case True
    then obtain w x where "b = w @ ch_dot # x" "ch_dot \<notin> set x" using extension_split by blast
    then show ?thesis using ka by (simp add: fatfs_compare_names_def extension_dot name_key_dot)
  next
    case F: False
    note kb = extension_none[OF F] name_key_none[OF F]
    show ?thesis
      using take_both[OF trim_bound[of a "length a"] trim_bound[of b "length b"]]
      by (auto simp: fatfs_compare_names_def ka kb Let_def strcmp_eq[OF a b])
  qed
next
  case True
  then obtain w x where A: "a = w @ ch_dot # x" "ch_dot \<notin> set x" using extension_split by blast
  note ka = extension_dot[OF A(2), of w, folded A(1)] name_key_dot[OF A(2), of w, folded A(1)]
  show ?thesis
  proof (cases "ch_dot \<in> set b")
    case False
    then show ?thesis using ka by (simp add: fatfs_compare_names_def extension_none name_key_none)
  next
    case True
    then obtain v y where B: "b = v @ ch_dot # y" "ch_dot \<notin> set y" using extension_split by blast
    note kb = extension_dot[OF B(2), of v, folded B(1)] name_key_dot[OF B(2), of v, folded B(1)]
    have da: "drop (nat (int (length w) + 1)) a = x" and db: "drop (nat (int (length v) + 1)) b = y"
      by (simp_all add: A(1) B(1) nat_add_distrib)
    have cx: "c_string x" "c_string y" using a b by (auto simp: A B c_string_def)
    have ext: "(length x \<noteq> length y \<or> FileString_StrCmpNoCase x y (length x) \<noteq> 0) \<longleftrightarrow> map lower x \<noteq> map lower y"
      using strcmp_eq[OF cx, of "length x"] by (metis length_map order_refl take_all)
    have "FileString_TrimLength a (length w) \<le> length a" "FileString_TrimLength b (length v) \<le> length b"
      using trim_bound[of a "length w"] trim_bound[of b "length v"] by (simp_all add: A(1) B(1))
    from take_both[OF this] show ?thesis
      using ext by (auto simp: fatfs_compare_names_def ka kb da db Let_def strcmp_eq[OF a b])
  qed
qed

end
