(* ===== verification/FatMisc.thy ===== *)
theory FatMisc
  imports FatString FatDisk
begin

text \<open>
  Directory entries and names of the FAT library (\<open>fat_misc.c\<close>): the kinds of entries, the
  cache that collects a long file name from its entries, the entries a long name is written
  as, and the short name made for it. The time stamps are in \<open>FatTime\<close>; the dump of a sector
  prints, and is not compiled in (\<open>FATFS_DEBUG\<close>).
\<close>

section \<open>Directory entries\<close>

definition FILE_ATTR_SYSHID :: u8 where "FILE_ATTR_SYSHID = 0x06"
definition FILE_ATTR_VOLUME_ID :: u8 where "FILE_ATTR_VOLUME_ID = 0x08"
definition FILE_ATTR_LFN_TEXT :: u8 where "FILE_ATTR_LFN_TEXT = 0x0F"
definition FILE_HEADER_BLANK :: u8 where "FILE_HEADER_BLANK = 0x00"
definition FILE_HEADER_DELETED :: u8 where "FILE_HEADER_DELETED = 0xE5"
definition FILE_TYPE_DIR :: u8 where "FILE_TYPE_DIR = 0x10"
definition FILE_TYPE_FILE :: u8 where "FILE_TYPE_FILE = 0x20"
definition FAT_DIR_ENTRY_SIZE :: nat where "FAT_DIR_ENTRY_SIZE = 32"
definition FAT_SFN_SIZE_FULL :: nat where "FAT_SFN_SIZE_FULL = 11"
definition FAT_SFN_SIZE_PARTIAL :: nat where "FAT_SFN_SIZE_PARTIAL = 8"
definition MAX_LONGFILENAME_ENTRIES :: nat where "MAX_LONGFILENAME_ENTRIES = 20"
definition MAX_LFN_ENTRY_LENGTH :: nat where "MAX_LFN_ENTRY_LENGTH = 13"

record fat_dir_entry =
  de_Name :: "u8 list"
  de_Attr :: u8
  de_NTRes :: u8
  de_CrtTimeTenth :: u8
  de_CrtTime :: "u8 list"
  de_CrtDate :: "u8 list"
  de_LstAccDate :: "u8 list"
  de_FstClusHI :: u16
  de_WrtTime :: "u8 list"
  de_WrtDate :: "u8 list"
  de_FstClusLO :: u16
  de_FileSize :: u32

text \<open>The structure laid over 32 bytes of a sector, and copied into them.\<close>

definition decode_dir_entry :: "u8 list \<Rightarrow> fat_dir_entry" where
  "decode_dir_entry b =
    \<lparr>de_Name = take 11 b, de_Attr = b ! 11, de_NTRes = b ! 12, de_CrtTimeTenth = b ! 13,
     de_CrtTime = slice_of 14 2 b, de_CrtDate = slice_of 16 2 b, de_LstAccDate = slice_of 18 2 b,
     de_FstClusHI = le16_to_cpu (slice_of 20 2 b), de_WrtTime = slice_of 22 2 b,
     de_WrtDate = slice_of 24 2 b, de_FstClusLO = le16_to_cpu (slice_of 26 2 b),
     de_FileSize = le32_to_cpu (slice_of 28 4 b)\<rparr>"

definition encode_dir_entry :: "fat_dir_entry \<Rightarrow> u8 list" where
  "encode_dir_entry e = de_Name e @ [de_Attr e, de_NTRes e, de_CrtTimeTenth e] @ de_CrtTime e @
     de_CrtDate e @ de_LstAccDate e @ cpu_to_le16 (de_FstClusHI e) @ de_WrtTime e @ de_WrtDate e @
     cpu_to_le16 (de_FstClusLO e) @ cpu_to_le32 (de_FileSize e)"

definition dir_entry_shape :: "fat_dir_entry \<Rightarrow> bool" where
  "dir_entry_shape e \<longleftrightarrow> length (de_Name e) = 11 \<and> length (de_CrtTime e) = 2 \<and> length (de_CrtDate e) = 2 \<and>
     length (de_LstAccDate e) = 2 \<and> length (de_WrtTime e) = 2 \<and> length (de_WrtDate e) = 2"

definition fatfs_entry_lfn_text :: "fat_dir_entry \<Rightarrow> bool" where
  "fatfs_entry_lfn_text e \<longleftrightarrow> de_Attr e AND FILE_ATTR_LFN_TEXT = FILE_ATTR_LFN_TEXT"

definition fatfs_entry_lfn_invalid :: "fat_dir_entry \<Rightarrow> bool" where
  "fatfs_entry_lfn_invalid e \<longleftrightarrow> de_Name e ! 0 = FILE_HEADER_BLANK \<or> de_Name e ! 0 = FILE_HEADER_DELETED \<or>
     de_Attr e = FILE_ATTR_VOLUME_ID \<or> de_Attr e AND FILE_ATTR_SYSHID \<noteq> 0"

definition fatfs_entry_sfn_only :: "fat_dir_entry \<Rightarrow> bool" where
  "fatfs_entry_sfn_only e \<longleftrightarrow> de_Attr e \<noteq> FILE_ATTR_LFN_TEXT \<and> de_Name e ! 0 \<noteq> FILE_HEADER_BLANK \<and>
     de_Name e ! 0 \<noteq> FILE_HEADER_DELETED \<and> de_Attr e \<noteq> FILE_ATTR_VOLUME_ID \<and>
     de_Attr e AND FILE_ATTR_SYSHID = 0"

definition fatfs_entry_is_dir :: "fat_dir_entry \<Rightarrow> bool" where
  "fatfs_entry_is_dir e \<longleftrightarrow> de_Attr e AND FILE_TYPE_DIR \<noteq> 0"

definition fatfs_entry_is_file :: "fat_dir_entry \<Rightarrow> bool" where
  "fatfs_entry_is_file e \<longleftrightarrow> de_Attr e AND FILE_TYPE_FILE \<noteq> 0"

definition entry_cluster :: "fat_dir_entry \<Rightarrow> u32" where
  "entry_cluster e = push_bit 16 (ucast (de_FstClusHI e)) + ucast (de_FstClusLO e)"

section \<open>Long file names\<close>

text \<open>\<open>String[20][13]\<close> is followed in memory by \<open>Null\<close>.\<close>

record lfn_cache =
  lfn_String :: "u8 list list"
  lfn_Null :: u8
  lfn_no_of_strings :: nat

definition fatfs_lfn_cache_init :: "lfn_cache \<Rightarrow> bool \<Rightarrow> lfn_cache" where
  "fatfs_lfn_cache_init lfn wipeTable =
     (let lfn = lfn\<lparr>lfn_no_of_strings := 0\<rparr> in
      if wipeTable
      then lfn\<lparr>lfn_String := replicate MAX_LONGFILENAME_ENTRIES (replicate MAX_LFN_ENTRY_LENGTH 0)\<rparr>
      else lfn)"

text \<open>The places of the 13 characters of an entry.\<close>

definition nameIndexes :: "nat list" where
  "nameIndexes = [1, 3, 5, 7, 9, 0x0E, 0x10, 0x12, 0x14, 0x16, 0x18, 0x1C, 0x1E]"

definition fatfs_lfn_cache_entry :: "lfn_cache \<Rightarrow> u8 list \<Rightarrow> lfn_cache" where
  "fatfs_lfn_cache_entry lfn entryBuffer =
     (let LFNIndex = unat (entryBuffer ! 0 AND 0x1F) in
      if MAX_LONGFILENAME_ENTRIES < LFNIndex then lfn
      else if LFNIndex = 0 then lfn
      else
        let lfn = (if lfn_no_of_strings lfn = 0 then lfn\<lparr>lfn_no_of_strings := LFNIndex\<rparr> else lfn);
            chars = map (\<lambda>k. entryBuffer ! k) nameIndexes
        in lfn\<lparr>lfn_String := (lfn_String lfn)[LFNIndex - 1 :=
             map (\<lambda>c. if c = 0xFF then 0x20 else c) chars]\<rparr>)"

text \<open>The terminated cache, and the string it starts with.\<close>

definition lfn_terminate :: "lfn_cache \<Rightarrow> lfn_cache" where
  "lfn_terminate lfn =
     (if lfn_no_of_strings lfn = MAX_LONGFILENAME_ENTRIES then lfn\<lparr>lfn_Null := 0\<rparr>
      else if lfn_no_of_strings lfn \<noteq> 0
      then lfn\<lparr>lfn_String := (lfn_String lfn)[lfn_no_of_strings lfn := (lfn_String lfn ! lfn_no_of_strings lfn)[0 := 0]]\<rparr>
      else lfn\<lparr>lfn_String := (lfn_String lfn)[0 := (lfn_String lfn ! 0)[0 := 0]]\<rparr>)"

definition fatfs_lfn_cache_get :: "lfn_cache \<Rightarrow> u8 list \<times> lfn_cache" where
  "fatfs_lfn_cache_get lfn =
     (let lfn = lfn_terminate lfn in
      (takeWhile (\<lambda>c. c \<noteq> 0) (concat (lfn_String lfn) @ [lfn_Null lfn]), lfn))"

definition fatfs_entry_lfn_exists :: "lfn_cache \<Rightarrow> fat_dir_entry \<Rightarrow> bool" where
  "fatfs_entry_lfn_exists lfn e \<longleftrightarrow> de_Attr e \<noteq> FILE_ATTR_LFN_TEXT \<and> de_Name e ! 0 \<noteq> FILE_HEADER_BLANK \<and>
     de_Name e ! 0 \<noteq> FILE_HEADER_DELETED \<and> de_Attr e \<noteq> FILE_ATTR_VOLUME_ID \<and>
     de_Attr e AND FILE_ATTR_SYSHID = 0 \<and> lfn_no_of_strings lfn \<noteq> 0"

definition fatfs_lfn_entries_required :: "u8 list \<Rightarrow> nat" where
  "fatfs_lfn_entries_required filename =
     (if length filename \<noteq> 0
      then (length filename + MAX_LFN_ENTRY_LENGTH - 1) div MAX_LFN_ENTRY_LENGTH else 0)"

text \<open>The \<open>i\<close>-th character of an entry goes to the buffer.\<close>

definition lfn_put :: "u8 list \<Rightarrow> nat \<Rightarrow> u8 list \<Rightarrow> nat \<Rightarrow> u8 list" where
  "lfn_put filename start buffer i =
     (if start + i < length filename then buffer[nameIndexes ! i := filename ! (start + i)]
      else if start + i = length filename then buffer[nameIndexes ! i := 0]
      else buffer[nameIndexes ! i := 0xFF, nameIndexes ! i + 1 := 0xFF])"

definition fatfs_filename_to_lfn :: "u8 list \<Rightarrow> nat \<Rightarrow> u8 \<Rightarrow> u8 list" where
  "fatfs_filename_to_lfn filename entry sfnChk =
     (let buffer = (replicate FAT_DIR_ENTRY_SIZE 0)
           [0 := (if fatfs_lfn_entries_required filename = entry + 1
                  then 0x40 OR (word_of_nat (entry + 1)) else word_of_nat (entry + 1)),
            11 := 0x0F, 13 := sfnChk]
      in foldl (lfn_put filename (entry * MAX_LFN_ENTRY_LENGTH)) buffer [0..<MAX_LFN_ENTRY_LENGTH])"

section \<open>Short file names\<close>

definition fatfs_sfn_create_entry :: "u8 list \<Rightarrow> u32 \<Rightarrow> u32 \<Rightarrow> bool \<Rightarrow> fat_dir_entry" where
  "fatfs_sfn_create_entry shortfilename fsize startCluster dir =
    \<lparr>de_Name = take FAT_SFN_SIZE_FULL shortfilename,
     de_Attr = (if \<not> dir then FILE_TYPE_FILE else FILE_TYPE_DIR),
     de_NTRes = 0, de_CrtTimeTenth = 0, de_CrtTime = [0, 0], de_CrtDate = [0x20, 0],
     de_LstAccDate = [0x20, 0],
     de_FstClusHI = ucast (drop_bit 16 startCluster AND 0xFFFF),
     de_WrtTime = [0, 0], de_WrtDate = [0x20, 0],
     de_FstClusLO = ucast (startCluster AND 0xFFFF),
     de_FileSize = fsize\<rparr>"

definition upper :: "u8 \<Rightarrow> u8" where
  "upper a = (if 97 \<le> a \<and> a \<le> 122 then a - 97 + 65 else a)"

fun sfn_loop :: "u8 list \<Rightarrow> u8 list \<Rightarrow> u8 list" where
  "sfn_loop [] out = out"
| "sfn_loop (c # filename) out =
     (let out = (if c \<noteq> ch_space \<and> c \<noteq> ch_dot then out @ [upper c] else out) in
      if length out = FAT_SFN_SIZE_PARTIAL then out else sfn_loop filename out)"

definition pad :: "nat \<Rightarrow> u8 list \<Rightarrow> u8 list" where
  "pad n s = s @ replicate (n - length s) ch_space"

text \<open>\<^const>\<open>None\<close>: a name that starts with a dot is refused.\<close>

definition fatfs_lfn_create_sfn :: "u8 list \<Rightarrow> u8 list option" where
  "fatfs_lfn_create_sfn filename =
     (if char_at filename 0 = ch_dot then None
      else
        let dotPos = extension_loop filename 0 (- 1);
            ext = (if dotPos \<noteq> - 1 then take 3 (drop (nat (dotPos + 1)) filename) else []);
            len = (if dotPos \<noteq> - 1 then nat dotPos else length filename)
        in Some (pad FAT_SFN_SIZE_PARTIAL (sfn_loop (take len filename) []) @ map upper (pad 3 ext)))"

fun itoa_backwards :: "nat \<Rightarrow> u8 list" where
  "itoa_backwards num = (48 + word_of_nat (num mod 10)) # (if 0 < num div 10 then itoa_backwards (num div 10) else [])"

declare itoa_backwards.simps [simp del]

definition fatfs_itoa :: "u32 \<Rightarrow> u8 list" where
  "fatfs_itoa num = rev (itoa_backwards (unat num))"

definition fatfs_lfn_generate_tail :: "u8 list \<Rightarrow> u32 \<Rightarrow> u8 list option" where
  "fatfs_lfn_generate_tail sfn_input tailNum =
     (if 99999 < tailNum then None
      else let tail_str = 126 # fatfs_itoa tailNum in
           Some (overlay (FAT_SFN_SIZE_PARTIAL - length tail_str) tail_str (take FAT_SFN_SIZE_FULL sfn_input)))"

section \<open>Entries and names survive being stored\<close>

lemma length_encode_dir_entry: "dir_entry_shape e \<Longrightarrow> length (encode_dir_entry e) = 32"
  by (simp add: encode_dir_entry_def dir_entry_shape_def)

lemma decode_encode_dir_entry:
  assumes "dir_entry_shape e" shows "decode_dir_entry (encode_dir_entry e) = e"
proof -
  let ?b = "encode_dir_entry e"
  note n = assms[unfolded dir_entry_shape_def]
  have "slice_of 14 2 ?b = de_CrtTime e" "slice_of 16 2 ?b = de_CrtDate e" "slice_of 18 2 ?b = de_LstAccDate e"
    "slice_of 20 2 ?b = cpu_to_le16 (de_FstClusHI e)" "slice_of 22 2 ?b = de_WrtTime e"
    "slice_of 24 2 ?b = de_WrtDate e" "slice_of 26 2 ?b = cpu_to_le16 (de_FstClusLO e)"
    "slice_of 28 4 ?b = cpu_to_le32 (de_FileSize e)" "take 11 ?b = de_Name e"
    "?b ! 11 = de_Attr e" "?b ! 12 = de_NTRes e" "?b ! 13 = de_CrtTimeTenth e"
    using n by (simp_all add: slice_of_def encode_dir_entry_def nth_append)
  then show ?thesis by (simp add: decode_dir_entry_def)
qed

text \<open>The characters of an entry of a long name.\<close>

definition lfn_char :: "u8 list \<Rightarrow> nat \<Rightarrow> u8" where
  "lfn_char filename j = (if j < length filename then filename ! j else if j = length filename then 0 else 0xFF)"

lemma nameIndexes_places:
  "length nameIndexes = 13" "distinct nameIndexes"
  "x \<in> set nameIndexes \<Longrightarrow> 0 < x \<and> x < 31 \<and> x \<noteq> 11 \<and> x \<noteq> 13"
  "x \<in> set nameIndexes \<Longrightarrow> y \<in> set nameIndexes \<Longrightarrow> x \<noteq> y + 1"
  by (auto simp: nameIndexes_def)

lemma put_char:
  assumes i: "i < 13" and b: "length buffer = 32"
  shows "length (lfn_put filename start buffer i) = 32"
    "lfn_put filename start buffer i ! (nameIndexes ! i) = lfn_char filename (start + i)"
    "lfn_put filename start buffer i ! 0 = buffer ! 0"
    "j < 13 \<Longrightarrow> j \<noteq> i \<Longrightarrow> lfn_put filename start buffer i ! (nameIndexes ! j) = buffer ! (nameIndexes ! j)"
proof -
  let ?x = "nameIndexes ! i"
  have x: "?x \<in> set nameIndexes" using i nameIndexes_places(1) by simp
  have xb: "0 < ?x" "?x < 31" using nameIndexes_places(3)[OF x] by simp_all
  show "length (lfn_put filename start buffer i) = 32" using b by (simp add: lfn_put_def)
  show "lfn_put filename start buffer i ! ?x = lfn_char filename (start + i)"
    using b xb by (simp add: lfn_put_def lfn_char_def)
  show "lfn_put filename start buffer i ! 0 = buffer ! 0" using xb by (simp add: lfn_put_def)
  assume j: "j < 13" "j \<noteq> i"
  then have y: "nameIndexes ! j \<in> set nameIndexes" using nameIndexes_places(1) by simp
  have "nameIndexes ! j \<noteq> ?x"
    using j i nameIndexes_places(1,2) by (simp add: nth_eq_iff_index_eq)
  moreover have "nameIndexes ! j \<noteq> ?x + 1" by (rule nameIndexes_places(4)[OF y x])
  ultimately show "lfn_put filename start buffer i ! (nameIndexes ! j) = buffer ! (nameIndexes ! j)"
    by (simp add: lfn_put_def)
qed

lemma fold_put:
  "n \<le> 13 \<Longrightarrow> length buffer = 32 \<Longrightarrow>
   length (foldl (lfn_put filename start) buffer [0..<n]) = 32 \<and>
   (\<forall>i < n. foldl (lfn_put filename start) buffer [0..<n] ! (nameIndexes ! i) = lfn_char filename (start + i)) \<and>
   foldl (lfn_put filename start) buffer [0..<n] ! 0 = buffer ! 0"
proof (induction n)
  case (Suc n)
  let ?b = "foldl (lfn_put filename start) buffer [0..<n]"
  have n: "n < 13" and b: "length ?b = 32" using Suc by auto
  show ?case
    using Suc put_char[OF n b] by (auto simp: less_Suc_eq)
qed simp

lemma lfn_entry_chars:
  "k < 13 \<Longrightarrow> fatfs_filename_to_lfn filename e chk ! (nameIndexes ! k) = lfn_char filename (e * 13 + k)"
  "fatfs_filename_to_lfn filename e chk ! 0 =
     (if fatfs_lfn_entries_required filename = e + 1 then 0x40 OR word_of_nat (e + 1) else word_of_nat (e + 1))"
  "length (fatfs_filename_to_lfn filename e chk) = 32"
  using fold_put[of 13, OF le_refl]
  by (simp_all add: fatfs_filename_to_lfn_def Let_def MAX_LFN_ENTRY_LENGTH_def FAT_DIR_ENTRY_SIZE_def
      del: upt_rec_numeral)

text \<open>The number of an entry is read back from its first byte.\<close>

lemma entry_number:
  assumes "n \<le> 20"
  shows "unat ((0x40 OR word_of_nat n :: u8) AND 0x1F) = n" "unat ((word_of_nat n :: u8) AND 0x1F) = n"
proof -
  have "\<forall>n \<in> set [0..<21]. unat ((0x40 OR word_of_nat n :: u8) AND 0x1F) = n \<and> unat ((word_of_nat n :: u8) AND 0x1F) = n"
    by (simp add: upt_rec)
  then show "unat ((0x40 OR word_of_nat n :: u8) AND 0x1F) = n" "unat ((word_of_nat n :: u8) AND 0x1F) = n"
    using assms by (simp_all del: upt_rec_numeral)
qed

text \<open>One entry fills its row of the cache.\<close>

definition shown_char :: "u8 list \<Rightarrow> nat \<Rightarrow> u8" where
  "shown_char filename j = (if j < length filename then filename ! j else if j = length filename then 0 else 0x20)"

definition lfn_row :: "u8 list \<Rightarrow> nat \<Rightarrow> u8 list" where
  "lfn_row filename e = map (\<lambda>k. shown_char filename (e * 13 + k)) [0..<13]"

lemma entry_chars_row:
  assumes "0xFF \<notin> set filename"
  shows "map (\<lambda>c. if c = 0xFF then 0x20 else c)
      (map (\<lambda>k. fatfs_filename_to_lfn filename e chk ! k) nameIndexes) = lfn_row filename e"
proof (rule nth_equalityI)
  fix i assume "i < length (map (\<lambda>c. if c = 0xFF then 0x20 else c)
      (map (\<lambda>k. fatfs_filename_to_lfn filename e chk ! k) nameIndexes))"
  then have i: "i < 13" by (simp add: nameIndexes_places(1))
  have "filename ! (e * 13 + i) \<noteq> 0xFF" if "e * 13 + i < length filename"
    using that assms by (metis nth_mem)
  then show "map (\<lambda>c. if c = 0xFF then 0x20 else c)
      (map (\<lambda>k. fatfs_filename_to_lfn filename e chk ! k) nameIndexes) ! i = lfn_row filename e ! i"
    using i lfn_entry_chars(1)[OF i, of filename e chk]
    by (auto simp: lfn_row_def shown_char_def lfn_char_def nameIndexes_places(1) simp del: upt_rec_numeral)
qed (simp add: lfn_row_def nameIndexes_places(1) del: upt_rec_numeral)

lemma cache_one_entry:
  assumes "e < 20" "0xFF \<notin> set filename" "lfn_no_of_strings lfn = n \<or> lfn_no_of_strings lfn = 0 \<and> n = e + 1" "n \<noteq> 0"
  shows "fatfs_lfn_cache_entry lfn (fatfs_filename_to_lfn filename e chk) =
    lfn\<lparr>lfn_no_of_strings := n, lfn_String := (lfn_String lfn)[e := lfn_row filename e]\<rparr>"
proof -
  have "unat (fatfs_filename_to_lfn filename e chk ! 0 AND 0x1F) = e + 1"
    using entry_number[of "e + 1"] assms(1) unfolding lfn_entry_chars(2) by (simp split: if_split)
  then show ?thesis
    using assms entry_chars_row[OF assms(2), of e chk]
    by (cases lfn) (auto simp: fatfs_lfn_cache_entry_def Let_def MAX_LONGFILENAME_ENTRIES_def)
qed

lemma cache_entries:
  "0 < m \<Longrightarrow> m \<le> 20 \<Longrightarrow> 0xFF \<notin> set filename \<Longrightarrow> length (lfn_String lfn) = 20 \<Longrightarrow> n \<noteq> 0 \<Longrightarrow>
   lfn_no_of_strings lfn = n \<or> lfn_no_of_strings lfn = 0 \<and> n = m \<Longrightarrow>
   foldl fatfs_lfn_cache_entry lfn (map (\<lambda>e. fatfs_filename_to_lfn filename e chk) (rev [0..<m])) =
   lfn\<lparr>lfn_no_of_strings := n, lfn_String := map (lfn_row filename) [0..<m] @ drop m (lfn_String lfn)\<rparr>"
proof (induction m arbitrary: lfn)
  case (Suc m)
  let ?l = "lfn\<lparr>lfn_no_of_strings := n, lfn_String := (lfn_String lfn)[m := lfn_row filename m]\<rparr>"
  have one: "fatfs_lfn_cache_entry lfn (fatfs_filename_to_lfn filename m chk) = ?l"
    by (rule cache_one_entry) (use Suc.prems in auto)
  have row: "drop m ((lfn_String lfn)[m := lfn_row filename m]) = lfn_row filename m # drop (Suc m) (lfn_String lfn)"
    using Suc.prems by (simp add: drop_update_swap Cons_nth_drop_Suc [of m "lfn_String lfn", symmetric])
  show ?case
  proof (cases "m = 0")
    case True
    then show ?thesis using one row by simp
  next
    case False
    then have "foldl fatfs_lfn_cache_entry ?l (map (\<lambda>e. fatfs_filename_to_lfn filename e chk) (rev [0..<m])) =
        ?l\<lparr>lfn_no_of_strings := n, lfn_String := map (lfn_row filename) [0..<m] @ drop m (lfn_String ?l)\<rparr>"
      by (intro Suc.IH) (use Suc.prems in auto)
    then show ?thesis using one row by simp
  qed
qed simp

lemma concat_rows: "concat (map (lfn_row filename) [0..<n]) = map (shown_char filename) [0..<13 * n]"
proof (induction n)
  case (Suc n)
  have "[0..<13 * Suc n] = [0..<13 * n] @ [13 * n..<13 * n + 13]"
    using upt_add_eq_append[of 0 "13 * n" 13] by (simp add: add.commute)
  moreover have "lfn_row filename n = map (shown_char filename) [13 * n..<13 * n + 13]"
    by (rule nth_equalityI) (simp_all add: lfn_row_def mult.commute del: upt_rec_numeral)
  ultimately show ?case using Suc by simp
qed simp

lemma shown_chars:
  assumes "length filename \<le> 13 * n"
  obtains rest where "map (shown_char filename) [0..<13 * n] = filename @ rest"
    "rest = [] \<and> length filename = 13 * n \<or> (\<exists>r. rest = 0 # r)"
proof
  have "map (shown_char filename) [0..<13 * n] =
      map (shown_char filename) [0..<length filename] @ map (shown_char filename) [length filename..<13 * n]"
    using upt_add_eq_append[of 0 "length filename" "13 * n - length filename"] assms
    by (simp flip: map_append del: upt_rec_numeral)
  moreover have "map (shown_char filename) [0..<length filename] = filename"
    by (rule nth_equalityI) (simp_all add: shown_char_def)
  ultimately show "map (shown_char filename) [0..<13 * n] = filename @ map (shown_char filename) [length filename..<13 * n]"
    by simp
  show "map (shown_char filename) [length filename..<13 * n] = [] \<and> length filename = 13 * n \<or>
      (\<exists>r. map (shown_char filename) [length filename..<13 * n] = 0 # r)"
  proof (cases "length filename = 13 * n")
    case False
    then have "[length filename..<13 * n] = length filename # [Suc (length filename)..<13 * n]"
      using assms by (simp add: upt_conv_Cons)
    then show ?thesis by (simp add: shown_char_def)
  qed simp
qed

lemma takeWhile_string: "c_string s \<Longrightarrow> takeWhile (\<lambda>c. c \<noteq> 0) (s @ 0 # r) = s"
  by (induction s) (auto simp: c_string_def)

text \<open>The entries of a long name, last part first as they lie on the disk, are collected to the name.\<close>

lemma lfn_collected:
  assumes name: "c_string filename" "0xFF \<notin> set filename" "0 < length filename" "length filename \<le> 260"
    and lfn: "lfn_no_of_strings lfn = 0" "length (lfn_String lfn) = 20" "\<forall>r \<in> set (lfn_String lfn). length r = 13"
  shows "fst (fatfs_lfn_cache_get (foldl fatfs_lfn_cache_entry lfn
     (map (\<lambda>e. fatfs_filename_to_lfn filename e chk) (rev [0..<fatfs_lfn_entries_required filename])))) = filename"
proof -
  define n where "n = fatfs_lfn_entries_required filename"
  have n: "0 < n" "n \<le> 20" "length filename \<le> 13 * n"
    using name(3,4)
    by (auto simp: n_def fatfs_lfn_entries_required_def MAX_LFN_ENTRY_LENGTH_def div_greater_zero_iff Suc_le_eq)
  let ?l = "lfn\<lparr>lfn_no_of_strings := n, lfn_String := map (lfn_row filename) [0..<n] @ drop n (lfn_String lfn)\<rparr>"
  have fed: "foldl fatfs_lfn_cache_entry lfn (map (\<lambda>e. fatfs_filename_to_lfn filename e chk) (rev [0..<n])) = ?l"
    by (rule cache_entries[OF n(1,2) name(2) lfn(2)]) (use n(1) lfn(1) in blast)+
  obtain rest where rest: "map (shown_char filename) [0..<13 * n] = filename @ rest"
    "rest = [] \<and> length filename = 13 * n \<or> (\<exists>r. rest = 0 # r)"
    using shown_chars[OF n(3)] by blast
  have "\<exists>t. concat (lfn_String (lfn_terminate ?l)) @ [lfn_Null (lfn_terminate ?l)] = map (shown_char filename) [0..<13 * n] @ 0 # t"
  proof (cases "n = 20")
    case True
    then show ?thesis using concat_rows[of filename n] lfn(2)
      by (simp add: lfn_terminate_def MAX_LONGFILENAME_ENTRIES_def del: upt_rec_numeral)
  next
    case False
    then have "n < 20" using n(2) by simp
    then obtain x xs ys where d: "drop n (lfn_String lfn) = (x # xs) # ys"
      using lfn(2,3) by (metis Cons_nth_drop_Suc length_0_conv list.exhaust nth_mem zero_neq_numeral)
    then show ?thesis using False n(1) concat_rows[of filename n]
      by (simp add: lfn_terminate_def MAX_LONGFILENAME_ENTRIES_def nth_append list_update_append)
  qed
  then obtain t where "concat (lfn_String (lfn_terminate ?l)) @ [lfn_Null (lfn_terminate ?l)] = filename @ rest @ 0 # t"
    using rest(1) by auto
  then have "takeWhile (\<lambda>c. c \<noteq> 0) (concat (lfn_String (lfn_terminate ?l)) @ [lfn_Null (lfn_terminate ?l)]) = filename"
    using rest(2) takeWhile_string[OF name(1)] by auto
  then show ?thesis using fed unfolding n_def fatfs_lfn_cache_get_def Let_def by simp
qed

end
