(* ===== verification/FatAccess.thy ===== *)
theory FatAccess
  imports FatTable FatMisc
begin

text \<open>
  Volumes, sectors and directories of the FAT library (\<open>fat_access.c\<close>): reading the
  parameters of a volume, addressing and transferring its sectors, and searching, listing
  and changing the entries of a directory.
\<close>

section \<open>Reading the parameters of a volume\<close>

definition FAT_INIT_OK :: int where "FAT_INIT_OK = 0"
definition FAT_INIT_MEDIA_ACCESS_ERROR :: int where "FAT_INIT_MEDIA_ACCESS_ERROR = - 1"
definition FAT_INIT_INVALID_SECTOR_SIZE :: int where "FAT_INIT_INVALID_SECTOR_SIZE = - 2"
definition FAT_INIT_INVALID_SIGNATURE :: int where "FAT_INIT_INVALID_SIGNATURE = - 3"
definition FAT_INIT_ENDIAN_ERROR :: int where "FAT_INIT_ENDIAN_ERROR = - 4"
definition FAT_INIT_WRONG_FILESYS_TYPE :: int where "FAT_INIT_WRONG_FILESYS_TYPE = - 5"

definition set_current :: "fatfs \<Rightarrow> u8 list \<Rightarrow> fatfs" where
  "set_current fs b = fs\<lparr>fs_currentsector := (fs_currentsector fs)\<lparr>fb_sector := b\<rparr>\<rparr>"

text \<open>The partition type codes that say where the volume begins.\<close>

definition valid_partition :: "u8 \<Rightarrow> bool" where
  "valid_partition t \<longleftrightarrow> (if t \<in> {0x0B, 0x06, 0x0C, 0x0E, 0x0F, 0x05} then True
     else if t = 0 then False else t \<le> 0x06)"

text \<open>The fields read from the first sector of the volume.\<close>

definition load_parameters :: "fatfs \<Rightarrow> u8 list \<Rightarrow> fatfs" where
  "load_parameters fs b =
     (let reserved_sectors = GET_16BIT_WORD b 14;
          num_of_fats = ucast (b ! 16) :: u32;
          fat_sectors = (if GET_16BIT_WORD b 22 \<noteq> 0 then GET_16BIT_WORD b 22 else GET_32BIT_WORD b 36);
          fat_begin_lba = fs_lba_begin fs + reserved_sectors
      in fs\<lparr>fs_sectors_per_cluster := b ! 13,
            fs_root_entry_count := ucast (GET_16BIT_WORD b 17),
            fs_fat_sectors := fat_sectors,
            fs_rootdir_first_cluster := GET_32BIT_WORD b 44,
            fs_info_sector := ucast (GET_16BIT_WORD b 48),
            fs_rootdir_first_sector := reserved_sectors + num_of_fats * fat_sectors,
            fs_rootdir_sectors := (GET_16BIT_WORD b 17 * 32 + 511) div 512,
            fs_fat_begin_lba := fat_begin_lba,
            fs_cluster_begin_lba := fat_begin_lba + num_of_fats * fat_sectors\<rparr>)"

definition count_of_clusters :: "u8 list \<Rightarrow> u32" where
  "count_of_clusters b =
     (let root_dir_sectors = (GET_16BIT_WORD b 17 * 32 + (GET_16BIT_WORD b 11 - 1)) div GET_16BIT_WORD b 11;
          FATSz = (if GET_16BIT_WORD b 22 \<noteq> 0 then GET_16BIT_WORD b 22 else GET_32BIT_WORD b 36);
          total_sectors = (if GET_16BIT_WORD b 19 \<noteq> 0 then GET_16BIT_WORD b 19 else GET_32BIT_WORD b 32);
          data_sectors = total_sectors - (GET_16BIT_WORD b 14 + ucast (b ! 16) * FATSz + root_dir_sectors)
      in data_sectors div ucast (b ! 13))"

definition fatfs_init :: "fatfs \<Rightarrow> fault + int \<times> fatfs" where
  "fatfs_init fs =
     (let fs = fatfs_fat_init (fs\<lparr>fs_currentsector := (fs_currentsector fs)\<lparr>
                 fb_address := FAT32_INVALID_CLUSTER, fb_dirty := False\<rparr>, fs_next_free_cluster := 0\<rparr>) in
      if \<not> md_can_read (fs_disk_io fs) then Inr (FAT_INIT_MEDIA_ACCESS_ERROR, fs)
      else andThen (media_read (fs_disk_io fs) 0 1) (\<lambda>r. case r of
          None \<Rightarrow> Inr (FAT_INIT_MEDIA_ACCESS_ERROR, fs)
        | Some b \<Rightarrow>
            let fs = set_current fs b in
            if b ! 510 \<noteq> 0x55 \<or> b ! 511 \<noteq> 0xAA then Inr (FAT_INIT_INVALID_SIGNATURE, fs)
            else if GET_16BIT_WORD b 510 \<noteq> 0xAA55 then Inr (FAT_INIT_ENDIAN_ERROR, fs)
            else
              let fs = fs\<lparr>fs_lba_begin := (if valid_partition (b ! 450) then GET_32BIT_WORD b 454 else 0)\<rparr> in
              andThen (media_read (fs_disk_io fs) (fs_lba_begin fs) 1) (\<lambda>r. case r of
                  None \<Rightarrow> Inr (FAT_INIT_MEDIA_ACCESS_ERROR, fs)
                | Some b \<Rightarrow>
                    let fs = set_current fs b in
                    if GET_16BIT_WORD b 11 \<noteq> 512 then Inr (FAT_INIT_INVALID_SECTOR_SIZE, fs)
                    else
                      let fs = load_parameters fs b in
                      if GET_16BIT_WORD b 510 \<noteq> 0xAA55 then Inr (FAT_INIT_INVALID_SIGNATURE, fs)
                      else if fs_sectors_per_cluster fs = 0 then Inr (FAT_INIT_WRONG_FILESYS_TYPE, fs)
                      else if count_of_clusters b < 4085 then Inr (FAT_INIT_WRONG_FILESYS_TYPE, fs)
                      else if count_of_clusters b < 65525
                      then Inr (FAT_INIT_OK, fs\<lparr>fs_rootdir_first_cluster := 0, fs_fat_type := FAT_TYPE_16\<rparr>)
                      else Inr (FAT_INIT_OK, fs\<lparr>fs_fat_type := FAT_TYPE_32\<rparr>))))"

definition fatfs_get_root_cluster :: "fatfs \<Rightarrow> u32" where
  "fatfs_get_root_cluster fs = fs_rootdir_first_cluster fs"

section \<open>Sectors\<close>

definition fatfs_lba_of_cluster :: "fatfs \<Rightarrow> u32 \<Rightarrow> u32" where
  "fatfs_lba_of_cluster fs Cluster_Number = (case fs_fat_type fs of
      FAT_TYPE_16 \<Rightarrow> fs_cluster_begin_lba fs + ucast (fs_root_entry_count fs) * 32 div 512
                     + (Cluster_Number - 2) * ucast (fs_sectors_per_cluster fs)
    | FAT_TYPE_32 \<Rightarrow> fs_cluster_begin_lba fs + (Cluster_Number - 2) * ucast (fs_sectors_per_cluster fs))"

definition fatfs_sector_read :: "fatfs \<Rightarrow> u32 \<Rightarrow> nat \<Rightarrow> fault + u8 list option" where
  "fatfs_sector_read fs lba count = media_read (fs_disk_io fs) lba count"

definition fatfs_sector_write :: "fatfs \<Rightarrow> u32 \<Rightarrow> u8 list \<Rightarrow> nat \<Rightarrow> fault + bool \<times> fatfs" where
  "fatfs_sector_write fs lba target count =
     andThen (media_write (fs_disk_io fs) lba target count) (\<lambda>r. case r of
        None \<Rightarrow> Inr (False, fs) | Some m \<Rightarrow> Inr (True, fs\<lparr>fs_disk_io := m\<rparr>))"

text \<open>
  A read into the sector buffer of the volume sets its address before it reads, so a read
  that fails leaves the address of the new sector with the bytes of the old one.
\<close>

definition read_current :: "fatfs \<Rightarrow> u32 \<Rightarrow> fault + bool \<times> fatfs" where
  "read_current fs lba =
     (let fs = fs\<lparr>fs_currentsector := (fs_currentsector fs)\<lparr>fb_address := lba\<rparr>\<rparr> in
      andThen (media_read (fs_disk_io fs) lba 1) (\<lambda>r. case r of
        None \<Rightarrow> Inr (False, fs) | Some b \<Rightarrow> Inr (True, set_current fs b)))"

definition write_current :: "fatfs \<Rightarrow> fault + bool \<times> fatfs" where
  "write_current fs = fatfs_sector_write fs (fb_address (fs_currentsector fs)) (fb_sector (fs_currentsector fs)) 1"

text \<open>\<open>follow\<close>: as many links as asked for, an end of the chain in between included.\<close>

primrec follow :: "fatfs \<Rightarrow> u32 \<Rightarrow> nat \<Rightarrow> fault + u32 \<times> fatfs" where
  "follow fs cluster_chain 0 = Inr (cluster_chain, fs)"
| "follow fs cluster_chain (Suc n) =
     andThen (fatfs_find_next_cluster fs cluster_chain) (\<lambda>(next, fs). follow fs next n)"

text \<open>The address of a sector of a directory or file; \<^const>\<open>None\<close> is past its end.\<close>

definition reader_lba :: "fatfs \<Rightarrow> u32 \<Rightarrow> u32 \<Rightarrow> fault + u32 option \<times> fatfs" where
  "reader_lba fs start_cluster offset =
     (if fs_fat_type fs = FAT_TYPE_16 \<and> start_cluster = 0 then
        Inr (if offset < fs_rootdir_sectors fs
             then Some (fs_lba_begin fs + fs_rootdir_first_sector fs + offset) else None, fs)
      else if fs_sectors_per_cluster fs = 0 then Inl Undef
      else
        let spc = ucast (fs_sectors_per_cluster fs);
            cluster_to_read = offset div spc;
            sector_to_read = offset - cluster_to_read * spc
        in andThen (follow fs start_cluster (unat cluster_to_read)) (\<lambda>(cluster_chain, fs).
             Inr (if cluster_chain = FAT32_LAST_CLUSTER then None
                  else Some (fatfs_lba_of_cluster fs cluster_chain + sector_to_read), fs)))"

text \<open>The read into the buffer of the volume (no \<open>target\<close>), as all callers ask for.\<close>

definition fatfs_sector_reader :: "fatfs \<Rightarrow> u32 \<Rightarrow> u32 \<Rightarrow> fault + bool \<times> fatfs" where
  "fatfs_sector_reader fs start_cluster offset =
     andThen (reader_lba fs start_cluster offset) (\<lambda>(lba, fs). case lba of
        None \<Rightarrow> Inr (False, fs)
      | Some lba \<Rightarrow>
          if lba \<noteq> fb_address (fs_currentsector fs) then read_current fs lba else Inr (True, fs))"

text \<open>The address of a sector of a cluster; \<^const>\<open>None\<close> is past the FAT16 root directory.\<close>

definition sector_lba :: "fatfs \<Rightarrow> u32 \<Rightarrow> u32 \<Rightarrow> u32 option" where
  "sector_lba fs cluster sector =
     (if fs_fat_type fs = FAT_TYPE_16 \<and> cluster = 0 then
        if sector < fs_rootdir_sectors fs
        then Some (fs_lba_begin fs + fs_rootdir_first_sector fs + sector) else None
      else Some (fatfs_lba_of_cluster fs cluster + sector))"

text \<open>With a buffer of the caller (\<open>target\<close>) and with the buffer of the volume.\<close>

definition fatfs_read_sector_to :: "fatfs \<Rightarrow> u32 \<Rightarrow> u32 \<Rightarrow> fault + u8 list option" where
  "fatfs_read_sector_to fs cluster sector = (case sector_lba fs cluster sector of
      None \<Rightarrow> Inr None | Some lba \<Rightarrow> media_read (fs_disk_io fs) lba 1)"

definition fatfs_read_sector :: "fatfs \<Rightarrow> u32 \<Rightarrow> u32 \<Rightarrow> fault + bool \<times> fatfs" where
  "fatfs_read_sector fs cluster sector = (case sector_lba fs cluster sector of
      None \<Rightarrow> Inr (False, fs) | Some lba \<Rightarrow> read_current fs lba)"

definition fatfs_write_sector :: "fatfs \<Rightarrow> u32 \<Rightarrow> u32 \<Rightarrow> u8 list option \<Rightarrow> fault + bool \<times> fatfs" where
  "fatfs_write_sector fs cluster sector target =
     (if \<not> md_can_write (fs_disk_io fs) then Inr (False, fs)
      else case sector_lba fs cluster sector of
        None \<Rightarrow> Inr (False, fs)
      | Some lba \<Rightarrow> (case target of
          Some b \<Rightarrow> fatfs_sector_write fs lba b 1
        | None \<Rightarrow> write_current (fs\<lparr>fs_currentsector := (fs_currentsector fs)\<lparr>fb_address := lba\<rparr>\<rparr>)))"

section \<open>Directories\<close>

definition FAT_DIR_ENTRIES_PER_SECTOR :: nat where "FAT_DIR_ENTRIES_PER_SECTOR = 16"

text \<open>The 16 entries of a sector.\<close>

definition sector_entries :: "u8 list \<Rightarrow> u8 list list" where
  "sector_entries b = map (\<lambda>item. slice_of (FAT_DIR_ENTRY_SIZE * item) FAT_DIR_ENTRY_SIZE b)
     [0..<FAT_DIR_ENTRIES_PER_SECTOR]"

text \<open>
  The loop over the sectors of a directory from the \<open>x\<close>-th on: \<open>body\<close> looks at the sector in
  the buffer of the volume and either ends the loop with a result or goes on with a changed
  state. A directory has at most as many sectors as the table has entries for clusters, or
  as the fixed root directory has; a directory whose chain runs in circles is read on and on.
\<close>

definition dir_fuel :: "fatfs \<Rightarrow> nat" where
  "dir_fuel fs = Suc (fat_entries fs * unat (fs_sectors_per_cluster fs) + unat (fs_rootdir_sectors fs))"

primrec dir_loop :: "nat \<Rightarrow> (fatfs \<Rightarrow> 'a \<Rightarrow> fault + ('r option \<times> 'a \<times> fatfs)) \<Rightarrow>
    fatfs \<Rightarrow> u32 \<Rightarrow> u32 \<Rightarrow> 'a \<Rightarrow> fault + 'r option \<times> fatfs" where
  "dir_loop 0 body fs Cluster x st = Inl OutOfFuel"
| "dir_loop (Suc fuel) body fs Cluster x st =
     andThen (fatfs_sector_reader fs Cluster x) (\<lambda>(ok, fs).
       if ok then andThen (body fs st) (\<lambda>(r, st, fs).
         case r of Some r \<Rightarrow> Inr (Some r, fs) | None \<Rightarrow> dir_loop fuel body fs Cluster (x + 1) st)
       else Inr (None, fs))"

text \<open>
  The short name as a string: the eight characters of the name, a dot or a space, the three
  of the extension.
\<close>

definition short_filename :: "fat_dir_entry \<Rightarrow> u8 list" where
  "short_filename e =
     (let name = take 8 (de_Name e); ext = take 3 (drop 8 (de_Name e));
          dotRequired = (\<exists>c \<in> set ext. c \<noteq> ch_space);
          sep = (if dotRequired then (if name ! 0 \<noteq> ch_dot then ch_dot else ch_space) else ch_space)
      in takeWhile (\<lambda>c. c \<noteq> 0) (name @ [sep] @ ext))"

text \<open>One entry: found, or the collected long name it leaves.\<close>

definition entry_step :: "u8 list \<Rightarrow> u8 list \<Rightarrow> lfn_cache \<Rightarrow> fat_dir_entry option \<times> lfn_cache" where
  "entry_step name_to_find b lfn =
     (let e = decode_dir_entry b in
      if fatfs_entry_lfn_text e then (None, fatfs_lfn_cache_entry lfn b)
      else if fatfs_entry_lfn_invalid e then (None, fatfs_lfn_cache_init lfn False)
      else if fatfs_entry_lfn_exists lfn e then
        (let (long_filename, lfn) = fatfs_lfn_cache_get lfn in
         if fatfs_compare_names long_filename name_to_find then (Some e, lfn)
         else (None, fatfs_lfn_cache_init lfn False))
      else if fatfs_entry_sfn_only e then
        (if fatfs_compare_names (short_filename e) name_to_find then (Some e, lfn)
         else (None, fatfs_lfn_cache_init lfn False))
      else (None, lfn))"

primrec entry_scan :: "u8 list \<Rightarrow> u8 list list \<Rightarrow> lfn_cache \<Rightarrow> fat_dir_entry option \<times> lfn_cache" where
  "entry_scan name_to_find [] lfn = (None, lfn)"
| "entry_scan name_to_find (b # bs) lfn =
     (case entry_step name_to_find b lfn of
        (Some e, lfn) \<Rightarrow> (Some e, lfn) | (None, lfn) \<Rightarrow> entry_scan name_to_find bs lfn)"

text \<open>The cache starts wiped; its \<open>Null\<close> is set before it is read.\<close>

definition empty_lfn :: lfn_cache where
  "empty_lfn = \<lparr>lfn_String = replicate MAX_LONGFILENAME_ENTRIES (replicate MAX_LFN_ENTRY_LENGTH 0),
     lfn_Null = 0, lfn_no_of_strings = 0\<rparr>"

definition fatfs_get_file_entry :: "fatfs \<Rightarrow> u32 \<Rightarrow> u8 list \<Rightarrow> fault + fat_dir_entry option \<times> fatfs" where
  "fatfs_get_file_entry fs Cluster name_to_find =
     dir_loop (dir_fuel fs)
       (\<lambda>fs lfn. let (r, lfn) = entry_scan name_to_find (sector_entries (fb_sector (fs_currentsector fs))) lfn
                 in Inr (r, lfn, fs))
       fs Cluster 0 empty_lfn"

text \<open>\<open>strncmp(a, b, n) == 0\<close>\<close>

fun strncmp_eq :: "u8 list \<Rightarrow> u8 list \<Rightarrow> nat \<Rightarrow> bool" where
  "strncmp_eq a b 0 = True"
| "strncmp_eq a b (Suc n) =
     (if char_at a 0 \<noteq> char_at b 0 then False
      else if char_at a 0 = 0 then True else strncmp_eq (drop 1 a) (drop 1 b) n)"

text \<open>The position of the first entry of a sector with a short name.\<close>

definition sfn_matches :: "u8 list \<Rightarrow> u8 list \<Rightarrow> bool" where
  "sfn_matches shortname b =
     (let e = decode_dir_entry b in
      \<not> fatfs_entry_lfn_text e \<and> \<not> fatfs_entry_lfn_invalid e \<and> fatfs_entry_sfn_only e \<and>
      strncmp_eq (de_Name e) shortname 11)"

fun find_sfn :: "u8 list \<Rightarrow> u8 list list \<Rightarrow> nat option" where
  "find_sfn shortname [] = None"
| "find_sfn shortname (b # bs) =
     (if sfn_matches shortname b then Some 0 else map_option Suc (find_sfn shortname bs))"

definition fatfs_sfn_exists :: "fatfs \<Rightarrow> u32 \<Rightarrow> u8 list \<Rightarrow> fault + bool \<times> fatfs" where
  "fatfs_sfn_exists fs Cluster shortname =
     andThen (dir_loop (dir_fuel fs)
       (\<lambda>fs (_ :: unit). Inr (map_option (\<lambda>_. ()) (find_sfn shortname (sector_entries (fb_sector (fs_currentsector fs)))), (), fs))
       fs Cluster 0 ()) (\<lambda>(r, fs). Inr (r \<noteq> None, fs))"

text \<open>Changing the first entry with a short name, and writing its sector back.\<close>

definition change_entry :: "fatfs \<Rightarrow> u32 \<Rightarrow> u8 list \<Rightarrow> (u8 list \<Rightarrow> u8 list) \<Rightarrow> fault + bool \<times> fatfs" where
  "change_entry fs Cluster shortname change =
     (if \<not> md_can_write (fs_disk_io fs) then Inr (False, fs)
      else andThen (dir_loop (dir_fuel fs)
        (\<lambda>fs (_ :: unit).
           let b = fb_sector (fs_currentsector fs) in
           case find_sfn shortname (sector_entries b) of
             None \<Rightarrow> Inr (None, (), fs)
           | Some item \<Rightarrow>
               andThen (write_current (set_current fs (overlay (FAT_DIR_ENTRY_SIZE * item)
                   (change (slice_of (FAT_DIR_ENTRY_SIZE * item) FAT_DIR_ENTRY_SIZE b)) b)))
                 (\<lambda>(ok, fs). Inr (Some ok, (), fs)))
        fs Cluster 0 ()) (\<lambda>(r, fs). Inr (case r of Some ok \<Rightarrow> ok | None \<Rightarrow> False, fs)))"

definition fatfs_update_file_length :: "fatfs \<Rightarrow> u32 \<Rightarrow> u8 list \<Rightarrow> u32 \<Rightarrow> fault + bool \<times> fatfs" where
  "fatfs_update_file_length fs Cluster shortname fileLength =
     change_entry fs Cluster shortname (overlay 28 (cpu_to_le32 fileLength))"

definition fatfs_mark_file_deleted :: "fatfs \<Rightarrow> u32 \<Rightarrow> u8 list \<Rightarrow> fault + bool \<times> fatfs" where
  "fatfs_mark_file_deleted fs Cluster shortname =
     change_entry fs Cluster shortname (\<lambda>b. b[0 := FILE_HEADER_DELETED])"

section \<open>Listing a directory\<close>

record fs_dir_list_status =
  dl_sector :: u32
  dl_cluster :: u32
  dl_offset :: nat

record fs_dir_ent =
  den_filename :: "u8 list"
  den_is_dir :: bool
  den_cluster :: u32
  den_size :: u32

definition fatfs_list_directory_start :: "u32 \<Rightarrow> fs_dir_list_status" where
  "fatfs_list_directory_start StartCluster = \<lparr>dl_sector = 0, dl_cluster = StartCluster, dl_offset = 0\<rparr>"

definition dir_ent :: "u8 list \<Rightarrow> fat_dir_entry \<Rightarrow> fs_dir_ent" where
  "dir_ent filename e = \<lparr>den_filename = filename, den_is_dir = fatfs_entry_is_dir e,
     den_cluster = entry_cluster e, den_size = de_FileSize e\<rparr>"

text \<open>
  The entries of a sector from the \<open>item\<close>-th on. \<open>strcpy_s\<close> ends the program when the name and
  its terminator do not fit into 259 bytes.
\<close>

primrec list_scan :: "nat \<Rightarrow> u8 list list \<Rightarrow> lfn_cache \<Rightarrow> fault + (nat \<times> fs_dir_ent) option \<times> lfn_cache" where
  "list_scan item [] lfn = Inr (None, lfn)"
| "list_scan item (b # bs) lfn =
     (let e = decode_dir_entry b in
      if fatfs_entry_lfn_text e then list_scan (Suc item) bs (fatfs_lfn_cache_entry lfn b)
      else if fatfs_entry_lfn_invalid e then list_scan (Suc item) bs (fatfs_lfn_cache_init lfn False)
      else if fatfs_entry_lfn_exists lfn e then
        (let (long_filename, lfn) = fatfs_lfn_cache_get lfn in
         if 259 \<le> length long_filename then Inl Abort
         else Inr (Some (item, dir_ent long_filename e), lfn))
      else if fatfs_entry_sfn_only e then
        Inr (Some (item, dir_ent (fatfs_get_sfn_display_name (short_filename e)) e), fatfs_lfn_cache_init lfn False)
      else list_scan (Suc item) bs lfn)"

primrec list_loop :: "nat \<Rightarrow> fatfs \<Rightarrow> fs_dir_list_status \<Rightarrow> lfn_cache \<Rightarrow>
    fault + fs_dir_ent option \<times> fs_dir_list_status \<times> fatfs" where
  "list_loop 0 fs dirls lfn = Inl OutOfFuel"
| "list_loop (Suc fuel) fs dirls lfn =
     andThen (fatfs_sector_reader fs (dl_cluster dirls) (dl_sector dirls)) (\<lambda>(ok, fs).
       if ok then
         andThen (list_scan (dl_offset dirls)
             (drop (dl_offset dirls) (sector_entries (fb_sector (fs_currentsector fs)))) lfn) (\<lambda>(r, lfn).
           case r of
             Some (item, entry) \<Rightarrow> Inr (Some entry, dirls\<lparr>dl_offset := item + 1\<rparr>, fs)
           | None \<Rightarrow> list_loop fuel fs (dirls\<lparr>dl_sector := dl_sector dirls + 1, dl_offset := 0\<rparr>) lfn)
       else Inr (None, dirls, fs))"

text \<open>The cache on the stack is not wiped: \<open>junk\<close> is what it holds.\<close>

definition fatfs_list_directory_next :: "lfn_cache \<Rightarrow> fatfs \<Rightarrow> fs_dir_list_status \<Rightarrow>
    fault + fs_dir_ent option \<times> fs_dir_list_status \<times> fatfs" where
  "fatfs_list_directory_next junk fs dirls =
     list_loop (dir_fuel fs) fs dirls (fatfs_lfn_cache_init junk False)"

end
