(* ===== verification/FatWrite.thy ===== *)
theory FatWrite
  imports FatAccess
begin

text \<open>
  Adding clusters to files and entries to directories of a FAT volume (\<open>fat_write.c\<close>).
\<close>

section \<open>Clusters\<close>

definition forget_free_hint :: "fatfs \<Rightarrow> fault + fatfs" where
  "forget_free_hint fs =
     (if fs_next_free_cluster fs \<noteq> FAT32_LAST_CLUSTER
      then fatfs_set_fs_info_next_free_cluster fs FAT32_LAST_CLUSTER else Inr fs)"

text \<open>
  \<open>k\<close> more clusters after \<open>start\<close>; \<open>first\<close> is the cluster the caller's argument ends up with,
  which is the first one found.
\<close>

primrec add_loop :: "nat \<Rightarrow> fatfs \<Rightarrow> u32 \<Rightarrow> bool \<Rightarrow> u32 \<Rightarrow> fault + bool \<times> u32 \<times> fatfs" where
  "add_loop 0 fs start i_zero first = Inr (True, first, fs)"
| "add_loop (Suc k) fs start i_zero first =
     andThen (fatfs_find_blank_cluster fs (fs_rootdir_first_cluster fs)) (\<lambda>(r, fs). case r of
        None \<Rightarrow> Inr (False, first, fs)
      | Some nextcluster \<Rightarrow>
          andThen (fatfs_fat_set_cluster fs start nextcluster) (\<lambda>(_, fs).
          andThen (fatfs_fat_set_cluster fs nextcluster FAT32_LAST_CLUSTER) (\<lambda>(_, fs).
            add_loop k fs nextcluster False (if i_zero then nextcluster else first))))"

definition fatfs_add_free_space :: "fatfs \<Rightarrow> u32 \<Rightarrow> u32 \<Rightarrow> fault + bool \<times> u32 \<times> fatfs" where
  "fatfs_add_free_space fs startCluster clusters =
     andThen (forget_free_hint fs) (\<lambda>fs. add_loop (unat clusters) fs startCluster True startCluster)"

text \<open>The start cluster is handed back in one case only.\<close>

definition fatfs_allocate_free_space :: "fatfs \<Rightarrow> bool \<Rightarrow> u32 \<Rightarrow> u32 \<Rightarrow> fault + bool \<times> u32 \<times> fatfs" where
  "fatfs_allocate_free_space fs newFile startCluster fsize =
     (if fsize = 0 then Inr (False, startCluster, fs)
      else andThen (forget_free_hint fs) (\<lambda>fs.
        let clusterSize = ucast (fs_sectors_per_cluster fs) * 512 :: u32 in
        if clusterSize = 0 then Inl Undef
        else
          let clusterCount = fsize div clusterSize;
              clusterCount = (if fsize - clusterSize * clusterCount \<noteq> 0 then clusterCount + 1 else clusterCount)
          in if newFile then
               andThen (fatfs_find_blank_cluster fs (fs_rootdir_first_cluster fs)) (\<lambda>(r, fs). case r of
                   None \<Rightarrow> Inr (False, startCluster, fs)
                 | Some nextcluster \<Rightarrow>
                     if clusterCount = 1 then
                       andThen (fatfs_fat_set_cluster fs nextcluster FAT32_LAST_CLUSTER) (\<lambda>(_, fs).
                         Inr (True, nextcluster, fs))
                     else
                       andThen (fatfs_add_free_space fs nextcluster clusterCount) (\<lambda>(ok, _, fs).
                         Inr (ok, startCluster, fs)))
             else
               andThen (fatfs_add_free_space fs startCluster clusterCount) (\<lambda>(ok, _, fs).
                 Inr (ok, startCluster, fs))))"

section \<open>Entries\<close>

text \<open>
  The search for free entries in one sector: how many in a row have been seen and where
  they start (\<^const>\<open>None\<close>: not recorded).
\<close>

primrec free_scan :: "nat \<Rightarrow> u32 \<Rightarrow> nat \<Rightarrow> u8 list list \<Rightarrow> nat \<times> (u32 \<times> nat) option \<Rightarrow>
    bool \<times> nat \<times> (u32 \<times> nat) option" where
  "free_scan entryCount x item [] st = (False, st)"
| "free_scan entryCount x item (b # bs) st =
     (let (possible_spaces, start) = st;
          start' = (if possible_spaces = 0 then Some (x, item) else start)
      in if fatfs_entry_lfn_text (decode_dir_entry b)
         then free_scan entryCount x (Suc item) bs (Suc possible_spaces, start')
         else if b ! 0 = FILE_HEADER_DELETED \<or> b ! 0 = FILE_HEADER_BLANK then
           (if entryCount \<le> Suc possible_spaces then (True, Suc possible_spaces, start')
            else free_scan entryCount x (Suc item) bs (Suc possible_spaces, start'))
         else free_scan entryCount x (Suc item) bs (0, None))"

primrec erase_sectors :: "fatfs \<Rightarrow> u32 \<Rightarrow> u32 \<Rightarrow> nat \<Rightarrow> u8 list option \<Rightarrow> fault + bool \<times> fatfs" where
  "erase_sectors fs cluster i 0 target = Inr (True, fs)"
| "erase_sectors fs cluster i (Suc k) target =
     andThen (fatfs_write_sector fs cluster i target) (\<lambda>(ok, fs).
       if ok then erase_sectors fs cluster (i + 1) k target else Inr (False, fs))"

text \<open>The directory gets a new cluster, cleared through the buffer of the volume.\<close>

definition extend_directory :: "fatfs \<Rightarrow> u32 \<Rightarrow> fault + bool \<times> fatfs" where
  "extend_directory fs dirCluster =
     andThen (fatfs_find_blank_cluster fs (fs_rootdir_first_cluster fs)) (\<lambda>(r, fs). case r of
        None \<Rightarrow> Inr (False, fs)
      | Some newCluster \<Rightarrow>
          andThen (fatfs_fat_add_cluster_to_chain fs dirCluster newCluster) (\<lambda>(ok, fs).
            if \<not> ok then Inr (False, fs)
            else erase_sectors (set_current fs (replicate FAT_SECTOR_SIZE 0)) newCluster 0
                   (unat (fs_sectors_per_cluster fs)) None))"

primrec free_offset_loop :: "nat \<Rightarrow> nat \<Rightarrow> fatfs \<Rightarrow> u32 \<Rightarrow> u32 \<Rightarrow> nat \<times> (u32 \<times> nat) option \<Rightarrow>
    fault + (u32 \<times> nat) option \<times> fatfs" where
  "free_offset_loop 0 entryCount fs dirCluster x st = Inl OutOfFuel"
| "free_offset_loop (Suc fuel) entryCount fs dirCluster x st =
     andThen (fatfs_sector_reader fs dirCluster x) (\<lambda>(ok, fs).
       if ok then
         (case free_scan entryCount x 0 (sector_entries (fb_sector (fs_currentsector fs))) st of
            (True, _, start) \<Rightarrow> Inr (start, fs)
          | (False, st) \<Rightarrow> free_offset_loop fuel entryCount fs dirCluster (x + 1) st)
       else
         andThen (extend_directory fs dirCluster) (\<lambda>(ok, fs).
           Inr (if ok then Some (case snd st of Some start \<Rightarrow> start | None \<Rightarrow> (x, 0)) else None, fs)))"

definition fatfs_find_free_dir_offset :: "fatfs \<Rightarrow> u32 \<Rightarrow> nat \<Rightarrow> fault + (u32 \<times> nat) option \<times> fatfs" where
  "fatfs_find_free_dir_offset fs dirCluster entryCount =
     (if entryCount = 0 then Inr (None, fs)
      else free_offset_loop (dir_fuel fs) entryCount fs dirCluster 0 (0, None))"

text \<open>The checksum that ties the entries of a long name to the short one.\<close>

definition sfn_checksum_step :: "u8 \<Rightarrow> u8 \<Rightarrow> u8" where
  "sfn_checksum_step checksum c = (if checksum AND 1 \<noteq> 0 then 0x80 else 0) + drop_bit 1 checksum + c"

definition sfn_checksum :: "u8 list \<Rightarrow> u8" where
  "sfn_checksum shortfilename = foldl sfn_checksum_step 0 (take 11 shortfilename)"

text \<open>What goes into the directory: the parts of the long name, last part first, and the short entry.\<close>

record new_entry =
  ne_filename :: "u8 list"
  ne_shortfilename :: "u8 list"
  ne_startCluster :: u32
  ne_size :: u32
  ne_dir :: bool

text \<open>
  One sector from entry \<open>item\<close> on, \<open>k\<close> entries to go. The result is \<open>Some\<close> once the short
  entry is written, with the outcome of the write; otherwise the state to go on with:
  whether the start has been found, how many parts of the name are left, whether the
  sector has been changed.
\<close>

primrec add_items :: "nat \<Rightarrow> new_entry \<Rightarrow> bool \<Rightarrow> nat \<Rightarrow> nat \<Rightarrow> fatfs \<Rightarrow> bool \<Rightarrow> nat \<Rightarrow> bool \<Rightarrow>
    fault + bool option \<times> (bool \<times> nat \<times> bool) \<times> fatfs" where
  "add_items 0 n here dirOffset item fs foundEnd entryCount dirty = Inr (None, (foundEnd, entryCount, dirty), fs)"
| "add_items (Suc k) n here dirOffset item fs foundEnd entryCount dirty =
     (let foundEnd = (foundEnd \<or> here \<and> dirOffset = item);
          b = fb_sector (fs_currentsector fs)
      in if foundEnd then
           (if entryCount = 0 then
              andThen (write_current (set_current fs (overlay (FAT_DIR_ENTRY_SIZE * item)
                  (encode_dir_entry (fatfs_sfn_create_entry (ne_shortfilename n) (ne_size n) (ne_startCluster n) (ne_dir n))) b)))
                (\<lambda>(ok, fs). Inr (Some ok, (foundEnd, entryCount, dirty), fs))
            else
              add_items k n here dirOffset (Suc item)
                (set_current fs (overlay (FAT_DIR_ENTRY_SIZE * item)
                  (fatfs_filename_to_lfn (ne_filename n) (entryCount - 1) (sfn_checksum (ne_shortfilename n))) b))
                foundEnd (entryCount - 1) True)
         else add_items k n here dirOffset (Suc item) fs foundEnd entryCount dirty)"

primrec add_entry_loop :: "nat \<Rightarrow> new_entry \<Rightarrow> u32 \<Rightarrow> nat \<Rightarrow> fatfs \<Rightarrow> u32 \<Rightarrow> u32 \<Rightarrow> bool \<Rightarrow> nat \<Rightarrow>
    fault + bool \<times> fatfs" where
  "add_entry_loop 0 n dirSector dirOffset fs dirCluster x foundEnd entryCount = Inl OutOfFuel"
| "add_entry_loop (Suc fuel) n dirSector dirOffset fs dirCluster x foundEnd entryCount =
     andThen (fatfs_sector_reader fs dirCluster x) (\<lambda>(ok, fs).
       if \<not> ok then Inr (False, fs)
       else andThen (add_items FAT_DIR_ENTRIES_PER_SECTOR n (dirSector = x) dirOffset 0 fs foundEnd entryCount False)
         (\<lambda>(r, (foundEnd, entryCount, dirty), fs). case r of
             Some ok \<Rightarrow> Inr (ok, fs)
           | None \<Rightarrow>
               andThen (if dirty then write_current fs else Inr (True, fs)) (\<lambda>(ok, fs).
                 if ok then add_entry_loop fuel n dirSector dirOffset fs dirCluster (x + 1) foundEnd entryCount
                 else Inr (False, fs))))"

definition fatfs_add_file_entry :: "fatfs \<Rightarrow> u32 \<Rightarrow> new_entry \<Rightarrow> fault + bool \<times> fatfs" where
  "fatfs_add_file_entry fs dirCluster n =
     (if \<not> md_can_write (fs_disk_io fs) then Inr (False, fs)
      else
        let entryCount = fatfs_lfn_entries_required (ne_filename n) in
        if entryCount = 0 then Inr (False, fs)
        else andThen (fatfs_find_free_dir_offset fs dirCluster (entryCount + 1)) (\<lambda>(r, fs). case r of
            None \<Rightarrow> Inr (False, fs)
          | Some (dirSector, dirOffset) \<Rightarrow>
              add_entry_loop (dir_fuel fs) n dirSector dirOffset fs dirCluster dirSector False entryCount))"

end
