(* ===== verification/FatList.thy ===== *)
theory FatList
  imports Prelude
begin

text \<open>
  The doubly linked lists of the FAT library (\<open>fat_list.h\<close>): the pointers as they are in the
  code, nodes being numbered and a null pointer \<^const>\<open>None\<close>, and the lists of nodes they
  stand for. Each operation on the pointers is an operation on the list.
\<close>

section \<open>Pointers\<close>

record fat_node =
  fn_previous :: "nat option"
  fn_next :: "nat option"

record fat_list =
  ls_head :: "nat option"
  ls_tail :: "nat option"

type_synonym fat_nodes = "nat \<Rightarrow> fat_node"

definition set_previous :: "nat \<Rightarrow> nat option \<Rightarrow> fat_nodes \<Rightarrow> fat_nodes" where
  "set_previous n p nodes = nodes(n := (nodes n)\<lparr>fn_previous := p\<rparr>)"

definition set_next :: "nat \<Rightarrow> nat option \<Rightarrow> fat_nodes \<Rightarrow> fat_nodes" where
  "set_next n p nodes = nodes(n := (nodes n)\<lparr>fn_next := p\<rparr>)"

definition fat_list_init :: fat_list where
  "fat_list_init = \<lparr>ls_head = None, ls_tail = None\<rparr>"

definition fat_list_remove :: "fat_nodes \<times> fat_list \<Rightarrow> nat \<Rightarrow> fat_nodes \<times> fat_list" where
  "fat_list_remove = (\<lambda>(nodes, list) node.
     let (nodes, list) = (case fn_previous (nodes node) of
            None \<Rightarrow> (nodes, list\<lparr>ls_head := fn_next (nodes node)\<rparr>)
          | Some p \<Rightarrow> (set_next p (fn_next (nodes node)) nodes, list))
     in case fn_next (nodes node) of
          None \<Rightarrow> (nodes, list\<lparr>ls_tail := fn_previous (nodes node)\<rparr>)
        | Some n \<Rightarrow> (set_previous n (fn_previous (nodes node)) nodes, list))"

definition fat_list_insert_after :: "fat_nodes \<times> fat_list \<Rightarrow> nat \<Rightarrow> nat \<Rightarrow> fat_nodes \<times> fat_list" where
  "fat_list_insert_after = (\<lambda>(nodes, list) node new_node.
     let nodes = set_next new_node (fn_next (nodes node)) (set_previous new_node (Some node) nodes);
         (nodes, list) = (case fn_next (nodes node) of
            None \<Rightarrow> (nodes, list\<lparr>ls_tail := Some new_node\<rparr>)
          | Some n \<Rightarrow> (set_previous n (Some new_node) nodes, list))
     in (set_next node (Some new_node) nodes, list))"

definition fat_list_insert_before :: "fat_nodes \<times> fat_list \<Rightarrow> nat \<Rightarrow> nat \<Rightarrow> fat_nodes \<times> fat_list" where
  "fat_list_insert_before = (\<lambda>(nodes, list) node new_node.
     let nodes = set_next new_node (Some node) (set_previous new_node (fn_previous (nodes node)) nodes);
         (nodes, list) = (case fn_previous (nodes node) of
            None \<Rightarrow> (nodes, list\<lparr>ls_head := Some new_node\<rparr>)
          | Some p \<Rightarrow> (set_next p (Some new_node) nodes, list))
     in (set_previous node (Some new_node) nodes, list))"

definition fat_list_insert_first :: "fat_nodes \<times> fat_list \<Rightarrow> nat \<Rightarrow> fat_nodes \<times> fat_list" where
  "fat_list_insert_first = (\<lambda>(nodes, list) node.
     case ls_head list of
       None \<Rightarrow> (set_next node None (set_previous node None nodes), list\<lparr>ls_head := Some node, ls_tail := Some node\<rparr>)
     | Some h \<Rightarrow> fat_list_insert_before (nodes, list) h node)"

definition fat_list_insert_last :: "fat_nodes \<times> fat_list \<Rightarrow> nat \<Rightarrow> fat_nodes \<times> fat_list" where
  "fat_list_insert_last = (\<lambda>(nodes, list) node.
     case ls_tail list of
       None \<Rightarrow> fat_list_insert_first (nodes, list) node
     | Some t \<Rightarrow> fat_list_insert_after (nodes, list) t node)"

definition fat_list_is_empty :: "fat_list \<Rightarrow> bool" where
  "fat_list_is_empty list = (ls_head list = None)"

definition fat_list_pop_head :: "fat_nodes \<times> fat_list \<Rightarrow> nat option \<times> fat_nodes \<times> fat_list" where
  "fat_list_pop_head = (\<lambda>(nodes, list). case ls_head list of
       None \<Rightarrow> (None, nodes, list)
     | Some node \<Rightarrow> (Some node, fat_list_remove (nodes, list) node))"

text \<open>\<open>fat_list_for_each\<close>: the nodes a loop visits, at most \<open>fuel\<close> of them.\<close>

primrec for_each_from :: "nat \<Rightarrow> fat_nodes \<Rightarrow> nat option \<Rightarrow> fault + nat list" where
  "for_each_from 0 nodes p = (if p = None then Inr [] else Inl OutOfFuel)"
| "for_each_from (Suc fuel) nodes p = (case p of None \<Rightarrow> Inr []
     | Some n \<Rightarrow> andThen (for_each_from fuel nodes (fn_next (nodes n))) (\<lambda>ns. Inr (n # ns)))"

definition fat_list_for_each :: "nat \<Rightarrow> fat_nodes \<Rightarrow> fat_list \<Rightarrow> fault + nat list" where
  "fat_list_for_each fuel nodes list = for_each_from fuel nodes (ls_head list)"

section \<open>The list the pointers stand for\<close>

fun first_or :: "nat list \<Rightarrow> nat option \<Rightarrow> nat option" where
  "first_or [] b = b"
| "first_or (x # xs) b = Some x"

fun last_or :: "nat list \<Rightarrow> nat option \<Rightarrow> nat option" where
  "last_or [] a = a"
| "last_or (x # xs) a = last_or xs (Some x)"

text \<open>\<open>linked nodes a xs b\<close>: the nodes \<open>xs\<close> in order, between \<open>a\<close> and \<open>b\<close>.\<close>

primrec linked :: "fat_nodes \<Rightarrow> nat option \<Rightarrow> nat list \<Rightarrow> nat option \<Rightarrow> bool" where
  "linked nodes a [] b = True"
| "linked nodes a (x # xs) b =
     (fn_previous (nodes x) = a \<and> fn_next (nodes x) = first_or xs b \<and> linked nodes (Some x) xs b)"

definition list_holds :: "fat_nodes \<times> fat_list \<Rightarrow> nat list \<Rightarrow> bool" where
  "list_holds = (\<lambda>(nodes, list) xs. distinct xs \<and> ls_head list = first_or xs None \<and>
     ls_tail list = last_or xs None \<and> linked nodes None xs None)"

lemma first_or_append [simp]: "first_or (xs @ ys) b = first_or xs (first_or ys b)"
  by (cases xs) auto

lemma last_or_append [simp]: "last_or (xs @ ys) a = last_or ys (last_or xs a)"
  by (induction xs arbitrary: a) auto

lemma linked_append [simp]:
  "linked nodes a (xs @ ys) b \<longleftrightarrow> linked nodes a xs (first_or ys b) \<and> linked nodes (last_or xs a) ys b"
  by (induction xs arbitrary: a) auto

lemma first_or_cases: "first_or xs b = (if xs = [] then b else Some (hd xs))"
  by (cases xs) auto

lemma last_or_cases: "last_or xs a = (if xs = [] then a else Some (last xs))"
  by (induction xs arbitrary: a) auto

lemma linked_cong:
  "(\<And>x. x \<in> set xs \<Longrightarrow> nodes x = nodes' x) \<Longrightarrow> linked nodes a xs b = linked nodes' a xs b"
  by (induction xs arbitrary: a) auto

lemma linked_set_other [simp]:
  "n \<notin> set xs \<Longrightarrow> linked (set_next n p nodes) a xs b = linked nodes a xs b"
  "n \<notin> set xs \<Longrightarrow> linked (set_previous n p nodes) a xs b = linked nodes a xs b"
  by (auto intro!: linked_cong simp: set_next_def set_previous_def)

lemma set_fields [simp]:
  "fn_previous (set_next n p nodes x) = fn_previous (nodes x)"
  "fn_next (set_previous n p nodes x) = fn_next (nodes x)"
  "fn_next (set_next n p nodes x) = (if x = n then p else fn_next (nodes x))"
  "fn_previous (set_previous n p nodes x) = (if x = n then p else fn_previous (nodes x))"
  by (auto simp: set_next_def set_previous_def)

text \<open>Redirecting the last node of a segment, and the first one.\<close>

lemma linked_redirect_last:
  assumes "linked nodes a (xs @ [x]) b" "x \<notin> set xs"
  shows "linked (set_next x c nodes) a (xs @ [x]) c"
  using assms by simp

lemma linked_redirect_first:
  assumes "linked nodes a (x # xs) b" "x \<notin> set xs"
  shows "linked (set_previous x c nodes) c (x # xs) b"
  using assms by simp

section \<open>The operations on the list\<close>

lemma fat_list_init_ok: "list_holds (nodes, fat_list_init) []"
  by (simp add: list_holds_def fat_list_init_def)

lemma list_holds_split:
  assumes "list_holds (nodes, list) (us @ x # vs)"
  shows "fn_previous (nodes x) = last_or us None" "fn_next (nodes x) = first_or vs None"
    "linked nodes None us (Some x)" "linked nodes (Some x) vs None"
    "distinct us" "distinct vs" "x \<notin> set us" "x \<notin> set vs" "set us \<inter> set vs = {}"
    "ls_head list = first_or us (Some x)" "ls_tail list = last_or vs (Some x)"
  using assms by (auto simp: list_holds_def)

lemma linked_join:
  assumes "linked nodes None us (Some x)" "linked nodes (Some x) vs None"
    "distinct us" "distinct vs" "set us \<inter> set vs = {}"
  defines "n1 \<equiv> (case last_or us None of None \<Rightarrow> nodes | Some p \<Rightarrow> set_next p (first_or vs None) nodes)"
  defines "n2 \<equiv> (case first_or vs None of None \<Rightarrow> n1 | Some n \<Rightarrow> set_previous n (last_or us None) n1)"
  shows "linked n2 None us (first_or vs None)" "linked n2 (last_or us None) vs None"
proof -
  have "linked n2 None us (first_or vs None) \<and> linked n2 (last_or us None) vs None"
    using assms(1-5) unfolding n2_def n1_def
    by (cases us rule: rev_cases; cases vs) (auto simp: disjoint_iff intro!: linked_set_other [THEN iffD2])
  then show "linked n2 None us (first_or vs None)" "linked n2 (last_or us None) vs None" by auto
qed

lemma fat_list_remove_ok:
  assumes "list_holds (nodes, list) xs" "x \<in> set xs"
  shows "list_holds (fat_list_remove (nodes, list) x) (remove1 x xs)"
proof -
  obtain us vs where xs: "xs = us @ x # vs" and u: "x \<notin> set us"
    using split_list_first[OF assms(2)] by auto
  note s = list_holds_split[OF assms(1)[unfolded xs]]
  note j = linked_join[OF s(3) s(4) s(5) s(6) s(9)]
  show ?thesis
    using j s unfolding xs
    by (cases us rule: rev_cases; cases vs)
       (auto simp: list_holds_def fat_list_remove_def remove1_append Let_def)
qed

text \<open>Nodes outside the list keep their pointers, so that other lists stay as they are.\<close>

lemma fat_list_remove_frame:
  assumes "list_holds (nodes, list) xs" "x \<in> set xs" "y \<notin> set xs"
  shows "fst (fat_list_remove (nodes, list) x) y = nodes y"
proof -
  obtain us vs where xs: "xs = us @ x # vs" using split_list[OF assms(2)] by auto
  note s = list_holds_split[OF assms(1)[unfolded xs]]
  show ?thesis using s assms(3) unfolding xs
    by (cases us rule: rev_cases; cases vs)
       (auto simp: fat_list_remove_def Let_def set_next_def set_previous_def)
qed

lemma fat_list_insert_last_ok:
  assumes "list_holds (nodes, list) xs" "x \<notin> set xs"
  shows "list_holds (fat_list_insert_last (nodes, list) x) (xs @ [x])"
  using assms
  by (cases xs rule: rev_cases)
     (auto simp: list_holds_def fat_list_insert_last_def fat_list_insert_first_def
       fat_list_insert_after_def Let_def)

lemma fat_list_insert_last_frame:
  assumes "list_holds (nodes, list) xs" "x \<notin> set xs" "y \<notin> insert x (set xs)"
  shows "fst (fat_list_insert_last (nodes, list) x) y = nodes y"
  using assms
  by (cases xs rule: rev_cases)
     (auto simp: list_holds_def fat_list_insert_last_def fat_list_insert_first_def
       fat_list_insert_after_def Let_def set_next_def set_previous_def)

lemma fat_list_insert_first_ok:
  assumes "list_holds (nodes, list) xs" "x \<notin> set xs"
  shows "list_holds (fat_list_insert_first (nodes, list) x) (x # xs)"
  using assms
  by (cases xs)
     (auto simp: list_holds_def fat_list_insert_first_def fat_list_insert_before_def Let_def)

lemma fat_list_insert_after_ok:
  assumes "list_holds (nodes, list) (us @ y # vs)" "x \<notin> set (us @ y # vs)"
  shows "list_holds (fat_list_insert_after (nodes, list) y x) (us @ y # x # vs)"
  using assms list_holds_split[OF assms(1)]
  by (cases vs) (auto simp: list_holds_def fat_list_insert_after_def Let_def)

lemma fat_list_insert_before_ok:
  assumes "list_holds (nodes, list) (us @ y # vs)" "x \<notin> set (us @ y # vs)"
  shows "list_holds (fat_list_insert_before (nodes, list) y x) (us @ x # y # vs)"
  using assms list_holds_split[OF assms(1)]
  by (cases us rule: rev_cases) (auto simp: list_holds_def fat_list_insert_before_def Let_def)

lemma fat_list_is_empty_ok:
  "list_holds (nodes, list) xs \<Longrightarrow> fat_list_is_empty list \<longleftrightarrow> xs = []"
  by (cases xs) (auto simp: list_holds_def fat_list_is_empty_def)

lemma fat_list_pop_head_ok:
  assumes "list_holds (nodes, list) xs"
  shows "fst (fat_list_pop_head (nodes, list)) = first_or xs None"
    "list_holds (snd (fat_list_pop_head (nodes, list))) (tl xs)"
  using assms fat_list_remove_ok[OF assms, of "hd xs"]
  by (cases xs; auto simp: list_holds_def fat_list_pop_head_def)+

lemma for_each_from_ok:
  "linked nodes a xs None \<Longrightarrow> length xs \<le> fuel \<Longrightarrow> for_each_from fuel nodes (first_or xs None) = Inr xs"
proof (induction xs arbitrary: a fuel)
  case Nil
  then show ?case by (cases fuel) auto
next
  case (Cons x xs)
  then show ?case by (cases fuel) auto
qed

lemma fat_list_for_each_ok:
  "list_holds (nodes, list) xs \<Longrightarrow> length xs \<le> fuel \<Longrightarrow> fat_list_for_each fuel nodes list = Inr xs"
  using for_each_from_ok[of nodes None xs fuel] by (simp add: list_holds_def fat_list_for_each_def)

end
