(* ===== verification/FatFile.thy ===== *)
theory FatFile
  imports FatWrite FatList
begin

text \<open>
  The files of the FAT library (\<open>fat_filelib.c\<close>): handles, opening and creating, reading,
  writing and seeking, removing, and directories. The handles are numbered, a null pointer is
  \<^const>\<open>None\<close>; the node of a handle in the linked lists of free and open handles
  (\<open>fat_list.h\<close>) has the number of the handle. The lock callbacks of the library are not set by its user and left out, and the
  cluster cache (\<open>fat_cache.c\<close>) is compiled out, so every link is looked up.
\<close>

section \<open>Handles\<close>

definition FATFS_MAX_OPEN_FILES :: nat where "FATFS_MAX_OPEN_FILES = 2"
definition FATFS_MAX_LONG_FILENAME :: int where "FATFS_MAX_LONG_FILENAME = 260"
definition FILE_READ :: u8 where "FILE_READ = 1"
definition FILE_WRITE :: u8 where "FILE_WRITE = 2"
definition FILE_APPEND :: u8 where "FILE_APPEND = 4"
definition FILE_BINARY :: u8 where "FILE_BINARY = 8"
definition FILE_ERASE :: u8 where "FILE_ERASE = 16"
definition FILE_CREATE :: u8 where "FILE_CREATE = 32"

record fl_file =
  ff_parentcluster :: u32
  ff_startcluster :: u32
  ff_bytenum :: u32
  ff_filelength :: u32
  ff_filelength_changed :: bool
  ff_path :: "u8 list"
  ff_filename :: "u8 list"
  ff_shortfilename :: "u8 list"
  ff_ClusterIdx :: u32
  ff_CurrentCluster :: u32
  ff_data_sector :: "u8 list"
  ff_data_address :: u32
  ff_data_dirty :: bool
  ff_flags :: u8

type_synonym handle = nat

record filelib =
  fl_files :: "handle \<Rightarrow> fl_file"
  fl_initialised :: bool
  fl_valid :: bool
  fl_fs :: fatfs
  fl_nodes :: fat_nodes
  fl_open_list :: fat_list
  fl_free_list :: fat_list

definition fl_upd :: "filelib \<Rightarrow> handle \<Rightarrow> (fl_file \<Rightarrow> fl_file) \<Rightarrow> filelib" where
  "fl_upd lib h f = lib\<lparr>fl_files := (fl_files lib)(h := f (fl_files lib h))\<rparr>"

definition allocate_file :: "filelib \<Rightarrow> handle option \<times> filelib" where
  "allocate_file lib =
     (case fat_list_pop_head (fl_nodes lib, fl_free_list lib) of (node, nodes, free) \<Rightarrow>
        let lib = lib\<lparr>fl_nodes := nodes, fl_free_list := free\<rparr> in
        case node of
          None \<Rightarrow> (None, lib)
        | Some h \<Rightarrow> (case fat_list_insert_last (fl_nodes lib, fl_open_list lib) h of (nodes, open_list) \<Rightarrow>
            (Some h, lib\<lparr>fl_nodes := nodes, fl_open_list := open_list\<rparr>)))"

text \<open>A list has as many nodes as there are handles, so the walk over it ends.\<close>

definition check_file_open :: "filelib \<Rightarrow> handle \<Rightarrow> fault + bool" where
  "check_file_open lib file =
     andThen (fat_list_for_each FATFS_MAX_OPEN_FILES (fl_nodes lib) (fl_open_list lib)) (\<lambda>hs.
       Inr (\<exists>h \<in> set hs. h \<noteq> file \<and>
         fatfs_compare_names (ff_path (fl_files lib h)) (ff_path (fl_files lib file)) \<and>
         fatfs_compare_names (ff_filename (fl_files lib h)) (ff_filename (fl_files lib file))))"

definition free_file :: "filelib \<Rightarrow> handle \<Rightarrow> filelib" where
  "free_file lib file =
     (case fat_list_remove (fl_nodes lib, fl_open_list lib) file of (nodes, open_list) \<Rightarrow>
      case fat_list_insert_last (nodes, fl_free_list lib) file of (nodes, free) \<Rightarrow>
        lib\<lparr>fl_nodes := nodes, fl_open_list := open_list, fl_free_list := free\<rparr>)"

definition fl_init :: "filelib \<Rightarrow> filelib" where
  "fl_init lib =
     (case fold (\<lambda>i (nodes, free). fat_list_insert_last (nodes, free) i) [0..<FATFS_MAX_OPEN_FILES]
             (fl_nodes lib, fat_list_init) of (nodes, free) \<Rightarrow>
        lib\<lparr>fl_nodes := nodes, fl_free_list := free, fl_open_list := fat_list_init, fl_initialised := True\<rparr>)"

definition CHECK_FL_INIT :: "filelib \<Rightarrow> filelib" where
  "CHECK_FL_INIT lib = (if \<not> fl_initialised lib then fl_init lib else lib)"

text \<open>A volume that fails to attach leaves \<open>_filelib_valid\<close> as it was.\<close>

definition fl_attach_media :: "filelib \<Rightarrow> fat_media \<Rightarrow> fault + int \<times> filelib" where
  "fl_attach_media lib media =
     (let lib = CHECK_FL_INIT lib in
      andThen (fatfs_init ((fl_fs lib)\<lparr>fs_disk_io := media\<rparr>)) (\<lambda>(res, fs).
        let lib = lib\<lparr>fl_fs := fs\<rparr> in
        if res \<noteq> FAT_INIT_OK then Inr (res, lib) else Inr (FAT_INIT_OK, lib\<lparr>fl_valid := True\<rparr>)))"

definition fl_shutdown :: "filelib \<Rightarrow> fault + filelib" where
  "fl_shutdown lib =
     (let lib = CHECK_FL_INIT lib in
      andThen (fatfs_fat_purge (fl_fs lib)) (\<lambda>(_, fs). Inr (lib\<lparr>fl_fs := fs\<rparr>)))"

section \<open>Opening\<close>

text \<open>The folders of a path, from \<open>sublevel\<close> on, \<open>k\<close> of them.\<close>

primrec open_levels :: "nat \<Rightarrow> fatfs \<Rightarrow> u8 list \<Rightarrow> int \<Rightarrow> u32 \<Rightarrow> fault + u32 option \<times> fatfs" where
  "open_levels 0 fs path sublevel startcluster = Inr (Some startcluster, fs)"
| "open_levels (Suc k) fs path sublevel startcluster =
     andThen (fatfs_get_substring (Some path) sublevel FATFS_MAX_LONG_FILENAME) (\<lambda>(res, currentfolder).
       if res = - 1 then Inr (None, fs)
       else andThen (fatfs_get_file_entry fs startcluster (the currentfolder)) (\<lambda>(r, fs). case r of
           None \<Rightarrow> Inr (None, fs)
         | Some sfEntry \<Rightarrow>
             if fatfs_entry_is_dir sfEntry
             then open_levels k fs path (sublevel + 1) (entry_cluster sfEntry)
             else Inr (None, fs)))"

definition open_directory :: "fatfs \<Rightarrow> u8 list \<Rightarrow> fault + u32 option \<times> fatfs" where
  "open_directory fs path =
     andThen (fatfs_total_path_levels (Some path)) (\<lambda>levels.
       open_levels (nat (levels + 1)) fs path 0 (fatfs_get_root_cluster fs))"

text \<open>
  What opening and creating share: a handle with the names set and the parent directory
  found. \<^const>\<open>None\<close>: the handle, if there was one, has been given back.
\<close>

definition give_back :: "filelib \<Rightarrow> handle \<Rightarrow> fault + 'a option \<times> filelib" where
  "give_back lib file = Inr (None, free_file lib file)"

definition name_file :: "filelib \<Rightarrow> u8 list \<Rightarrow> fault + handle option \<times> filelib" where
  "name_file lib path =
     (case allocate_file lib of (None, lib) \<Rightarrow> Inr (None, lib) | (Some file, lib) \<Rightarrow>
        let lib = fl_upd lib file (\<lambda>f. f\<lparr>ff_path := [], ff_filename := []\<rparr>) in
        andThen (fatfs_split_path path FATFS_MAX_LONG_FILENAME FATFS_MAX_LONG_FILENAME) (\<lambda>r. case r of
            None \<Rightarrow> give_back lib file
          | Some (dir, name) \<Rightarrow>
              let lib = fl_upd lib file (\<lambda>f. f\<lparr>ff_path := dir, ff_filename := name\<rparr>) in
              andThen (check_file_open lib file) (\<lambda>opened.
              if opened then give_back lib file
              else if dir = [] then
                Inr (Some file, fl_upd lib file (ff_parentcluster_update (\<lambda>_. fatfs_get_root_cluster (fl_fs lib))))
              else andThen (open_directory (fl_fs lib) dir) (\<lambda>(r, fs).
                let lib = lib\<lparr>fl_fs := fs\<rparr> in
                case r of
                  None \<Rightarrow> give_back lib file
                | Some c \<Rightarrow> Inr (Some file, fl_upd lib file (ff_parentcluster_update (\<lambda>_. c)))))))"

text \<open>\<open>fatfs_fat_purge\<close> with its result ignored.\<close>

definition purge_lib :: "filelib \<Rightarrow> fault + filelib" where
  "purge_lib lib = andThen (fatfs_fat_purge (fl_fs lib)) (\<lambda>(_, fs). Inr (lib\<lparr>fl_fs := fs\<rparr>))"

definition reset_handle :: "fl_file \<Rightarrow> fl_file" where
  "reset_handle f = f\<lparr>ff_bytenum := 0, ff_data_address := 0xFFFFFFFF, ff_data_dirty := False,
     ff_filelength_changed := False, ff_ClusterIdx := 0xFFFFFFFF, ff_CurrentCluster := 0xFFFFFFFF\<rparr>"

definition open_file :: "filelib \<Rightarrow> u8 list \<Rightarrow> fault + handle option \<times> filelib" where
  "open_file lib path =
     andThen (name_file lib path) (\<lambda>(r, lib). case r of
        None \<Rightarrow> Inr (None, lib)
      | Some file \<Rightarrow>
          andThen (fatfs_get_file_entry (fl_fs lib) (ff_parentcluster (fl_files lib file)) (ff_filename (fl_files lib file)))
            (\<lambda>(r, fs).
              let lib = lib\<lparr>fl_fs := fs\<rparr> in
              case r of
                None \<Rightarrow> give_back lib file
              | Some sfEntry \<Rightarrow>
                  if fatfs_entry_is_file sfEntry then
                    andThen (purge_lib (fl_upd lib file (\<lambda>f. (reset_handle f)\<lparr>
                        ff_shortfilename := take FAT_SFN_SIZE_FULL (de_Name sfEntry),
                        ff_filelength := de_FileSize sfEntry,
                        ff_startcluster := entry_cluster sfEntry\<rparr>))) (\<lambda>lib. Inr (Some file, lib))
                  else give_back lib file))"

section \<open>Creating\<close>

text \<open>
  The short name: without a tail first, then with \<open>~1\<close>, \<open>~2\<close> and so on, until none of the
  directory has it. \<open>shortFilename\<close> keeps what it holds when the name has no short form.
\<close>

primrec sfn_search :: "nat \<Rightarrow> fatfs \<Rightarrow> u32 \<Rightarrow> u8 list \<Rightarrow> u8 list \<Rightarrow> u32 \<Rightarrow> fault + u8 list \<times> u32 \<times> fatfs" where
  "sfn_search 0 fs parent base sfn tailNum = Inr (sfn, tailNum, fs)"
| "sfn_search (Suc k) fs parent base sfn tailNum =
     (let sfn = (if tailNum \<noteq> 0 then (case fatfs_lfn_generate_tail base tailNum of None \<Rightarrow> sfn | Some s \<Rightarrow> s)
                 else take FAT_SFN_SIZE_FULL base)
      in andThen (fatfs_sfn_exists fs parent sfn) (\<lambda>(ex, fs).
           if \<not> ex then Inr (sfn, tailNum, fs)
           else sfn_search k fs parent base sfn (tailNum + 1)))"

definition release_chain :: "filelib \<Rightarrow> handle \<Rightarrow> fault + 'a option \<times> filelib" where
  "release_chain lib file =
     andThen (fatfs_free_cluster_chain (fl_fs lib) (ff_startcluster (fl_files lib file))) (\<lambda>(_, fs).
       give_back (lib\<lparr>fl_fs := fs\<rparr>) file)"

text \<open>
  From the search for the short name to the new entry, for a file and for a directory;
  \<open>junk\<close> is the uninitialised \<open>shortFilename\<close>.
\<close>

definition enter_name :: "u8 list \<Rightarrow> filelib \<Rightarrow> handle \<Rightarrow> bool \<Rightarrow> fault + handle option \<times> filelib" where
  "enter_name junk lib file dir =
     (let f = fl_files lib file;
          base = (case fatfs_lfn_create_sfn (ff_filename f) of None \<Rightarrow> junk | Some s \<Rightarrow> s)
      in andThen (sfn_search 9999 (fl_fs lib) (ff_parentcluster f) base (ff_shortfilename f) 0) (\<lambda>(sfn, tailNum, fs).
           let lib = fl_upd (lib\<lparr>fl_fs := fs\<rparr>) file (ff_shortfilename_update (\<lambda>_. sfn)) in
           if tailNum = 9999 then release_chain lib file
           else andThen (fatfs_add_file_entry fs (ff_parentcluster f)
               \<lparr>ne_filename = ff_filename f, ne_shortfilename = sfn, ne_startCluster = ff_startcluster f,
                ne_size = 0, ne_dir = dir\<rparr>) (\<lambda>(ok, fs).
             let lib = lib\<lparr>fl_fs := fs\<rparr> in
             if \<not> ok then release_chain lib file
             else andThen (purge_lib (fl_upd lib file (\<lambda>f. (reset_handle f)\<lparr>ff_filelength := 0\<rparr>)))
               (\<lambda>lib. Inr (Some file, lib)))))"

text \<open>A handle for a name that is not taken, with a first cluster.\<close>

definition new_file :: "filelib \<Rightarrow> u8 list \<Rightarrow> fault + handle option \<times> filelib" where
  "new_file lib path =
     andThen (name_file lib path) (\<lambda>(r, lib). case r of
        None \<Rightarrow> Inr (None, lib)
      | Some file \<Rightarrow>
          andThen (fatfs_get_file_entry (fl_fs lib) (ff_parentcluster (fl_files lib file)) (ff_filename (fl_files lib file)))
            (\<lambda>(r, fs).
              let lib = lib\<lparr>fl_fs := fs\<rparr> in
              if r \<noteq> None then give_back lib file
              else andThen (fatfs_allocate_free_space fs True 0 1) (\<lambda>(ok, c, fs).
                let lib = fl_upd (lib\<lparr>fl_fs := fs\<rparr>) file (ff_startcluster_update (\<lambda>_. c)) in
                if \<not> ok then give_back lib file else Inr (Some file, lib))))"

definition create_file :: "u8 list \<Rightarrow> filelib \<Rightarrow> u8 list \<Rightarrow> fault + handle option \<times> filelib" where
  "create_file junk lib filename =
     (if \<not> md_can_write (fs_disk_io (fl_fs lib)) then Inr (None, lib)
      else andThen (new_file lib filename) (\<lambda>(r, lib). case r of
          None \<Rightarrow> Inr (None, lib) | Some file \<Rightarrow> enter_name junk lib file False))"

definition create_directory :: "u8 list \<Rightarrow> filelib \<Rightarrow> u8 list \<Rightarrow> fault + bool \<times> filelib" where
  "create_directory junk lib path =
     andThen (new_file lib path) (\<lambda>(r, lib). case r of
        None \<Rightarrow> Inr (False, lib)
      | Some file \<Rightarrow>
          let zeros = replicate FAT_SECTOR_SIZE 0;
              lib = fl_upd lib file (ff_data_sector_update (\<lambda>_. zeros))
          in andThen (erase_sectors (fl_fs lib) (ff_startcluster (fl_files lib file)) 0
                (unat (fs_sectors_per_cluster (fl_fs lib))) (Some zeros)) (\<lambda>(ok, fs).
             let lib = lib\<lparr>fl_fs := fs\<rparr> in
             if \<not> ok then Inr (False, free_file lib file)
             else andThen (enter_name junk lib file True) (\<lambda>(r, lib). case r of
                 None \<Rightarrow> Inr (False, lib)
               | Some file \<Rightarrow> Inr (True, free_file lib file))))"

section \<open>Sectors of a file\<close>

text \<open>
  Where a search along the chain of a file begins: at the cluster found last when the next
  one is wanted, otherwise at the first one.
\<close>

definition chain_hint :: "fl_file \<Rightarrow> u32 \<Rightarrow> u32 \<times> u32" where
  "chain_hint f ClusterIdx =
     (if ClusterIdx \<noteq> 0 \<and> ClusterIdx = ff_ClusterIdx f + 1 then (ff_ClusterIdx f, ff_CurrentCluster f)
      else (0, ff_startcluster f))"

definition set_lookup :: "u32 \<Rightarrow> u32 \<Rightarrow> fl_file \<Rightarrow> fl_file" where
  "set_lookup idx cluster f = f\<lparr>ff_ClusterIdx := idx, ff_CurrentCluster := cluster\<rparr>"

text \<open>The sectors read, no more than the cluster has left; \<^const>\<open>None\<close> is a result of 0.\<close>

definition read_sectors :: "filelib \<Rightarrow> handle \<Rightarrow> u32 \<Rightarrow> u32 \<Rightarrow> fault + (u32 \<times> u8 list) option \<times> filelib" where
  "read_sectors lib file offset count =
     (let f = fl_files lib file; fs = fl_fs lib; spc = ucast (fs_sectors_per_cluster fs) :: u32 in
      if spc = 0 then Inl Undef
      else
        let ClusterIdx = offset div spc;
            Sector = offset - ClusterIdx * spc;
            count = (if spc < Sector + count then spc - Sector else count)
        in andThen
            (if ClusterIdx = ff_ClusterIdx f then Inr (ff_CurrentCluster f, lib)
             else
               let (i, Cluster) = chain_hint f ClusterIdx in
               andThen (follow fs Cluster (unat (ClusterIdx - i))) (\<lambda>(Cluster, fs).
                 let lib = lib\<lparr>fl_fs := fs\<rparr> in
                 Inr (Cluster, if Cluster \<noteq> FAT32_LAST_CLUSTER then fl_upd lib file (set_lookup ClusterIdx Cluster) else lib)))
            (\<lambda>(Cluster, lib).
              if Cluster = FAT32_LAST_CLUSTER then Inr (None, lib)
              else andThen (fatfs_sector_read (fl_fs lib) (fatfs_lba_of_cluster (fl_fs lib) Cluster + Sector) (unat count))
                (\<lambda>r. Inr (case r of Some bs \<Rightarrow> if count = 0 then None else Some (count, bs) | None \<Rightarrow> None, lib))))"

text \<open>The walk of a write stops at the end of the chain and keeps the cluster before it.\<close>

primrec follow_stop :: "fatfs \<Rightarrow> u32 \<Rightarrow> u32 \<Rightarrow> nat \<Rightarrow> fault + u32 \<times> u32 \<times> fatfs" where
  "follow_stop fs LastCluster Cluster 0 = Inr (LastCluster, Cluster, fs)"
| "follow_stop fs LastCluster Cluster (Suc n) =
     andThen (fatfs_find_next_cluster fs Cluster) (\<lambda>(nextCluster, fs).
       if nextCluster = FAT32_LAST_CLUSTER then Inr (Cluster, nextCluster, fs)
       else follow_stop fs Cluster nextCluster n)"

definition write_sectors :: "filelib \<Rightarrow> handle \<Rightarrow> u32 \<Rightarrow> u8 list \<Rightarrow> u32 \<Rightarrow> fault + u32 \<times> filelib" where
  "write_sectors lib file offset buf count =
     (let f = fl_files lib file; fs = fl_fs lib; spc = ucast (fs_sectors_per_cluster fs) :: u32 in
      if spc = 0 then Inl Undef
      else
        let TotalWriteCount = count;
            ClusterIdx = offset div spc;
            SectorNumber = offset - ClusterIdx * spc;
            count = (if spc < SectorNumber + count then spc - SectorNumber else count)
        in andThen
            (if ClusterIdx = ff_ClusterIdx f then Inr (Some (ff_CurrentCluster f), lib)
             else
               let (i, Cluster) = chain_hint f ClusterIdx in
               andThen (follow_stop fs FAT32_LAST_CLUSTER Cluster (unat (ClusterIdx - i))) (\<lambda>(LastCluster, Cluster, fs).
               andThen (if Cluster = FAT32_LAST_CLUSTER
                        then fatfs_add_free_space fs LastCluster ((TotalWriteCount + spc - 1) div spc)
                        else Inr (True, Cluster, fs)) (\<lambda>(ok, Cluster, fs).
                 let lib = lib\<lparr>fl_fs := fs\<rparr> in
                 Inr (if ok then (Some Cluster, fl_upd lib file (set_lookup ClusterIdx Cluster)) else (None, lib)))))
            (\<lambda>(r, lib). case r of
                None \<Rightarrow> Inr (0, lib)
              | Some Cluster \<Rightarrow>
                  andThen (fatfs_sector_write (fl_fs lib) (fatfs_lba_of_cluster (fl_fs lib) Cluster + SectorNumber) buf (unat count))
                    (\<lambda>(ok, fs). Inr (if ok then count else 0, lib\<lparr>fl_fs := fs\<rparr>))))"

definition fl_fflush :: "filelib \<Rightarrow> handle option \<Rightarrow> fault + filelib" where
  "fl_fflush lib f =
     (let lib = CHECK_FL_INIT lib in
      case f of None \<Rightarrow> Inr lib
      | Some file \<Rightarrow>
          if ff_data_dirty (fl_files lib file) then
            andThen (write_sectors lib file (ff_data_address (fl_files lib file)) (ff_data_sector (fl_files lib file)) 1)
              (\<lambda>(n, lib). Inr (if n \<noteq> 0 then fl_upd lib file (ff_data_dirty_update (\<lambda>_. False)) else lib))
          else Inr lib)"

section \<open>Reading and seeking\<close>

definition bump :: "u32 \<Rightarrow> fl_file \<Rightarrow> fl_file" where
  "bump n f = f\<lparr>ff_bytenum := ff_bytenum f + n\<rparr>"

text \<open>
  \<open>fl_fread\<close> from a sector and an offset in it on, with the bytes \<open>out\<close> read so far: whole
  sectors go to the target directly, parts of a sector through the buffer of the file. Each
  turn reads a byte at least or ends the loop.
\<close>

primrec fread_loop :: "nat \<Rightarrow> filelib \<Rightarrow> handle \<Rightarrow> u32 \<Rightarrow> nat \<Rightarrow> int \<Rightarrow> u8 list \<Rightarrow> fault + u8 list \<times> filelib" where
  "fread_loop 0 lib file sector offset count out = Inl OutOfFuel"
| "fread_loop (Suc fuel) lib file sector offset count out =
     (if \<not> int (length out) < count then Inr (out, lib)
      else if offset = 0 \<and> 512 \<le> count - int (length out) then
        andThen (read_sectors lib file sector (word_of_int ((count - int (length out)) div 512))) (\<lambda>(r, lib). case r of
            None \<Rightarrow> Inr (out, lib)
          | Some (sectorsRead, bs) \<Rightarrow>
              fread_loop fuel (fl_upd lib file (bump (512 * sectorsRead))) file (sector + sectorsRead) 0 count (out @ bs))
      else
        andThen
          (if ff_data_address (fl_files lib file) \<noteq> sector then
             andThen (if ff_data_dirty (fl_files lib file) then fl_fflush lib (Some file) else Inr lib) (\<lambda>lib.
             andThen (read_sectors lib file sector 1) (\<lambda>(r, lib). case r of
                 None \<Rightarrow> Inr (False, lib)
               | Some (_, bs) \<Rightarrow> Inr (True, fl_upd lib file (\<lambda>f. f\<lparr>ff_data_sector := bs, ff_data_address := sector,
                     ff_data_dirty := False\<rparr>))))
           else Inr (True, lib))
          (\<lambda>(ok, lib).
            if \<not> ok then Inr (out, lib)
            else
              let copyCount = nat (min (512 - int offset) (count - int (length out))) in
              fread_loop fuel (fl_upd lib file (bump (word_of_nat copyCount))) file (sector + 1) 0 count
                (out @ slice_of offset copyCount (ff_data_sector (fl_files lib file)))))"

text \<open>\<open>int count = size * length\<close> must not overflow. The result comes with the bytes read.\<close>

definition fl_fread :: "filelib \<Rightarrow> int \<Rightarrow> int \<Rightarrow> handle option \<Rightarrow> fault + int \<times> u8 list \<times> filelib" where
  "fl_fread lib fsize flength f =
     (if fsize * flength < - (2 ^ 31) \<or> 2 ^ 31 \<le> fsize * flength then Inl Undef
      else
        let count = fsize * flength; lib = CHECK_FL_INIT lib in
        case f of None \<Rightarrow> Inr (- 1, [], lib)
        | Some file \<Rightarrow>
            let ff = fl_files lib file in
            if ff_flags ff AND FILE_READ = 0 then Inr (- 1, [], lib)
            else if count = 0 then Inr (0, [], lib)
            else if ff_filelength ff \<le> ff_bytenum ff then Inr (- 1, [], lib)
            else
              let count = (if ff_filelength ff < ff_bytenum ff + word_of_int count
                           then sint (ff_filelength ff - ff_bytenum ff) else count)
              in andThen (fread_loop (Suc (nat count)) lib file (ff_bytenum ff div 512) (unat (ff_bytenum ff mod 512)) count [])
                   (\<lambda>(out, lib). Inr (int (length out), out, lib)))"

definition fl_fgetc :: "filelib \<Rightarrow> handle option \<Rightarrow> fault + int \<times> filelib" where
  "fl_fgetc lib f = andThen (fl_fread lib 1 1 f) (\<lambda>(res, out, lib).
     Inr (if res = 1 then (int (unat (out ! 0)), lib) else (res, lib)))"

text \<open>\<open>n - 1\<close> characters at most; the line and whether there was one.\<close>

primrec fgets_loop :: "nat \<Rightarrow> filelib \<Rightarrow> handle option \<Rightarrow> u8 list \<Rightarrow> fault + u8 list \<times> filelib" where
  "fgets_loop 0 lib f s = Inr (s, lib)"
| "fgets_loop (Suc k) lib f s =
     andThen (fl_fgetc lib f) (\<lambda>(ch, lib).
       if ch < 0 then Inr (s, lib)
       else if ch = 10 then Inr (s @ [10], lib)
       else fgets_loop k lib f (s @ [word_of_int ch]))"

definition fl_fgets :: "filelib \<Rightarrow> int \<Rightarrow> handle option \<Rightarrow> fault + u8 list option \<times> filelib" where
  "fl_fgets lib n f =
     andThen (fgets_loop (nat (n - 1)) lib f []) (\<lambda>(s, lib). Inr (if s \<noteq> [] then Some s else None, lib))"

definition SEEK_SET :: int where "SEEK_SET = 0"
definition SEEK_CUR :: int where "SEEK_CUR = 1"
definition SEEK_END :: int where "SEEK_END = 2"

text \<open>A \<open>long\<close> has 32 bits on Windows; \<open>offset = -offset\<close> overflows for the least one.\<close>

definition fl_fseek :: "filelib \<Rightarrow> handle option \<Rightarrow> int \<Rightarrow> int \<Rightarrow> fault + int \<times> filelib" where
  "fl_fseek lib f offset origin =
     (let lib = CHECK_FL_INIT lib in
      case f of None \<Rightarrow> Inr (- 1, lib)
      | Some file \<Rightarrow>
          if origin = SEEK_END \<and> offset \<noteq> 0 then Inr (- 1, lib)
          else
            let lib = fl_upd lib file (\<lambda>f. f\<lparr>ff_data_address := 0xFFFFFFFF, ff_data_dirty := False\<rparr>);
                ff = fl_files lib file;
                at = (\<lambda>n. Inr (0, fl_upd lib file (ff_bytenum_update (\<lambda>_. n))))
            in if origin = SEEK_SET then
                 at (if ff_filelength ff < word_of_int offset then ff_filelength ff else word_of_int offset)
               else if origin = SEEK_CUR then
                 (if 0 \<le> offset then
                    at (if ff_filelength ff < ff_bytenum ff + word_of_int offset then ff_filelength ff
                        else ff_bytenum ff + word_of_int offset)
                  else if offset = - (2 ^ 31) then Inl Undef
                  else at (if ff_bytenum ff < word_of_int (- offset) then 0 else ff_bytenum ff - word_of_int (- offset)))
               else if origin = SEEK_END then at (ff_filelength ff)
               else Inr (- 1, lib))"

definition fl_fgetpos :: "filelib \<Rightarrow> handle option \<Rightarrow> u32 option" where
  "fl_fgetpos lib f = map_option (\<lambda>file. ff_bytenum (fl_files lib file)) f"

definition fl_ftell :: "filelib \<Rightarrow> handle option \<Rightarrow> int" where
  "fl_ftell lib f = sint (case fl_fgetpos lib f of None \<Rightarrow> 0 | Some pos \<Rightarrow> pos)"

definition fl_feof :: "filelib \<Rightarrow> handle option \<Rightarrow> int" where
  "fl_feof lib f = (case f of None \<Rightarrow> - 1
     | Some file \<Rightarrow> if ff_bytenum (fl_files lib file) = ff_filelength (fl_files lib file) then - 1 else 0)"

section \<open>Writing\<close>

text \<open>The sector buffer of a file goes back to its sector and is given up.\<close>

definition drop_buffer :: "filelib \<Rightarrow> handle \<Rightarrow> fault + filelib" where
  "drop_buffer lib file =
     (if ff_data_address (fl_files lib file) = 0xFFFFFFFF then Inr lib
      else andThen (if ff_data_dirty (fl_files lib file) then fl_fflush lib (Some file) else Inr lib) (\<lambda>lib.
        Inr (fl_upd lib file (\<lambda>f. f\<lparr>ff_data_address := 0xFFFFFFFF, ff_data_dirty := False\<rparr>))))"

text \<open>\<open>load_buffer\<close>: the buffer holds the sector; a sector that cannot be read is taken as zeros.\<close>

definition load_buffer :: "filelib \<Rightarrow> handle \<Rightarrow> u32 \<Rightarrow> bool \<Rightarrow> fault + filelib" where
  "load_buffer lib file sector whole =
     (if ff_data_address (fl_files lib file) = sector then Inr lib
      else andThen (if ff_data_dirty (fl_files lib file) then fl_fflush lib (Some file) else Inr lib) (\<lambda>lib.
        andThen
          (if whole then Inr lib
           else andThen (read_sectors lib file sector 1) (\<lambda>(r, lib).
             Inr (fl_upd lib file (ff_data_sector_update (\<lambda>_.
               case r of Some (_, bs) \<Rightarrow> bs | None \<Rightarrow> replicate FAT_SECTOR_SIZE 0)))))
          (\<lambda>lib. Inr (fl_upd lib file (\<lambda>f. f\<lparr>ff_data_address := sector, ff_data_dirty := False\<rparr>)))))"

primrec fwrite_loop :: "nat \<Rightarrow> filelib \<Rightarrow> handle \<Rightarrow> u32 \<Rightarrow> nat \<Rightarrow> u8 list \<Rightarrow> fault + filelib" where
  "fwrite_loop 0 lib file sector offset buffer = Inl OutOfFuel"
| "fwrite_loop (Suc fuel) lib file sector offset buffer =
     (if buffer = [] then Inr lib
      else if offset = 0 \<and> 512 \<le> length buffer then
        andThen (drop_buffer lib file) (\<lambda>lib.
        andThen (write_sectors lib file sector buffer (word_of_nat (length buffer div 512))) (\<lambda>(sectorsWrote, lib).
          let lib = fl_upd lib file (bump (512 * sectorsWrote)) in
          if sectorsWrote = 0 then Inr lib
          else fwrite_loop fuel lib file (sector + sectorsWrote) 0 (drop (512 * unat sectorsWrote) buffer)))
      else
        let copyCount = min (512 - offset) (length buffer) in
        andThen (load_buffer lib file sector (copyCount = 512)) (\<lambda>lib.
          fwrite_loop fuel
            (fl_upd lib file (\<lambda>f. bump (word_of_nat copyCount) (f\<lparr>ff_data_sector :=
               overlay offset (take copyCount buffer) (ff_data_sector f), ff_data_dirty := True\<rparr>)))
            file (sector + 1) 0 (drop copyCount buffer)))"

text \<open>\<open>data\<close> holds \<open>size * count\<close> bytes. The result is their number, whatever has been written.\<close>

definition fl_fwrite :: "filelib \<Rightarrow> u8 list \<Rightarrow> handle option \<Rightarrow> fault + int \<times> filelib" where
  "fl_fwrite lib data f =
     (if 2 ^ 31 \<le> length data then Inl Undef
      else
        let lib = CHECK_FL_INIT lib in
        case f of None \<Rightarrow> Inr (- 1, lib)
        | Some file \<Rightarrow>
            if ff_flags (fl_files lib file) AND FILE_WRITE = 0 then Inr (- 1, lib)
            else
              let lib = (if ff_flags (fl_files lib file) AND FILE_APPEND \<noteq> 0
                         then fl_upd lib file (\<lambda>f. f\<lparr>ff_bytenum := ff_filelength f\<rparr>) else lib);
                  pos = ff_bytenum (fl_files lib file)
              in andThen (fwrite_loop (Suc (length data)) lib file (pos div 512) (unat (pos mod 512)) data) (\<lambda>lib.
                   Inr (int (length data), fl_upd lib file (\<lambda>f.
                     if ff_filelength f < ff_bytenum f
                     then f\<lparr>ff_filelength := ff_bytenum f, ff_filelength_changed := True\<rparr> else f))))"

definition fl_fputc :: "filelib \<Rightarrow> int \<Rightarrow> handle option \<Rightarrow> fault + int \<times> filelib" where
  "fl_fputc lib c f = andThen (fl_fwrite lib [word_of_int c] f) (\<lambda>(res, lib).
     Inr (if res = 1 then c else res, lib))"

definition fl_fputs :: "filelib \<Rightarrow> u8 list \<Rightarrow> handle option \<Rightarrow> fault + int \<times> filelib" where
  "fl_fputs lib str f = fl_fwrite lib str f"

section \<open>The interface\<close>

definition mode_flag :: "u8 \<Rightarrow> u8 \<Rightarrow> u8" where
  "mode_flag flags c =
     (if c = 114 \<or> c = 82 then flags OR FILE_READ
      else if c = 119 \<or> c = 87 then flags OR FILE_WRITE OR FILE_ERASE OR FILE_CREATE
      else if c = 97 \<or> c = 65 then flags OR FILE_WRITE OR FILE_APPEND OR FILE_CREATE
      else if c = 43 then
        (if flags AND FILE_READ \<noteq> 0 then flags OR FILE_WRITE
         else if flags AND FILE_WRITE \<noteq> 0 then flags OR FILE_READ OR FILE_ERASE OR FILE_CREATE
         else if flags AND FILE_APPEND \<noteq> 0 then flags OR FILE_READ OR FILE_WRITE OR FILE_APPEND OR FILE_CREATE
         else flags)
      else if c = 98 \<or> c = 66 then flags OR FILE_BINARY
      else flags)"

definition mode_flags :: "u8 list \<Rightarrow> u8" where
  "mode_flags mode = foldl mode_flag 0 mode"

definition fl_fopen :: "u8 list \<Rightarrow> filelib \<Rightarrow> u8 list option \<Rightarrow> u8 list option \<Rightarrow> fault + handle option \<times> filelib" where
  "fl_fopen junk lib path mode =
     (let lib = CHECK_FL_INIT lib in
      if \<not> fl_valid lib then Inr (None, lib)
      else case (path, mode) of
        (Some path, Some mode) \<Rightarrow>
          (let flags = mode_flags mode;
               flags = (if \<not> md_can_write (fs_disk_io (fl_fs lib))
                        then flags AND NOT (FILE_CREATE OR FILE_WRITE OR FILE_APPEND) else flags)
           in andThen (if flags AND FILE_READ \<noteq> 0 then open_file lib path else Inr (None, lib)) (\<lambda>(r, lib).
              andThen (if r = None \<and> flags AND FILE_CREATE \<noteq> 0 then create_file junk lib path else Inr (r, lib)) (\<lambda>(r, lib).
              andThen (if flags AND FILE_READ = 0 \<and> flags AND FILE_CREATE \<noteq> 0 \<and> r = None \<and>
                          flags AND (FILE_WRITE OR FILE_APPEND) \<noteq> 0
                       then open_file lib path else Inr (r, lib)) (\<lambda>(r, lib).
                Inr (r, case r of None \<Rightarrow> lib | Some file \<Rightarrow> fl_upd lib file (ff_flags_update (\<lambda>_. flags)))))))
      | _ \<Rightarrow> Inr (None, lib))"

definition fl_fclose :: "filelib \<Rightarrow> handle option \<Rightarrow> fault + filelib" where
  "fl_fclose lib f =
     (let lib = CHECK_FL_INIT lib in
      case f of None \<Rightarrow> Inr lib
      | Some file \<Rightarrow>
          andThen (fl_fflush lib (Some file)) (\<lambda>lib.
          andThen (if ff_filelength_changed (fl_files lib file) then
                     andThen (fatfs_update_file_length (fl_fs lib) (ff_parentcluster (fl_files lib file))
                         (ff_shortfilename (fl_files lib file)) (ff_filelength (fl_files lib file)))
                       (\<lambda>(_, fs). Inr (lib\<lparr>fl_fs := fs\<rparr>))
                   else Inr lib) (\<lambda>lib.
            purge_lib (free_file (fl_upd lib file (\<lambda>f. f\<lparr>ff_bytenum := 0, ff_filelength := 0, ff_startcluster := 0,
              ff_data_address := 0xFFFFFFFF, ff_data_dirty := False, ff_filelength_changed := False\<rparr>)) file))))"

text \<open>A file that cannot be removed after it has been opened stays open.\<close>

definition fl_remove :: "u8 list \<Rightarrow> filelib \<Rightarrow> u8 list \<Rightarrow> fault + int \<times> filelib" where
  "fl_remove junk lib filename =
     andThen (fl_fopen junk lib (Some filename) (Some [114])) (\<lambda>(r, lib). case r of
        None \<Rightarrow> Inr (- 1, lib)
      | Some file \<Rightarrow>
          andThen (fatfs_free_cluster_chain (fl_fs lib) (ff_startcluster (fl_files lib file))) (\<lambda>(ok, fs).
            let lib = lib\<lparr>fl_fs := fs\<rparr> in
            if \<not> ok then Inr (- 1, lib)
            else andThen (fatfs_mark_file_deleted fs (ff_parentcluster (fl_files lib file)) (ff_shortfilename (fl_files lib file)))
              (\<lambda>(ok, fs).
                let lib = lib\<lparr>fl_fs := fs\<rparr> in
                if \<not> ok then Inr (- 1, lib)
                else andThen (fl_fclose lib (Some file)) (\<lambda>lib. Inr (0, lib)))))"

definition fl_createdirectory :: "u8 list \<Rightarrow> filelib \<Rightarrow> u8 list \<Rightarrow> fault + bool \<times> filelib" where
  "fl_createdirectory junk lib path = create_directory junk (CHECK_FL_INIT lib) path"

definition fl_opendir :: "filelib \<Rightarrow> u8 list \<Rightarrow> fault + fs_dir_list_status option \<times> filelib" where
  "fl_opendir lib path =
     (let lib = CHECK_FL_INIT lib in
      andThen (fatfs_total_path_levels (Some path)) (\<lambda>levels.
        if levels + 1 = 0 then
          (let cluster = fatfs_get_root_cluster (fl_fs lib) in
           Inr (if cluster \<noteq> FAT32_INVALID_CLUSTER then Some (fatfs_list_directory_start cluster) else None, lib))
        else andThen (open_directory (fl_fs lib) path) (\<lambda>(r, fs).
          Inr (case r of
                 Some cluster \<Rightarrow> if cluster \<noteq> FAT32_INVALID_CLUSTER then Some (fatfs_list_directory_start cluster) else None
               | None \<Rightarrow> None, lib\<lparr>fl_fs := fs\<rparr>))))"

definition fl_readdir :: "lfn_cache \<Rightarrow> filelib \<Rightarrow> fs_dir_list_status \<Rightarrow>
    fault + fs_dir_ent option \<times> fs_dir_list_status \<times> filelib" where
  "fl_readdir junk lib dirls =
     (let lib = CHECK_FL_INIT lib in
      andThen (fatfs_list_directory_next junk (fl_fs lib) dirls) (\<lambda>(r, dirls, fs).
        Inr (r, dirls, lib\<lparr>fl_fs := fs\<rparr>)))"

definition fl_is_dir :: "filelib \<Rightarrow> u8 list \<Rightarrow> fault + bool \<times> filelib" where
  "fl_is_dir lib path = andThen (fl_opendir lib path) (\<lambda>(r, lib). Inr (r \<noteq> None, lib))"

end
