(* ===== verification/VtoyWindows.thy ===== *)
theory VtoyWindows
  imports VtoyLinux FatFile
begin

text \<open>
  The Windows tool (vtoydump_windows.c): finding the parameter block, finding the drive it
  names, and mounting the image, by the virtual disk service or by imdisk, whose files it
  copies from the FAT partition of the disk with the FAT library. The answers of the Windows
  API are fields of a record, its effects changes of the record; paths are lists of bytes.
  Debug output, and what is released at the end, are left out.
\<close>

section \<open>The system\<close>

text \<open>
  \<open>wn_token\<close>: the privileges of the process and whether each is enabled, if they can be read.
  \<open>wn_dummy_status\<close> and \<open>wn_efivar\<close>: the error code of reading a dummy variable and the
  contents of the variable of Ventoy, which depend on the privileges. \<open>wn_table\<close>: the error
  code of \<open>GetSystemFirmwareTable\<close> and the table. \<open>wn_wide_length\<close>: the length of a UTF-8
  path in UTF-16, with its terminator. \<open>wn_attr\<close>: the attributes of a file that
  opens, by its name in UTF-8 (\<open>True\<close>) or in the code page. \<open>wn_file\<close>: the contents of a file
  that opens for reading, \<open>wn_create\<close>: whether a new file can be created. \<open>wn_extent\<close>: the number
  of the disk a volume begins on; \<open>wn_disk\<close>: the bytes of a disk that opens, \<open>wn_disk_read\<close>:
  whether a range of it can be read; \<open>wn_disk_length\<close>: whether its length is known. The
  service manager and the virtual disk service answer with error codes, 0 for success.
\<close>

record windows =
  wn_token :: "(u8 list \<times> bool) list option"
  wn_adjust_ok :: bool
  wn_dummy_status :: "(u8 list \<times> bool) list option \<Rightarrow> u32"
  wn_efivar :: "(u8 list \<times> bool) list option \<Rightarrow> u8 list option"
  wn_table :: "u8 list \<Rightarrow> u32 \<times> u8 list"
  wn_malloc_ok :: "nat \<Rightarrow> bool"
  wn_junk :: "nat \<Rightarrow> u8"
  wn_wide_length :: "u8 list \<Rightarrow> nat"
  wn_attr :: "bool \<Rightarrow> u8 list \<Rightarrow> u32 option"
  wn_file :: "u8 list \<Rightarrow> u8 list option"
  wn_create :: "u8 list \<Rightarrow> bool"
  wn_drive_strings :: "u8 list list"
  wn_logical_drives :: "nat \<Rightarrow> u32"
  wn_extent :: "u8 list \<Rightarrow> nat option"
  wn_disk :: "nat \<Rightarrow> (nat \<Rightarrow> u8) option"
  wn_disk_read :: "nat \<Rightarrow> nat \<Rightarrow> nat \<Rightarrow> bool"
  wn_disk_length :: "nat \<Rightarrow> bool"
  wn_open_manager :: u32
  wn_create_service :: "u8 list \<Rightarrow> u8 list \<Rightarrow> u32"
  wn_open_service :: "u8 list \<Rightarrow> bool"
  wn_start_service :: "u8 list \<Rightarrow> u32"
  wn_open_disk :: "u8 list \<Rightarrow> u32"
  wn_attach_disk :: "bool \<Rightarrow> u32"
  wn_disk_path :: "u32 \<times> string"
  wn_define_device :: "nat \<Rightarrow> bool"
  wn_windows8 :: bool
  wn_commands :: "u8 list list"
  wn_output :: "u8 list list"

definition bytes_of :: "string \<Rightarrow> u8 list" where
  "bytes_of s = map of_char s"

definition say :: "u8 list \<Rightarrow> windows \<Rightarrow> windows" where
  "say l w = w\<lparr>wn_output := wn_output w @ [l]\<rparr>"

text \<open>\<open>sprintf_s\<close> ends the program when the string and its terminator do not fit.\<close>

definition sprintf_s :: "nat \<Rightarrow> u8 list \<Rightarrow> fault + u8 list" where
  "sprintf_s n s = (if length s < n then Inr s else Inl Abort)"

definition MAX_PATH :: nat where "MAX_PATH = 260"
definition FILE_ATTRIBUTE_DIRECTORY :: u32 where "FILE_ATTRIBUTE_DIRECTORY = 0x10"
definition ERROR_INVALID_FUNCTION :: u32 where "ERROR_INVALID_FUNCTION = 1"
definition ERROR_IO_PENDING :: u32 where "ERROR_IO_PENDING = 997"
definition ERROR_SERVICE_EXISTS :: u32 where "ERROR_SERVICE_EXISTS = 1073"
definition ERROR_SERVICE_ALREADY_RUNNING :: u32 where "ERROR_SERVICE_ALREADY_RUNNING = 1056"
definition ERROR_PRIVILEGE_NOT_HELD :: u32 where "ERROR_PRIVILEGE_NOT_HELD = 1314"
definition ERROR_VIRTDISK_PROVIDER_NOT_FOUND :: u32 where "ERROR_VIRTDISK_PROVIDER_NOT_FOUND = 0xC03A0014"

section \<open>Files\<close>

definition IsUTF8Encode :: "u8 list \<Rightarrow> bool" where
  "IsUTF8Encode src \<longleftrightarrow> (\<exists>b \<in> set (takeWhile (\<lambda>b. b \<noteq> 0) (take MAX_PATH src)). 127 < b)"

text \<open>A path in UTF-8 is converted into an array of \<open>MAX_PATH\<close> characters, whatever its length.\<close>

definition vtoy_is_file_exist :: "windows \<Rightarrow> u8 list \<Rightarrow> fault + bool" where
  "vtoy_is_file_exist w FilePath =
     (if IsUTF8Encode FilePath \<and> MAX_PATH < wn_wide_length w FilePath then Inl Undef
      else Inr (case wn_attr w (IsUTF8Encode FilePath) FilePath of
          None \<Rightarrow> False
        | Some Attr \<Rightarrow> Attr AND FILE_ATTRIBUTE_DIRECTORY = 0))"

definition SaveBuffer2File :: "windows \<Rightarrow> u8 list \<Rightarrow> u8 list \<Rightarrow> int \<times> windows" where
  "SaveBuffer2File w Fullpath Buffer =
     (if wn_create w Fullpath \<and> wn_file w Fullpath = None
      then (0, w\<lparr>wn_file := (wn_file w)(Fullpath := Some Buffer)\<rparr>) else (1, w))"

section \<open>The parameter block\<close>

text \<open>
  The first privilege whose name begins with \<open>SeSystemEnvironmentPrivilege\<close> is enabled;
  names the system does not know do not occur.
\<close>

fun enable_first :: "(u8 list \<times> bool) list \<Rightarrow> (u8 list \<times> bool) list option" where
  "enable_first [] = None"
| "enable_first ((name, on) # ps) =
     (if take 28 name = bytes_of ''SeSystemEnvironmentPrivilege''
      then (if on then None else Some ((name, True) # ps))
      else map_option (Cons (name, on)) (enable_first ps))"

definition vtoy_grant_privilege :: "windows \<Rightarrow> int \<times> windows" where
  "vtoy_grant_privilege w = (case wn_token w of
      None \<Rightarrow> (1, w)
    | Some ps \<Rightarrow> (case enable_first ps of
        None \<Rightarrow> (0, w)
      | Some ps' \<Rightarrow> (0, if wn_adjust_ok w then w\<lparr>wn_token := Some ps'\<rparr> else w)))"

definition vtoy_is_efi_system :: "windows \<Rightarrow> bool \<times> windows" where
  "vtoy_is_efi_system w =
     (let Status = wn_dummy_status w (wn_token w);
          w = (if Status = ERROR_PRIVILEGE_NOT_HELD then snd (vtoy_grant_privilege w) else w);
          Status = wn_dummy_status w (wn_token w)
      in (Status \<noteq> ERROR_INVALID_FUNCTION, w))"

text \<open>A variable that is larger than the buffer is not read.\<close>

definition vtoy_os_param_from_efivar_win :: "windows \<Rightarrow> ventoy_os_param \<Rightarrow> int \<times> ventoy_os_param \<times> windows" where
  "vtoy_os_param_from_efivar_win w param =
     (let w = snd (vtoy_grant_privilege w) in
      case wn_efivar w (wn_token w) of
        None \<Rightarrow> (1, param, w)
      | Some var \<Rightarrow>
          if length var > 512 then (1, param, w)
          else (if length var \<noteq> 512 then 1 else 0, var @ drop (length var) param, w))"

text \<open>The loop over all offsets of a file keeps the last block it finds; the others stop at the first.\<close>

primrec last_block :: "u8 list \<Rightarrow> nat \<Rightarrow> nat \<Rightarrow> nat option \<Rightarrow> fault + nat option" where
  "last_block buf j 0 found = Inr found"
| "last_block buf j (Suc k) found =
     andThen (vtoy_check_os_param (drop j buf)) (\<lambda>ok. last_block buf (j + 1) k (if ok then Some j else found))"

primrec first_block :: "u8 list \<Rightarrow> nat \<Rightarrow> nat \<Rightarrow> fault + nat option" where
  "first_block buf j 0 = Inr None"
| "first_block buf j (Suc k) =
     andThen (vtoy_check_os_param (drop j buf)) (\<lambda>ok. if ok then Inr (Some j) else first_block buf (j + 1) k)"

definition take_block :: "u8 list \<Rightarrow> ventoy_os_param \<Rightarrow> nat option \<Rightarrow> int \<times> ventoy_os_param" where
  "take_block buf param r = (case r of None \<Rightarrow> (1, param) | Some j \<Rightarrow> (0, take 512 (drop j buf)))"

text \<open>\<open>ftell\<close> fails for a file of 2 GB, and \<open>malloc (-1)\<close> then.\<close>

definition vtoy_os_param_from_file :: "windows \<Rightarrow> ventoy_os_param \<Rightarrow> u8 list \<Rightarrow> fault + int \<times> ventoy_os_param" where
  "vtoy_os_param_from_file w param path = (case wn_file w path of
      None \<Rightarrow> Inr (1, param)
    | Some Buffer \<Rightarrow>
        if 2 ^ 31 \<le> length Buffer \<or> \<not> wn_malloc_ok w (length Buffer) then Inr (1, param)
        else andThen (last_block Buffer 0 (length Buffer) None) (\<lambda>r. Inr (take_block Buffer param r)))"

definition vtoy_os_param_from_ibft :: "windows \<Rightarrow> ventoy_os_param \<Rightarrow> fault + int \<times> ventoy_os_param" where
  "vtoy_os_param_from_ibft w param =
     (case wn_table w (bytes_of ''TFBi'') of (ErrorCode, table) \<Rightarrow>
        let DataSize = length table;
            DataBuf = (if DataSize \<le> 1024 then table else []) @ map (wn_junk w) [(if DataSize \<le> 1024 then DataSize else 0) ..< 1024]
        in if ErrorCode = 0 \<and> 0 < DataSize \<and> DataSize < 1024
           then andThen (first_block DataBuf 0 DataSize) (\<lambda>r. Inr (take_block DataBuf param r))
           else Inr (1, param))"

definition vtoy_os_param_from_acpi_win :: "windows \<Rightarrow> ventoy_os_param \<Rightarrow> fault + int \<times> ventoy_os_param" where
  "vtoy_os_param_from_acpi_win w param =
     (case wn_table w (bytes_of ''YOTV'') of (ErrorCode, table) \<Rightarrow>
        if \<not> wn_malloc_ok w (length table) then Inr (1, param)
        else if ErrorCode = 0
        then andThen (first_block table 0 (length table)) (\<lambda>r. Inr (take_block table param r))
        else Inr (1, param))"

section \<open>The drive\<close>

definition upto_colon :: "u8 list \<Rightarrow> u8 list" where
  "upto_colon path = (if ch_colon \<in> set path then takeWhile (\<lambda>c. c \<noteq> ch_colon) path @ [ch_colon] else path)"

definition disk_bytes :: "(nat \<Rightarrow> u8) \<Rightarrow> nat \<Rightarrow> nat \<Rightarrow> u8 list" where
  "disk_bytes d a n = map d [a ..< a + n]"

text \<open>The number of the disk and the identifier in its first sector.\<close>

definition GetPhyDiskUUID :: "windows \<Rightarrow> u8 list \<Rightarrow> fault + (nat \<times> u8 list) option" where
  "GetPhyDiskUUID w LogicalDrive =
     andThen (sprintf_s 128 (bytes_of [CHR 0x5c, CHR 0x5c, CHR ''.'', CHR 0x5c] @ LogicalDrive)) (\<lambda>PhyPath.
       Inr (case wn_extent w (upto_colon PhyPath) of
              None \<Rightarrow> None
            | Some n \<Rightarrow> (case wn_disk w n of
                None \<Rightarrow> None
              | Some d \<Rightarrow> if wn_disk_read w n 0 512 then Some (n, slice_of 0x180 16 (disk_bytes d 0 512)) else None)))"

text \<open>The path after its first character, up to a null byte.\<close>

definition img_path_tail :: "ventoy_os_param \<Rightarrow> fault + u8 list" where
  "img_path_tail p = (if 0 \<notin> set (drop 46 p) then Inl Undef else Inr (takeWhile (\<lambda>b. b \<noteq> 0) (drop 46 p)))"

text \<open>The loop over the drives: \<open>phy\<close> is the disk looked at last, a drive that lacks the file keeps its name in \<open>diskname\<close>.\<close>

fun find_drive :: "windows \<Rightarrow> ventoy_os_param \<Rightarrow> nat \<Rightarrow> u8 list list \<Rightarrow> int \<Rightarrow> u8 list \<Rightarrow> fault + int \<times> int \<times> u8 list" where
  "find_drive w param buflen [] phy diskname = Inr (1, phy, diskname)"
| "find_drive w param buflen (Pos # drives) phy diskname =
     andThen (GetPhyDiskUUID w Pos) (\<lambda>r. case r of
        None \<Rightarrow> find_drive w param buflen drives phy diskname
      | Some (n, UUID) \<Rightarrow>
          if UUID \<noteq> param_disk_guid param then find_drive w param buflen drives (int n) diskname
          else andThen (sprintf_s buflen Pos) (\<lambda>diskname.
            andThen (img_path_tail param) (\<lambda>path.
            andThen (sprintf_s 512 (diskname @ path)) (\<lambda>FilePath.
            andThen (vtoy_is_file_exist w FilePath) (\<lambda>found.
              if found then Inr (0, int n, diskname)
              else find_drive w param buflen drives (int n) diskname)))))"

definition vtoy_find_disk_win :: "windows \<Rightarrow> ventoy_os_param \<Rightarrow> int \<Rightarrow> u8 list \<Rightarrow> nat \<Rightarrow> fault + int \<times> int \<times> u8 list" where
  "vtoy_find_disk_win w param phy diskname buflen =
     (if \<not> wn_malloc_ok w (length (concat (map (\<lambda>s. s @ [0]) (wn_drive_strings w))) + 2) then Inr (0, phy, diskname)
      else find_drive w param buflen (wn_drive_strings w) (sint (le32_to_cpu (map (wn_junk w) [0..<4]))) diskname)"

definition vtoy_print_os_param_win :: "windows \<Rightarrow> ventoy_os_param \<Rightarrow> u8 list \<Rightarrow> fault + int \<times> windows" where
  "vtoy_print_os_param_win w param diskname =
     andThen (img_path_tail param) (\<lambda>path. Inr (0, say (diskname @ path) w))"

section \<open>Drivers and drive letters\<close>

text \<open>The name of a driver is its path after the last slash; without a slash it is empty.\<close>

definition driver_name :: "u8 list \<Rightarrow> fault + u8 list" where
  "driver_name DrvBinPath =
     (if ch_backslash \<in> set DrvBinPath \<or> ch_slash \<in> set DrvBinPath
      then sprintf_s 256 (rev (takeWhile (\<lambda>c. c \<noteq> ch_backslash \<and> c \<noteq> ch_slash) (rev DrvBinPath)))
      else Inr [])"

definition say_code :: "string \<Rightarrow> u32 \<Rightarrow> windows \<Rightarrow> windows" where
  "say_code s code w = say (bytes_of (s @ show_nat (unat code))) w"

definition vtoy_load_nt_driver :: "windows \<Rightarrow> u8 list \<Rightarrow> fault + int \<times> windows" where
  "vtoy_load_nt_driver w DrvBinPath =
     andThen (driver_name DrvBinPath) (\<lambda>name.
       if wn_open_manager w \<noteq> 0 then Inr (1, say_code ''OpenSCManager failed Error:'' (wn_open_manager w) w)
       else
         let Status = wn_create_service w name DrvBinPath in
         if Status \<noteq> 0 \<and> Status \<noteq> ERROR_IO_PENDING \<and> Status \<noteq> ERROR_SERVICE_EXISTS
         then Inr (1, say_code ''CreateService failed v '' Status w)
         else if Status \<noteq> 0 \<and> \<not> wn_open_service w name
         then Inr (1, say_code ''OpenService failed '' Status w)
         else Inr (if wn_start_service w name = 0 \<or> wn_start_service w name = ERROR_SERVICE_ALREADY_RUNNING
                   then 0 else 1, w))"

text \<open>\<open>free_drive DriveBits Drives k\<close>: the loop from drive \<open>k - 1\<close> down to A; 0 when none is free.\<close>

primrec free_drive :: "u32 \<Rightarrow> u32 \<Rightarrow> nat \<Rightarrow> u8" where
  "free_drive DriveBits Drives 0 = 0"
| "free_drive DriveBits Drives (Suc i) =
     (let Mask = push_bit i 1 in
      if DriveBits AND Mask > 0 \<and> Drives AND Mask = 0 then 65 + word_of_nat i
      else free_drive DriveBits Drives i)"

definition vtoy_find_free_drive :: "windows \<Rightarrow> u32 \<Rightarrow> u8" where
  "vtoy_find_free_drive w DriveBits = free_drive DriveBits (wn_logical_drives w 0) 26"

section \<open>Mounting with the virtual disk service\<close>

definition image_path :: "nat \<Rightarrow> u8 list \<Rightarrow> ventoy_os_param \<Rightarrow> fault + u8 list" where
  "image_path n diskname param = andThen (img_path_tail param) (\<lambda>path. sprintf_s n (diskname @ path))"

text \<open>Waiting until the set of drives changes: at most \<open>fuel\<close> polls are looked at.\<close>

primrec wait_drive :: "nat \<Rightarrow> windows \<Rightarrow> u32 \<Rightarrow> nat \<Rightarrow> fault + u32" where
  "wait_drive 0 w Drives0 n = Inl OutOfFuel"
| "wait_drive (Suc fuel) w Drives0 n =
     (if wn_logical_drives w n \<noteq> Drives0 then Inr (wn_logical_drives w n) else wait_drive fuel w Drives0 (n + 1))"

primrec lowest_drive :: "nat \<Rightarrow> u32 \<Rightarrow> u8 \<Rightarrow> u8" where
  "lowest_drive 0 Drives drive = drive"
| "lowest_drive (Suc k) Drives drive =
     (if Drives AND 1 = 0 then lowest_drive k (drop_bit 1 Drives) (drive + 1) else drive)"

text \<open>Three attempts at most, each with its message.\<close>

primrec define_device :: "nat \<Rightarrow> nat \<Rightarrow> windows \<Rightarrow> windows" where
  "define_device 0 i w = w"
| "define_device (Suc k) i w =
     (let w' = say (bytes_of (if wn_define_device w i then ''DefineDosDevice success'' else ''DefineDosDevice failed'')) w
      in if wn_define_device w i then w' else define_device k (i + 1) w')"

primrec after_cdrom :: "string \<Rightarrow> string option" where
  "after_cdrom [] = None"
| "after_cdrom (c # cs) = (if take 5 (c # cs) = ''CDROM'' then Some (c # cs) else after_cdrom cs)"

definition upper_char :: "char \<Rightarrow> char" where
  "upper_char c = char_of (unat (upper (of_char c)))"

definition device_name :: "windows \<Rightarrow> string option" where
  "device_name w = map_option (\<lambda>Pos. [CHR 0x5c] @ ''Device'' @ [CHR 0x5c] @ Pos) (after_cdrom (map upper_char (snd (wn_disk_path w))))"

definition vtoy_mount_iso_by_api :: "nat \<Rightarrow> windows \<Rightarrow> ventoy_os_param \<Rightarrow> u8 list \<Rightarrow> u8 \<Rightarrow> fault + int \<times> windows" where
  "vtoy_mount_iso_by_api fuel w param diskname drive =
     andThen (image_path 512 diskname param) (\<lambda>FilePath.
       let mounted = (\<lambda>drive w. Inr (0, say ([drive, ch_colon, ch_space] @ FilePath) w));
           attach = wn_attach_disk w (drive \<noteq> 0)
       in
       if wn_open_disk w FilePath = ERROR_VIRTDISK_PROVIDER_NOT_FOUND then
         Inr (1, say (bytes_of ''VirtualDisk for ISO file is not supported in current system'') w)
       else if wn_open_disk w FilePath \<noteq> 0 then
         Inr (1, say_code ''Failed to open virtual disk ErrorCode:'' (wn_open_disk w FilePath) w)
       else if attach \<noteq> 0 then Inr (1, say_code ''Failed to attach virtual disk ErrorCode:'' attach w)
       else if drive \<noteq> 0 then
         (if fst (wn_disk_path w) \<noteq> 0 then
            Inr (1, say_code ''Failed GetVirtualDiskPhysicalPath ErrorCode:'' (fst (wn_disk_path w)) w)
          else case device_name w of
            None \<Rightarrow> Inr (1, say (bytes_of ''Invalid physical drive'') w)
          | Some cdromDrive \<Rightarrow>
              if MAX_PATH \<le> length cdromDrive then Inl Undef else mounted drive (define_device 3 0 w))
       else
         andThen (wait_drive fuel w (wn_logical_drives w 0) 1) (\<lambda>Drives1.
           mounted (lowest_drive 32 (wn_logical_drives w 0 XOR Drives1) 65) w))"

section \<open>Copying files from the FAT partition\<close>

text \<open>The packed tables of partitions: fields of entry \<open>i\<close>.\<close>

definition FsFlag :: "u8 list \<Rightarrow> nat \<Rightarrow> u8" where
  "FsFlag MBR i = MBR ! (446 + 16 * i + 4)"

definition StartSectorId :: "u8 list \<Rightarrow> nat \<Rightarrow> u32" where
  "StartSectorId MBR i = le32_to_cpu (slice_of (446 + 16 * i + 8) 4 MBR)"

definition VTOY_GPT_INFO_size :: nat where "VTOY_GPT_INFO_size = 512 + 512 + 128 * 128"

definition StartLBA :: "u8 list \<Rightarrow> nat \<Rightarrow> u64" where
  "StartLBA Gpt i = le64_to_cpu (slice_of (512 + 512 + 128 * i + 32) 8 Gpt)"

text \<open>
  The first sector of the second partition: entry 1 of a GUID partition table when the first
  entry of the master boot record has type \<open>0xEE\<close>, else entry 1 of the boot record, which is
  used even when it could not be read.
\<close>

definition GetVentoyEfiPartStartSector :: "windows \<Rightarrow> nat \<Rightarrow> (nat \<Rightarrow> u8) \<Rightarrow> u64" where
  "GetVentoyEfiPartStartSector w n d =
     (let MBR = (if wn_disk_read w n 0 512 then disk_bytes d 0 512 else map (wn_junk w) [0..<512]) in
      if FsFlag MBR 0 = 0xEE then
        (if wn_malloc_ok w VTOY_GPT_INFO_size \<and> wn_disk_read w n 0 VTOY_GPT_INFO_size
         then StartLBA (disk_bytes d 0 VTOY_GPT_INFO_size) 1 else 0)
      else ucast (StartSectorId MBR 1))"

text \<open>A read that fails leaves the buffer as it was; the answer is 1 all the same.\<close>

definition VentoyFatDiskRead ::
    "windows \<Rightarrow> nat \<Rightarrow> (nat \<Rightarrow> u8) \<Rightarrow> u64 \<Rightarrow> u32 \<Rightarrow> u8 list \<Rightarrow> u32 \<Rightarrow> int \<times> u8 list" where
  "VentoyFatDiskRead w n d Part2StartSec Sector Buffer SectorCount =
     (let pos = unat ((ucast Sector + Part2StartSec) * 512 :: u64);
          ReadSize = unat (SectorCount * 512)
      in (1, if wn_disk_read w n pos ReadSize then disk_bytes d pos ReadSize @ drop ReadSize Buffer else Buffer))"

text \<open>
  The partition as a medium of the FAT library: its sectors are what the callback delivers,
  one at a time, into a buffer of unspecified contents; no call fails, and there is no callback
  for writing.
\<close>

definition fat_partition :: "windows \<Rightarrow> nat \<Rightarrow> (nat \<Rightarrow> u8) \<Rightarrow> u64 \<Rightarrow> fat_media" where
  "fat_partition w n d start =
     \<lparr>md_can_read = True, md_can_write = False,
      md_byte = (\<lambda>i. snd (VentoyFatDiskRead w n d start (word_of_nat (i div 512)) (map (wn_junk w) [0..<512]) 1) ! (i mod 512)),
      md_rd_err = (\<lambda>_ _. False), md_wr_err = (\<lambda>_ _. True)\<rparr>"

text \<open>A file of 2 GB or more has a negative size, for which \<open>malloc\<close> fails.\<close>

definition CopyFileFromFatDisk :: "windows \<Rightarrow> filelib \<Rightarrow> u8 list \<Rightarrow> u8 list \<Rightarrow> fault + int \<times> windows \<times> filelib" where
  "CopyFileFromFatDisk w lib SrcFile DstFile =
     andThen (fl_fopen [] lib (Some SrcFile) (Some (bytes_of ''rb''))) (\<lambda>(flfile, lib).
       if flfile = None then Inr (1, w, lib)
       else
         andThen (fl_fseek lib flfile 0 SEEK_END) (\<lambda>(_, lib).
           let fsize = fl_ftell lib flfile in
           andThen (fl_fseek lib flfile 0 SEEK_SET) (\<lambda>(_, lib).
             andThen
               (if fsize < 0 \<or> \<not> wn_malloc_ok w (nat fsize) then Inr (1, w, lib)
                else andThen (fl_fread lib 1 fsize flfile) (\<lambda>(_, out, lib).
                  Inr (0, snd (SaveBuffer2File w DstFile (out @ map (wn_junk w) [length out ..< nat fsize])), lib)))
               (\<lambda>(rc, w, lib). andThen (fl_fclose lib flfile) (\<lambda>lib. Inr (rc, w, lib))))))"

section \<open>Mounting with imdisk\<close>

text \<open>
  The command line, which ends at the null byte when no drive is free. The program waits for the
  process; whether it worked is not looked at.
\<close>

definition VentoyRunImdisk :: "windows \<Rightarrow> u8 \<Rightarrow> u8 list \<Rightarrow> u8 list \<Rightarrow> fault + windows" where
  "VentoyRunImdisk w drive IsoPath imdiskexe =
     (let Letter = (if drive \<noteq> 0 then drive else vtoy_find_free_drive w 0x7FFFF8) in
      andThen (sprintf_s 512 (imdiskexe @ bytes_of '' -a -o ro -f '' @ [34] @ IsoPath @ [34] @ bytes_of '' -m '' @ [Letter, ch_colon]))
        (\<lambda>Cmdline. Inr (w\<lparr>wn_commands := wn_commands w @ [takeWhile (\<lambda>c. c \<noteq> 0) Cmdline]\<rparr>)))"

definition imdisk_dir :: "bool \<Rightarrow> string" where
  "imdisk_dir bits64 = (if bits64 then ''/ventoy/imdisk/64/'' else ''/ventoy/imdisk/32/'')"

definition system_dir :: string where
  "system_dir = ''X:'' @ [CHR 0x5c] @ ''Windows'' @ [CHR 0x5c] @ ''System32'' @ [CHR 0x5c]"

primrec copy_files :: "bool \<Rightarrow> windows \<Rightarrow> filelib \<Rightarrow> string list \<Rightarrow> fault + windows \<times> filelib" where
  "copy_files bits64 w lib [] = Inr (w, lib)"
| "copy_files bits64 w lib (f # fs) =
     andThen (CopyFileFromFatDisk w lib (bytes_of (imdisk_dir bits64 @ f)) (bytes_of (system_dir @ f)))
       (\<lambda>(_, w, lib). copy_files bits64 w lib fs)"

definition vtoy_mount_iso_by_imdisk ::
    "bool \<Rightarrow> filelib \<Rightarrow> windows \<Rightarrow> ventoy_os_param \<Rightarrow> u8 list \<Rightarrow> u8 \<Rightarrow> int \<Rightarrow> fault + int \<times> windows" where
  "vtoy_mount_iso_by_imdisk bits64 lib w param diskname drive PhyDrive =
     andThen (image_path MAX_PATH diskname param) (\<lambda>IsoPath.
     andThen (vtoy_is_file_exist w (bytes_of (system_dir @ ''imdisk.exe''))) (\<lambda>found.
       if found then andThen (VentoyRunImdisk w drive IsoPath (bytes_of ''imdisk.exe'')) (\<lambda>w. Inr (0, w))
       else case (if PhyDrive < 0 then None else wn_disk w (nat PhyDrive)) of
         None \<Rightarrow> Inr (1, w)
       | Some d \<Rightarrow>
           if \<not> wn_disk_length w (nat PhyDrive) then Inr (1, w)
           else
             let start = GetVentoyEfiPartStartSector w (nat PhyDrive) d in
             andThen (fl_attach_media (fl_init lib) (fat_partition w (nat PhyDrive) d start)) (\<lambda>(res, lib).
             andThen
               (if res \<noteq> 0 then Inr (1, w, lib)
                else andThen (copy_files bits64 w lib [''imdisk.sys'', ''imdisk.exe'', ''imdisk.cpl'']) (\<lambda>(w, lib).
                     andThen (vtoy_load_nt_driver w (bytes_of (system_dir @ ''imdisk.sys''))) (\<lambda>(rc, w).
                       if rc \<noteq> 0 then Inr (1, w, lib)
                       else andThen (VentoyRunImdisk w drive IsoPath (bytes_of (system_dir @ ''imdisk.exe'')))
                              (\<lambda>w. Inr (0, w, lib)))))
               (\<lambda>(rc, w, lib). andThen (fl_shutdown lib) (\<lambda>_. Inr (rc, w))))))"

section \<open>The program\<close>

definition print_usage_win :: "string list" where
  "print_usage_win =
     [''Usage: vtoydump [ -m[=K/0x7FFFF8] ] [ -i filepath ] [ -v ]'',
      ''  none  Only print ventoy runtime data'',
      ''  -m    Mount the iso file '',
      ''        (Not supported before Windows 8 and Windows Server 2012)'',
      ''  -i    Load .sys driver'',
      ''  -v    Verbose, print additional debug info'',
      ''  -h    Print this help info'',
      '''']"

definition arg_at :: "u8 list \<Rightarrow> nat \<Rightarrow> u8" where
  "arg_at s i = (if i < length s then s ! i else 0)"

definition check_opt :: "u8 list \<Rightarrow> char \<Rightarrow> bool" where
  "check_opt s c \<longleftrightarrow> arg_at s 0 = 45 \<and> arg_at s 1 = of_char c"

definition is_alpha :: "u8 \<Rightarrow> bool" where
  "is_alpha c \<longleftrightarrow> 65 \<le> c \<and> c \<le> 90 \<or> 97 \<le> c \<and> c \<le> 122"

definition hex_digit :: "u8 \<Rightarrow> nat option" where
  "hex_digit c =
     (if 48 \<le> c \<and> c \<le> 57 then Some (unat (c - 48))
      else if 65 \<le> c \<and> c \<le> 70 then Some (unat (c - 55))
      else if 97 \<le> c \<and> c \<le> 102 then Some (unat (c - 87))
      else None)"

text \<open>\<open>strtoul\<close> in base 16 of a string after its prefix \<open>0x\<close>; a value that is too large is the largest.\<close>

definition strtoul_hex :: "u8 list \<Rightarrow> u32" where
  "strtoul_hex s =
     (let v = foldl (\<lambda>v c. 16 * v + the (hex_digit c)) 0 (takeWhile (\<lambda>c. hex_digit c \<noteq> None) s)
      in if 2 ^ 32 \<le> v then - 1 else word_of_nat v)"

text \<open>
  The drive an argument \<open>-m=\<close> asks for, or the one chosen so far. \<open>isalpha\<close> of a character
  above 127, a negative \<open>char\<close>, is undefined.
\<close>

definition mount_drive :: "windows \<Rightarrow> u8 list \<Rightarrow> u8 \<Rightarrow> fault + u8" where
  "mount_drive w s drive =
     (if arg_at s 2 \<noteq> 61 then Inr drive
      else if 127 < arg_at s 3 then Inl Undef
      else if is_alpha (arg_at s 3) then Inr (upper (arg_at s 3))
      else if arg_at s 3 = 48 \<and> arg_at s 4 = 120 then Inr (vtoy_find_free_drive w (strtoul_hex (drop 5 s)))
      else Inr drive)"

text \<open>The program ends with a status and its messages, loads a driver, or goes on with the options.\<close>

record win_options =
  wo_mountiso :: bool
  wo_drive :: u8
  wo_fromfile :: "u8 list option"

datatype args_end = Exit int "string list" | Load "u8 list" | Go win_options

fun parse_args_win :: "windows \<Rightarrow> u8 list list \<Rightarrow> win_options \<Rightarrow> fault + args_end" where
  "parse_args_win w [] opts = Inr (Go opts)"
| "parse_args_win w (arg # args) opts =
     (if check_opt arg (CHR ''m'') then
        andThen (mount_drive w arg (wo_drive opts)) (\<lambda>drive.
          parse_args_win w args (opts\<lparr>wo_mountiso := True, wo_drive := drive\<rparr>))
      else if check_opt arg (CHR ''i'') then
        (case args of
           [] \<Rightarrow> Inr (Exit 1 [''Must input driver file full path''])
         | path # _ \<Rightarrow>
             andThen (if ch_colon \<in> set path then vtoy_is_file_exist w path else Inr False) (\<lambda>ok.
               if ok then andThen (sprintf_s 256 path) (\<lambda>filepath. Inr (Load filepath))
               else Inr (Exit 1 [''Must input driver file full path''])))
      else if check_opt arg (CHR ''f'') then
        (case args of
           [] \<Rightarrow> Inr (Exit 1 [''Must input data file full path''])
         | path # args' \<Rightarrow>
             andThen (vtoy_is_file_exist w path) (\<lambda>ok.
               if ok then andThen (sprintf_s 256 path) (\<lambda>filepath.
                 parse_args_win w args' (opts\<lparr>wo_fromfile := Some filepath\<rparr>))
               else Inr (Exit 1 [''Must input data file full path''])))
      else if check_opt arg (CHR ''v'') then parse_args_win w args opts
      else if check_opt arg (CHR ''h'') then Inr (Exit 0 print_usage_win)
      else Inr (Exit 1 []))"

definition find_os_param_win :: "windows \<Rightarrow> u8 list option \<Rightarrow> fault + int \<times> ventoy_os_param \<times> windows" where
  "find_os_param_win w fromfile =
     (let param = replicate 512 0;
          keep = (\<lambda>w (rc, param). Inr (rc, param, w))
      in andThen
        (case fromfile of
           Some filepath \<Rightarrow> andThen (vtoy_os_param_from_file w param filepath) (keep w)
         | None \<Rightarrow> (case vtoy_is_efi_system w of (efi, w) \<Rightarrow>
             if efi then Inr (vtoy_os_param_from_efivar_win w param)
             else andThen (vtoy_os_param_from_ibft w param) (keep w)))
        (\<lambda>(rc, param, w).
           if rc \<noteq> 0 then andThen (vtoy_os_param_from_acpi_win w param) (keep w) else Inr (rc, param, w)))"

text \<open>Slashes of the path become backslashes, up to the null byte, which the struct has to contain.\<close>

definition backslashes :: "ventoy_os_param \<Rightarrow> fault + ventoy_os_param" where
  "backslashes p =
     (let path = takeWhile (\<lambda>b. b \<noteq> 0) (drop 45 p) in
      if 0 \<notin> set (drop 45 p) then Inl Undef
      else Inr (overlay 45 (map (\<lambda>b. if b = ch_slash then ch_backslash else b) path) p))"

definition vtoydump_windows_main ::
    "nat \<Rightarrow> bool \<Rightarrow> filelib \<Rightarrow> windows \<Rightarrow> u8 list list \<Rightarrow> fault + int \<times> windows" where
  "vtoydump_windows_main fuel bits64 lib w args =
     andThen (parse_args_win w args \<lparr>wo_mountiso = False, wo_drive = 0, wo_fromfile = None\<rparr>) (\<lambda>r.
       case r of
         Exit rc out \<Rightarrow> Inr (rc, fold (\<lambda>l. say (bytes_of l)) out w)
       | Load filepath \<Rightarrow> vtoy_load_nt_driver w filepath
       | Go opts \<Rightarrow>
           andThen (find_os_param_win w (wo_fromfile opts)) (\<lambda>(rc, param, w).
             if rc \<noteq> 0 then Inr (rc, w)
             else
               andThen (backslashes param) (\<lambda>param.
               andThen (vtoy_find_disk_win w param (- 1) [] 127) (\<lambda>(rc, PhyDrive, diskname).
                 if rc \<noteq> 0 then Inr (rc, w)
                 else if \<not> wo_mountiso opts then vtoy_print_os_param_win w param diskname
                 else if wn_windows8 w then vtoy_mount_iso_by_api fuel w param diskname (wo_drive opts)
                 else vtoy_mount_iso_by_imdisk bits64 lib w param diskname (wo_drive opts) PhyDrive))))"

end
