(* ===== verification/FatFormat.thy ===== *)
theory FatFormat
  imports FatFile
begin

text \<open>
  Formatting a volume with FAT16 or FAT32 (\<open>fat_format.c\<close>).
\<close>

section \<open>The size of a cluster\<close>

text \<open>\<open>struct sec_per_clus_table\<close>: volumes up to so many sectors have so many sectors to a cluster.\<close>

type_synonym sec_per_clus_table = "(u32 \<times> u8) list"

definition cluster_size_table16 :: sec_per_clus_table where
  "cluster_size_table16 = [(32680, 2), (262144, 4), (524288, 8), (1048576, 16), (2097152, 32),
     (4194304, 64), (8388608, 128)]"

definition cluster_size_table32 :: sec_per_clus_table where
  "cluster_size_table32 = [(532480, 1), (16777216, 8), (33554432, 16), (67108864, 32), (0xFFFFFFFF, 64)]"

fun cluster_size_in :: "sec_per_clus_table \<Rightarrow> u32 \<Rightarrow> u8" where
  "cluster_size_in [] sectors = 0"
| "cluster_size_in ((limit, n) # table) sectors = (if sectors \<le> limit then n else cluster_size_in table sectors)"

definition fatfs_calc_cluster_size :: "u32 \<Rightarrow> bool \<Rightarrow> u8" where
  "fatfs_calc_cluster_size sectors is_fat32 =
     cluster_size_in (if is_fat32 then cluster_size_table32 else cluster_size_table16) sectors"

section \<open>Writing the sectors of a volume\<close>

text \<open>\<open>write_media (lba, fs->currentsector.sector, 1)\<close>, and \<open>n\<close> such writes one after the other.\<close>

definition write_sector_at :: "fatfs \<Rightarrow> u32 \<Rightarrow> fault + bool \<times> fatfs" where
  "write_sector_at fs lba = fatfs_sector_write fs lba (fb_sector (fs_currentsector fs)) 1"

primrec write_sectors_at :: "fatfs \<Rightarrow> u32 \<Rightarrow> nat \<Rightarrow> fault + bool \<times> fatfs" where
  "write_sectors_at fs lba 0 = Inr (True, fs)"
| "write_sectors_at fs lba (Suc n) =
     andThen (write_sector_at fs lba) (\<lambda>(ok, fs). if ok then write_sectors_at fs (lba + 1) n else Inr (False, fs))"

definition zero_sector :: "u8 list" where
  "zero_sector = replicate FAT_SECTOR_SIZE 0"

definition fatfs_erase_sectors :: "fatfs \<Rightarrow> u32 \<Rightarrow> int \<Rightarrow> fault + bool \<times> fatfs" where
  "fatfs_erase_sectors fs lba count = write_sectors_at (set_current fs zero_sector) lba (nat count)"

text \<open>The bytes of the boot sector, in the order they are set.\<close>

definition boot_start :: "u8 list" where
  "boot_start = overlay 11 [word_byte 0 (0x200 :: u32), word_byte 8 (0x200 :: u32)]
     (overlay 0 [0xEB, 0x3C, 0x90, 0x4D, 0x53, 0x44, 0x4F, 0x53, 0x35, 0x2E, 0x30] zero_sector)"

definition boot_common :: "fatfs \<Rightarrow> u8 list \<Rightarrow> u8 list" where
  "boot_common fs b = overlay 13 [fs_sectors_per_cluster fs,
     word_byte 0 (fs_reserved_sectors fs), word_byte 8 (fs_reserved_sectors fs), fs_num_of_fats fs,
     word_byte 0 (fs_root_entry_count fs), word_byte 8 (fs_root_entry_count fs), 0, 0, 0xF8] b"

text \<open>The name of the volume, padded with blanks; the letters of the file system type.\<close>

definition volume_name :: "u8 list \<Rightarrow> u8 list" where
  "volume_name name = map (\<lambda>i. if i < length name then name ! i else 32) [0..<11]"

definition le_word :: "u32 \<Rightarrow> u8 list" where
  "le_word v = [word_byte 0 v, word_byte 8 v, word_byte 16 v, word_byte 24 v]"

definition boot_fat16 :: "fatfs \<Rightarrow> u32 \<Rightarrow> u8 list \<Rightarrow> u8 list \<Rightarrow> u8 list" where
  "boot_fat16 fs vol_sectors name b =
     overlay 510 [0x55, 0xAA] (overlay 54 [70, 65, 84, 49, 54, 32, 32, 32] (overlay 43 (volume_name name)
       (overlay 36 [0, 0, 0x29, 0x12, 0x34, 0x56, 0x78] (overlay 32 (le_word vol_sectors)
         (overlay 22 [word_byte 0 (fs_fat_sectors fs), word_byte 8 (fs_fat_sectors fs),
            0, 0, 0, 0, 0x20, 0, 0, 0] b)))))"

definition boot_fat32 :: "fatfs \<Rightarrow> u32 \<Rightarrow> u8 list \<Rightarrow> u8 list \<Rightarrow> u8 list" where
  "boot_fat32 fs vol_sectors name b =
     overlay 510 [0x55, 0xAA] (overlay 82 [70, 65, 84, 51, 50, 32, 32, 32] (overlay 71 (volume_name name)
       (overlay 66 [0x29, 0x12, 0x34, 0x56, 0x78] (overlay 64 [0] (overlay 40 ([0, 0, 0, 0]
          @ le_word (fs_rootdir_first_cluster fs)
          @ [word_byte 0 (fs_info_sector fs), word_byte 8 (fs_info_sector fs), 6, 0])
         (overlay 36 (le_word (fs_fat_sectors fs)) (overlay 32 (le_word vol_sectors)
           (overlay 22 [0, 0, 0x3F, 0, 0xFF, 0, 0, 0, 0, 0] b))))))))"

text \<open>The sectors of one table: one entry to a cluster, 256 or 128 entries to a sector.\<close>

definition table_sectors :: "fatfs \<Rightarrow> u32 \<Rightarrow> bool \<Rightarrow> u32" where
  "table_sectors fs vol_sectors is_fat32 =
     (vol_sectors div ucast (fs_sectors_per_cluster fs) + 1) div (if is_fat32 then 128 else 256) + 1"

definition fatfs_create_boot_sector :: "fatfs \<Rightarrow> u32 \<Rightarrow> u32 \<Rightarrow> u8 list \<Rightarrow> bool \<Rightarrow> fault + bool \<times> fatfs" where
  "fatfs_create_boot_sector fs boot_sector_lba vol_sectors name is_fat32 =
     (let fs = (set_current fs boot_start)\<lparr>fs_sectors_per_cluster := fatfs_calc_cluster_size vol_sectors is_fat32\<rparr> in
      if fs_sectors_per_cluster fs = 0 then Inr (False, fs)
      else
        let fs = fs\<lparr>fs_reserved_sectors := (if is_fat32 then 32 else 8), fs_num_of_fats := 2,
                     fs_root_entry_count := (if is_fat32 then 0 else 512)\<rparr>;
            b = boot_common fs boot_start;
            fs = fs\<lparr>fs_fat_sectors := table_sectors fs vol_sectors is_fat32\<rparr>
        in write_sector_at (set_current fs (if is_fat32 then boot_fat32 fs vol_sectors name b
                                            else boot_fat16 fs vol_sectors name b)) boot_sector_lba)"

definition fsinfo_sector :: "u8 list" where
  "fsinfo_sector = overlay 510 [0x55, 0xAA] (overlay 488 [0xFF, 0xFF, 0xFF, 0xFF, 0xFF, 0xFF, 0xFF, 0xFF]
     (overlay 484 [0x72, 0x72, 0x41, 0x61] (overlay 0 [0x52, 0x52, 0x61, 0x41] zero_sector)))"

definition fatfs_create_fsinfo_sector :: "fatfs \<Rightarrow> u32 \<Rightarrow> fault + bool \<times> fatfs" where
  "fatfs_create_fsinfo_sector fs lba = write_sector_at (set_current fs fsinfo_sector) lba"

text \<open>The first sector of the table, with the reserved entries.\<close>

definition first_table_sector :: "bool \<Rightarrow> u8 list" where
  "first_table_sector is_fat32 =
     (if is_fat32
      then SET_32BIT_WORD (SET_32BIT_WORD (SET_32BIT_WORD zero_sector 0 0x0FFFFFF8) 4 0xFFFFFFFF) 8 0x0FFFFFFF
      else SET_16BIT_WORD (SET_16BIT_WORD zero_sector 0 0xFFF8) 2 0xFFFF)"

definition fatfs_erase_fat :: "fatfs \<Rightarrow> bool \<Rightarrow> fault + bool \<times> fatfs" where
  "fatfs_erase_fat fs is_fat32 =
     andThen (write_sector_at (set_current fs (first_table_sector is_fat32)) (fs_fat_begin_lba fs)) (\<lambda>(ok, fs).
       if \<not> ok then Inr (False, fs)
       else write_sectors_at (set_current fs zero_sector) (fs_fat_begin_lba fs + 1)
              (unat (fs_fat_sectors fs * ucast (fs_num_of_fats fs)) - 1))"

section \<open>Formatting\<close>

text \<open>\<open>format_start\<close>: the start of both functions. They answer 1 when they succeed and 0 when
  they fail, but the error code when a callback is missing.\<close>

definition format_start :: "fatfs \<Rightarrow> fatfs" where
  "format_start fs = fatfs_fat_init (fs\<lparr>fs_currentsector := (fs_currentsector fs)\<lparr>
     fb_address := FAT32_INVALID_CLUSTER, fb_dirty := False\<rparr>, fs_next_free_cluster := 0\<rparr>)"

definition fatfs_format_fat16 :: "fatfs \<Rightarrow> u32 \<Rightarrow> u8 list \<Rightarrow> fault + int \<times> fatfs" where
  "fatfs_format_fat16 fs volume_sectors name =
     (let fs = format_start fs in
      if \<not> md_can_read (fs_disk_io fs) \<or> \<not> md_can_write (fs_disk_io fs) then Inr (FAT_INIT_MEDIA_ACCESS_ERROR, fs)
      else
        let fs = fs\<lparr>fs_fat_type := FAT_TYPE_16, fs_info_sector := 0, fs_rootdir_first_cluster := 0, fs_lba_begin := 0\<rparr> in
        andThen (fatfs_create_boot_sector fs (fs_lba_begin fs) volume_sectors name False) (\<lambda>(ok, fs).
          if \<not> ok then Inr (0, fs)
          else
            let tables = ucast (fs_num_of_fats fs) * fs_fat_sectors fs;
                fs = fs\<lparr>fs_rootdir_first_sector := ucast (fs_reserved_sectors fs) + tables,
                        fs_rootdir_sectors := (ucast (fs_root_entry_count fs) * 32 + 511) div 512,
                        fs_fat_begin_lba := fs_lba_begin fs + ucast (fs_reserved_sectors fs)\<rparr>;
                fs = fs\<lparr>fs_cluster_begin_lba := fs_fat_begin_lba fs + tables\<rparr>
            in andThen (fatfs_erase_fat fs False) (\<lambda>(ok, fs).
              if \<not> ok then Inr (0, fs)
              else andThen (fatfs_erase_sectors fs (fs_lba_begin fs + fs_rootdir_first_sector fs)
                    (sint (fs_rootdir_sectors fs))) (\<lambda>(ok, fs).
                Inr (if ok then 1 else 0, fs)))))"

definition fatfs_format_fat32 :: "fatfs \<Rightarrow> u32 \<Rightarrow> u8 list \<Rightarrow> fault + int \<times> fatfs" where
  "fatfs_format_fat32 fs volume_sectors name =
     (let fs = format_start fs in
      if \<not> md_can_read (fs_disk_io fs) \<or> \<not> md_can_write (fs_disk_io fs) then Inr (FAT_INIT_MEDIA_ACCESS_ERROR, fs)
      else
        let fs = fs\<lparr>fs_fat_type := FAT_TYPE_32, fs_info_sector := 1, fs_rootdir_first_cluster := 2, fs_lba_begin := 0\<rparr> in
        andThen (fatfs_create_boot_sector fs (fs_lba_begin fs) volume_sectors name True) (\<lambda>(ok, fs).
          if \<not> ok then Inr (0, fs)
          else
            let fs = fs\<lparr>fs_fat_begin_lba := fs_lba_begin fs + ucast (fs_reserved_sectors fs)\<rparr>;
                fs = fs\<lparr>fs_cluster_begin_lba := fs_fat_begin_lba fs + ucast (fs_num_of_fats fs) * fs_fat_sectors fs\<rparr>
            in andThen (fatfs_create_fsinfo_sector fs (ucast (fs_info_sector fs))) (\<lambda>(ok, fs).
              if \<not> ok then Inr (0, fs)
              else andThen (fatfs_erase_fat fs True) (\<lambda>(ok, fs).
                if \<not> ok then Inr (0, fs)
                else andThen (fatfs_erase_sectors fs (fatfs_lba_of_cluster fs (fs_rootdir_first_cluster fs))
                      (uint (fs_sectors_per_cluster fs))) (\<lambda>(ok, fs).
                  Inr (if ok then 1 else 0, fs))))))"

definition fatfs_format :: "fatfs \<Rightarrow> u32 \<Rightarrow> u8 list \<Rightarrow> fault + int \<times> fatfs" where
  "fatfs_format fs volume_sectors name =
     (if volume_sectors \<le> 4194304 then fatfs_format_fat16 fs volume_sectors name
      else fatfs_format_fat32 fs volume_sectors name)"

definition fl_format :: "filelib \<Rightarrow> u32 \<Rightarrow> u8 list \<Rightarrow> fault + int \<times> filelib" where
  "fl_format lib volume_sectors name =
     andThen (fatfs_format (fl_fs lib) volume_sectors name) (\<lambda>(r, fs). Inr (r, lib\<lparr>fl_fs := fs\<rparr>))"

end
