(* ===== verification/FatView.thy ===== *)
theory FatView
  imports FatTable
begin

text \<open>
  What the write-back buffers of the file allocation table stand for: the table as its
  clients see it (\<open>fat_view\<close>), the invariant of the buffers, and the proof that reading,
  changing and writing back sectors through them is working on that table.
\<close>

section \<open>The table behind the buffers\<close>

definition fat_view :: "fatfs \<Rightarrow> u32 \<Rightarrow> u8 list" where
  "fat_view fs s = (case find_buffer s (fs_fat_buffers fs) of
      Some i \<Rightarrow> fb_sector (fs_fat_buffers fs ! i)
    | None \<Rightarrow> md_bytes (fs_disk_io fs) (unat s) 1)"

definition in_table :: "fatfs \<Rightarrow> u32 \<Rightarrow> bool" where
  "in_table fs s \<longleftrightarrow> unat (fs_fat_begin_lba fs) \<le> unat s \<and>
     unat s < unat (fs_fat_begin_lba fs) + unat (fs_fat_sectors fs)"

text \<open>Media that serve every call they have a callback for.\<close>

definition reliable :: "fat_media \<Rightarrow> bool" where
  "reliable m \<longleftrightarrow> md_can_read m \<and> (\<forall>a n. \<not> md_rd_err m a n) \<and> (md_can_write m \<longrightarrow> (\<forall>a n. \<not> md_wr_err m a n))"

definition buffer_ok :: "fatfs \<Rightarrow> fat_buffer \<Rightarrow> bool" where
  "buffer_ok fs b \<longleftrightarrow> length (fb_sector b) = 512 \<and>
     (if fb_dirty b then md_can_write (fs_disk_io fs) \<and> in_table fs (fb_address b)
      else fb_address b = FAT32_INVALID_CLUSTER \<or>
           in_table fs (fb_address b) \<and> fb_sector b = md_bytes (fs_disk_io fs) (unat (fb_address b)) 1)"

definition apart :: "fat_buffer \<Rightarrow> fat_buffer \<Rightarrow> bool" where
  "apart a b \<longleftrightarrow> fb_address a = FAT32_INVALID_CLUSTER \<or> fb_address a \<noteq> fb_address b"

definition table_ok :: "fatfs \<Rightarrow> bool" where
  "table_ok fs \<longleftrightarrow> reliable (fs_disk_io fs) \<and> fs_fat_buffers fs \<noteq> [] \<and>
     unat (fs_fat_begin_lba fs) + unat (fs_fat_sectors fs) < 2 ^ 32 \<and>
     (\<forall>b \<in> set (fs_fat_buffers fs). buffer_ok fs b) \<and> sorted_wrt apart (fs_fat_buffers fs)"

text \<open>
  What table operations leave alone: everything but the buffers and the bytes of the table on
  the media.
\<close>

definition table_frame :: "fatfs \<Rightarrow> fatfs \<Rightarrow> bool" where
  "table_frame fs fs' \<longleftrightarrow>
     fs' = fs\<lparr>fs_disk_io := (fs_disk_io fs)\<lparr>md_byte := md_byte (fs_disk_io fs')\<rparr>,
              fs_fat_buffers := fs_fat_buffers fs'\<rparr> \<and>
     (\<forall>s. \<not> in_table fs s \<longrightarrow> md_bytes (fs_disk_io fs') (unat s) 1 = md_bytes (fs_disk_io fs) (unat s) 1)"

lemma table_frame_refl [simp]: "table_frame fs fs"
  by (simp add: table_frame_def)

lemma table_frame_fields:
  assumes "table_frame fs fs'"
  shows "fs_sectors_per_cluster fs' = fs_sectors_per_cluster fs"
    "fs_cluster_begin_lba fs' = fs_cluster_begin_lba fs"
    "fs_rootdir_first_cluster fs' = fs_rootdir_first_cluster fs"
    "fs_rootdir_first_sector fs' = fs_rootdir_first_sector fs"
    "fs_rootdir_sectors fs' = fs_rootdir_sectors fs"
    "fs_fat_begin_lba fs' = fs_fat_begin_lba fs" "fs_info_sector fs' = fs_info_sector fs"
    "fs_lba_begin fs' = fs_lba_begin fs" "fs_fat_sectors fs' = fs_fat_sectors fs"
    "fs_next_free_cluster fs' = fs_next_free_cluster fs"
    "fs_root_entry_count fs' = fs_root_entry_count fs" "fs_fat_type fs' = fs_fat_type fs"
    "fs_currentsector fs' = fs_currentsector fs"
    "md_can_read (fs_disk_io fs') = md_can_read (fs_disk_io fs)"
    "md_can_write (fs_disk_io fs') = md_can_write (fs_disk_io fs)"
    "md_rd_err (fs_disk_io fs') = md_rd_err (fs_disk_io fs)"
    "md_wr_err (fs_disk_io fs') = md_wr_err (fs_disk_io fs)"
    "fs_reserved_sectors fs' = fs_reserved_sectors fs" "fs_num_of_fats fs' = fs_num_of_fats fs"
proof -
  obtain d b where "fs' = fs\<lparr>fs_disk_io := (fs_disk_io fs)\<lparr>md_byte := d\<rparr>, fs_fat_buffers := b\<rparr>"
    using assms unfolding table_frame_def by blast
  then show
    "fs_sectors_per_cluster fs' = fs_sectors_per_cluster fs"
    "fs_cluster_begin_lba fs' = fs_cluster_begin_lba fs"
    "fs_rootdir_first_cluster fs' = fs_rootdir_first_cluster fs"
    "fs_rootdir_first_sector fs' = fs_rootdir_first_sector fs"
    "fs_rootdir_sectors fs' = fs_rootdir_sectors fs"
    "fs_fat_begin_lba fs' = fs_fat_begin_lba fs" "fs_info_sector fs' = fs_info_sector fs"
    "fs_lba_begin fs' = fs_lba_begin fs" "fs_fat_sectors fs' = fs_fat_sectors fs"
    "fs_next_free_cluster fs' = fs_next_free_cluster fs"
    "fs_root_entry_count fs' = fs_root_entry_count fs" "fs_fat_type fs' = fs_fat_type fs"
    "fs_currentsector fs' = fs_currentsector fs"
    "md_can_read (fs_disk_io fs') = md_can_read (fs_disk_io fs)"
    "md_can_write (fs_disk_io fs') = md_can_write (fs_disk_io fs)"
    "md_rd_err (fs_disk_io fs') = md_rd_err (fs_disk_io fs)"
    "md_wr_err (fs_disk_io fs') = md_wr_err (fs_disk_io fs)"
    "fs_reserved_sectors fs' = fs_reserved_sectors fs" "fs_num_of_fats fs' = fs_num_of_fats fs" by simp_all
qed

lemma find_buffer_hit: "(a \<le> s \<and> s < a + FAT_BUFFER_SECTORS) = (a = s \<and> s \<noteq> FAT32_INVALID_CLUSTER)"
proof (cases "a = FAT32_INVALID_CLUSTER")
  case True
  then have "a + FAT_BUFFER_SECTORS = 0" by (simp add: FAT32_INVALID_CLUSTER_def FAT_BUFFER_SECTORS_def)
  then show ?thesis using True by auto
next
  case False
  have "unat a \<noteq> unat FAT32_INVALID_CLUSTER" using False by (simp only: word_unat_eq_iff) simp
  moreover have "unat a < 2 ^ 32" using unat_bound[of a] by simp
  ultimately have "unat a + 1 < 2 ^ 32" by (simp add: FAT32_INVALID_CLUSTER_def)
  then have "unat (a + FAT_BUFFER_SECTORS) = unat a + 1"
    by (simp add: FAT_BUFFER_SECTORS_def unat_word_ariths)
  then show ?thesis using False by (auto simp: word_less_nat_alt word_le_nat_alt word_unat_eq_iff)
qed

lemma find_buffer_Cons [simp]:
  "find_buffer s (b # bs) = (if fb_address b = s \<and> s \<noteq> FAT32_INVALID_CLUSTER then Some 0
     else map_option Suc (find_buffer s bs))"
  by (simp only: find_buffer.simps find_buffer_hit)

declare find_buffer.simps(2) [simp del]

lemma find_buffer_Some:
  "find_buffer s bs = Some i \<Longrightarrow>
   i < length bs \<and> fb_address (bs ! i) = s \<and> s \<noteq> FAT32_INVALID_CLUSTER"
proof (induction bs arbitrary: i)
  case (Cons b bs)
  then show ?case by (cases i) (auto split: if_splits)
qed simp

lemma find_buffer_None:
  "find_buffer s bs = None \<longleftrightarrow> s = FAT32_INVALID_CLUSTER \<or> (\<forall>b \<in> set bs. fb_address b \<noteq> s)"
  by (induction bs) auto

lemma find_buffer_unique:
  assumes "sorted_wrt apart bs" "i < length bs" "fb_address (bs ! i) = s" "s \<noteq> FAT32_INVALID_CLUSTER"
  shows "find_buffer s bs = Some i"
  using assms
proof (induction bs arbitrary: i)
  case (Cons b bs)
  then show ?case by (cases i) (auto simp: apart_def)
qed simp

lemma in_table_valid: "table_ok fs \<Longrightarrow> in_table fs s \<Longrightarrow> s \<noteq> FAT32_INVALID_CLUSTER"
  by (auto simp: table_ok_def in_table_def FAT32_INVALID_CLUSTER_def)

text \<open>The view of a sector, whatever the order of the buffers.\<close>

lemma fat_view_buffered:
  assumes "sorted_wrt apart (fs_fat_buffers fs)" "b \<in> set (fs_fat_buffers fs)"
    "fb_address b \<noteq> FAT32_INVALID_CLUSTER"
  shows "fat_view fs (fb_address b) = fb_sector b"
proof -
  obtain i where "i < length (fs_fat_buffers fs)" "fs_fat_buffers fs ! i = b"
    using assms(2) by (auto simp: in_set_conv_nth)
  then show ?thesis using find_buffer_unique[OF assms(1), of i] assms(3) by (simp add: fat_view_def)
qed

lemma fat_view_media:
  "\<forall>b \<in> set (fs_fat_buffers fs). fb_address b = s \<longrightarrow> s = FAT32_INVALID_CLUSTER \<Longrightarrow>
   fat_view fs s = md_bytes (fs_disk_io fs) (unat s) 1"
  by (cases "find_buffer s (fs_fat_buffers fs)")
     (auto simp: fat_view_def dest!: find_buffer_Some)

lemma fat_view_eqI:
  assumes "sorted_wrt apart (fs_fat_buffers fs)" "sorted_wrt apart (fs_fat_buffers fs')"
    "\<And>b. b \<in> set (fs_fat_buffers fs) \<Longrightarrow> fb_address b \<noteq> FAT32_INVALID_CLUSTER \<Longrightarrow>
       \<exists>b' \<in> set (fs_fat_buffers fs'). fb_address b' = fb_address b \<and> fb_sector b' = fb_sector b"
    "\<And>b'. b' \<in> set (fs_fat_buffers fs') \<Longrightarrow> fb_address b' \<noteq> FAT32_INVALID_CLUSTER \<Longrightarrow>
       \<exists>b \<in> set (fs_fat_buffers fs). fb_address b' = fb_address b"
    "\<And>s. \<forall>b \<in> set (fs_fat_buffers fs). fb_address b = s \<longrightarrow> s = FAT32_INVALID_CLUSTER \<Longrightarrow>
       md_bytes (fs_disk_io fs') (unat s) 1 = md_bytes (fs_disk_io fs) (unat s) 1"
  shows "fat_view fs' = fat_view fs"
proof
  fix s
  show "fat_view fs' s = fat_view fs s"
  proof (cases "\<exists>b \<in> set (fs_fat_buffers fs). fb_address b = s \<and> s \<noteq> FAT32_INVALID_CLUSTER")
    case True
    then obtain b b' where "b \<in> set (fs_fat_buffers fs)" "fb_address b = s" "s \<noteq> FAT32_INVALID_CLUSTER"
      "b' \<in> set (fs_fat_buffers fs')" "fb_address b' = s" "fb_sector b' = fb_sector b"
      using assms(3) by metis
    then show ?thesis using fat_view_buffered[OF assms(1), of b] fat_view_buffered[OF assms(2), of b'] by simp
  next
    case False
    then have 1: "\<forall>b \<in> set (fs_fat_buffers fs). fb_address b = s \<longrightarrow> s = FAT32_INVALID_CLUSTER" by blast
    then have "\<forall>b \<in> set (fs_fat_buffers fs'). fb_address b = s \<longrightarrow> s = FAT32_INVALID_CLUSTER"
      using assms(4) by metis
    then show ?thesis using fat_view_media[OF 1] fat_view_media[of fs' s] assms(5)[OF 1] by simp
  qed
qed

section \<open>Buffer operations keep the view\<close>

lemma table_frame_trans [trans]:
  assumes "table_frame a b" "table_frame b c" shows "table_frame a c"
proof -
  obtain d e where b: "b = a\<lparr>fs_disk_io := (fs_disk_io a)\<lparr>md_byte := d\<rparr>, fs_fat_buffers := e\<rparr>"
    using assms(1) unfolding table_frame_def by blast
  obtain d' e' where c: "c = b\<lparr>fs_disk_io := (fs_disk_io b)\<lparr>md_byte := d'\<rparr>, fs_fat_buffers := e'\<rparr>"
    using assms(2) unfolding table_frame_def by blast
  show ?thesis using assms unfolding table_frame_def by (auto simp: b c in_table_def)
qed

lemma in_table_frame: "table_frame fs fs' \<Longrightarrow> in_table fs' s = in_table fs s"
  using table_frame_fields by (simp add: in_table_def)

lemma reliable_frame: "table_frame fs fs' \<Longrightarrow> reliable (fs_disk_io fs') = reliable (fs_disk_io fs)"
  using table_frame_fields by (simp add: reliable_def)

text \<open>The last buffer moves to the head.\<close>

lemma rotate_ok:
  assumes "table_ok fs"
  defines "fs' \<equiv> fs\<lparr>fs_fat_buffers := last (fs_fat_buffers fs) # butlast (fs_fat_buffers fs)\<rparr>"
  shows "table_ok fs'" "fat_view fs' = fat_view fs" "table_frame fs fs'"
    "set (fs_fat_buffers fs') = set (fs_fat_buffers fs)"
proof -
  obtain xs x where b: "fs_fat_buffers fs = xs @ [x]"
    using assms(1) by (cases "fs_fat_buffers fs" rule: rev_cases) (auto simp: table_ok_def)
  then have f: "fs_fat_buffers fs' = x # xs" by (simp add: fs'_def)
  show set: "set (fs_fat_buffers fs') = set (fs_fat_buffers fs)" by (simp add: f b)
  have "sorted_wrt apart (fs_fat_buffers fs)" using assms(1) by (simp add: table_ok_def)
  then have s: "sorted_wrt apart (fs_fat_buffers fs')"
    unfolding f b by (auto simp: sorted_wrt_append apart_def)
  have "buffer_ok fs' c = buffer_ok fs c" for c by (simp add: buffer_ok_def fs'_def in_table_def)
  then show "table_ok fs'" using assms(1) s set by (simp add: table_ok_def) (simp add: fs'_def)
  show "fat_view fs' = fat_view fs"
    by (rule fat_view_eqI) (use assms(1) s set in \<open>auto simp: table_ok_def fs'_def\<close>)
  show "table_frame fs fs'" by (simp add: table_frame_def fs'_def)
qed

lemma writeback_ok:
  assumes ok: "table_ok fs" and i: "i < length (fs_fat_buffers fs)"
  shows "\<exists>fs'. fatfs_fat_writeback fs i = Inr (True, fs') \<and> table_ok fs' \<and>
    fat_view fs' = fat_view fs \<and> table_frame fs fs' \<and>
    fs_fat_buffers fs' = (fs_fat_buffers fs)[i := fb_dirty_update (\<lambda>_. False) (fs_fat_buffers fs ! i)]"
proof (cases "fb_dirty (fs_fat_buffers fs ! i)")
  case False
  then have "fb_dirty_update (\<lambda>_. False) (fs_fat_buffers fs ! i) = fs_fat_buffers fs ! i"
    by (cases "fs_fat_buffers fs ! i") simp
  then have "(fs_fat_buffers fs)[i := fb_dirty_update (\<lambda>_. False) (fs_fat_buffers fs ! i)] = fs_fat_buffers fs"
    by (simp only: list_update_id)
  then show ?thesis using False ok by (simp add: fatfs_fat_writeback_def)
next
  case True
  let ?b = "fs_fat_buffers fs ! i"
  have b: "?b \<in> set (fs_fat_buffers fs)" using i by simp
  have bo: "length (fb_sector ?b) = 512" "md_can_write (fs_disk_io fs)" "in_table fs (fb_address ?b)"
    using ok b True by (auto simp: table_ok_def buffer_ok_def)
  define m where "m = media_store (fs_disk_io fs) (unat (fb_address ?b) * 512) (fb_sector ?b)"
  define fs' where "fs' = upd_buffer (fs\<lparr>fs_disk_io := m\<rparr>) i (fb_dirty_update (\<lambda>_. False))"
  have u: "unat (fb_address ?b - fs_fat_begin_lba fs) = unat (fb_address ?b) - unat (fs_fat_begin_lba fs)"
    using bo(3) by (simp add: in_table_def unat_sub word_le_nat_alt)
  then have "unat (fb_address ?b - fs_fat_begin_lba fs) < unat (fs_fat_sectors fs)"
    using bo(3) unfolding in_table_def by linarith
  then have "fb_address ?b - fs_fat_begin_lba fs + FAT_BUFFER_SECTORS \<le> fs_fat_sectors fs"
    unfolding FAT_BUFFER_SECTORS_def by (metis inc_le word_less_nat_alt)
  then have w: "fatfs_fat_writeback fs i = Inr (True, fs')"
    using True bo(1,2) ok
    by (simp add: fatfs_fat_writeback_def media_write_def table_ok_def reliable_def fs'_def m_def
        FAT_BUFFER_SECTORS_def Let_def)
  have f: "fs_fat_buffers fs' = (fs_fat_buffers fs)[i := fb_dirty_update (\<lambda>_. False) ?b]"
    and d: "fs_disk_io fs' = m" by (simp_all add: fs'_def upd_buffer_def)
  have st: "sorted_wrt apart (fs_fat_buffers fs)" using ok by (simp add: table_ok_def)
  have adr: "fb_address (fs_fat_buffers fs' ! j) = fb_address (fs_fat_buffers fs ! j)"
      "fb_sector (fs_fat_buffers fs' ! j) = fb_sector (fs_fat_buffers fs ! j)"
    if "j < length (fs_fat_buffers fs)" for j
    by (use that in \<open>cases "j = i"; simp add: f\<close>)+
  have len: "length (fs_fat_buffers fs') = length (fs_fat_buffers fs)" by (simp add: f)
  have st': "sorted_wrt apart (fs_fat_buffers fs')"
    using st adr(1) unfolding sorted_wrt_iff_nth_less apart_def len by (metis less_trans)
  have other: "md_bytes m (unat s) 1 = md_bytes (fs_disk_io fs) (unat s) 1" if "s \<noteq> fb_address ?b" for s
    unfolding m_def by (rule md_bytes_sector_other) (use that bo(1) in \<open>auto simp: word_unat_eq_iff\<close>)
  have same: "md_bytes m (unat (fb_address ?b)) 1 = fb_sector ?b"
    unfolding m_def by (rule md_bytes_stored[OF bo(1)])
  have fr: "table_frame fs fs'"
    unfolding table_frame_def
  proof
    show "fs' = fs\<lparr>fs_disk_io := (fs_disk_io fs)\<lparr>md_byte := md_byte (fs_disk_io fs')\<rparr>,
                  fs_fat_buffers := fs_fat_buffers fs'\<rparr>"
      by (simp add: fs'_def upd_buffer_def m_def media_store_def)
    show "\<forall>s. \<not> in_table fs s \<longrightarrow> md_bytes (fs_disk_io fs') (unat s) 1 = md_bytes (fs_disk_io fs) (unat s) 1"
      using other bo(3) d by metis
  qed
  have buf: "buffer_ok fs' b'" if b': "b' \<in> set (fs_fat_buffers fs')" for b'
  proof -
    obtain j where j: "j < length (fs_fat_buffers fs)" "b' = fs_fat_buffers fs' ! j"
      using b' by (auto simp: in_set_conv_nth f)
    show ?thesis
    proof (cases "j = i")
      case True
      then show ?thesis using j bo(1,3) same i in_table_frame[OF fr] by (simp add: buffer_ok_def f d)
    next
      case False
      let ?c = "fs_fat_buffers fs ! j"
      have c: "?c \<in> set (fs_fat_buffers fs)" "b' = ?c" using j False by (auto simp: f)
      have "fb_address ?c \<noteq> fb_address ?b \<or> fb_address ?c = FAT32_INVALID_CLUSTER"
        using st False i j(1) unfolding sorted_wrt_iff_nth_less apart_def
        by (metis nat_neq_iff)
      moreover have "buffer_ok fs ?c" using ok c by (simp add: table_ok_def)
      ultimately show ?thesis
        using other[of "fb_address ?c"] in_table_frame[OF fr] table_frame_fields(15)[OF fr] c(2) d
        unfolding buffer_ok_def by metis
    qed
  qed
  have ok': "table_ok fs'"
    using ok st' buf table_frame_fields[OF fr] reliable_frame[OF fr]
    by (simp add: table_ok_def) (simp add: f)
  have "fat_view fs' = fat_view fs"
  proof (rule fat_view_eqI[OF st st'])
    fix c assume "c \<in> set (fs_fat_buffers fs)"
    then obtain j where j: "j < length (fs_fat_buffers fs)" "c = fs_fat_buffers fs ! j"
      by (auto simp: in_set_conv_nth)
    then have "fs_fat_buffers fs' ! j \<in> set (fs_fat_buffers fs')" by (simp add: f)
    moreover have "fb_address (fs_fat_buffers fs' ! j) = fb_address c"
      "fb_sector (fs_fat_buffers fs' ! j) = fb_sector c"
      using j adr by simp_all
    ultimately show "\<exists>b'\<in>set (fs_fat_buffers fs'). fb_address b' = fb_address c \<and> fb_sector b' = fb_sector c"
      by blast
  next
    fix c assume "c \<in> set (fs_fat_buffers fs')"
    then obtain j where j: "j < length (fs_fat_buffers fs)" "c = fs_fat_buffers fs' ! j"
      by (auto simp: in_set_conv_nth f)
    then have "fb_address c = fb_address (fs_fat_buffers fs ! j)" by (simp add: adr)
    then show "\<exists>b\<in>set (fs_fat_buffers fs). fb_address c = fb_address b" using j by auto
  next
    fix s assume "\<forall>b\<in>set (fs_fat_buffers fs). fb_address b = s \<longrightarrow> s = FAT32_INVALID_CLUSTER"
    then have "s \<noteq> fb_address ?b" using b in_table_valid[OF ok bo(3)] by auto
    then show "md_bytes (fs_disk_io fs') (unat s) 1 = md_bytes (fs_disk_io fs) (unat s) 1"
      using other d by simp
  qed
  then show ?thesis using w ok' fr f by auto
qed

lemma writeback_if_dirty:
  assumes "table_ok fs" "i < length (fs_fat_buffers fs)"
  shows "\<exists>fs'. (if fb_dirty (fs_fat_buffers fs ! i) then fatfs_fat_writeback fs i else Inr (True, fs)) =
      Inr (True, fs') \<and> table_ok fs' \<and> fat_view fs' = fat_view fs \<and> table_frame fs fs' \<and>
    fs_fat_buffers fs' = (fs_fat_buffers fs)[i := fb_dirty_update (\<lambda>_. False) (fs_fat_buffers fs ! i)]"
  using writeback_ok[OF assms] by (auto simp: fatfs_fat_writeback_def)

text \<open>A clean first buffer takes the sector \<open>s\<close> that no buffer holds.\<close>

lemma load_ok:
  assumes ok: "table_ok fs" and b: "fs_fat_buffers fs = b # bs" "\<not> fb_dirty b"
    and new: "\<forall>c \<in> set (fs_fat_buffers fs). fb_address c \<noteq> s" and t: "in_table fs s"
  defines "fs' \<equiv> upd_buffer fs 0 (\<lambda>b. b\<lparr>fb_address := s, fb_sector := md_bytes (fs_disk_io fs) (unat s) 1\<rparr>)"
  shows "table_ok fs'" "fat_view fs' = fat_view fs" "table_frame fs fs'"
    "fb_sector (fs_fat_buffers fs' ! 0) = fat_view fs s"
proof -
  have s: "s \<noteq> FAT32_INVALID_CLUSTER" by (rule in_table_valid[OF ok t])
  have f: "fs_fat_buffers fs' = b\<lparr>fb_address := s, fb_sector := md_bytes (fs_disk_io fs) (unat s) 1\<rparr> # bs"
    and d: "fs_disk_io fs' = fs_disk_io fs"
    by (simp_all add: fs'_def upd_buffer_def b)
  show fr: "table_frame fs fs'" by (simp add: table_frame_def fs'_def upd_buffer_def)
  have st: "sorted_wrt apart (fs_fat_buffers fs)" using ok by (simp add: table_ok_def)
  then have st': "sorted_wrt apart (fs_fat_buffers fs')" unfolding f b using new by (auto simp: apart_def b)
  have "buffer_ok fs' c = buffer_ok fs c" for c
    using in_table_frame[OF fr] d by (simp add: buffer_ok_def)
  then have "\<forall>c \<in> set (fs_fat_buffers fs'). buffer_ok fs' c"
    using ok b t by (auto simp: f table_ok_def buffer_ok_def)
  then show "table_ok fs'"
    using ok st' table_frame_fields[OF fr] d by (simp add: table_ok_def) (simp add: f)
  have vs: "fat_view fs s = md_bytes (fs_disk_io fs) (unat s) 1"
    by (rule fat_view_media) (use new in auto)
  show "fb_sector (fs_fat_buffers fs' ! 0) = fat_view fs s" by (simp add: f vs)
  show "fat_view fs' = fat_view fs"
  proof
    fix t
    have bo: "fb_address b = FAT32_INVALID_CLUSTER \<or> fb_sector b = md_bytes (fs_disk_io fs) (unat (fb_address b)) 1"
      using ok b by (auto simp: table_ok_def buffer_ok_def)
    have nb: "\<forall>c \<in> set bs. apart b c" using st by (simp add: b)
    show "fat_view fs' t = fat_view fs t"
    proof (cases "t = s")
      case True
      then show ?thesis using vs s by (simp add: fat_view_def f)
    next
      case False
      then show ?thesis
        using bo by (auto simp: fat_view_def f b d split: option.splits)
          (metis apart_def find_buffer_Some nb nth_mem)+
    qed
  qed
qed

text \<open>
  Reading a sector of the table hands out a buffer with the contents of the view, whatever
  is cached and dirty; neither the view nor anything outside the table changes.
\<close>

lemma read_sector_ok:
  assumes ok: "table_ok fs" and t: "in_table fs s"
  obtains i fs' where "fatfs_fat_read_sector fs s = Inr (Some i, fs')" "table_ok fs'"
    "fat_view fs' = fat_view fs" "table_frame fs fs'" "i < length (fs_fat_buffers fs')"
    "fb_address (fs_fat_buffers fs' ! i) = s" "fb_sector (fs_fat_buffers fs' ! i) = fat_view fs s"
proof (cases "find_buffer s (fs_fat_buffers fs)")
  case (Some i)
  show ?thesis
  proof (rule that)
    show "fatfs_fat_read_sector fs s = Inr (Some i, fs)" using Some by (simp add: fatfs_fat_read_sector_def)
    show "fb_sector (fs_fat_buffers fs ! i) = fat_view fs s" using Some by (simp add: fat_view_def)
  qed (use find_buffer_Some[OF Some] ok in simp_all)
next
  case None
  let ?f1 = "fs\<lparr>fs_fat_buffers := last (fs_fat_buffers fs) # butlast (fs_fat_buffers fs)\<rparr>"
  note r = rotate_ok[OF ok]
  have "0 < length (fs_fat_buffers ?f1)" by simp
  from writeback_if_dirty[OF r(1) this] obtain f2 where
    w: "(if fb_dirty (fs_fat_buffers ?f1 ! 0) then fatfs_fat_writeback ?f1 0 else Inr (True, ?f1)) = Inr (True, f2)"
      "table_ok f2" "fat_view f2 = fat_view ?f1" "table_frame ?f1 f2"
      "fs_fat_buffers f2 = (fs_fat_buffers ?f1)[0 := fb_dirty_update (\<lambda>_. False) (fs_fat_buffers ?f1 ! 0)]"
    by blast
  let ?b = "fb_dirty_update (\<lambda>_. False) (last (fs_fat_buffers fs))"
  have b2: "fs_fat_buffers f2 = ?b # butlast (fs_fat_buffers fs)" "\<not> fb_dirty ?b" using w(5) by simp_all
  have "\<forall>c \<in> set (fs_fat_buffers ?f1). fb_address c \<noteq> s"
    using None in_table_valid[OF ok t] r(4) by (simp add: find_buffer_None)
  then have new: "\<forall>c \<in> set (fs_fat_buffers f2). fb_address c \<noteq> s" by (auto simp: b2(1))
  have "in_table f2 s" using t in_table_frame[OF r(3)] in_table_frame[OF w(4)] by simp
  note l = load_ok[OF w(2) b2 new this]
  have rel: "reliable (fs_disk_io f2)" using w(2) by (simp add: table_ok_def)
  show ?thesis
  proof (rule that)
    show "fatfs_fat_read_sector fs s = Inr (Some 0,
        upd_buffer f2 0 (\<lambda>b. b\<lparr>fb_address := s, fb_sector := md_bytes (fs_disk_io f2) (unat s) 1\<rparr>))"
      using None ok w(1) rel
      by (simp add: fatfs_fat_read_sector_def table_ok_def reliable_def media_read_def FAT_BUFFER_SECTORS_def)
    show "table_frame fs (upd_buffer f2 0 (\<lambda>b. b\<lparr>fb_address := s, fb_sector := md_bytes (fs_disk_io f2) (unat s) 1\<rparr>))"
      by (rule table_frame_trans[OF table_frame_trans[OF r(3) w(4)] l(3)])
  qed (use l r w b2 in \<open>simp_all add: upd_buffer_def\<close>)
qed

end
