(* ===== verification/FatLinks.thy ===== *)
theory FatLinks
  imports FatView
begin

text \<open>
  The entries of the file allocation table as clients of \<open>fat_table.c\<close> see them: where an
  entry lies, which successor it stands for, and that \<open>fatfs_find_next_cluster\<close> reads and
  \<open>fatfs_fat_set_cluster\<close> changes exactly one of them. A 32-bit table is a provider of the
  \<open>link_table\<close> interface.
\<close>

section \<open>Entries and links\<close>

definition covers :: "fatfs \<Rightarrow> u32 \<Rightarrow> bool" where
  "covers fs c \<longleftrightarrow> fat_sector_offset fs c < fs_fat_sectors fs"

definition entry_sector :: "fatfs \<Rightarrow> u32 \<Rightarrow> u32" where
  "entry_sector fs c = fs_fat_begin_lba fs + fat_sector_offset fs c"

text \<open>The entry as it is stored, and the successor it stands for.\<close>

definition fat_raw :: "fatfs \<Rightarrow> u32 \<Rightarrow> u32" where
  "fat_raw fs c = (case fs_fat_type fs of
      FAT_TYPE_16 \<Rightarrow> GET_16BIT_WORD (fat_view fs (entry_sector fs c)) (fat_position fs c)
    | FAT_TYPE_32 \<Rightarrow> GET_32BIT_WORD (fat_view fs (entry_sector fs c)) (fat_position fs c))"

definition as_next :: "tFatType \<Rightarrow> u32 \<Rightarrow> u32" where
  "as_next t e = (case t of
      FAT_TYPE_16 \<Rightarrow> if 0xFFF8 \<le> e \<and> e \<le> 0xFFFF then FAT32_LAST_CLUSTER else e
    | FAT_TYPE_32 \<Rightarrow> if 0x0FFFFFF8 \<le> e AND 0x0FFFFFFF \<and> e AND 0x0FFFFFFF \<le> 0x0FFFFFFF
                      then FAT32_LAST_CLUSTER else e AND 0x0FFFFFFF)"

definition fat_next :: "fatfs \<Rightarrow> u32 \<Rightarrow> u32" where
  "fat_next fs c = as_next (fs_fat_type fs) (fat_raw fs (if c = 0 then 2 else c))"

text \<open>A link is stored in 16 or 32 bits.\<close>

definition as_stored :: "tFatType \<Rightarrow> u32 \<Rightarrow> u32" where
  "as_stored t n = (case t of FAT_TYPE_16 \<Rightarrow> ucast (ucast n :: u16) | FAT_TYPE_32 \<Rightarrow> n)"

lemma covers_in_table:
  assumes "table_ok fs" "covers fs c"
  shows "in_table fs (entry_sector fs c)" "entry_sector fs c \<noteq> FAT32_INVALID_CLUSTER"
proof -
  have o: "unat (fat_sector_offset fs c) < unat (fs_fat_sectors fs)"
    using assms(2) by (simp add: covers_def word_less_nat_alt)
  have g: "unat (fs_fat_begin_lba fs) + unat (fs_fat_sectors fs) < 2 ^ 32"
    using assms(1) by (simp add: table_ok_def)
  have "unat (entry_sector fs c) = unat (fs_fat_begin_lba fs) + unat (fat_sector_offset fs c)"
    unfolding entry_sector_def by (rule unat_add_lem [THEN iffD1]) (use o g in simp)
  then show "in_table fs (entry_sector fs c)" using o by (simp add: in_table_def)
  then show "entry_sector fs c \<noteq> FAT32_INVALID_CLUSTER" by (rule in_table_valid[OF assms(1)])
qed

lemma position_mod:
  "fat_position fs c = (case fs_fat_type fs of
     FAT_TYPE_16 \<Rightarrow> unat c mod 256 * 2 | FAT_TYPE_32 \<Rightarrow> unat c mod 128 * 4)"
proof -
  have "unat c mod 256 < 256" "unat c mod 128 < 128" by simp_all
  then have "unat c mod 256 * 2 < 2 ^ 16" "unat c mod 128 * 4 < 2 ^ 16" unfolding power_numeral by simp_all
  moreover have "unat ((c mod 256) * 2) = unat c mod 256 * 2" "unat ((c mod 128) * 4) = unat c mod 128 * 4"
    by (simp_all add: unat_word_ariths)
  ultimately have "unat (ucast ((c mod 256) * 2) :: u16) = unat c mod 256 * 2"
      "unat (ucast ((c mod 128) * 4) :: u16) = unat c mod 128 * 4"
    by (simp_all add: unsigned_ucast_eq take_bit_eq_mod)
  then show ?thesis
    by (simp add: fat_position_def fat_sector_offset_def minus_div_mult_eq_mod split: tFatType.splits)
qed

lemma position_fits:
  "fs_fat_type fs = FAT_TYPE_16 \<Longrightarrow> fat_position fs c + 1 < 512"
  "fs_fat_type fs = FAT_TYPE_32 \<Longrightarrow> fat_position fs c + 3 < 512"
proof -
  have "unat c mod 256 < 256" "unat c mod 128 < 128" by simp_all
  then show "fs_fat_type fs = FAT_TYPE_16 \<Longrightarrow> fat_position fs c + 1 < 512"
    "fs_fat_type fs = FAT_TYPE_32 \<Longrightarrow> fat_position fs c + 3 < 512"
    unfolding position_mod by simp_all
qed

text \<open>Different clusters have different places.\<close>

lemma place_distinct:
  assumes "c \<noteq> d" "entry_sector fs c = entry_sector fs d"
  shows "fs_fat_type fs = FAT_TYPE_16 \<Longrightarrow>
      fat_position fs c + 2 \<le> fat_position fs d \<or> fat_position fs d + 2 \<le> fat_position fs c"
    "fs_fat_type fs = FAT_TYPE_32 \<Longrightarrow>
      fat_position fs c + 4 \<le> fat_position fs d \<or> fat_position fs d + 4 \<le> fat_position fs c"
proof -
  have o: "fat_sector_offset fs c = fat_sector_offset fs d" using assms(2) by (simp add: entry_sector_def)
  have n: "unat c \<noteq> unat d" using assms(1) by (simp add: word_unat_eq_iff)
  show "fat_position fs c + 2 \<le> fat_position fs d \<or> fat_position fs d + 2 \<le> fat_position fs c"
    if t: "fs_fat_type fs = FAT_TYPE_16"
  proof -
    have "unat c div 256 = unat d div 256"
      using o by (simp add: fat_sector_offset_def t word_unat_eq_iff unat_div)
    then have "unat c mod 256 \<noteq> unat d mod 256" using n by (metis div_mult_mod_eq)
    then show ?thesis unfolding position_mod t tFatType.case by linarith
  qed
  show "fat_position fs c + 4 \<le> fat_position fs d \<or> fat_position fs d + 4 \<le> fat_position fs c"
    if t: "fs_fat_type fs = FAT_TYPE_32"
  proof -
    have "unat c div 128 = unat d div 128"
      using o by (simp add: fat_sector_offset_def t word_unat_eq_iff unat_div)
    then have "unat c mod 128 \<noteq> unat d mod 128" using n by (metis div_mult_mod_eq)
    then show ?thesis unfolding position_mod t tFatType.case by linarith
  qed
qed

lemma frame_entries:
  assumes "table_frame fs fs'"
  shows "fat_sector_offset fs' c = fat_sector_offset fs c" "fat_position fs' c = fat_position fs c"
    "entry_sector fs' c = entry_sector fs c" "covers fs' c = covers fs c" "fat_entries fs' = fat_entries fs"
    "fat_get fs' b k = fat_get fs b k"
proof -
  note f = table_frame_fields(6,9,12)[OF assms]
  show o: "fat_sector_offset fs' c = fat_sector_offset fs c" by (simp add: fat_sector_offset_def f)
  show "fat_position fs' c = fat_position fs c" "entry_sector fs' c = entry_sector fs c"
    "covers fs' c = covers fs c" "fat_entries fs' = fat_entries fs" "fat_get fs' b k = fat_get fs b k"
    by (cases "fs_fat_type fs"; simp add: fat_position_def entry_sector_def covers_def fat_entries_def fat_get_def f o)+
qed

lemma frame_view:
  assumes "table_frame fs fs'" "fat_view fs' = fat_view fs"
  shows "fat_raw fs' = fat_raw fs" "fat_next fs' = fat_next fs"
proof -
  show raw: "fat_raw fs' = fat_raw fs"
    by (rule ext, cases "fs_fat_type fs")
       (simp_all add: fat_raw_def frame_entries[OF assms(1)] table_frame_fields(12)[OF assms(1)] assms(2))
  show "fat_next fs' = fat_next fs"
    by (rule ext) (simp add: fat_next_def raw table_frame_fields(12)[OF assms(1)])
qed

lemma find_next_ok:
  assumes ok: "table_ok fs" and c: "covers fs (if c = 0 then 2 else c)"
  obtains fs' where "fatfs_find_next_cluster fs c = Inr (fat_next fs c, fs')" "table_ok fs'"
    "fat_view fs' = fat_view fs" "table_frame fs fs'"
proof -
  define e where "e = (if c = 0 then 2 else c)"
  obtain i fs' where r: "fatfs_fat_read_sector fs (entry_sector fs e) = Inr (Some i, fs')" "table_ok fs'"
    "fat_view fs' = fat_view fs" "table_frame fs fs'"
    "fb_sector (fs_fat_buffers fs' ! i) = fat_view fs (entry_sector fs e)"
    using read_sector_ok[OF ok covers_in_table(1)[OF ok c[folded e_def]]] by blast
  have "fatfs_find_next_cluster fs c = Inr (fat_next fs c, fs')"
    using r(1,5) frame_entries[OF r(4)] table_frame_fields(12)[OF r(4)]
    unfolding fatfs_find_next_cluster_def e_def[symmetric] entry_sector_def[symmetric] Let_def
    by (cases "fs_fat_type fs")
       (simp_all add: fat_next_def e_def[symmetric] as_next_def fat_raw_def fat_get_def)
  with r show ?thesis using that by blast
qed

text \<open>Changing a buffered sector of the table changes just that sector of the view.\<close>

lemma change_ok:
  assumes ok: "table_ok fs" and i: "i < length (fs_fat_buffers fs)"
    and a: "in_table fs (fb_address (fs_fat_buffers fs ! i))" and w: "md_can_write (fs_disk_io fs)"
    and l: "length bs = 512"
  defines "fs' \<equiv> upd_buffer fs i (\<lambda>b. b\<lparr>fb_sector := bs, fb_dirty := True\<rparr>)"
  shows "table_ok fs'" "table_frame fs fs'"
    "fat_view fs' = (fat_view fs)(fb_address (fs_fat_buffers fs ! i) := bs)"
proof -
  let ?b = "fs_fat_buffers fs ! i"
  have f: "fs_fat_buffers fs' = (fs_fat_buffers fs)[i := ?b\<lparr>fb_sector := bs, fb_dirty := True\<rparr>]"
    and d: "fs_disk_io fs' = fs_disk_io fs" by (simp_all add: fs'_def upd_buffer_def)
  show fr: "table_frame fs fs'" by (simp add: table_frame_def fs'_def upd_buffer_def)
  have adr: "fb_address (fs_fat_buffers fs' ! j) = fb_address (fs_fat_buffers fs ! j)"
    if "j < length (fs_fat_buffers fs)" for j
    using that by (cases "j = i") (simp_all add: f)
  have len: "length (fs_fat_buffers fs') = length (fs_fat_buffers fs)" by (simp add: f)
  have st: "sorted_wrt apart (fs_fat_buffers fs)" using ok by (simp add: table_ok_def)
  then have st': "sorted_wrt apart (fs_fat_buffers fs')"
    using adr unfolding sorted_wrt_iff_nth_less apart_def len by (metis less_trans)
  have same: "buffer_ok fs' c = buffer_ok fs c" for c
    using in_table_frame[OF fr] d by (simp add: buffer_ok_def)
  have "buffer_ok fs' (?b\<lparr>fb_sector := bs, fb_dirty := True\<rparr>)"
    using a w l d in_table_frame[OF fr] by (simp add: buffer_ok_def)
  moreover have "set (fs_fat_buffers fs') \<subseteq> insert (?b\<lparr>fb_sector := bs, fb_dirty := True\<rparr>) (set (fs_fat_buffers fs))"
    unfolding f by (rule set_update_subset_insert)
  ultimately have "\<forall>c \<in> set (fs_fat_buffers fs'). buffer_ok fs' c"
    using ok same unfolding table_ok_def by blast
  then show ok': "table_ok fs'"
    using ok st' table_frame_fields[OF fr] d i by (simp add: table_ok_def) (simp add: f)
  show "fat_view fs' = (fat_view fs)(fb_address ?b := bs)"
  proof
    fix s
    have v: "fb_address ?b \<noteq> FAT32_INVALID_CLUSTER" by (rule in_table_valid[OF ok a])
    show "fat_view fs' s = ((fat_view fs)(fb_address ?b := bs)) s"
    proof (cases "s = fb_address ?b")
      case True
      then show ?thesis
        using find_buffer_unique[OF st', of i s] i adr v len by (simp add: fat_view_def f)
    next
      case False
      show ?thesis
      proof (cases "find_buffer s (fs_fat_buffers fs)")
        case None
        then have "find_buffer s (fs_fat_buffers fs') = None"
          unfolding find_buffer_None using adr len by (metis in_set_conv_nth)
        then show ?thesis using None False d by (simp add: fat_view_def)
      next
        case (Some j)
        note j = find_buffer_Some[OF Some]
        have "find_buffer s (fs_fat_buffers fs') = Some j"
          by (rule find_buffer_unique[OF st']) (use j adr len in auto)
        moreover have "j \<noteq> i" using j False by auto
        ultimately show ?thesis using Some False by (simp add: fat_view_def f)
      qed
    qed
  qed
qed

lemma set_cluster_ok:
  assumes ok: "table_ok fs" and c: "covers fs c" and w: "md_can_write (fs_disk_io fs)"
  obtains fs' where "fatfs_fat_set_cluster fs c n = Inr (True, fs')" "table_ok fs'" "table_frame fs fs'"
    "fat_raw fs' = (fat_raw fs)(c := as_stored (fs_fat_type fs) n)"
proof -
  note ct = covers_in_table[OF ok c]
  obtain i f1 where r: "fatfs_fat_read_sector fs (entry_sector fs c) = Inr (Some i, f1)" "table_ok f1"
    "fat_view f1 = fat_view fs" "table_frame fs f1" "i < length (fs_fat_buffers f1)"
    "fb_address (fs_fat_buffers f1 ! i) = entry_sector fs c"
    "fb_sector (fs_fat_buffers f1 ! i) = fat_view fs (entry_sector fs c)"
    using read_sector_ok[OF ok ct(1)] by blast
  have "buffer_ok f1 (fs_fat_buffers f1 ! i)" using r(2,5) by (simp add: table_ok_def)
  then have len: "length (fat_view fs (entry_sector fs c)) = 512" using r(7) by (simp add: buffer_ok_def)
  define bs where "bs = (case fs_fat_type fs of
      FAT_TYPE_16 \<Rightarrow> SET_16BIT_WORD (fat_view fs (entry_sector fs c)) (fat_position fs c) (ucast n)
    | FAT_TYPE_32 \<Rightarrow> SET_32BIT_WORD (fat_view fs (entry_sector fs c)) (fat_position fs c) n)"
  define fs' where "fs' = upd_buffer f1 i (\<lambda>b. b\<lparr>fb_sector := bs, fb_dirty := True\<rparr>)"
  have l: "length bs = 512" using len by (cases "fs_fat_type fs") (simp_all add: bs_def)
  have "in_table f1 (fb_address (fs_fat_buffers f1 ! i))" using ct(1) r(6) in_table_frame[OF r(4)] by simp
  moreover have "md_can_write (fs_disk_io f1)" using w table_frame_fields(15)[OF r(4)] by simp
  ultimately have ch: "table_ok fs'" "table_frame f1 fs'" "fat_view fs' = (fat_view fs)(entry_sector fs c := bs)"
    using change_ok[OF r(2,5) _ _ l] r(3,6) by (simp_all add: fs'_def)
  have fr: "table_frame fs fs'" by (rule table_frame_trans[OF r(4) ch(2)])
  have "fatfs_fat_set_cluster fs c n = Inr (True, fs')"
    using r(1,7) table_frame_fields(12)[OF r(4)] frame_entries(2)[OF r(4)]
    unfolding fatfs_fat_set_cluster_def entry_sector_def[symmetric] fs'_def
    by (cases "fs_fat_type fs") (simp_all add: bs_def upd_buffer_def)
  moreover have "fat_raw fs' = (fat_raw fs)(c := as_stored (fs_fat_type fs) n)"
  proof
    fix d
    note fe = frame_entries(2,3)[OF fr] table_frame_fields(12)[OF fr]
    show "fat_raw fs' d = ((fat_raw fs)(c := as_stored (fs_fat_type fs) n)) d"
    proof (cases "d = c")
      case True
      then show ?thesis using position_fits[of fs c] len
        by (cases "fs_fat_type fs") (simp_all add: fat_raw_def fe ch(3) bs_def as_stored_def)
    next
      case False
      then show ?thesis using place_distinct[of c d fs]
        by (cases "fs_fat_type fs"; cases "entry_sector fs d = entry_sector fs c")
           (auto simp: fat_raw_def fe ch(3) bs_def)
    qed
  qed
  ultimately show ?thesis using that ch(1) fr by blast
qed

text \<open>A 32-bit table is an array of links, the interface of \<open>Chain\<close>.\<close>

definition fat32_ok :: "fatfs \<Rightarrow> bool" where
  "fat32_ok fs \<longleftrightarrow> table_ok fs \<and> md_can_write (fs_disk_io fs) \<and> fs_fat_type fs = FAT_TYPE_32"

definition fat32_store :: "fatfs \<Rightarrow> u32 \<Rightarrow> u32 \<Rightarrow> fatfs" where
  "fat32_store fs c n = (case fatfs_fat_set_cluster fs c n of Inr (_, fs') \<Rightarrow> fs' | Inl _ \<Rightarrow> fs)"

interpretation fat32: link_table fat_raw fat32_store fat32_ok covers
proof unfold_locales
  fix fs :: fatfs and c d n :: u32
  assume ok: "fat32_ok fs" and c: "covers fs c"
  from ok have t: "table_ok fs" "md_can_write (fs_disk_io fs)" "fs_fat_type fs = FAT_TYPE_32"
    by (simp_all add: fat32_ok_def)
  obtain fs' where s: "fatfs_fat_set_cluster fs c n = Inr (True, fs')" "table_ok fs'" "table_frame fs fs'"
    "fat_raw fs' = (fat_raw fs)(c := as_stored (fs_fat_type fs) n)"
    using set_cluster_ok[OF t(1) c t(2)] by blast
  then have st: "fat32_store fs c n = fs'" by (simp add: fat32_store_def)
  show "fat_raw (fat32_store fs c n) c = n" using s(4) t(3) st by (simp add: as_stored_def)
  show "d \<noteq> c \<Longrightarrow> fat_raw (fat32_store fs c n) d = fat_raw fs d" using s(4) st by simp
  show "fat32_ok (fat32_store fs c n)"
    using s(2) t table_frame_fields[OF s(3)] by (simp add: st fat32_ok_def)
  show "covers (fat32_store fs c n) d = covers fs d" using frame_entries(4)[OF s(3)] st by simp
qed

end
