(* ===== verification/FatChain.thy ===== *)
theory FatChain
  imports FatLinks
begin

text \<open>
  Cluster chains in the table of the FAT library: freeing a chain, appending to it, the
  search for a free cluster, the free count, and writing the changed sectors back.
\<close>

section \<open>Chains\<close>

primrec fat_chain :: "(u32 \<Rightarrow> u32) \<Rightarrow> u32 \<Rightarrow> u32 list \<Rightarrow> bool" where
  "fat_chain f p [] \<longleftrightarrow> p = FAT32_LAST_CLUSTER"
| "fat_chain f p (c # cs) \<longleftrightarrow> p = c \<and> c \<noteq> 0 \<and> c \<noteq> FAT32_LAST_CLUSTER \<and> fat_chain f (f c) cs"

lemma fat_chain_unique: "fat_chain f p cs \<Longrightarrow> fat_chain f p ds \<Longrightarrow> cs = ds"
proof (induction cs arbitrary: p ds)
  case Nil
  then show ?case by (cases ds) auto
next
  case (Cons c cs)
  then show ?case by (cases ds) auto
qed

lemma fat_chain_suffix: "fat_chain f p (xs @ c # ys) \<Longrightarrow> fat_chain f c (c # ys)"
  by (induction xs arbitrary: p) auto

lemma fat_chain_distinct: "fat_chain f p cs \<Longrightarrow> distinct cs"
proof (induction cs arbitrary: p)
  case (Cons c cs)
  have "c \<notin> set cs"
  proof
    assume "c \<in> set cs"
    then obtain xs ys where cs: "cs = xs @ c # ys" by (meson split_list)
    then have "fat_chain f c (c # ys)" using fat_chain_suffix[of f p "c # xs" c ys] Cons.prems by simp
    moreover have "fat_chain f c (c # cs)" using Cons.prems by simp
    ultimately show False using fat_chain_unique cs by fastforce
  qed
  then show ?case using Cons by auto
qed simp

lemma fat_chain_nonzero: "fat_chain f p cs \<Longrightarrow> c \<in> set cs \<Longrightarrow> c \<noteq> 0 \<and> c \<noteq> FAT32_LAST_CLUSTER"
  by (induction cs arbitrary: p) auto

lemma fat_chain_cong:
  "fat_chain f p cs \<Longrightarrow> (\<And>c. c \<in> set cs \<Longrightarrow> g c = f c) \<Longrightarrow> fat_chain g p cs"
  by (induction cs arbitrary: p) auto

lemma fat_chain_append:
  "fat_chain f p cs \<Longrightarrow> cs \<noteq> [] \<Longrightarrow> n \<noteq> 0 \<Longrightarrow> n \<noteq> FAT32_LAST_CLUSTER \<Longrightarrow>
   g (last cs) = n \<Longrightarrow> g n = FAT32_LAST_CLUSTER \<Longrightarrow>
   (\<And>c. c \<in> set cs \<Longrightarrow> c \<noteq> last cs \<Longrightarrow> g c = f c) \<Longrightarrow> fat_chain g p (cs @ [n])"
proof (induction cs arbitrary: p)
  case (Cons c cs)
  show ?case
  proof (cases "cs = []")
    case True
    then show ?thesis using Cons.prems by auto
  next
    case False
    then have "c \<noteq> last cs" using fat_chain_distinct[OF Cons.prems(1)] by auto
    then have "g c = f c" using Cons.prems(7)[of c] False by simp
    moreover have "fat_chain g (f c) (cs @ [n])"
      by (rule Cons.IH) (use Cons.prems False in auto)
    ultimately show ?thesis using Cons.prems by simp
  qed
qed simp

lemma covers_entries: "covers fs c \<longleftrightarrow> unat c < fat_entries fs"
  by (cases "fs_fat_type fs")
     (simp_all add: covers_def fat_entries_def fat_sector_offset_def word_less_nat_alt unat_div
       div_less_iff_less_mult)

lemma covered_length:
  assumes "distinct cs" "\<forall>c \<in> set cs. covers fs c" shows "length cs \<le> fat_entries fs"
proof -
  have "card (unat ` set cs) \<le> card {..<fat_entries fs}"
    by (rule card_mono) (use assms(2) in \<open>auto simp: covers_entries\<close>)
  moreover have "card (unat ` set cs) = card (set cs)"
    by (rule card_image) (auto simp: inj_on_def word_unat_eq_iff)
  ultimately show ?thesis using distinct_card[OF assms(1)] by simp
qed

section \<open>Freeing a chain\<close>

lemma free_chain_loop_ok:
  "table_ok fs \<Longrightarrow> md_can_write (fs_disk_io fs) \<Longrightarrow> fat_chain (fat_next fs) p cs \<Longrightarrow>
   \<forall>c \<in> set cs. covers fs c \<Longrightarrow> length cs < fuel \<Longrightarrow>
   \<exists>fs'. free_chain_loop fuel fs p = Inr fs' \<and> table_ok fs' \<and> table_frame fs fs' \<and>
     fat_raw fs' = (\<lambda>c. if c \<in> set cs then 0 else fat_raw fs c)"
proof (induction cs arbitrary: fs p fuel)
  case Nil
  then show ?case by (cases fuel) auto
next
  case (Cons c cs)
  obtain k where k: "fuel = Suc k" "length cs < k" using Cons.prems(5) by (cases fuel) auto
  have p: "p = c" "c \<noteq> 0" "c \<noteq> FAT32_LAST_CLUSTER" "fat_chain (fat_next fs) (fat_next fs c) cs"
    using Cons.prems(3) by auto
  have c: "covers fs c" "c \<notin> set cs" using Cons.prems(4) fat_chain_distinct[OF Cons.prems(3)] by auto
  obtain f1 where f1: "fatfs_find_next_cluster fs c = Inr (fat_next fs c, f1)" "table_ok f1"
    "fat_view f1 = fat_view fs" "table_frame fs f1"
    using find_next_ok[OF Cons.prems(1), of c] p(2) c(1) by auto
  have c1: "covers f1 c" "md_can_write (fs_disk_io f1)"
    using c(1) frame_entries(4)[OF f1(4)] Cons.prems(2) table_frame_fields(15)[OF f1(4)] by simp_all
  obtain f2 where f2: "fatfs_fat_set_cluster f1 c 0 = Inr (True, f2)" "table_ok f2" "table_frame f1 f2"
    "fat_raw f2 = (fat_raw f1)(c := as_stored (fs_fat_type f1) 0)"
    using set_cluster_ok[OF f1(2) c1] by blast
  have fr: "table_frame fs f2" by (rule table_frame_trans[OF f1(4) f2(3)])
  have raw: "fat_raw f2 = (fat_raw fs)(c := 0)"
    using f2(4) frame_view(1)[OF f1(4,3)] by (cases "fs_fat_type f1") (simp_all add: as_stored_def)
  have next2: "fat_next f2 d = fat_next fs d" if "d \<in> set cs" for d
    using that c(2) fat_chain_nonzero[OF p(4) that] table_frame_fields(12)[OF fr] by (auto simp: fat_next_def raw)
  have "\<exists>fs'. free_chain_loop k f2 (fat_next fs c) = Inr fs' \<and> table_ok fs' \<and> table_frame f2 fs' \<and>
      fat_raw fs' = (\<lambda>c. if c \<in> set cs then 0 else fat_raw f2 c)"
  proof (rule Cons.IH[OF f2(2) _ _ _ k(2)])
    show "md_can_write (fs_disk_io f2)" using Cons.prems(2) table_frame_fields(15)[OF fr] by simp
    show "fat_chain (fat_next f2) (fat_next fs c) cs" by (rule fat_chain_cong[OF p(4) next2])
    show "\<forall>c\<in>set cs. covers f2 c" using Cons.prems(4) frame_entries(4)[OF fr] by simp
  qed
  then obtain fs' where r: "free_chain_loop k f2 (fat_next fs c) = Inr fs'" "table_ok fs'" "table_frame f2 fs'"
    "fat_raw fs' = (\<lambda>c. if c \<in> set cs then 0 else fat_raw f2 c)" by blast
  have "free_chain_loop fuel fs p = Inr fs'" using p f1(1) f2(1) r(1) by (simp add: k(1))
  moreover have "table_frame fs fs'" by (rule table_frame_trans[OF fr r(3)])
  moreover have "fat_raw fs' = (\<lambda>d. if d \<in> set (c # cs) then 0 else fat_raw fs d)"
    unfolding r(4) raw by (auto simp: fun_eq_iff)
  ultimately show ?case using r(2) by blast
qed

lemma free_cluster_chain_ok:
  assumes "table_ok fs" "md_can_write (fs_disk_io fs)" "fat_chain (fat_next fs) p cs"
    "\<forall>c \<in> set cs. covers fs c"
  shows "\<exists>fs'. fatfs_free_cluster_chain fs p = Inr (True, fs') \<and> table_ok fs' \<and> table_frame fs fs' \<and>
     fat_raw fs' = (\<lambda>c. if c \<in> set cs then 0 else fat_raw fs c)"
proof -
  have "length cs < Suc (fat_entries fs)"
    using covered_length[OF fat_chain_distinct[OF assms(3)] assms(4)] by simp
  from free_chain_loop_ok[OF assms this] obtain fs' where
    "free_chain_loop (Suc (fat_entries fs)) fs p = Inr fs'" "table_ok fs'" "table_frame fs fs'"
    "fat_raw fs' = (\<lambda>c. if c \<in> set cs then 0 else fat_raw fs c)" by blast
  then show ?thesis unfolding fatfs_free_cluster_chain_def by (simp del: free_chain_loop.simps)
qed

section \<open>Appending to a chain\<close>

lemma tail_loop_ok:
  "table_ok fs \<Longrightarrow> fat_chain (fat_next fs) p cs \<Longrightarrow> \<forall>c \<in> set cs. covers fs c \<Longrightarrow> length cs < fuel \<Longrightarrow>
   \<exists>fs'. tail_loop fuel fs l p = Inr (Some (if cs = [] then l else last cs), fs') \<and> table_ok fs' \<and>
     table_frame fs fs' \<and> fat_view fs' = fat_view fs"
proof (induction cs arbitrary: fs p fuel l)
  case Nil
  then show ?case by (cases fuel) auto
next
  case (Cons c cs)
  obtain k where k: "fuel = Suc k" "length cs < k" using Cons.prems(4) by (cases fuel) auto
  have p: "p = c" "c \<noteq> 0" "c \<noteq> FAT32_LAST_CLUSTER" "fat_chain (fat_next fs) (fat_next fs c) cs"
    using Cons.prems(2) by auto
  obtain f1 where f1: "fatfs_find_next_cluster fs c = Inr (fat_next fs c, f1)" "table_ok f1"
    "fat_view f1 = fat_view fs" "table_frame fs f1"
    using find_next_ok[OF Cons.prems(1), of c] p(2) Cons.prems(3) by auto
  have nz: "fat_next fs c \<noteq> 0"
    using p(4) by (cases cs) (auto simp: FAT32_LAST_CLUSTER_def)
  have "\<exists>fs'. tail_loop k f1 c (fat_next fs c) = Inr (Some (if cs = [] then c else last cs), fs') \<and>
      table_ok fs' \<and> table_frame f1 fs' \<and> fat_view fs' = fat_view f1"
  proof (rule Cons.IH[OF f1(2) _ _ k(2)])
    show "fat_chain (fat_next f1) (fat_next fs c) cs" using p(4) frame_view(2)[OF f1(4,3)] by simp
    show "\<forall>c\<in>set cs. covers f1 c" using Cons.prems(3) frame_entries(4)[OF f1(4)] by simp
  qed
  then obtain fs' where r: "tail_loop k f1 c (fat_next fs c) = Inr (Some (if cs = [] then c else last cs), fs')"
      "table_ok fs'" "table_frame f1 fs'" "fat_view fs' = fat_view f1" by blast
  have "tail_loop fuel fs l p = Inr (Some (if c # cs = [] then l else last (c # cs)), fs')"
    using p f1(1) nz r(1) by (simp add: k(1))
  moreover have "table_frame fs fs'" by (rule table_frame_trans[OF f1(4) r(3)])
  ultimately show ?case using r f1(3) by auto
qed

lemma add_cluster_to_chain_ok:
  assumes ok: "table_ok fs" and w: "md_can_write (fs_disk_io fs)"
    and ch: "fat_chain (fat_next fs) p cs" "cs \<noteq> []" "\<forall>c \<in> set cs. covers fs c"
    and n: "covers fs n" "n \<notin> set cs" "n \<noteq> 0"
    and rep: "as_next (fs_fat_type fs) (as_stored (fs_fat_type fs) n) = n" "n \<noteq> FAT32_LAST_CLUSTER"
  shows "\<exists>fs'. fatfs_fat_add_cluster_to_chain fs p n = Inr (True, fs') \<and> table_ok fs' \<and> table_frame fs fs' \<and>
    fat_chain (fat_next fs') p (cs @ [n]) \<and>
    (\<forall>d. d \<noteq> last cs \<and> d \<noteq> n \<longrightarrow> fat_raw fs' d = fat_raw fs d)"
proof -
  let ?t = "fs_fat_type fs"
  have "length cs < Suc (fat_entries fs)"
    using covered_length[OF fat_chain_distinct[OF ch(1)] ch(3)] by simp
  from tail_loop_ok[OF ok ch(1,3) this] ch(2) obtain f1 where
    f1: "tail_loop (Suc (fat_entries fs)) fs FAT32_LAST_CLUSTER p = Inr (Some (last cs), f1)" "table_ok f1"
      "table_frame fs f1" "fat_view f1 = fat_view fs" by force
  have l: "covers fs (last cs)" "last cs \<noteq> n" "last cs \<noteq> 0"
    using ch n fat_chain_nonzero[OF ch(1), of "last cs"] by auto
  have "covers f1 (last cs)" "md_can_write (fs_disk_io f1)"
    using l(1) frame_entries(4)[OF f1(3)] w table_frame_fields(15)[OF f1(3)] by simp_all
  then obtain f2 where f2: "fatfs_fat_set_cluster f1 (last cs) n = Inr (True, f2)" "table_ok f2"
    "table_frame f1 f2" "fat_raw f2 = (fat_raw f1)(last cs := as_stored (fs_fat_type f1) n)"
    using set_cluster_ok[OF f1(2)] by blast
  have fr2: "table_frame fs f2" by (rule table_frame_trans[OF f1(3) f2(3)])
  have "covers f2 n" "md_can_write (fs_disk_io f2)"
    using n(1) frame_entries(4)[OF fr2] w table_frame_fields(15)[OF fr2] by simp_all
  then obtain f3 where f3: "fatfs_fat_set_cluster f2 n FAT32_LAST_CLUSTER = Inr (True, f3)" "table_ok f3"
    "table_frame f2 f3" "fat_raw f3 = (fat_raw f2)(n := as_stored (fs_fat_type f2) FAT32_LAST_CLUSTER)"
    using set_cluster_ok[OF f2(2)] by blast
  have fr: "table_frame fs f3" by (rule table_frame_trans[OF fr2 f3(3)])
  have raw: "fat_raw f3 = (fat_raw fs)(last cs := as_stored ?t n, n := as_stored ?t FAT32_LAST_CLUSTER)"
    using f2(4) f3(4) frame_view(1)[OF f1(3,4)] table_frame_fields(12)[OF f1(3)] table_frame_fields(12)[OF fr2]
    by simp
  have nx: "fat_next f3 d = as_next ?t (fat_raw f3 d)" if "d \<noteq> 0" for d
    using that table_frame_fields(12)[OF fr] by (simp add: fat_next_def)
  have last: "as_next ?t (as_stored ?t FAT32_LAST_CLUSTER) = FAT32_LAST_CLUSTER"
    by (cases ?t) (simp_all add: as_next_def as_stored_def FAT32_LAST_CLUSTER_def)
  have "fat_chain (fat_next f3) p (cs @ [n])"
  proof (rule fat_chain_append[OF ch(1,2) n(3) rep(2)])
    show "fat_next f3 (last cs) = n" using nx l raw rep by simp
    show "fat_next f3 n = FAT32_LAST_CLUSTER" using nx n(3) raw last by simp
    fix c assume c: "c \<in> set cs" "c \<noteq> last cs"
    have "c \<noteq> 0" "c \<noteq> n" using c fat_chain_nonzero[OF ch(1)] n(2) by auto
    have "fat_raw f3 c = fat_raw fs c" using c \<open>c \<noteq> n\<close> by (simp add: raw)
    then show "fat_next f3 c = fat_next fs c"
      using nx[OF \<open>c \<noteq> 0\<close>] \<open>c \<noteq> 0\<close> by (simp add: fat_next_def)
  qed
  moreover have "p \<noteq> FAT32_LAST_CLUSTER" using ch by (cases cs) auto
  ultimately show ?thesis
    using f1(1) f2(1) f3(1,2) fr raw unfolding fatfs_fat_add_cluster_to_chain_def
    by (simp del: tail_loop.simps)
qed

section \<open>Searching and counting free clusters\<close>

definition fat_free :: "fatfs \<Rightarrow> u32 \<Rightarrow> bool" where
  "fat_free fs c \<longleftrightarrow> (case fs_fat_type fs of
      FAT_TYPE_16 \<Rightarrow> fat_raw fs c = 0 | FAT_TYPE_32 \<Rightarrow> fat_raw fs c AND 0x0FFFFFFF = 0)"

lemma frame_free:
  assumes "table_frame fs fs'" "fat_view fs' = fat_view fs" shows "fat_free fs' = fat_free fs"
  by (rule ext) (simp only: fat_free_def frame_view(1)[OF assms] table_frame_fields(12)[OF assms(1)])

lemma get_free:
  "fat_get fs (fat_view fs (entry_sector fs c)) (fat_position fs c) = 0 \<longleftrightarrow> fat_free fs c"
  by (cases "fs_fat_type fs") (simp_all add: fat_get_def fat_free_def fat_raw_def)

definition blank_result :: "fatfs \<Rightarrow> u32 \<Rightarrow> u32 option \<Rightarrow> bool" where
  "blank_result fs s r \<longleftrightarrow> (case r of
      None \<Rightarrow> \<forall>c. s \<le> c \<and> covers fs c \<longrightarrow> \<not> fat_free fs c
    | Some c \<Rightarrow> s \<le> c \<and> covers fs c \<and> fat_free fs c \<and> (\<forall>d. s \<le> d \<and> d < c \<longrightarrow> \<not> fat_free fs d))"

lemma blank_result_step:
  assumes "\<not> fat_free fs s" "unat (s + 1) = unat s + 1" "blank_result fs (s + 1) r"
  shows "blank_result fs s r"
proof -
  have "s \<le> c \<longleftrightarrow> c = s \<or> s + 1 \<le> c" for c
    using assms(2) by (auto simp: word_le_nat_alt word_unat_eq_iff)
  then show ?thesis using assms(1,3) by (auto simp: blank_result_def split: option.splits)
qed

lemma blank_loop_ok:
  "table_ok fs \<Longrightarrow> fat_entries fs < 2 ^ 32 \<Longrightarrow> fat_entries fs - unat s < fuel \<Longrightarrow>
   \<exists>r fs'. blank_loop fuel fs s = Inr (r, fs') \<and> blank_result fs s r \<and>
     table_ok fs' \<and> table_frame fs fs' \<and> fat_view fs' = fat_view fs"
proof (induction fuel arbitrary: fs s)
  case 0
  then show ?case by simp
next
  case (Suc fuel)
  show ?case
  proof (cases "covers fs s")
    case False
    then have "blank_result fs s None"
      by (auto simp: blank_result_def covers_entries word_le_nat_alt)
    then show ?thesis using False Suc.prems(1) by (simp add: covers_def)
  next
    case True
    obtain i f1 where r: "fatfs_fat_read_sector fs (entry_sector fs s) = Inr (Some i, f1)" "table_ok f1"
      "fat_view f1 = fat_view fs" "table_frame fs f1"
      "fb_sector (fs_fat_buffers f1 ! i) = fat_view fs (entry_sector fs s)"
      using read_sector_ok[OF Suc.prems(1) covers_in_table(1)[OF Suc.prems(1) True]] by blast
    have get: "fat_get f1 (fb_sector (fs_fat_buffers f1 ! i)) (fat_position f1 s) = 0 \<longleftrightarrow> fat_free fs s"
      using r(5) frame_entries[OF r(4)] get_free[of fs s] by simp
    have step: "blank_loop (Suc fuel) fs s =
        (if fat_free fs s then Inr (Some s, f1) else blank_loop fuel f1 (s + 1))"
      using True r(1) get by (simp add: covers_def entry_sector_def)
    show ?thesis
    proof (cases "fat_free fs s")
      case free: True
      then have "blank_result fs s (Some s)" using True by (auto simp: blank_result_def)
      then show ?thesis using free step r by auto
    next
      case False
      have "unat s + 1 < 2 ^ 32" using True Suc.prems(2) by (simp add: covers_entries)
      then have u: "unat (s + 1) = unat s + 1" by (simp add: unat_word_ariths)
      have "fat_entries f1 < 2 ^ 32" "fat_entries f1 - unat (s + 1) < fuel"
        using Suc.prems(2,3) True u frame_entries(5)[OF r(4)] by (auto simp: covers_entries)
      from Suc.IH[OF r(2) this] obtain q fs' where
        q: "blank_loop fuel f1 (s + 1) = Inr (q, fs')" "blank_result f1 (s + 1) q" "table_ok fs'"
          "table_frame f1 fs'" "fat_view fs' = fat_view f1" by blast
      have "blank_result fs (s + 1) q"
        using q(2) frame_free[OF r(4,3)] frame_entries(4)[OF r(4)] by (cases q) (simp_all add: blank_result_def)
      from blank_result_step[OF False u this] show ?thesis
        using step False q r(3) table_frame_trans[OF r(4) q(4)] by auto
    qed
  qed
qed

lemma find_blank_ok:
  assumes "table_ok fs" "fat_entries fs < 2 ^ 32"
  shows "\<exists>r fs'. fatfs_find_blank_cluster fs s = Inr (r, fs') \<and> blank_result fs s r \<and>
     table_ok fs' \<and> table_frame fs fs' \<and> fat_view fs' = fat_view fs"
  unfolding fatfs_find_blank_cluster_def by (rule blank_loop_ok[OF assms]) simp

text \<open>The count is over the entries as stored, the four reserved bits included.\<close>

definition zero_entries :: "fatfs \<Rightarrow> nat \<Rightarrow> nat \<Rightarrow> nat set" where
  "zero_entries fs a b = {j. a \<le> j \<and> j < b \<and> fat_raw fs (word_of_nat j) = 0}"

definition per_sector :: "fatfs \<Rightarrow> nat" where
  "per_sector fs = (case fs_fat_type fs of FAT_TYPE_16 \<Rightarrow> 256 | FAT_TYPE_32 \<Rightarrow> 128)"

lemma count_sector_ok:
  assumes "unat i * per_sector fs + per_sector fs \<le> 2 ^ 32"
  shows "count_sector fs (fat_view fs (fs_fat_begin_lba fs + i)) =
    card (zero_entries fs (unat i * per_sector fs) (unat i * per_sector fs + per_sector fs))"
proof -
  let ?n = "per_sector fs" and ?v = "fat_view fs (fs_fat_begin_lba fs + i)"
  have n: "0 < ?n" by (simp add: per_sector_def split: tFatType.splits)
  define get where "get k = (case fs_fat_type fs of
      FAT_TYPE_16 \<Rightarrow> GET_16BIT_WORD ?v (k * 2) | FAT_TYPE_32 \<Rightarrow> GET_32BIT_WORD ?v (k * 4))" for k
  have "count_sector fs ?v = length (filter (\<lambda>k. get k = 0) [0..<?n])"
    by (cases "fs_fat_type fs") (simp_all add: count_sector_def per_sector_def get_def del: upt_rec_numeral)
  also have "\<dots> = card {k. k < ?n \<and> get k = 0}"
    using length_filter_conv_card[of "\<lambda>k. get k = 0" "[0..<?n]"] by (simp cong: conj_cong)
  also have "\<dots> = card ((\<lambda>k. unat i * ?n + k) ` {k. k < ?n \<and> get k = 0})"
    by (rule card_image [symmetric]) (simp add: inj_on_def)
  also have "(\<lambda>k. unat i * ?n + k) ` {k. k < ?n \<and> get k = 0} = zero_entries fs (unat i * ?n) (unat i * ?n + ?n)"
  proof -
    have raw: "fat_raw fs (word_of_nat (unat i * ?n + k)) = get k" if "k < ?n" for k
    proof -
      have "unat (word_of_nat (unat i * ?n + k) :: u32) = unat i * ?n + k"
        unfolding unat_of_nat by (rule mod_less) (use that assms in simp)
      then have "fat_sector_offset fs (word_of_nat (unat i * ?n + k)) = i"
        "fat_position fs (word_of_nat (unat i * ?n + k)) = k * (512 div ?n)"
        using that by (cases "fs_fat_type fs";
            simp add: fat_sector_offset_def position_mod per_sector_def word_unat_eq_iff unat_div)+
      then show ?thesis
        by (cases "fs_fat_type fs") (simp_all add: fat_raw_def entry_sector_def get_def per_sector_def)
    qed
    have "j \<in> (\<lambda>k. unat i * ?n + k) ` {k. k < ?n \<and> get k = 0}" if "j \<in> zero_entries fs (unat i * ?n) (unat i * ?n + ?n)" for j
      using that raw[of "j - unat i * ?n"] by (auto simp: zero_entries_def image_iff intro!: exI[of _ "j - unat i * ?n"])
    then show ?thesis using raw by (auto simp: zero_entries_def)
  qed
  finally show ?thesis .
qed

lemma card_zero_entries:
  "a \<le> b \<Longrightarrow> b \<le> c \<Longrightarrow>
   card (zero_entries fs a c) = card (zero_entries fs a b) + card (zero_entries fs b c)"
proof -
  assume "a \<le> b" "b \<le> c"
  then have "zero_entries fs a c = zero_entries fs a b \<union> zero_entries fs b c"
    "zero_entries fs a b \<inter> zero_entries fs b c = {}" by (auto simp: zero_entries_def)
  moreover have "finite (zero_entries fs x y)" for x y
    by (rule finite_subset[of _ "{..<y}"]) (auto simp: zero_entries_def)
  ultimately show ?thesis by (simp add: card_Un_disjoint)
qed

lemma count_loop_ok:
  "table_ok fs \<Longrightarrow> fat_entries fs \<le> 2 ^ 32 \<Longrightarrow> unat i + k = unat (fs_fat_sectors fs) \<Longrightarrow>
   \<exists>fs'. count_loop fs i k n =
       Inr (n + word_of_nat (card (zero_entries fs (unat i * per_sector fs) (fat_entries fs))), fs') \<and>
     table_ok fs' \<and> table_frame fs fs' \<and> fat_view fs' = fat_view fs"
proof (induction k arbitrary: fs i n)
  case 0
  then have "fat_entries fs = unat i * per_sector fs" by (simp add: fat_entries_def per_sector_def)
  then have "zero_entries fs (unat i * per_sector fs) (fat_entries fs) = {}" by (auto simp: zero_entries_def)
  then show ?case using 0 by simp
next
  case (Suc k)
  let ?s = "fs_fat_begin_lba fs + i" and ?n = "per_sector fs"
  have g: "unat (fs_fat_begin_lba fs) + unat (fs_fat_sectors fs) < 2 ^ 32"
    using Suc.prems(1) by (simp add: table_ok_def)
  have "unat ?s = unat (fs_fat_begin_lba fs) + unat i"
    by (rule unat_add_lem [THEN iffD1]) (use g Suc.prems(3) in simp)
  then have "in_table fs ?s" using Suc.prems(3) by (simp add: in_table_def)
  then obtain p f1 where r: "fatfs_fat_read_sector fs ?s = Inr (Some p, f1)" "table_ok f1"
    "fat_view f1 = fat_view fs" "table_frame fs f1"
    "fb_sector (fs_fat_buffers f1 ! p) = fat_view fs ?s"
    using read_sector_ok[OF Suc.prems(1)] by blast
  have e: "fat_entries fs = unat (fs_fat_sectors fs) * ?n" by (simp add: fat_entries_def per_sector_def)
  have "(unat i + 1) * ?n \<le> unat (fs_fat_sectors fs) * ?n" by (rule mult_right_mono) (use Suc.prems(3) in auto)
  then have b: "unat i * ?n + ?n \<le> fat_entries fs" by (simp add: e algebra_simps)
  have "unat i + 1 < 2 ^ 32" using Suc.prems(3) g by linarith
  then have u: "unat (i + 1) = unat i + 1" by (simp add: unat_word_ariths)
  have ue: "(unat i + 1) * ?n = unat i * ?n + ?n" by simp
  have cs: "count_sector f1 b = count_sector fs b" for b
    by (simp add: count_sector_def table_frame_fields(12)[OF r(4)] del: upt_rec_numeral)
  have cnt: "count_sector f1 (fb_sector (fs_fat_buffers f1 ! p)) =
      card (zero_entries fs (unat i * ?n) (unat i * ?n + ?n))"
    unfolding cs r(5) by (rule count_sector_ok) (use b Suc.prems(2) in linarith)
  have ze: "zero_entries f1 = zero_entries fs" "per_sector f1 = ?n"
    using frame_view(1)[OF r(4,3)] table_frame_fields(12)[OF r(4)]
    by (simp_all add: zero_entries_def per_sector_def fun_eq_iff)
  have "fat_entries f1 \<le> 2 ^ 32" "unat (i + 1) + k = unat (fs_fat_sectors f1)"
    using Suc.prems u frame_entries(5)[OF r(4)] table_frame_fields(9)[OF r(4)] by simp_all
  from Suc.IH[OF r(2) this] obtain fs' where l:
    "count_loop f1 (i + 1) k (n + word_of_nat (card (zero_entries fs (unat i * ?n) (unat i * ?n + ?n)))) =
       Inr (n + word_of_nat (card (zero_entries fs (unat i * ?n) (unat i * ?n + ?n)))
              + word_of_nat (card (zero_entries fs (unat i * ?n + ?n) (fat_entries fs))), fs')"
    "table_ok fs'" "table_frame f1 fs'" "fat_view fs' = fat_view f1"
    unfolding ze u ue frame_entries(5)[OF r(4)] by blast
  have "card (zero_entries fs (unat i * ?n) (fat_entries fs)) =
      card (zero_entries fs (unat i * ?n) (unat i * ?n + ?n)) +
      card (zero_entries fs (unat i * ?n + ?n) (fat_entries fs))"
    by (rule card_zero_entries) (use b in simp_all)
  then show ?case
    using r(1,3) cnt l table_frame_trans[OF r(4) l(3)] by (simp add: add.assoc)
qed

lemma count_free_ok:
  assumes "table_ok fs" "fat_entries fs \<le> 2 ^ 32"
  shows "\<exists>fs'. fatfs_count_free_clusters fs =
      Inr (word_of_nat (card {j. j < fat_entries fs \<and> fat_raw fs (word_of_nat j) = 0}), fs') \<and>
     table_ok fs' \<and> table_frame fs fs' \<and> fat_view fs' = fat_view fs"
  using count_loop_ok[OF assms, of 0 "unat (fs_fat_sectors fs)" 0]
  by (simp add: fatfs_count_free_clusters_def zero_entries_def)

section \<open>Writing back\<close>

lemma purge_from_ok:
  "table_ok fs \<Longrightarrow> i + k = length (fs_fat_buffers fs) \<Longrightarrow>
   \<forall>j < i. \<not> fb_dirty (fs_fat_buffers fs ! j) \<Longrightarrow>
   \<exists>fs'. purge_from fs i k = Inr (True, fs') \<and> table_ok fs' \<and> table_frame fs fs' \<and>
     fat_view fs' = fat_view fs \<and> (\<forall>b \<in> set (fs_fat_buffers fs'). \<not> fb_dirty b)"
proof (induction k arbitrary: fs i)
  case 0
  then show ?case by (auto simp: in_set_conv_nth)
next
  case (Suc k)
  have i: "i < length (fs_fat_buffers fs)" using Suc.prems(2) by simp
  obtain f1 where w:
    "(if fb_dirty (fs_fat_buffers fs ! i) then fatfs_fat_writeback fs i else Inr (True, fs)) = Inr (True, f1)"
    "table_ok f1" "fat_view f1 = fat_view fs" "table_frame fs f1"
    "fs_fat_buffers f1 = (fs_fat_buffers fs)[i := fb_dirty_update (\<lambda>_. False) (fs_fat_buffers fs ! i)]"
    using writeback_if_dirty[OF Suc.prems(1) i] by blast
  have "\<forall>j < Suc i. \<not> fb_dirty (fs_fat_buffers f1 ! j)"
    using Suc.prems(3) i by (auto simp: w(5) nth_list_update less_Suc_eq)
  moreover have "Suc i + k = length (fs_fat_buffers f1)" using Suc.prems(2) by (simp add: w(5))
  ultimately obtain fs' where l: "purge_from f1 (Suc i) k = Inr (True, fs')" "table_ok fs'" "table_frame f1 fs'"
    "fat_view fs' = fat_view f1" "\<forall>b \<in> set (fs_fat_buffers fs'). \<not> fb_dirty b"
    using Suc.IH[OF w(2)] by blast
  then show ?case using w(1,3) table_frame_trans[OF w(4) l(3)] by simp
qed

text \<open>After a purge, the media alone hold the table.\<close>

lemma clean_media:
  assumes "table_ok fs" "\<forall>b \<in> set (fs_fat_buffers fs). \<not> fb_dirty b"
  shows "md_bytes (fs_disk_io fs) (unat s) 1 = fat_view fs s"
proof (cases "\<exists>b \<in> set (fs_fat_buffers fs). fb_address b = s \<and> s \<noteq> FAT32_INVALID_CLUSTER")
  case True
  then obtain b where b: "b \<in> set (fs_fat_buffers fs)" "fb_address b = s" "s \<noteq> FAT32_INVALID_CLUSTER" by blast
  then have "fat_view fs s = fb_sector b" using fat_view_buffered[of fs b] assms(1) by (simp add: table_ok_def)
  then show ?thesis using assms b by (auto simp: table_ok_def buffer_ok_def)
next
  case False
  then show ?thesis using fat_view_media[of fs s] by auto
qed

lemma purge_ok:
  assumes "table_ok fs"
  obtains fs' where "fatfs_fat_purge fs = Inr (True, fs')" "table_ok fs'" "table_frame fs fs'"
    "fat_view fs' = fat_view fs" "\<And>s. md_bytes (fs_disk_io fs') (unat s) 1 = fat_view fs s"
proof -
  obtain fs' where "fatfs_fat_purge fs = Inr (True, fs')" "table_ok fs'" "table_frame fs fs'"
    "fat_view fs' = fat_view fs" "\<forall>b \<in> set (fs_fat_buffers fs'). \<not> fb_dirty b"
    using purge_from_ok[OF assms, of 0 "length (fs_fat_buffers fs)"] unfolding fatfs_fat_purge_def by auto
  then show ?thesis using that clean_media by metis
qed

end
