(* ===== verification/FatVolume.thy ===== *)
theory FatVolume
  imports FatFormat FatChain
begin

text \<open>
  Volumes of the FAT library: what formatting writes to the media, and that the library then
  finds the volume again with the geometry it was formatted with, every cluster free and the
  root directory empty.
\<close>

section \<open>What is written\<close>

lemma length_zero_sector [simp]: "length zero_sector = 512"
  by (simp add: zero_sector_def FAT_SECTOR_SIZE_def)

lemma set_current_simps [simp]:
  "fs_disk_io (set_current fs b) = fs_disk_io fs" "fb_sector (fs_currentsector (set_current fs b)) = b"
  "fs_fat_begin_lba (set_current fs b) = fs_fat_begin_lba fs" "fs_fat_sectors (set_current fs b) = fs_fat_sectors fs"
  "fs_num_of_fats (set_current fs b) = fs_num_of_fats fs"
  by (simp_all add: set_current_def)

text \<open>Media on which every call succeeds, and media that differ in their bytes only.\<close>

definition writable :: "fat_media \<Rightarrow> bool" where
  "writable m \<longleftrightarrow> reliable m \<and> md_can_write m"

definition bytes_only :: "fat_media \<Rightarrow> fat_media \<Rightarrow> bool" where
  "bytes_only m m' \<longleftrightarrow> m' = m\<lparr>md_byte := md_byte m'\<rparr>"

lemma bytes_only_refl [simp]: "bytes_only m m"
  by (simp add: bytes_only_def)

lemma bytes_only_trans [trans]: "bytes_only m m' \<Longrightarrow> bytes_only m' m'' \<Longrightarrow> bytes_only m m''"
  unfolding bytes_only_def by (metis fat_media.update_convs(3) fat_media.surjective)

lemma bytes_only_writable: "bytes_only m m' \<Longrightarrow> writable m' = writable m"
  unfolding bytes_only_def writable_def reliable_def
  by (metis fat_media.select_convs(1,2,4,5) fat_media.surjective fat_media.update_convs(3))

lemma bytes_only_store [simp]: "bytes_only m (media_store m a bs)"
  by (simp add: bytes_only_def media_store_def)

text \<open>The sectors \<open>lba\<close> to \<open>lba + n\<close> hold \<open>b\<close>, all others what they held.\<close>

definition sector_on :: "fat_media \<Rightarrow> nat \<Rightarrow> u8 list" where
  "sector_on m s = md_bytes m s 1"

lemma sector_on_store:
  "length b = 512 \<Longrightarrow> sector_on (media_store m (lba * 512) b) s = (if s = lba then b else sector_on m s)"
  unfolding sector_on_def using md_bytes_stored md_bytes_sector_other by metis

definition filled :: "fat_media \<Rightarrow> nat \<Rightarrow> nat \<Rightarrow> u8 list \<Rightarrow> fat_media \<Rightarrow> bool" where
  "filled m lba n b m' \<longleftrightarrow> bytes_only m m' \<and>
     (\<forall>s. sector_on m' s = (if lba \<le> s \<and> s < lba + n then b else sector_on m s))"

lemma filled_store: "length b = 512 \<Longrightarrow> filled m lba 1 b (media_store m (lba * 512) b)"
  by (auto simp: filled_def sector_on_store)

lemma write_sector_at_ok:
  assumes "writable (fs_disk_io fs)" "length (fb_sector (fs_currentsector fs)) = 512"
  shows "\<exists>m'. write_sector_at fs lba = Inr (True, fs\<lparr>fs_disk_io := m'\<rparr>) \<and>
    filled (fs_disk_io fs) (unat lba) 1 (fb_sector (fs_currentsector fs)) m'"
  using assms filled_store[OF assms(2), of "fs_disk_io fs" "unat lba"]
  by (auto simp: write_sector_at_def fatfs_sector_write_def media_write_def writable_def reliable_def)

lemma filled_writable: "filled m lba n b m' \<Longrightarrow> writable m' = writable m"
  by (auto simp: filled_def bytes_only_writable)

lemma write_sectors_at_ok:
  assumes "writable (fs_disk_io fs)" "length (fb_sector (fs_currentsector fs)) = 512" "unat lba + n \<le> 2 ^ 32"
  shows "\<exists>m'. write_sectors_at fs lba n = Inr (True, fs\<lparr>fs_disk_io := m'\<rparr>) \<and>
    filled (fs_disk_io fs) (unat lba) n (fb_sector (fs_currentsector fs)) m'"
  using assms
proof (induction n arbitrary: fs lba)
  case 0
  then show ?case by (auto intro!: exI[of _ "fs_disk_io fs"] simp: filled_def)
next
  case (Suc n)
  obtain m1 where w: "write_sector_at fs lba = Inr (True, fs\<lparr>fs_disk_io := m1\<rparr>)"
    and f1: "filled (fs_disk_io fs) (unat lba) 1 (fb_sector (fs_currentsector fs)) m1"
    using write_sector_at_ok[OF Suc.prems(1,2)] by blast
  show ?case
  proof (cases "n = 0")
    case True
    then show ?thesis using w f1 by auto
  next
    case False
    have lba: "unat (lba + 1) = unat lba + 1"
      using Suc.prems(3) False by (simp add: unat_word_ariths)
    have "writable m1" using f1 Suc.prems(1) filled_writable by blast
    then obtain m' where "write_sectors_at (fs\<lparr>fs_disk_io := m1\<rparr>) (lba + 1) n = Inr (True, fs\<lparr>fs_disk_io := m'\<rparr>)"
      and f2: "filled m1 (unat lba + 1) n (fb_sector (fs_currentsector fs)) m'"
      using Suc.IH[of "fs\<lparr>fs_disk_io := m1\<rparr>" "lba + 1"] Suc.prems lba by auto
    moreover have "filled (fs_disk_io fs) (unat lba) (Suc n) (fb_sector (fs_currentsector fs)) m'"
      using f1 f2 unfolding filled_def by (auto intro: bytes_only_trans)
    ultimately show ?thesis using w by auto
  qed
qed

section \<open>The boot sector\<close>

lemma length_boot [simp]:
  "length boot_start = 512" "length (boot_common fs b) = length b"
  "length (boot_fat16 fs v name b) = length b" "length (boot_fat32 fs v name b) = length b"
  by (simp_all add: boot_start_def boot_common_def boot_fat16_def boot_fat32_def)

lemma length_parts [simp]: "length (volume_name name) = 11" "length (le_word v) = 4"
  by (simp_all add: volume_name_def le_word_def)

lemma low_bytes:
  fixes v :: u32
  assumes "unat v < 65536"
  shows "push_bit 8 (ucast (word_byte 8 v)) + ucast (word_byte 0 v) = v"
proof -
  have l: "8 \<le> LENGTH(32)" by simp
  have "v < 2 ^ 16" using assms by (simp add: word_less_nat_alt)
  then have hi: "bit v n \<Longrightarrow> n < 16" for n by (rule bit_small)
  show ?thesis
  proof (rule join_bytes [of 0 v 0, unfolded add_0])
    fix n
    show "bit (0 :: u32) n = (24 \<le> n \<and> bit v n)" "bit (0 :: u32) n = (16 \<le> n \<and> n < 24 \<and> bit v n)"
      using hi[of n] by auto
    show "bit (push_bit 8 (ucast (word_byte 8 v)) :: u32) n = (8 \<le> n \<and> n < 16 \<and> bit v n)"
      unfolding bit_byte_at[OF l] by linarith
    show "bit (ucast (word_byte 0 v) :: u32) n = (n < 8 \<and> bit v n)"
      using bit_byte_at[OF l, of 0 v n] unfolding push_bit_0_id id_apply by linarith
  qed
qed

lemma word_byte_values:
  "word_byte 0 (0x200 :: u32) = 0" "word_byte 8 (0x200 :: u32) = 2" "word_byte 0 (8 :: u16) = 8"
  "word_byte 8 (8 :: u16) = 0" "word_byte 0 (0x200 :: u16) = 0" "word_byte 8 (0x200 :: u16) = 2"
  "word_byte 0 (32 :: u16) = 32" "word_byte 8 (32 :: u16) = 0" "word_byte k (0 :: u16) = 0"
  by (simp_all add: word_byte_def)

lemma boot_fat16_fields:
  fixes fs v name
  defines "b \<equiv> boot_fat16 fs v name (boot_common fs boot_start)"
  assumes "fs_reserved_sectors fs = 8" "fs_num_of_fats fs = 2" "fs_root_entry_count fs = 512"
    "unat (fs_fat_sectors fs) < 65536"
  shows "b ! 510 = 0x55" "b ! 511 = 0xAA" "b ! 450 = 0" "b ! 13 = fs_sectors_per_cluster fs" "b ! 16 = 2"
    "GET_16BIT_WORD b 510 = 0xAA55" "GET_16BIT_WORD b 11 = 512" "GET_16BIT_WORD b 14 = 8"
    "GET_16BIT_WORD b 17 = 512" "GET_16BIT_WORD b 19 = 0" "GET_16BIT_WORD b 22 = fs_fat_sectors fs"
    "GET_32BIT_WORD b 32 = v"
  using assms(2-5) low_bytes[OF assms(5)]
  by (simp_all add: b_def boot_fat16_def boot_common_def boot_start_def nth_overlay GET_16BIT_WORD_def
      GET_32BIT_WORD_def le_word_def nth_Cons' zero_sector_def FAT_SECTOR_SIZE_def bytes_of_u32 word_byte_values)

lemma boot_fat32_fields:
  fixes fs v name
  defines "b \<equiv> boot_fat32 fs v name (boot_common fs boot_start)"
  assumes "fs_reserved_sectors fs = 32" "fs_num_of_fats fs = 2" "fs_root_entry_count fs = 0"
  shows "b ! 510 = 0x55" "b ! 511 = 0xAA" "b ! 450 = 0" "b ! 13 = fs_sectors_per_cluster fs" "b ! 16 = 2"
    "GET_16BIT_WORD b 510 = 0xAA55" "GET_16BIT_WORD b 11 = 512" "GET_16BIT_WORD b 14 = 32"
    "GET_16BIT_WORD b 17 = 0" "GET_16BIT_WORD b 19 = 0" "GET_16BIT_WORD b 22 = 0"
    "GET_32BIT_WORD b 32 = v" "GET_32BIT_WORD b 36 = fs_fat_sectors fs"
    "GET_32BIT_WORD b 44 = fs_rootdir_first_cluster fs" "GET_16BIT_WORD b 48 = ucast (fs_info_sector fs)"
  using assms(2-4)
  by (simp_all add: b_def boot_fat32_def boot_common_def boot_start_def nth_overlay GET_16BIT_WORD_def
      GET_32BIT_WORD_def le_word_def nth_Cons' zero_sector_def FAT_SECTOR_SIZE_def bytes_of_u32 bytes_of_u16 word_byte_values)

section \<open>Formatting\<close>

definition boot_state :: "fatfs \<Rightarrow> u32 \<Rightarrow> u8 list \<Rightarrow> bool \<Rightarrow> fatfs" where
  "boot_state fs v name is_fat32 =
     (let fs = fs\<lparr>fs_sectors_per_cluster := fatfs_calc_cluster_size v is_fat32,
                  fs_reserved_sectors := (if is_fat32 then 32 else 8), fs_num_of_fats := 2,
                  fs_root_entry_count := (if is_fat32 then 0 else 512)\<rparr>;
          fs = fs\<lparr>fs_fat_sectors := table_sectors fs v is_fat32\<rparr>
      in set_current fs (if is_fat32 then boot_fat32 fs v name (boot_common fs boot_start)
                         else boot_fat16 fs v name (boot_common fs boot_start)))"

lemma boot_common_cong:
  "boot_common (set_current fs b') b = boot_common fs b" "boot_common (fs\<lparr>fs_fat_sectors := n\<rparr>) b = boot_common fs b"
  "boot_fat16 (set_current fs b') v name b = boot_fat16 fs v name b"
  "boot_fat32 (set_current fs b') v name b = boot_fat32 fs v name b"
  by (simp_all add: boot_common_def set_current_def boot_fat16_def boot_fat32_def)

lemma create_boot_sector_ok:
  assumes "writable (fs_disk_io fs)" "fatfs_calc_cluster_size v is_fat32 \<noteq> 0"
  shows "\<exists>m'. fatfs_create_boot_sector fs lba v name is_fat32 =
       Inr (True, (boot_state fs v name is_fat32)\<lparr>fs_disk_io := m'\<rparr>) \<and>
     filled (fs_disk_io fs) (unat lba) 1 (fb_sector (fs_currentsector (boot_state fs v name is_fat32))) m'"
proof -
  let ?g = "boot_state fs v name is_fat32"
  have "fatfs_create_boot_sector fs lba v name is_fat32 = write_sector_at ?g lba"
    using assms(2)
    by (simp add: fatfs_create_boot_sector_def boot_state_def Let_def set_current_def boot_common_def
        boot_fat16_def boot_fat32_def table_sectors_def)
  moreover have "fs_disk_io ?g = fs_disk_io fs" "length (fb_sector (fs_currentsector ?g)) = 512"
    by (simp_all add: boot_state_def Let_def)
  ultimately show ?thesis
    using write_sector_at_ok[of ?g lba] assms(1) by simp
qed

lemma erase_sectors_ok:
  assumes "writable (fs_disk_io fs)" "unat lba + nat k \<le> 2 ^ 32"
  shows "\<exists>m'. fatfs_erase_sectors fs lba k = Inr (True, (set_current fs zero_sector)\<lparr>fs_disk_io := m'\<rparr>) \<and>
    filled (fs_disk_io fs) (unat lba) (nat k) zero_sector m'"
  using write_sectors_at_ok[of "set_current fs zero_sector" lba "nat k"] assms
  by (simp add: fatfs_erase_sectors_def)

lemma length_first_table_sector [simp]: "length (first_table_sector x) = 512"
  by (simp add: first_table_sector_def)

lemma erase_fat_ok:
  assumes w: "writable (fs_disk_io fs)" and n: "unat (fs_fat_sectors fs * ucast (fs_num_of_fats fs)) = n"
    and "0 < n" "unat (fs_fat_begin_lba fs) + n < 2 ^ 32"
  shows "\<exists>m'. fatfs_erase_fat fs x = Inr (True, (set_current fs zero_sector)\<lparr>fs_disk_io := m'\<rparr>) \<and>
    bytes_only (fs_disk_io fs) m' \<and>
    (\<forall>s. sector_on m' s = (if s = unat (fs_fat_begin_lba fs) then first_table_sector x
       else if unat (fs_fat_begin_lba fs) < s \<and> s < unat (fs_fat_begin_lba fs) + n then zero_sector
       else sector_on (fs_disk_io fs) s))"
proof -
  let ?g = "set_current fs (first_table_sector x)"
  obtain m1 where 1: "write_sector_at ?g (fs_fat_begin_lba fs) = Inr (True, ?g\<lparr>fs_disk_io := m1\<rparr>)"
    and f1: "filled (fs_disk_io fs) (unat (fs_fat_begin_lba fs)) 1 (first_table_sector x) m1"
    using write_sector_at_ok[of ?g "fs_fat_begin_lba fs"] w by auto
  let ?h = "set_current (?g\<lparr>fs_disk_io := m1\<rparr>) zero_sector"
  have lba: "unat (fs_fat_begin_lba fs + 1) = unat (fs_fat_begin_lba fs) + 1"
    using assms(3,4) by (simp add: unat_word_ariths)
  obtain m' where 2: "write_sectors_at ?h (fs_fat_begin_lba fs + 1) (n - 1) = Inr (True, ?h\<lparr>fs_disk_io := m'\<rparr>)"
    and f2: "filled m1 (unat (fs_fat_begin_lba fs) + 1) (n - 1) zero_sector m'"
    using write_sectors_at_ok[of ?h "fs_fat_begin_lba fs + 1" "n - 1"] w f1 filled_writable lba assms(3,4)
    by (auto simp del: One_nat_def)
  have "fatfs_erase_fat fs x = Inr (True, (set_current fs zero_sector)\<lparr>fs_disk_io := m'\<rparr>)"
    unfolding fatfs_erase_fat_def 1 using 2 n by (simp add: set_current_def)
  moreover have "bytes_only (fs_disk_io fs) m'" using f1 f2 by (auto simp: filled_def intro: bytes_only_trans)
  moreover have "sector_on m' s = (if s = unat (fs_fat_begin_lba fs) then first_table_sector x
       else if unat (fs_fat_begin_lba fs) < s \<and> s < unat (fs_fat_begin_lba fs) + n then zero_sector
       else sector_on (fs_disk_io fs) s)" for s
    using f1 f2 assms(3) unfolding filled_def by auto
  ultimately show ?thesis by blast
qed

section \<open>Sizes\<close>

text \<open>Sectors to a cluster, and sectors to a table, as numbers.\<close>

definition spc :: "bool \<Rightarrow> u32 \<Rightarrow> nat" where
  "spc is_fat32 v = unat (fatfs_calc_cluster_size v is_fat32)"

definition table_size :: "bool \<Rightarrow> u32 \<Rightarrow> nat" where
  "table_size is_fat32 v = (unat v div spc is_fat32 v + 1) div (if is_fat32 then 128 else 256) + 1"

lemma unat_widen: "unat (ucast (n :: u8) :: u32) = unat n" "unat (ucast (k :: u16) :: u32) = unat k"
  using unat_bound[of n] unat_bound[of k]
  by (simp_all add: unsigned_ucast_eq take_bit_nat_eq_self)

lemma spc16:
  "spc False v = (if unat v \<le> 32680 then 2 else if unat v \<le> 262144 then 4 else if unat v \<le> 524288 then 8
     else if unat v \<le> 1048576 then 16 else if unat v \<le> 2097152 then 32 else if unat v \<le> 4194304 then 64
     else if unat v \<le> 8388608 then 128 else 0)"
  by (simp add: spc_def fatfs_calc_cluster_size_def cluster_size_table16_def word_le_nat_alt)

lemma spc32:
  "spc True v = (if unat v \<le> 532480 then 1 else if unat v \<le> 16777216 then 8 else if unat v \<le> 33554432 then 16
     else if unat v \<le> 67108864 then 32 else 64)"
  using unat_bound[of v]
  by (simp add: spc_def fatfs_calc_cluster_size_def cluster_size_table32_def word_le_nat_alt)

lemma spc_nonzero: "fatfs_calc_cluster_size v x \<noteq> 0 \<longleftrightarrow> spc x v \<noteq> 0"
  by (simp add: spc_def unat_eq_0)

text \<open>Clusters times their size are at most the volume; tables are small.\<close>

lemma table16: "unat v \<le> 4194304 \<Longrightarrow> table_size False v \<le> 257"
  unfolding table_size_def spc16 by (auto split: if_splits)

lemma table32: "table_size True v \<le> 524289"
proof -
  have v: "unat v < 2 ^ 32" using unat_bound[of v] by simp
  then show ?thesis unfolding table_size_def spc32 by auto
qed

lemma table_sectors_size:
  assumes "fs_sectors_per_cluster fs = fatfs_calc_cluster_size v x" "spc x v \<noteq> 0" "1 < spc x v \<or> unat v \<le> 532480"
  shows "unat (table_sectors fs v x) = table_size x v"
proof -
  have s: "unat (ucast (fs_sectors_per_cluster fs) :: u32) = spc x v"
    using assms(1) unat_widen by (simp add: spc_def)
  have v: "unat v < 2 ^ 32" using unat_bound[of v] by simp
  have d: "unat v div spc x v + 1 < 2 ^ 32"
  proof (cases "1 < spc x v")
    case True
    have "unat v div spc x v \<le> unat v div 2" using True by (intro div_le_mono2) auto
    then show ?thesis using v by simp
  next
    case False
    then have "unat v \<le> 532480" using assms(3) by simp
    then have "unat v div spc x v \<le> 532480" using div_le_dividend order_trans by blast
    then show ?thesis by simp
  qed
  have 1: "unat (v div ucast (fs_sectors_per_cluster fs) + 1) = unat v div spc x v + 1"
    using d by (simp add: unat_word_ariths unat_div s)
  have 2: "(unat v div spc x v + 1) div (if x then 128 else 256) + 1 < 2 ^ 32"
  proof -
    have "(unat v div spc x v + 1) div (if x then 128 else 256) \<le> (unat v div spc x v + 1) div 128"
      by (intro div_le_mono2) auto
    then show ?thesis using d by auto
  qed
  show ?thesis
    using 1 2 by (cases x) (simp_all add: table_sectors_def table_size_def unat_word_ariths unat_div)
qed

section \<open>The formatted volume\<close>

definition start_type :: "fatfs \<Rightarrow> bool \<Rightarrow> fatfs" where
  "start_type fs is_fat32 = (format_start fs)\<lparr>fs_fat_type := (if is_fat32 then FAT_TYPE_32 else FAT_TYPE_16),
     fs_info_sector := (if is_fat32 then 1 else 0), fs_rootdir_first_cluster := (if is_fat32 then 2 else 0),
     fs_lba_begin := 0\<rparr>"

definition formatted16 :: "fatfs \<Rightarrow> u32 \<Rightarrow> u8 list \<Rightarrow> fatfs" where
  "formatted16 fs v name =
     (let g = boot_state (start_type fs False) v name False in
      set_current (g\<lparr>fs_rootdir_first_sector := 8 + 2 * fs_fat_sectors g, fs_rootdir_sectors := 32,
        fs_fat_begin_lba := 8, fs_cluster_begin_lba := 8 + 2 * fs_fat_sectors g\<rparr>) zero_sector)"

definition formatted32 :: "fatfs \<Rightarrow> u32 \<Rightarrow> u8 list \<Rightarrow> fatfs" where
  "formatted32 fs v name =
     (let g = boot_state (start_type fs True) v name True in
      set_current (g\<lparr>fs_fat_begin_lba := 32, fs_cluster_begin_lba := 32 + 2 * fs_fat_sectors g\<rparr>) zero_sector)"

text \<open>The media after formatting: the boot sector, the two tables, then the root directory.\<close>

definition formatted_media :: "fatfs \<Rightarrow> u32 \<Rightarrow> u8 list \<Rightarrow> bool \<Rightarrow> fat_media \<Rightarrow> bool" where
  "formatted_media fs v name x m \<longleftrightarrow> bytes_only (fs_disk_io fs) m \<and>
     (let r = (if x then 32 else 8); e = r + 2 * table_size x v; d = (if x then spc x v else 32) in
      sector_on m 0 = fb_sector (fs_currentsector (boot_state (start_type fs x) v name x)) \<and>
      sector_on m r = first_table_sector x \<and>
      (\<forall>s. r < s \<and> s < e + d \<longrightarrow> sector_on m s = zero_sector))"

lemma boot_state_simps [simp]:
  "fs_disk_io (boot_state fs v name x) = fs_disk_io fs"
  "fs_sectors_per_cluster (boot_state fs v name x) = fatfs_calc_cluster_size v x"
  "fs_reserved_sectors (boot_state fs v name x) = (if x then 32 else 8)"
  "fs_num_of_fats (boot_state fs v name x) = 2"
  "fs_root_entry_count (boot_state fs v name x) = (if x then 0 else 512)"
  "fs_lba_begin (boot_state fs v name x) = fs_lba_begin fs" "fs_fat_type (boot_state fs v name x) = fs_fat_type fs"
  "fs_info_sector (boot_state fs v name x) = fs_info_sector fs"
  "fs_rootdir_first_cluster (boot_state fs v name x) = fs_rootdir_first_cluster fs"
  "fs_next_free_cluster (boot_state fs v name x) = fs_next_free_cluster fs"
  "fs_fat_buffers (boot_state fs v name x) = fs_fat_buffers fs"
  by (simp_all add: boot_state_def Let_def set_current_def)

lemma boot_state_tables:
  assumes "spc x v \<noteq> 0" "1 < spc x v \<or> unat v \<le> 532480"
  shows "unat (fs_fat_sectors (boot_state fs v name x)) = table_size x v"
  using table_sectors_size[of "fs\<lparr>fs_sectors_per_cluster := fatfs_calc_cluster_size v x,
       fs_reserved_sectors := if x then 32 else 8, fs_num_of_fats := 2,
       fs_root_entry_count := if x then 0 else 512\<rparr>" v x] assms
  by (simp add: boot_state_def Let_def)

lemma start_type_simps [simp]:
  "fs_disk_io (start_type fs x) = fs_disk_io fs" "fs_lba_begin (start_type fs x) = 0"
  "fs_fat_type (start_type fs x) = (if x then FAT_TYPE_32 else FAT_TYPE_16)"
  "fs_info_sector (start_type fs x) = (if x then 1 else 0)"
  "fs_rootdir_first_cluster (start_type fs x) = (if x then 2 else 0)"
  "fs_next_free_cluster (start_type fs x) = 0"
  "fs_disk_io (format_start fs) = fs_disk_io fs"
  by (simp_all add: start_type_def format_start_def fatfs_fat_init_def)

lemma format_fat16_ok:
  assumes w: "writable (fs_disk_io fs)" and v: "unat v \<le> 4194304"
  shows "\<exists>m. fatfs_format_fat16 fs v name = Inr (1, (formatted16 fs v name)\<lparr>fs_disk_io := m\<rparr>) \<and>
    formatted_media fs v name False m"
proof -
  let ?s = "start_type fs False" let ?g = "boot_state ?s v name False"
  let ?T = "table_size False v"
  have sp: "spc False v \<noteq> 0" "1 < spc False v" using v by (auto simp: spc16)
  have rw: "md_can_read (fs_disk_io fs)" "md_can_write (fs_disk_io fs)"
    using w by (auto simp: writable_def reliable_def)
  have T: "unat (fs_fat_sectors ?g) = ?T" by (rule boot_state_tables) (use sp in auto)
  have T1: "?T \<le> 257" "0 < ?T" using table16[OF v] by (simp_all add: table_size_def)
  have TT: "unat (fs_fat_sectors ?g * 2) = 2 * ?T" using T T1 by (simp add: unat_word_ariths)
  have root: "unat (8 + fs_fat_sectors ?g * 2) = 8 + 2 * ?T" using TT T1 by (simp add: unat_word_ariths)
  obtain m1 where 1: "fatfs_create_boot_sector ?s 0 v name False = Inr (True, ?g\<lparr>fs_disk_io := m1\<rparr>)"
    and f1: "filled (fs_disk_io fs) 0 1 (fb_sector (fs_currentsector ?g)) m1"
    using create_boot_sector_ok[of ?s v False 0 name] w sp(1) spc_nonzero[of v False] by auto
  define h where "h = ?g\<lparr>fs_disk_io := m1, fs_rootdir_first_sector := 8 + 2 * fs_fat_sectors ?g,
      fs_rootdir_sectors := 32, fs_fat_begin_lba := 8, fs_cluster_begin_lba := 8 + 2 * fs_fat_sectors ?g\<rparr>"
  have w1: "writable (fs_disk_io h)" using w filled_writable[OF f1] by (simp add: h_def)
  obtain m2 where 2: "fatfs_erase_fat h False = Inr (True, (set_current h zero_sector)\<lparr>fs_disk_io := m2\<rparr>)"
    and b2: "bytes_only m1 m2"
    and f2: "\<And>s. sector_on m2 s = (if s = 8 then first_table_sector False
       else if 8 < s \<and> s < 8 + 2 * ?T then zero_sector else sector_on m1 s)"
    using erase_fat_ok[OF w1, of "2 * ?T" False] TT T1 by (auto simp: h_def)
  let ?k = "(set_current h zero_sector)\<lparr>fs_disk_io := m2\<rparr>"
  have w2: "writable (fs_disk_io ?k)" using w1 bytes_only_writable[OF b2] by (simp add: h_def)
  obtain m where 3: "fatfs_erase_sectors ?k (8 + 2 * fs_fat_sectors ?g) 32 =
      Inr (True, (set_current ?k zero_sector)\<lparr>fs_disk_io := m\<rparr>)"
    and f3: "filled m2 (8 + 2 * ?T) 32 zero_sector m"
    using erase_sectors_ok[OF w2, of "8 + 2 * fs_fat_sectors ?g" 32] root T1 by (auto simp: mult.commute)
  have st: "(format_start fs)\<lparr>fs_fat_type := FAT_TYPE_16, fs_info_sector := 0, fs_rootdir_first_cluster := 0,
      fs_lba_begin := 0\<rparr> = ?s" by (simp add: start_type_def)
  have hk: "h = ?g\<lparr>fs_disk_io := m1, fs_rootdir_first_sector := 8 + 2 * fs_fat_sectors ?g,
      fs_rootdir_sectors := 32, fs_fat_begin_lba := 8, fs_cluster_begin_lba := 8 + 2 * fs_fat_sectors ?g\<rparr>"
    by (rule h_def)
  have "fatfs_format_fat16 fs v name = Inr (1, (set_current ?k zero_sector)\<lparr>fs_disk_io := m\<rparr>)"
    using rw 1 2 3 unfolding fatfs_format_fat16_def Let_def st
    by (simp add: hk set_current_def)
  moreover have "(set_current ?k zero_sector)\<lparr>fs_disk_io := m\<rparr> = (formatted16 fs v name)\<lparr>fs_disk_io := m\<rparr>"
    by (simp add: hk formatted16_def set_current_def Let_def)
  moreover have "formatted_media fs v name False m"
    using f1 b2 f2 f3 T1 unfolding formatted_media_def filled_def Let_def
    by (auto intro: bytes_only_trans)
  ultimately show ?thesis by auto
qed

lemma format_fat32_ok:
  assumes w: "writable (fs_disk_io fs)" and v: "4194304 < unat v"
  shows "\<exists>m. fatfs_format_fat32 fs v name = Inr (1, (formatted32 fs v name)\<lparr>fs_disk_io := m\<rparr>) \<and>
    formatted_media fs v name True m"
proof -
  let ?s = "start_type fs True" let ?g = "boot_state ?s v name True"
  let ?T = "table_size True v"
  have sp: "spc True v \<noteq> 0" "1 < spc True v" "spc True v \<le> 64" using v by (auto simp: spc32)
  have rw: "md_can_read (fs_disk_io fs)" "md_can_write (fs_disk_io fs)"
    using w by (auto simp: writable_def reliable_def)
  have T: "unat (fs_fat_sectors ?g) = ?T" by (rule boot_state_tables) (use sp in auto)
  have T1: "?T \<le> 524289" "0 < ?T" using table32 by (simp_all add: table_size_def)
  have TT: "unat (fs_fat_sectors ?g * 2) = 2 * ?T" using T T1 by (simp add: unat_word_ariths)
  have root: "unat (32 + fs_fat_sectors ?g * 2) = 32 + 2 * ?T" using TT T1 by (simp add: unat_word_ariths)
  obtain m1 where 1: "fatfs_create_boot_sector ?s 0 v name True = Inr (True, ?g\<lparr>fs_disk_io := m1\<rparr>)"
    and f1: "filled (fs_disk_io fs) 0 1 (fb_sector (fs_currentsector ?g)) m1"
    using create_boot_sector_ok[of ?s v True 0 name] w sp(1) spc_nonzero[of v True] by auto
  define h where "h = ?g\<lparr>fs_disk_io := m1, fs_fat_begin_lba := 32,
      fs_cluster_begin_lba := 32 + 2 * fs_fat_sectors ?g\<rparr>"
  have w1: "writable (fs_disk_io (set_current h fsinfo_sector))" using w filled_writable[OF f1] by (simp add: h_def)
  obtain mi where i: "fatfs_create_fsinfo_sector h 1 = Inr (True, (set_current h fsinfo_sector)\<lparr>fs_disk_io := mi\<rparr>)"
    and fi: "filled m1 1 1 fsinfo_sector mi"
    using write_sector_at_ok[OF w1, of 1] by (auto simp: fatfs_create_fsinfo_sector_def fsinfo_sector_def h_def)
  let ?i = "(set_current h fsinfo_sector)\<lparr>fs_disk_io := mi\<rparr>"
  have wi: "writable (fs_disk_io ?i)" using w1 filled_writable[OF fi] by (simp add: h_def)
  have i': "unat (fs_fat_begin_lba ?i) = 32" "fs_disk_io ?i = mi"
    "unat (fs_fat_sectors ?i * ucast (fs_num_of_fats ?i)) = 2 * ?T" using TT by (simp_all add: h_def)
  obtain m2 where 2: "fatfs_erase_fat ?i True = Inr (True, (set_current ?i zero_sector)\<lparr>fs_disk_io := m2\<rparr>)"
    and b2: "bytes_only mi m2"
    and f2: "\<And>s. sector_on m2 s = (if s = 32 then first_table_sector True
       else if 32 < s \<and> s < 32 + 2 * ?T then zero_sector else sector_on mi s)"
    using erase_fat_ok[OF wi i'(3), of True, unfolded i'(1,2)] T1 by auto
  let ?k = "(set_current ?i zero_sector)\<lparr>fs_disk_io := m2\<rparr>"
  have w2: "writable (fs_disk_io ?k)" using wi bytes_only_writable[OF b2] by (simp add: h_def)
  have sc: "uint (fatfs_calc_cluster_size v True) = int (spc True v)" by (simp add: spc_def)
  obtain m where 3: "fatfs_erase_sectors ?k (32 + 2 * fs_fat_sectors ?g) (int (spc True v)) =
      Inr (True, (set_current ?k zero_sector)\<lparr>fs_disk_io := m\<rparr>)"
    and f3: "filled m2 (32 + 2 * ?T) (spc True v) zero_sector m"
    using erase_sectors_ok[OF w2, of "32 + 2 * fs_fat_sectors ?g" "int (spc True v)"] root T1 sp
    by (auto simp: mult.commute)
  have st: "(format_start fs)\<lparr>fs_fat_type := FAT_TYPE_32, fs_info_sector := 1, fs_rootdir_first_cluster := 2,
      fs_lba_begin := 0\<rparr> = ?s" by (simp add: start_type_def)
  have "fatfs_format_fat32 fs v name = Inr (1, (set_current ?k zero_sector)\<lparr>fs_disk_io := m\<rparr>)"
    using rw 1 i 2 3 unfolding fatfs_format_fat32_def Let_def st
    by (simp add: h_def set_current_def fatfs_lba_of_cluster_def sc)
  moreover have "(set_current ?k zero_sector)\<lparr>fs_disk_io := m\<rparr> = (formatted32 fs v name)\<lparr>fs_disk_io := m\<rparr>"
    by (simp add: h_def formatted32_def set_current_def Let_def)
  moreover have "formatted_media fs v name True m"
    using f1 fi b2 f2 f3 T1 unfolding formatted_media_def filled_def Let_def
    by (auto intro: bytes_only_trans)
  ultimately show ?thesis by auto
qed

section \<open>Finding the volume again\<close>

text \<open>What the library goes by when it works on a volume.\<close>

definition geometry :: "fatfs \<Rightarrow> tFatType \<times> u8 \<times> u32 \<times> u32 \<times> u32 \<times> u32 \<times> u32 \<times> u16" where
  "geometry fs = (fs_fat_type fs, fs_sectors_per_cluster fs, fs_cluster_begin_lba fs, fs_rootdir_first_cluster fs,
     fs_fat_begin_lba fs, fs_lba_begin fs, fs_fat_sectors fs, fs_root_entry_count fs)"

lemma boot_state_sector16:
  fixes fs v name
  defines "g \<equiv> boot_state fs v name False"
  defines "b \<equiv> fb_sector (fs_currentsector g)"
  assumes "unat (fs_fat_sectors g) < 65536"
  shows "b ! 510 = 0x55" "b ! 511 = 0xAA" "b ! 450 = 0" "b ! 13 = fatfs_calc_cluster_size v False" "b ! 16 = 2"
    "GET_16BIT_WORD b 510 = 0xAA55" "GET_16BIT_WORD b 11 = 512" "GET_16BIT_WORD b 14 = 8"
    "GET_16BIT_WORD b 17 = 512" "GET_16BIT_WORD b 19 = 0" "GET_16BIT_WORD b 22 = fs_fat_sectors g"
    "GET_32BIT_WORD b 32 = v"
proof -
  obtain f where f: "b = boot_fat16 f v name (boot_common f boot_start)" "fs_reserved_sectors f = 8"
      "fs_num_of_fats f = 2" "fs_root_entry_count f = 512" "fs_fat_sectors f = fs_fat_sectors g"
      "fs_sectors_per_cluster f = fatfs_calc_cluster_size v False"
    using that[of "(fs\<lparr>fs_sectors_per_cluster := fatfs_calc_cluster_size v False,
        fs_reserved_sectors := 8, fs_num_of_fats := 2, fs_root_entry_count := 512\<rparr>)\<lparr>fs_fat_sectors := fs_fat_sectors g\<rparr>"]
    by (simp add: b_def g_def boot_state_def Let_def set_current_def)
  have "unat (fs_fat_sectors f) < 65536" using f(5) assms(3) by simp
  then show "b ! 510 = 0x55" "b ! 511 = 0xAA" "b ! 450 = 0" "b ! 13 = fatfs_calc_cluster_size v False" "b ! 16 = 2"
    "GET_16BIT_WORD b 510 = 0xAA55" "GET_16BIT_WORD b 11 = 512" "GET_16BIT_WORD b 14 = 8"
    "GET_16BIT_WORD b 17 = 512" "GET_16BIT_WORD b 19 = 0" "GET_16BIT_WORD b 22 = fs_fat_sectors g"
    "GET_32BIT_WORD b 32 = v"
    using boot_fat16_fields[OF f(2-4)] f by simp_all
qed

lemma boot_state_sector32:
  fixes fs v name
  defines "g \<equiv> boot_state fs v name True"
  defines "b \<equiv> fb_sector (fs_currentsector g)"
  shows "b ! 510 = 0x55" "b ! 511 = 0xAA" "b ! 450 = 0" "b ! 13 = fatfs_calc_cluster_size v True" "b ! 16 = 2"
    "GET_16BIT_WORD b 510 = 0xAA55" "GET_16BIT_WORD b 11 = 512" "GET_16BIT_WORD b 14 = 32"
    "GET_16BIT_WORD b 17 = 0" "GET_16BIT_WORD b 19 = 0" "GET_16BIT_WORD b 22 = 0"
    "GET_32BIT_WORD b 32 = v" "GET_32BIT_WORD b 36 = fs_fat_sectors g"
    "GET_32BIT_WORD b 44 = fs_rootdir_first_cluster fs" "GET_16BIT_WORD b 48 = ucast (fs_info_sector fs)"
proof -
  obtain f where f: "b = boot_fat32 f v name (boot_common f boot_start)" "fs_reserved_sectors f = 32"
      "fs_num_of_fats f = 2" "fs_root_entry_count f = 0" "fs_fat_sectors f = fs_fat_sectors g"
      "fs_sectors_per_cluster f = fatfs_calc_cluster_size v True"
      "fs_rootdir_first_cluster f = fs_rootdir_first_cluster fs" "fs_info_sector f = fs_info_sector fs"
    using that[of "(fs\<lparr>fs_sectors_per_cluster := fatfs_calc_cluster_size v True,
        fs_reserved_sectors := 32, fs_num_of_fats := 2, fs_root_entry_count := 0\<rparr>)\<lparr>fs_fat_sectors := fs_fat_sectors g\<rparr>"]
    by (simp add: b_def g_def boot_state_def Let_def set_current_def)
  then show "b ! 510 = 0x55" "b ! 511 = 0xAA" "b ! 450 = 0" "b ! 13 = fatfs_calc_cluster_size v True" "b ! 16 = 2"
    "GET_16BIT_WORD b 510 = 0xAA55" "GET_16BIT_WORD b 11 = 512" "GET_16BIT_WORD b 14 = 32"
    "GET_16BIT_WORD b 17 = 0" "GET_16BIT_WORD b 19 = 0" "GET_16BIT_WORD b 22 = 0"
    "GET_32BIT_WORD b 32 = v" "GET_32BIT_WORD b 36 = fs_fat_sectors g"
    "GET_32BIT_WORD b 44 = fs_rootdir_first_cluster fs" "GET_16BIT_WORD b 48 = ucast (fs_info_sector fs)"
    using boot_fat32_fields[OF f(2-4)] f by simp_all
qed

text \<open>The data clusters \<open>fatfs_init\<close> counts on a formatted volume.\<close>

definition data_clusters :: "bool \<Rightarrow> u32 \<Rightarrow> nat" where
  "data_clusters x v = (unat v - ((if x then 32 else 40) + 2 * table_size x v)) div spc x v"

lemma root_sectors: "(512 * 32 + (512 - 1)) div 512 = (32 :: u32)" "(0 * 32 + (512 - 1)) div 512 = (0 :: u32)"
  by (simp_all add: word_unat_eq_iff unat_div)

lemma count_of_clusters_formatted:
  fixes fs v name x
  defines "g \<equiv> boot_state fs v name x"
  assumes T: "unat (fs_fat_sectors g) = table_size x v"
    and le: "(if x then 32 else 40) + 2 * table_size x v \<le> unat v"
    and small: "\<not> x \<Longrightarrow> table_size x v < 65536" and pos: "spc x v \<noteq> 0"
  shows "unat (count_of_clusters (fb_sector (fs_currentsector g))) = data_clusters x v"
proof -
  let ?F = "fs_fat_sectors g"
  have v: "unat v < 2 ^ 32" using unat_bound[of v] by simp
  have FF: "unat (2 * ?F) = 2 * table_size x v" using T le v by (simp add: unat_word_ariths split: if_splits)
  have sp: "unat (ucast (fatfs_calc_cluster_size v x) :: u32) = spc x v" by (simp add: unat_widen spc_def)
  have nz: "table_size x v \<noteq> 0" by (simp add: table_size_def)
  show ?thesis
  proof (cases x)
    case False
    then have g: "g = boot_state fs v name False" by (simp add: g_def)
    have "unat (fs_fat_sectors (boot_state fs v name False)) < 65536" using T small False g by simp
    note b = boot_state_sector16[OF this]
    have "fs_fat_sectors (boot_state fs v name False) \<noteq> 0" using T nz g by (metis unat_0)
    then have "count_of_clusters (fb_sector (fs_currentsector g)) =
        (v - (40 + 2 * ?F)) div ucast (fatfs_calc_cluster_size v False)"
      unfolding count_of_clusters_def g Let_def b root_sectors by (simp add: algebra_simps)
    moreover have "unat (40 + 2 * ?F) = 40 + 2 * table_size x v"
      using FF le v False by (simp add: unat_word_ariths)
    moreover from this have "unat (v - (40 + 2 * ?F)) = unat v - (40 + 2 * table_size x v)"
      using le False by (subst unat_sub) (simp_all add: word_le_nat_alt)
    ultimately show ?thesis using sp False by (simp add: data_clusters_def unat_div)
  next
    case True
    then have g: "g = boot_state fs v name True" by (simp add: g_def)
    note b = boot_state_sector32[of fs v name]
    have "count_of_clusters (fb_sector (fs_currentsector g)) =
        (v - (32 + 2 * ?F)) div ucast (fatfs_calc_cluster_size v True)"
      unfolding count_of_clusters_def g Let_def b root_sectors by (simp add: algebra_simps)
    moreover have "unat (32 + 2 * ?F) = 32 + 2 * table_size x v"
      using FF le v True by (simp add: unat_word_ariths)
    moreover from this have "unat (v - (32 + 2 * ?F)) = unat v - (32 + 2 * table_size x v)"
      using le True by (subst unat_sub) (simp_all add: word_le_nat_alt)
    ultimately show ?thesis using sp True by (simp add: data_clusters_def unat_div)
  qed
qed

lemma div_bounds:
  fixes a d :: nat
  assumes "0 < d"
  shows "a div d * d \<le> a" "a < a div d * d + d"
  using assms div_times_less_eq_dividend dividend_less_div_times by (simp_all add: add.commute)

lemma clusters_cmp:
  fixes X p c :: nat
  assumes "0 < p"
  shows "c \<le> X div p \<longleftrightarrow> c * p \<le> X" "X div p < c \<longleftrightarrow> X < c * p"
  using assms by (auto simp: less_eq_div_iff_mult_less_eq div_less_iff_less_mult)

text \<open>
  The volumes FAT16 is chosen for: between these bounds the library sees FAT16, at the upper
  end it counts too many clusters.
\<close>

lemma data_clusters16:
  assumes "8245 \<le> unat v" "unat v \<le> 4194304"
  shows "4085 \<le> data_clusters False v" "data_clusters False v < 65525 \<longleftrightarrow> unat v < 4194152"
    "40 + 2 * table_size False v \<le> unat v"
proof -
  define n p where "n = unat v" and "p = spc False v"
  define k where "k = n div p"
  define t where "t = (k + 1) div 256"
  have p: "0 < p" "p = 2 \<and> n \<le> 32680 \<or> p = 4 \<and> 32680 < n \<and> n \<le> 262144 \<or> p = 8 \<and> 262144 < n \<and> n \<le> 524288 \<or>
      p = 16 \<and> 524288 < n \<and> n \<le> 1048576 \<or> p = 32 \<and> 1048576 < n \<and> n \<le> 2097152 \<or> p = 64 \<and> 2097152 < n"
    using assms by (auto simp: p_def n_def spc16)
  have k: "k * p \<le> n" "n < k * p + p" using div_bounds[OF p(1), of n] by (simp_all add: k_def)
  have t: "t * 256 \<le> k + 1" "k + 1 < t * 256 + 256" using div_bounds[of 256 "k + 1"] by (simp_all add: t_def)
  have n: "8245 \<le> n" "n \<le> 4194304" using assms by (simp_all add: n_def)
  have T: "table_size False v = t + 1" by (simp add: table_size_def t_def k_def n_def p_def)
  show le: "40 + 2 * table_size False v \<le> unat v"
    unfolding T n_def[symmetric] using p(2) k t n by auto
  have D: "data_clusters False v = (n - (40 + 2 * (t + 1))) div p"
    by (simp add: data_clusters_def T n_def p_def)
  show "4085 \<le> data_clusters False v"
    unfolding D clusters_cmp[OF p(1)] using p(2) k t n by auto
  show "data_clusters False v < 65525 \<longleftrightarrow> unat v < 4194152"
  proof (cases "n < 4194152")
    case True
    then have "n - (40 + 2 * (t + 1)) < 65525 * p"
      using p(2) k t n by auto
    then show ?thesis using True unfolding D clusters_cmp[OF p(1)] n_def by simp
  next
    case False
    then have 64: "p = 64" using p(2) by auto
    then have "65533 \<le> k" "k \<le> 65536" using k n False by auto
    then have "k = 65533 \<or> k = 65534 \<or> k = 65535 \<or> k = 65536" by linarith
    then have "65525 * p \<le> n - (40 + 2 * (t + 1))"
      using False k 64 by (elim disjE) (simp_all add: t_def)
    then show ?thesis using False unfolding D clusters_cmp[OF p(1)] n_def by simp
  qed
qed

lemma data_clusters32:
  assumes "4194304 < unat v"
  shows "65525 \<le> data_clusters True v" "32 + 2 * table_size True v \<le> unat v"
proof -
  define n p where "n = unat v" and "p = spc True v"
  define k where "k = n div p"
  define t where "t = (k + 1) div 128"
  have p: "0 < p" "p = 8 \<or> p = 16 \<and> 16777216 < n \<or> p = 32 \<and> 33554432 < n \<or> p = 64 \<and> 67108864 < n"
    using assms by (auto simp: p_def n_def spc32)
  have k: "k * p \<le> n" "n < k * p + p" using div_bounds[OF p(1), of n] by (simp_all add: k_def)
  have t: "t * 128 \<le> k + 1" "k + 1 < t * 128 + 128" using div_bounds[of 128 "k + 1"] by (simp_all add: t_def)
  have n: "4194304 < n" using assms by (simp add: n_def)
  have T: "table_size True v = t + 1" by (simp add: table_size_def t_def k_def n_def p_def)
  show "32 + 2 * table_size True v \<le> unat v"
    unfolding T n_def[symmetric] using p(2) k t n by auto
  have D: "data_clusters True v = (n - (32 + 2 * (t + 1))) div p"
    by (simp add: data_clusters_def T n_def p_def)
  show "65525 \<le> data_clusters True v"
    unfolding D clusters_cmp[OF p(1)] using p(2) k t n by auto
qed

lemma init_media:
  assumes m: "reliable (fs_disk_io fs)" and b: "b = sector_on (fs_disk_io fs) 0"
    and sig: "b ! 510 = 0x55" "b ! 511 = 0xAA" "GET_16BIT_WORD b 510 = 0xAA55" "b ! 450 = 0" "GET_16BIT_WORD b 11 = 512"
      "b ! 13 \<noteq> 0" "\<not> count_of_clusters b < 4085"
  shows "\<exists>f. fatfs_init fs = Inr (FAT_INIT_OK, f) \<and> fs_lba_begin f = 0 \<and>
    fs_disk_io f = fs_disk_io fs \<and> fs_next_free_cluster f = 0 \<and> fs_fat_buffers f = fs_fat_buffers (fatfs_fat_init fs) \<and>
    fs_fat_type f = (if count_of_clusters b < 65525 then FAT_TYPE_16 else FAT_TYPE_32) \<and>
    (let g = load_parameters (f\<lparr>fs_lba_begin := 0\<rparr>) b in
       fs_sectors_per_cluster f = b ! 13 \<and> fs_cluster_begin_lba f = fs_cluster_begin_lba g \<and>
       fs_fat_begin_lba f = fs_fat_begin_lba g \<and> fs_fat_sectors f = fs_fat_sectors g \<and>
       fs_root_entry_count f = fs_root_entry_count g \<and> fs_rootdir_sectors f = fs_rootdir_sectors g \<and>
       fs_rootdir_first_sector f = fs_rootdir_first_sector g \<and> fs_info_sector f = fs_info_sector g \<and>
       fs_rootdir_first_cluster f = (if count_of_clusters b < 65525 then 0 else fs_rootdir_first_cluster g))"
proof -
  have r: "md_can_read (fs_disk_io fs)" "\<And>a n. \<not> md_rd_err (fs_disk_io fs) a n"
    using m by (auto simp: reliable_def)
  have b': "md_bytes (fs_disk_io fs) 0 (Suc 0) = b" using b by (simp add: sector_on_def)
  have v: "\<not> valid_partition 0" by (simp add: valid_partition_def)
  show ?thesis
    using sig r v by (simp add: fatfs_init_def fatfs_fat_init_def media_read_def b' Let_def set_current_def load_parameters_def)
qed

text \<open>Volumes with nothing in the buffers: their table is the one on the media.\<close>

lemma fresh_table_ok:
  assumes "fs_fat_buffers fs = fs_fat_buffers (fatfs_fat_init f0)" "reliable (fs_disk_io fs)"
    "unat (fs_fat_begin_lba fs) + unat (fs_fat_sectors fs) < 2 ^ 32"
  shows "table_ok fs" "s \<noteq> FAT32_INVALID_CLUSTER \<Longrightarrow> fat_view fs s = sector_on (fs_disk_io fs) (unat s)"
  using assms by (auto simp: table_ok_def fatfs_fat_init_def FAT_BUFFERS_def buffer_ok_def FAT_SECTOR_SIZE_def
      fat_view_def sector_on_def simp del: find_buffer.simps(2))

lemma zero_sector_entries:
  "p + 1 < 512 \<Longrightarrow> GET_16BIT_WORD zero_sector p = 0" "q + 3 < 512 \<Longrightarrow> GET_32BIT_WORD zero_sector q = 0"
  by (simp_all add: GET_16BIT_WORD_def GET_32BIT_WORD_def zero_sector_def FAT_SECTOR_SIZE_def)

lemma first_sector_entries:
  "4 \<le> p \<Longrightarrow> p + 1 < 512 \<Longrightarrow> GET_16BIT_WORD (first_table_sector False) p = 0"
  "12 \<le> q \<Longrightarrow> q + 3 < 512 \<Longrightarrow> GET_32BIT_WORD (first_table_sector True) q = 0"
  "GET_32BIT_WORD (first_table_sector True) 8 = 0x0FFFFFFF"
  by (simp_all add: first_table_sector_def zero_sector_entries)

text \<open>A table whose first sector holds the reserved entries and the others nothing is free.\<close>

lemma erased_table_free:
  assumes t: "table_ok fs" and c: "covers fs c" "(if fs_fat_type fs = FAT_TYPE_32 then 3 else 2) \<le> unat c"
    and first: "fat_view fs (fs_fat_begin_lba fs) = first_table_sector (fs_fat_type fs = FAT_TYPE_32)"
    and rest: "\<And>s. in_table fs s \<Longrightarrow> s \<noteq> fs_fat_begin_lba fs \<Longrightarrow> fat_view fs s = zero_sector"
  shows "fat_free fs c"
proof -
  have i: "in_table fs (entry_sector fs c)" by (rule covers_in_table[OF t c(1)])
  have pos: "fat_position fs c + (case fs_fat_type fs of FAT_TYPE_16 \<Rightarrow> 2 | FAT_TYPE_32 \<Rightarrow> 4) \<le> 512"
    using position_fits[of fs c] by (cases "fs_fat_type fs") simp_all
  have "fat_raw fs c = 0"
  proof (cases "fat_sector_offset fs c = 0")
    case False
    then have "fat_view fs (entry_sector fs c) = zero_sector"
      using rest[OF i] by (simp add: entry_sector_def)
    then show ?thesis using pos zero_sector_entries by (cases "fs_fat_type fs") (simp_all add: fat_raw_def)
  next
    case True
    then have v: "fat_view fs (entry_sector fs c) = first_table_sector (fs_fat_type fs = FAT_TYPE_32)"
      using first by (simp add: entry_sector_def)
    show ?thesis
    proof (cases "fs_fat_type fs")
      case FAT_TYPE_16
      then have "unat c < 256" using True by (simp add: fat_sector_offset_def word_unat_eq_iff unat_div div_eq_0_iff)
      then have "fat_position fs c = unat c * 2" using FAT_TYPE_16 by (simp add: position_mod)
      then show ?thesis using v FAT_TYPE_16 pos c(2) first_sector_entries by (simp add: fat_raw_def)
    next
      case FAT_TYPE_32
      then have "unat c < 128" using True by (simp add: fat_sector_offset_def word_unat_eq_iff unat_div div_eq_0_iff)
      then have "fat_position fs c = unat c * 4" using FAT_TYPE_32 by (simp add: position_mod)
      then show ?thesis using v FAT_TYPE_32 pos c(2) first_sector_entries by (simp add: fat_raw_def)
    qed
  qed
  then show ?thesis by (cases "fs_fat_type fs") (simp_all add: fat_free_def)
qed

text \<open>Formatting and then mounting.\<close>

lemma init_formatted16:
  assumes w: "writable (fs_disk_io fs)" and v: "8245 \<le> unat v" "unat v \<le> 4194304"
    and m: "formatted_media fs v name False (fs_disk_io other)"
  defines "g \<equiv> boot_state (start_type fs False) v name False"
  shows "\<exists>f. fatfs_init other = Inr (FAT_INIT_OK, f) \<and> fs_disk_io f = fs_disk_io other \<and>
    fs_fat_buffers f = fs_fat_buffers (fatfs_fat_init other) \<and> fs_next_free_cluster f = 0 \<and>
    geometry f = (if unat v < 4194152 then FAT_TYPE_16 else FAT_TYPE_32, fatfs_calc_cluster_size v False,
      8 + 2 * fs_fat_sectors g, if unat v < 4194152 then 0 else fs_rootdir_first_cluster f, 8, 0, fs_fat_sectors g, 512) \<and>
    fs_rootdir_first_sector f = 8 + 2 * fs_fat_sectors g \<and> fs_rootdir_sectors f = 32"
proof -
  let ?b = "fb_sector (fs_currentsector g)"
  have b: "sector_on (fs_disk_io other) 0 = ?b" using m by (simp add: formatted_media_def Let_def g_def)
  have r: "reliable (fs_disk_io other)"
    using m w bytes_only_writable[of "fs_disk_io fs" "fs_disk_io other"]
    by (auto simp: formatted_media_def writable_def)
  have sp: "spc False v \<noteq> 0" "1 < spc False v" using v by (auto simp: spc16)
  have T: "unat (fs_fat_sectors g) = table_size False v" unfolding g_def
    by (rule boot_state_tables) (use sp in auto)
  have T1: "unat (fs_fat_sectors g) < 65536" using T table16[OF v(2)] by simp
  note f = boot_state_sector16[OF T1[unfolded g_def], folded g_def]
  note d = data_clusters16[OF v]
  have cc: "unat (count_of_clusters ?b) = data_clusters False v"
    unfolding g_def by (rule count_of_clusters_formatted) (use T d table16[OF v(2)] sp in \<open>simp_all add: g_def\<close>)
  have c: "\<not> count_of_clusters ?b < 4085" "count_of_clusters ?b < 65525 \<longleftrightarrow> unat v < 4194152"
    using cc d by (simp_all add: word_less_nat_alt)
  have nz: "?b ! 13 \<noteq> 0" using f(4) sp(1) by (simp add: spc_nonzero)
  have ne: "fs_fat_sectors g \<noteq> 0" using T by (auto simp: table_size_def)
  show ?thesis
    using init_media[OF r b[symmetric] f(1,2,6,3,7) nz c(1)] f c(2) ne
    by (auto simp: geometry_def Let_def load_parameters_def root_sectors[simplified])
qed

lemma init_formatted32:
  assumes w: "writable (fs_disk_io fs)" and v: "4194304 < unat v"
    and m: "formatted_media fs v name True (fs_disk_io other)"
  defines "g \<equiv> boot_state (start_type fs True) v name True"
  shows "\<exists>f. fatfs_init other = Inr (FAT_INIT_OK, f) \<and> fs_disk_io f = fs_disk_io other \<and>
    fs_fat_buffers f = fs_fat_buffers (fatfs_fat_init other) \<and> fs_next_free_cluster f = 0 \<and>
    geometry f = (FAT_TYPE_32, fatfs_calc_cluster_size v True,
      32 + 2 * fs_fat_sectors g, 2, 32, 0, fs_fat_sectors g, 0) \<and> fs_info_sector f = 1"
proof -
  let ?b = "fb_sector (fs_currentsector g)"
  have b: "sector_on (fs_disk_io other) 0 = ?b" using m by (simp add: formatted_media_def Let_def g_def)
  have r: "reliable (fs_disk_io other)"
    using m w bytes_only_writable[of "fs_disk_io fs" "fs_disk_io other"]
    by (auto simp: formatted_media_def writable_def)
  have sp: "spc True v \<noteq> 0" "1 < spc True v" using v by (auto simp: spc32)
  have T: "unat (fs_fat_sectors g) = table_size True v" unfolding g_def
    by (rule boot_state_tables) (use sp in auto)
  note f = boot_state_sector32[of "start_type fs True" v name, folded g_def]
  note d = data_clusters32[OF v]
  have cc: "unat (count_of_clusters ?b) = data_clusters True v"
    unfolding g_def by (rule count_of_clusters_formatted) (use T d sp in \<open>simp_all add: g_def\<close>)
  have c: "\<not> count_of_clusters ?b < 4085" "\<not> count_of_clusters ?b < 65525"
    using cc d by (simp_all add: word_less_nat_alt)
  have nz: "?b ! 13 \<noteq> 0" using f(4) sp(1) by (simp add: spc_nonzero)
  show ?thesis
    using init_media[OF r b[symmetric] f(1,2,6,3,7) nz c(1)] f c(2)
    by (auto simp: geometry_def Let_def load_parameters_def root_sectors[simplified])
qed

text \<open>What the table and the root directory look like to the library afterwards.\<close>

definition empty_volume :: "fatfs \<Rightarrow> bool" where
  "empty_volume fs \<longleftrightarrow> table_ok fs \<and>
     (\<forall>c. covers fs c \<and> (if fs_fat_type fs = FAT_TYPE_32 then 3 else 2) \<le> unat c \<longrightarrow> fat_free fs c) \<and>
     (case fs_fat_type fs of
        FAT_TYPE_16 \<Rightarrow> \<forall>k < unat (fs_rootdir_sectors fs).
          sector_on (fs_disk_io fs) (unat (fs_lba_begin fs + fs_rootdir_first_sector fs) + k) = zero_sector
      | FAT_TYPE_32 \<Rightarrow> fat_chain (fat_next fs) (fs_rootdir_first_cluster fs) [fs_rootdir_first_cluster fs] \<and>
          (\<forall>k < unat (fs_sectors_per_cluster fs).
             sector_on (fs_disk_io fs) (unat (fatfs_lba_of_cluster fs (fs_rootdir_first_cluster fs)) + k) = zero_sector))"

lemma formatted_table:
  assumes m: "formatted_media f0 v name x (fs_disk_io fs)" and r: "reliable (fs_disk_io fs)"
    and b: "fs_fat_buffers fs = fs_fat_buffers (fatfs_fat_init f1)"
    and t: "fs_fat_type fs = (if x then FAT_TYPE_32 else FAT_TYPE_16)"
    and fat: "unat (fs_fat_begin_lba fs) = (if x then 32 else 8)" "unat (fs_fat_sectors fs) = table_size x v"
    and small: "table_size x v \<le> 524289"
  shows "table_ok fs" "fat_view fs (fs_fat_begin_lba fs) = first_table_sector x"
    "\<And>s. in_table fs s \<Longrightarrow> s \<noteq> fs_fat_begin_lba fs \<Longrightarrow> fat_view fs s = zero_sector"
proof -
  have lt: "unat (fs_fat_begin_lba fs) + unat (fs_fat_sectors fs) < 2 ^ 32" using fat small by (cases x) simp_all
  note ft = fresh_table_ok[OF b r lt]
  show t: "table_ok fs" by (rule ft(1))
  have nz: "0 < table_size x v" by (simp add: table_size_def)
  have "in_table fs (fs_fat_begin_lba fs)" using fat nz by (simp add: in_table_def)
  then show "fat_view fs (fs_fat_begin_lba fs) = first_table_sector x"
    using ft(2)[OF in_table_valid[OF t]] m fat(1) by (simp add: formatted_media_def Let_def split: if_splits)
  show "fat_view fs s = zero_sector" if i: "in_table fs s" "s \<noteq> fs_fat_begin_lba fs" for s
  proof -
    have "unat s \<noteq> unat (fs_fat_begin_lba fs)" using i(2) by (simp add: word_unat_eq_iff)
    then have "(if x then 32 else 8) < unat s" "unat s < (if x then 32 else 8) + table_size x v"
      using i(1) fat by (auto simp: in_table_def)
    then show ?thesis using ft(2)[OF in_table_valid[OF t i(1)]] m
      by (auto simp: formatted_media_def Let_def split: if_splits)
  qed
qed

lemma format_then_init16:
  assumes w: "writable (fs_disk_io fs)" and v: "8245 \<le> unat v" "unat v \<le> 4194304"
  shows "\<exists>fs1 fs2. fatfs_format fs v name = Inr (1, fs1) \<and>
    fatfs_init (other\<lparr>fs_disk_io := fs_disk_io fs1\<rparr>) = Inr (FAT_INIT_OK, fs2) \<and> fs_fat_type fs1 = FAT_TYPE_16 \<and>
    (if unat v < 4194152 then geometry fs2 = geometry fs1 \<and> empty_volume fs2 else fs_fat_type fs2 = FAT_TYPE_32)"
proof -
  let ?g = "boot_state (start_type fs False) v name False"
  obtain m where f: "fatfs_format_fat16 fs v name = Inr (1, (formatted16 fs v name)\<lparr>fs_disk_io := m\<rparr>)"
    and m: "formatted_media fs v name False m" using format_fat16_ok[OF w v(2)] by blast
  let ?o = "other\<lparr>fs_disk_io := m\<rparr>"
  obtain f2 where i: "fatfs_init ?o = Inr (FAT_INIT_OK, f2)" "fs_disk_io f2 = m"
      "fs_fat_buffers f2 = fs_fat_buffers (fatfs_fat_init ?o)" and rt: "fs_rootdir_first_sector f2 = 8 + 2 * fs_fat_sectors ?g"
      "fs_rootdir_sectors f2 = 32" and
      g: "geometry f2 = (if unat v < 4194152 then FAT_TYPE_16 else FAT_TYPE_32, fatfs_calc_cluster_size v False,
        8 + 2 * fs_fat_sectors ?g, if unat v < 4194152 then 0 else fs_rootdir_first_cluster f2, 8, 0, fs_fat_sectors ?g, 512)"
    using init_formatted16[OF w v, of name ?o] m by auto
  have le: "v \<le> 4194304" using v(2) by (simp add: word_le_nat_alt)
  have g1: "geometry (formatted16 fs v name) = (FAT_TYPE_16, fatfs_calc_cluster_size v False,
      8 + 2 * fs_fat_sectors ?g, 0, 8, 0, fs_fat_sectors ?g, 512)"
    by (simp add: geometry_def formatted16_def Let_def set_current_def)
  have sp: "spc False v \<noteq> 0" "1 < spc False v" using v by (auto simp: spc16)
  have T: "unat (fs_fat_sectors ?g) = table_size False v" by (rule boot_state_tables) (use sp in auto)
  have T1: "table_size False v \<le> 257" by (rule table16[OF v(2)])
  have root: "unat (fs_lba_begin f2 + fs_rootdir_first_sector f2) = 8 + 2 * table_size False v"
    using rt g T T1 by (simp add: geometry_def unat_word_ariths)
  have "empty_volume f2" if lt: "unat v < 4194152"
  proof -
    have t: "fs_fat_type f2 = FAT_TYPE_16" using g lt by (simp add: geometry_def)
    have fb: "unat (fs_fat_begin_lba f2) = 8" "unat (fs_fat_sectors f2) = table_size False v"
      using g T by (simp_all add: geometry_def)
    have r: "reliable (fs_disk_io f2)"
      using m w bytes_only_writable[of "fs_disk_io fs" m] i(2) by (auto simp: formatted_media_def writable_def)
    have m2: "formatted_media fs v name False (fs_disk_io f2)" using m i(2) by simp
    note ft = formatted_table[OF m2 r i(3) _ _ fb(2), simplified, OF t fb(1)]
    have tab: "table_ok f2" "fat_view f2 (fs_fat_begin_lba f2) = first_table_sector False"
      "\<And>s. in_table f2 s \<Longrightarrow> s \<noteq> fs_fat_begin_lba f2 \<Longrightarrow> fat_view f2 s = zero_sector"
      using ft T1 by simp_all
    have z: "sector_on (fs_disk_io f2) (8 + 2 * table_size False v + k) = zero_sector" if "k < 32" for k
      using m2 that by (simp add: formatted_media_def Let_def table_size_def)
    have "fat_free f2 c" if "covers f2 c" "2 \<le> unat c" for c
      by (rule erased_table_free[OF tab(1) that(1)]) (use t tab that in simp_all)
    then show ?thesis using t tab(1) z root rt by (simp add: empty_volume_def)
  qed
  then show ?thesis using f i g g1 le by (auto simp: fatfs_format_def geometry_def)
qed

lemma format_then_init32:
  assumes w: "writable (fs_disk_io fs)" and v: "4194304 < unat v"
  shows "\<exists>fs1 fs2. fatfs_format fs v name = Inr (1, fs1) \<and>
    fatfs_init (other\<lparr>fs_disk_io := fs_disk_io fs1\<rparr>) = Inr (FAT_INIT_OK, fs2) \<and> fs_fat_type fs1 = FAT_TYPE_32 \<and>
    geometry fs2 = geometry fs1 \<and> empty_volume fs2"
proof -
  let ?g = "boot_state (start_type fs True) v name True"
  obtain m where f: "fatfs_format_fat32 fs v name = Inr (1, (formatted32 fs v name)\<lparr>fs_disk_io := m\<rparr>)"
    and m: "formatted_media fs v name True m" using format_fat32_ok[OF w v] by blast
  let ?o = "other\<lparr>fs_disk_io := m\<rparr>"
  obtain f2 where i: "fatfs_init ?o = Inr (FAT_INIT_OK, f2)" "fs_disk_io f2 = m"
      "fs_fat_buffers f2 = fs_fat_buffers (fatfs_fat_init ?o)" and
      g: "geometry f2 = (FAT_TYPE_32, fatfs_calc_cluster_size v True,
        32 + 2 * fs_fat_sectors ?g, 2, 32, 0, fs_fat_sectors ?g, 0)"
    using init_formatted32[OF w v, of name ?o] m by auto
  have le: "\<not> v \<le> 4194304" using v by (simp add: word_le_nat_alt)
  have g1: "geometry (formatted32 fs v name) = (FAT_TYPE_32, fatfs_calc_cluster_size v True,
      32 + 2 * fs_fat_sectors ?g, 2, 32, 0, fs_fat_sectors ?g, 0)"
    by (simp add: geometry_def formatted32_def Let_def set_current_def)
  have sp: "spc True v \<noteq> 0" "1 < spc True v" using v by (auto simp: spc32)
  have T: "unat (fs_fat_sectors ?g) = table_size True v" by (rule boot_state_tables) (use sp in auto)
  have T1: "table_size True v \<le> 524289" "0 < table_size True v" using table32 by (simp_all add: table_size_def)
  have fields: "fs_fat_type f2 = FAT_TYPE_32" "unat (fs_fat_begin_lba f2) = 32"
      "unat (fs_fat_sectors f2) = table_size True v" "fs_rootdir_first_cluster f2 = 2"
      "unat (fs_sectors_per_cluster f2) = spc True v"
    using g T by (simp_all add: geometry_def spc_def)
  have root: "unat (fatfs_lba_of_cluster f2 (fs_rootdir_first_cluster f2)) = 32 + 2 * table_size True v"
    using g T T1 by (simp add: geometry_def fatfs_lba_of_cluster_def unat_word_ariths)
  have r: "reliable (fs_disk_io f2)"
    using m w bytes_only_writable[of "fs_disk_io fs" m] i(2) by (auto simp: formatted_media_def writable_def)
  have m2: "formatted_media fs v name True (fs_disk_io f2)" using m i(2) by simp
  note ft = formatted_table[OF m2 r i(3) _ _ fields(3) T1(1), simplified, OF fields(1,2)]
  have z: "sector_on (fs_disk_io f2) (32 + 2 * table_size True v + k) = zero_sector" if "k < spc True v" for k
    using m2 that T1 by (simp add: formatted_media_def Let_def)
  have free: "fat_free f2 c" if "covers f2 c" "3 \<le> unat c" for c
    by (rule erased_table_free[OF ft(1) that(1)]) (use fields ft that in simp_all)
  have "fat_sector_offset f2 2 = 0" using fields(1) by (simp add: fat_sector_offset_def word_unat_eq_iff unat_div)
  then have "fat_raw f2 2 = 0x0FFFFFFF"
    using fields(1) ft(2) first_sector_entries(3) by (simp add: fat_raw_def entry_sector_def position_mod)
  then have "fat_chain (fat_next f2) 2 [2]"
    using fields(1) by (simp add: fat_next_def as_next_def FAT32_LAST_CLUSTER_def)
  then have "empty_volume f2" using fields ft(1) free z root by (simp add: empty_volume_def)
  then show ?thesis using f i g g1 le by (auto simp: fatfs_format_def geometry_def formatted32_def Let_def set_current_def)
qed

text \<open>
  C15: A volume that \<open>fatfs_format\<close> formats is found by \<open>fatfs_init\<close> with the geometry it was
  formatted with, every cluster of its table is free but for the root directory of FAT32, and
  the root directory is empty. The volume has at least 8245 sectors, and is not one of the
  153 sizes below and at 2 GB where FAT16 is chosen and then taken for FAT32.
\<close>

theorem format_then_init:
  assumes "writable (fs_disk_io fs)" "8245 \<le> unat v" "unat v < 4194152 \<or> 4194304 < unat v"
  shows "\<exists>fs1 fs2. fatfs_format fs v name = Inr (1, fs1) \<and>
    fatfs_init (other\<lparr>fs_disk_io := fs_disk_io fs1\<rparr>) = Inr (FAT_INIT_OK, fs2) \<and>
    geometry fs2 = geometry fs1 \<and> empty_volume fs2"
proof (cases "unat v < 4194152")
  case True
  then show ?thesis using format_then_init16[OF assms(1,2), of name other] by auto
next
  case False
  then show ?thesis using format_then_init32[OF assms(1), of v name other] assms(3) by auto
qed

definition blank_media :: fat_media where
  "blank_media = \<lparr>md_can_read = True, md_can_write = True, md_byte = (\<lambda>_. 0xFF),
     md_rd_err = (\<lambda>_ _. False), md_wr_err = (\<lambda>_ _. False)\<rparr>"

definition blank_fs :: fatfs where
  "blank_fs = \<lparr>fs_sectors_per_cluster = 0, fs_cluster_begin_lba = 0, fs_rootdir_first_cluster = 0,
     fs_rootdir_first_sector = 0, fs_rootdir_sectors = 0, fs_fat_begin_lba = 0, fs_info_sector = 0, fs_lba_begin = 0,
     fs_fat_sectors = 0, fs_next_free_cluster = 0, fs_root_entry_count = 0, fs_reserved_sectors = 0,
     fs_num_of_fats = 0, fs_fat_type = FAT_TYPE_16, fs_disk_io = blank_media,
     fs_currentsector = \<lparr>fb_sector = [], fb_address = 0, fb_dirty = False\<rparr>, fs_fat_buffers = []\<rparr>"

lemma blank_writable: "writable (fs_disk_io blank_fs)"
  by (simp add: writable_def reliable_def blank_media_def blank_fs_def)

lemma format_then_init_witness:
  "\<exists>fs1 fs2. fatfs_format blank_fs 16384 [65] = Inr (1, fs1) \<and>
    fatfs_init (blank_fs\<lparr>fs_disk_io := fs_disk_io fs1\<rparr>) = Inr (FAT_INIT_OK, fs2) \<and>
    geometry fs2 = geometry fs1 \<and> empty_volume fs2"
  by (rule format_then_init) (simp_all add: blank_writable)

text \<open>Volumes of 4194152 to 4194304 sectors are formatted as FAT16 and mounted as FAT32.\<close>

lemma format_mistaken:
  assumes "writable (fs_disk_io fs)" "4194152 \<le> unat v" "unat v \<le> 4194304"
  shows "\<exists>fs1 fs2. fatfs_format fs v name = Inr (1, fs1) \<and> fs_fat_type fs1 = FAT_TYPE_16 \<and>
    fatfs_init (other\<lparr>fs_disk_io := fs_disk_io fs1\<rparr>) = Inr (FAT_INIT_OK, fs2) \<and> fs_fat_type fs2 = FAT_TYPE_32"
proof -
  have "8245 \<le> unat v" "\<not> unat v < 4194152" using assms(2) by simp_all
  then show ?thesis using format_then_init16[OF assms(1) _ assms(3), of name other] by auto
qed

end
