(* ===== verification/FatTableProps.thy ===== *)
theory FatTableProps
  imports FatVolume
begin

text \<open>
  The file allocation table as its clients know it: sequences of operations through the
  write-back buffers are operations on a plain table, the operations on chains change just
  the chain, and a concrete table the instances use.
\<close>

section \<open>A small table\<close>

text \<open>
  A FAT32 table in sector 1, with the chain of clusters 3, 5 and 4 and all other clusters from
  6 on free; nothing is buffered. A data sector holds its number in every byte.
\<close>

definition small_byte :: "nat \<Rightarrow> u8" where
  "small_byte i = (if i < 512 then 0 else if 1024 \<le> i then word_of_nat (i div 512)
     else if i < 524 then 0xF8
     else if i = 524 then 5 else if i = 532 then 4
     else if i \<in> {528, 529, 530} then 0xFF else if i = 531 then 0x0F else 0)"

definition small_media :: fat_media where
  "small_media = \<lparr>md_can_read = True, md_can_write = True, md_byte = small_byte,
     md_rd_err = (\<lambda>_ _. False), md_wr_err = (\<lambda>_ _. False)\<rparr>"

definition small_fat :: fatfs where
  "small_fat = fatfs_fat_init (blank_fs\<lparr>fs_sectors_per_cluster := 1, fs_cluster_begin_lba := 2,
     fs_rootdir_first_cluster := 3, fs_fat_begin_lba := 1, fs_fat_sectors := 1, fs_num_of_fats := 1,
     fs_fat_type := FAT_TYPE_32, fs_disk_io := small_media\<rparr>)"

lemma small_fat_fields [simp]:
  "fs_fat_type small_fat = FAT_TYPE_32" "fs_disk_io small_fat = small_media" "fs_fat_begin_lba small_fat = 1"
  "fs_fat_sectors small_fat = 1" "fat_entries small_fat = 128" "md_can_write small_media" "md_byte small_media = small_byte"
  "fs_sectors_per_cluster small_fat = 1" "fs_cluster_begin_lba small_fat = 2"
  by (simp_all add: small_fat_def fatfs_fat_init_def small_media_def fat_entries_def)

lemma small_table_ok: "table_ok small_fat"
  by (rule fresh_table_ok(1)[where ?f0.0 = small_fat])
     (simp_all add: small_fat_def fatfs_fat_init_def small_media_def reliable_def)

lemma small_covers [simp]: "covers small_fat c \<longleftrightarrow> unat c < 128"
  by (simp add: covers_entries)

lemma small_raw:
  assumes "unat c < 128"
  shows "fat_raw small_fat c = push_bit 24 (ucast (small_byte (512 + unat c * 4 + 3)))
    + push_bit 16 (ucast (small_byte (512 + unat c * 4 + 2)))
    + push_bit 8 (ucast (small_byte (512 + unat c * 4 + 1))) + ucast (small_byte (512 + unat c * 4))"
proof -
  have "c div 128 = 0" using assms by (simp add: word_unat_eq_iff unat_div)
  then have "entry_sector small_fat c = 1" by (simp add: entry_sector_def fat_sector_offset_def)
  moreover have "fat_view small_fat 1 = sector_on small_media 1"
    using fresh_table_ok(2)[of small_fat small_fat 1] small_table_ok
    by (simp add: table_ok_def FAT32_INVALID_CLUSTER_def) (simp add: small_fat_def fatfs_fat_init_def)
  moreover have "fat_position small_fat c = unat c * 4" using assms by (simp add: position_mod)
  moreover have "sector_on small_media 1 ! i = small_byte (512 + i)" if "i < 512" for i
    unfolding sector_on_def by (subst nth_md_bytes) (use that in simp_all)
  ultimately show ?thesis
    using assms by (simp add: fat_raw_def GET_32BIT_WORD_def add.assoc add.commute)
qed

lemma small_next:
  "fat_next small_fat 3 = 5" "fat_next small_fat 5 = 4" "fat_next small_fat 4 = FAT32_LAST_CLUSTER"
  by (simp_all add: fat_next_def as_next_def small_raw small_byte_def FAT32_LAST_CLUSTER_def)

lemma small_chain: "fat_chain (fat_next small_fat) 3 [3, 5, 4]"
  by (simp add: small_next) (simp add: FAT32_LAST_CLUSTER_def)

section \<open>Sequences of operations\<close>

datatype table_op = Find_next u32 | Set_cluster u32 u32 | Find_blank u32 | Purge

datatype table_out = Next u32 | Done bool | Blank "u32 option"

primrec table_step :: "table_op \<Rightarrow> fatfs \<Rightarrow> fault + table_out \<times> fatfs" where
  "table_step (Find_next c) fs = andThen (fatfs_find_next_cluster fs c) (\<lambda>(n, fs). Inr (Next n, fs))"
| "table_step (Set_cluster c n) fs = andThen (fatfs_fat_set_cluster fs c n) (\<lambda>(ok, fs). Inr (Done ok, fs))"
| "table_step (Find_blank s) fs = andThen (fatfs_find_blank_cluster fs s) (\<lambda>(r, fs). Inr (Blank r, fs))"
| "table_step Purge fs = andThen (fatfs_fat_purge fs) (\<lambda>(ok, fs). Inr (Done ok, fs))"

primrec table_run :: "table_op list \<Rightarrow> fatfs \<Rightarrow> fault + table_out list \<times> fatfs" where
  "table_run [] fs = Inr ([], fs)"
| "table_run (q # qs) fs = andThen (table_step q fs) (\<lambda>(r, fs).
     andThen (table_run qs fs) (\<lambda>(rs, fs). Inr (r # rs, fs)))"

text \<open>The same operations on a plain table of \<open>n\<close> entries, with no buffers and no media.\<close>

definition plain_free :: "tFatType \<Rightarrow> (u32 \<Rightarrow> u32) \<Rightarrow> u32 \<Rightarrow> bool" where
  "plain_free t tab c \<longleftrightarrow> (case t of FAT_TYPE_16 \<Rightarrow> tab c = 0 | FAT_TYPE_32 \<Rightarrow> tab c AND 0x0FFFFFFF = 0)"

primrec plain_step :: "tFatType \<Rightarrow> nat \<Rightarrow> table_op \<Rightarrow> (u32 \<Rightarrow> u32) \<Rightarrow> table_out \<times> (u32 \<Rightarrow> u32)" where
  "plain_step t n (Find_next c) tab = (Next (as_next t (tab (if c = 0 then 2 else c))), tab)"
| "plain_step t n (Set_cluster c v) tab = (Done True, tab(c := as_stored t v))"
| "plain_step t n (Find_blank s) tab =
     (Blank (map_option word_of_nat (List.find (\<lambda>j. plain_free t tab (word_of_nat j)) [unat s..<n])), tab)"
| "plain_step t n Purge tab = (Done True, tab)"

primrec plain_run :: "tFatType \<Rightarrow> nat \<Rightarrow> table_op list \<Rightarrow> (u32 \<Rightarrow> u32) \<Rightarrow> table_out list \<times> (u32 \<Rightarrow> u32)" where
  "plain_run t n [] tab = ([], tab)"
| "plain_run t n (q # qs) tab =
     (let (r, tab) = plain_step t n q tab; (rs, tab) = plain_run t n qs tab in (r # rs, tab))"

text \<open>The clusters an operation looks up have an entry in the table.\<close>

primrec op_inside :: "nat \<Rightarrow> table_op \<Rightarrow> bool" where
  "op_inside n (Find_next c) \<longleftrightarrow> unat (if c = 0 then 2 else c) < n"
| "op_inside n (Set_cluster c v) \<longleftrightarrow> unat c < n"
| "op_inside n (Find_blank s) \<longleftrightarrow> True"
| "op_inside n Purge \<longleftrightarrow> True"

lemma plain_free_raw: "plain_free (fs_fat_type fs) (fat_raw fs) c = fat_free fs c"
  by (cases "fs_fat_type fs") (simp_all add: plain_free_def fat_free_def)

lemma find_upt_Some:
  "a \<le> k \<Longrightarrow> k < b \<Longrightarrow> P k \<Longrightarrow> \<forall>j. a \<le> j \<and> j < k \<longrightarrow> \<not> P j \<Longrightarrow> List.find P [a..<b] = Some k"
  unfolding find_Some_iff by (rule exI[of _ "k - a"]) auto

lemma blank_result_find:
  assumes n: "fat_entries fs < 2 ^ 32" and r: "blank_result fs s r"
  shows "map_option word_of_nat (List.find (\<lambda>j. fat_free fs (word_of_nat j)) [unat s..<fat_entries fs]) = r"
proof (cases r)
  case None
  have "\<not> fat_free fs (word_of_nat j)" if "unat s \<le> j" "j < fat_entries fs" for j
  proof -
    have "unat (word_of_nat j :: u32) = j"
      unfolding unat_of_nat by (rule mod_less) (use that n in simp)
    then show ?thesis using r None that by (auto simp: blank_result_def covers_entries word_le_nat_alt)
  qed
  then show ?thesis using None by (auto simp: find_None_iff)
next
  case (Some c)
  then have c: "s \<le> c" "covers fs c" "fat_free fs c" "\<And>d. s \<le> d \<Longrightarrow> d < c \<Longrightarrow> \<not> fat_free fs d"
    using r by (auto simp: blank_result_def)
  have "List.find (\<lambda>j. fat_free fs (word_of_nat j)) [unat s..<fat_entries fs] = Some (unat c)"
  proof (rule find_upt_Some)
    show "unat s \<le> unat c" "unat c < fat_entries fs" "fat_free fs (word_of_nat (unat c))"
      using c by (simp_all add: word_le_nat_alt covers_entries)
    have "\<not> fat_free fs (word_of_nat j)" if "unat s \<le> j" "j < unat c" for j
    proof -
      have "unat (word_of_nat j :: u32) = j"
        unfolding unat_of_nat by (rule mod_less) (use that unat_bound[of c] in simp)
      then show ?thesis using c(4)[of "word_of_nat j"] that by (simp add: word_le_nat_alt word_less_nat_alt)
    qed
    then show "\<forall>j. unat s \<le> j \<and> j < unat c \<longrightarrow> \<not> fat_free fs (word_of_nat j)" by blast
  qed
  then show ?thesis using Some by simp
qed

lemma table_step_ok:
  assumes ok: "table_ok fs" and w: "md_can_write (fs_disk_io fs)" and n: "fat_entries fs < 2 ^ 32"
    and q: "op_inside (fat_entries fs) q"
  shows "\<exists>fs'. table_step q fs = Inr (fst (plain_step (fs_fat_type fs) (fat_entries fs) q (fat_raw fs)), fs') \<and>
    fat_raw fs' = snd (plain_step (fs_fat_type fs) (fat_entries fs) q (fat_raw fs)) \<and>
    table_ok fs' \<and> table_frame fs fs'"
proof (cases q)
  case (Find_next c)
  then have "covers fs (if c = 0 then 2 else c)" using q by (simp add: covers_entries)
  then obtain fs' where "fatfs_find_next_cluster fs c = Inr (fat_next fs c, fs')" "table_ok fs'"
    "fat_view fs' = fat_view fs" "table_frame fs fs'" by (rule find_next_ok[OF ok])
  then show ?thesis using Find_next frame_view(1)[of fs fs'] by (simp add: fat_next_def)
next
  case (Set_cluster c v)
  then have "covers fs c" using q by (simp add: covers_entries)
  then obtain fs' where "fatfs_fat_set_cluster fs c v = Inr (True, fs')" "table_ok fs'" "table_frame fs fs'"
    "fat_raw fs' = (fat_raw fs)(c := as_stored (fs_fat_type fs) v)" by (rule set_cluster_ok[OF ok _ w])
  then show ?thesis using Set_cluster by simp
next
  case (Find_blank s)
  obtain r fs' where "fatfs_find_blank_cluster fs s = Inr (r, fs')" "blank_result fs s r" "table_ok fs'"
    "table_frame fs fs'" "fat_view fs' = fat_view fs" using find_blank_ok[OF ok n] by blast
  then show ?thesis using Find_blank blank_result_find[OF n] frame_view(1)[of fs fs']
    by (simp add: plain_free_raw)
next
  case Purge
  obtain fs' where "fatfs_fat_purge fs = Inr (True, fs')" "table_ok fs'" "table_frame fs fs'"
    "fat_view fs' = fat_view fs" by (rule purge_ok[OF ok])
  then show ?thesis using Purge frame_view(1)[of fs fs'] by simp
qed

lemma table_run_ok:
  assumes "table_ok fs" "md_can_write (fs_disk_io fs)" "fat_entries fs < 2 ^ 32"
    "list_all (op_inside (fat_entries fs)) qs"
  shows "\<exists>fs'. table_run qs fs = Inr (fst (plain_run (fs_fat_type fs) (fat_entries fs) qs (fat_raw fs)), fs') \<and>
    fat_raw fs' = snd (plain_run (fs_fat_type fs) (fat_entries fs) qs (fat_raw fs)) \<and>
    table_ok fs' \<and> table_frame fs fs'"
  using assms
proof (induction qs arbitrary: fs)
  case Nil
  then show ?case by simp
next
  case (Cons q qs)
  let ?p = "plain_step (fs_fat_type fs) (fat_entries fs) q (fat_raw fs)"
  obtain f1 where 1: "table_step q fs = Inr (fst ?p, f1)" "fat_raw f1 = snd ?p" "table_ok f1" "table_frame fs f1"
    using table_step_ok[OF Cons.prems(1-3)] Cons.prems(4) by auto
  note f = table_frame_fields(12,15)[OF 1(4)] frame_entries(5)[OF 1(4)]
  obtain f2 where 2: "table_run qs f1 = Inr (fst (plain_run (fs_fat_type f1) (fat_entries f1) qs (fat_raw f1)), f2)"
    "fat_raw f2 = snd (plain_run (fs_fat_type f1) (fat_entries f1) qs (fat_raw f1))" "table_ok f2" "table_frame f1 f2"
    using Cons.IH[OF 1(3)] Cons.prems f by auto
  show ?case using 1 2 table_frame_trans[OF 1(4) 2(4)] f
    by (simp add: split_beta)
qed

lemma view_without_buffers:
  "fat_view (fatfs_fat_init fs) s = md_bytes (fs_disk_io fs) (unat s) 1"
proof (cases "s = FAT32_INVALID_CLUSTER")
  case True
  then show ?thesis by (simp add: fat_view_def fatfs_fat_init_def FAT_BUFFERS_def del: find_buffer.simps(2))
next
  case False
  then show ?thesis by (simp add: fat_view_def fatfs_fat_init_def FAT_BUFFERS_def del: find_buffer.simps(2))
qed

lemma raw_without_buffers:
  assumes "\<And>s. md_bytes (fs_disk_io fs) (unat s) 1 = fat_view fs s"
  shows "fat_raw (fatfs_fat_init fs) = fat_raw fs"
proof
  fix c
  have v: "fat_view (fatfs_fat_init fs) = fat_view fs"
    using assms by (simp add: fun_eq_iff view_without_buffers)
  have f: "fs_fat_type (fatfs_fat_init fs) = fs_fat_type fs" "fs_fat_begin_lba (fatfs_fat_init fs) = fs_fat_begin_lba fs"
    by (simp_all add: fatfs_fat_init_def)
  show "fat_raw (fatfs_fat_init fs) c = fat_raw fs c"
    by (cases "fs_fat_type fs")
       (simp_all add: fat_raw_def entry_sector_def fat_position_def fat_sector_offset_def v f)
qed

text \<open>
  C7: Any sequence of look-ups, changes, searches and purges through the write-back buffers
  answers as the same sequence on a plain table would; a purge then leaves exactly that table
  on the media, where a volume mounted afresh finds it, and no sector outside the table has
  changed.
\<close>

theorem table_refines_plain:
  assumes "table_ok fs" "md_can_write (fs_disk_io fs)" "fat_entries fs < 2 ^ 32"
    "list_all (op_inside (fat_entries fs)) qs"
  shows "\<exists>fs1 fs2. table_run qs fs = Inr (fst (plain_run (fs_fat_type fs) (fat_entries fs) qs (fat_raw fs)), fs1) \<and>
    fatfs_fat_purge fs1 = Inr (True, fs2) \<and>
    fat_raw (fatfs_fat_init fs2) = snd (plain_run (fs_fat_type fs) (fat_entries fs) qs (fat_raw fs)) \<and>
    (\<forall>s. \<not> in_table fs s \<longrightarrow> md_bytes (fs_disk_io fs2) (unat s) 1 = md_bytes (fs_disk_io fs) (unat s) 1)"
proof -
  obtain fs1 where 1: "table_run qs fs = Inr (fst (plain_run (fs_fat_type fs) (fat_entries fs) qs (fat_raw fs)), fs1)"
    "fat_raw fs1 = snd (plain_run (fs_fat_type fs) (fat_entries fs) qs (fat_raw fs))" "table_ok fs1" "table_frame fs fs1"
    using table_run_ok[OF assms] by blast
  obtain fs2 where 2: "fatfs_fat_purge fs1 = Inr (True, fs2)" "table_ok fs2" "table_frame fs1 fs2"
    "fat_view fs2 = fat_view fs1" "\<And>s. md_bytes (fs_disk_io fs2) (unat s) 1 = fat_view fs1 s"
    by (rule purge_ok[OF 1(3)]) blast
  have "fat_raw (fatfs_fat_init fs2) = fat_raw fs1"
    using raw_without_buffers[of fs2] 2(4,5) frame_view(1)[OF 2(3,4)] by simp
  moreover have "table_frame fs fs2" by (rule table_frame_trans[OF 1(4) 2(3)])
  ultimately show ?thesis using 1(1,2) 2(1) by (auto simp: table_frame_def)
qed

lemma table_refines_plain_witness:
  "\<exists>fs1 fs2. table_run [Set_cluster 6 7, Purge, Find_next 6] small_fat = Inr ([Done True, Done True, Next 7], fs1) \<and>
    fatfs_fat_purge fs1 = Inr (True, fs2) \<and> fat_raw (fatfs_fat_init fs2) = (fat_raw small_fat)(6 := 7)"
proof -
  let ?qs = "[Set_cluster 6 7, Purge, Find_next 6]"
  have p: "plain_run FAT_TYPE_32 128 ?qs (fat_raw small_fat) = ([Done True, Done True, Next 7], (fat_raw small_fat)(6 := 7))"
    by (simp add: as_stored_def as_next_def)
  have q: "list_all (op_inside (fat_entries small_fat)) ?qs" by simp
  show ?thesis
    using table_refines_plain[OF small_table_ok _ _ q] by (simp add: p del: plain_run.simps) blast
qed

text \<open>
  C39: Freeing a chain ends and clears the entries of exactly the clusters of the chain,
  whatever links the rest of the table holds.
\<close>

theorem chain_freed:
  assumes "table_ok fs" "md_can_write (fs_disk_io fs)" "fat_chain (fat_next fs) p cs"
    "\<forall>c \<in> set cs. covers fs c"
  shows "\<exists>fs'. fatfs_free_cluster_chain fs p = Inr (True, fs') \<and> table_ok fs' \<and> table_frame fs fs' \<and>
     fat_raw fs' = (\<lambda>c. if c \<in> set cs then 0 else fat_raw fs c)"
  by (rule free_cluster_chain_ok[OF assms])

lemma chain_freed_witness:
  "\<exists>fs'. fatfs_free_cluster_chain small_fat 3 = Inr (True, fs') \<and> table_ok fs' \<and>
     fat_raw fs' = (\<lambda>c. if c \<in> {3, 4, 5} then 0 else fat_raw small_fat c)"
proof -
  have s: "set [3, 5, 4] = {3, 4, 5 :: u32}" by auto
  obtain fs' where "fatfs_free_cluster_chain small_fat 3 = Inr (True, fs')" "table_ok fs'"
    "fat_raw fs' = (\<lambda>c. if c \<in> set [3, 5, 4] then 0 else fat_raw small_fat c)"
    using chain_freed[OF small_table_ok _ small_chain] by auto
  then show ?thesis unfolding s by blast
qed

text \<open>
  C40: Appending a cluster finds the end of the chain, makes the chain longer by exactly that
  cluster, and changes the entries of the old and the new last cluster only.
\<close>

theorem cluster_appended:
  assumes "table_ok fs" "md_can_write (fs_disk_io fs)" "fat_chain (fat_next fs) p cs" "cs \<noteq> []"
    "\<forall>c \<in> set cs. covers fs c" "covers fs n" "n \<notin> set cs" "n \<noteq> 0"
    "as_next (fs_fat_type fs) (as_stored (fs_fat_type fs) n) = n" "n \<noteq> FAT32_LAST_CLUSTER"
  shows "\<exists>fs'. fatfs_fat_add_cluster_to_chain fs p n = Inr (True, fs') \<and> table_ok fs' \<and> table_frame fs fs' \<and>
    fat_chain (fat_next fs') p (cs @ [n]) \<and>
    (\<forall>d. d \<noteq> last cs \<and> d \<noteq> n \<longrightarrow> fat_raw fs' d = fat_raw fs d)"
  by (rule add_cluster_to_chain_ok[OF assms])

lemma cluster_appended_witness:
  "\<exists>fs'. fatfs_fat_add_cluster_to_chain small_fat 3 6 = Inr (True, fs') \<and> table_ok fs' \<and>
    fat_chain (fat_next fs') 3 [3, 5, 4, 6]"
proof -
  have "\<exists>fs'. fatfs_fat_add_cluster_to_chain small_fat 3 6 = Inr (True, fs') \<and> table_ok fs' \<and>
      table_frame small_fat fs' \<and> fat_chain (fat_next fs') 3 ([3, 5, 4] @ [6]) \<and>
      (\<forall>d. d \<noteq> last [3, 5, 4] \<and> d \<noteq> 6 \<longrightarrow> fat_raw fs' d = fat_raw small_fat d)"
    by (rule cluster_appended[OF small_table_ok _ small_chain])
       (simp_all add: as_next_def as_stored_def FAT32_LAST_CLUSTER_def)
  then show ?thesis by simp blast
qed

text \<open>
  The count of free clusters is the number of table entries that are zero, whichever
  sectors are in the buffers.
\<close>

lemma free_clusters_counted:
  assumes "table_ok fs" "fat_entries fs \<le> 2 ^ 32"
  shows "\<exists>fs'. fatfs_count_free_clusters fs =
      Inr (word_of_nat (card {j. j < fat_entries fs \<and> fat_raw fs (word_of_nat j) = 0}), fs') \<and>
     table_ok fs' \<and> table_frame fs fs' \<and> fat_view fs' = fat_view fs"
  by (rule count_free_ok[OF assms])

end
