(* ===== verification/FatContents.thy ===== *)
theory FatContents
  imports FatTableProps FatFile
begin

text \<open>
  The bytes of a file on a FAT volume: those of its cluster chain, one cluster after the
  other. Reading through a handle, with its sector buffer and the cluster found last, gives
  just these bytes.
\<close>

section \<open>The bytes of a chain\<close>

definition cluster_bytes :: "fatfs \<Rightarrow> nat" where
  "cluster_bytes fs = unat (fs_sectors_per_cluster fs) * 512"

definition chain_byte :: "fatfs \<Rightarrow> u32 list \<Rightarrow> nat \<Rightarrow> u8" where
  "chain_byte fs cs i = md_byte (fs_disk_io fs)
     (unat (fatfs_lba_of_cluster fs (cs ! (i div cluster_bytes fs))) * 512 + i mod cluster_bytes fs)"

text \<open>The sectors of a cluster have addresses, and the table is somewhere else.\<close>

definition cluster_apart :: "fatfs \<Rightarrow> u32 \<Rightarrow> bool" where
  "cluster_apart fs c \<longleftrightarrow>
     unat (fatfs_lba_of_cluster fs c) + unat (fs_sectors_per_cluster fs) < 2 ^ 32 \<and>
     (\<forall>j < unat (fs_sectors_per_cluster fs). \<not> in_table fs (fatfs_lba_of_cluster fs c + word_of_nat j))"

definition chain_ok :: "fatfs \<Rightarrow> u32 \<Rightarrow> u32 list \<Rightarrow> bool" where
  "chain_ok fs p cs \<longleftrightarrow> table_ok fs \<and> fs_sectors_per_cluster fs \<noteq> 0 \<and> fat_chain (fat_next fs) p cs \<and>
     (\<forall>c \<in> set cs. covers fs c \<and> cluster_apart fs c)"

lemma frame_lba:
  assumes "table_frame fs fs'"
  shows "fatfs_lba_of_cluster fs' c = fatfs_lba_of_cluster fs c" "cluster_bytes fs' = cluster_bytes fs"
    "cluster_apart fs' c = cluster_apart fs c"
proof -
  note f = table_frame_fields[OF assms]
  show l: "fatfs_lba_of_cluster fs' c = fatfs_lba_of_cluster fs c"
    by (cases "fs_fat_type fs") (simp_all add: fatfs_lba_of_cluster_def f)
  show "cluster_bytes fs' = cluster_bytes fs" by (simp add: cluster_bytes_def f)
  show "cluster_apart fs' c = cluster_apart fs c"
    by (simp add: cluster_apart_def l f in_table_frame[OF assms])
qed

lemma frame_chain_ok:
  assumes "chain_ok fs p cs" "table_frame fs fs'" "fat_view fs' = fat_view fs" "table_ok fs'"
  shows "chain_ok fs' p cs"
  using assms table_frame_fields(1)[OF assms(2)] frame_view(2)[OF assms(2,3)] frame_entries(4)[OF assms(2)]
    frame_lba(3)[OF assms(2)] by (simp add: chain_ok_def)

lemma sector_address:
  assumes "cluster_apart fs c" "j < unat (fs_sectors_per_cluster fs)"
  shows "unat (fatfs_lba_of_cluster fs c + word_of_nat j) = unat (fatfs_lba_of_cluster fs c) + j"
proof -
  have "unat (word_of_nat j :: u32) = j"
    unfolding unat_of_nat by (rule mod_less) (use assms in \<open>simp add: cluster_apart_def\<close>)
  then show ?thesis using assms by (simp add: cluster_apart_def unat_word_ariths)
qed

lemma frame_chain_byte:
  assumes fr: "table_frame fs fs'" and ok: "chain_ok fs p cs" and i: "i < length cs * cluster_bytes fs"
  shows "chain_byte fs' cs i = chain_byte fs cs i"
proof -
  let ?c = "cs ! (i div cluster_bytes fs)" and ?r = "i mod cluster_bytes fs"
  have pos: "0 < cluster_bytes fs" using ok by (simp add: chain_ok_def cluster_bytes_def unat_gt_0)
  have "i div cluster_bytes fs < length cs" using i pos by (simp add: div_less_iff_less_mult)
  then have c: "cluster_apart fs ?c" using ok by (simp add: chain_ok_def)
  have r: "?r < unat (fs_sectors_per_cluster fs) * 512" using pos by (simp add: cluster_bytes_def)
  define j where "j = ?r div 512"
  have j: "j < unat (fs_sectors_per_cluster fs)" using r by (simp add: j_def div_less_iff_less_mult)
  let ?s = "fatfs_lba_of_cluster fs ?c + word_of_nat j"
  have s: "unat ?s = unat (fatfs_lba_of_cluster fs ?c) + j" by (rule sector_address[OF c j])
  have "\<not> in_table fs ?s" using c j by (simp add: cluster_apart_def)
  then have "md_bytes (fs_disk_io fs') (unat ?s) 1 = md_bytes (fs_disk_io fs) (unat ?s) 1"
    using fr by (simp add: table_frame_def)
  then have "md_bytes (fs_disk_io fs') (unat ?s) 1 ! (?r mod 512) = md_bytes (fs_disk_io fs) (unat ?s) 1 ! (?r mod 512)"
    by (rule arg_cong)
  then have "md_byte (fs_disk_io fs') (unat ?s * 512 + ?r mod 512) = md_byte (fs_disk_io fs) (unat ?s * 512 + ?r mod 512)"
    by (simp add: nth_md_bytes)
  moreover have "unat ?s * 512 + ?r mod 512 = unat (fatfs_lba_of_cluster fs ?c) * 512 + ?r"
    by (simp only: s add_mult_distrib) (simp add: j_def)
  ultimately show ?thesis by (simp add: chain_byte_def frame_lba[OF fr])
qed

section \<open>Following a chain\<close>

lemma follow_ok:
  "table_ok fs \<Longrightarrow> fat_chain (fat_next fs) p cs \<Longrightarrow> \<forall>c \<in> set cs. covers fs c \<Longrightarrow> k < length cs \<Longrightarrow>
   \<exists>fs'. follow fs p k = Inr (cs ! k, fs') \<and> table_ok fs' \<and> table_frame fs fs' \<and> fat_view fs' = fat_view fs"
proof (induction k arbitrary: fs p cs)
  case 0
  then show ?case by (cases cs) auto
next
  case (Suc k)
  obtain c ds where cs: "cs = c # ds" using Suc.prems(4) by (cases cs) auto
  have p: "p = c" "c \<noteq> 0" "fat_chain (fat_next fs) (fat_next fs c) ds" using Suc.prems(2) cs by auto
  obtain f1 where f1: "fatfs_find_next_cluster fs c = Inr (fat_next fs c, f1)" "table_ok f1"
    "fat_view f1 = fat_view fs" "table_frame fs f1"
    using find_next_ok[OF Suc.prems(1), of c] Suc.prems(3) p(2) cs by auto
  have "\<exists>fs'. follow f1 (fat_next fs c) k = Inr (ds ! k, fs') \<and> table_ok fs' \<and> table_frame f1 fs' \<and>
      fat_view fs' = fat_view f1"
  proof (rule Suc.IH[OF f1(2)])
    show "fat_chain (fat_next f1) (fat_next fs c) ds" using p(3) frame_view(2)[OF f1(4,3)] by simp
    show "\<forall>c\<in>set ds. covers f1 c" using Suc.prems(3) frame_entries(4)[OF f1(4)] cs by simp
    show "k < length ds" using Suc.prems(4) cs by simp
  qed
  then obtain fs' where "follow f1 (fat_next fs c) k = Inr (ds ! k, fs')" "table_ok fs'" "table_frame f1 fs'"
      "fat_view fs' = fat_view f1" by blast
  then show ?case using f1 p(1) cs table_frame_trans[OF f1(4)] by auto
qed

lemma chain_ok_drop:
  assumes "chain_ok fs p cs" and i: "i < length cs"
  shows "fat_chain (fat_next fs) (cs ! i) (drop i cs)" "\<forall>c \<in> set (drop i cs). covers fs c"
proof -
  have "cs = take i cs @ cs ! i # drop (Suc i) cs" using i by (rule id_take_nth_drop)
  then have "fat_chain (fat_next fs) (cs ! i) (cs ! i # drop (Suc i) cs)"
    using fat_chain_suffix[of "fat_next fs" p "take i cs" "cs ! i" "drop (Suc i) cs"] assms(1)
    by (simp add: chain_ok_def)
  then show "fat_chain (fat_next fs) (cs ! i) (drop i cs)" using Cons_nth_drop_Suc[OF i] by simp
  show "\<forall>c \<in> set (drop i cs). covers fs c" using assms(1) in_set_dropD by (fastforce simp: chain_ok_def)
qed

lemma follow_from:
  assumes "chain_ok fs p cs" "i \<le> k" "k < length cs"
  shows "\<exists>fs'. follow fs (cs ! i) (k - i) = Inr (cs ! k, fs') \<and> table_ok fs' \<and> table_frame fs fs' \<and>
    fat_view fs' = fat_view fs"
proof -
  have i: "i < length cs" using assms by simp
  from follow_ok[OF _ chain_ok_drop(1)[OF assms(1) i] chain_ok_drop(2)[OF assms(1) i], of "k - i"]
  show ?thesis using assms by (simp add: chain_ok_def)
qed

text \<open>The sectors of a chain in one piece, up to the end of a cluster.\<close>

lemma chain_sectors:
  assumes ok: "chain_ok fs p cs" and k: "k < length cs" and n: "s + n \<le> unat (fs_sectors_per_cluster fs)"
    and s: "s < unat (fs_sectors_per_cluster fs)"
  defines "o' \<equiv> k * unat (fs_sectors_per_cluster fs) + s"
  shows "md_bytes (fs_disk_io fs) (unat (fatfs_lba_of_cluster fs (cs ! k) + word_of_nat s)) n =
    map (chain_byte fs cs) [o' * 512 ..< (o' + n) * 512]"
proof (rule nth_equalityI)
  show "length (md_bytes (fs_disk_io fs) (unat (fatfs_lba_of_cluster fs (cs ! k) + word_of_nat s)) n) =
      length (map (chain_byte fs cs) [o' * 512 ..< (o' + n) * 512])" by simp
  fix i assume "i < length (md_bytes (fs_disk_io fs) (unat (fatfs_lba_of_cluster fs (cs ! k) + word_of_nat s)) n)"
  then have i: "i < n * 512" by simp
  have c: "cluster_apart fs (cs ! k)" using ok k by (simp add: chain_ok_def)
  have a: "unat (fatfs_lba_of_cluster fs (cs ! k) + word_of_nat s) = unat (fatfs_lba_of_cluster fs (cs ! k)) + s"
    by (rule sector_address[OF c s])
  have e: "o' * 512 + i = k * cluster_bytes fs + (s * 512 + i)"
    by (simp add: o'_def cluster_bytes_def algebra_simps)
  have "s * 512 + i < cluster_bytes fs"
  proof -
    have "s * 512 + i < (s + n) * 512" using i by simp
    also have "\<dots> \<le> cluster_bytes fs" unfolding cluster_bytes_def by (rule mult_le_mono1[OF n])
    finally show ?thesis .
  qed
  then have d: "(o' * 512 + i) div cluster_bytes fs = k" "(o' * 512 + i) mod cluster_bytes fs = s * 512 + i"
    unfolding e by (simp_all add: mult.commute)
  have "md_bytes (fs_disk_io fs) (unat (fatfs_lba_of_cluster fs (cs ! k) + word_of_nat s)) n ! i =
      md_byte (fs_disk_io fs) (unat (fatfs_lba_of_cluster fs (cs ! k)) * 512 + (s * 512 + i))"
    by (simp only: nth_md_bytes[OF i] a add_mult_distrib add.assoc)
  also have "\<dots> = chain_byte fs cs (o' * 512 + i)" by (simp only: chain_byte_def d)
  also have "\<dots> = map (chain_byte fs cs) [o' * 512 ..< (o' + n) * 512] ! i" using i by simp
  finally show "md_bytes (fs_disk_io fs) (unat (fatfs_lba_of_cluster fs (cs ! k) + word_of_nat s)) n ! i =
      map (chain_byte fs cs) [o' * 512 ..< (o' + n) * 512] ! i" .
qed

section \<open>Handles\<close>

definition file_sectors :: "fatfs \<Rightarrow> u32 list \<Rightarrow> nat" where
  "file_sectors fs cs = length cs * unat (fs_sectors_per_cluster fs)"

definition lookup_ok :: "fl_file \<Rightarrow> u32 list \<Rightarrow> bool" where
  "lookup_ok f cs \<longleftrightarrow> ff_ClusterIdx f = 0xFFFFFFFF \<or>
     unat (ff_ClusterIdx f) < length cs \<and> ff_CurrentCluster f = cs ! unat (ff_ClusterIdx f)"

definition data_ok :: "fatfs \<Rightarrow> fl_file \<Rightarrow> u32 list \<Rightarrow> bool" where
  "data_ok fs f cs \<longleftrightarrow> ff_data_address f = 0xFFFFFFFF \<or>
     unat (ff_data_address f) < file_sectors fs cs \<and>
     ff_data_sector f = map (chain_byte fs cs) [unat (ff_data_address f) * 512 ..< (unat (ff_data_address f) + 1) * 512]"

text \<open>A handle with nothing to write: what it remembers of its chain and its data is right.\<close>

definition handle_ok :: "filelib \<Rightarrow> handle \<Rightarrow> u32 list \<Rightarrow> bool" where
  "handle_ok lib h cs \<longleftrightarrow> chain_ok (fl_fs lib) (ff_startcluster (fl_files lib h)) cs \<and>
     file_sectors (fl_fs lib) cs < 2 ^ 32 - 1 \<and> \<not> ff_data_dirty (fl_files lib h) \<and>
     lookup_ok (fl_files lib h) cs \<and> data_ok (fl_fs lib) (fl_files lib h) cs"

text \<open>What looking for a cluster changes: the buffers of the table and the cluster found last.\<close>

definition lookup_frame :: "filelib \<Rightarrow> filelib \<Rightarrow> handle \<Rightarrow> bool" where
  "lookup_frame lib lib' h \<longleftrightarrow> table_frame (fl_fs lib) (fl_fs lib') \<and> fat_view (fl_fs lib') = fat_view (fl_fs lib) \<and>
     (\<exists>i c. lib' = (fl_upd lib h (set_lookup i c))\<lparr>fl_fs := fl_fs lib'\<rparr>)"

lemma lookup_frame_refl: "lookup_frame lib lib h"
proof -
  let ?f = "fl_files lib h"
  have "set_lookup (ff_ClusterIdx ?f) (ff_CurrentCluster ?f) ?f = ?f" by (cases ?f) (simp add: set_lookup_def)
  then have "(fl_upd lib h (set_lookup (ff_ClusterIdx ?f) (ff_CurrentCluster ?f)))\<lparr>fl_fs := fl_fs lib\<rparr> = lib"
    by (cases lib) (simp add: fl_upd_def)
  then show ?thesis unfolding lookup_frame_def by (metis table_frame_refl)
qed

lemma lookup_frame_fields:
  assumes "lookup_frame lib lib' h"
  shows "ff_startcluster (fl_files lib' h) = ff_startcluster (fl_files lib h)"
    "ff_data_dirty (fl_files lib' h) = ff_data_dirty (fl_files lib h)"
    "ff_data_address (fl_files lib' h) = ff_data_address (fl_files lib h)"
    "ff_data_sector (fl_files lib' h) = ff_data_sector (fl_files lib h)"
    "ff_bytenum (fl_files lib' h) = ff_bytenum (fl_files lib h)"
    "ff_filelength (fl_files lib' h) = ff_filelength (fl_files lib h)"
    "ff_flags (fl_files lib' h) = ff_flags (fl_files lib h)"
    "ff_filelength_changed (fl_files lib' h) = ff_filelength_changed (fl_files lib h)"
    "fl_initialised lib' = fl_initialised lib"
proof -
  obtain i c g where "lib' = (fl_upd lib h (set_lookup i c))\<lparr>fl_fs := g\<rparr>"
    using assms unfolding lookup_frame_def by blast
  then have "fl_files lib' h = set_lookup i c (fl_files lib h)" "fl_initialised lib' = fl_initialised lib"
    by (simp_all add: fl_upd_def)
  then show "ff_startcluster (fl_files lib' h) = ff_startcluster (fl_files lib h)"
    "ff_data_dirty (fl_files lib' h) = ff_data_dirty (fl_files lib h)"
    "ff_data_address (fl_files lib' h) = ff_data_address (fl_files lib h)"
    "ff_data_sector (fl_files lib' h) = ff_data_sector (fl_files lib h)"
    "ff_bytenum (fl_files lib' h) = ff_bytenum (fl_files lib h)"
    "ff_filelength (fl_files lib' h) = ff_filelength (fl_files lib h)"
    "ff_flags (fl_files lib' h) = ff_flags (fl_files lib h)"
    "ff_filelength_changed (fl_files lib' h) = ff_filelength_changed (fl_files lib h)"
    "fl_initialised lib' = fl_initialised lib" by (simp_all add: set_lookup_def)
qed

lemma frame_data_ok:
  assumes "table_frame fs fs'" "chain_ok fs p cs"
  shows "data_ok fs' f cs = data_ok fs f cs" "file_sectors fs' cs = file_sectors fs cs"
proof -
  note f = table_frame_fields(1)[OF assms(1)]
  show s: "file_sectors fs' cs = file_sectors fs cs" by (simp add: file_sectors_def f)
  have "map (chain_byte fs' cs) [a * 512 ..< (a + 1) * 512] = map (chain_byte fs cs) [a * 512 ..< (a + 1) * 512]"
    if "a < file_sectors fs cs" for a
  proof (rule map_cong[OF refl])
    fix i assume "i \<in> set [a * 512 ..< (a + 1) * 512]"
    then have "i < file_sectors fs cs * 512" using that by auto
    then have "i < length cs * cluster_bytes fs" by (simp add: file_sectors_def cluster_bytes_def mult.assoc)
    then show "chain_byte fs' cs i = chain_byte fs cs i" by (rule frame_chain_byte[OF assms])
  qed
  then show "data_ok fs' f cs = data_ok fs f cs" unfolding data_ok_def s by auto
qed

section \<open>Reading sectors\<close>

text \<open>The cluster of a sector and the place in it.\<close>

lemma split_offset:
  fixes n :: u8 and offset :: u32
  assumes "n \<noteq> 0"
  shows "unat (offset div ucast n) = unat offset div unat n"
    "unat (offset - offset div ucast n * ucast n) = unat offset mod unat n"
proof -
  have u: "unat (ucast n :: u32) = unat n" by (rule unat_widen)
  show d: "unat (offset div ucast n) = unat offset div unat n" by (simp add: unat_div u)
  have "offset - offset div ucast n * ucast n = offset mod ucast n"
    by (simp add: minus_div_mult_eq_mod)
  then show "unat (offset - offset div ucast n * ucast n) = unat offset mod unat n" by (simp add: unat_mod u)
qed

text \<open>The part of a request that one cluster answers.\<close>

lemma piece_ok:
  fixes spc :: u8 and offset count :: u32
  assumes nz: "spc \<noteq> 0" and o: "unat offset < k * unat spc" and c: "count \<noteq> 0" "unat count < 2 ^ 24"
  defines "idx \<equiv> offset div ucast spc"
  defines "sec \<equiv> offset - idx * ucast spc"
  defines "n \<equiv> (if ucast spc < sec + count then ucast spc - sec else count)"
  shows "unat idx < k" "unat sec < unat spc" "unat n = min (unat count) (unat spc - unat sec)" "n \<noteq> 0"
    "unat offset = unat idx * unat spc + unat sec" "unat offset + unat n \<le> k * unat spc"
proof -
  let ?S = "unat spc" let ?sw = "ucast spc :: u32"
  have sw: "unat ?sw = ?S" by (rule unat_widen)
  have S: "0 < ?S" "?S < 256" using nz unat_bound[of spc] by (simp_all add: unat_gt_0)
  have si: "unat idx = unat offset div ?S" "unat sec = unat offset mod ?S"
    using split_offset[OF nz, of offset] by (simp_all add: idx_def sec_def)
  show k: "unat idx < k" using o S(1) by (simp add: si div_less_iff_less_mult)
  show sl: "unat sec < ?S" using S(1) by (simp add: si)
  have add: "unat (sec + count) = unat sec + unat count"
    using sl S(2) c(2) by (simp add: unat_word_ariths)
  show n: "unat n = min (unat count) (?S - unat sec)"
  proof (cases "?sw < sec + count")
    case True
    then have "unat (?sw - sec) = ?S - unat sec"
      using sl by (subst unat_sub) (simp_all add: word_le_nat_alt sw)
    then show ?thesis using True add by (simp add: n_def word_less_nat_alt sw)
  next
    case False
    then show ?thesis using add by (simp add: n_def word_less_nat_alt sw)
  qed
  have "0 < unat count" using c(1) by (simp add: unat_gt_0)
  then show "n \<noteq> 0" using n sl by (simp add: unat_eq_0[symmetric] del: unat_eq_0)
  show off: "unat offset = unat idx * ?S + unat sec" by (simp add: si)
  have "unat offset + unat n \<le> unat idx * ?S + ?S" using off n sl by simp
  also have "\<dots> \<le> k * ?S" using mult_le_mono1[of "Suc (unat idx)" k ?S] k by simp
  finally show "unat offset + unat n \<le> k * ?S" .
qed

lemma hint_ok:
  assumes ch: "chain_ok fs (ff_startcluster f) cs" and lk: "lookup_ok f cs" and k: "unat idx < length cs"
  shows "\<exists>i. chain_hint f idx = (i, cs ! unat i) \<and> unat i \<le> unat idx"
proof (cases "idx \<noteq> 0 \<and> idx = ff_ClusterIdx f + 1")
  case True
  then have nz: "ff_ClusterIdx f \<noteq> 0xFFFFFFFF" by auto
  then have "ff_CurrentCluster f = cs ! unat (ff_ClusterIdx f)" using lk by (auto simp: lookup_ok_def)
  moreover have "unat (ff_ClusterIdx f) \<le> unat idx"
    using True nz unat_bound[of "ff_ClusterIdx f"]
    by (simp add: unat_word_ariths word_unat_eq_iff)
  moreover have "chain_hint f idx = (ff_ClusterIdx f, ff_CurrentCluster f)"
    unfolding chain_hint_def using True by (rule if_P)
  ultimately show ?thesis by simp
next
  case False
  have "ff_startcluster f = cs ! 0" using ch k by (cases cs) (auto simp: chain_ok_def)
  then have "chain_hint f idx = (0, cs ! unat (0 :: u32))" using False by (auto simp: chain_hint_def)
  then show ?thesis by auto
qed

lemma find_cluster_ok:
  assumes h: "handle_ok lib file cs" and k: "unat idx < length cs"
  shows "\<exists>lib'. (if idx = ff_ClusterIdx (fl_files lib file) then Inr (ff_CurrentCluster (fl_files lib file), lib)
       else let (i, Cluster) = chain_hint (fl_files lib file) idx in
         andThen (follow (fl_fs lib) Cluster (unat (idx - i))) (\<lambda>(Cluster, fs).
           let lib = lib\<lparr>fl_fs := fs\<rparr> in
           Inr (Cluster, if Cluster \<noteq> FAT32_LAST_CLUSTER then fl_upd lib file (set_lookup idx Cluster) else lib)))
     = Inr (cs ! unat idx, lib') \<and> lookup_frame lib lib' file \<and> table_ok (fl_fs lib') \<and> lookup_ok (fl_files lib' file) cs"
proof -
  let ?f = "fl_files lib file"
  have ch: "chain_ok (fl_fs lib) (ff_startcluster ?f) cs" and lk: "lookup_ok ?f cs"
    and small: "file_sectors (fl_fs lib) cs < 2 ^ 32 - 1" using h by (auto simp: handle_ok_def)
  have fc: "fat_chain (fat_next (fl_fs lib)) (ff_startcluster ?f) cs" using ch by (simp add: chain_ok_def)
  have last: "cs ! unat idx \<noteq> FAT32_LAST_CLUSTER" using fat_chain_nonzero[OF fc, of "cs ! unat idx"] k by simp
  have "length cs \<le> file_sectors (fl_fs lib) cs"
    using ch by (simp add: file_sectors_def chain_ok_def unat_eq_0[symmetric] Suc_le_eq)
  then have lt: "unat idx < 2 ^ 32 - 1" using k small by linarith
  show ?thesis
  proof (cases "idx = ff_ClusterIdx ?f")
    case True
    have "ff_ClusterIdx ?f \<noteq> 0xFFFFFFFF" using True lt by auto
    then have "ff_CurrentCluster ?f = cs ! unat idx" using lk True by (simp add: lookup_ok_def)
    moreover have "lookup_frame lib lib file" by (rule lookup_frame_refl)
    ultimately show ?thesis using True ch lk by (auto simp: chain_ok_def)
  next
    case False
    obtain i where i: "chain_hint ?f idx = (i, cs ! unat i)" "unat i \<le> unat idx"
      using hint_ok[OF ch lk k] by blast
    have "unat (idx - i) = unat idx - unat i" by (rule unat_sub) (use i(2) in \<open>simp add: word_le_nat_alt\<close>)
    then obtain fs' where f: "follow (fl_fs lib) (cs ! unat i) (unat (idx - i)) = Inr (cs ! unat idx, fs')"
      "table_ok fs'" "table_frame (fl_fs lib) fs'" "fat_view fs' = fat_view (fl_fs lib)"
      using follow_from[OF ch i(2) k] by auto
    let ?l = "fl_upd (lib\<lparr>fl_fs := fs'\<rparr>) file (set_lookup idx (cs ! unat idx))"
    have e: "?l = (fl_upd lib file (set_lookup idx (cs ! unat idx)))\<lparr>fl_fs := fs'\<rparr>" by (simp add: fl_upd_def)
    have "fl_fs ?l = fs'" by (simp add: fl_upd_def)
    then have "lookup_frame lib ?l file" unfolding lookup_frame_def using e f(3,4) by metis
    moreover have "lookup_ok (fl_files ?l file) cs" using k by (simp add: lookup_ok_def fl_upd_def set_lookup_def)
    moreover have "table_ok (fl_fs ?l)" using f by (simp add: fl_upd_def)
    ultimately show ?thesis using False i(1) f(1) last by (auto simp: Let_def)
  qed
qed

lemma frame_handle_ok:
  assumes h: "handle_ok lib file cs" and f: "lookup_frame lib lib' file" "table_ok (fl_fs lib')" "lookup_ok (fl_files lib' file) cs"
  shows "handle_ok lib' file cs"
proof -
  have fr: "table_frame (fl_fs lib) (fl_fs lib')" "fat_view (fl_fs lib') = fat_view (fl_fs lib)"
    using f(1) by (auto simp: lookup_frame_def)
  have ch: "chain_ok (fl_fs lib) (ff_startcluster (fl_files lib file)) cs" using h by (simp add: handle_ok_def)
  note fl = lookup_frame_fields[OF f(1)]
  show ?thesis
    using h frame_chain_ok[OF ch fr f(2)] frame_data_ok[OF fr(1) ch] f(3)
    by (simp add: handle_ok_def fl data_ok_def)
qed

lemma read_sectors_ok:
  assumes h: "handle_ok lib file cs" and o: "unat offset < file_sectors (fl_fs lib) cs"
    and c: "count \<noteq> 0" "unat count < 2 ^ 24"
  shows "\<exists>n lib'. read_sectors lib file offset count =
      Inr (Some (n, map (chain_byte (fl_fs lib) cs) [unat offset * 512 ..< (unat offset + unat n) * 512]), lib') \<and>
    n \<noteq> 0 \<and> unat n \<le> unat count \<and> unat offset + unat n \<le> file_sectors (fl_fs lib) cs \<and>
    lookup_frame lib lib' file \<and> handle_ok lib' file cs"
proof -
  let ?fs = "fl_fs lib" let ?spc = "fs_sectors_per_cluster ?fs" let ?S = "unat ?spc"
  let ?sw = "ucast ?spc :: u32"
  define idx where "idx = offset div ?sw"
  define sec where "sec = offset - idx * ?sw"
  define n where "n = (if ?sw < sec + count then ?sw - sec else count)"
  have ch: "chain_ok ?fs (ff_startcluster (fl_files lib file)) cs" using h by (simp add: handle_ok_def)
  have nz: "?spc \<noteq> 0" using ch by (simp add: chain_ok_def)
  note pc = piece_ok[OF nz o[unfolded file_sectors_def] c, folded idx_def, folded sec_def, folded n_def]
  note k = pc(1) and sl = pc(2) and n = pc(3) and n0 = pc(4) and off = pc(5)
  obtain lib' where l: "(if idx = ff_ClusterIdx (fl_files lib file) then Inr (ff_CurrentCluster (fl_files lib file), lib)
       else let (i, Cluster) = chain_hint (fl_files lib file) idx in
         andThen (follow (fl_fs lib) Cluster (unat (idx - i))) (\<lambda>(Cluster, fs).
           let lib = lib\<lparr>fl_fs := fs\<rparr> in
           Inr (Cluster, if Cluster \<noteq> FAT32_LAST_CLUSTER then fl_upd lib file (set_lookup idx Cluster) else lib)))
     = Inr (cs ! unat idx, lib')" and f: "lookup_frame lib lib' file" "table_ok (fl_fs lib')" "lookup_ok (fl_files lib' file) cs"
    using find_cluster_ok[OF h k] by blast
  have h': "handle_ok lib' file cs" by (rule frame_handle_ok[OF h f])
  have fr: "table_frame ?fs (fl_fs lib')" using f(1) by (simp add: lookup_frame_def)
  have fc: "fat_chain (fat_next ?fs) (ff_startcluster (fl_files lib file)) cs" using ch by (simp add: chain_ok_def)
  have last: "cs ! unat idx \<noteq> FAT32_LAST_CLUSTER" using fat_chain_nonzero[OF fc, of "cs ! unat idx"] k by simp
  have ch': "chain_ok (fl_fs lib') (ff_startcluster (fl_files lib' file)) cs" using h' by (simp add: handle_ok_def)
  note spc' = table_frame_fields(1)[OF fr]
  have "md_bytes (fs_disk_io (fl_fs lib')) (unat (fatfs_lba_of_cluster (fl_fs lib') (cs ! unat idx) + sec)) (unat n) =
      map (chain_byte (fl_fs lib') cs) [unat offset * 512 ..< (unat offset + unat n) * 512]"
    using chain_sectors[OF ch' k, of "unat sec" "unat n"] sl n by (simp add: spc' off)
  also have "\<dots> = map (chain_byte ?fs cs) [unat offset * 512 ..< (unat offset + unat n) * 512]"
  proof (rule map_cong[OF refl])
    fix i assume "i \<in> set [unat offset * 512 ..< (unat offset + unat n) * 512]"
    then have "i < (unat offset + unat n) * 512" by simp
    also have "\<dots> \<le> (unat idx * ?S + ?S) * 512" using off n sl by simp
    also have "\<dots> \<le> length cs * ?S * 512"
      using mult_le_mono1[of "Suc (unat idx)" "length cs" ?S] k by simp
    finally have "i < length cs * cluster_bytes ?fs" by (simp add: cluster_bytes_def mult.assoc)
    then show "chain_byte (fl_fs lib') cs i = chain_byte ?fs cs i" by (rule frame_chain_byte[OF fr ch])
  qed
  finally have data: "md_bytes (fs_disk_io (fl_fs lib')) (unat (fatfs_lba_of_cluster (fl_fs lib') (cs ! unat idx) + sec)) (unat n) =
      map (chain_byte ?fs cs) [unat offset * 512 ..< (unat offset + unat n) * 512]" .
  have rel: "md_can_read (fs_disk_io (fl_fs lib'))" "\<not> md_rd_err (fs_disk_io (fl_fs lib')) a b" for a b
    using f(2) by (simp_all add: table_ok_def reliable_def)
  have sw: "unat ?sw = ?S" by (rule unat_widen)
  have "?sw \<noteq> 0" using nz sw by (metis unat_0 unat_eq_0)
  then have "read_sectors lib file offset count =
      Inr (Some (n, map (chain_byte ?fs cs) [unat offset * 512 ..< (unat offset + unat n) * 512]), lib')"
    unfolding read_sectors_def Let_def idx_def[symmetric] sec_def[symmetric] n_def[symmetric]
    using l[unfolded Let_def] last n0 rel data
    by (simp add: fatfs_sector_read_def media_read_def)
  moreover have "unat offset + unat n \<le> file_sectors ?fs cs" using pc(6) by (simp add: file_sectors_def)
  moreover have "unat n \<le> unat count" using n by simp
  ultimately show ?thesis using n0 f(1) h' by blast
qed

section \<open>Reading a file\<close>

text \<open>What reading \<open>k\<close> bytes leaves alone: everything but position, buffer and look-ups.\<close>

definition read_frame :: "filelib \<Rightarrow> filelib \<Rightarrow> handle \<Rightarrow> nat \<Rightarrow> bool" where
  "read_frame lib lib' h k \<longleftrightarrow> table_frame (fl_fs lib) (fl_fs lib') \<and> fat_view (fl_fs lib') = fat_view (fl_fs lib) \<and>
     ff_startcluster (fl_files lib' h) = ff_startcluster (fl_files lib h) \<and>
     ff_filelength (fl_files lib' h) = ff_filelength (fl_files lib h) \<and>
     ff_flags (fl_files lib' h) = ff_flags (fl_files lib h) \<and>
     ff_filelength_changed (fl_files lib' h) = ff_filelength_changed (fl_files lib h) \<and>
     ff_bytenum (fl_files lib' h) = ff_bytenum (fl_files lib h) + word_of_nat k \<and>
     fl_initialised lib' = fl_initialised lib"

lemma read_frame_refl: "read_frame lib lib h 0"
  by (simp add: read_frame_def)

lemma read_frame_trans: "read_frame lib l1 h j \<Longrightarrow> read_frame l1 l2 h k \<Longrightarrow> read_frame lib l2 h (j + k)"
  unfolding read_frame_def using table_frame_trans by (auto simp: add.assoc)

lemma lookup_read_frame: "lookup_frame lib l1 h \<Longrightarrow> read_frame lib l1 h 0"
  using lookup_frame_fields[of lib l1 h] by (simp add: read_frame_def lookup_frame_def)

lemma advance_frame:
  assumes "handle_ok lib h cs"
  shows "read_frame lib (fl_upd lib h (bump (word_of_nat k))) h k" "handle_ok (fl_upd lib h (bump (word_of_nat k))) h cs"
  using assms by (simp_all add: read_frame_def fl_upd_def bump_def handle_ok_def lookup_ok_def data_ok_def)

lemma cache_sector_ok:
  assumes "handle_ok lib h cs" "unat sector < file_sectors (fl_fs lib) cs"
    "bs = map (chain_byte (fl_fs lib) cs) [unat sector * 512 ..< (unat sector + 1) * 512]"
  defines "l1 \<equiv> fl_upd lib h (\<lambda>f. f\<lparr>ff_data_sector := bs, ff_data_address := sector, ff_data_dirty := False\<rparr>)"
  shows "handle_ok l1 h cs" "read_frame lib l1 h 0" "ff_data_sector (fl_files l1 h) = bs"
  using assms by (auto simp: read_frame_def fl_upd_def handle_ok_def lookup_ok_def data_ok_def)

text \<open>The bytes of a chain do not depend on the buffers of the table.\<close>

lemma map_chain_byte_frame:
  assumes h: "handle_ok lib h cs" and f: "read_frame lib l1 h k" and b: "b \<le> file_sectors (fl_fs lib) cs * 512"
  shows "map (chain_byte (fl_fs l1) cs) [a..<b] = map (chain_byte (fl_fs lib) cs) [a..<b]"
    "file_sectors (fl_fs l1) cs = file_sectors (fl_fs lib) cs"
proof -
  have fr: "table_frame (fl_fs lib) (fl_fs l1)" using f by (simp add: read_frame_def)
  have ch: "chain_ok (fl_fs lib) (ff_startcluster (fl_files lib h)) cs" using h by (simp add: handle_ok_def)
  show "file_sectors (fl_fs l1) cs = file_sectors (fl_fs lib) cs" by (rule frame_data_ok(2)[OF fr ch])
  show "map (chain_byte (fl_fs l1) cs) [a..<b] = map (chain_byte (fl_fs lib) cs) [a..<b]"
  proof (rule map_cong[OF refl])
    fix i assume "i \<in> set [a..<b]"
    then have "i < length cs * cluster_bytes (fl_fs lib)"
      using b by (simp add: file_sectors_def cluster_bytes_def mult.assoc)
    then show "chain_byte (fl_fs l1) cs i = chain_byte (fl_fs lib) cs i" by (rule frame_chain_byte[OF fr ch])
  qed
qed

text \<open>The sector buffer after the part of a turn that fills it.\<close>

lemma fill_buffer_ok:
  assumes h: "handle_ok lib h cs" and s: "unat sector < file_sectors (fl_fs lib) cs"
  shows "\<exists>l1. (if ff_data_address (fl_files lib h) \<noteq> sector then
             andThen (if ff_data_dirty (fl_files lib h) then fl_fflush lib (Some h) else Inr lib) (\<lambda>lib.
             andThen (read_sectors lib h sector 1) (\<lambda>(r, lib). case r of
                 None \<Rightarrow> Inr (False, lib)
               | Some (_, bs) \<Rightarrow> Inr (True, fl_upd lib h (\<lambda>f. f\<lparr>ff_data_sector := bs, ff_data_address := sector,
                     ff_data_dirty := False\<rparr>))))
           else Inr (True, lib)) = Inr (True, l1) \<and> handle_ok l1 h cs \<and> read_frame lib l1 h 0 \<and>
     ff_data_sector (fl_files l1 h) = map (chain_byte (fl_fs lib) cs) [unat sector * 512 ..< (unat sector + 1) * 512]"
proof (cases "ff_data_address (fl_files lib h) = sector")
  case True
  have "file_sectors (fl_fs lib) cs < 2 ^ 32 - 1" using h by (simp add: handle_ok_def)
  then have "sector \<noteq> 0xFFFFFFFF" using s by auto
  then have "ff_data_sector (fl_files lib h) = map (chain_byte (fl_fs lib) cs) [unat sector * 512 ..< (unat sector + 1) * 512]"
    using h True by (simp add: handle_ok_def data_ok_def)
  then show ?thesis using True h read_frame_refl by auto
next
  case False
  let ?bs = "map (chain_byte (fl_fs lib) cs) [unat sector * 512 ..< (unat sector + 1) * 512]"
  obtain n l0 where r: "read_sectors lib h sector 1 =
      Inr (Some (n, map (chain_byte (fl_fs lib) cs) [unat sector * 512 ..< (unat sector + unat n) * 512]), l0)"
    "n \<noteq> 0" "unat n \<le> 1" "lookup_frame lib l0 h" "handle_ok l0 h cs"
    using read_sectors_ok[OF h s, of 1] by auto
  have "0 < unat n" using r(2) by (simp add: unat_gt_0)
  then have n: "unat n = 1" using r(3) by linarith
  have bs: "read_sectors lib h sector 1 = Inr (Some (n, ?bs), l0)" unfolding r(1) n by (rule refl)
  have f0: "read_frame lib l0 h 0" by (rule lookup_read_frame[OF r(4)])
  have "(unat sector + 1) * 512 \<le> file_sectors (fl_fs lib) cs * 512" using s by simp
  note m = map_chain_byte_frame[OF h f0 this]
  have s0: "unat sector < file_sectors (fl_fs l0) cs" using s m(2) by simp
  note c = cache_sector_ok[OF r(5) s0, of ?bs, unfolded m(1), OF refl]
  let ?l = "fl_upd l0 h (\<lambda>f. f\<lparr>ff_data_sector := ?bs, ff_data_address := sector, ff_data_dirty := False\<rparr>)"
  have "read_frame lib ?l h 0" using read_frame_trans[OF f0 c(2)] by (simp only: add_0_right)
  moreover have "\<not> ff_data_dirty (fl_files lib h)" using h by (simp add: handle_ok_def)
  ultimately show ?thesis using False bs c(1,3) by auto
qed

lemma upt_glue: "a \<le> b \<Longrightarrow> b \<le> c \<Longrightarrow> map f [a..<b] @ map f [b..<c] = map f [a..<c]"
  by (metis map_append le_add_diff_inverse upt_add_eq_append)

lemma fread_loop_ok:
  assumes "handle_ok lib h cs" "int (length out) + int r = count" "count < 2 ^ 31"
    "r = 0 \<or> unat sector * 512 + offset = q \<and> offset < 512 \<and> q + r \<le> file_sectors (fl_fs lib) cs * 512" "r < fuel"
  shows "\<exists>lib'. fread_loop fuel lib h sector offset count out = Inr (out @ map (chain_byte (fl_fs lib) cs) [q..<q + r], lib') \<and>
    handle_ok lib' h cs \<and> read_frame lib lib' h r"
  using assms
proof (induction fuel arbitrary: lib sector offset out r q)
  case 0
  then show ?case by simp
next
  case (Suc fuel)
  show ?case
  proof (cases "r = 0")
    case True
    then show ?thesis using Suc.prems read_frame_refl by auto
  next
    case False
    then have q: "unat sector * 512 + offset = q" "offset < 512" "q + r \<le> file_sectors (fl_fs lib) cs * 512"
      using Suc.prems(4) by auto
    have le: "int (length out) < count" "count - int (length out) = int r" using Suc.prems(2) False by auto
    have fs: "file_sectors (fl_fs lib) cs < 2 ^ 32 - 1" using Suc.prems(1) by (simp add: handle_ok_def)
    have s: "unat sector < file_sectors (fl_fs lib) cs" using q False by linarith
    show ?thesis
    proof (cases "offset = 0 \<and> 512 \<le> r")
      case True
      define c :: u32 where "c = word_of_int (int r div 512)"
      have "int r div 512 = int (r div 512)" by (simp add: zdiv_int)
      then have c: "c = word_of_nat (r div 512)" by (simp add: c_def)
      have rb: "r div 512 < 2 ^ 22" using Suc.prems(2,3) by (simp add: div_less_iff_less_mult)
      have uc: "unat c = r div 512" unfolding c unat_of_nat by (rule mod_less) (use rb in simp)
      have "0 < unat c" using True uc by (simp add: div_greater_zero_iff)
      then have c0: "c \<noteq> 0" "unat c < 2 ^ 24" using rb uc by auto
      obtain n l0 where rd: "read_sectors lib h sector c =
          Inr (Some (n, map (chain_byte (fl_fs lib) cs) [unat sector * 512 ..< (unat sector + unat n) * 512]), l0)"
        "n \<noteq> 0" "unat n \<le> unat c" "unat sector + unat n \<le> file_sectors (fl_fs lib) cs"
        "lookup_frame lib l0 h" "handle_ok l0 h cs"
        using read_sectors_ok[OF Suc.prems(1) s c0] by blast
      let ?k = "512 * unat n"
      have k: "?k \<le> r" "0 < ?k" using rd(2,3) uc by (auto simp: unat_gt_0)
      have f0: "read_frame lib l0 h 0" by (rule lookup_read_frame[OF rd(5)])
      have b: "512 * n = word_of_nat ?k" by simp
      let ?l = "fl_upd l0 h (bump (512 * n))"
      have f1: "read_frame lib ?l h ?k" "handle_ok ?l h cs"
        unfolding b using read_frame_trans[OF f0 advance_frame(1)[OF rd(6), of ?k]] advance_frame(2)[OF rd(6), of ?k]
        by (simp_all only: add_0)
      have us: "unat (sector + n) = unat sector + unat n" using rd(4) fs by (simp add: unat_word_ariths)
      note m = map_chain_byte_frame[OF Suc.prems(1) f1(1) q(3)]
      have q0: "q = unat sector * 512" using q(1) True by simp
      let ?o = "out @ map (chain_byte (fl_fs lib) cs) [q..<q + ?k]"
      have "\<exists>lib'. fread_loop fuel ?l h (sector + n) 0 count ?o =
          Inr (?o @ map (chain_byte (fl_fs ?l) cs) [q + ?k..<q + ?k + (r - ?k)], lib') \<and>
          handle_ok lib' h cs \<and> read_frame ?l lib' h (r - ?k)"
      proof (rule Suc.IH[OF f1(2)])
        show "int (length ?o) + int (r - ?k) = count" using le(2) k(1) by simp
        show "r - ?k = 0 \<or> unat (sector + n) * 512 + 0 = q + ?k \<and> 0 < (512 :: nat) \<and>
            q + ?k + (r - ?k) \<le> file_sectors (fl_fs ?l) cs * 512"
          using us q0 k(1) q(3) m(2) by simp
        show "r - ?k < fuel" using k Suc.prems(5) by linarith
        show "count < 2 ^ 31" by (rule Suc.prems(3))
      qed
      then obtain lib' where l: "fread_loop fuel ?l h (sector + n) 0 count ?o =
          Inr (?o @ map (chain_byte (fl_fs ?l) cs) [q + ?k..<q + ?k + (r - ?k)], lib')"
          "handle_ok lib' h cs" "read_frame ?l lib' h (r - ?k)" by blast
      have e: "?o @ map (chain_byte (fl_fs ?l) cs) [q + ?k..<q + ?k + (r - ?k)] =
          out @ map (chain_byte (fl_fs lib) cs) [q..<q + r]"
        unfolding le_add_diff_inverse[OF k(1)] add.assoc m(1) append_assoc by (subst upt_glue) (use k(1) in simp_all)
      have "fread_loop (Suc fuel) lib h sector offset count out = fread_loop fuel ?l h (sector + n) 0 count ?o"
        using le rd(1) True q0 by (simp add: c_def[symmetric] algebra_simps)
      moreover have "read_frame lib lib' h r"
        using read_frame_trans[OF f1(1) l(3)] k(1) by simp
      ultimately show ?thesis using l(1,2) e by simp
    next
      case False
      define k where "k = min (512 - offset) r"
      have k: "0 < k" "k \<le> r" "offset + k \<le> 512" using q(2) \<open>r \<noteq> 0\<close> by (simp_all add: k_def)
      have kk: "nat (min (512 - int offset) (count - int (length out))) = k"
        unfolding le(2) k_def using q(2) by linarith
      obtain l1 where l1: "(if ff_data_address (fl_files lib h) \<noteq> sector then
             andThen (if ff_data_dirty (fl_files lib h) then fl_fflush lib (Some h) else Inr lib) (\<lambda>lib.
             andThen (read_sectors lib h sector 1) (\<lambda>(r, lib). case r of
                 None \<Rightarrow> Inr (False, lib)
               | Some (_, bs) \<Rightarrow> Inr (True, fl_upd lib h (\<lambda>f. f\<lparr>ff_data_sector := bs, ff_data_address := sector,
                     ff_data_dirty := False\<rparr>))))
           else Inr (True, lib)) = Inr (True, l1)" "handle_ok l1 h cs" "read_frame lib l1 h 0"
        "ff_data_sector (fl_files l1 h) = map (chain_byte (fl_fs lib) cs) [unat sector * 512 ..< (unat sector + 1) * 512]"
        using fill_buffer_ok[OF Suc.prems(1) s] by blast
      have part: "slice_of offset k (ff_data_sector (fl_files l1 h)) = map (chain_byte (fl_fs lib) cs) [q..<q + k]"
        unfolding l1(4) q(1)[symmetric] slice_of_def
        by (rule nth_equalityI) (use k(3) in \<open>auto simp: algebra_simps\<close>)
      let ?l = "fl_upd l1 h (bump (word_of_nat k))"
      have f1: "read_frame lib ?l h k" "handle_ok ?l h cs"
        using read_frame_trans[OF l1(3) advance_frame(1)[OF l1(2)]] advance_frame(2)[OF l1(2)] by simp_all
      note m = map_chain_byte_frame[OF Suc.prems(1) f1(1) q(3)]
      let ?o = "out @ map (chain_byte (fl_fs lib) cs) [q..<q + k]"
      have us: "unat (sector + 1) = unat sector + 1" using s fs by (simp add: unat_word_ariths)
      have "\<exists>lib'. fread_loop fuel ?l h (sector + 1) 0 count ?o =
          Inr (?o @ map (chain_byte (fl_fs ?l) cs) [q + k..<q + k + (r - k)], lib') \<and>
          handle_ok lib' h cs \<and> read_frame ?l lib' h (r - k)"
      proof (rule Suc.IH[OF f1(2)])
        show "int (length ?o) + int (r - k) = count" using le(2) k(2) by simp
        show "r - k = 0 \<or> unat (sector + 1) * 512 + 0 = q + k \<and> 0 < (512 :: nat) \<and>
            q + k + (r - k) \<le> file_sectors (fl_fs ?l) cs * 512"
          using us q k m(2) by (auto simp: k_def min_def split: if_splits)
        show "r - k < fuel" using k Suc.prems(5) by linarith
        show "count < 2 ^ 31" by (rule Suc.prems(3))
      qed
      then obtain lib' where l: "fread_loop fuel ?l h (sector + 1) 0 count ?o =
          Inr (?o @ map (chain_byte (fl_fs ?l) cs) [q + k..<q + k + (r - k)], lib')"
          "handle_ok lib' h cs" "read_frame ?l lib' h (r - k)" by blast
      have e: "?o @ map (chain_byte (fl_fs ?l) cs) [q + k..<q + k + (r - k)] =
          out @ map (chain_byte (fl_fs lib) cs) [q..<q + r]"
        unfolding le_add_diff_inverse[OF k(2)] add.assoc m(1) append_assoc by (subst upt_glue) (use k(2) in simp_all)
      have nc: "(offset = 0 \<and> (512 :: int) \<le> int r) = False" using False by auto
      have "fread_loop (Suc fuel) lib h sector offset count out = fread_loop fuel ?l h (sector + 1) 0 count ?o"
        using le(1) unfolding fread_loop.simps le(2) l1(1) nc
        by (simp add: kk[unfolded le(2)] part Let_def)
      moreover have "read_frame lib lib' h r"
        using read_frame_trans[OF f1(1) l(3)] k(2) by simp
      ultimately show ?thesis using l(1,2) e by simp
    qed
  qed
qed

lemma fread_content_ok:
  fixes lib h cs
  defines "f \<equiv> fl_files lib h"
  assumes i: "fl_initialised lib" and h: "handle_ok lib h cs" and r: "ff_flags f AND FILE_READ \<noteq> 0"
    and l: "unat (ff_filelength f) \<le> file_sectors (fl_fs lib) cs * 512" and p: "ff_bytenum f < ff_filelength f"
    and c: "0 < fsize * flength" "fsize * flength < 2 ^ 31" "int (unat (ff_bytenum f)) + fsize * flength < 2 ^ 32"
  defines "n \<equiv> min (nat (fsize * flength)) (unat (ff_filelength f) - unat (ff_bytenum f))"
  shows "\<exists>lib'. fl_fread lib fsize flength (Some h) =
      Inr (int n, map (chain_byte (fl_fs lib) cs) [unat (ff_bytenum f) ..< unat (ff_bytenum f) + n], lib') \<and>
    handle_ok lib' h cs \<and> read_frame lib lib' h n"
proof -
  let ?c = "fsize * flength" let ?b = "ff_bytenum f" let ?e = "ff_filelength f"
  have lt: "unat ?b < unat ?e" using p by (simp add: word_less_nat_alt)
  obtain m where m: "?c = int m" "0 < m" "m < 2 ^ 31" using c(1,2) zero_less_imp_eq_int by force
  have um: "unat (word_of_nat m :: u32) = m" unfolding unat_of_nat by (rule mod_less) (use m in simp)
  have ub: "unat (?b + word_of_nat m) = unat ?b + m"
  proof -
    have "int (unat ?b + m) < int (2 ^ 32)" using c(3) unfolding m(1) of_nat_add of_nat_power of_nat_numeral .
    then have "unat ?b + m < 2 ^ 32" unfolding of_nat_less_iff .
    then show ?thesis using um by (simp add: unat_word_ariths)
  qed
  have ue: "unat (?e - ?b) = unat ?e - unat ?b" using lt by (subst unat_sub) (simp_all add: word_le_nat_alt)
  have cnt: "(if ?e < ?b + word_of_int ?c then sint (?e - ?b) else ?c) = int n"
  proof (cases "?e < ?b + word_of_int ?c")
    case True
    then have d: "unat ?e - unat ?b < m" using ub lt m(1) by (simp add: word_less_nat_alt)
    have "uint (?e - ?b) = int (unat (?e - ?b))" by simp
    then have "uint (?e - ?b) = int (unat ?e - unat ?b)" unfolding ue .
    then have "sint (?e - ?b) = int (unat ?e - unat ?b)"
      unfolding sint_uint using d m(3) by (simp add: signed_take_bit_int_eq_self)
    then show ?thesis using True d m by (simp add: n_def)
  next
    case False
    then have "m \<le> unat ?e - unat ?b" using ub m(1) by (simp add: word_less_nat_alt)
    then show ?thesis using False m by (simp add: n_def)
  qed
  have n: "n \<le> m" "n < 2 ^ 31" "unat ?b + n \<le> unat ?e" using m lt by (simp_all add: n_def)
  have "\<exists>lib'. fread_loop (Suc (nat (int n))) lib h (?b div 512) (unat (?b mod 512)) (int n) [] =
      Inr ([] @ map (chain_byte (fl_fs lib) cs) [unat ?b..<unat ?b + n], lib') \<and> handle_ok lib' h cs \<and> read_frame lib lib' h n"
  proof (rule fread_loop_ok[OF h])
    show "n = 0 \<or> unat (?b div 512) * 512 + unat (?b mod 512) = unat ?b \<and> unat (?b mod 512) < 512 \<and>
        unat ?b + n \<le> file_sectors (fl_fs lib) cs * 512"
      using n(3) l by (simp add: unat_div unat_mod)
  qed (use n in simp_all)
  then obtain lib' where L: "fread_loop (Suc (nat (int n))) lib h (?b div 512) (unat (?b mod 512)) (int n) [] =
      Inr (map (chain_byte (fl_fs lib) cs) [unat ?b..<unat ?b + n], lib')" and f: "handle_ok lib' h cs" "read_frame lib lib' h n"
    by auto
  have "\<not> ?e \<le> ?b" using p by (simp add: not_le)
  moreover have "\<not> (?c < - (2 ^ 31) \<or> 2 ^ 31 \<le> ?c)" "\<not> (?c = 0)" using c(1,2) by linarith+
  moreover have "CHECK_FL_INIT lib = lib" using i by (simp add: CHECK_FL_INIT_def)
  ultimately have "fl_fread lib fsize flength (Some h) =
      andThen (fread_loop (Suc (nat (int n))) lib h (?b div 512) (unat (?b mod 512)) (int n) [])
        (\<lambda>(out, lib). Inr (int (length out), out, lib))"
    using r unfolding fl_fread_def Let_def by (simp only: f_def[symmetric] cnt option.case if_False)
  then show ?thesis unfolding L using f by simp
qed

section \<open>An open file\<close>

text \<open>The chain 3, 5, 4 of the small volume as a file of 1200 bytes, at position 510.\<close>

definition small_file :: fl_file where
  "small_file = \<lparr>ff_parentcluster = 0, ff_startcluster = 3, ff_bytenum = 510, ff_filelength = 1200,
     ff_filelength_changed = False, ff_path = [], ff_filename = [65], ff_shortfilename = replicate 11 32,
     ff_ClusterIdx = 0xFFFFFFFF, ff_CurrentCluster = 0xFFFFFFFF, ff_data_sector = replicate 512 0,
     ff_data_address = 0xFFFFFFFF, ff_data_dirty = False, ff_flags = FILE_READ\<rparr>"

definition small_lib :: filelib where
  "small_lib = fl_init \<lparr>fl_files = (\<lambda>_. small_file), fl_initialised = True, fl_valid = True, fl_fs = small_fat,
     fl_nodes = (\<lambda>_. \<lparr>fn_previous = None, fn_next = None\<rparr>), fl_open_list = fat_list_init, fl_free_list = fat_list_init\<rparr>"

lemma small_lib_fields [simp]:
  "fl_files small_lib h = small_file" "fl_fs small_lib = small_fat" "fl_initialised small_lib" "fl_valid small_lib"
  by (simp_all add: small_lib_def fl_init_def split: prod.split)

lemma small_lba: "fatfs_lba_of_cluster small_fat c = 2 + (c - 2)"
  by (simp add: fatfs_lba_of_cluster_def)

lemma small_handle_ok: "handle_ok small_lib h [3, 5, 4]"
proof -
  have "chain_ok small_fat 3 [3, 5, 4]"
    unfolding chain_ok_def by (intro conjI small_table_ok small_chain)
      (simp_all add: cluster_apart_def small_lba in_table_def)
  then show ?thesis
    by (simp add: handle_ok_def small_file_def file_sectors_def lookup_ok_def data_ok_def)
qed

text \<open>
  C13: \<open>fl_fread\<close> returns the bytes of the file from its position on, as many as asked for or
  as the file has left, in the order of the clusters of its chain and whatever mixture of
  whole sectors and parts of sectors they are read by; the position moves past them, and
  nothing but the buffers of the table and of the handle changes.
\<close>

theorem fread_content:
  assumes "fl_initialised lib" "handle_ok lib h cs" "ff_flags (fl_files lib h) AND FILE_READ \<noteq> 0"
    "unat (ff_filelength (fl_files lib h)) \<le> file_sectors (fl_fs lib) cs * 512"
    "ff_bytenum (fl_files lib h) < ff_filelength (fl_files lib h)"
    "0 < fsize * flength" "fsize * flength < 2 ^ 31" "int (unat (ff_bytenum (fl_files lib h))) + fsize * flength < 2 ^ 32"
    "n = min (nat (fsize * flength)) (unat (ff_filelength (fl_files lib h)) - unat (ff_bytenum (fl_files lib h)))"
  shows "\<exists>lib'. fl_fread lib fsize flength (Some h) =
      Inr (int n, map (chain_byte (fl_fs lib) cs)
        [unat (ff_bytenum (fl_files lib h)) ..< unat (ff_bytenum (fl_files lib h)) + n], lib') \<and>
    handle_ok lib' h cs \<and> read_frame lib lib' h n"
  unfolding assms(9) by (rule fread_content_ok[OF assms(1-8)])

lemma fread_content_witness:
  "\<exists>lib'. fl_fread small_lib 1 4 (Some 0) = Inr (4, [3, 3, 5, 5], lib') \<and> ff_bytenum (fl_files lib' 0) = 514"
proof -
  have bytes: "map (chain_byte small_fat [3, 5, 4]) [510..<514] = [3, 3, 5, 5]"
    by (simp add: upt_conv_Cons chain_byte_def cluster_bytes_def small_lba small_byte_def)
  have "\<exists>lib'. fl_fread small_lib 1 4 (Some 0) =
      Inr (int 4, map (chain_byte (fl_fs small_lib) [3, 5, 4])
        [unat (ff_bytenum (fl_files small_lib 0)) ..< unat (ff_bytenum (fl_files small_lib 0)) + 4], lib') \<and>
    handle_ok lib' 0 [3, 5, 4] \<and> read_frame small_lib lib' 0 4"
    by (rule fread_content) (simp_all add: small_handle_ok small_file_def FILE_READ_def file_sectors_def)
  then show ?thesis using bytes by (auto simp: small_file_def read_frame_def)
qed

end
