(* ===== verification/FatSearch.thy ===== *)
theory FatSearch
  imports FatContents
begin

text \<open>
  Directories as lists of entries: the loops of \<open>fat_access.c\<close> over the sectors of a directory
  look at the entries of its cluster chain in order, whatever the buffers hold.
\<close>

section \<open>The buffer of the volume\<close>

text \<open>What the volume is apart from its buffer for one sector.\<close>

lemma current_irrelevant [simp]:
  "fat_view (fs\<lparr>fs_currentsector := b\<rparr>) = fat_view fs" "in_table (fs\<lparr>fs_currentsector := b\<rparr>) = in_table fs"
  "table_ok (fs\<lparr>fs_currentsector := b\<rparr>) = table_ok fs" "fat_next (fs\<lparr>fs_currentsector := b\<rparr>) = fat_next fs"
  "covers (fs\<lparr>fs_currentsector := b\<rparr>) = covers fs"
  "fatfs_lba_of_cluster (fs\<lparr>fs_currentsector := b\<rparr>) = fatfs_lba_of_cluster fs"
  "cluster_bytes (fs\<lparr>fs_currentsector := b\<rparr>) = cluster_bytes fs"
  "file_sectors (fs\<lparr>fs_currentsector := b\<rparr>) = file_sectors fs"
  "fat_entries (fs\<lparr>fs_currentsector := b\<rparr>) = fat_entries fs"
  by (simp_all add: fun_eq_iff fat_view_def in_table_def table_ok_def buffer_ok_def fat_next_def fat_raw_def
      covers_def entry_sector_def fat_sector_offset_def fat_position_def fatfs_lba_of_cluster_def cluster_bytes_def
      file_sectors_def fat_entries_def cong: option.case_cong tFatType.case_cong)

lemma current_chain [simp]:
  "chain_ok (fs\<lparr>fs_currentsector := b\<rparr>) p cs = chain_ok fs p cs"
  "chain_byte (fs\<lparr>fs_currentsector := b\<rparr>) = chain_byte fs"
  by (simp_all add: fun_eq_iff chain_ok_def cluster_apart_def chain_byte_def)

lemma table_frame_current:
  "table_frame fs fs' \<Longrightarrow> table_frame (fs\<lparr>fs_currentsector := b\<rparr>) (fs'\<lparr>fs_currentsector := b\<rparr>)"
proof -
  assume f: "table_frame fs fs'"
  then have "fs' = fs\<lparr>fs_disk_io := (fs_disk_io fs)\<lparr>md_byte := md_byte (fs_disk_io fs')\<rparr>,
      fs_fat_buffers := fs_fat_buffers fs'\<rparr>" by (simp add: table_frame_def)
  then have e: "fs'\<lparr>fs_currentsector := b\<rparr> = (fs\<lparr>fs_currentsector := b\<rparr>)\<lparr>fs_disk_io := (fs_disk_io fs)\<lparr>md_byte := md_byte (fs_disk_io fs')\<rparr>,
      fs_fat_buffers := fs_fat_buffers fs'\<rparr>" by (cases fs; cases fs') simp
  have b: "\<forall>s. \<not> in_table fs s \<longrightarrow> md_bytes (fs_disk_io fs') (unat s) 1 = md_bytes (fs_disk_io fs) (unat s) 1"
    using f unfolding table_frame_def by (rule conjunct2)
  show ?thesis unfolding table_frame_def by (rule conjI, use e in simp, use b in simp)
qed

text \<open>What looking at a directory changes: that buffer, and the buffers of the table.\<close>

definition search_frame :: "fatfs \<Rightarrow> fatfs \<Rightarrow> bool" where
  "search_frame fs fs' \<longleftrightarrow> table_frame (fs\<lparr>fs_currentsector := fs_currentsector fs'\<rparr>) fs' \<and> fat_view fs' = fat_view fs"

lemma search_frame_refl [simp]: "search_frame fs fs"
  by (simp add: search_frame_def)

lemma search_frame_trans:
  assumes "search_frame a b" "search_frame b c" shows "search_frame a c"
proof -
  have "table_frame (a\<lparr>fs_currentsector := fs_currentsector c\<rparr>) (b\<lparr>fs_currentsector := fs_currentsector c\<rparr>)"
    using table_frame_current[of "a\<lparr>fs_currentsector := fs_currentsector b\<rparr>" b "fs_currentsector c"] assms(1)
    by (simp add: search_frame_def)
  then show ?thesis using assms table_frame_trans by (auto simp: search_frame_def)
qed

lemma search_frame_chain:
  assumes "search_frame fs fs'" "table_ok fs'" "chain_ok fs p cs"
  shows "chain_ok fs' p cs" "file_sectors fs' cs = file_sectors fs cs"
    "i < file_sectors fs cs * 512 \<Longrightarrow> chain_byte fs' cs i = chain_byte fs cs i"
proof -
  let ?fs = "fs\<lparr>fs_currentsector := fs_currentsector fs'\<rparr>"
  have f: "table_frame ?fs fs'" "fat_view fs' = fat_view ?fs" "chain_ok ?fs p cs"
    using assms by (simp_all add: search_frame_def)
  show "chain_ok fs' p cs" by (rule frame_chain_ok[OF f(3,1,2) assms(2)])
  show "file_sectors fs' cs = file_sectors fs cs" using frame_data_ok(2)[OF f(1,3)] by simp
  show "chain_byte fs' cs i = chain_byte fs cs i" if "i < file_sectors fs cs * 512"
    using frame_chain_byte[OF f(1,3), of i] that by (simp add: file_sectors_def cluster_bytes_def ac_simps)
qed

text \<open>The buffer holds the sector it is said to hold.\<close>

definition current_ok :: "fatfs \<Rightarrow> bool" where
  "current_ok fs \<longleftrightarrow> fb_address (fs_currentsector fs) = FAT32_INVALID_CLUSTER \<or>
     \<not> in_table fs (fb_address (fs_currentsector fs)) \<and>
     fb_sector (fs_currentsector fs) = md_bytes (fs_disk_io fs) (unat (fb_address (fs_currentsector fs))) 1"


text \<open>The sector \<open>x\<close> of a chain is read, or is in the buffer already.\<close>

definition chain_sector :: "fatfs \<Rightarrow> u32 list \<Rightarrow> nat \<Rightarrow> u8 list" where
  "chain_sector fs cs x = map (chain_byte fs cs) [x * 512 ..< (x + 1) * 512]"

definition chain_lba :: "fatfs \<Rightarrow> u32 list \<Rightarrow> nat \<Rightarrow> u32" where
  "chain_lba fs cs x = fatfs_lba_of_cluster fs (cs ! (x div unat (fs_sectors_per_cluster fs))) +
     word_of_nat (x mod unat (fs_sectors_per_cluster fs))"

lemma sector_current:
  assumes ok: "table_ok fs" "current_ok fs" and l: "unat lba < 2 ^ 32 - 1" "\<not> in_table fs lba"
  shows "\<exists>fs'. (if lba \<noteq> fb_address (fs_currentsector fs) then read_current fs lba else Inr (True, fs)) = Inr (True, fs') \<and>
    search_frame fs fs' \<and> table_ok fs' \<and> current_ok fs' \<and>
    fb_sector (fs_currentsector fs') = md_bytes (fs_disk_io fs) (unat lba) 1 \<and> fb_address (fs_currentsector fs') = lba"
proof (cases "lba = fb_address (fs_currentsector fs)")
  case True
  moreover have "lba \<noteq> FAT32_INVALID_CLUSTER" using l(1) by (auto simp: FAT32_INVALID_CLUSTER_def)
  ultimately show ?thesis using ok by (simp add: current_ok_def)
next
  case False
  define b where "b = (fs_currentsector fs)\<lparr>fb_address := lba, fb_sector := md_bytes (fs_disk_io fs) (unat lba) 1\<rparr>"
  have "read_current fs lba = Inr (True, fs\<lparr>fs_currentsector := b\<rparr>)"
    using ok by (simp add: read_current_def media_read_def table_ok_def reliable_def set_current_def b_def)
  moreover have "search_frame fs (fs\<lparr>fs_currentsector := b\<rparr>)" by (simp add: search_frame_def)
  moreover have "current_ok (fs\<lparr>fs_currentsector := b\<rparr>)" using l(2) by (simp add: current_ok_def b_def)
  ultimately show ?thesis using False ok by (auto simp: b_def)
qed

lemma frame_current_ok:
  assumes "table_frame fs f1" "current_ok fs" shows "current_ok f1"
  using assms table_frame_fields[OF assms(1)] in_table_frame[OF assms(1)]
  by (auto simp: current_ok_def table_frame_def)

lemma frame_search: "table_frame fs f1 \<Longrightarrow> fat_view f1 = fat_view fs \<Longrightarrow> search_frame fs f1"
  using table_frame_fields[of fs f1] by (simp add: search_frame_def)

lemma follow_end:
  "table_ok fs \<Longrightarrow> fat_chain (fat_next fs) p cs \<Longrightarrow> \<forall>c \<in> set cs. covers fs c \<Longrightarrow>
   \<exists>fs'. follow fs p (length cs) = Inr (FAT32_LAST_CLUSTER, fs') \<and> table_ok fs' \<and> table_frame fs fs' \<and>
     fat_view fs' = fat_view fs"
proof (induction cs arbitrary: fs p)
  case Nil
  then show ?case by auto
next
  case (Cons c cs)
  have p: "p = c" "c \<noteq> 0" "fat_chain (fat_next fs) (fat_next fs c) cs" using Cons.prems(2) by auto
  obtain f1 where f1: "fatfs_find_next_cluster fs c = Inr (fat_next fs c, f1)" "table_ok f1"
    "fat_view f1 = fat_view fs" "table_frame fs f1"
    using find_next_ok[OF Cons.prems(1), of c] Cons.prems(3) p(2) by auto
  have "fat_chain (fat_next f1) (fat_next fs c) cs" using p(3) frame_view(2)[OF f1(4,3)] by simp
  moreover have "\<forall>c\<in>set cs. covers f1 c" using Cons.prems(3) frame_entries(4)[OF f1(4)] by simp
  ultimately obtain fs' where "follow f1 (fat_next fs c) (length cs) = Inr (FAT32_LAST_CLUSTER, fs')"
      "table_ok fs'" "table_frame f1 fs'" "fat_view fs' = fat_view f1"
    using Cons.IH[OF f1(2)] by blast
  then show ?case using f1 p(1) table_frame_trans[OF f1(4)] by auto
qed

lemma chain_start:
  assumes "chain_ok fs p cs" shows "p \<noteq> 0"
  using assms by (cases cs) (auto simp: chain_ok_def FAT32_LAST_CLUSTER_def)

lemma sector_reader_in:
  assumes ok: "chain_ok fs p cs" "current_ok fs" and x: "unat x < file_sectors fs cs"
  shows "\<exists>fs'. fatfs_sector_reader fs p x = Inr (True, fs') \<and> search_frame fs fs' \<and> table_ok fs' \<and> current_ok fs' \<and>
    fb_sector (fs_currentsector fs') = chain_sector fs cs (unat x) \<and>
    fb_address (fs_currentsector fs') = chain_lba fs cs (unat x)"
proof -
  let ?spc = "fs_sectors_per_cluster fs" let ?S = "unat ?spc" let ?sw = "ucast ?spc :: u32"
  define k where "k = unat x div ?S" define s where "s = unat x mod ?S"
  have nz: "?spc \<noteq> 0" using ok(1) by (simp add: chain_ok_def)
  then have S: "0 < ?S" by (simp add: unat_gt_0)
  have k: "k < length cs" using x S by (simp add: k_def file_sectors_def div_less_iff_less_mult)
  have s: "s < ?S" using S by (simp add: s_def)
  have c: "fat_chain (fat_next fs) p cs" "\<forall>c \<in> set cs. covers fs c" "cluster_apart fs (cs ! k)" "table_ok fs"
    using ok(1) k by (auto simp: chain_ok_def)
  obtain f1 where f1: "follow fs p k = Inr (cs ! k, f1)" "table_ok f1" "table_frame fs f1" "fat_view f1 = fat_view fs"
    using follow_ok[OF c(4,1,2) k] by blast
  define lba where "lba = fatfs_lba_of_cluster fs (cs ! k) + word_of_nat s"
  have sec: "x - x div ?sw * ?sw = word_of_nat s"
  proof -
    have "unat (word_of_nat s :: u32) = s"
      unfolding unat_of_nat by (rule mod_less) (use s unat_bound[of ?spc] in simp)
    then show ?thesis using split_offset(2)[OF nz, of x] by (simp only: word_unat_eq_iff s_def)
  qed
  have l: "unat lba = unat (fatfs_lba_of_cluster fs (cs ! k)) + s" unfolding lba_def by (rule sector_address[OF c(3) s])
  have lt: "unat lba < 2 ^ 32 - 1" using l s c(3) by (simp add: cluster_apart_def)
  have nt: "\<not> in_table fs lba" using c(3) s by (simp add: lba_def cluster_apart_def)
  have last: "cs ! k \<noteq> FAT32_LAST_CLUSTER" using fat_chain_nonzero[OF c(1), of "cs ! k"] k by simp
  have r: "reader_lba fs p x = Inr (Some lba, f1)"
    using nz last chain_start[OF ok(1)] f1(1) frame_lba(1)[OF f1(3)]
    by (simp add: reader_lba_def Let_def split_offset(1)[OF nz] k_def[symmetric] sec lba_def)
  obtain fs' where fs': "(if lba \<noteq> fb_address (fs_currentsector f1) then read_current f1 lba else Inr (True, f1)) = Inr (True, fs')"
    "search_frame f1 fs'" "table_ok fs'" "current_ok fs'" "fb_sector (fs_currentsector fs') = md_bytes (fs_disk_io f1) (unat lba) 1" "fb_address (fs_currentsector fs') = lba"
    using sector_current[OF f1(2) frame_current_ok[OF f1(3) ok(2)] lt] nt in_table_frame[OF f1(3)] by auto
  have "md_bytes (fs_disk_io f1) (unat lba) 1 = md_bytes (fs_disk_io fs) (unat lba) 1"
    using f1(3) nt by (simp add: table_frame_def)
  also have "\<dots> = chain_sector fs cs (unat x)"
    using chain_sectors[OF ok(1) k _ s, of 1] s unfolding lba_def chain_sector_def
    by (simp add: k_def s_def)
  finally have "fb_sector (fs_currentsector fs') = chain_sector fs cs (unat x)" using fs'(5) by simp
  moreover have cl: "chain_lba fs cs (unat x) = lba" by (simp add: chain_lba_def lba_def k_def s_def)
  ultimately show ?thesis
    using r fs' search_frame_trans[OF frame_search[OF f1(3,4)] fs'(2)]
    by (simp add: fatfs_sector_reader_def cl)
qed

lemma sector_reader_end:
  assumes ok: "chain_ok fs p cs" "current_ok fs" and x: "unat x = file_sectors fs cs"
  shows "\<exists>fs'. fatfs_sector_reader fs p x = Inr (False, fs') \<and> search_frame fs fs' \<and> table_ok fs' \<and> current_ok fs'"
proof -
  let ?spc = "fs_sectors_per_cluster fs"
  have nz: "?spc \<noteq> 0" using ok(1) by (simp add: chain_ok_def)
  then have k: "unat (x div ucast ?spc) = length cs"
    using x by (simp add: split_offset(1) file_sectors_def unat_eq_0)
  obtain f1 where f1: "follow fs p (length cs) = Inr (FAT32_LAST_CLUSTER, f1)" "table_ok f1" "table_frame fs f1"
    "fat_view f1 = fat_view fs"
    using follow_end[of fs p cs] ok(1) by (auto simp: chain_ok_def)
  have "fatfs_sector_reader fs p x = Inr (False, f1)"
    using nz chain_start[OF ok(1)] f1(1) by (simp add: fatfs_sector_reader_def reader_lba_def Let_def k)
  then show ?thesis using f1 frame_search frame_current_ok[OF f1(3) ok(2)] by blast
qed


section \<open>Searching\<close>

text \<open>The loop with a body that only looks at the sector in the buffer, and what it finds.\<close>

definition look :: "(u8 list \<Rightarrow> 'a \<Rightarrow> 'r option \<times> 'a) \<Rightarrow> fatfs \<Rightarrow> 'a \<Rightarrow> fault + 'r option \<times> 'a \<times> fatfs" where
  "look g fs st = (let (r, st) = g (fb_sector (fs_currentsector fs)) st in Inr (r, st, fs))"

primrec scan_sectors :: "(u8 list \<Rightarrow> 'a \<Rightarrow> 'r option \<times> 'a) \<Rightarrow> u8 list list \<Rightarrow> 'a \<Rightarrow> 'r option" where
  "scan_sectors g [] st = None"
| "scan_sectors g (b # bs) st =
     (case g b st of (Some r, st) \<Rightarrow> Some r | (None, st) \<Rightarrow> scan_sectors g bs st)"

lemma dir_loop_ok:
  assumes "chain_ok fs p cs" "current_ok fs" "x + n = file_sectors fs cs" "n < fuel" "file_sectors fs cs < 2 ^ 32 - 1"
  shows "\<exists>fs'. dir_loop fuel (look g) fs p (word_of_nat x) st =
      Inr (scan_sectors g (map (chain_sector fs cs) [x ..< x + n]) st, fs') \<and>
    search_frame fs fs' \<and> table_ok fs' \<and> current_ok fs'"
  using assms
proof (induction fuel arbitrary: fs x n st)
  case 0
  then show ?case by simp
next
  case (Suc fuel)
  have u: "unat (word_of_nat x :: u32) = x"
    unfolding unat_of_nat by (rule mod_less) (use Suc.prems(3,5) in simp)
  show ?case
  proof (cases n)
    case 0
    then show ?thesis using sector_reader_end[OF Suc.prems(1,2), of "word_of_nat x"] u Suc.prems(3) by auto
  next
    case (Suc m)
    have x: "unat (word_of_nat x :: u32) < file_sectors fs cs" using u Suc Suc.prems(3) by simp
    obtain f1 where f1: "fatfs_sector_reader fs p (word_of_nat x) = Inr (True, f1)" "search_frame fs f1" "table_ok f1"
      "current_ok f1" "fb_sector (fs_currentsector f1) = chain_sector fs cs x"
      using sector_reader_in[OF Suc.prems(1,2) x] u by auto
    note c = search_frame_chain[OF f1(2,3) Suc.prems(1)]
    obtain r st' where g: "g (chain_sector fs cs x) st = (r, st')" by fastforce
    have e: "[x ..< x + n] = x # [Suc x ..< Suc x + m]" using Suc by (simp add: upt_conv_Cons)
    show ?thesis
    proof (cases r)
      case (Some a)
      then show ?thesis using f1 g by (simp add: look_def e)
    next
      case None
      obtain fs' where i: "dir_loop fuel (look g) f1 p (word_of_nat (Suc x)) st' =
          Inr (scan_sectors g (map (chain_sector f1 cs) [Suc x ..< Suc x + m]) st', fs')"
        "search_frame f1 fs'" "table_ok fs'" "current_ok fs'"
        using Suc.IH[OF c(1) f1(4), of "Suc x" m st'] Suc.prems(3-5) Suc c(2) by auto
      have m: "map (chain_sector f1 cs) [Suc x ..< Suc x + m] = map (chain_sector fs cs) [Suc x ..< Suc x + m]"
      proof (rule map_cong[OF refl])
        fix k assume "k \<in> set [Suc x ..< Suc x + m]"
        then have "k < Suc x + m" by (auto simp del: upt_Suc)
        then have "k + 1 \<le> file_sectors fs cs" using Suc Suc.prems(3) by linarith
        then have "(k + 1) * 512 \<le> file_sectors fs cs * 512" by (rule mult_le_mono1)
        then show "chain_sector f1 cs k = chain_sector fs cs k" using c(3) by (simp add: chain_sector_def)
      qed
      have k: "look g f1 st = Inr (None, st', f1)" using f1(5) g None by (simp add: look_def)
      have w: "word_of_nat x + 1 = (word_of_nat (Suc x) :: u32)" by simp
      have "dir_loop (Suc fuel) (look g) fs p (word_of_nat x) st =
          Inr (scan_sectors g (map (chain_sector fs cs) [x ..< x + n]) st, fs')"
        unfolding dir_loop.simps f1(1) e list.map scan_sectors.simps g None andThen_Inr prod.case option.case if_True k w i(1) m ..
      then show ?thesis using i search_frame_trans[OF f1(2) i(2)] by blast
    qed
  qed
qed


lemma dir_fuel_enough:
  assumes "chain_ok fs p cs" shows "file_sectors fs cs < dir_fuel fs"
proof -
  have "length cs \<le> fat_entries fs"
    using assms covered_length[OF fat_chain_distinct] by (auto simp: chain_ok_def)
  then have "file_sectors fs cs \<le> fat_entries fs * unat (fs_sectors_per_cluster fs)"
    unfolding file_sectors_def by (rule mult_le_mono1)
  then show ?thesis by (simp add: dir_fuel_def)
qed

text \<open>The entries of a directory, in the order of its chain.\<close>

definition dir_entries :: "fatfs \<Rightarrow> u32 list \<Rightarrow> u8 list list" where
  "dir_entries fs cs = concat (map (\<lambda>x. sector_entries (chain_sector fs cs x)) [0..<file_sectors fs cs])"

lemma entry_scan_append:
  "entry_scan name (a @ b) lfn = (case entry_scan name a lfn of
     (Some e, lfn) \<Rightarrow> (Some e, lfn) | (None, lfn) \<Rightarrow> entry_scan name b lfn)"
  by (induction a arbitrary: lfn) (auto split: prod.splits option.splits)

lemma scan_entries:
  "scan_sectors (\<lambda>b. entry_scan name (sector_entries b)) bs lfn = fst (entry_scan name (concat (map sector_entries bs)) lfn)"
  by (induction bs arbitrary: lfn) (auto simp: entry_scan_append split: prod.splits option.splits)

lemma get_file_entry_ok:
  assumes ok: "chain_ok fs p cs" "current_ok fs" and n: "file_sectors fs cs < 2 ^ 32 - 1"
  shows "\<exists>fs'. fatfs_get_file_entry fs p name = Inr (fst (entry_scan name (dir_entries fs cs) empty_lfn), fs') \<and>
    search_frame fs fs' \<and> table_ok fs' \<and> current_ok fs'"
proof -
  have b: "(\<lambda>fs lfn. let (r, lfn) = entry_scan name (sector_entries (fb_sector (fs_currentsector fs))) lfn
      in Inr (r, lfn, fs)) = look (\<lambda>b. entry_scan name (sector_entries b))"
    by (simp add: fun_eq_iff look_def)
  show ?thesis
    using dir_loop_ok[OF ok, of 0 "file_sectors fs cs" "dir_fuel fs" "\<lambda>b. entry_scan name (sector_entries b)" empty_lfn]
      dir_fuel_enough[OF ok(1)] n
    unfolding fatfs_get_file_entry_def b scan_entries by (simp add: dir_entries_def comp_def)
qed

text \<open>Whether one of the entries has a short name.\<close>

lemma find_sfn_None: "find_sfn s bs = None \<longleftrightarrow> (\<forall>b \<in> set bs. \<not> sfn_matches s b)"
  by (induction bs) auto

lemma scan_sfn:
  "scan_sectors (\<lambda>b (u :: unit). (map_option (\<lambda>_. ()) (find_sfn s (sector_entries b)), u)) bs () \<noteq> None \<longleftrightarrow>
   (\<exists>b \<in> set (concat (map sector_entries bs)). sfn_matches s b)"
proof (induction bs)
  case (Cons b bs)
  then show ?case using find_sfn_None[of s "sector_entries b"]
    by (cases "find_sfn s (sector_entries b)") auto
qed simp

lemma sfn_exists_ok:
  assumes ok: "chain_ok fs p cs" "current_ok fs" and n: "file_sectors fs cs < 2 ^ 32 - 1"
  shows "\<exists>fs'. fatfs_sfn_exists fs p s = Inr (\<exists>b \<in> set (dir_entries fs cs). sfn_matches s b, fs') \<and>
    search_frame fs fs' \<and> table_ok fs' \<and> current_ok fs'"
proof -
  let ?g = "\<lambda>b (u :: unit). (map_option (\<lambda>_. ()) (find_sfn s (sector_entries b)), u)"
  have b: "(\<lambda>fs (_ :: unit). Inr (map_option (\<lambda>_. ()) (find_sfn s (sector_entries (fb_sector (fs_currentsector fs)))), (), fs))
      = look ?g"
    by (simp add: fun_eq_iff look_def)
  obtain fs' where "dir_loop (dir_fuel fs) (look ?g) fs p 0 () =
      Inr (scan_sectors ?g (map (chain_sector fs cs) [0..<file_sectors fs cs]) (), fs')"
    and f: "search_frame fs fs'" "table_ok fs'" "current_ok fs'"
    using dir_loop_ok[OF ok, of 0 "file_sectors fs cs" "dir_fuel fs" ?g "()"] dir_fuel_enough[OF ok(1)] n by auto
  then show ?thesis
    unfolding fatfs_sfn_exists_def b using scan_sfn[of s "map (chain_sector fs cs) [0..<file_sectors fs cs]"]
    by (auto simp: dir_entries_def comp_def)
qed

section \<open>A volume with a directory\<close>

text \<open>
  The small table with one more chain, of cluster 6 alone, and a directory in clusters 3, 5 and
  4 whose first sector holds the file \<open>A\<close> of 300 bytes in cluster 6 and free entries.
\<close>

definition file_entry :: "u8 list" where
  "file_entry = [65] @ replicate 10 32 @ [0x20] @ replicate 14 0 @ [6, 0] @ [0x2C, 1, 0, 0]"

definition volume_byte :: "nat \<Rightarrow> u8" where
  "volume_byte i =
     (if i \<in> {536, 537, 538} then 0xFF else if i = 539 then 0x0F
      else if 1536 \<le> i \<and> i < 1568 then file_entry ! (i - 1536)
      else if 1568 \<le> i \<and> i < 2048 then 0 else small_byte i)"

definition holds_volume :: "fatfs \<Rightarrow> bool" where
  "holds_volume fs \<longleftrightarrow> reliable (fs_disk_io fs) \<and> fs_fat_buffers fs = fs_fat_buffers small_fat \<and>
     fs_fat_type fs = FAT_TYPE_32 \<and> fs_fat_begin_lba fs = 1 \<and> fs_fat_sectors fs = 1 \<and>
     fs_cluster_begin_lba fs = 2 \<and> fs_sectors_per_cluster fs = 1 \<and>
     (\<forall>i < 65536. md_byte (fs_disk_io fs) i = volume_byte i)"

lemma volume_table_ok:
  assumes "holds_volume fs" shows "table_ok fs" "fat_view fs 1 = sector_on (fs_disk_io fs) 1"
proof -
  have b: "fs_fat_buffers fs = fs_fat_buffers (fatfs_fat_init small_fat)"
    using assms by (simp add: holds_volume_def small_fat_def fatfs_fat_init_def)
  show "table_ok fs" by (rule fresh_table_ok(1)[OF b]) (use assms in \<open>simp_all add: holds_volume_def\<close>)
  show "fat_view fs 1 = sector_on (fs_disk_io fs) 1"
    using fresh_table_ok(2)[OF b, of 1] assms by (simp add: holds_volume_def FAT32_INVALID_CLUSTER_def)
qed

lemma volume_raw:
  assumes v: "holds_volume fs" and c: "unat c < 128"
  shows "fat_raw fs c = push_bit 24 (ucast (volume_byte (512 + unat c * 4 + 3)))
    + push_bit 16 (ucast (volume_byte (512 + unat c * 4 + 2)))
    + push_bit 8 (ucast (volume_byte (512 + unat c * 4 + 1))) + ucast (volume_byte (512 + unat c * 4))"
proof -
  have t: "fs_fat_type fs = FAT_TYPE_32" "fs_fat_begin_lba fs = 1" using v by (simp_all add: holds_volume_def)
  have "c div 128 = 0" using c by (simp add: word_unat_eq_iff unat_div)
  then have "entry_sector fs c = 1" by (simp add: entry_sector_def fat_sector_offset_def t)
  moreover have "fat_position fs c = unat c * 4" using c by (simp add: position_mod t)
  moreover have "sector_on (fs_disk_io fs) 1 ! i = volume_byte (512 + i)" if "i < 512" for i
    unfolding sector_on_def by (subst nth_md_bytes) (use v that in \<open>simp_all add: holds_volume_def\<close>)
  ultimately show ?thesis
    using c by (simp add: fat_raw_def GET_32BIT_WORD_def add.assoc add.commute t volume_table_ok(2)[OF v])
qed

lemma volume_next:
  assumes "holds_volume fs"
  shows "fat_next fs 3 = 5" "fat_next fs 5 = 4" "fat_next fs 4 = FAT32_LAST_CLUSTER" "fat_next fs 6 = FAT32_LAST_CLUSTER"
proof -
  have "fs_fat_type fs = FAT_TYPE_32" using assms by (simp add: holds_volume_def)
  then show "fat_next fs 3 = 5" "fat_next fs 5 = 4" "fat_next fs 4 = FAT32_LAST_CLUSTER" "fat_next fs 6 = FAT32_LAST_CLUSTER"
    by (simp_all add: fat_next_def as_next_def volume_raw[OF assms] volume_byte_def small_byte_def FAT32_LAST_CLUSTER_def)
qed

lemma volume_lba: "holds_volume fs \<Longrightarrow> fatfs_lba_of_cluster fs c = 2 + (c - 2)"
  by (simp add: fatfs_lba_of_cluster_def holds_volume_def)

lemma volume_chains:
  assumes v: "holds_volume fs"
  shows "chain_ok fs 3 [3, 5, 4]" "chain_ok fs 6 [6]" "file_sectors fs cs = length cs"
proof -
  have g: "fs_sectors_per_cluster fs = 1" "fs_fat_begin_lba fs = 1" "fs_fat_sectors fs = 1" "fs_fat_type fs = FAT_TYPE_32"
    using v by (simp_all add: holds_volume_def)
  have "fat_chain (fat_next fs) 3 [3, 5, 4]" "fat_chain (fat_next fs) 6 [6]"
    by (simp_all add: volume_next[OF v]) (simp_all add: FAT32_LAST_CLUSTER_def)
  then show "chain_ok fs 3 [3, 5, 4]" "chain_ok fs 6 [6]"
    unfolding chain_ok_def
    by (simp_all add: volume_table_ok(1)[OF v] covers_entries fat_entries_def cluster_apart_def in_table_def volume_lba[OF v] g)
  show "file_sectors fs cs = length cs" by (simp add: file_sectors_def g)
qed


lemma first_sector_entries_of:
  assumes v: "holds_volume fs"
  shows "\<exists>bs. sector_entries (chain_sector fs [3, 5, 4] 0) = file_entry # bs"
proof -
  let ?s = "chain_sector fs [3, 5, 4] 0"
  have g: "fs_sectors_per_cluster fs = 1" "\<And>i. i < 65536 \<Longrightarrow> md_byte (fs_disk_io fs) i = volume_byte i"
    using v by (simp_all add: holds_volume_def)
  have "slice_of 0 32 ?s = map (\<lambda>i. volume_byte (1536 + i)) [0..<32]"
    by (rule nth_equalityI) (simp_all add: chain_sector_def nth_slice_of chain_byte_def cluster_bytes_def g volume_lba[OF v]
      del: upt_conv_Cons upt_rec_numeral)
  also have "\<dots> = file_entry"
    by (rule nth_equalityI) (simp_all add: volume_byte_def file_entry_def del: upt_rec_numeral)
  finally show ?thesis
    by (simp add: sector_entries_def FAT_DIR_ENTRIES_PER_SECTOR_def FAT_DIR_ENTRY_SIZE_def upt_conv_Cons)
qed

lemma first_entry:
  assumes "holds_volume fs" shows "\<exists>bs. dir_entries fs [3, 5, 4] = file_entry # bs"
  using first_sector_entries_of[OF assms] by (auto simp: dir_entries_def volume_chains(3)[OF assms] upt_conv_Cons)

lemma file_entry_fields [simp]:
  "de_Name (decode_dir_entry file_entry) = 65 # replicate 10 32" "de_Attr (decode_dir_entry file_entry) = 0x20"
  "de_FileSize (decode_dir_entry file_entry) = 300" "entry_cluster (decode_dir_entry file_entry) = 6"
  by code_simp+

lemma file_entry_name: "fatfs_compare_names (short_filename (decode_dir_entry file_entry)) [65]"
  by code_simp

lemma file_entry_found:
  "entry_scan [65] (file_entry # bs) empty_lfn = (Some (decode_dir_entry file_entry), empty_lfn)"
proof -
  have "\<not> fatfs_entry_lfn_text (decode_dir_entry file_entry)" "\<not> fatfs_entry_lfn_invalid (decode_dir_entry file_entry)"
    "\<not> fatfs_entry_lfn_exists empty_lfn (decode_dir_entry file_entry)" "fatfs_entry_sfn_only (decode_dir_entry file_entry)"
    by code_simp+
  then show ?thesis by (simp add: entry_step_def file_entry_name Let_def)
qed

definition dir_volume :: fatfs where
  "dir_volume = small_fat\<lparr>fs_disk_io := small_media\<lparr>md_byte := volume_byte\<rparr>, fs_rootdir_first_cluster := 3,
     fs_currentsector := \<lparr>fb_sector = [], fb_address = FAT32_INVALID_CLUSTER, fb_dirty = False\<rparr>\<rparr>"

lemma dir_volume_ok: "holds_volume dir_volume" "current_ok dir_volume"
  by (simp_all add: holds_volume_def dir_volume_def current_ok_def reliable_def small_media_def)

text \<open>
  C37: The search of a directory through the sector buffer and the buffers of the table looks
  at the entries of its cluster chain in order, up to the first that matches: its result is
  that of a plain scan of the list of entries, and the table and what is remembered of it stay
  the same.
\<close>

theorem directory_searched:
  assumes "chain_ok fs p cs" "current_ok fs" "file_sectors fs cs < 2 ^ 32 - 1"
  shows "\<exists>fs'. fatfs_get_file_entry fs p name = Inr (fst (entry_scan name (dir_entries fs cs) empty_lfn), fs') \<and>
    search_frame fs fs' \<and> table_ok fs' \<and> current_ok fs'"
  by (rule get_file_entry_ok[OF assms])

lemma directory_searched_witness:
  "\<exists>fs'. fatfs_get_file_entry dir_volume 3 [65] = Inr (Some (decode_dir_entry file_entry), fs')"
proof -
  obtain bs where "dir_entries dir_volume [3, 5, 4] = file_entry # bs" using first_entry[OF dir_volume_ok(1)] by blast
  then show ?thesis
    using directory_searched[of dir_volume 3 "[3, 5, 4]" "[65]"] volume_chains[OF dir_volume_ok(1)] dir_volume_ok(2)
    by (auto simp: file_entry_found simp del: entry_scan.simps)
qed

end
