(* ===== verification/FatHandles.thy ===== *)
theory FatHandles
  imports FatSearch
begin

text \<open>
  The handles of the FAT library: what each call makes of the list of open ones, the list of free
  ones and the names of the open ones. Sequences of calls are in FatCalls.
\<close>

section \<open>The invariant\<close>

definition same_name :: "filelib \<Rightarrow> handle \<Rightarrow> handle \<Rightarrow> bool" where
  "same_name lib h k \<longleftrightarrow> fatfs_compare_names (ff_path (fl_files lib h)) (ff_path (fl_files lib k)) \<and>
     fatfs_compare_names (ff_filename (fl_files lib h)) (ff_filename (fl_files lib k))"

definition lists_ok :: "filelib \<Rightarrow> handle list \<Rightarrow> handle list \<Rightarrow> bool" where
  "lists_ok lib us vs \<longleftrightarrow> fl_initialised lib \<and> list_holds (fl_nodes lib, fl_open_list lib) us \<and>
     list_holds (fl_nodes lib, fl_free_list lib) vs \<and> set us \<inter> set vs = {} \<and>
     set us \<union> set vs = {..<FATFS_MAX_OPEN_FILES}"

definition handles :: "filelib \<Rightarrow> handle list \<Rightarrow> bool" where
  "handles lib us \<longleftrightarrow> (\<exists>vs. lists_ok lib us vs) \<and> sorted_wrt (\<lambda>h k. \<not> same_name lib h k) us"

text \<open>A handle taken, whose name may still be that of another.\<close>

definition taken :: "filelib \<Rightarrow> handle list \<Rightarrow> handle \<Rightarrow> bool" where
  "taken lib us h \<longleftrightarrow> (\<exists>vs. lists_ok lib (us @ [h]) vs) \<and> sorted_wrt (\<lambda>h k. \<not> same_name lib h k) us"

text \<open>Changes that leave lists and names alone.\<close>

definition names_kept :: "filelib \<Rightarrow> filelib \<Rightarrow> bool" where
  "names_kept lib lib' \<longleftrightarrow> fl_initialised lib' = fl_initialised lib \<and> fl_nodes lib' = fl_nodes lib \<and>
     fl_open_list lib' = fl_open_list lib \<and> fl_free_list lib' = fl_free_list lib \<and>
     (\<forall>h. ff_path (fl_files lib' h) = ff_path (fl_files lib h) \<and> ff_filename (fl_files lib' h) = ff_filename (fl_files lib h))"

lemma names_kept_refl [simp]: "names_kept lib lib"
  by (simp add: names_kept_def)

lemma names_kept_trans: "names_kept a b \<Longrightarrow> names_kept b c \<Longrightarrow> names_kept a c"
  by (simp add: names_kept_def)

lemma names_kept_fs [simp]: "names_kept lib (l\<lparr>fl_fs := fs\<rparr>) = names_kept lib l" "names_kept (l\<lparr>fl_fs := fs\<rparr>) lib = names_kept l lib"
  by (simp_all add: names_kept_def)

lemma names_kept_upd:
  "ff_path (g (fl_files l h)) = ff_path (fl_files l h) \<Longrightarrow> ff_filename (g (fl_files l h)) = ff_filename (fl_files l h) \<Longrightarrow>
   names_kept lib (fl_upd l h g) = names_kept lib l"
  by (auto simp: names_kept_def fl_upd_def)

lemma kept_lists: "names_kept lib lib' \<Longrightarrow> lists_ok lib' us vs = lists_ok lib us vs"
  by (simp add: names_kept_def lists_ok_def)

lemma kept_same_name: "names_kept lib lib' \<Longrightarrow> same_name lib' = same_name lib"
  by (simp add: names_kept_def same_name_def fun_eq_iff)

lemma kept_handles: "names_kept lib lib' \<Longrightarrow> handles lib' us = handles lib us"
  by (simp add: handles_def kept_lists kept_same_name)

lemma kept_taken: "names_kept lib lib' \<Longrightarrow> taken lib' us h = taken lib us h"
  by (simp add: taken_def kept_lists kept_same_name)

lemma kept_fs [simp]: "handles (l\<lparr>fl_fs := fs\<rparr>) us = handles l us" "taken (l\<lparr>fl_fs := fs\<rparr>) us h = taken l us h"
  by (simp_all add: kept_handles kept_taken)

lemma handles_taken: "handles lib (us @ [h]) \<Longrightarrow> taken lib us h"
  by (auto simp: handles_def taken_def sorted_wrt_append)

lemma handles_initialised: "handles lib us \<Longrightarrow> CHECK_FL_INIT lib = lib"
  by (auto simp: handles_def lists_ok_def CHECK_FL_INIT_def)

section \<open>Taking and giving back\<close>

lemma list_holds_distinct: "list_holds nl xs \<Longrightarrow> distinct xs"
  by (cases nl) (simp add: list_holds_def)

lemma lists_distinct: "lists_ok lib us vs \<Longrightarrow> distinct us"
  using list_holds_distinct unfolding lists_ok_def by blast

lemma list_holds_frame:
  "list_holds (nodes, l) xs \<Longrightarrow> (\<And>x. x \<in> set xs \<Longrightarrow> nodes' x = nodes x) \<Longrightarrow> list_holds (nodes', l) xs"
  using linked_cong[of xs nodes' nodes] by (simp add: list_holds_def)

text \<open>A node moves from the one list to the end of the other.\<close>

lemma node_moves:
  assumes "list_holds (nodes, a) xs" "list_holds (nodes, b) ys" "x \<in> set xs" "set xs \<inter> set ys = {}"
    "fat_list_remove (nodes, a) x = (n1, a')" "fat_list_insert_last (n1, b) x = (n2, b')"
  shows "list_holds (n2, a') (remove1 x xs)" "list_holds (n2, b') (ys @ [x])"
proof -
  have x: "x \<notin> set ys" using assms(3,4) by blast
  have 1: "list_holds (n1, a') (remove1 x xs)" using fat_list_remove_ok[OF assms(1,3)] assms(5) by simp
  have "n1 y = nodes y" if "y \<notin> set xs" for y
    using fat_list_remove_frame[OF assms(1,3) that] assms(5) by simp
  then have 2: "list_holds (n1, b) ys" using list_holds_frame[OF assms(2), of n1] assms(4) by blast
  show "list_holds (n2, b') (ys @ [x])" using fat_list_insert_last_ok[OF 2 x] assms(6) by simp
  have d: "x \<notin> set (remove1 x xs)" "set (remove1 x xs) \<inter> set ys = {}"
    using list_holds_distinct[OF assms(1)] assms(4) set_remove1_subset[of x xs] by auto
  show "list_holds (n2, a') (remove1 x xs)"
  proof (rule list_holds_frame[OF 1])
    fix y assume "y \<in> set (remove1 x xs)"
    then have "y \<notin> insert x (set ys)" using d by auto
    then show "n2 y = n1 y" using fat_list_insert_last_frame[OF 2 x] assms(6) by (metis fst_conv)
  qed
qed

lemma free_file_ok:
  assumes "lists_ok lib us vs" "h \<in> set us"
  shows "lists_ok (free_file lib h) (remove1 h us) (vs @ [h])"
proof -
  obtain n1 a n2 b where m: "fat_list_remove (fl_nodes lib, fl_open_list lib) h = (n1, a)"
    "fat_list_insert_last (n1, fl_free_list lib) h = (n2, b)" by fastforce
  have l: "list_holds (fl_nodes lib, fl_open_list lib) us" "list_holds (fl_nodes lib, fl_free_list lib) vs"
    "set us \<inter> set vs = {}" using assms(1) by (simp_all add: lists_ok_def)
  have "h \<notin> set (remove1 h us)" "set us = insert h (set (remove1 h us))"
    using list_holds_distinct[OF l(1)] assms(2) by auto
  then show ?thesis
    using node_moves[OF l(1,2) assms(2) l(3) m] assms by (auto simp: lists_ok_def free_file_def m)
qed

lemma allocate_file_ok:
  assumes "lists_ok lib us vs"
  shows "vs = [] \<Longrightarrow> allocate_file lib = (None, lib)"
    "vs = h # ws \<Longrightarrow> \<exists>lib'. allocate_file lib = (Some h, lib') \<and> lists_ok lib' (us @ [h]) ws \<and>
       fl_files lib' = fl_files lib \<and> fl_fs lib' = fl_fs lib"
proof -
  have l: "list_holds (fl_nodes lib, fl_open_list lib) us" "list_holds (fl_nodes lib, fl_free_list lib) vs"
    "set us \<inter> set vs = {}" using assms(1) by (simp_all add: lists_ok_def)
  show "allocate_file lib = (None, lib)" if "vs = []"
    using l(2) that by (simp add: allocate_file_def fat_list_pop_head_def list_holds_def)
  show "\<exists>lib'. allocate_file lib = (Some h, lib') \<and> lists_ok lib' (us @ [h]) ws \<and>
       fl_files lib' = fl_files lib \<and> fl_fs lib' = fl_fs lib" if v: "vs = h # ws"
  proof -
    have hd: "ls_head (fl_free_list lib) = Some h" using l(2) v by (simp add: list_holds_def)
    obtain n1 a n2 b where m: "fat_list_remove (fl_nodes lib, fl_free_list lib) h = (n1, a)"
      "fat_list_insert_last (n1, fl_open_list lib) h = (n2, b)" by fastforce
    have "set vs \<inter> set us = {}" "h \<in> set vs" using l(3) v by auto
    note n = node_moves[OF l(2,1) this(2,1) m]
    have "h \<notin> set ws" using list_holds_distinct[OF l(2)] v by simp
    then show ?thesis
      using n v hd m assms by (auto simp: allocate_file_def fat_list_pop_head_def lists_ok_def)
  qed
qed

lemma free_file_files [simp]:
  "fl_files (free_file lib h) = fl_files lib" "fl_initialised (free_file lib h) = fl_initialised lib"
  by (simp_all add: free_file_def split: prod.split)

lemma free_taken:
  assumes "taken lib us h" shows "handles (free_file lib h) us"
proof -
  obtain vs where l: "lists_ok lib (us @ [h]) vs" using assms by (auto simp: taken_def)
  then have "distinct (us @ [h])" by (rule lists_distinct)
  then have "lists_ok (free_file lib h) us (vs @ [h])" using free_file_ok[OF l, of h] by (simp add: remove1_append)
  then show ?thesis using assms by (auto simp: handles_def taken_def same_name_def)
qed

text \<open>What a function that hands out a handle, or none, leaves.\<close>

definition opened :: "handle list \<Rightarrow> handle option \<times> filelib \<Rightarrow> bool" where
  "opened us = (\<lambda>(r, lib). handles lib (case r of None \<Rightarrow> us | Some h \<Rightarrow> us @ [h]))"

lemma opened_simps [simp]: "opened us (None, lib) = handles lib us" "opened us (Some h, lib) = handles lib (us @ [h])"
  by (simp_all add: opened_def)

lemma give_back_ok: "taken lib us h \<Longrightarrow> post (opened us) (give_back lib h)"
  by (simp add: give_back_def free_taken)

lemma check_file_open_ok:
  assumes "taken lib us h"
  shows "check_file_open lib h = Inr (\<exists>k \<in> set us. same_name lib k h)"
proof -
  obtain vs where l: "lists_ok lib (us @ [h]) vs" using assms by (auto simp: taken_def)
  have d: "distinct (us @ [h])" using l by (rule lists_distinct)
  have "set (us @ [h]) \<subseteq> {..<FATFS_MAX_OPEN_FILES}" using l by (auto simp: lists_ok_def)
  then have "length (us @ [h]) \<le> FATFS_MAX_OPEN_FILES"
    using card_mono[of "{..<FATFS_MAX_OPEN_FILES}" "set (us @ [h])"] distinct_card[OF d] by simp
  then have "fat_list_for_each FATFS_MAX_OPEN_FILES (fl_nodes lib) (fl_open_list lib) = Inr (us @ [h])"
    using fat_list_for_each_ok[of "fl_nodes lib" "fl_open_list lib" "us @ [h]"] l by (simp add: lists_ok_def)
  then show ?thesis using d by (auto simp: check_file_open_def same_name_def)
qed

lemma taken_apart:
  assumes "taken lib us h" "\<not> (\<exists>k \<in> set us. same_name lib k h)" shows "handles lib (us @ [h])"
  using assms by (auto simp: taken_def handles_def sorted_wrt_append)

lemma name_taken:
  assumes "taken lib us h" shows "taken (fl_upd lib h g) us h"
proof -
  obtain vs where l: "lists_ok lib (us @ [h]) vs" using assms by (auto simp: taken_def)
  then have "distinct (us @ [h])" by (rule lists_distinct)
  then have "same_name (fl_upd lib h g) a b = same_name lib a b" if "a \<in> set us" "b \<in> set us" for a b
    using that by (auto simp: same_name_def fl_upd_def)
  then have "sorted_wrt (\<lambda>a b. \<not> same_name (fl_upd lib h g) a b) us"
    using assms sorted_wrt_mono_rel[of us "\<lambda>a b. \<not> same_name lib a b"] by (auto simp: taken_def)
  then show ?thesis using l by (auto simp: taken_def lists_ok_def fl_upd_def)
qed

lemma name_file_ok:
  assumes "handles lib us" shows "post (opened us) (name_file lib path)"
proof -
  obtain vs where l: "lists_ok lib us vs" and s: "sorted_wrt (\<lambda>h k. \<not> same_name lib h k) us"
    using assms by (auto simp: handles_def)
  show ?thesis
  proof (cases vs)
    case Nil
    then show ?thesis using assms by (simp add: name_file_def allocate_file_ok(1)[OF l])
  next
    case (Cons h ws)
    obtain l1 where a: "allocate_file lib = (Some h, l1)" "lists_ok l1 (us @ [h]) ws" "fl_files l1 = fl_files lib"
      using allocate_file_ok(2)[OF l Cons] by auto
    have "taken l1 us h" using a s by (auto simp: taken_def same_name_def)
    then have t: "taken (fl_upd (fl_upd l1 h f) h g) us h" "taken (fl_upd l1 h f) us h" for f g
      by (simp_all add: name_taken)
    have parent: "handles (fl_upd l h (ff_parentcluster_update p)) us' = handles l us'" for l p us'
      by (rule kept_handles) (simp add: names_kept_upd)
    show ?thesis
      unfolding name_file_def a(1) prod.case option.case Let_def
      by (auto simp: check_file_open_ok[OF t(1)] parent intro!: post_any give_back_ok t
          taken_apart[OF t(1)] handles_taken split: option.splits prod.splits)
  qed
qed

section \<open>Opening and creating\<close>

lemma purge_lib_kept: "post (names_kept lib) (purge_lib lib)"
  by (auto simp: purge_lib_def intro: post_any)

text \<open>A handle whose name stays, then the buffers of the table written back.\<close>

lemma purge_opened:
  assumes "handles lib (us @ [h])" "\<And>f. ff_path (g f) = ff_path f" "\<And>f. ff_filename (g f) = ff_filename f"
  shows "post (opened us) (andThen (purge_lib (fl_upd lib h g)) (\<lambda>lib. Inr (Some h, lib)))"
proof -
  have "names_kept lib (fl_upd lib h g)" by (simp add: names_kept_upd assms(2,3))
  then show ?thesis using assms(1) by (auto intro!: post_bind[OF purge_lib_kept] simp: kept_handles)
qed

lemma open_file_ok:
  assumes "handles lib us" shows "post (opened us) (open_file lib path)"
  unfolding open_file_def
proof (rule post_bind[OF name_file_ok[OF assms]], clarify)
  fix r l assume o: "opened us (r, l)"
  show "post (opened us) (case r of None \<Rightarrow> Inr (None, l) | Some file \<Rightarrow>
      andThen (fatfs_get_file_entry (fl_fs l) (ff_parentcluster (fl_files l file)) (ff_filename (fl_files l file)))
        (\<lambda>(r, fs). let lib = l\<lparr>fl_fs := fs\<rparr> in case r of None \<Rightarrow> give_back lib file
          | Some sfEntry \<Rightarrow> if fatfs_entry_is_file sfEntry then
              andThen (purge_lib (fl_upd lib file (\<lambda>f. (reset_handle f)\<lparr>
                  ff_shortfilename := take FAT_SFN_SIZE_FULL (de_Name sfEntry),
                  ff_filelength := de_FileSize sfEntry,
                  ff_startcluster := entry_cluster sfEntry\<rparr>))) (\<lambda>lib. Inr (Some file, lib))
            else give_back lib file))"
  proof (cases r)
    case (Some h)
    then have h: "handles l (us @ [h])" "taken l us h" using o handles_taken by simp_all
    have p: "post (opened us) (andThen (purge_lib (fl_upd (l\<lparr>fl_fs := f\<rparr>) h (\<lambda>f. (reset_handle f)\<lparr>
        ff_shortfilename := a, ff_filelength := b, ff_startcluster := c\<rparr>))) (\<lambda>lib. Inr (Some h, lib)))" for f a b c
      by (rule purge_opened) (simp_all add: h reset_handle_def)
    have g: "post (opened us) (give_back (l\<lparr>fl_fs := f\<rparr>) h)" for f by (rule give_back_ok) (simp add: h)
    show ?thesis unfolding Some option.case Let_def
      by (rule post_any) (simp add: p g split: prod.split option.split)
  qed (use o in simp)
qed

lemma release_chain_ok: "taken lib us h \<Longrightarrow> post (opened us) (release_chain lib h)"
  unfolding release_chain_def by (auto intro!: post_any give_back_ok)

lemma upd_handles:
  assumes "\<And>f. ff_path (g f) = ff_path f" "\<And>f. ff_filename (g f) = ff_filename f"
  shows "handles (fl_upd lib h g) us = handles lib us" "taken (fl_upd lib h g) us k = taken lib us k"
proof -
  have "names_kept lib (fl_upd lib h g)" by (simp add: names_kept_upd assms)
  then show "handles (fl_upd lib h g) us = handles lib us" "taken (fl_upd lib h g) us k = taken lib us k"
    by (simp_all add: kept_handles kept_taken)
qed

lemma enter_name_ok:
  assumes "handles lib (us @ [h])" shows "post (opened us) (enter_name js lib h dir)"
proof -
  have t: "taken lib us h" using assms by (rule handles_taken)
  show ?thesis
    unfolding enter_name_def Let_def
  proof (rule post_any, clarsimp split del: if_split, goal_cases)
    case (1 sfn tailNum fs)
    have r: "post (opened us) (release_chain (fl_upd (lib\<lparr>fl_fs := f\<rparr>) h (ff_shortfilename_update g)\<lparr>fl_fs := k\<rparr>) h)"
      "post (opened us) (release_chain (fl_upd (lib\<lparr>fl_fs := f\<rparr>) h (ff_shortfilename_update g)) h)" for f g k
      by (rule release_chain_ok, simp add: upd_handles t)+
    have p: "post (opened us) (andThen (purge_lib (fl_upd (fl_upd (lib\<lparr>fl_fs := f\<rparr>) h (ff_shortfilename_update g)\<lparr>fl_fs := k\<rparr>) h
        (\<lambda>f. (reset_handle f)\<lparr>ff_filelength := 0\<rparr>))) (\<lambda>lib. Inr (Some h, lib)))" for f g k
      by (rule purge_opened) (simp_all add: upd_handles assms reset_handle_def)
    show ?case
    proof (cases "tailNum = 9999")
      case False
      then show ?thesis by (simp only: if_False) (rule post_any, simp add: r p split: prod.split)
    qed (simp add: r)
  qed
qed

lemma new_file_ok:
  assumes "handles lib us" shows "post (opened us) (new_file lib path)"
  unfolding new_file_def
proof (rule post_bind[OF name_file_ok[OF assms]], clarify)
  fix r l assume o: "opened us (r, l)"
  show "post (opened us) (case r of None \<Rightarrow> Inr (None, l) | Some file \<Rightarrow>
      andThen (fatfs_get_file_entry (fl_fs l) (ff_parentcluster (fl_files l file)) (ff_filename (fl_files l file)))
        (\<lambda>(r, fs). let lib = l\<lparr>fl_fs := fs\<rparr> in
          if r \<noteq> None then give_back lib file
          else andThen (fatfs_allocate_free_space fs True 0 1) (\<lambda>(ok, c, fs).
            let lib = fl_upd (lib\<lparr>fl_fs := fs\<rparr>) file (ff_startcluster_update (\<lambda>_. c)) in
            if \<not> ok then give_back lib file else Inr (Some file, lib))))"
  proof (cases r)
    case (Some h)
    then have h: "handles l (us @ [h])" "taken l us h" using o handles_taken by simp_all
    then show ?thesis by (auto simp: Some Let_def upd_handles intro!: post_any give_back_ok)
  qed (use o in simp)
qed

lemma create_file_ok:
  assumes "handles lib us" shows "post (opened us) (create_file js lib path)"
  unfolding create_file_def
  by (auto simp: assms intro!: post_bind[OF new_file_ok[OF assms]] enter_name_ok split: option.splits)

lemma fopen_steps:
  assumes "handles lib us"
  shows "post (opened us) (andThen (if a then open_file lib p else Inr (None, lib)) (\<lambda>(r, lib).
    andThen (if r = None \<and> b then create_file js lib p else Inr (r, lib)) (\<lambda>(r, lib).
    andThen (if c \<and> b \<and> r = None \<and> d then open_file lib p else Inr (r, lib)) (\<lambda>(r, lib).
      Inr (r, case r of None \<Rightarrow> lib | Some file \<Rightarrow> fl_upd lib file (ff_flags_update (\<lambda>_. flags)))))))"
proof (rule post_bind[where Q = "opened us"], goal_cases)
  case 1
  then show ?case using assms by (simp add: open_file_ok)
next
  case (2 x)
  obtain r l where x: "x = (r, l)" "opened us (r, l)" using 2 by (cases x) auto
  show ?case unfolding x(1) prod.case
  proof (rule post_bind[where Q = "opened us"], goal_cases)
    case 1
    then show ?case using x(2) by (auto intro: create_file_ok)
  next
    case (2 y)
    obtain r l where y: "y = (r, l)" "opened us (r, l)" using 2 by (cases y) auto
    show ?case unfolding y(1) prod.case
    proof (rule post_bind[where Q = "opened us"], goal_cases)
      case 1
      then show ?case using y(2) by (auto intro: open_file_ok)
    next
      case (2 z)
      then show ?case by (cases z) (auto simp: upd_handles split: option.splits)
    qed
  qed
qed

lemma fopen_ok:
  assumes "handles lib us" shows "post (opened us) (fl_fopen js lib path mode)"
proof (cases "\<not> fl_valid lib \<or> path = None \<or> mode = None")
  case True
  then show ?thesis
    unfolding fl_fopen_def Let_def handles_initialised[OF assms] by (auto simp: assms split: option.split)
next
  case False
  then obtain p m where v: "fl_valid lib" "path = Some p" "mode = Some m" by auto
  show ?thesis
    unfolding fl_fopen_def Let_def handles_initialised[OF assms] v(2,3) prod.case option.case
    by (simp only: v(1) not_True_eq_False if_False) (rule fopen_steps[OF assms])
qed


section \<open>Everything else keeps the names\<close>

text \<open>For a result with a value, and for one without.\<close>

abbreviation keeps :: "filelib \<Rightarrow> fault + 'a \<times> filelib \<Rightarrow> bool" where
  "keeps lib \<equiv> post (\<lambda>x. names_kept lib (snd x))"

lemma keeps_bind:
  assumes "keeps lib r" "\<And>x l. names_kept lib l \<Longrightarrow> post (\<lambda>y. names_kept l (f y)) (k (x, l))"
  shows "post (\<lambda>y. names_kept lib (f y)) (andThen r k)"
proof (rule post_bind[OF assms(1)])
  fix x :: "'a \<times> filelib" assume l: "names_kept lib (snd x)"
  show "post (\<lambda>y. names_kept lib (f y)) (k x)"
    using post_weaken[OF assms(2)[OF l, of "fst x"]] names_kept_trans[OF l] by simp
qed

lemma kept_bind:
  assumes "post (names_kept lib) r" "\<And>l. names_kept lib l \<Longrightarrow> post (\<lambda>y. names_kept l (f y)) (k l)"
  shows "post (\<lambda>y. names_kept lib (f y)) (andThen r k)"
proof (rule post_bind[OF assms(1)])
  fix l assume l: "names_kept lib l"
  show "post (\<lambda>y. names_kept lib (f y)) (k l)"
    by (rule post_weaken[OF assms(2)[OF l]]) (rule names_kept_trans[OF l])
qed

lemma upd_kept:
  assumes "\<And>f. ff_path (g f) = ff_path f" "\<And>f. ff_filename (g f) = ff_filename f"
  shows "names_kept lib (fl_upd l h g) = names_kept lib l"
  by (rule names_kept_upd) (rule assms)+

lemma lookup_kept [simp]:
  "names_kept lib (fl_upd l h (set_lookup i c)) = names_kept lib l"
  by (rule upd_kept) (simp_all add: set_lookup_def)

lemma read_sectors_kept: "keeps lib (read_sectors lib h offset count)"
proof (cases "(ucast (fs_sectors_per_cluster (fl_fs lib)) :: u32) = 0")
  case False
  show ?thesis unfolding read_sectors_def Let_def
    by (simp only: False if_False, rule keeps_bind) (auto intro!: post_any split: prod.splits)
qed (simp add: read_sectors_def Let_def)

lemma write_sectors_kept: "keeps lib (write_sectors lib h offset buf count)"
proof (cases "(ucast (fs_sectors_per_cluster (fl_fs lib)) :: u32) = 0")
  case False
  show ?thesis unfolding write_sectors_def Let_def
    by (simp only: False if_False, rule keeps_bind) (auto intro!: post_any split: prod.splits option.splits)
qed (simp add: write_sectors_def Let_def)

lemma kept_init [simp]: "handles lib us \<Longrightarrow> CHECK_FL_INIT lib = lib" "fl_initialised lib \<Longrightarrow> CHECK_FL_INIT lib = lib"
  by (rule handles_initialised) (simp_all add: CHECK_FL_INIT_def)

lemma fflush_kept:
  assumes "fl_initialised lib" shows "post (names_kept lib) (fl_fflush lib f)"
proof (cases f)
  case (Some h)
  have "post (names_kept lib) (andThen (write_sectors lib h (ff_data_address (fl_files lib h)) (ff_data_sector (fl_files lib h)) 1)
      (\<lambda>(n, lib). Inr (if n \<noteq> 0 then fl_upd lib h (ff_data_dirty_update (\<lambda>_. False)) else lib)))"
    by (rule keeps_bind[OF write_sectors_kept]) (simp add: upd_kept)
  then show ?thesis using assms Some by (simp add: fl_fflush_def Let_def)
qed (simp add: fl_fflush_def assms)

lemma fflush_if_dirty:
  "fl_initialised lib \<Longrightarrow>
   post (names_kept lib) (if b then fl_fflush lib f else Inr lib)"
  by (simp add: fflush_kept)

lemma drop_buffer_kept:
  assumes "fl_initialised lib" shows "post (names_kept lib) (drop_buffer lib h)"
proof (cases "ff_data_address (fl_files lib h) = 0xFFFFFFFF")
  case False
  then show ?thesis unfolding drop_buffer_def
    by (simp only: if_False) (rule kept_bind[where f = "\<lambda>x. x", OF fflush_if_dirty[OF assms]], simp add: upd_kept)
qed (simp add: drop_buffer_def)

lemma load_buffer_kept:
  assumes "fl_initialised lib" shows "post (names_kept lib) (load_buffer lib h sector whole)"
proof -
  have r: "post (names_kept l) (if whole then Inr l else andThen (read_sectors l h sector 1) (\<lambda>(r, lib).
      Inr (fl_upd lib h (ff_data_sector_update (\<lambda>_. case r of Some (_, bs) \<Rightarrow> bs | None \<Rightarrow> replicate FAT_SECTOR_SIZE 0)))))" for l
    by (cases whole) (auto simp: upd_kept intro!: keeps_bind[OF read_sectors_kept])
  have s: "post (names_kept l) (andThen (if whole then Inr l else andThen (read_sectors l h sector 1) (\<lambda>(r, lib).
      Inr (fl_upd lib h (ff_data_sector_update (\<lambda>_. case r of Some (_, bs) \<Rightarrow> bs | None \<Rightarrow> replicate FAT_SECTOR_SIZE 0)))))
      (\<lambda>lib. Inr (fl_upd lib h (\<lambda>f. f\<lparr>ff_data_address := sector, ff_data_dirty := False\<rparr>))))" for l
    by (rule kept_bind[where f = "\<lambda>x. x", OF r]) (simp add: upd_kept)
  show ?thesis
  proof (cases "ff_data_address (fl_files lib h) = sector")
    case False
    then show ?thesis unfolding load_buffer_def
      by (simp only: if_False) (rule kept_bind[where f = "\<lambda>x. x", OF fflush_if_dirty[OF assms] s])
  qed (simp add: load_buffer_def)
qed


lemma kept_initialised: "names_kept lib l \<Longrightarrow> fl_initialised lib \<Longrightarrow> fl_initialised l"
  by (simp add: names_kept_def)

lemma bump_kept [simp]: "names_kept lib (fl_upd l h (bump n)) = names_kept lib l"
  by (rule upd_kept) (simp_all add: bump_def)

lemma fread_loop_kept: "fl_initialised lib \<Longrightarrow> keeps lib (fread_loop fuel lib h sector offset count out)"
proof (induction fuel arbitrary: lib sector offset out)
  case (Suc fuel)
  let ?whole = "offset = 0 \<and> 512 \<le> count - int (length out)"
  have go: "keeps l (fread_loop fuel (fl_upd l h (bump n)) h s 0 count bs)" if "fl_initialised l" for l n s bs
  proof (rule post_weaken[OF Suc.IH])
    show "fl_initialised (fl_upd l h (bump n))" using that by (simp add: fl_upd_def)
    show "names_kept l (snd x)" if "names_kept (fl_upd l h (bump n)) (snd x)" for x
      by (rule names_kept_trans[OF _ that]) simp
  qed
  have whole: "keeps lib (andThen (read_sectors lib h sector c) (\<lambda>(r, lib). case r of
            None \<Rightarrow> Inr (out, lib)
          | Some (sectorsRead, bs) \<Rightarrow>
              fread_loop fuel (fl_upd lib h (bump (512 * sectorsRead))) h (sector + sectorsRead) 0 count (out @ bs)))" for c
    by (rule keeps_bind[OF read_sectors_kept]) (auto intro!: go kept_initialised[OF _ Suc.prems] split: option.split)
  have fill: "keeps lib (if ff_data_address (fl_files lib h) \<noteq> sector then
             andThen (if ff_data_dirty (fl_files lib h) then fl_fflush lib (Some h) else Inr lib) (\<lambda>lib.
             andThen (read_sectors lib h sector 1) (\<lambda>(r, lib). case r of
                 None \<Rightarrow> Inr (False, lib)
               | Some (_, bs) \<Rightarrow> Inr (True, fl_upd lib h (\<lambda>f. f\<lparr>ff_data_sector := bs, ff_data_address := sector,
                     ff_data_dirty := False\<rparr>))))
           else Inr (True, lib))"
  proof (cases "ff_data_address (fl_files lib h) = sector")
    case False
    have f: "keeps l (andThen (read_sectors l h sector 1) (\<lambda>(r, lib). case r of
                 None \<Rightarrow> Inr (False, lib)
               | Some (_, bs) \<Rightarrow> Inr (True, fl_upd lib h (\<lambda>f. f\<lparr>ff_data_sector := bs, ff_data_address := sector,
                     ff_data_dirty := False\<rparr>))))" for l
      by (rule keeps_bind[OF read_sectors_kept]) (auto simp: upd_kept split: option.split)
    show ?thesis
      by (simp only: False not_False_eq_True if_True) (rule kept_bind[where f = snd, OF fflush_if_dirty[OF Suc.prems] f])
  qed simp
  show ?case
  proof (cases "int (length out) < count")
    case lt: True
    show ?thesis
    proof (cases ?whole)
      case True
      show ?thesis unfolding fread_loop.simps
        by (simp only: lt not_True_eq_False if_False True simp_thms if_True) (rule whole)
    next
      case False
      show ?thesis unfolding fread_loop.simps Let_def
        by (simp only: lt not_True_eq_False if_False False, rule keeps_bind[where f = snd, OF fill])
          (auto intro!: go kept_initialised[OF _ Suc.prems])
    qed
  qed simp
qed simp

lemma fread_kept:
  assumes "fl_initialised lib" shows "post (\<lambda>(_, _, l). names_kept lib l) (fl_fread lib a b f)"
proof -
  have loop: "post (\<lambda>(_, _, l). names_kept lib l) (andThen (fread_loop n lib h s o' c []) (\<lambda>(out, lib). Inr (int (length out), out, lib)))"
    for n h s o' c
    by (rule post_bind[OF fread_loop_kept[OF assms]]) auto
  show ?thesis
    unfolding fl_fread_def Let_def using assms by (simp add: loop del: fread_loop.simps split: option.split)
qed


lemma fwrite_loop_kept: "fl_initialised lib \<Longrightarrow> post (names_kept lib) (fwrite_loop fuel lib h sector offset buffer)"
proof (induction fuel arbitrary: lib sector offset buffer)
  case (Suc fuel)
  let ?whole = "offset = 0 \<and> 512 \<le> length buffer"
  have go: "post (names_kept l) (fwrite_loop fuel (fl_upd l h g) h s 0 bs)"
    if "fl_initialised l" "names_kept l (fl_upd l h g)" for l g s bs
    using post_weaken[OF Suc.IH[of "fl_upd l h g"]] that names_kept_trans[OF that(2)] by (simp add: fl_upd_def)
  have whole: "post (names_kept l) (andThen (write_sectors l h sector buffer c) (\<lambda>(sectorsWrote, lib).
          let lib = fl_upd lib h (bump (512 * sectorsWrote)) in
          if sectorsWrote = 0 then Inr lib
          else fwrite_loop fuel lib h (sector + sectorsWrote) 0 (drop (512 * unat sectorsWrote) buffer)))"
    if "fl_initialised l" for l c
    by (rule keeps_bind[where f = "\<lambda>x. x", OF write_sectors_kept])
      (auto simp: Let_def intro!: go kept_initialised[OF _ that])
  show ?case
  proof (cases "buffer = []")
    case ne: False
    show ?thesis
    proof (cases ?whole)
      case True
      show ?thesis unfolding fwrite_loop.simps
        by (simp only: ne if_False True simp_thms if_True, rule kept_bind[where f = "\<lambda>x. x", OF drop_buffer_kept[OF Suc.prems]])
          (rule whole, rule kept_initialised[OF _ Suc.prems])
    next
      case False
      show ?thesis unfolding fwrite_loop.simps Let_def
        by (simp only: ne if_False False, rule kept_bind[where f = "\<lambda>x. x", OF load_buffer_kept[OF Suc.prems]])
          (auto simp: upd_kept bump_def intro!: go kept_initialised[OF _ Suc.prems])
    qed
  qed simp
qed simp

lemma fwrite_kept:
  assumes "fl_initialised lib" shows "keeps lib (fl_fwrite lib data f)"
proof -
  have loop: "keeps lib (andThen (fwrite_loop n l h s o' data) (\<lambda>lib. Inr (k, fl_upd lib h (\<lambda>f.
      if ff_filelength f < ff_bytenum f then f\<lparr>ff_filelength := ff_bytenum f, ff_filelength_changed := True\<rparr> else f))))"
    if "names_kept lib l" for n l h s o' k
  proof (rule post_bind[OF fwrite_loop_kept[OF kept_initialised[OF that assms]]])
    fix l2 assume "names_kept l l2"
    then show "keeps lib (Inr (k, fl_upd l2 h (\<lambda>f.
      if ff_filelength f < ff_bytenum f then f\<lparr>ff_filelength := ff_bytenum f, ff_filelength_changed := True\<rparr> else f)))"
      using names_kept_trans[OF that] by (simp add: upd_kept)
  qed
  have a: "names_kept lib (fl_upd lib h (\<lambda>f. f\<lparr>ff_bytenum := ff_filelength f\<rparr>))" for h by (simp add: upd_kept)
  show ?thesis
    unfolding fl_fwrite_def Let_def using assms by (simp add: loop a del: fwrite_loop.simps split: option.split)
qed

lemma fseek_kept: "fl_initialised lib \<Longrightarrow> keeps lib (fl_fseek lib f offset origin)"
  unfolding fl_fseek_def Let_def by (auto simp: upd_kept split: option.split)


section \<open>Closing, removing, directories\<close>

lemma sorted_wrt_remove1: "sorted_wrt P xs \<Longrightarrow> sorted_wrt P (remove1 x xs)"
  using set_remove1_subset by (induction xs) fastforce+

lemma free_handles:
  assumes "handles lib us" "h \<in> set us" shows "handles (free_file lib h) (remove1 h us)"
  using assms free_file_ok[of lib us _ h] sorted_wrt_remove1 by (fastforce simp: handles_def same_name_def)

lemma fclose_handles:
  assumes u: "handles lib us" and h: "h \<in> set us"
  shows "post (\<lambda>l. handles l (remove1 h us)) (fl_fclose lib (Some h))"
proof -
  have i: "fl_initialised lib" using u by (auto simp: handles_def lists_ok_def)
  have last: "post (\<lambda>l. handles l (remove1 h us)) (purge_lib (free_file (fl_upd l h (\<lambda>f. f\<lparr>ff_bytenum := 0,
      ff_filelength := 0, ff_startcluster := 0, ff_data_address := 0xFFFFFFFF, ff_data_dirty := False,
      ff_filelength_changed := False\<rparr>)) h))" if "handles l us" for l
  proof (rule post_weaken[OF purge_lib_kept])
    fix l2 assume k: "names_kept (free_file (fl_upd l h (\<lambda>f. f\<lparr>ff_bytenum := 0, ff_filelength := 0,
      ff_startcluster := 0, ff_data_address := 0xFFFFFFFF, ff_data_dirty := False, ff_filelength_changed := False\<rparr>)) h) l2"
    show "handles l2 (remove1 h us)"
      unfolding kept_handles[OF k] by (rule free_handles) (simp_all add: that h upd_handles)
  qed
  have update: "post (\<lambda>l2. handles l2 us) (if b then andThen r (\<lambda>(_, fs). Inr (l\<lparr>fl_fs := fs\<rparr>)) else Inr l)"
    if "handles l us" for l b r
    using that by (auto intro!: post_any)
  show ?thesis
    unfolding fl_fclose_def Let_def handles_initialised[OF u] option.case
  proof (rule post_bind[OF fflush_kept[OF i]], rule post_bind)
    fix l assume "names_kept lib l"
    then have l: "handles l us" using u kept_handles by blast
    show "post (\<lambda>l2. handles l2 us) (if ff_filelength_changed (fl_files l h) then
        andThen (fatfs_update_file_length (fl_fs l) (ff_parentcluster (fl_files l h)) (ff_shortfilename (fl_files l h))
            (ff_filelength (fl_files l h))) (\<lambda>(_, fs). Inr (l\<lparr>fl_fs := fs\<rparr>))
        else Inr l)" by (rule update[OF l])
  qed (rule last)
qed

text \<open>A removal that fails after the file has been opened leaves it open.\<close>

lemma remove_handles:
  assumes u: "handles lib us" and o: "fl_fopen js lib (Some p) (Some [114]) = Inr (r, l)"
  shows "post (\<lambda>(res, l2). if res = 0 then handles l2 us else opened us (r, l2)) (fl_remove js lib p)"
proof (cases r)
  case None
  then show ?thesis using postD[OF fopen_ok[OF u] o] by (simp add: fl_remove_def o)
next
  case (Some h)
  have l: "handles l (us @ [h])" using postD[OF fopen_ok[OF u] o] Some by simp
  obtain vs where v: "lists_ok l (us @ [h]) vs" using l by (auto simp: handles_def)
  have "remove1 h (us @ [h]) = us" using lists_distinct[OF v] by (simp add: remove1_append)
  then have c: "post (\<lambda>l2. handles l2 us) (fl_fclose (l\<lparr>fl_fs := fs\<rparr>) (Some h))" for fs
    using fclose_handles[of "l\<lparr>fl_fs := fs\<rparr>" "us @ [h]" h] l by simp
  have close: "post (\<lambda>(res, l2). (res = 0 \<longrightarrow> handles l2 us) \<and> (res \<noteq> 0 \<longrightarrow> handles l2 (us @ [h])))
      (andThen (fl_fclose (l\<lparr>fl_fs := fs\<rparr>) (Some h)) (\<lambda>lib. Inr (0, lib)))" for fs
    by (rule post_bind[OF c]) simp
  show ?thesis
    unfolding fl_remove_def o andThen_Inr prod.case Some option.case Let_def
    by (auto simp: l intro!: post_any[where r = "fatfs_free_cluster_chain a b" for a b]
        post_any[where r = "fatfs_mark_file_deleted a b c" for a b c] close)
qed

lemma mkdir_handles:
  assumes u: "handles lib us" shows "post (\<lambda>(_, l). handles l us) (fl_createdirectory js lib p)"
proof -
  have e: "post (\<lambda>(_, l). handles l us) (andThen (enter_name js l h True) (\<lambda>(r, lib). case r of
      None \<Rightarrow> Inr (False, lib) | Some file \<Rightarrow> Inr (True, free_file lib file)))" if "handles l (us @ [h])" for l h
    by (rule post_bind[OF enter_name_ok[OF that]]) (auto intro!: free_taken[OF handles_taken] split: option.splits)
  show ?thesis
    unfolding fl_createdirectory_def create_directory_def handles_initialised[OF u]
  proof (rule post_bind[OF new_file_ok[OF u]], clarify)
    fix r l assume o: "opened us (r, l)"
    show "post (\<lambda>(_, l). handles l us) (case r of None \<Rightarrow> Inr (False, l) | Some file \<Rightarrow>
          let zeros = replicate FAT_SECTOR_SIZE 0;
              lib = fl_upd l file (ff_data_sector_update (\<lambda>_. zeros))
          in andThen (erase_sectors (fl_fs lib) (ff_startcluster (fl_files lib file)) 0
                (unat (fs_sectors_per_cluster (fl_fs lib))) (Some zeros)) (\<lambda>(ok, fs).
             let lib = lib\<lparr>fl_fs := fs\<rparr> in
             if \<not> ok then Inr (False, free_file lib file)
             else andThen (enter_name js lib file True) (\<lambda>(r, lib). case r of
                 None \<Rightarrow> Inr (False, lib)
               | Some file \<Rightarrow> Inr (True, free_file lib file))))"
    proof (cases r)
      case (Some h)
      have h: "handles l (us @ [h])" using o Some by simp
      have z: "handles (fl_upd l h (ff_data_sector_update g)\<lparr>fl_fs := fs\<rparr>) (us @ [h])" for g fs
        using h by (simp add: upd_handles)
      show ?thesis unfolding Some option.case Let_def
        by (rule post_any) (auto intro!: e[OF z] free_taken[OF handles_taken[OF z]] split del: option.splits)
    qed (use o in simp)
  qed
qed

section \<open>Initialising\<close>

lemma init_handles: "lists_ok (fl_init lib) [] [0, 1]"
proof -
  have "list_holds (fat_list_insert_last (fl_nodes lib, fat_list_init) 0) [0]"
    using fat_list_insert_last_ok[OF fat_list_init_ok, of 0] by simp
  then have "list_holds (fat_list_insert_last (fat_list_insert_last (fl_nodes lib, fat_list_init) 0) 1) [0, 1]"
    using fat_list_insert_last_ok[of _ _ "[0]" 1] by (metis One_nat_def append_Cons append_Nil empty_iff
        insert_iff list.set surj_pair zero_neq_one)
  then show ?thesis
    by (auto simp: lists_ok_def fl_init_def FATFS_MAX_OPEN_FILES_def fat_list_init_ok upt_rec lessThan_Suc
        numeral_2_eq_2 split: prod.splits)
qed

section \<open>Opening the file of the small volume\<close>

lemma purge_clean:
  "\<forall>b \<in> set (fs_fat_buffers fs). \<not> fb_dirty b \<Longrightarrow> i + k \<le> length (fs_fat_buffers fs) \<Longrightarrow> purge_from fs i k = Inr (True, fs)"
  by (induction k arbitrary: i) auto

lemma volume_purge:
  assumes "holds_volume fs" shows "fatfs_fat_purge fs = Inr (True, fs)"
proof -
  have "\<forall>b \<in> set (fs_fat_buffers fs). \<not> fb_dirty b"
    using assms by (auto simp: holds_volume_def small_fat_def fatfs_fat_init_def FAT_BUFFERS_def)
  then show ?thesis using purge_clean[of fs 0 "length (fs_fat_buffers fs)"] by (simp add: fatfs_fat_purge_def)
qed

lemma volume_search:
  assumes v: "holds_volume fs" and a: "fb_address (fs_currentsector fs) = FAT32_INVALID_CLUSTER"
  shows "\<exists>b. fatfs_get_file_entry fs 3 [65] = Inr (Some (decode_dir_entry file_entry), fs\<lparr>fs_currentsector := b\<rparr>)"
proof -
  define b where "b = (fs_currentsector fs)\<lparr>fb_address := 3, fb_sector := md_bytes (fs_disk_io fs) 3 1\<rparr>"
  have g: "fs_sectors_per_cluster fs = 1" "fs_fat_type fs = FAT_TYPE_32" "reliable (fs_disk_io fs)"
    using v by (simp_all add: holds_volume_def)
  have r: "fatfs_sector_reader fs 3 0 = Inr (True, fs\<lparr>fs_currentsector := b\<rparr>)"
    using g a by (simp add: fatfs_sector_reader_def reader_lba_def volume_lba[OF v] FAT32_LAST_CLUSTER_def
        FAT32_INVALID_CLUSTER_def read_current_def media_read_def reliable_def set_current_def b_def)
  have "md_bytes (fs_disk_io fs) 3 1 = chain_sector fs [3, 5, 4] 0"
    using chain_sectors[OF volume_chains(1)[OF v], of 0 0 1] g by (simp add: volume_lba[OF v] chain_sector_def)
  moreover have "\<exists>es. sector_entries (chain_sector fs [3, 5, 4] 0) = file_entry # es"
    using first_sector_entries_of[OF v] .
  ultimately obtain es where "sector_entries (fb_sector b) = file_entry # es" by (auto simp: b_def)
  then have "entry_scan [65] (sector_entries (fb_sector b)) empty_lfn = (Some (decode_dir_entry file_entry), empty_lfn)"
    using file_entry_found by simp
  then show ?thesis by (auto simp: fatfs_get_file_entry_def dir_fuel_def r simp del: entry_scan.simps)
qed

lemma volume_open:
  assumes v: "holds_volume (fl_fs lib)" and a: "fb_address (fs_currentsector (fl_fs lib)) = FAT32_INVALID_CLUSTER"
    and p: "fs_rootdir_first_cluster (fl_fs lib) = 3" and l: "lists_ok lib [] [0, 1]"
  shows "\<exists>lib' b. open_file lib [47, 65] = Inr (Some 0, lib') \<and> fl_fs lib' = (fl_fs lib)\<lparr>fs_currentsector := b\<rparr> \<and>
    ff_startcluster (fl_files lib' 0) = 6 \<and> ff_filelength (fl_files lib' 0) = 300"
proof -
  obtain l1 where al: "allocate_file lib = (Some 0, l1)" "lists_ok l1 ([] @ [0]) [1]" "fl_fs l1 = fl_fs lib"
    using allocate_file_ok(2)[OF l refl] by auto
  define l2 where "l2 = fl_upd (fl_upd l1 0 (\<lambda>f. f\<lparr>ff_path := [], ff_filename := []\<rparr>)) 0 (\<lambda>f. f\<lparr>ff_path := [], ff_filename := [65]\<rparr>)"
  have "taken l1 [] 0" using al(2) by (auto simp: taken_def)
  then have t: "taken l2 [] 0" unfolding l2_def by (intro name_taken)
  have s: "fatfs_split_path [47, 65] FATFS_MAX_LONG_FILENAME FATFS_MAX_LONG_FILENAME = Inr (Some ([], [65]))"
    by code_simp
  define l3 where "l3 = fl_upd l2 0 (ff_parentcluster_update (\<lambda>_. 3))"
  have f3: "fl_fs l3 = fl_fs lib" "ff_filename (fl_files l3 0) = [65]" "ff_parentcluster (fl_files l3 0) = 3"
    by (simp_all add: l3_def l2_def fl_upd_def al(3))
  have n: "name_file lib [47, 65] = Inr (Some 0, l3)"
    unfolding name_file_def al(1) prod.case option.case Let_def s andThen_Inr l2_def[symmetric] check_file_open_ok[OF t]
    by (simp add: l3_def fatfs_get_root_cluster_def p) (simp add: l2_def fl_upd_def al(3) p)
  obtain b where g: "fatfs_get_file_entry (fl_fs lib) 3 [65] =
      Inr (Some (decode_dir_entry file_entry), (fl_fs lib)\<lparr>fs_currentsector := b\<rparr>)"
    using volume_search[OF v a] by blast
  have "holds_volume ((fl_fs lib)\<lparr>fs_currentsector := b\<rparr>)" using v by (simp add: holds_volume_def)
  note pu = volume_purge[OF this]
  have "fatfs_entry_is_file (decode_dir_entry file_entry)" by code_simp
  then show ?thesis
    by (auto simp: open_file_def n f3 g purge_lib_def fl_upd_def pu)
qed

definition volume_lib :: "fatfs \<Rightarrow> filelib" where
  "volume_lib fs = fl_init (small_lib\<lparr>fl_fs := fs\<rparr>)"

lemma volume_lib_fields [simp]:
  "fl_fs (volume_lib fs) = fs" "fl_valid (volume_lib fs)" "fl_initialised (volume_lib fs)"
  by (simp_all add: volume_lib_def small_lib_def fl_init_def split: prod.split)

lemma volume_fopen:
  assumes v: "holds_volume fs" and a: "fb_address (fs_currentsector fs) = FAT32_INVALID_CLUSTER"
    and p: "fs_rootdir_first_cluster fs = 3"
  shows "\<exists>lib' b. fl_fopen js (volume_lib fs) (Some [47, 65]) (Some [114, 98]) = Inr (Some 0, lib') \<and>
    fl_fs lib' = fs\<lparr>fs_currentsector := b\<rparr> \<and>
    ff_startcluster (fl_files lib' 0) = 6 \<and> ff_filelength (fl_files lib' 0) = 300"
proof -
  obtain l2 b where o: "open_file (volume_lib fs) [47, 65] = Inr (Some 0, l2)" "fl_fs l2 = fs\<lparr>fs_currentsector := b\<rparr>"
    "ff_startcluster (fl_files l2 0) = 6" "ff_filelength (fl_files l2 0) = 300"
    using volume_open[of "volume_lib fs"] v a p init_handles[of "small_lib\<lparr>fl_fs := fs\<rparr>"]
    by (auto simp flip: volume_lib_def)
  have m: "mode_flags [114, 98] = 9" by (simp add: mode_flags_def mode_flag_def FILE_READ_def FILE_BINARY_def)
  have f: "(9 :: u8) AND NOT FILE_CREATE AND NOT FILE_WRITE AND NOT FILE_APPEND = 9"
    "(9 :: u8) AND FILE_READ \<noteq> 0" "(9 :: u8) AND FILE_CREATE = 0"
    by (simp_all add: FILE_READ_def FILE_CREATE_def FILE_WRITE_def FILE_APPEND_def)
  have "fl_fopen js (volume_lib fs) (Some [47, 65]) (Some [114, 98]) = Inr (Some 0, fl_upd l2 0 (ff_flags_update (\<lambda>_. 9)))"
    by (cases "md_can_write (fs_disk_io fs)") (simp_all add: fl_fopen_def Let_def CHECK_FL_INIT_def m f o(1))
  moreover have "fl_fs (fl_upd l2 0 (ff_flags_update (\<lambda>_. 9))) = fs\<lparr>fs_currentsector := b\<rparr>"
    "ff_startcluster (fl_files (fl_upd l2 0 (ff_flags_update (\<lambda>_. 9))) 0) = 6"
    "ff_filelength (fl_files (fl_upd l2 0 (ff_flags_update (\<lambda>_. 9))) 0) = 300"
    using o(2-4) by (simp_all add: fl_upd_def)
  ultimately show ?thesis by blast
qed

lemma dir_volume_fields [simp]:
  "fb_address (fs_currentsector dir_volume) = FAT32_INVALID_CLUSTER" "fs_rootdir_first_cluster dir_volume = 3"
  by (simp_all add: dir_volume_def)

end
