(* ===== verification/WindowsProofs.thy ===== *)
theory WindowsProofs
  imports VtoyWindows FatHandles
begin

text \<open>
  What the Windows tool promises: the drive it picks, the letter it mounts on, and that a file
  copied from the FAT partition holds the bytes the cluster chain puts on the disk.
\<close>

section \<open>Opening a file for reading\<close>

lemma purge_lib_files:
  assumes "purge_lib lib = Inr lib'"
  shows "fl_files lib' = fl_files lib" "fl_initialised lib' = fl_initialised lib"
  using assms by (auto simp: purge_lib_def andThen_eq_Inr)

lemma allocate_file_initialised:
  "allocate_file lib = (r, lib') \<Longrightarrow> fl_initialised lib' = fl_initialised lib"
  by (auto simp: allocate_file_def Let_def split: prod.splits option.splits)

lemma fl_upd_initialised [simp]: "fl_initialised (fl_upd lib h f) = fl_initialised lib"
  by (simp add: fl_upd_def)

lemma give_back_initialised:
  "give_back lib h = Inr (r, lib') \<Longrightarrow> fl_initialised lib' = fl_initialised lib \<and> r = None"
  by (auto simp: give_back_def free_file_def split: prod.splits)

lemma name_file_initialised:
  assumes "name_file lib path = Inr (r, lib')" shows "fl_initialised lib' = fl_initialised lib"
proof (cases "allocate_file lib")
  case (Pair a l1)
  have i: "fl_initialised l1 = fl_initialised lib" using Pair by (rule allocate_file_initialised)
  have g: "post (\<lambda>(r, l2). fl_initialised l2 = fl_initialised lib) (give_back l h)"
    if "fl_initialised l = fl_initialised lib" for l h
    using that by (auto simp: post_def dest: give_back_initialised split: sum.splits)
  have "post (\<lambda>(r, l2). fl_initialised l2 = fl_initialised lib) (name_file lib path)"
    unfolding name_file_def Pair prod.case
    by (auto simp: i Let_def intro!: post_any g split: option.splits prod.splits)
  then show ?thesis using assms by simp
qed

lemma open_file_fresh:
  assumes "open_file lib path = Inr (Some h, lib')"
  shows "\<exists>f e. fl_files lib' h = (reset_handle f)\<lparr>ff_shortfilename := take FAT_SFN_SIZE_FULL (de_Name e),
      ff_filelength := de_FileSize e, ff_startcluster := entry_cluster e\<rparr>"
    "fl_initialised lib' = fl_initialised lib"
proof -
  obtain r l1 where n: "name_file lib path = Inr (r, l1)" using assms by (auto simp: open_file_def andThen_eq_Inr)
  have i: "fl_initialised l1 = fl_initialised lib" by (rule name_file_initialised[OF n])
  obtain e fs l2 where l: "purge_lib (fl_upd (l1\<lparr>fl_fs := fs\<rparr>) h (\<lambda>f. (reset_handle f)\<lparr>
      ff_shortfilename := take FAT_SFN_SIZE_FULL (de_Name e), ff_filelength := de_FileSize e,
      ff_startcluster := entry_cluster e\<rparr>)) = Inr lib'"
    using assms n unfolding open_file_def
    by (auto simp: andThen_eq_Inr Let_def dest: give_back_initialised split: option.splits if_splits)
  show "\<exists>f e. fl_files lib' h = (reset_handle f)\<lparr>ff_shortfilename := take FAT_SFN_SIZE_FULL (de_Name e),
      ff_filelength := de_FileSize e, ff_startcluster := entry_cluster e\<rparr>"
    using purge_lib_files(1)[OF l] by (auto simp: fl_upd_def)
  show "fl_initialised lib' = fl_initialised lib" using purge_lib_files(2)[OF l] i by simp
qed

lemma mode_rb: "mode_flags (bytes_of ''rb'') = 9"
  by (simp add: mode_flags_def bytes_of_def mode_flag_def of_char_def FILE_READ_def FILE_BINARY_def)

lemma fopen_rb:
  assumes "fl_fopen js lib (Some src) (Some (bytes_of ''rb'')) = Inr (Some h, l1)"
  shows "fl_initialised l1" "ff_flags (fl_files l1 h) AND FILE_READ \<noteq> 0" "ff_bytenum (fl_files l1 h) = 0"
    "ff_data_address (fl_files l1 h) = 0xFFFFFFFF" "\<not> ff_data_dirty (fl_files l1 h)"
    "\<not> ff_filelength_changed (fl_files l1 h)" "ff_ClusterIdx (fl_files l1 h) = 0xFFFFFFFF"
proof -
  have "(9 :: u8) AND NOT FILE_CREATE AND NOT FILE_WRITE AND NOT FILE_APPEND = 9"
    "(9 :: u8) AND FILE_READ \<noteq> 0" "(9 :: u8) AND FILE_CREATE = 0"
    by (simp_all add: FILE_READ_def FILE_CREATE_def FILE_WRITE_def FILE_APPEND_def)
  note f = this
  obtain l2 where o: "open_file (CHECK_FL_INIT lib) src = Inr (Some h, l2)"
    and l1: "l1 = fl_upd l2 h (ff_flags_update (\<lambda>_. 9))"
    using assms unfolding fl_fopen_def by (auto simp: mode_rb f Let_def andThen_eq_Inr split: if_splits option.splits)
  have "fl_initialised (CHECK_FL_INIT lib)" by (auto simp: CHECK_FL_INIT_def fl_init_def split: prod.splits)
  then show "fl_initialised l1" using open_file_fresh(2)[OF o] l1 by simp
  show "ff_flags (fl_files l1 h) AND FILE_READ \<noteq> 0" "ff_bytenum (fl_files l1 h) = 0"
    "ff_data_address (fl_files l1 h) = 0xFFFFFFFF" "\<not> ff_data_dirty (fl_files l1 h)"
    "\<not> ff_filelength_changed (fl_files l1 h)" "ff_ClusterIdx (fl_files l1 h) = 0xFFFFFFFF"
    using open_file_fresh(1)[OF o] f(2) by (auto simp: l1 fl_upd_def reset_handle_def)
qed

section \<open>The partition as a medium\<close>

definition disk_reads :: "windows \<Rightarrow> nat \<Rightarrow> nat \<Rightarrow> bool" where
  "disk_reads w n len \<longleftrightarrow> len < 2 ^ 64 \<and> (\<forall>a k. a + k \<le> len \<longrightarrow> wn_disk_read w n a k)"

text \<open>A sector is where the partition starts and the sector number say, without wrap-around.\<close>

lemma sector_read:
  assumes r: "disk_reads w n len" and l: "(unat start + unat s + 1) * 512 \<le> len"
  shows "VentoyFatDiskRead w n d start s buf 1 = (1, disk_bytes d ((unat start + unat s) * 512) 512 @ drop 512 buf)"
proof -
  have b: "(unat start + unat s) * 512 < 2 ^ 64" "unat start + unat s < 2 ^ 64"
    using r l by (simp_all add: disk_reads_def)
  have u: "unat (ucast s :: u64) = unat s"
    using unat_bound[of s] by (simp add: unsigned_ucast_eq take_bit_nat_eq_self)
  have len: "LENGTH(64) = 64" "unat (512 :: u64) = 512" by simp_all
  have a: "unat (ucast s + start :: u64) = unat start + unat s"
    unfolding unat_word_ariths(1) u len(1) add.commute[of "unat s"] by (rule mod_less[OF b(2)])
  have p: "unat ((ucast s + start) * 512 :: u64) = (unat start + unat s) * 512"
    unfolding unat_word_ariths(2) a len by (rule mod_less[OF b(1)])
  have "wn_disk_read w n ((unat start + unat s) * 512) 512"
    using r l by (simp add: disk_reads_def algebra_simps)
  then show ?thesis unfolding VentoyFatDiskRead_def Let_def p by simp
qed

lemma partition_byte:
  assumes r: "disk_reads w n len" and l: "(unat start + i div 512 + 1) * 512 \<le> len" and i: "i div 512 < 2 ^ 32"
  shows "md_byte (fat_partition w n d start) i = d (unat start * 512 + i)"
proof -
  have s: "unat (word_of_nat (i div 512) :: u32) = i div 512" using i by (simp add: unat_of_nat)
  have "md_byte (fat_partition w n d start) i =
      (disk_bytes d ((unat start + i div 512) * 512) 512 @ drop 512 (map (wn_junk w) [0..<512])) ! (i mod 512)"
    using sector_read[OF r, of start "word_of_nat (i div 512)"] l unfolding s by (simp add: fat_partition_def)
  then show ?thesis by (simp add: disk_bytes_def nth_append algebra_simps)
qed

section \<open>Copying a file\<close>

text \<open>The place on the disk of byte \<open>i\<close> of a file.\<close>

definition disk_place :: "fatfs \<Rightarrow> u64 \<Rightarrow> u32 list \<Rightarrow> nat \<Rightarrow> nat" where
  "disk_place fs start cs i =
     (unat start + unat (fatfs_lba_of_cluster fs (cs ! (i div cluster_bytes fs)))) * 512 + i mod cluster_bytes fs"

lemma chain_byte_on_disk:
  assumes m: "fs_disk_io fs = fat_partition w n d start" and c: "chain_ok fs p cs" and r: "disk_reads w n len"
    and l: "\<forall>c \<in> set cs. (unat start + unat (fatfs_lba_of_cluster fs c) + unat (fs_sectors_per_cluster fs)) * 512 \<le> len"
    and i: "i < file_sectors fs cs * 512"
  shows "chain_byte fs cs i = d (disk_place fs start cs i)"
proof -
  let ?spc = "unat (fs_sectors_per_cluster fs)" let ?c = "cs ! (i div cluster_bytes fs)"
  let ?l = "unat (fatfs_lba_of_cluster fs ?c)" let ?o = "i mod cluster_bytes fs"
  have cb: "cluster_bytes fs = ?spc * 512" by (simp add: cluster_bytes_def)
  have pos: "0 < ?spc" using c by (simp add: chain_ok_def unat_gt_0)
  have "i div cluster_bytes fs < length cs"
    using i pos by (simp add: cb file_sectors_def less_mult_imp_div_less ac_simps)
  then have "?c \<in> set cs" by simp
  then have b: "?l + ?spc < 2 ^ 32" "(unat start + ?l + ?spc) * 512 \<le> len"
    using c l by (auto simp: chain_ok_def cluster_apart_def)
  have o: "?o < ?spc * 512" using pos by (simp add: cb)
  then have k: "(?l * 512 + ?o) div 512 < ?l + ?spc" by (simp add: less_mult_imp_div_less)
  have "md_byte (fat_partition w n d start) (?l * 512 + ?o) = d (unat start * 512 + (?l * 512 + ?o))"
  proof (rule partition_byte[OF r])
    show "(?l * 512 + ?o) div 512 < 2 ^ 32" by (rule less_trans[OF k b(1)])
    have "(unat start + (?l * 512 + ?o) div 512 + 1) * 512 \<le> (unat start + ?l + ?spc) * 512"
      by (rule mult_le_mono1) (use k in simp)
    then show "(unat start + (?l * 512 + ?o) div 512 + 1) * 512 \<le> len" using b(2) by (rule le_trans)
  qed
  then show ?thesis by (simp add: chain_byte_def m disk_place_def add_mult_distrib add.assoc)
qed

lemma fclose_ok:
  assumes "fl_initialised lib" "\<not> ff_data_dirty (fl_files lib h)" "\<not> ff_filelength_changed (fl_files lib h)"
    "table_ok (fl_fs lib)"
  shows "\<exists>lib'. fl_fclose lib (Some h) = Inr lib'"
proof -
  have f: "CHECK_FL_INIT lib = lib" "fl_fflush lib (Some h) = Inr lib"
    using assms by (simp_all add: CHECK_FL_INIT_def fl_fflush_def)
  obtain fs' where "fatfs_fat_purge (fl_fs lib) = Inr (True, fs')" by (rule purge_ok[OF assms(4)])
  moreover have "fl_fs (free_file (fl_upd lib h g) h) = fl_fs lib" for g
    by (simp add: free_file_def fl_upd_def split: prod.split)
  ultimately show ?thesis using assms(3) by (simp add: fl_fclose_def f purge_lib_def)
qed

text \<open>Seeking to the end and back leaves the position at the start and gives up the buffer.\<close>

lemma fseek_there_and_back:
  assumes "fl_initialised lib" "ff_bytenum (fl_files lib h) = 0" "ff_data_address (fl_files lib h) = 0xFFFFFFFF"
    "\<not> ff_data_dirty (fl_files lib h)"
  defines "l1 \<equiv> fl_upd lib h (\<lambda>f. f\<lparr>ff_bytenum := ff_filelength f\<rparr>)"
  shows "fl_fseek lib (Some h) 0 SEEK_END = Inr (0, l1)" "fl_fseek l1 (Some h) 0 SEEK_SET = Inr (0, lib)"
    "fl_ftell l1 (Some h) = sint (ff_filelength (fl_files lib h))"
proof -
  let ?f = "fl_files lib h"
  have f: "?f\<lparr>ff_data_address := 0xFFFFFFFF, ff_data_dirty := False\<rparr> = ?f"
    "?f\<lparr>ff_data_address := 0xFFFFFFFF, ff_data_dirty := False, ff_bytenum := 0\<rparr> = ?f"
    using assms(2-4) by (cases ?f; simp)+
  show "fl_fseek lib (Some h) 0 SEEK_END = Inr (0, l1)"
    using assms(1) by (simp add: fl_fseek_def Let_def CHECK_FL_INIT_def SEEK_END_def SEEK_SET_def SEEK_CUR_def l1_def fl_upd_def f(1))
  show "fl_fseek l1 (Some h) 0 SEEK_SET = Inr (0, lib)"
    using assms(1) f(2) by (simp add: fl_fseek_def Let_def CHECK_FL_INIT_def SEEK_END_def SEEK_SET_def l1_def fl_upd_def)
  show "fl_ftell l1 (Some h) = sint (ff_filelength ?f)"
    by (simp add: fl_ftell_def fl_fgetpos_def l1_def fl_upd_def)
qed

lemma copy_file_ok:
  assumes o: "fl_fopen [] lib (Some src) (Some (bytes_of ''rb'')) = Inr (Some h, l1)"
    and c: "chain_ok (fl_fs l1) (ff_startcluster (fl_files l1 h)) cs" "file_sectors (fl_fs l1) cs < 2 ^ 32 - 1"
    and n: "n = unat (ff_filelength (fl_files l1 h))" "0 < n" "n < 2 ^ 31" "n \<le> file_sectors (fl_fs l1) cs * 512"
    and w: "wn_malloc_ok w n" "wn_create w dst" "wn_file w dst = None"
  shows "\<exists>lib'. CopyFileFromFatDisk w lib src dst =
    Inr (0, w\<lparr>wn_file := (wn_file w)(dst := Some (map (chain_byte (fl_fs l1) cs) [0..<n]))\<rparr>, lib')"
proof -
  note f = fopen_rb[OF o]
  have h: "handle_ok l1 h cs" using c f by (simp add: handle_ok_def lookup_ok_def data_ok_def)
  let ?e = "ff_filelength (fl_files l1 h)"
  have sz: "sint ?e = int n"
  proof -
    have "uint ?e = int n" by (simp add: n(1))
    then show ?thesis unfolding sint_uint using n(3) by (simp add: signed_take_bit_int_eq_self)
  qed
  note s = fseek_there_and_back[OF f(1,3,4,5)]
  have "ff_bytenum (fl_files l1 h) < ?e" using n(1,2) by (simp add: f(3) word_less_nat_alt)
  then obtain l2 where r: "fl_fread l1 1 (int n) (Some h) = Inr (int n, map (chain_byte (fl_fs l1) cs) [0..<n], l2)"
    and l2: "handle_ok l2 h cs" "read_frame l1 l2 h n"
    using fread_content_ok[OF f(1) h f(2), of 1 "int n"] n(2-4) unfolding f(3) n(1)[symmetric] by auto
  obtain l3 where "fl_fclose l2 (Some h) = Inr l3"
    using fclose_ok[of l2 h] l2 f(1,6) by (auto simp: handle_ok_def chain_ok_def read_frame_def)
  then show ?thesis
    using w by (simp add: CopyFileFromFatDisk_def o s sz r SaveBuffer2File_def)
qed

section \<open>A disk with the small volume\<close>

text \<open>A machine whose disk 0 has the small volume from sector 8 on; every call works.\<close>

definition demo_disk :: "nat \<Rightarrow> u8" where
  "demo_disk i = volume_byte (i - 4096)"

definition demo_windows :: windows where
  "demo_windows = \<lparr>wn_token = None, wn_adjust_ok = True, wn_dummy_status = (\<lambda>_. 0), wn_efivar = (\<lambda>_. None),
     wn_table = (\<lambda>_. (0, [])), wn_malloc_ok = (\<lambda>_. True), wn_junk = (\<lambda>_. 0), wn_wide_length = length,
     wn_attr = (\<lambda>_ _. None), wn_file = (\<lambda>_. None), wn_create = (\<lambda>_. True), wn_drive_strings = [],
     wn_logical_drives = (\<lambda>_. 4), wn_extent = (\<lambda>_. Some 0), wn_disk = (\<lambda>_. Some demo_disk),
     wn_disk_read = (\<lambda>_ _ _. True), wn_disk_length = (\<lambda>_. True), wn_open_manager = 0,
     wn_create_service = (\<lambda>_ _. 0), wn_open_service = (\<lambda>_. True), wn_start_service = (\<lambda>_. 0),
     wn_open_disk = (\<lambda>_. 0), wn_attach_disk = (\<lambda>_. 0), wn_disk_path = (0, []),
     wn_define_device = (\<lambda>_. True), wn_windows8 = False, wn_commands = [], wn_output = []\<rparr>"

lemma demo_reads: "disk_reads demo_windows 0 (2 ^ 32)"
  by (simp add: disk_reads_def demo_windows_def)

definition demo_partition :: fatfs where
  "demo_partition = dir_volume\<lparr>fs_disk_io := fat_partition demo_windows 0 demo_disk 8\<rparr>"

lemma demo_partition_ok: "holds_volume demo_partition" "fs_disk_io demo_partition = fat_partition demo_windows 0 demo_disk 8"
proof -
  have "md_byte (fat_partition demo_windows 0 demo_disk 8) i = volume_byte i" if "i < 65536" for i
  proof -
    have "i div 512 \<le> 127" using that by simp
    then have "md_byte (fat_partition demo_windows 0 demo_disk 8) i = demo_disk (unat (8 :: u64) * 512 + i)"
      by (intro partition_byte[OF demo_reads]) simp_all
    then show ?thesis by (simp add: demo_disk_def)
  qed
  moreover have "reliable (fat_partition demo_windows 0 demo_disk 8)"
    by (simp add: reliable_def fat_partition_def)
  ultimately show "holds_volume demo_partition"
    using dir_volume_ok(1) by (simp add: holds_volume_def demo_partition_def)
  show "fs_disk_io demo_partition = fat_partition demo_windows 0 demo_disk 8" by (simp add: demo_partition_def)
qed

text \<open>
  C9: A file that opens on the partition is copied byte by byte: the new file on the system
  drive holds the bytes the disk has in the clusters of the file, in the order of its chain,
  counted from the first sector of the partition.
\<close>

theorem copied_file_content:
  assumes "fl_fopen [] lib (Some src) (Some (bytes_of ''rb'')) = Inr (Some h, l1)"
    and "fs_disk_io (fl_fs l1) = fat_partition w k d start" "disk_reads w k len"
    and "chain_ok (fl_fs l1) (ff_startcluster (fl_files l1 h)) cs" "file_sectors (fl_fs l1) cs < 2 ^ 32 - 1"
    and "\<forall>c \<in> set cs. (unat start + unat (fatfs_lba_of_cluster (fl_fs l1) c) + unat (fs_sectors_per_cluster (fl_fs l1))) * 512 \<le> len"
    and "n = unat (ff_filelength (fl_files l1 h))" "0 < n" "n < 2 ^ 31" "n \<le> file_sectors (fl_fs l1) cs * 512"
    and "wn_malloc_ok w n" "wn_create w dst" "wn_file w dst = None"
  shows "\<exists>lib'. CopyFileFromFatDisk w lib src dst =
    Inr (0, w\<lparr>wn_file := (wn_file w)(dst := Some (map (\<lambda>i. d (disk_place (fl_fs l1) start cs i)) [0..<n]))\<rparr>, lib')"
proof -
  have e: "map (chain_byte (fl_fs l1) cs) [0..<n] = map (\<lambda>i. d (disk_place (fl_fs l1) start cs i)) [0..<n]"
    by (rule map_cong[OF refl], rule chain_byte_on_disk[OF assms(2,4,3,6)]) (use assms(10) in simp)
  show ?thesis using copy_file_ok[OF assms(1,4,5,7-13)] unfolding e .
qed

lemma copied_file_content_witness:
  "\<exists>w' lib'. CopyFileFromFatDisk demo_windows (volume_lib demo_partition) [47, 65] [88] = Inr (0, w', lib') \<and>
    wn_file w' [88] = Some (replicate 300 6)"
proof -
  have b: "bytes_of ''rb'' = [114, 98]" by (simp add: bytes_of_def of_char_def)
  note v = demo_partition_ok
  have "fb_address (fs_currentsector demo_partition) = FAT32_INVALID_CLUSTER" "fs_rootdir_first_cluster demo_partition = 3"
    by (simp_all add: demo_partition_def)
  then obtain l1 c where o: "fl_fopen [] (volume_lib demo_partition) (Some [47, 65]) (Some (bytes_of ''rb'')) = Inr (Some 0, l1)"
    and f: "fl_fs l1 = demo_partition\<lparr>fs_currentsector := c\<rparr>" "ff_startcluster (fl_files l1 0) = 6"
      "ff_filelength (fl_files l1 0) = 300"
    using volume_fopen[OF v(1), of "[]"] unfolding b by blast
  have g: "fs_sectors_per_cluster demo_partition = 1" using v(1) by (simp add: holds_volume_def)
  have l: "fatfs_lba_of_cluster (fl_fs l1) 6 = 6" "cluster_bytes (fl_fs l1) = 512"
    using volume_lba[OF v(1), of 6] g by (simp_all add: f cluster_bytes_def)
  have dv: "(3072 + i) div 512 = 6" if "i < 300" for i :: nat by (rule div_nat_eqI) (use that in simp_all)
  have "\<exists>lib'. CopyFileFromFatDisk demo_windows (volume_lib demo_partition) [47, 65] [88] =
    Inr (0, demo_windows\<lparr>wn_file := (wn_file demo_windows)([88] := Some (map (\<lambda>i. demo_disk (disk_place (fl_fs l1) 8 [6] i)) [0..<300]))\<rparr>, lib')"
    by (rule copied_file_content[OF o _ demo_reads])
      (use volume_chains[OF v(1)] g l in \<open>simp_all add: f v(2) demo_windows_def\<close>)
  moreover have "map (\<lambda>i. demo_disk (disk_place (fl_fs l1) 8 [6] i)) [0..<300] = replicate 300 6"
    by (rule nth_equalityI) (simp_all add: disk_place_def l dv demo_disk_def volume_byte_def small_byte_def del: upt_rec_numeral)
  ultimately show ?thesis by auto
qed

section \<open>Drives\<close>

text \<open>The drive letter is the highest of the wanted ones that is not taken.\<close>

lemma bit_mask: "i < 32 \<Longrightarrow> 0 < x AND push_bit i (1 :: u32) \<longleftrightarrow> bit x i"
  by (metis bit_iff_and_push_bit_not_eq_0 word_gt_0)

lemma free_drive_find:
  "k \<le> 26 \<Longrightarrow> free_drive DriveBits Drives k =
    (case find (\<lambda>i. bit DriveBits i \<and> \<not> bit Drives i) (rev [0..<k]) of None \<Rightarrow> 0 | Some i \<Rightarrow> 65 + word_of_nat i)"
proof (induction k)
  case (Suc k)
  then show ?case using bit_mask[of k DriveBits] bit_iff_and_push_bit_not_eq_0[of Drives k] by (simp add: Let_def)
qed simp

lemma find_free_drive_highest:
  "vtoy_find_free_drive w DriveBits =
    (case find (\<lambda>i. bit DriveBits i \<and> \<not> bit (wn_logical_drives w 0) i) (rev [0..<26]) of
       None \<Rightarrow> 0 | Some i \<Rightarrow> 65 + word_of_nat i)"
  unfolding vtoy_find_free_drive_def by (rule free_drive_find) simp

text \<open>A drive is the right one when its disk has the identity and the drive has the image file.\<close>

definition drive_fits :: "windows \<Rightarrow> ventoy_os_param \<Rightarrow> u8 list \<Rightarrow> bool" where
  "drive_fits w param Pos \<longleftrightarrow>
     (case GetPhyDiskUUID w Pos of Inr (Some (_, UUID)) \<Rightarrow> UUID = param_disk_guid param | _ \<Rightarrow> False) \<and>
     (case img_path_tail param of Inr path \<Rightarrow> vtoy_is_file_exist w (Pos @ path) = Inr True | _ \<Rightarrow> False)"

lemma find_drive_ok:
  "find_drive w param buflen drives phy name = Inr (rc, n, name') \<Longrightarrow>
   (case find (drive_fits w param) drives of
      None \<Rightarrow> rc = 1
    | Some Pos \<Rightarrow> rc = 0 \<and> name' = Pos \<and> (\<exists>k. n = int k \<and> GetPhyDiskUUID w Pos = Inr (Some (k, param_disk_guid param))))"
proof (induction drives arbitrary: phy name)
  case (Cons Pos drives)
  obtain r where r: "GetPhyDiskUUID w Pos = Inr r" using Cons.prems by (auto simp: andThen_eq_Inr)
  show ?case
  proof (cases "\<exists>k. r = Some (k, param_disk_guid param)")
    case False
    then have "\<not> drive_fits w param Pos" by (auto simp: drive_fits_def r split: option.splits)
    moreover obtain phy' name'' where "find_drive w param buflen drives phy' name'' = Inr (rc, n, name')"
      using Cons.prems False by (auto simp: r split: option.splits if_splits)
    ultimately show ?thesis using Cons.IH by simp
  next
    case True
    then obtain k where k: "r = Some (k, param_disk_guid param)" by blast
    obtain path found where p: "img_path_tail param = Inr path" "vtoy_is_file_exist w (Pos @ path) = Inr found"
      using Cons.prems by (auto simp: r k andThen_eq_Inr sprintf_s_def split: if_splits)
    have f: "drive_fits w param Pos = found" by (simp add: drive_fits_def r k p)
    have s: "sprintf_s a b = Inr c \<longleftrightarrow> length b < a \<and> c = b" for a b c by (auto simp: sprintf_s_def)
    have "if found then rc = 0 \<and> name' = Pos \<and> n = int k
        else find_drive w param buflen drives (int k) Pos = Inr (rc, n, name')"
      using Cons.prems by (auto simp: r k p andThen_eq_Inr s split: if_splits)
    then show ?thesis using Cons.IH[of "int k" Pos] f r k by (cases found) simp_all
  qed
qed simp

text \<open>
  C20: When the search for the drive returns and its memory could be allocated: it succeeds exactly
  when some drive lies on a disk with the identity of the parameter block and has the image
  file; it then hands out the name of the first such drive and the number of its disk.
\<close>

theorem windows_drive_found:
  assumes "vtoy_find_disk_win w param phy name buflen = Inr (rc, n, name')"
    and "wn_malloc_ok w (length (concat (map (\<lambda>s. s @ [0]) (wn_drive_strings w))) + 2)"
  shows "case find (drive_fits w param) (wn_drive_strings w) of
      None \<Rightarrow> rc = 1
    | Some Pos \<Rightarrow> rc = 0 \<and> name' = Pos \<and> (\<exists>k. n = int k \<and> GetPhyDiskUUID w Pos = Inr (Some (k, param_disk_guid param)))"
  using assms unfolding vtoy_find_disk_win_def by (auto dest: find_drive_ok)

definition image_param :: ventoy_os_param where
  "image_param = replicate 45 0 @ [92, 65] @ replicate 465 0"

definition two_drives :: windows where
  "two_drives = demo_windows\<lparr>wn_drive_strings := [[67, 58, 92], [68, 58, 92]],
     wn_attr := (\<lambda>_ p. if p = [68, 58, 92, 65] then Some 0x20 else None)\<rparr>"

lemma two_drives_search:
  "vtoy_find_disk_win two_drives image_param (- 1) [] 127 = Inr (0, 0, [68, 58, 92])"
proof -
  have "slice_of 384 16 (disk_bytes demo_disk 0 512) = replicate 16 0"
    by (rule nth_equalityI)
      (simp_all add: nth_slice_of disk_bytes_def demo_disk_def volume_byte_def small_byte_def del: upt_rec_numeral)
  moreover have "[CHR 0x5c, CHR 0x5c, CHR ''.'', CHR 0x5c] \<noteq> []" by simp
  ultimately have g: "GetPhyDiskUUID two_drives [c, 58, 92] = Inr (Some (0, replicate 16 0))" if "c \<in> {67, 68}" for c
    using that by (auto simp: GetPhyDiskUUID_def sprintf_s_def bytes_of_def two_drives_def demo_windows_def)
  have p: "img_path_tail image_param = Inr [65]" "param_disk_guid image_param = replicate 16 0"
    by (simp_all add: img_path_tail_def image_param_def param_disk_guid_def slice_of_def)
  have u: "\<not> IsUTF8Encode [c, 58, 92, 65]" if "c \<in> {67, 68}" for c
    using that by (auto simp: IsUTF8Encode_def MAX_PATH_def)
  have e: "vtoy_is_file_exist two_drives [67, 58, 92, 65] = Inr False" "vtoy_is_file_exist two_drives [68, 58, 92, 65] = Inr True"
    using u by (simp_all add: vtoy_is_file_exist_def two_drives_def FILE_ATTRIBUTE_DIRECTORY_def)
  have d: "wn_drive_strings two_drives = [[67, 58, 92], [68, 58, 92]]" "wn_malloc_ok two_drives k" for k
    by (simp_all add: two_drives_def demo_windows_def)
  show ?thesis by (simp add: vtoy_find_disk_win_def d g p e sprintf_s_def)
qed

lemma windows_drive_found_witness:
  "find (drive_fits two_drives image_param) (wn_drive_strings two_drives) = Some [68, 58, 92]"
proof -
  have "wn_malloc_ok two_drives k" for k by (simp add: two_drives_def demo_windows_def)
  then show ?thesis using windows_drive_found[OF two_drives_search] by (auto split: option.splits)
qed

end
