(* ===== verification/FatStore.thy ===== *)
theory FatStore
  imports FatContents
begin

text \<open>
  Writing: a sector of a cluster stored on the media is a change of the bytes of its chain and
  of nothing else; \<open>fl_fwrite\<close> and \<open>fl_fflush\<close> together replace the bytes of the file from the
  position on.
\<close>

section \<open>Storing sectors of a chain\<close>

lemma media_irrelevant [simp]:
  "in_table (fs\<lparr>fs_disk_io := m\<rparr>) = in_table fs" "covers (fs\<lparr>fs_disk_io := m\<rparr>) = covers fs"
  "entry_sector (fs\<lparr>fs_disk_io := m\<rparr>) = entry_sector fs" "fat_position (fs\<lparr>fs_disk_io := m\<rparr>) = fat_position fs"
  "fatfs_lba_of_cluster (fs\<lparr>fs_disk_io := m\<rparr>) = fatfs_lba_of_cluster fs"
  "cluster_bytes (fs\<lparr>fs_disk_io := m\<rparr>) = cluster_bytes fs" "file_sectors (fs\<lparr>fs_disk_io := m\<rparr>) = file_sectors fs"
  "cluster_apart (fs\<lparr>fs_disk_io := m\<rparr>) = cluster_apart fs"
  by (simp_all add: fun_eq_iff in_table_def covers_def entry_sector_def fat_sector_offset_def fat_position_def
      fatfs_lba_of_cluster_def cluster_bytes_def file_sectors_def cluster_apart_def cong: tFatType.case_cong)

text \<open>The clusters of a chain lie side by side, in whatever order.\<close>

definition chain_apart :: "fatfs \<Rightarrow> u32 list \<Rightarrow> bool" where
  "chain_apart fs cs \<longleftrightarrow> (\<forall>i < length cs. \<forall>j < length cs. i \<noteq> j \<longrightarrow>
     unat (fatfs_lba_of_cluster fs (cs ! i)) + unat (fs_sectors_per_cluster fs) \<le> unat (fatfs_lba_of_cluster fs (cs ! j)) \<or>
     unat (fatfs_lba_of_cluster fs (cs ! j)) + unat (fs_sectors_per_cluster fs) \<le> unat (fatfs_lba_of_cluster fs (cs ! i)))"

text \<open>What writing to files changes: bytes on the media, buffers of the table, but not the table.\<close>

definition write_frame :: "fatfs \<Rightarrow> fatfs \<Rightarrow> bool" where
  "write_frame fs fs' \<longleftrightarrow>
     fs' = fs\<lparr>fs_disk_io := (fs_disk_io fs)\<lparr>md_byte := md_byte (fs_disk_io fs')\<rparr>,
              fs_fat_buffers := fs_fat_buffers fs'\<rparr> \<and>
     (\<forall>t. in_table fs t \<longrightarrow> fat_view fs' t = fat_view fs t)"

lemma table_write_frame:
  assumes "table_frame fs fs'" "fat_view fs' = fat_view fs" shows "write_frame fs fs'"
  using assms by (simp add: write_frame_def table_frame_def)

lemma write_table_frame:
  assumes "write_frame fs fs'"
  shows "table_frame (fs\<lparr>fs_disk_io := (fs_disk_io fs)\<lparr>md_byte := md_byte (fs_disk_io fs')\<rparr>\<rparr>) fs'"
proof -
  have e: "fs' = fs\<lparr>fs_disk_io := (fs_disk_io fs)\<lparr>md_byte := md_byte (fs_disk_io fs')\<rparr>,
      fs_fat_buffers := fs_fat_buffers fs'\<rparr>" using assms by (simp add: write_frame_def)
  have "fs_disk_io fs' = (fs_disk_io fs)\<lparr>md_byte := md_byte (fs_disk_io fs')\<rparr>" by (subst e) simp
  then show ?thesis using e by (simp add: table_frame_def)
qed

lemma write_frame_refl [simp]: "write_frame fs fs"
  by (rule table_write_frame) simp_all

lemma write_frame_fields:
  assumes "write_frame fs fs'"
  shows "fs_sectors_per_cluster fs' = fs_sectors_per_cluster fs" "fs_fat_type fs' = fs_fat_type fs"
    "md_can_write (fs_disk_io fs') = md_can_write (fs_disk_io fs)"
    "in_table fs' = in_table fs" "covers fs' = covers fs" "entry_sector fs' = entry_sector fs"
    "fat_position fs' = fat_position fs" "fatfs_lba_of_cluster fs' = fatfs_lba_of_cluster fs"
    "cluster_bytes fs' = cluster_bytes fs" "cluster_apart fs' = cluster_apart fs" "file_sectors fs' = file_sectors fs"
    "chain_apart fs' = chain_apart fs"
proof -
  note m = write_table_frame[OF assms]
  note f = table_frame_fields[OF m] and e = frame_entries[OF m] and l = frame_lba[OF m]
  show s: "fs_sectors_per_cluster fs' = fs_sectors_per_cluster fs" using f(1) by simp
  show "fs_fat_type fs' = fs_fat_type fs" "md_can_write (fs_disk_io fs') = md_can_write (fs_disk_io fs)"
    using f(12,15) by simp_all
  show "in_table fs' = in_table fs" using in_table_frame[OF m] by (simp add: fun_eq_iff)
  show "covers fs' = covers fs" "entry_sector fs' = entry_sector fs" "fat_position fs' = fat_position fs"
    using e by (simp_all add: fun_eq_iff)
  show b: "fatfs_lba_of_cluster fs' = fatfs_lba_of_cluster fs" "cluster_bytes fs' = cluster_bytes fs"
    "cluster_apart fs' = cluster_apart fs"
    using l by (simp_all add: fun_eq_iff)
  show "file_sectors fs' = file_sectors fs" by (simp add: fun_eq_iff file_sectors_def s)
  show "chain_apart fs' = chain_apart fs" by (simp add: fun_eq_iff chain_apart_def s b)
qed

lemma write_frame_trans:
  assumes "write_frame a b" "write_frame b c" shows "write_frame a c"
proof -
  have "b = a\<lparr>fs_disk_io := (fs_disk_io a)\<lparr>md_byte := md_byte (fs_disk_io b)\<rparr>, fs_fat_buffers := fs_fat_buffers b\<rparr>"
    "c = b\<lparr>fs_disk_io := (fs_disk_io b)\<lparr>md_byte := md_byte (fs_disk_io c)\<rparr>, fs_fat_buffers := fs_fat_buffers c\<rparr>"
    using assms by (simp_all add: write_frame_def)
  then have "c = a\<lparr>fs_disk_io := (fs_disk_io a)\<lparr>md_byte := md_byte (fs_disk_io c)\<rparr>, fs_fat_buffers := fs_fat_buffers c\<rparr>"
    by (cases a; cases b; cases c; cases "fs_disk_io a"; cases "fs_disk_io b"; cases "fs_disk_io c") simp
  moreover have "\<forall>t. in_table a t \<longrightarrow> fat_view c t = fat_view a t"
    using assms write_frame_fields(4)[OF assms(1)] by (simp add: write_frame_def)
  ultimately show ?thesis by (simp add: write_frame_def)
qed

lemma write_frame_next:
  assumes "write_frame fs fs'" "table_ok fs" "covers fs c" "c \<noteq> 0" shows "fat_next fs' c = fat_next fs c"
proof -
  have "fat_view fs' (entry_sector fs c) = fat_view fs (entry_sector fs c)"
    using assms(1) covers_in_table(1)[OF assms(2,3)] by (simp add: write_frame_def)
  then show ?thesis using assms(4) by (cases "fs_fat_type fs") (simp_all add: fat_next_def fat_raw_def write_frame_fields[OF assms(1)])
qed

lemma write_frame_chain:
  assumes "write_frame fs fs'" "table_ok fs'" "chain_ok fs p cs" shows "chain_ok fs' p cs"
proof -
  have "fat_chain (fat_next fs') p cs"
    by (rule fat_chain_cong[of "fat_next fs"])
      (use assms write_frame_next[OF assms(1)] fat_chain_nonzero in \<open>auto simp: chain_ok_def\<close>)
  then show ?thesis using assms by (simp add: chain_ok_def write_frame_fields[OF assms(1)])
qed


text \<open>A piece of a cluster is stored.\<close>

definition store :: "fatfs \<Rightarrow> u32 \<Rightarrow> u8 list \<Rightarrow> fatfs" where
  "store fs lba bs = fs\<lparr>fs_disk_io := media_store (fs_disk_io fs) (unat lba * 512) bs\<rparr>"

lemma store_table:
  assumes ok: "table_ok fs" and n: "length bs = n * 512"
    and out: "\<And>t. in_table fs t \<Longrightarrow> unat t < unat lba \<or> unat lba + n \<le> unat t"
  shows "write_frame fs (store fs lba bs)" "table_ok (store fs lba bs)"
proof -
  let ?m = "media_store (fs_disk_io fs) (unat lba * 512) bs"
  have m: "md_bytes ?m (unat t) 1 = md_bytes (fs_disk_io fs) (unat t) 1" if "in_table fs t" for t
    by (rule md_bytes_other[where k = n]) (use out[OF that] n in auto)
  have v: "fat_view (store fs lba bs) t = fat_view fs t" if "in_table fs t" for t
    using m[OF that] by (simp add: fat_view_def store_def split: option.split)
  then show "write_frame fs (store fs lba bs)" by (simp add: write_frame_def store_def media_store_def)
  have "buffer_ok (store fs lba bs) b" if "buffer_ok fs b" for b
    using that m by (auto simp: buffer_ok_def store_def)
  then show "table_ok (store fs lba bs)" using ok by (simp add: table_ok_def store_def reliable_def)
qed

lemma store_byte:
  "md_byte (fs_disk_io (store fs lba bs)) i =
     (if unat lba * 512 \<le> i \<and> i < unat lba * 512 + length bs then bs ! (i - unat lba * 512) else md_byte (fs_disk_io fs) i)"
  by (simp add: store_def media_store_def)

lemma store_chain:
  assumes ok: "chain_ok fs p cs" and ap: "chain_apart fs cs" and k: "k < length cs"
    and s: "s < unat (fs_sectors_per_cluster fs)" "s + n \<le> unat (fs_sectors_per_cluster fs)" and n: "length bs = n * 512"
  defines "fs' \<equiv> store fs (fatfs_lba_of_cluster fs (cs ! k) + word_of_nat s) bs"
    and "o' \<equiv> k * unat (fs_sectors_per_cluster fs) + s"
  shows "write_frame fs fs'" "chain_ok fs' p cs"
    "i < file_sectors fs cs * 512 \<Longrightarrow> chain_byte fs' cs i =
       (if o' * 512 \<le> i \<and> i < (o' + n) * 512 then bs ! (i - o' * 512) else chain_byte fs cs i)"
proof -
  let ?S = "unat (fs_sectors_per_cluster fs)" let ?lba = "fatfs_lba_of_cluster fs (cs ! k) + word_of_nat s"
  have c: "cluster_apart fs (cs ! k)" using ok k by (simp add: chain_ok_def)
  have a: "unat ?lba = unat (fatfs_lba_of_cluster fs (cs ! k)) + s" by (rule sector_address[OF c s(1)])
  have out: "unat t < unat ?lba \<or> unat ?lba + n \<le> unat t" if t: "in_table fs t" for t
  proof (rule ccontr)
    assume "\<not> (unat t < unat ?lba \<or> unat ?lba + n \<le> unat t)"
    then have b: "unat ?lba \<le> unat t" "unat t < unat ?lba + n" by auto
    define j where "j = unat t - unat (fatfs_lba_of_cluster fs (cs ! k))"
    have j: "j < ?S" "unat t = unat (fatfs_lba_of_cluster fs (cs ! k)) + j" using b a s by (simp_all add: j_def)
    then have "t = fatfs_lba_of_cluster fs (cs ! k) + word_of_nat j"
      using sector_address[OF c j(1)] by (simp add: word_unat_eq_iff)
    then show False using t c j(1) by (simp add: cluster_apart_def)
  qed
  have tok: "table_ok fs" using ok by (simp add: chain_ok_def)
  show w: "write_frame fs fs'" unfolding fs'_def by (rule store_table(1)[OF tok n out])
  have "table_ok fs'" unfolding fs'_def by (rule store_table(2)[OF tok n out])
  then show "chain_ok fs' p cs" by (rule write_frame_chain[OF w _ ok])
  show "chain_byte fs' cs i =
       (if o' * 512 \<le> i \<and> i < (o' + n) * 512 then bs ! (i - o' * 512) else chain_byte fs cs i)"
    if i: "i < file_sectors fs cs * 512"
  proof -
    define k' where "k' = i div cluster_bytes fs" define r where "r = i mod cluster_bytes fs"
    have cb: "cluster_bytes fs = ?S * 512" by (simp add: cluster_bytes_def)
    have S: "0 < ?S" using s(1) by simp
    have k': "k' < length cs" using i S by (simp add: k'_def cb file_sectors_def div_less_iff_less_mult mult.assoc)
    have r: "r < ?S * 512" using S by (simp add: r_def cb)
    have ir: "i = k' * (?S * 512) + r"
      unfolding k'_def r_def cb by (rule div_mult_mod_eq[symmetric])
    let ?l = "unat (fatfs_lba_of_cluster fs (cs ! k'))"
    have e: "chain_byte fs' cs i = md_byte (fs_disk_io fs') (?l * 512 + r)"
      by (simp add: chain_byte_def write_frame_fields[OF w] k'_def r_def)
    have e0: "chain_byte fs cs i = md_byte (fs_disk_io fs) (?l * 512 + r)"
      by (simp add: chain_byte_def k'_def r_def)
    note x = store_byte[of fs ?lba bs "?l * 512 + r", folded fs'_def]
    show ?thesis
    proof (cases "k' = k")
      case True
      have "o' * 512 \<le> i \<longleftrightarrow> s * 512 \<le> r" "i < (o' + n) * 512 \<longleftrightarrow> r < (s + n) * 512" "i - o' * 512 = r - s * 512"
        using ir True by (auto simp: o'_def algebra_simps)
      moreover have "unat ?lba * 512 \<le> ?l * 512 + r \<longleftrightarrow> s * 512 \<le> r"
        "?l * 512 + r < unat ?lba * 512 + length bs \<longleftrightarrow> r < (s + n) * 512" "?l * 512 + r - unat ?lba * 512 = r - s * 512"
        using True a n by (auto simp: algebra_simps)
      ultimately show ?thesis
        unfolding e e0 x by simp
    next
      case False
      have ne: "unat (fatfs_lba_of_cluster fs (cs ! k)) + ?S \<le> ?l \<or> ?l + ?S \<le> unat (fatfs_lba_of_cluster fs (cs ! k))"
        using ap k k' False by (auto simp: chain_apart_def)
      have "\<not> (unat ?lba * 512 \<le> ?l * 512 + r \<and> ?l * 512 + r < unat ?lba * 512 + length bs)"
        using ne a n s r by auto
      moreover have "\<not> (o' * 512 \<le> i \<and> i < (o' + n) * 512)"
      proof
        assume b: "o' * 512 \<le> i \<and> i < (o' + n) * 512"
        have "k * (?S * 512) \<le> o' * 512" by (simp add: o'_def algebra_simps)
        moreover have "(o' + n) * 512 \<le> k * (?S * 512) + ?S * 512"
        proof -
          have "o' + n \<le> k * ?S + ?S" using s(2) by (simp add: o'_def)
          then have "(o' + n) * 512 \<le> (k * ?S + ?S) * 512" by (rule mult_le_mono1)
          then show ?thesis by (simp add: algebra_simps)
        qed
        ultimately have "i div (?S * 512) = k" using b by (intro div_nat_eqI) (auto simp: algebra_simps)
        then show False using False by (simp add: k'_def cb)
      qed
      ultimately show ?thesis unfolding e e0 x by (simp only: if_False)
    qed
  qed
qed


section \<open>Writing sectors\<close>

lemma follow_stop_ok:
  "table_ok fs \<Longrightarrow> fat_chain (fat_next fs) p cs \<Longrightarrow> \<forall>c \<in> set cs. covers fs c \<Longrightarrow> k < length cs \<Longrightarrow>
   \<exists>l fs'. follow_stop fs l0 p k = Inr (l, cs ! k, fs') \<and> table_ok fs' \<and> table_frame fs fs' \<and> fat_view fs' = fat_view fs"
proof (induction k arbitrary: fs p cs l0)
  case 0
  then show ?case by (cases cs) auto
next
  case (Suc k)
  obtain c ds where cs: "cs = c # ds" using Suc.prems(4) by (cases cs) auto
  have p: "p = c" "c \<noteq> 0" "fat_chain (fat_next fs) (fat_next fs c) ds" using Suc.prems(2) cs by auto
  obtain f1 where f1: "fatfs_find_next_cluster fs c = Inr (fat_next fs c, f1)" "table_ok f1"
    "fat_view f1 = fat_view fs" "table_frame fs f1"
    using find_next_ok[OF Suc.prems(1), of c] Suc.prems(3) p(2) cs by auto
  have k: "k < length ds" using Suc.prems(4) cs by simp
  then have nl: "fat_next fs c \<noteq> FAT32_LAST_CLUSTER" using p(3) fat_chain_nonzero[OF p(3)] by (cases ds) auto
  have "\<exists>l fs'. follow_stop f1 c (fat_next fs c) k = Inr (l, ds ! k, fs') \<and> table_ok fs' \<and> table_frame f1 fs' \<and>
      fat_view fs' = fat_view f1"
  proof (rule Suc.IH[OF f1(2)])
    show "fat_chain (fat_next f1) (fat_next fs c) ds" using p(3) frame_view(2)[OF f1(4,3)] by simp
    show "\<forall>c\<in>set ds. covers f1 c" using Suc.prems(3) frame_entries(4)[OF f1(4)] cs by simp
  qed (rule k)
  then obtain l fs' where "follow_stop f1 c (fat_next fs c) k = Inr (l, ds ! k, fs')" "table_ok fs'" "table_frame f1 fs'"
      "fat_view fs' = fat_view f1" by blast
  then show ?case using f1 p(1) cs nl table_frame_trans[OF f1(4)] by auto
qed

lemma follow_stop_from:
  assumes "chain_ok fs p cs" "i \<le> k" "k < length cs"
  shows "\<exists>l fs'. follow_stop fs l0 (cs ! i) (k - i) = Inr (l, cs ! k, fs') \<and> table_ok fs' \<and> table_frame fs fs' \<and>
    fat_view fs' = fat_view fs"
proof -
  have i: "i < length cs" using assms by simp
  have d: "fat_chain (fat_next fs) (cs ! i) (drop i cs)" by (rule chain_ok_drop(1)[OF assms(1) i])
  have "\<forall>c \<in> set (drop i cs). covers fs c" by (rule chain_ok_drop(2)[OF assms(1) i])
  from follow_stop_ok[OF _ d this, of "k - i"] show ?thesis using assms by (simp add: chain_ok_def)
qed


text \<open>A handle that can be written to, its sector buffer set aside.\<close>

definition chain_handle :: "filelib \<Rightarrow> handle \<Rightarrow> u32 list \<Rightarrow> bool" where
  "chain_handle lib h cs \<longleftrightarrow> chain_ok (fl_fs lib) (ff_startcluster (fl_files lib h)) cs \<and> chain_apart (fl_fs lib) cs \<and>
     file_sectors (fl_fs lib) cs < 2 ^ 32 - 1 \<and> md_can_write (fs_disk_io (fl_fs lib)) \<and> lookup_ok (fl_files lib h) cs"

text \<open>Looking for a cluster of the chain on the way to a write.\<close>

definition same_handle :: "filelib \<Rightarrow> filelib \<Rightarrow> handle \<Rightarrow> bool" where
  "same_handle lib lib' h \<longleftrightarrow> write_frame (fl_fs lib) (fl_fs lib') \<and>
     (\<exists>i c. lib' = (fl_upd lib h (set_lookup i c))\<lparr>fl_fs := fl_fs lib'\<rparr>)"

lemma lookup_same_handle: "lookup_frame lib lib' h \<Longrightarrow> same_handle lib lib' h"
  using table_write_frame by (auto simp: lookup_frame_def same_handle_def)

lemma same_handle_fields:
  assumes "same_handle lib lib' h"
  shows "ff_startcluster (fl_files lib' h) = ff_startcluster (fl_files lib h)"
    "ff_data_dirty (fl_files lib' h) = ff_data_dirty (fl_files lib h)"
    "ff_data_address (fl_files lib' h) = ff_data_address (fl_files lib h)"
    "ff_data_sector (fl_files lib' h) = ff_data_sector (fl_files lib h)"
    "ff_bytenum (fl_files lib' h) = ff_bytenum (fl_files lib h)"
    "ff_filelength (fl_files lib' h) = ff_filelength (fl_files lib h)"
    "ff_flags (fl_files lib' h) = ff_flags (fl_files lib h)"
    "fl_initialised lib' = fl_initialised lib"
proof -
  obtain i c g where "lib' = (fl_upd lib h (set_lookup i c))\<lparr>fl_fs := g\<rparr>"
    using assms unfolding same_handle_def by blast
  then have "fl_files lib' h = set_lookup i c (fl_files lib h)" "fl_initialised lib' = fl_initialised lib"
    by (simp_all add: fl_upd_def)
  then show "ff_startcluster (fl_files lib' h) = ff_startcluster (fl_files lib h)"
    "ff_data_dirty (fl_files lib' h) = ff_data_dirty (fl_files lib h)"
    "ff_data_address (fl_files lib' h) = ff_data_address (fl_files lib h)"
    "ff_data_sector (fl_files lib' h) = ff_data_sector (fl_files lib h)"
    "ff_bytenum (fl_files lib' h) = ff_bytenum (fl_files lib h)"
    "ff_filelength (fl_files lib' h) = ff_filelength (fl_files lib h)"
    "ff_flags (fl_files lib' h) = ff_flags (fl_files lib h)"
    "fl_initialised lib' = fl_initialised lib" by (simp_all add: set_lookup_def)
qed

lemma write_cluster_ok:
  assumes h: "chain_handle lib file cs" and k: "unat idx < length cs"
  shows "\<exists>fs' l1. (if idx = ff_ClusterIdx (fl_files lib file) then Inr (Some (ff_CurrentCluster (fl_files lib file)), lib)
       else let (i, Cluster) = chain_hint (fl_files lib file) idx in
         andThen (follow_stop (fl_fs lib) FAT32_LAST_CLUSTER Cluster (unat (idx - i))) (\<lambda>(LastCluster, Cluster, fs).
         andThen (if Cluster = FAT32_LAST_CLUSTER
                  then fatfs_add_free_space fs LastCluster ((want + per - 1) div per)
                  else Inr (True, Cluster, fs)) (\<lambda>(ok, Cluster, fs).
           let lib = lib\<lparr>fl_fs := fs\<rparr> in
           Inr (if ok then (Some Cluster, fl_upd lib file (set_lookup idx Cluster)) else (None, lib)))))
     = Inr (Some (cs ! unat idx), l1) \<and> l1 = (fl_upd lib file (set_lookup idx (cs ! unat idx)))\<lparr>fl_fs := fs'\<rparr> \<and>
       table_ok fs' \<and> table_frame (fl_fs lib) fs' \<and> fat_view fs' = fat_view (fl_fs lib)"
proof -
  let ?f = "fl_files lib file"
  have ch: "chain_ok (fl_fs lib) (ff_startcluster ?f) cs" and lk: "lookup_ok ?f cs"
    and small: "file_sectors (fl_fs lib) cs < 2 ^ 32 - 1" using h by (auto simp: chain_handle_def)
  have fc: "fat_chain (fat_next (fl_fs lib)) (ff_startcluster ?f) cs" using ch by (simp add: chain_ok_def)
  have lc: "cs ! unat idx \<noteq> FAT32_LAST_CLUSTER" using fat_chain_nonzero[OF fc, of "cs ! unat idx"] k by simp
  have "length cs \<le> file_sectors (fl_fs lib) cs"
    using ch by (simp add: file_sectors_def chain_ok_def unat_eq_0[symmetric] Suc_le_eq)
  then have lt: "unat idx < 2 ^ 32 - 1" using k small by linarith
  show ?thesis
  proof (cases "idx = ff_ClusterIdx ?f")
    case True
    have "ff_ClusterIdx ?f \<noteq> 0xFFFFFFFF" using True lt by auto
    then have c: "ff_CurrentCluster ?f = cs ! unat idx" using lk True by (simp add: lookup_ok_def)
    have "set_lookup idx (cs ! unat idx) ?f = ?f"
      using c True by (cases ?f) (simp add: set_lookup_def)
    then have "lib = (fl_upd lib file (set_lookup idx (cs ! unat idx)))\<lparr>fl_fs := fl_fs lib\<rparr>"
      by (cases lib) (simp add: fl_upd_def)
    moreover have "table_ok (fl_fs lib)" using ch by (simp add: chain_ok_def)
    ultimately show ?thesis using True c by (intro exI[of _ "fl_fs lib"] exI[of _ lib]) simp
  next
    case False
    obtain i where i: "chain_hint ?f idx = (i, cs ! unat i)" "unat i \<le> unat idx"
      using hint_ok[OF ch lk k] by blast
    have "unat (idx - i) = unat idx - unat i" by (rule unat_sub) (use i(2) in \<open>simp add: word_le_nat_alt\<close>)
    then obtain l fs' where f: "follow_stop (fl_fs lib) FAT32_LAST_CLUSTER (cs ! unat i) (unat (idx - i)) = Inr (l, cs ! unat idx, fs')"
      "table_ok fs'" "table_frame (fl_fs lib) fs'" "fat_view fs' = fat_view (fl_fs lib)"
      using follow_stop_from[OF ch i(2) k] by force
    have "fl_upd (lib\<lparr>fl_fs := fs'\<rparr>) file (set_lookup idx (cs ! unat idx)) =
        (fl_upd lib file (set_lookup idx (cs ! unat idx)))\<lparr>fl_fs := fs'\<rparr>" by (simp add: fl_upd_def)
    then show ?thesis using False i(1) f lc
      by (intro exI[of _ fs'] exI[of _ "fl_upd (lib\<lparr>fl_fs := fs'\<rparr>) file (set_lookup idx (cs ! unat idx))"]) (simp add: Let_def)
  qed
qed


lemma same_handle_ok:
  assumes "same_handle lib lib' h" "chain_handle lib h cs" "chain_ok (fl_fs lib') (ff_startcluster (fl_files lib h)) cs"
    "lookup_ok (fl_files lib' h) cs"
  shows "chain_handle lib' h cs"
proof -
  have w: "write_frame (fl_fs lib) (fl_fs lib')" using assms(1) by (simp add: same_handle_def)
  show ?thesis
    using assms by (simp add: chain_handle_def same_handle_fields[OF assms(1)] write_frame_fields[OF w])
qed

lemma write_sectors_ok:
  assumes h: "chain_handle lib file cs" and o: "unat offset < file_sectors (fl_fs lib) cs"
    and c: "count \<noteq> 0" "unat count < 2 ^ 24" and b: "unat count * 512 \<le> length buf"
  shows "\<exists>n lib'. write_sectors lib file offset buf count = Inr (n, lib') \<and>
    n \<noteq> 0 \<and> unat n \<le> unat count \<and> unat offset + unat n \<le> file_sectors (fl_fs lib) cs \<and>
    same_handle lib lib' file \<and> chain_handle lib' file cs \<and>
    (\<forall>i < file_sectors (fl_fs lib) cs * 512. chain_byte (fl_fs lib') cs i =
      (if unat offset * 512 \<le> i \<and> i < (unat offset + unat n) * 512 then buf ! (i - unat offset * 512)
       else chain_byte (fl_fs lib) cs i))"
proof -
  let ?fs = "fl_fs lib" let ?spc = "fs_sectors_per_cluster ?fs" let ?S = "unat ?spc"
  let ?sw = "ucast ?spc :: u32"
  define idx where "idx = offset div ?sw"
  define sec where "sec = offset - idx * ?sw"
  define n where "n = (if ?sw < sec + count then ?sw - sec else count)"
  have ch: "chain_ok ?fs (ff_startcluster (fl_files lib file)) cs" using h by (simp add: chain_handle_def)
  have nz: "?spc \<noteq> 0" using ch by (simp add: chain_ok_def)
  note pc = piece_ok[OF nz o[unfolded file_sectors_def] c, folded idx_def, folded sec_def, folded n_def]
  note k = pc(1)
  obtain f1 l1 where l: "(if idx = ff_ClusterIdx (fl_files lib file) then Inr (Some (ff_CurrentCluster (fl_files lib file)), lib)
       else let (i, Cluster) = chain_hint (fl_files lib file) idx in
         andThen (follow_stop (fl_fs lib) FAT32_LAST_CLUSTER Cluster (unat (idx - i))) (\<lambda>(LastCluster, Cluster, fs).
         andThen (if Cluster = FAT32_LAST_CLUSTER
                  then fatfs_add_free_space fs LastCluster ((count + ?sw - 1) div ?sw)
                  else Inr (True, Cluster, fs)) (\<lambda>(ok, Cluster, fs).
           let lib = lib\<lparr>fl_fs := fs\<rparr> in
           Inr (if ok then (Some Cluster, fl_upd lib file (set_lookup idx Cluster)) else (None, lib)))))
     = Inr (Some (cs ! unat idx), l1)" and l1: "l1 = (fl_upd lib file (set_lookup idx (cs ! unat idx)))\<lparr>fl_fs := f1\<rparr>"
    and f: "table_ok f1" "table_frame ?fs f1" "fat_view f1 = fat_view ?fs"
    using write_cluster_ok[OF h k, of count ?sw] by blast
  have fl: "fl_fs l1 = f1" by (simp add: l1)
  have ch1: "chain_ok f1 (ff_startcluster (fl_files lib file)) cs" by (rule frame_chain_ok[OF ch f(2,3,1)])
  have w1: "write_frame ?fs f1" by (rule table_write_frame[OF f(2,3)])
  note wf = write_frame_fields[OF w1]
  have ap: "chain_apart f1 cs" using h by (simp add: chain_handle_def wf)
  define bs where "bs = take (unat n * 512) buf"
  have un: "unat n \<le> unat count" using pc(3) by simp
  have nb: "unat n * 512 \<le> length buf" using mult_le_mono1[OF un, of 512] b by (rule le_trans)
  then have lb: "length bs = unat n * 512" by (simp add: bs_def)
  have sc: "unat sec < unat (fs_sectors_per_cluster f1)" "unat sec + unat n \<le> unat (fs_sectors_per_cluster f1)"
    using pc(2,3) by (simp_all add: wf)
  note sk = store_chain[OF ch1 ap k sc lb, unfolded of_nat_unat ucast_id]
  define f2 where "f2 = store f1 (fatfs_lba_of_cluster f1 (cs ! unat idx) + sec) bs"
  have w2: "write_frame ?fs f2" by (rule write_frame_trans[OF w1]) (use sk(1) in \<open>simp add: f2_def\<close>)
  define l2 where "l2 = l1\<lparr>fl_fs := f2\<rparr>"
  have rel: "\<not> md_wr_err (fs_disk_io f1) a b" "md_can_write (fs_disk_io f1)" for a b
    using f(1) h by (simp_all add: table_ok_def reliable_def wf chain_handle_def)
  have "?sw \<noteq> 0" using nz unat_widen by (metis unat_0 unat_eq_0)
  then have "write_sectors lib file offset buf count = Inr (n, l2)"
    unfolding write_sectors_def Let_def idx_def[symmetric] sec_def[symmetric] n_def[symmetric]
    using l[unfolded Let_def] rel nb
    by (simp add: fatfs_sector_write_def media_write_def fl l2_def f2_def store_def bs_def not_less)
  moreover have "same_handle lib l2 file"
    unfolding same_handle_def
    by (intro conjI exI[of _ idx] exI[of _ "cs ! unat idx"]) (simp_all add: l2_def l1 w2)
  moreover have "chain_handle l2 file cs"
  proof (rule same_handle_ok[OF _ h])
    show "same_handle lib l2 file" by fact
    show "chain_ok (fl_fs l2) (ff_startcluster (fl_files lib file)) cs" using sk(2) by (simp add: l2_def f2_def)
    show "lookup_ok (fl_files l2 file) cs" using k by (simp add: l2_def l1 lookup_ok_def fl_upd_def set_lookup_def)
  qed
  moreover have "chain_byte (fl_fs l2) cs i =
      (if unat offset * 512 \<le> i \<and> i < (unat offset + unat n) * 512 then buf ! (i - unat offset * 512)
       else chain_byte ?fs cs i)" if i: "i < file_sectors ?fs cs * 512" for i
  proof -
    have "i < length cs * cluster_bytes ?fs" using i by (simp add: file_sectors_def cluster_bytes_def mult.assoc)
    then have "chain_byte f1 cs i = chain_byte ?fs cs i" by (rule frame_chain_byte[OF f(2) ch])
    moreover have "bs ! (i - unat offset * 512) = buf ! (i - unat offset * 512)"
      if "unat offset * 512 \<le> i" "i < (unat offset + unat n) * 512"
      unfolding bs_def by (rule nth_take) (use that in \<open>simp add: algebra_simps\<close>)
    moreover note sk(3)[of i]
    ultimately show ?thesis using i by (simp add: l2_def f2_def wf pc(5)[symmetric])
  qed
  ultimately show ?thesis using pc(4,6) un by (auto simp: file_sectors_def)
qed


section \<open>The bytes of an open file\<close>

text \<open>A file reads as its chain does, but for the sector that waits in the buffer of the handle.\<close>

definition file_byte :: "filelib \<Rightarrow> handle \<Rightarrow> u32 list \<Rightarrow> nat \<Rightarrow> u8" where
  "file_byte lib h cs i = (let f = fl_files lib h in
     if ff_data_address f \<noteq> 0xFFFFFFFF \<and> i div 512 = unat (ff_data_address f) then ff_data_sector f ! (i mod 512)
     else chain_byte (fl_fs lib) cs i)"

definition write_ok :: "filelib \<Rightarrow> handle \<Rightarrow> u32 list \<Rightarrow> bool" where
  "write_ok lib h cs \<longleftrightarrow> fl_initialised lib \<and> chain_handle lib h cs \<and>
     (if ff_data_address (fl_files lib h) = 0xFFFFFFFF then \<not> ff_data_dirty (fl_files lib h)
      else unat (ff_data_address (fl_files lib h)) < file_sectors (fl_fs lib) cs \<and> length (ff_data_sector (fl_files lib h)) = 512 \<and>
        (\<not> ff_data_dirty (fl_files lib h) \<longrightarrow> data_ok (fl_fs lib) (fl_files lib h) cs))"

text \<open>What writing \<open>k\<close> bytes leaves alone.\<close>

definition written :: "filelib \<Rightarrow> filelib \<Rightarrow> handle \<Rightarrow> nat \<Rightarrow> bool" where
  "written lib lib' h k \<longleftrightarrow> write_frame (fl_fs lib) (fl_fs lib') \<and> fl_initialised lib' = fl_initialised lib \<and>
     ff_startcluster (fl_files lib' h) = ff_startcluster (fl_files lib h) \<and>
     ff_filelength (fl_files lib' h) = ff_filelength (fl_files lib h) \<and> ff_flags (fl_files lib' h) = ff_flags (fl_files lib h) \<and>
     ff_bytenum (fl_files lib' h) = ff_bytenum (fl_files lib h) + word_of_nat k"

lemma written_refl: "written lib lib h 0"
  by (simp add: written_def)

lemma written_trans: "written lib l1 h j \<Longrightarrow> written l1 l2 h k \<Longrightarrow> written lib l2 h (j + k)"
  unfolding written_def using write_frame_trans by (auto simp: add.assoc)

lemma written_sectors: "written lib l1 h j \<Longrightarrow> file_sectors (fl_fs l1) cs = file_sectors (fl_fs lib) cs"
  unfolding written_def using write_frame_fields(11) by metis

lemma same_handle_written: "same_handle lib l1 h \<Longrightarrow> written lib l1 h 0"
  using same_handle_fields[of lib l1 h] by (simp add: written_def same_handle_def)

lemma write_ok_clean:
  assumes "write_ok lib h cs" "\<not> ff_data_dirty (fl_files lib h)"
  shows "handle_ok lib h cs"
  using assms by (auto simp: write_ok_def handle_ok_def chain_handle_def data_ok_def split: if_splits)

lemma clean_write_ok:
  assumes "handle_ok lib h cs" "chain_apart (fl_fs lib) cs" "md_can_write (fs_disk_io (fl_fs lib))" "fl_initialised lib"
  shows "write_ok lib h cs"
  using assms by (auto simp: write_ok_def handle_ok_def chain_handle_def data_ok_def)

lemma sector_part:
  fixes i a :: nat
  shows "i div 512 = a \<longleftrightarrow> a * 512 \<le> i \<and> i < (a + 1) * 512" "i div 512 = a \<Longrightarrow> i mod 512 = i - a * 512"
proof -
  show "i div 512 = a \<longleftrightarrow> a * 512 \<le> i \<and> i < (a + 1) * 512"
    using div_nat_eqI[of 512 a i] by (auto simp: mult.commute dividend_less_times_div times_div_less_eq_dividend)
  show "i div 512 = a \<Longrightarrow> i mod 512 = i - a * 512" by (simp add: minus_div_mult_eq_mod[symmetric])
qed

lemma clean_bytes:
  assumes "data_ok (fl_fs lib) (fl_files lib h) cs"
  shows "file_byte lib h cs i = chain_byte (fl_fs lib) cs i"
proof (cases "ff_data_address (fl_files lib h) \<noteq> 0xFFFFFFFF \<and> i div 512 = unat (ff_data_address (fl_files lib h))")
  case True
  let ?a = "unat (ff_data_address (fl_files lib h))"
  have d: "ff_data_sector (fl_files lib h) = map (chain_byte (fl_fs lib) cs) [?a * 512 ..< (?a + 1) * 512]"
    using assms True by (simp add: data_ok_def)
  have "?a * 512 + i mod 512 = i" using True div_mult_mod_eq[of i 512] by simp
  then have "ff_data_sector (fl_files lib h) ! (i mod 512) = chain_byte (fl_fs lib) cs i" unfolding d by simp
  then show ?thesis using True by (simp add: file_byte_def)
qed (auto simp: file_byte_def Let_def)

text \<open>The buffer goes to the media.\<close>

lemma flush_ok:
  assumes w: "write_ok lib h cs"
  shows "\<exists>l. (if ff_data_dirty (fl_files lib h) then fl_fflush lib (Some h) else Inr lib) = Inr l \<and>
    handle_ok l h cs \<and> write_ok l h cs \<and> written lib l h 0 \<and>
    ff_data_address (fl_files l h) = ff_data_address (fl_files lib h) \<and>
    (\<forall>i < file_sectors (fl_fs lib) cs * 512. chain_byte (fl_fs l) cs i = file_byte lib h cs i)"
proof (cases "ff_data_dirty (fl_files lib h)")
  case False
  have "handle_ok lib h cs" by (rule write_ok_clean[OF w False])
  then show ?thesis using False w clean_bytes[of lib h cs] written_refl by (auto simp: handle_ok_def)
next
  case True
  let ?a = "ff_data_address (fl_files lib h)" and ?b = "ff_data_sector (fl_files lib h)"
  have a: "?a \<noteq> 0xFFFFFFFF" "unat ?a < file_sectors (fl_fs lib) cs" "length ?b = 512" and i: "fl_initialised lib"
    and c: "chain_handle lib h cs"
    using w True by (auto simp: write_ok_def split: if_splits)
  obtain n l where r: "write_sectors lib h ?a ?b 1 = Inr (n, l)" "n \<noteq> 0" "unat n \<le> 1" "same_handle lib l h" "chain_handle l h cs"
    "\<forall>i < file_sectors (fl_fs lib) cs * 512. chain_byte (fl_fs l) cs i =
      (if unat ?a * 512 \<le> i \<and> i < (unat ?a + unat n) * 512 then ?b ! (i - unat ?a * 512) else chain_byte (fl_fs lib) cs i)"
    using write_sectors_ok[OF c a(2), of 1 ?b] a(3) by auto
  have "0 < unat n" using r(2) by (simp add: unat_gt_0)
  then have n: "unat n = 1" using r(3) by linarith
  note f = same_handle_fields[OF r(4)]
  have w0: "written lib l h 0" by (rule same_handle_written[OF r(4)])
  note fs = written_sectors[OF w0]
  have vis: "chain_byte (fl_fs l) cs i = file_byte lib h cs i" if "i < file_sectors (fl_fs lib) cs * 512" for i
    using r(6) that a(1) sector_part[of i "unat ?a"] by (simp add: n file_byte_def Let_def)
  have vis2: "chain_byte (fl_fs l) cs (unat ?a * 512 + j) = ?b ! j" if "j < 512" for j
  proof -
    have "unat ?a * 512 + j < file_sectors (fl_fs lib) cs * 512" using a(2) that by linarith
    then show ?thesis using vis[of "unat ?a * 512 + j"] that a(1) by (simp add: file_byte_def)
  qed
  define l' where "l' = fl_upd l h (ff_data_dirty_update (\<lambda>_. False))"
  have dat: "?b = map (chain_byte (fl_fs l) cs) [unat ?a * 512 ..< (unat ?a + 1) * 512]"
    by (rule nth_equalityI) (simp_all add: a(3) vis2)
  have h': "handle_ok l' h cs"
    using r(5) dat a(2) fs f by (simp add: handle_ok_def l'_def fl_upd_def chain_handle_def lookup_ok_def data_ok_def)
  have "write_ok l' h cs"
    by (rule clean_write_ok[OF h']) (use r(5) i f in \<open>simp_all add: chain_handle_def l'_def fl_upd_def\<close>)
  moreover have "fl_fflush lib (Some h) = Inr l'"
    using r(1,2) True i by (simp add: fl_fflush_def CHECK_FL_INIT_def l'_def)
  moreover have "written lib l' h 0" using w0 by (simp add: written_def l'_def fl_upd_def)
  ultimately show ?thesis using True h' vis f by (auto simp: l'_def fl_upd_def)
qed


lemma no_buffer:
  assumes h: "handle_ok l h cs"
  defines "l' \<equiv> fl_upd l h (\<lambda>f. f\<lparr>ff_data_address := 0xFFFFFFFF, ff_data_dirty := False\<rparr>)"
  shows "handle_ok l' h cs" "written l l' h 0" "chain_byte (fl_fs l') = chain_byte (fl_fs l)" "fl_fs l' = fl_fs l"
    "ff_data_address (fl_files l' h) = 0xFFFFFFFF"
  using h by (simp_all add: handle_ok_def l'_def fl_upd_def lookup_ok_def data_ok_def written_def)

lemma drop_buffer_ok:
  assumes w: "write_ok lib h cs"
  shows "\<exists>l. drop_buffer lib h = Inr l \<and> write_ok l h cs \<and> written lib l h 0 \<and>
    ff_data_address (fl_files l h) = 0xFFFFFFFF \<and>
    (\<forall>i < file_sectors (fl_fs lib) cs * 512. file_byte l h cs i = file_byte lib h cs i)"
proof (cases "ff_data_address (fl_files lib h) = 0xFFFFFFFF")
  case True
  then show ?thesis using w written_refl by (auto simp: drop_buffer_def)
next
  case False
  obtain l where l: "(if ff_data_dirty (fl_files lib h) then fl_fflush lib (Some h) else Inr lib) = Inr l"
    "handle_ok l h cs" "write_ok l h cs" "written lib l h 0"
    "\<forall>i < file_sectors (fl_fs lib) cs * 512. chain_byte (fl_fs l) cs i = file_byte lib h cs i"
    using flush_ok[OF w] by blast
  let ?l = "fl_upd l h (\<lambda>f. f\<lparr>ff_data_address := 0xFFFFFFFF, ff_data_dirty := False\<rparr>)"
  note n = no_buffer[OF l(2)]
  have "drop_buffer lib h = Inr ?l" unfolding drop_buffer_def l(1) using False by simp
  moreover have "write_ok ?l h cs"
    by (rule clean_write_ok[OF n(1)]) (use l(3) in \<open>simp_all add: write_ok_def chain_handle_def fl_upd_def\<close>)
  moreover have "written lib ?l h 0" using written_trans[OF l(4) n(2)] by (simp only: add_0)
  moreover have "file_byte ?l h cs i = file_byte lib h cs i" if "i < file_sectors (fl_fs lib) cs * 512" for i
    using n(3,5) l(5) that by (simp add: file_byte_def)
  ultimately show ?thesis using n(5) by blast
qed

lemma load_buffer_ok:
  assumes w: "write_ok lib h cs" and s: "unat sector < file_sectors (fl_fs lib) cs"
  shows "\<exists>l. load_buffer lib h sector False = Inr l \<and> write_ok l h cs \<and> written lib l h 0 \<and>
    ff_data_address (fl_files l h) = sector \<and>
    (\<forall>i < file_sectors (fl_fs lib) cs * 512. file_byte l h cs i = file_byte lib h cs i)"
proof (cases "ff_data_address (fl_files lib h) = sector")
  case True
  then show ?thesis using w written_refl by (auto simp: load_buffer_def)
next
  case False
  obtain l where l: "(if ff_data_dirty (fl_files lib h) then fl_fflush lib (Some h) else Inr lib) = Inr l"
    "handle_ok l h cs" "write_ok l h cs" "written lib l h 0"
    "\<forall>i < file_sectors (fl_fs lib) cs * 512. chain_byte (fl_fs l) cs i = file_byte lib h cs i"
    using flush_ok[OF w] by blast
  note fs = written_sectors[OF l(4)]
  have s1: "unat sector < file_sectors (fl_fs l) cs" using s fs by simp
  obtain n l2 where r: "read_sectors l h sector 1 =
      Inr (Some (n, map (chain_byte (fl_fs l) cs) [unat sector * 512 ..< (unat sector + unat n) * 512]), l2)"
    "n \<noteq> 0" "unat n \<le> 1" "lookup_frame l l2 h" "handle_ok l2 h cs"
    using read_sectors_ok[OF l(2) s1, of 1] by auto
  have "0 < unat n" using r(2) by (simp add: unat_gt_0)
  then have n: "unat n = 1" using r(3) by linarith
  let ?bs = "map (chain_byte (fl_fs l) cs) [unat sector * 512 ..< (unat sector + 1) * 512]"
  define l3 where "l3 = fl_upd l2 h (\<lambda>f. f\<lparr>ff_data_sector := ?bs, ff_data_address := sector, ff_data_dirty := False\<rparr>)"
  have w2: "written l l2 h 0" by (rule same_handle_written[OF lookup_same_handle[OF r(4)]])
  have w3: "written lib l3 h 0"
    using written_trans[OF l(4) w2] by (simp add: written_def l3_def fl_upd_def)
  have tf: "table_frame (fl_fs l) (fl_fs l2)" using r(4) by (simp add: lookup_frame_def)
  have ch: "chain_ok (fl_fs l) (ff_startcluster (fl_files l h)) cs" using l(2) by (simp add: handle_ok_def)
  have cb: "chain_byte (fl_fs l3) cs i = chain_byte (fl_fs l) cs i" if "i < file_sectors (fl_fs l) cs * 512" for i
  proof -
    have "i < length cs * cluster_bytes (fl_fs l)"
      using that by (simp add: file_sectors_def cluster_bytes_def mult.assoc)
    then show ?thesis unfolding l3_def using frame_chain_byte[OF tf ch, of i] by (simp add: fl_upd_def)
  qed
  have bs: "?bs = map (chain_byte (fl_fs l2) cs) [unat sector * 512 ..< (unat sector + 1) * 512]"
    by (rule map_cong[OF refl]) (use cb s1 in \<open>auto simp: l3_def fl_upd_def\<close>)
  have s2: "unat sector < file_sectors (fl_fs l2) cs" using s1 written_sectors[OF w2] by simp
  note h3 = cache_sector_ok(1)[OF r(5) s2 bs, folded l3_def]
  have wf: "write_frame (fl_fs l) (fl_fs l2)" using w2 by (simp add: written_def)
  have "write_ok l3 h cs"
    by (rule clean_write_ok[OF h3])
      (use l(3) w2 in \<open>simp_all add: write_ok_def chain_handle_def l3_def fl_upd_def written_def write_frame_fields[OF wf]\<close>)
  moreover have "load_buffer lib h sector False = Inr l3"
  proof -
    have "fl_upd (fl_upd l2 h (ff_data_sector_update (\<lambda>_. ?bs))) h (\<lambda>f. f\<lparr>ff_data_address := sector, ff_data_dirty := False\<rparr>) = l3"
      by (simp add: l3_def fl_upd_def)
    then show ?thesis unfolding load_buffer_def l(1) using False by (simp add: r(1) n)
  qed
  moreover have "file_byte l3 h cs i = file_byte lib h cs i" if i: "i < file_sectors (fl_fs lib) cs * 512" for i
  proof -
    have "file_byte l3 h cs i = chain_byte (fl_fs l3) cs i"
      by (rule clean_bytes) (use h3 in \<open>simp add: handle_ok_def\<close>)
    then show ?thesis using cb[of i] l(5) i fs by simp
  qed
  ultimately show ?thesis using w3 by (auto simp: l3_def fl_upd_def)
qed


section \<open>Writing to a file\<close>

text \<open>Whole sectors go to the media.\<close>

lemma bulk_ok:
  assumes w: "write_ok lib h cs" and a: "ff_data_address (fl_files lib h) = 0xFFFFFFFF"
    and s: "unat sector < file_sectors (fl_fs lib) cs" and c: "c \<noteq> 0" "unat c < 2 ^ 24" "unat c * 512 \<le> length buf"
  shows "\<exists>n l. write_sectors lib h sector buf c = Inr (n, l) \<and> n \<noteq> 0 \<and> unat n \<le> unat c \<and>
    unat sector + unat n \<le> file_sectors (fl_fs lib) cs \<and>
    write_ok (fl_upd l h (bump (512 * n))) h cs \<and> written lib (fl_upd l h (bump (512 * n))) h (512 * unat n) \<and>
    (\<forall>i < file_sectors (fl_fs lib) cs * 512. file_byte (fl_upd l h (bump (512 * n))) h cs i =
      (if unat sector * 512 \<le> i \<and> i < (unat sector + unat n) * 512 then buf ! (i - unat sector * 512) else file_byte lib h cs i))"
proof -
  have ch: "chain_handle lib h cs" and i: "fl_initialised lib" and d: "\<not> ff_data_dirty (fl_files lib h)"
    using w a by (simp_all add: write_ok_def)
  obtain n l where r: "write_sectors lib h sector buf c = Inr (n, l)" "n \<noteq> 0" "unat n \<le> unat c"
    "unat sector + unat n \<le> file_sectors (fl_fs lib) cs" "same_handle lib l h" "chain_handle l h cs"
    "\<forall>i < file_sectors (fl_fs lib) cs * 512. chain_byte (fl_fs l) cs i =
      (if unat sector * 512 \<le> i \<and> i < (unat sector + unat n) * 512 then buf ! (i - unat sector * 512) else chain_byte (fl_fs lib) cs i)"
    using write_sectors_ok[OF ch s c] by blast
  let ?l = "fl_upd l h (bump (512 * n))"
  note f = same_handle_fields[OF r(5)]
  have fu: "fl_fs ?l = fl_fs l" "fl_files ?l h = bump (512 * n) (fl_files l h)" "fl_initialised ?l = fl_initialised l"
    by (simp_all add: fl_upd_def)
  have "write_ok ?l h cs"
    using r(6) i a d by (simp add: write_ok_def fu f chain_handle_def bump_def lookup_ok_def)
  moreover have "(512 * n :: u32) = word_of_nat (512 * unat n)" by simp
  then have "written lib ?l h (512 * unat n)"
    using same_handle_written[OF r(5)] unfolding written_def fu by (simp only: bump_def) simp
  moreover have "file_byte ?l h cs i = chain_byte (fl_fs l) cs i" "file_byte lib h cs i = chain_byte (fl_fs lib) cs i" for i
    using a by (simp_all add: file_byte_def fu f bump_def)
  ultimately show ?thesis using r by auto
qed

text \<open>Part of a sector goes to the buffer of the handle.\<close>

lemma patch_ok:
  assumes w: "write_ok l h cs" and a: "ff_data_address (fl_files l h) = sector"
    and s: "unat sector < file_sectors (fl_fs l) cs" and b: "offset + length bs \<le> 512"
  defines "l' \<equiv> fl_upd l h (\<lambda>f. bump (word_of_nat (length bs)) (f\<lparr>ff_data_sector :=
    overlay offset bs (ff_data_sector f), ff_data_dirty := True\<rparr>))"
  shows "write_ok l' h cs" "written l l' h (length bs)"
    "file_byte l' h cs i = (if unat sector * 512 + offset \<le> i \<and> i < unat sector * 512 + offset + length bs
       then bs ! (i - (unat sector * 512 + offset)) else file_byte l h cs i)"
proof -
  have "file_sectors (fl_fs l) cs < 2 ^ 32 - 1" using w by (simp add: write_ok_def chain_handle_def)
  then have na: "sector \<noteq> 0xFFFFFFFF" using s by auto
  have ln: "length (ff_data_sector (fl_files l h)) = 512" using w a na by (simp add: write_ok_def)
  have fu: "fl_fs l' = fl_fs l" "fl_initialised l' = fl_initialised l"
    "fl_files l' h = bump (word_of_nat (length bs)) ((fl_files l h)\<lparr>ff_data_sector :=
      overlay offset bs (ff_data_sector (fl_files l h)), ff_data_dirty := True\<rparr>)"
    by (simp_all add: l'_def fl_upd_def)
  show "write_ok l' h cs" using w a na s ln by (simp add: write_ok_def fu chain_handle_def bump_def lookup_ok_def)
  show "written l l' h (length bs)" by (simp add: written_def fu bump_def)
  show "file_byte l' h cs i = (if unat sector * 512 + offset \<le> i \<and> i < unat sector * 512 + offset + length bs
       then bs ! (i - (unat sector * 512 + offset)) else file_byte l h cs i)"
  proof (cases "i div 512 = unat sector")
    case True
    define r where "r = i mod 512"
    have r: "i = unat sector * 512 + r" "r < 512" using True div_mult_mod_eq[of i 512] by (simp_all add: r_def)
    have "file_byte l' h cs i = overlay offset bs (ff_data_sector (fl_files l h)) ! r"
      using True a na by (simp add: file_byte_def fu bump_def r_def)
    also have "\<dots> = (if offset \<le> r \<and> r < offset + length bs then bs ! (r - offset) else ff_data_sector (fl_files l h) ! r)"
      by (rule nth_overlay) (simp add: ln r)
    also have "ff_data_sector (fl_files l h) ! r = file_byte l h cs i"
      using True a na by (simp add: file_byte_def r_def)
    finally show ?thesis by (simp only: r(1) add_diff_cancel_left add.assoc nat_add_left_cancel_le nat_add_left_cancel_less)
  next
    case False
    have nr: "\<not> (unat sector * 512 + offset \<le> i \<and> i < unat sector * 512 + offset + length bs)"
    proof
      assume "unat sector * 512 + offset \<le> i \<and> i < unat sector * 512 + offset + length bs"
      then have "i div 512 = unat sector" using b by (intro div_nat_eqI) auto
      then show False using False by simp
    qed
    show ?thesis unfolding if_not_P[OF nr] using False a by (simp add: file_byte_def fu bump_def)
  qed
qed


lemma fwrite_loop_ok:
  assumes "write_ok lib h cs" "length buf < 2 ^ 31" "length buf < fuel"
    "buf = [] \<or> unat sector * 512 + offset = q \<and> offset < 512 \<and> q + length buf \<le> file_sectors (fl_fs lib) cs * 512"
  shows "\<exists>l. fwrite_loop fuel lib h sector offset buf = Inr l \<and> write_ok l h cs \<and> written lib l h (length buf) \<and>
    (\<forall>i < file_sectors (fl_fs lib) cs * 512. file_byte l h cs i =
      (if q \<le> i \<and> i < q + length buf then buf ! (i - q) else file_byte lib h cs i))"
  using assms
proof (induction fuel arbitrary: lib sector offset buf q)
  case 0
  then show ?case by simp
next
  case (Suc fuel)
  let ?N = "file_sectors (fl_fs lib) cs * 512"
  show ?case
  proof (cases "buf = []")
    case True
    then show ?thesis using Suc.prems written_refl by auto
  next
    case False
    then have q: "unat sector * 512 + offset = q" "offset < 512" "q + length buf \<le> ?N" using Suc.prems(4) by auto
    have ln: "0 < length buf" using False by simp
    have fs: "file_sectors (fl_fs lib) cs < 2 ^ 32 - 1" using Suc.prems(1) by (simp add: write_ok_def chain_handle_def)
    have s: "unat sector < file_sectors (fl_fs lib) cs" using q ln by linarith
    \<comment> \<open>A turn that has written \<open>k\<close> bytes is followed by the others.\<close>
    have turn: "\<exists>l. fwrite_loop fuel l1 h s1 0 (drop k buf) = Inr l \<and> write_ok l h cs \<and> written lib l h (length buf) \<and>
        (\<forall>i < ?N. file_byte l h cs i = (if q \<le> i \<and> i < q + length buf then buf ! (i - q) else file_byte lib h cs i))"
      if l1: "write_ok l1 h cs" "written lib l1 h k" and k: "0 < k" "k \<le> length buf"
        and s1: "k = length buf \<or> unat s1 * 512 = q + k"
        and b1: "\<forall>i < ?N. file_byte l1 h cs i = (if q \<le> i \<and> i < q + k then buf ! (i - q) else file_byte lib h cs i)"
      for l1 k s1
    proof -
      have n1: "file_sectors (fl_fs l1) cs = file_sectors (fl_fs lib) cs" by (rule written_sectors[OF l1(2)])
      have "\<exists>l. fwrite_loop fuel l1 h s1 0 (drop k buf) = Inr l \<and> write_ok l h cs \<and> written l1 l h (length (drop k buf)) \<and>
        (\<forall>i < file_sectors (fl_fs l1) cs * 512. file_byte l h cs i =
          (if q + k \<le> i \<and> i < q + k + length (drop k buf) then drop k buf ! (i - (q + k)) else file_byte l1 h cs i))"
      proof (rule Suc.IH[OF l1(1)])
        show "length (drop k buf) < 2 ^ 31" using Suc.prems(2) by simp
        show "length (drop k buf) < fuel" using Suc.prems(3) k ln by simp
        show "drop k buf = [] \<or> unat s1 * 512 + 0 = q + k \<and> (0 :: nat) < 512 \<and>
            q + k + length (drop k buf) \<le> file_sectors (fl_fs l1) cs * 512"
          using s1 q(3) k(2) n1 by auto
      qed
      then obtain l where l: "fwrite_loop fuel l1 h s1 0 (drop k buf) = Inr l" "write_ok l h cs"
        "written l1 l h (length (drop k buf))"
        "\<forall>i < ?N. file_byte l h cs i =
          (if q + k \<le> i \<and> i < q + k + length (drop k buf) then drop k buf ! (i - (q + k)) else file_byte l1 h cs i)"
        unfolding n1 by blast
      have "written lib l h (k + length (drop k buf))" by (rule written_trans[OF l1(2) l(3)])
      then have "written lib l h (length buf)" using k(2) by simp
      moreover have "file_byte l h cs i = (if q \<le> i \<and> i < q + length buf then buf ! (i - q) else file_byte lib h cs i)"
        if i: "i < ?N" for i
        using l(4)[rule_format, OF i] b1[rule_format, OF i] k(2) by (auto simp: nth_drop)
      ultimately show ?thesis using l(1,2) by blast
    qed
    show ?thesis
    proof (cases "offset = 0 \<and> 512 \<le> length buf")
      case True
      define c :: u32 where "c = word_of_nat (length buf div 512)"
      have rb: "length buf div 512 < 2 ^ 22" using Suc.prems(2) by (simp add: div_less_iff_less_mult)
      have uc: "unat c = length buf div 512" unfolding c_def unat_of_nat by (rule mod_less) (use rb in simp)
      have "0 < unat c" using True uc by (simp add: div_greater_zero_iff)
      then have c: "c \<noteq> 0" "unat c < 2 ^ 24" "unat c * 512 \<le> length buf" using rb uc by auto
      obtain l0 where d: "drop_buffer lib h = Inr l0" "write_ok l0 h cs" "written lib l0 h 0"
        "ff_data_address (fl_files l0 h) = 0xFFFFFFFF" "\<forall>i < ?N. file_byte l0 h cs i = file_byte lib h cs i"
        using drop_buffer_ok[OF Suc.prems(1)] by blast
      note n0 = written_sectors[OF d(3), of cs]
      obtain n l where r: "write_sectors l0 h sector buf c = Inr (n, l)" "n \<noteq> 0" "unat n \<le> unat c"
        "unat sector + unat n \<le> file_sectors (fl_fs l0) cs"
        "write_ok (fl_upd l h (bump (512 * n))) h cs" "written l0 (fl_upd l h (bump (512 * n))) h (512 * unat n)"
        "\<forall>i < file_sectors (fl_fs l0) cs * 512. file_byte (fl_upd l h (bump (512 * n))) h cs i =
          (if unat sector * 512 \<le> i \<and> i < (unat sector + unat n) * 512 then buf ! (i - unat sector * 512) else file_byte l0 h cs i)"
        using bulk_ok[OF d(2,4) s[folded n0] c] by blast
      have n: "0 < unat n" using r(2) by (simp add: unat_gt_0)
      have k: "512 * unat n \<le> length buf" using mult_le_mono2[OF r(3), of 512] c(3) by linarith
      have us: "unat (sector + n) = unat sector + unat n" using r(4) fs n0 by (simp add: unat_word_ariths)
      have q0: "q = unat sector * 512" using q(1) True by simp
      have e: "fwrite_loop (Suc fuel) lib h sector offset buf =
          fwrite_loop fuel (fl_upd l h (bump (512 * n))) h (sector + n) 0 (drop (512 * unat n) buf)"
        using False True d(1) r(1,2) by (simp add: c_def)
      show ?thesis unfolding e
      proof (rule turn[OF r(5)])
        show "written lib (fl_upd l h (bump (512 * n))) h (512 * unat n)"
          using written_trans[OF d(3) r(6)] by (simp only: add_0)
        show "\<forall>i < ?N. file_byte (fl_upd l h (bump (512 * n))) h cs i =
            (if q \<le> i \<and> i < q + 512 * unat n then buf ! (i - q) else file_byte lib h cs i)"
          using r(7)[unfolded n0] d(5) by (simp add: q0 algebra_simps)
      qed (use n k us q0 in simp_all)
    next
      case part: False
      define k where "k = min (512 - offset) (length buf)"
      have k: "0 < k" "k \<le> length buf" "offset + k \<le> 512" using q(2) ln by (simp_all add: k_def)
      have nw: "(k = 512) = False" using part q(2) by (auto simp: k_def)
      obtain l0 where d: "load_buffer lib h sector False = Inr l0" "write_ok l0 h cs" "written lib l0 h 0"
        "ff_data_address (fl_files l0 h) = sector" "\<forall>i < ?N. file_byte l0 h cs i = file_byte lib h cs i"
        using load_buffer_ok[OF Suc.prems(1) s] by blast
      note n0 = written_sectors[OF d(3), of cs]
      let ?l = "fl_upd l0 h (\<lambda>f. bump (word_of_nat k) (f\<lparr>ff_data_sector :=
        overlay offset (take k buf) (ff_data_sector f), ff_data_dirty := True\<rparr>))"
      have lk: "length (take k buf) = k" using k(2) by simp
      note p = patch_ok[OF d(2,4) s[folded n0], of offset "take k buf", unfolded lk, OF k(3)]
      have us: "unat (sector + 1) = unat sector + 1" using s fs by (simp add: unat_word_ariths)
      have e: "fwrite_loop (Suc fuel) lib h sector offset buf = fwrite_loop fuel ?l h (sector + 1) 0 (drop k buf)"
        using False d(1) unfolding fwrite_loop.simps k_def[symmetric] Let_def nw if_not_P[OF part] by simp
      show ?thesis unfolding e
      proof (rule turn[OF p(1)])
        show "written lib ?l h k" using written_trans[OF d(3) p(2)] by (simp only: add_0)
        show "k = length buf \<or> unat (sector + 1) * 512 = q + k" using us q k by (auto simp: k_def min_def)
        show "\<forall>i < ?N. file_byte ?l h cs i = (if q \<le> i \<and> i < q + k then buf ! (i - q) else file_byte lib h cs i)"
          using d(5) by (auto simp: p(3) q(1))
      qed (use k in simp_all)
    qed
  qed
qed


lemma write_ok_moved:
  assumes "write_ok l h cs" "fl_fs l' = fl_fs l" "fl_initialised l' = fl_initialised l"
    "ff_startcluster (fl_files l' h) = ff_startcluster (fl_files l h)"
    "ff_ClusterIdx (fl_files l' h) = ff_ClusterIdx (fl_files l h)"
    "ff_CurrentCluster (fl_files l' h) = ff_CurrentCluster (fl_files l h)"
    "ff_data_address (fl_files l' h) = ff_data_address (fl_files l h)"
    "ff_data_sector (fl_files l' h) = ff_data_sector (fl_files l h)"
    "ff_data_dirty (fl_files l' h) = ff_data_dirty (fl_files l h)"
  shows "write_ok l' h cs" "file_byte l' h cs = file_byte l h cs"
proof -
  have "data_ok (fl_fs l) (fl_files l' h) cs = data_ok (fl_fs l) (fl_files l h) cs"
    "lookup_ok (fl_files l' h) cs = lookup_ok (fl_files l h) cs"
    by (simp_all add: data_ok_def lookup_ok_def assms)
  then show "write_ok l' h cs" using assms(1) by (simp add: write_ok_def chain_handle_def assms)
  show "file_byte l' h cs = file_byte l h cs" by (simp add: file_byte_def fun_eq_iff assms)
qed

lemma fwrite_ok:
  fixes lib h cs
  defines "f \<equiv> fl_files lib h"
  assumes w: "write_ok lib h cs" and fw: "ff_flags f AND FILE_WRITE \<noteq> 0" and ln: "length data < 2 ^ 31"
    and q: "q = unat (if ff_flags f AND FILE_APPEND \<noteq> 0 then ff_filelength f else ff_bytenum f)"
    and e: "q + length data \<le> file_sectors (fl_fs lib) cs * 512" "q + length data < 2 ^ 32"
  shows "\<exists>l. fl_fwrite lib data (Some h) = Inr (int (length data), l) \<and> write_ok l h cs \<and>
    write_frame (fl_fs lib) (fl_fs l) \<and> unat (ff_bytenum (fl_files l h)) = q + length data \<and>
    unat (ff_filelength (fl_files l h)) = max (unat (ff_filelength f)) (q + length data) \<and>
    (\<forall>i < file_sectors (fl_fs lib) cs * 512. file_byte l h cs i =
      (if q \<le> i \<and> i < q + length data then data ! (i - q) else file_byte lib h cs i))"
proof -
  let ?ap = "ff_flags f AND FILE_APPEND \<noteq> 0"
  define l0 where "l0 = (if ?ap then fl_upd lib h (\<lambda>f. f\<lparr>ff_bytenum := ff_filelength f\<rparr>) else lib)"
  have fu: "fl_fs l0 = fl_fs lib" "fl_initialised l0 = fl_initialised lib" "ff_filelength (fl_files l0 h) = ff_filelength f"
    "unat (ff_bytenum (fl_files l0 h)) = q" "file_byte l0 h cs = file_byte lib h cs"
    by (simp_all add: l0_def fl_upd_def f_def q file_byte_def fun_eq_iff)
  have w0: "write_ok l0 h cs" by (rule write_ok_moved(1)[OF w]) (simp_all add: l0_def fl_upd_def)
  let ?p = "ff_bytenum (fl_files l0 h)"
  have "\<exists>l. fwrite_loop (Suc (length data)) l0 h (?p div 512) (unat (?p mod 512)) data = Inr l \<and> write_ok l h cs \<and>
    written l0 l h (length data) \<and>
    (\<forall>i < file_sectors (fl_fs l0) cs * 512. file_byte l h cs i =
      (if q \<le> i \<and> i < q + length data then data ! (i - q) else file_byte l0 h cs i))"
  proof (rule fwrite_loop_ok[OF w0 ln])
    show "data = [] \<or> unat (?p div 512) * 512 + unat (?p mod 512) = q \<and> unat (?p mod 512) < 512 \<and>
        q + length data \<le> file_sectors (fl_fs l0) cs * 512"
      using e(1) by (simp add: fu unat_div unat_mod)
  qed simp
  then obtain l where l: "fwrite_loop (Suc (length data)) l0 h (?p div 512) (unat (?p mod 512)) data = Inr l" "write_ok l h cs"
    "written l0 l h (length data)"
    "\<forall>i < file_sectors (fl_fs lib) cs * 512. file_byte l h cs i =
      (if q \<le> i \<and> i < q + length data then data ! (i - q) else file_byte lib h cs i)"
    unfolding fu by blast
  let ?g = "\<lambda>f. if ff_filelength f < ff_bytenum f then f\<lparr>ff_filelength := ff_bytenum f, ff_filelength_changed := True\<rparr> else f"
  define l1 where "l1 = fl_upd l h ?g"
  have fl: "ff_filelength (fl_files l h) = ff_filelength f" "ff_bytenum (fl_files l h) = ?p + word_of_nat (length data)"
    "write_frame (fl_fs lib) (fl_fs l)"
    using l(3) by (simp_all add: written_def fu)
  have ul: "unat (word_of_nat (length data) :: u32) = length data" unfolding unat_of_nat by (rule mod_less) (use ln in simp)
  have bn: "unat (ff_bytenum (fl_files l h)) = q + length data"
    unfolding fl(2) unat_word_ariths(1) ul fu(4) by (rule mod_less) (use e(2) in simp)
  have fu1: "fl_fs l1 = fl_fs l" "fl_initialised l1 = fl_initialised l" "fl_files l1 h = ?g (fl_files l h)"
    by (simp_all add: l1_def fl_upd_def)
  have "fl_fwrite lib data (Some h) = Inr (int (length data), l1)"
  proof -
    have "\<not> 2 ^ 31 \<le> length data" using ln by simp
    moreover have "CHECK_FL_INIT lib = lib" using w by (simp add: CHECK_FL_INIT_def write_ok_def)
    ultimately have "fl_fwrite lib data (Some h) =
        andThen (fwrite_loop (Suc (length data)) l0 h (?p div 512) (unat (?p mod 512)) data)
          (\<lambda>l. Inr (int (length data), fl_upd l h ?g))"
      using fw unfolding fl_fwrite_def Let_def by (simp only: option.case if_False f_def[symmetric] l0_def[symmetric])
    then show ?thesis unfolding l(1) by (simp add: l1_def)
  qed
  moreover have "write_ok l1 h cs" by (rule write_ok_moved(1)[OF l(2)]) (simp_all add: fu1)
  moreover have "unat (ff_bytenum (fl_files l1 h)) = q + length data" using bn by (simp add: fu1)
  moreover have "unat (ff_filelength (fl_files l1 h)) = max (unat (ff_filelength f)) (q + length data)"
    using bn fl(1) by (simp add: fu1 word_less_nat_alt)
  moreover have "file_byte l1 h cs = file_byte l h cs" by (rule write_ok_moved(2)[OF l(2)]) (simp_all add: fu1)
  ultimately show ?thesis using l(4) fl(3) by (auto simp: fu1)
qed

text \<open>The file as a whole.\<close>

definition file_contents :: "filelib \<Rightarrow> handle \<Rightarrow> u32 list \<Rightarrow> u8 list" where
  "file_contents lib h cs = map (file_byte lib h cs) [0..<file_sectors (fl_fs lib) cs * 512]"

lemma write_flush_ok:
  fixes lib h cs
  defines "f \<equiv> fl_files lib h"
  assumes w: "write_ok lib h cs" and fw: "ff_flags f AND FILE_WRITE \<noteq> 0" and ln: "length data < 2 ^ 31"
    and q: "q = unat (if ff_flags f AND FILE_APPEND \<noteq> 0 then ff_filelength f else ff_bytenum f)"
    and e: "q + length data \<le> file_sectors (fl_fs lib) cs * 512" "q + length data < 2 ^ 32"
  shows "\<exists>l l2. fl_fwrite lib data (Some h) = Inr (int (length data), l) \<and>
    unat (ff_bytenum (fl_files l h)) = q + length data \<and>
    unat (ff_filelength (fl_files l h)) = max (unat (ff_filelength f)) (q + length data) \<and>
    file_contents l h cs = overlay q data (file_contents lib h cs) \<and> fl_fflush l (Some h) = Inr l2 \<and> handle_ok l2 h cs \<and>
    map (chain_byte (fl_fs l2) cs) [0..<file_sectors (fl_fs lib) cs * 512] = overlay q data (file_contents lib h cs) \<and>
    write_frame (fl_fs lib) (fl_fs l2)"
proof -
  let ?N = "file_sectors (fl_fs lib) cs * 512"
  obtain l where l: "fl_fwrite lib data (Some h) = Inr (int (length data), l)" "write_ok l h cs"
    "write_frame (fl_fs lib) (fl_fs l)" "unat (ff_bytenum (fl_files l h)) = q + length data"
    "unat (ff_filelength (fl_files l h)) = max (unat (ff_filelength f)) (q + length data)"
    "\<forall>i < ?N. file_byte l h cs i = (if q \<le> i \<and> i < q + length data then data ! (i - q) else file_byte lib h cs i)"
    unfolding f_def using fwrite_ok[OF w fw[unfolded f_def] ln q[unfolded f_def] e] by blast
  have N: "file_sectors (fl_fs l) cs = file_sectors (fl_fs lib) cs" using write_frame_fields(11)[OF l(3)] by simp
  have c: "map (file_byte l h cs) [0..<?N] = overlay q data (file_contents lib h cs)"
    by (rule nth_equalityI) (simp_all add: file_contents_def nth_overlay l(6))
  obtain l2 where l2: "(if ff_data_dirty (fl_files l h) then fl_fflush l (Some h) else Inr l) = Inr l2"
    "handle_ok l2 h cs" "written l l2 h 0" "\<forall>i < ?N. chain_byte (fl_fs l2) cs i = file_byte l h cs i"
    using flush_ok[OF l(2)] unfolding N by blast
  have "CHECK_FL_INIT l = l" using l(2) by (simp add: write_ok_def CHECK_FL_INIT_def)
  then have fl: "fl_fflush l (Some h) = Inr l2" using l2(1) by (auto simp: fl_fflush_def split: if_splits)
  have "map (chain_byte (fl_fs l2) cs) [0..<?N] = map (file_byte l h cs) [0..<?N]"
    by (rule map_cong[OF refl]) (use l2(4) in simp)
  moreover have "write_frame (fl_fs lib) (fl_fs l2)"
    using write_frame_trans[OF l(3)] l2(3) by (simp add: written_def)
  moreover have "file_contents l h cs = overlay q data (file_contents lib h cs)" unfolding file_contents_def[of l] N by (rule c)
  ultimately show ?thesis using l(1,4,5) fl l2(2) c by metis
qed


section \<open>Seeking before the buffer is flushed\<close>

text \<open>\<open>fl_fseek\<close> gives the buffer up and does not look whether it has been written.\<close>

lemma fseek_forgets_ok:
  assumes w: "write_ok lib h cs" and o: "origin \<noteq> SEEK_CUR \<or> offset \<noteq> - (2 ^ 31)" and or: "origin \<in> {SEEK_SET, SEEK_CUR}"
  shows "\<exists>l. fl_fseek lib (Some h) offset origin = Inr (0, l) \<and> fl_fs l = fl_fs lib \<and>
    (\<forall>i. file_byte l h cs i = chain_byte (fl_fs lib) cs i) \<and> \<not> ff_data_dirty (fl_files l h)"
proof -
  have "CHECK_FL_INIT lib = lib" using w by (simp add: CHECK_FL_INIT_def write_ok_def)
  then show ?thesis
    using o or by (auto simp: fl_fseek_def SEEK_SET_def SEEK_CUR_def SEEK_END_def fl_upd_def file_byte_def Let_def)
qed

section \<open>A file that is open for writing\<close>

definition small_writer :: filelib where
  "small_writer = fl_upd small_lib 0 (ff_flags_update (\<lambda>_. FILE_READ OR FILE_WRITE))"

lemma small_apart: "chain_apart small_fat [3, 5, 4]"
proof -
  have ne: "unat ([3, 5, 4 :: u32] ! i) \<noteq> unat ([3, 5, 4 :: u32] ! j)" if "i < 3" "j < 3" "i \<noteq> j" for i j
    using that nth_eq_iff_index_eq[of "[3, 5, 4 :: u32]" i j] by (simp flip: word_unat_eq_iff)
  have sc: "unat (fs_sectors_per_cluster small_fat) = 1" "length [3, 5, 4 :: u32] = 3" "2 + (c - 2) = c" for c :: u32
    by simp_all
  show ?thesis
    unfolding chain_apart_def small_lba sc
  proof (intro allI impI)
    fix i j :: nat assume "i < 3" "j < 3" "i \<noteq> j"
    then show "unat ([3, 5, 4 :: u32] ! i) + 1 \<le> unat ([3, 5, 4 :: u32] ! j) \<or>
        unat ([3, 5, 4 :: u32] ! j) + 1 \<le> unat ([3, 5, 4 :: u32] ! i)" using ne[of i j] by linarith
  qed
qed

lemma small_writer_ok: "write_ok small_writer 0 [3, 5, 4]"
proof -
  have "handle_ok small_writer 0 [3, 5, 4]"
    using small_handle_ok[of 0] by (simp add: small_writer_def fl_upd_def handle_ok_def lookup_ok_def data_ok_def)
  then show ?thesis
    using small_apart by (intro clean_write_ok) (simp_all add: small_writer_def fl_upd_def)
qed

lemma small_writer_fields:
  "ff_flags (fl_files small_writer 0) = FILE_READ OR FILE_WRITE" "ff_bytenum (fl_files small_writer 0) = 510"
  "ff_filelength (fl_files small_writer 0) = 1200" "fl_fs small_writer = small_fat"
  "file_byte small_writer 0 = file_byte small_lib 0"
  by (simp_all add: small_writer_def fl_upd_def small_file_def file_byte_def fun_eq_iff)

lemma small_contents:
  "file_byte small_lib 0 [3, 5, 4] i = chain_byte small_fat [3, 5, 4] i"
  using clean_bytes[of small_lib 0 "[3, 5, 4]" i] small_handle_ok[of 0] by (simp add: handle_ok_def)

text \<open>
  C6: Writing to a file. \<open>fl_fwrite\<close> at a position of a file that has the clusters for it, or
  at its end when the file is open for appending, replaces exactly the bytes from there on by
  those given, whatever mixture of whole sectors and parts of sectors they come to and
  whatever waits in the buffer of the handle; the position moves past them and the length of
  the file covers them. After \<open>fl_fflush\<close> the clusters of the file on the media hold these
  bytes, and the allocation table is what it was.
\<close>

theorem file_written:
  assumes "write_ok lib h cs" "ff_flags (fl_files lib h) AND FILE_WRITE \<noteq> 0" "length data < 2 ^ 31"
    "q = unat (if ff_flags (fl_files lib h) AND FILE_APPEND \<noteq> 0 then ff_filelength (fl_files lib h)
       else ff_bytenum (fl_files lib h))"
    "q + length data \<le> file_sectors (fl_fs lib) cs * 512" "q + length data < 2 ^ 32"
  shows "\<exists>l l2. fl_fwrite lib data (Some h) = Inr (int (length data), l) \<and>
    unat (ff_bytenum (fl_files l h)) = q + length data \<and>
    unat (ff_filelength (fl_files l h)) = max (unat (ff_filelength (fl_files lib h))) (q + length data) \<and>
    file_contents l h cs = overlay q data (file_contents lib h cs) \<and> fl_fflush l (Some h) = Inr l2 \<and> handle_ok l2 h cs \<and>
    map (chain_byte (fl_fs l2) cs) [0..<file_sectors (fl_fs lib) cs * 512] = overlay q data (file_contents lib h cs) \<and>
    write_frame (fl_fs lib) (fl_fs l2)"
  by (rule write_flush_ok[OF assms])

lemma file_written_witness:
  "\<exists>l l2. fl_fwrite small_writer [1, 2, 9, 8] (Some 0) = Inr (4, l) \<and> fl_fflush l (Some 0) = Inr l2 \<and>
    ff_bytenum (fl_files l 0) = 514 \<and>
    map (chain_byte (fl_fs l2) [3, 5, 4]) [509, 510, 511, 512, 513, 514] = [3, 1, 2, 9, 8, 5]"
proof -
  obtain l l2 where r: "fl_fwrite small_writer [1, 2, 9, 8] (Some 0) = Inr (int (length [1 :: u8, 2, 9, 8]), l)"
    "unat (ff_bytenum (fl_files l 0)) = 510 + length [1 :: u8, 2, 9, 8]" "fl_fflush l (Some 0) = Inr l2"
    "map (chain_byte (fl_fs l2) [3, 5, 4]) [0..<file_sectors (fl_fs small_writer) [3, 5, 4] * 512] =
       overlay 510 [1, 2, 9, 8] (file_contents small_writer 0 [3, 5, 4])"
    using file_written[of small_writer 0 "[3, 5, 4]" "[1, 2, 9, 8]" 510] small_writer_ok
    by (auto simp: small_writer_fields FILE_READ_def FILE_WRITE_def FILE_APPEND_def file_sectors_def)
  have N: "file_sectors (fl_fs small_writer) [3, 5, 4] * 512 = 1536" by (simp add: small_writer_fields file_sectors_def)
  have lc: "length (file_contents small_writer 0 [3, 5, 4]) = 1536" by (simp add: file_contents_def N)
  have b: "chain_byte (fl_fs l2) [3, 5, 4] i = overlay 510 [1, 2, 9, 8] (file_contents small_writer 0 [3, 5, 4]) ! i"
    if "i < 1536" for i
    using arg_cong[OF r(4)[unfolded N], of "\<lambda>xs. xs ! i"] that by simp
  have c: "file_contents small_writer 0 [3, 5, 4] ! i = chain_byte small_fat [3, 5, 4] i" if "i < 1536" for i
    unfolding file_contents_def N using that by (simp add: small_writer_fields small_contents)
  have "map (chain_byte (fl_fs l2) [3, 5, 4]) [509, 510, 511, 512, 513, 514] = [3, 1, 2, 9, 8, 5]"
    by (simp add: b c nth_overlay lc) (simp add: chain_byte_def cluster_bytes_def small_lba small_byte_def)
  moreover have "ff_bytenum (fl_files l 0) = 514" using r(2) by (simp add: word_unat_eq_iff)
  ultimately show ?thesis using r(1,3) by auto
qed

text \<open>
  C23: Seeking away from bytes that have been written but not flushed loses them: after
  \<open>fl_fseek\<close> the file reads as its clusters on the media do, which are not touched, although
  the sector in the buffer of the handle was waiting to be written there.
\<close>

theorem seek_forgets_write:
  assumes "write_ok lib h cs" "origin \<in> {SEEK_SET, SEEK_CUR}" "origin \<noteq> SEEK_CUR \<or> offset \<noteq> - (2 ^ 31)"
  shows "\<exists>l. fl_fseek lib (Some h) offset origin = Inr (0, l) \<and> fl_fs l = fl_fs lib \<and>
    (\<forall>i. file_byte l h cs i = chain_byte (fl_fs lib) cs i) \<and> \<not> ff_data_dirty (fl_files l h)"
  by (rule fseek_forgets_ok[OF assms(1,3,2)])

text \<open>A byte written at position 511 and lost: the file has the old byte 3 there again.\<close>

definition pending_writer :: filelib where
  "pending_writer = fl_upd small_writer 0 (\<lambda>f. f\<lparr>ff_data_address := 0, ff_data_dirty := True,
     ff_data_sector := overlay 511 [7] (replicate 512 3), ff_bytenum := 512\<rparr>)"

lemma seek_forgets_write_witness:
  "file_byte pending_writer 0 [3, 5, 4] 511 = 7 \<and>
   (\<exists>l. fl_fseek pending_writer (Some 0) 0 SEEK_SET = Inr (0, l) \<and> file_byte l 0 [3, 5, 4] 511 = 3)"
proof -
  have w: "write_ok pending_writer 0 [3, 5, 4]"
    using small_writer_ok by (simp add: pending_writer_def write_ok_def fl_upd_def chain_handle_def lookup_ok_def
        small_writer_fields file_sectors_def)
  have f: "fl_fs pending_writer = small_fat" by (simp add: pending_writer_def fl_upd_def small_writer_fields)
  have "chain_byte small_fat [3, 5, 4] 511 = 3"
    by (simp add: chain_byte_def cluster_bytes_def small_lba small_byte_def)
  moreover have "file_byte pending_writer 0 [3, 5, 4] 511 = 7"
    by (simp add: file_byte_def pending_writer_def fl_upd_def nth_overlay)
  ultimately show ?thesis
    using seek_forgets_write[OF w, of SEEK_SET 0] f by (auto simp: SEEK_SET_def SEEK_CUR_def)
qed

end
