(* ===== verification/FatNames.thy ===== *)
theory FatNames
  imports FatSearch FatWrite
begin

text \<open>
  The entries a new name is written as are found again by the search: the long name, in
  pieces of 13 characters from the last to the first, then the short entry.
\<close>

lemma put_attribute: "i < 13 \<Longrightarrow> lfn_put filename start buffer i ! 11 = buffer ! 11"
proof -
  assume i: "i < 13"
  have "\<forall>k \<in> set nameIndexes. k \<noteq> 11 \<and> k + 1 \<noteq> 11" by (simp add: nameIndexes_def)
  moreover have "nameIndexes ! i \<in> set nameIndexes" by (rule nth_mem) (use i in \<open>simp add: nameIndexes_def\<close>)
  ultimately show ?thesis by (auto simp: lfn_put_def)
qed

lemma fold_attribute: "k \<le> 13 \<Longrightarrow> foldl (lfn_put filename start) buffer [0..<k] ! 11 = buffer ! 11"
  by (induction k) (simp_all add: put_attribute)

lemma lfn_entry_text: "fatfs_entry_lfn_text (decode_dir_entry (fatfs_filename_to_lfn filename e chk))"
proof -
  have "fatfs_filename_to_lfn filename e chk ! 11 = 0x0F"
    unfolding fatfs_filename_to_lfn_def Let_def MAX_LFN_ENTRY_LENGTH_def
    by (subst fold_attribute) (simp_all add: FAT_DIR_ENTRY_SIZE_def)
  then show ?thesis by (simp add: fatfs_entry_lfn_text_def decode_dir_entry_def FILE_ATTR_LFN_TEXT_def)
qed

lemma scan_pieces:
  "entry_scan name (map (\<lambda>e. fatfs_filename_to_lfn filename e chk) es @ rest) lfn =
   entry_scan name rest (foldl fatfs_lfn_cache_entry lfn (map (\<lambda>e. fatfs_filename_to_lfn filename e chk) es))"
  by (induction es arbitrary: lfn) (simp_all add: entry_step_def lfn_entry_text)

text \<open>The entries of a new name, as they are written one after the other.\<close>

definition lfn_entries :: "new_entry \<Rightarrow> u8 list list" where
  "lfn_entries n =
     map (\<lambda>e. fatfs_filename_to_lfn (ne_filename n) e (sfn_checksum (ne_shortfilename n)))
       (rev [0..<fatfs_lfn_entries_required (ne_filename n)]) @
     [encode_dir_entry (fatfs_sfn_create_entry (ne_shortfilename n) (ne_size n) (ne_startCluster n) (ne_dir n))]"

lemma new_entry_shape:
  "11 \<le> length (ne_shortfilename n) \<Longrightarrow>
   dir_entry_shape (fatfs_sfn_create_entry (ne_shortfilename n) (ne_size n) (ne_startCluster n) (ne_dir n))"
  by (simp add: dir_entry_shape_def fatfs_sfn_create_entry_def FAT_SFN_SIZE_FULL_def)

lemma pieces_counted:
  assumes "c_string filename" "0xFF \<notin> set filename" "0 < length filename" "length filename \<le> 260"
    "lfn_no_of_strings lfn = 0" "length (lfn_String lfn) = 20"
  shows "lfn_no_of_strings (foldl fatfs_lfn_cache_entry lfn
    (map (\<lambda>e. fatfs_filename_to_lfn filename e chk) (rev [0..<fatfs_lfn_entries_required filename]))) \<noteq> 0"
proof -
  define n where "n = fatfs_lfn_entries_required filename"
  have n: "0 < n" "n \<le> 20"
    using assms(3,4)
    by (auto simp: n_def fatfs_lfn_entries_required_def MAX_LFN_ENTRY_LENGTH_def div_greater_zero_iff Suc_le_eq)
  show ?thesis
    using cache_entries[OF n(1,2) assms(2,6), of n chk] n(1) assms(5) by (simp flip: n_def)
qed

lemma lfn_entries_found:
  assumes name: "c_string (ne_filename n)" "0xFF \<notin> set (ne_filename n)" "0 < length (ne_filename n)" "length (ne_filename n) \<le> 260"
    and short: "11 \<le> length (ne_shortfilename n)" "ne_shortfilename n ! 0 \<notin> {0, 0xE5}"
    and lfn: "lfn_no_of_strings lfn = 0" "length (lfn_String lfn) = 20" "\<forall>r \<in> set (lfn_String lfn). length r = 13"
    and same: "fatfs_compare_names (ne_filename n) name"
  shows "fst (entry_scan name (lfn_entries n @ rest) lfn) =
    Some (fatfs_sfn_create_entry (ne_shortfilename n) (ne_size n) (ne_startCluster n) (ne_dir n))"
proof -
  let ?e = "fatfs_sfn_create_entry (ne_shortfilename n) (ne_size n) (ne_startCluster n) (ne_dir n)"
  let ?chk = "sfn_checksum (ne_shortfilename n)"
  define l where "l = foldl fatfs_lfn_cache_entry lfn
    (map (\<lambda>e. fatfs_filename_to_lfn (ne_filename n) e ?chk) (rev [0..<fatfs_lfn_entries_required (ne_filename n)]))"
  have c: "lfn_no_of_strings l \<noteq> 0" "fst (fatfs_lfn_cache_get l) = ne_filename n"
    unfolding l_def by (rule pieces_counted[OF name lfn(1,2)], rule lfn_collected[OF name lfn])
  have a: "de_Attr ?e = 0x20 \<or> de_Attr ?e = 0x10"
    by (simp add: fatfs_sfn_create_entry_def FILE_TYPE_FILE_def FILE_TYPE_DIR_def)
  have nm: "de_Name ?e ! 0 = ne_shortfilename n ! 0"
    using short(1) by (simp add: fatfs_sfn_create_entry_def FAT_SFN_SIZE_FULL_def)
  have e: "\<not> fatfs_entry_lfn_text ?e" "\<not> fatfs_entry_lfn_invalid ?e" "fatfs_entry_lfn_exists l ?e"
    using a nm short(2) c(1)
    by (auto simp: fatfs_entry_lfn_text_def fatfs_entry_lfn_invalid_def fatfs_entry_lfn_exists_def FILE_ATTR_LFN_TEXT_def
        FILE_ATTR_VOLUME_ID_def FILE_ATTR_SYSHID_def FILE_HEADER_BLANK_def FILE_HEADER_DELETED_def)
  obtain l2 where g: "fatfs_lfn_cache_get l = (ne_filename n, l2)" using c(2) by (metis prod.collapse)
  have s: "entry_step name (encode_dir_entry ?e) l = (Some ?e, l2)"
    using e same by (simp add: entry_step_def decode_encode_dir_entry[OF new_entry_shape[OF short(1)]] g)
  show ?thesis
    unfolding lfn_entries_def append_assoc scan_pieces l_def[symmetric] by (simp add: s)
qed


text \<open>A file "long name.text", its entry found under its name in capitals.\<close>

definition demo_entry :: new_entry where
  "demo_entry = \<lparr>ne_filename = [0x6C, 0x6F, 0x6E, 0x67, 0x20, 0x6E, 0x61, 0x6D, 0x65, 0x2E, 0x74, 0x65, 0x78, 0x74],
     ne_shortfilename = [76, 79, 78, 71, 78, 65, 126, 49, 84, 69, 88], ne_startCluster = 5, ne_size = 1200, ne_dir = False\<rparr>"

definition demo_capitals :: "u8 list" where
  "demo_capitals = [0x4C, 0x4F, 0x4E, 0x47, 0x20, 0x4E, 0x41, 0x4D, 0x45, 0x2E, 0x54, 0x45, 0x58, 0x54]"

lemma demo_entry_ok:
  "c_string (ne_filename demo_entry)" "0xFF \<notin> set (ne_filename demo_entry)" "0 < length (ne_filename demo_entry)"
  "length (ne_filename demo_entry) \<le> 260" "11 \<le> length (ne_shortfilename demo_entry)"
  "ne_shortfilename demo_entry ! 0 \<notin> {0, 0xE5}"
  by (simp_all add: demo_entry_def c_string_def)

lemma empty_lfn_ok:
  "lfn_no_of_strings empty_lfn = 0" "length (lfn_String empty_lfn) = 20" "\<forall>r \<in> set (lfn_String empty_lfn). length r = 13"
  by code_simp+

lemma demo_compare: "fatfs_compare_names (ne_filename demo_entry) demo_capitals"
  unfolding demo_entry_def demo_capitals_def new_entry.simps by code_simp

end
