(* ===== verification/FatCreate.thy ===== *)
theory FatCreate
  imports FatStore FatNames
begin

text \<open>
  Entering a new name in a directory: the place found for it is free, the entries of the name
  are written there and nowhere else, and the name is found afterwards.
\<close>

section \<open>A directory as a list of entries\<close>

definition entry_at :: "fatfs \<Rightarrow> u32 list \<Rightarrow> nat \<Rightarrow> u8 list" where
  "entry_at fs cs t = map (chain_byte fs cs) [t * 32 ..< t * 32 + 32]"

lemma length_entry_at [simp]: "length (entry_at fs cs t) = 32"
  by (simp add: entry_at_def)

lemma nth_entry_at: "i < 32 \<Longrightarrow> entry_at fs cs t ! i = chain_byte fs cs (t * 32 + i)"
  by (simp add: entry_at_def del: upt_rec_numeral)

lemma length_chain_sector [simp]: "length (chain_sector fs cs x) = 512"
  by (simp add: chain_sector_def)

lemma nth_chain_sector: "i < 512 \<Longrightarrow> chain_sector fs cs x ! i = chain_byte fs cs (x * 512 + i)"
  by (simp add: chain_sector_def del: upt_rec_numeral)

lemma sector_entries_at:
  "sector_entries (chain_sector fs cs x) = map (\<lambda>item. entry_at fs cs (x * 16 + item)) [0..<16]"
proof -
  have e: "slice_of (32 * item) 32 (chain_sector fs cs x) = entry_at fs cs (x * 16 + item)" if "item < 16" for item
  proof (rule nth_equalityI)
    show "length (slice_of (32 * item) 32 (chain_sector fs cs x)) = length (entry_at fs cs (x * 16 + item))"
      using that by simp
    fix i assume "i < length (slice_of (32 * item) 32 (chain_sector fs cs x))"
    then have i: "i < 32" by simp
    then have k: "32 * item + i < 512" using that by simp
    have "slice_of (32 * item) 32 (chain_sector fs cs x) ! i = chain_byte fs cs (x * 512 + (32 * item + i))"
      by (subst nth_slice_of) (use i k in \<open>simp_all add: nth_chain_sector\<close>)
    also have "x * 512 + (32 * item + i) = (x * 16 + item) * 32 + i" by simp
    finally show "slice_of (32 * item) 32 (chain_sector fs cs x) ! i = entry_at fs cs (x * 16 + item) ! i"
      using i by (simp only: nth_entry_at)
  qed
  show ?thesis
    unfolding sector_entries_def FAT_DIR_ENTRY_SIZE_def FAT_DIR_ENTRIES_PER_SECTOR_def
  proof (rule map_cong[OF refl])
    fix item assume "item \<in> set [0..<16]"
    then have "item < 16" by (simp only: set_upt atLeastLessThan_iff)
    then show "slice_of (32 * item) 32 (chain_sector fs cs x) = entry_at fs cs (x * 16 + item)" by (rule e)
  qed
qed

lemma upt_glue_map: "map f [0..<a] @ map (\<lambda>i. f (a + i)) [0..<b] = map f [0..<a + b]"
proof -
  have "map (\<lambda>i. f (a + i)) [0..<b] = map f [a..<a + b]"
    by (rule nth_equalityI) simp_all
  then show ?thesis by (simp add: upt_add_eq_append[of 0 a b])
qed

lemma dir_entries_at: "dir_entries fs cs = map (entry_at fs cs) [0..<file_sectors fs cs * 16]"
proof -
  have "concat (map (\<lambda>x. sector_entries (chain_sector fs cs x)) [0..<n]) = map (entry_at fs cs) [0..<n * 16]" for n
  proof (induction n)
    case (Suc n)
    have "Suc n * 16 = n * 16 + 16" by simp
    then show ?case
      using Suc upt_glue_map[of "entry_at fs cs" "n * 16" 16]
      by (simp only: upt_Suc_append[of 0 n] map_append concat_append list.map concat.simps append_Nil2 sector_entries_at le0)
  qed simp
  then show ?thesis by (simp add: dir_entries_def)
qed

section \<open>The place for a new name\<close>

text \<open>An entry whose place can be taken: deleted or never used, or part of a long name.\<close>

definition erased :: "u8 list \<Rightarrow> bool" where
  "erased b \<longleftrightarrow> \<not> fatfs_entry_lfn_text (decode_dir_entry b) \<and> (b ! 0 = FILE_HEADER_DELETED \<or> b ! 0 = FILE_HEADER_BLANK)"

definition vacant :: "u8 list \<Rightarrow> bool" where
  "vacant b \<longleftrightarrow> fatfs_entry_lfn_text (decode_dir_entry b) \<or> erased b"

text \<open>
  A place for \<open>k\<close> entries, right after an entry in use or at the start: it lies in a run of
  entries without one in use, and the run goes on to an entry that is deleted or blank.
\<close>

definition place_for :: "nat \<Rightarrow> u8 list list \<Rightarrow> nat \<Rightarrow> bool" where
  "place_for k es pos \<longleftrightarrow> (\<exists>g. pos + k \<le> Suc g \<and> g < length es \<and> erased (es ! g) \<and>
     (\<forall>t. pos \<le> t \<and> t \<le> g \<longrightarrow> vacant (es ! t))) \<and> (pos = 0 \<or> \<not> vacant (es ! (pos - 1)))"

lemma place_inside: "place_for k es pos \<Longrightarrow> pos + k \<le> length es"
  by (auto simp: place_for_def)

text \<open>
  An entry belongs to a file when it is in use itself, or when it holds a piece of a long name and
  only such pieces lie between it and an entry in use.
\<close>

definition belongs :: "u8 list list \<Rightarrow> nat \<Rightarrow> bool" where
  "belongs es t \<longleftrightarrow> (\<exists>u \<ge> t. u < length es \<and> \<not> vacant (es ! u) \<and>
     (\<forall>v. t \<le> v \<and> v < u \<longrightarrow> fatfs_entry_lfn_text (decode_dir_entry (es ! v))))"

lemma place_unused:
  assumes "place_for k es pos" "pos \<le> t" "t < pos + k" shows "\<not> belongs es t"
proof
  assume "belongs es t"
  then obtain u where u: "t \<le> u" "\<not> vacant (es ! u)" "\<And>v. t \<le> v \<Longrightarrow> v < u \<Longrightarrow> fatfs_entry_lfn_text (decode_dir_entry (es ! v))"
    by (auto simp: belongs_def)
  obtain g where g: "pos + k \<le> Suc g" "erased (es ! g)" "\<And>t. pos \<le> t \<Longrightarrow> t \<le> g \<Longrightarrow> vacant (es ! t)"
    using assms(1) by (auto simp: place_for_def)
  have "g < u" using g(3)[of u] u(1,2) assms(2) by (cases "g < u") auto
  then show False using u(3)[of g] g(1,2) assms(3) by (simp add: erased_def)
qed

text \<open>What the search has seen of the entries before the \<open>g\<close>-th.\<close>

definition seen :: "u8 list list \<Rightarrow> nat \<Rightarrow> nat \<times> (u32 \<times> nat) option \<Rightarrow> bool" where
  "seen es g st = (case st of (ps, start) \<Rightarrow> ps \<le> g \<and> (\<forall>t. g - ps \<le> t \<and> t < g \<longrightarrow> vacant (es ! t)) \<and>
     (g = ps \<or> \<not> vacant (es ! (g - ps - 1))) \<and>
     (ps \<noteq> 0 \<longrightarrow> (\<exists>x item. start = Some (x, item) \<and> item < 16 \<and> unat x * 16 + item = g - ps)))"

lemma seen_vacant:
  assumes "seen es g (ps, start)" "vacant (es ! g)" "g = unat x * 16 + item" "item < 16"
  shows "seen es (Suc g) (Suc ps, if ps = 0 then Some (x, item) else start)"
  using assms by (auto simp: seen_def less_Suc_eq)

lemma seen_used: "\<not> vacant (es ! g) \<Longrightarrow> seen es (Suc g) (0, None)"
  by (auto simp: seen_def)

lemma seen_start: "seen es 0 (0, None)"
  by (simp add: seen_def)

lemma free_scan_ok:
  assumes "seen es (unat x * 16 + item) st" "item + length bs \<le> 16" "unat x * 16 + item + length bs \<le> length es"
    "bs = take (length bs) (drop (unat x * 16 + item) es)" "0 < k"
    "free_scan k x item bs st = (found, st')"
  shows "if found then \<exists>x' item'. snd st' = Some (x', item') \<and> item' < 16 \<and> place_for k es (unat x' * 16 + item')
    else seen es (unat x * 16 + item + length bs) st' \<and>
      (\<forall>t. unat x * 16 + item \<le> t \<and> t < unat x * 16 + item + length bs \<longrightarrow> \<not> (erased (es ! t) \<and> k \<le> Suc t \<and>
        (\<forall>u. Suc t - k \<le> u \<and> u \<le> t \<longrightarrow> vacant (es ! u))))"
  using assms
proof (induction bs arbitrary: item st)
  case Nil
  then show ?case by (cases st) auto
next
  case (Cons b bs)
  let ?g = "unat x * 16 + item"
  obtain ps start where st: "st = (ps, start)" by (cases st)
  let ?start = "if ps = 0 then Some (x, item) else start"
  have g: "?g < length es" using Cons.prems(3) by simp
  then have "drop ?g es = es ! ?g # drop (Suc ?g) es" by (rule Cons_nth_drop_Suc[symmetric])
  then have b: "b = es ! ?g" "bs = take (length bs) (drop (unat x * 16 + Suc item) es)" using Cons.prems(4) by simp_all
  have sn: "seen es ?g (ps, start)" using Cons.prems(1) st by simp
  have i: "item < 16" "Suc item + length bs \<le> 16" "unat x * 16 + Suc item + length bs \<le> length es"
    using Cons.prems(2,3) by simp_all
  have e: "Suc ?g = unat x * 16 + Suc item" by simp
  \<comment> \<open>The entry at hand is no place, and the search goes on.\<close>
  have step: ?case if f: "free_scan k x (Suc item) bs st1 = (found, st')" and s1: "seen es (Suc ?g) st1"
    and no: "\<not> (erased b \<and> k \<le> Suc ?g \<and> (\<forall>u. Suc ?g - k \<le> u \<and> u \<le> ?g \<longrightarrow> vacant (es ! u)))" for st1
  proof -
    have r: "if found then \<exists>x' item'. snd st' = Some (x', item') \<and> item' < 16 \<and> place_for k es (unat x' * 16 + item')
      else seen es (unat x * 16 + Suc item + length bs) st' \<and>
        (\<forall>t. unat x * 16 + Suc item \<le> t \<and> t < unat x * 16 + Suc item + length bs \<longrightarrow> \<not> (erased (es ! t) \<and> k \<le> Suc t \<and>
          (\<forall>u. Suc t - k \<le> u \<and> u \<le> t \<longrightarrow> vacant (es ! u))))"
      by (rule Cons.IH[OF s1[unfolded e] i(2,3) b(2) Cons.prems(5) f])
    show ?thesis
    proof (cases found)
      case False
      have "t = ?g \<or> unat x * 16 + Suc item \<le> t" if "?g \<le> t" for t using that by linarith
      then show ?thesis using r no b(1) False by (auto simp del: upt_Suc)
    qed (use r in simp)
  qed
  consider (lfn) "fatfs_entry_lfn_text (decode_dir_entry b)" | (here) "erased b" "k \<le> Suc ps"
    | (short) "erased b" "\<not> k \<le> Suc ps" | (used) "\<not> vacant b" unfolding vacant_def by blast
  then show ?case
  proof cases
    case lfn
    show ?thesis
    proof (rule step)
      show "free_scan k x (Suc item) bs (Suc ps, ?start) = (found, st')" using Cons.prems(6) lfn st by simp
      show "seen es (Suc ?g) (Suc ps, ?start)"
        by (rule seen_vacant[OF sn _ refl i(1)]) (use lfn b in \<open>simp add: vacant_def\<close>)
      show "\<not> (erased b \<and> k \<le> Suc ?g \<and> (\<forall>u. Suc ?g - k \<le> u \<and> u \<le> ?g \<longrightarrow> vacant (es ! u)))"
        using lfn by (simp add: erased_def)
    qed
  next
    case here
    have v: "vacant (es ! ?g)" using here b by (simp add: vacant_def)
    have r: "found" "st' = (Suc ps, ?start)"
      using Cons.prems(6) here st by (auto simp: erased_def)
    obtain x' item' where x': "?start = Some (x', item')" "item' < 16" "unat x' * 16 + item' = ?g - ps"
      using seen_vacant[OF sn v refl i(1)] by (auto simp: seen_def)
    have ps: "ps \<le> ?g" "?g = ps \<or> \<not> vacant (es ! (?g - ps - 1))" "\<forall>t. ?g - ps \<le> t \<and> t < ?g \<longrightarrow> vacant (es ! t)"
      using sn by (simp_all add: seen_def)
    have k: "?g - ps + k \<le> Suc ?g" using here(2) ps(1) by linarith
    have "vacant (es ! t)" if "?g - ps \<le> t" "t < ?g - ps + k" for t
      using that ps(3) v k by (cases "t = ?g") auto
    then have "place_for k es (?g - ps)" using k ps v g here(1) b by (auto simp: place_for_def le_less intro!: exI[of _ ?g])
    then show ?thesis using r x' by auto
  next
    case short
    have v: "vacant (es ! ?g)" using short b by (simp add: vacant_def)
    show ?thesis
    proof (rule step)
      show "free_scan k x (Suc item) bs (Suc ps, ?start) = (found, st')"
        using Cons.prems(6) short st by (auto simp: erased_def)
      show "seen es (Suc ?g) (Suc ps, ?start)" by (rule seen_vacant[OF sn v refl i(1)])
      have "?g \<noteq> ps \<Longrightarrow> \<not> vacant (es ! (?g - ps - 1))" "ps \<le> ?g" using sn by (auto simp: seen_def)
      then show "\<not> (erased b \<and> k \<le> Suc ?g \<and> (\<forall>u. Suc ?g - k \<le> u \<and> u \<le> ?g \<longrightarrow> vacant (es ! u)))"
        using short(2) by (auto intro!: exI[of _ "?g - ps - 1"])
    qed
  next
    case used
    show ?thesis
    proof (rule step)
      show "free_scan k x (Suc item) bs (0, None) = (found, st')"
        using Cons.prems(6) used st by (auto simp: vacant_def erased_def)
      show "seen es (Suc ?g) (0, None)" by (rule seen_used) (use used b in simp)
      show "\<not> (erased b \<and> k \<le> Suc ?g \<and> (\<forall>u. Suc ?g - k \<le> u \<and> u \<le> ?g \<longrightarrow> vacant (es ! u)))"
        using used by (simp add: vacant_def)
    qed
  qed
qed


lemma length_dir_entries [simp]: "length (dir_entries fs cs) = file_sectors fs cs * 16"
  by (simp add: dir_entries_at)

lemma entries_at_frame:
  assumes "\<And>i. i < n * 512 \<Longrightarrow> chain_byte f1 cs i = chain_byte fs cs i" "t < n * 16"
  shows "entry_at f1 cs t = entry_at fs cs t"
proof (rule nth_equalityI)
  fix i assume "i < length (entry_at f1 cs t)"
  then have i: "i < 32" by simp
  have "t * 32 + i < n * 512" using assms(2) i by linarith
  then show "entry_at f1 cs t ! i = entry_at fs cs t ! i" using i assms(1) by (simp add: nth_entry_at)
qed simp

lemma dir_entries_frame:
  assumes "search_frame fs f1" "table_ok f1" "chain_ok fs p cs"
  shows "dir_entries f1 cs = dir_entries fs cs"
proof -
  note c = search_frame_chain[OF assms]
  show ?thesis unfolding dir_entries_at c(2)
    by (rule map_cong[OF refl]) (use entries_at_frame[of "file_sectors fs cs" f1 cs fs] c(3) in auto)
qed

lemma sector_entries_slice:
  assumes "x < file_sectors fs cs"
  shows "sector_entries (chain_sector fs cs x) = take 16 (drop (x * 16) (dir_entries fs cs))"
proof (rule nth_equalityI)
  show "length (sector_entries (chain_sector fs cs x)) = length (take 16 (drop (x * 16) (dir_entries fs cs)))"
    using assms by (simp add: sector_entries_at del: upt_rec_numeral)
  fix i assume "i < length (sector_entries (chain_sector fs cs x))"
  then have i: "i < 16" by (simp add: sector_entries_at del: upt_rec_numeral)
  then have "x * 16 + i < file_sectors fs cs * 16" using assms by linarith
  then show "sector_entries (chain_sector fs cs x) ! i = take 16 (drop (x * 16) (dir_entries fs cs)) ! i"
    using i by (simp add: sector_entries_at dir_entries_at del: upt_rec_numeral)
qed

text \<open>Somewhere from the entry \<open>g\<close> on there is room.\<close>

definition room_from :: "nat \<Rightarrow> u8 list list \<Rightarrow> nat \<Rightarrow> bool" where
  "room_from k es g \<longleftrightarrow> (\<exists>t. g \<le> t \<and> t < length es \<and> erased (es ! t) \<and> k \<le> Suc t \<and>
     (\<forall>u. Suc t - k \<le> u \<and> u \<le> t \<longrightarrow> vacant (es ! u)))"

lemma free_offset_loop_ok:
  assumes "chain_ok fs p cs" "current_ok fs" "x + n = file_sectors fs cs" "n < fuel" "file_sectors fs cs < 2 ^ 32 - 1"
    "seen (dir_entries fs cs) (x * 16) st" "0 < k" "room_from k (dir_entries fs cs) (x * 16)"
  shows "\<exists>fs' sx si. free_offset_loop fuel k fs p (word_of_nat x) st = Inr (Some (sx, si), fs') \<and> si < 16 \<and>
    place_for k (dir_entries fs cs) (unat sx * 16 + si) \<and> search_frame fs fs' \<and> table_ok fs' \<and> current_ok fs'"
  using assms
proof (induction fuel arbitrary: fs x n st)
  case 0
  then show ?case by simp
next
  case (Suc fuel)
  let ?E = "dir_entries fs cs"
  obtain m where n: "n = Suc m"
    using Suc.prems(3,8) by (cases n) (auto simp: room_from_def)
  have u: "unat (word_of_nat x :: u32) = x"
    unfolding unat_of_nat by (rule mod_less) (use Suc.prems(3,5) in simp)
  have x: "unat (word_of_nat x :: u32) < file_sectors fs cs" using u n Suc.prems(3) by simp
  obtain f1 where f1: "fatfs_sector_reader fs p (word_of_nat x) = Inr (True, f1)" "search_frame fs f1" "table_ok f1"
    "current_ok f1" "fb_sector (fs_currentsector f1) = chain_sector fs cs x"
    using sector_reader_in[OF Suc.prems(1,2) x] u by auto
  note c = search_frame_chain[OF f1(2,3) Suc.prems(1)] and d = dir_entries_frame[OF f1(2,3) Suc.prems(1)]
  let ?bs = "sector_entries (chain_sector fs cs x)"
  have lb: "length ?bs = 16" by (simp add: sector_entries_at del: upt_rec_numeral)
  have xs: "x < file_sectors fs cs" using x u by simp
  have bs: "?bs = take (length ?bs) (drop (unat (word_of_nat x :: u32) * 16 + 0) ?E)"
    unfolding lb u using sector_entries_slice[OF xs] by simp
  have le: "unat (word_of_nat x :: u32) * 16 + 0 + length ?bs \<le> length ?E" unfolding lb u using xs by simp
  have sn: "seen ?E (unat (word_of_nat x :: u32) * 16 + 0) st" using Suc.prems(6) u by simp
  obtain found st' where r: "free_scan k (word_of_nat x) 0 ?bs st = (found, st')" using prod.exhaust by blast
  have sc: "if found then \<exists>x' item'. snd st' = Some (x', item') \<and> item' < 16 \<and> place_for k ?E (unat x' * 16 + item')
    else seen ?E (unat (word_of_nat x :: u32) * 16 + 0 + length ?bs) st' \<and>
      (\<forall>t. unat (word_of_nat x :: u32) * 16 + 0 \<le> t \<and> t < unat (word_of_nat x :: u32) * 16 + 0 + length ?bs \<longrightarrow>
        \<not> (erased (?E ! t) \<and> k \<le> Suc t \<and> (\<forall>u. Suc t - k \<le> u \<and> u \<le> t \<longrightarrow> vacant (?E ! u))))"
    by (rule free_scan_ok[OF sn _ le bs Suc.prems(7) r]) (simp add: lb)
  show ?case
  proof (cases found)
    case True
    then obtain sx si where s: "snd st' = Some (sx, si)" "si < 16" "place_for k ?E (unat sx * 16 + si)" using sc by auto
    then have "free_offset_loop (Suc fuel) k fs p (word_of_nat x) st = Inr (Some (sx, si), f1)"
      using f1(1,5) r True by (cases st') simp
    then show ?thesis using s f1 by blast
  next
    case False
    have s: "seen ?E (Suc x * 16) st'"
      "\<forall>t. x * 16 \<le> t \<and> t < x * 16 + 16 \<longrightarrow> \<not> (erased (?E ! t) \<and> k \<le> Suc t \<and>
        (\<forall>u. Suc t - k \<le> u \<and> u \<le> t \<longrightarrow> vacant (?E ! u)))"
      using sc False by (simp_all add: u lb add.commute)
    have rf: "room_from k ?E (Suc x * 16)"
    proof -
      obtain t where t: "x * 16 \<le> t" "t < length ?E" "erased (?E ! t)" "k \<le> Suc t"
        "\<forall>u. Suc t - k \<le> u \<and> u \<le> t \<longrightarrow> vacant (?E ! u)"
        using Suc.prems(8) by (auto simp: room_from_def)
      have "\<not> t < x * 16 + 16" using s(2) t by blast
      then have "Suc x * 16 \<le> t" by simp
      then show ?thesis using t unfolding room_from_def by blast
    qed
    obtain fs' sx si where i: "free_offset_loop fuel k f1 p (word_of_nat (Suc x)) st' = Inr (Some (sx, si), fs')" "si < 16"
      "place_for k ?E (unat sx * 16 + si)" "search_frame f1 fs'" "table_ok fs'" "current_ok fs'"
      using Suc.IH[OF c(1) f1(4), of "Suc x" m st'] Suc.prems(3-5,7) n c(2) s(1) rf d by auto
    have "(word_of_nat x + 1 :: u32) = word_of_nat (Suc x)" by simp
    then have "free_offset_loop (Suc fuel) k fs p (word_of_nat x) st = Inr (Some (sx, si), fs')"
      using f1(1,5) r False i(1) by (cases st') (simp add: add.commute)
    then show ?thesis using i search_frame_trans[OF f1(2) i(4)] by blast
  qed
qed

lemma find_free_ok:
  assumes ok: "chain_ok fs p cs" "current_ok fs" "file_sectors fs cs < 2 ^ 32 - 1" "0 < k"
    and room: "j + k \<le> file_sectors fs cs * 16" "\<And>t. j \<le> t \<Longrightarrow> t < j + k \<Longrightarrow> erased (dir_entries fs cs ! t)"
  shows "\<exists>fs' sx si. fatfs_find_free_dir_offset fs p k = Inr (Some (sx, si), fs') \<and> si < 16 \<and>
    place_for k (dir_entries fs cs) (unat sx * 16 + si) \<and> search_frame fs fs' \<and> table_ok fs' \<and> current_ok fs'"
proof -
  have "room_from k (dir_entries fs cs) (0 * 16)"
    unfolding room_from_def
    by (rule exI[of _ "j + k - 1"]) (use room assms(4) in \<open>auto simp: vacant_def\<close>)
  then show ?thesis
    using free_offset_loop_ok[OF ok(1,2), of 0 "file_sectors fs cs" "dir_fuel fs" "(0, None)" k]
      dir_fuel_enough[OF ok(1)] ok(3,4) seen_start by (simp add: fatfs_find_free_dir_offset_def)
qed


section \<open>Writing the entries\<close>

lemma overlay_glue: "overlay (off + length a) b (overlay off a buf) = overlay off (a @ b) buf"
  by (rule nth_equalityI) (auto simp: nth_overlay nth_append)

lemma overlay_nothing [simp]: "overlay off [] buf = buf"
  by (simp add: overlay_def)

text \<open>The entries of a name that are left when \<open>entryCount\<close> pieces are.\<close>

definition entries_left :: "new_entry \<Rightarrow> nat \<Rightarrow> u8 list list" where
  "entries_left n entryCount =
     map (\<lambda>e. fatfs_filename_to_lfn (ne_filename n) e (sfn_checksum (ne_shortfilename n))) (rev [0..<entryCount]) @
     [encode_dir_entry (fatfs_sfn_create_entry (ne_shortfilename n) (ne_size n) (ne_startCluster n) (ne_dir n))]"

lemma entries_left_all: "entries_left n (fatfs_lfn_entries_required (ne_filename n)) = lfn_entries n"
  by (simp add: entries_left_def lfn_entries_def)

lemma length_entries_left [simp]: "length (entries_left n c) = Suc c"
  by (simp add: entries_left_def)

lemma entries_left_Suc:
  "entries_left n (Suc c) = fatfs_filename_to_lfn (ne_filename n) c (sfn_checksum (ne_shortfilename n)) # entries_left n c"
  by (simp add: entries_left_def)

lemma drop_entries_left: "j \<le> c \<Longrightarrow> drop j (entries_left n c) = entries_left n (c - j)"
proof (induction j arbitrary: c)
  case (Suc j)
  then obtain d where "c = Suc d" by (cases c) auto
  then show ?case using Suc by (simp add: entries_left_Suc)
qed simp

lemma length_lfn_put [simp]: "length (lfn_put filename start buffer i) = length buffer"
  by (simp add: lfn_put_def Let_def)

lemma length_lfn_fold [simp]: "length (foldl (lfn_put filename start) buffer is) = length buffer"
  by (induction "is" arbitrary: buffer) simp_all

lemma length_lfn_entry [simp]: "length (fatfs_filename_to_lfn filename e chk) = 32"
  by (simp add: fatfs_filename_to_lfn_def Let_def FAT_DIR_ENTRY_SIZE_def)

lemma entries_left_width:
  assumes "11 \<le> length (ne_shortfilename n)" shows "\<forall>b \<in> set (entries_left n c). length b = 32"
proof -
  have "length (encode_dir_entry (fatfs_sfn_create_entry (ne_shortfilename n) (ne_size n) (ne_startCluster n) (ne_dir n))) = 32"
    using new_entry_shape[OF assms] by (simp add: encode_dir_entry_def dir_entry_shape_def)
  then show ?thesis by (auto simp: entries_left_def)
qed

lemma length_concat_32: "\<forall>b \<in> set bs. length b = 32 \<Longrightarrow> length (concat bs) = 32 * length bs"
  by (induction bs) auto

lemma concat_32_nth:
  "\<forall>b \<in> set bs. length b = 32 \<Longrightarrow> t < length bs \<Longrightarrow> i < 32 \<Longrightarrow> concat bs ! (t * 32 + i) = bs ! t ! i"
proof (induction bs arbitrary: t)
  case (Cons b bs)
  then show ?case by (cases t) (simp_all add: nth_append)
qed simp

text \<open>One sector, from the place on: as many of the entries as fit.\<close>

lemma add_items_ok:
  assumes "11 \<le> length (ne_shortfilename n)"
  shows "add_items j n here off item fs True ec dirty =
    (if ec < j
     then andThen (write_current (set_current fs (overlay (32 * item) (concat (entries_left n ec)) (fb_sector (fs_currentsector fs)))))
       (\<lambda>(ok, fs). Inr (Some ok, (True, 0, dirty \<or> ec \<noteq> 0), fs))
     else Inr (None, (True, ec - j, dirty \<or> j \<noteq> 0),
       if j = 0 then fs
       else set_current fs (overlay (32 * item) (concat (take j (entries_left n ec))) (fb_sector (fs_currentsector fs)))))"
proof (induction j arbitrary: item fs ec dirty)
  case 0
  then show ?case by simp
next
  case (Suc j)
  show ?case
  proof (cases ec)
    case 0
    then show ?thesis by (simp add: entries_left_def FAT_DIR_ENTRY_SIZE_def)
  next
    case (Suc c)
    let ?p = "fatfs_filename_to_lfn (ne_filename n) c (sfn_checksum (ne_shortfilename n))"
    let ?f = "set_current fs (overlay (32 * item) ?p (fb_sector (fs_currentsector fs)))"
    have cur: "fb_sector (fs_currentsector ?f) = overlay (32 * item) ?p (fb_sector (fs_currentsector fs))"
      "set_current ?f b = set_current fs b" for b by (simp_all add: set_current_def)
    have g: "overlay (32 * Suc item) b (overlay (32 * item) ?p buf) = overlay (32 * item) (?p @ b) buf" for b buf
      using overlay_glue[of "32 * item" ?p b buf] by (simp add: add.commute)
    have "add_items (Suc j) n here off item fs True ec dirty = add_items j n here off (Suc item) ?f True c True"
      using Suc by (simp add: FAT_DIR_ENTRY_SIZE_def)
    then show ?thesis unfolding Suc.IH cur g using Suc by (auto simp: entries_left_Suc)
  qed
qed

lemma add_items_skip:
  assumes "item \<le> off" "off < item + j"
  shows "add_items j n True off item fs False ec dirty = add_items (item + j - off) n True off off fs True ec dirty"
  using assms
proof (induction j arbitrary: item)
  case (Suc j)
  show ?case
  proof (cases "item = off")
    case False
    then show ?thesis using Suc by simp
  qed (simp add: Let_def)
qed simp


text \<open>A directory that can be written to.\<close>

definition dir_ok :: "fatfs \<Rightarrow> u32 \<Rightarrow> u32 list \<Rightarrow> bool" where
  "dir_ok fs p cs \<longleftrightarrow> chain_ok fs p cs \<and> chain_apart fs cs \<and> current_ok fs \<and> md_can_write (fs_disk_io fs) \<and>
     file_sectors fs cs < 2 ^ 32 - 1"

lemma chain_apart_current [simp]: "chain_apart (fs\<lparr>fs_currentsector := b\<rparr>) = chain_apart fs"
  by (simp add: chain_apart_def fun_eq_iff)

lemma search_dir_ok:
  assumes "search_frame fs f1" "table_ok f1" "current_ok f1" "dir_ok fs p cs"
  shows "dir_ok f1 p cs"
proof -
  have ch: "chain_ok fs p cs" using assms(4) by (simp add: dir_ok_def)
  let ?fs = "fs\<lparr>fs_currentsector := fs_currentsector f1\<rparr>"
  have w: "write_frame ?fs f1" by (rule table_write_frame) (use assms(1) in \<open>simp_all add: search_frame_def\<close>)
  note f = write_frame_fields[OF w]
  show ?thesis
    using assms(3,4) search_frame_chain(1,2)[OF assms(1,2) ch] f by (simp add: dir_ok_def)
qed

text \<open>What writing to a directory leaves alone: the table, and all but the media and the buffers.\<close>

definition dir_frame :: "fatfs \<Rightarrow> fatfs \<Rightarrow> bool" where
  "dir_frame fs f1 \<longleftrightarrow> write_frame (fs\<lparr>fs_currentsector := fs_currentsector f1\<rparr>) f1"

lemma search_dir_frame: "search_frame fs f1 \<Longrightarrow> dir_frame fs f1"
  unfolding dir_frame_def by (rule table_write_frame) (simp_all add: search_frame_def)

lemma write_frame_current:
  assumes "write_frame fs f1" shows "write_frame (fs\<lparr>fs_currentsector := b\<rparr>) (f1\<lparr>fs_currentsector := b\<rparr>)"
proof -
  have e: "f1 = fs\<lparr>fs_disk_io := (fs_disk_io fs)\<lparr>md_byte := md_byte (fs_disk_io f1)\<rparr>, fs_fat_buffers := fs_fat_buffers f1\<rparr>"
    using assms by (simp add: write_frame_def)
  then have u: "f1\<lparr>fs_currentsector := b\<rparr> = (fs\<lparr>fs_currentsector := b\<rparr>)\<lparr>fs_disk_io := (fs_disk_io fs)\<lparr>md_byte := md_byte (fs_disk_io f1)\<rparr>,
      fs_fat_buffers := fs_fat_buffers f1\<rparr>" by (cases fs; cases f1) simp
  have v: "\<forall>t. in_table fs t \<longrightarrow> fat_view f1 t = fat_view fs t"
    using assms unfolding write_frame_def by (rule conjunct2)
  show ?thesis unfolding write_frame_def by (rule conjI, use u in simp, use v in simp)
qed

lemma dir_frame_trans:
  assumes "dir_frame a b" "dir_frame b c" shows "dir_frame a c"
proof -
  have "write_frame (a\<lparr>fs_currentsector := fs_currentsector c\<rparr>) (b\<lparr>fs_currentsector := fs_currentsector c\<rparr>)"
    using write_frame_current[of "a\<lparr>fs_currentsector := fs_currentsector b\<rparr>" b "fs_currentsector c"] assms(1)
    by (simp add: dir_frame_def)
  then show ?thesis using assms(2) write_frame_trans unfolding dir_frame_def by blast
qed

lemma dir_frame_sectors: "dir_frame fs f1 \<Longrightarrow> file_sectors f1 cs = file_sectors fs cs"
  unfolding dir_frame_def using write_frame_fields(11) by fastforce

lemma write_dir_sector:
  assumes d: "dir_ok fs p cs" and x: "x < file_sectors fs cs" and a: "fb_address (fs_currentsector fs) = chain_lba fs cs x"
    and b: "length b = 512"
  shows "\<exists>f1. write_current (set_current fs b) = Inr (True, f1) \<and> dir_ok f1 p cs \<and> dir_frame fs f1 \<and>
    (\<forall>i < file_sectors fs cs * 512. chain_byte f1 cs i =
      (if x * 512 \<le> i \<and> i < (x + 1) * 512 then b ! (i - x * 512) else chain_byte fs cs i))"
proof -
  let ?S = "unat (fs_sectors_per_cluster fs)"
  define f where "f = set_current fs b"
  have f: "fs_sectors_per_cluster f = fs_sectors_per_cluster fs" "chain_ok f p cs = chain_ok fs p cs"
    "chain_apart f cs = chain_apart fs cs" "fatfs_lba_of_cluster f = fatfs_lba_of_cluster fs" "chain_byte f = chain_byte fs"
    "file_sectors f = file_sectors fs" "fs_disk_io f = fs_disk_io fs" "in_table f = in_table fs"
    "fb_address (fs_currentsector f) = fb_address (fs_currentsector fs)" "fb_sector (fs_currentsector f) = b"
    by (simp_all add: f_def set_current_def)
  have ch: "chain_ok fs p cs" using d by (simp add: dir_ok_def)
  then have S: "0 < ?S" by (simp add: chain_ok_def unat_gt_0)
  define k where "k = x div ?S" define s where "s = x mod ?S"
  have k: "k < length cs" using x S by (simp add: k_def file_sectors_def div_less_iff_less_mult)
  have s: "s < ?S" "s + 1 \<le> ?S" using S by (simp_all add: s_def Suc_le_eq)
  have xk: "k * ?S + s = x" by (simp add: k_def s_def)
  let ?lba = "chain_lba fs cs x"
  have l: "fatfs_lba_of_cluster f (cs ! k) + word_of_nat s = ?lba" by (simp add: chain_lba_def f k_def s_def)
  have ch': "chain_ok f p cs" "chain_apart f cs" using d by (simp_all add: f dir_ok_def)
  have b1: "length b = 1 * 512" using b by simp
  note st = store_chain[OF ch' k s[folded f(1)] b1, unfolded l f(1) xk]
  define f1 where "f1 = store f ?lba b"
  have nt: "\<not> in_table fs ?lba"
    using ch k s(1) by (auto simp: chain_ok_def cluster_apart_def chain_lba_def k_def s_def)
  have rel: "md_can_write (fs_disk_io fs)" "\<not> md_wr_err (fs_disk_io fs) u v" for u v
    using d by (simp_all add: dir_ok_def chain_ok_def table_ok_def reliable_def)
  have "write_current (set_current fs b) = Inr (True, f1)"
    unfolding f_def[symmetric] using rel b
    by (simp add: write_current_def fatfs_sector_write_def media_write_def f a f1_def store_def)
  moreover have cur: "fs_currentsector f1 = fs_currentsector f" by (simp add: f1_def store_def)
  moreover have fr: "dir_frame fs f1"
  proof -
    have "fs\<lparr>fs_currentsector := fs_currentsector f1\<rparr> = f" unfolding cur by (simp add: f_def set_current_def)
    then show ?thesis using st(1) by (simp add: dir_frame_def f1_def)
  qed
  moreover have "dir_ok f1 p cs"
  proof -
    have "fb_sector (fs_currentsector f1) = md_bytes (fs_disk_io f1) (unat (fb_address (fs_currentsector f1))) 1"
      using md_bytes_stored[OF b, of "fs_disk_io fs" "unat ?lba"] by (simp add: cur f a f1_def store_def)
    then have "current_ok f1"
      using nt write_frame_fields(4)[OF st(1), folded f1_def] by (simp add: current_ok_def cur f a)
    then show ?thesis
      using st(2) d write_frame_fields[OF st(1)] dir_frame_sectors[OF fr, of cs] by (simp add: dir_ok_def f f1_def)
  qed
  moreover have "chain_byte f1 cs i = (if x * 512 \<le> i \<and> i < (x + 1) * 512 then b ! (i - x * 512) else chain_byte fs cs i)"
    if "i < file_sectors fs cs * 512" for i
    using st(3)[of i] that by (simp add: f f1_def)
  ultimately show ?thesis by blast
qed


text \<open>The bytes of a directory in which \<open>bs\<close> has been put at byte \<open>at\<close>.\<close>

definition put_bytes :: "fatfs \<Rightarrow> fatfs \<Rightarrow> u32 list \<Rightarrow> nat \<Rightarrow> u8 list \<Rightarrow> bool" where
  "put_bytes fs f1 cs at bs \<longleftrightarrow> (\<forall>i < file_sectors fs cs * 512. chain_byte f1 cs i =
     (if at \<le> i \<and> i < at + length bs then bs ! (i - at) else chain_byte fs cs i))"

lemma put_bytes_glue:
  assumes "put_bytes fs f1 cs at a" "put_bytes f1 f2 cs (at + length a) b" "file_sectors f1 cs = file_sectors fs cs"
  shows "put_bytes fs f2 cs at (a @ b)"
  using assms unfolding put_bytes_def by (auto simp: nth_append)

text \<open>A sector is read, changed from one of its entries on, and written.\<close>

lemma sector_changed:
  assumes d: "dir_ok fs p cs" and x: "x < file_sectors fs cs" and off: "off + length bs \<le> 512"
    and r: "search_frame fs fA" "dir_ok fA p cs" "fb_sector (fs_currentsector fA) = chain_sector fs cs x"
      "fb_address (fs_currentsector fA) = chain_lba fs cs x"
  shows "\<exists>f1. write_current (set_current fA (overlay off bs (fb_sector (fs_currentsector fA)))) = Inr (True, f1) \<and>
    dir_ok f1 p cs \<and> dir_frame fs f1 \<and> put_bytes fs f1 cs (x * 512 + off) bs"
proof -
  have ch: "chain_ok fs p cs" using d by (simp add: dir_ok_def)
  have tA: "table_ok fA" using r(2) by (simp add: dir_ok_def chain_ok_def)
  note c = search_frame_chain[OF r(1) tA ch]
  have wf: "write_frame (fs\<lparr>fs_currentsector := fs_currentsector fA\<rparr>) fA"
    using search_dir_frame[OF r(1)] by (simp add: dir_frame_def)
  have lb: "chain_lba fA cs x = chain_lba fs cs x"
    using write_frame_fields(1,8)[OF wf] by (simp add: chain_lba_def)
  let ?b = "overlay off bs (chain_sector fs cs x)"
  obtain f1 where f1: "write_current (set_current fA ?b) = Inr (True, f1)" "dir_ok f1 p cs" "dir_frame fA f1"
    "\<forall>i < file_sectors fA cs * 512. chain_byte f1 cs i =
      (if x * 512 \<le> i \<and> i < (x + 1) * 512 then ?b ! (i - x * 512) else chain_byte fA cs i)"
    using write_dir_sector[OF r(2), of x ?b] x c(2) r(4) lb by auto
  have "chain_byte f1 cs i = (if x * 512 + off \<le> i \<and> i < x * 512 + off + length bs then bs ! (i - (x * 512 + off))
      else chain_byte fs cs i)" if i: "i < file_sectors fs cs * 512" for i
  proof (cases "x * 512 \<le> i \<and> i < (x + 1) * 512")
    case True
    then obtain q where q: "i = x * 512 + q" "q < 512" by (metis add_mult_distrib le_Suc_ex mult_1 nat_add_left_cancel_less)
    have "chain_byte f1 cs i = ?b ! q" using f1(4) i True c(2) q by simp
    also have "\<dots> = (if off \<le> q \<and> q < off + length bs then bs ! (q - off) else chain_byte fs cs i)"
      using q by (simp add: nth_overlay nth_chain_sector)
    finally show ?thesis by (simp add: q(1))
  next
    case False
    moreover have "\<not> (x * 512 + off \<le> i \<and> i < x * 512 + off + length bs)" using False off by auto
    ultimately show ?thesis using f1(4) i c(2,3) by auto
  qed
  then have "put_bytes fs f1 cs (x * 512 + off) bs" by (simp add: put_bytes_def)
  moreover have "dir_frame fs f1" by (rule dir_frame_trans[OF search_dir_frame[OF r(1)] f1(3)])
  ultimately show ?thesis using f1(1,2) r(3) by auto
qed


lemma dir_reader:
  assumes d: "dir_ok fs p cs" and x: "x < file_sectors fs cs"
  shows "\<exists>fA. fatfs_sector_reader fs p (word_of_nat x) = Inr (True, fA) \<and> search_frame fs fA \<and> dir_ok fA p cs \<and>
    fb_sector (fs_currentsector fA) = chain_sector fs cs x \<and> fb_address (fs_currentsector fA) = chain_lba fs cs x"
proof -
  have c: "chain_ok fs p cs" "current_ok fs" "file_sectors fs cs < 2 ^ 32 - 1" using d by (simp_all add: dir_ok_def)
  have u: "unat (word_of_nat x :: u32) = x" unfolding unat_of_nat by (rule mod_less) (use x c(3) in simp)
  then have "unat (word_of_nat x :: u32) < file_sectors fs cs" using x by simp
  from sector_reader_in[OF c(1,2) this] obtain fA where fA:
    "fatfs_sector_reader fs p (word_of_nat x) = Inr (True, fA)" "search_frame fs fA" "table_ok fA" "current_ok fA"
    "fb_sector (fs_currentsector fA) = chain_sector fs cs x" "fb_address (fs_currentsector fA) = chain_lba fs cs x"
    unfolding u by blast
  then show ?thesis using search_dir_ok[OF fA(2-4) d] by blast
qed

lemma add_entry_loop_ok:
  assumes "dir_ok fs p cs" "11 \<le> length (ne_shortfilename n)" "i0 < 16"
    "foundEnd \<and> i0 = 0 \<or> \<not> foundEnd \<and> dirSector = word_of_nat x \<and> dirOffset = i0"
    "x * 16 + i0 + Suc ec \<le> file_sectors fs cs * 16" "file_sectors fs cs - x \<le> fuel"
  shows "\<exists>f1. add_entry_loop fuel n dirSector dirOffset fs p (word_of_nat x) foundEnd ec = Inr (True, f1) \<and>
    dir_ok f1 p cs \<and> dir_frame fs f1 \<and> put_bytes fs f1 cs ((x * 16 + i0) * 32) (concat (entries_left n ec))"
  using assms
proof (induction fuel arbitrary: fs x i0 foundEnd ec)
  case 0
  then show ?case by simp
next
  case (Suc fuel)
  note w = entries_left_width[OF Suc.prems(2), of ec]
  have x: "x < file_sectors fs cs" using Suc.prems(5) by linarith
  obtain fA where fA: "fatfs_sector_reader fs p (word_of_nat x) = Inr (True, fA)" "search_frame fs fA" "dir_ok fA p cs"
    "fb_sector (fs_currentsector fA) = chain_sector fs cs x" "fb_address (fs_currentsector fA) = chain_lba fs cs x"
    using dir_reader[OF Suc.prems(1) x] by blast
  have items: "add_items FAT_DIR_ENTRIES_PER_SECTOR n (dirSector = word_of_nat x) dirOffset 0 fA foundEnd ec False =
      add_items (16 - i0) n (dirSector = word_of_nat x) dirOffset i0 fA True ec False"
    using Suc.prems(3,4) add_items_skip[of 0 dirOffset 16 n fA ec False]
    by (auto simp: FAT_DIR_ENTRIES_PER_SECTOR_def simp del: add_items.simps)
  have at: "x * 512 + 32 * i0 = (x * 16 + i0) * 32" by simp
  show ?case
  proof (cases "ec < 16 - i0")
    case True
    have "32 * i0 + length (concat (entries_left n ec)) \<le> 512" using True length_concat_32[OF w] by simp
    from sector_changed[OF Suc.prems(1) x this fA(2-5)] obtain f1 where f1:
      "write_current (set_current fA (overlay (32 * i0) (concat (entries_left n ec)) (fb_sector (fs_currentsector fA)))) = Inr (True, f1)"
      "dir_ok f1 p cs" "dir_frame fs f1" "put_bytes fs f1 cs ((x * 16 + i0) * 32) (concat (entries_left n ec))"
      unfolding at by blast
    have "add_entry_loop (Suc fuel) n dirSector dirOffset fs p (word_of_nat x) foundEnd ec = Inr (True, f1)"
      using fA(1) f1(1) True by (simp add: items add_items_ok[OF Suc.prems(2)] del: add_items.simps)
    then show ?thesis using f1 by blast
  next
    case False
    define j where "j = 16 - i0"
    have j: "0 < j" "j \<le> ec" "i0 + j = 16" using False Suc.prems(3) by (simp_all add: j_def)
    let ?p = "concat (take j (entries_left n ec))"
    have lp: "length ?p = 32 * j"
      using length_concat_32[of "take j (entries_left n ec)"] w j(2) by (auto dest: in_set_takeD)
    have "32 * i0 + length ?p \<le> 512" using lp j(3) by simp
    from sector_changed[OF Suc.prems(1) x this fA(2-5)] obtain f1 where f1:
      "write_current (set_current fA (overlay (32 * i0) ?p (fb_sector (fs_currentsector fA)))) = Inr (True, f1)"
      "dir_ok f1 p cs" "dir_frame fs f1" "put_bytes fs f1 cs ((x * 16 + i0) * 32) ?p"
      unfolding at by blast
    note n1 = dir_frame_sectors[OF f1(3), of cs]
    have "\<exists>f2. add_entry_loop fuel n dirSector dirOffset f1 p (word_of_nat (Suc x)) True (ec - j) = Inr (True, f2) \<and>
      dir_ok f2 p cs \<and> dir_frame f1 f2 \<and> put_bytes f1 f2 cs ((Suc x * 16 + 0) * 32) (concat (entries_left n (ec - j)))"
      by (rule Suc.IH[OF f1(2) Suc.prems(2)]) (use Suc.prems(5,6) j n1 in auto)
    then obtain f2 where f2: "add_entry_loop fuel n dirSector dirOffset f1 p (word_of_nat (Suc x)) True (ec - j) = Inr (True, f2)"
      "dir_ok f2 p cs" "dir_frame f1 f2" "put_bytes f1 f2 cs ((Suc x * 16 + 0) * 32) (concat (entries_left n (ec - j)))"
      by blast
    have e: "(x * 16 + i0) * 32 + length ?p = (Suc x * 16 + 0) * 32" using lp j(3) by simp
    have "put_bytes fs f2 cs ((x * 16 + i0) * 32) (?p @ concat (entries_left n (ec - j)))"
      by (rule put_bytes_glue[OF f1(4) _ n1], unfold e, rule f2(4))
    moreover have "?p @ concat (entries_left n (ec - j)) = concat (entries_left n ec)"
      unfolding drop_entries_left[OF j(2), symmetric] concat_append[symmetric] append_take_drop_id ..
    moreover have "add_entry_loop (Suc fuel) n dirSector dirOffset fs p (word_of_nat x) foundEnd ec = Inr (True, f2)"
      using fA(1) f1(1) f2(1) False j
      by (simp add: items add_items_ok[OF Suc.prems(2)] j_def[symmetric] add.commute del: add_items.simps)
    ultimately show ?thesis using f2(2) dir_frame_trans[OF f1(3) f2(3)] by auto
  qed
qed


lemma put_entries:
  assumes p: "put_bytes fs f1 cs (pos * 32) (concat bs)" and w: "\<forall>b \<in> set bs. length b = 32"
    and le: "pos + length bs \<le> file_sectors fs cs * 16" and n: "file_sectors f1 cs = file_sectors fs cs"
  shows "dir_entries f1 cs = take pos (dir_entries fs cs) @ bs @ drop (pos + length bs) (dir_entries fs cs)"
proof (rule nth_equalityI)
  show "length (dir_entries f1 cs) = length (take pos (dir_entries fs cs) @ bs @ drop (pos + length bs) (dir_entries fs cs))"
    using le n by simp
  fix t assume "t < length (dir_entries f1 cs)"
  then have t: "t < file_sectors fs cs * 16" using n by simp
  have "entry_at f1 cs t = (if pos \<le> t \<and> t < pos + length bs then bs ! (t - pos) else entry_at fs cs t)"
  proof (rule nth_equalityI)
    show "length (entry_at f1 cs t) = length (if pos \<le> t \<and> t < pos + length bs then bs ! (t - pos) else entry_at fs cs t)"
      using w by auto
    fix i assume "i < length (entry_at f1 cs t)"
    then have i: "i < 32" by simp
    have lt: "t * 32 + i < file_sectors fs cs * 512" using t i by linarith
    have lc: "length (concat bs) = 32 * length bs" by (rule length_concat_32[OF w])
    show "entry_at f1 cs t ! i = (if pos \<le> t \<and> t < pos + length bs then bs ! (t - pos) else entry_at fs cs t) ! i"
    proof (cases "pos \<le> t \<and> t < pos + length bs")
      case True
      then have "t - pos < length bs" "(t - pos) * 32 + i = t * 32 + i - pos * 32" by (auto simp: diff_mult_distrib)
      then have "concat bs ! (t * 32 + i - pos * 32) = bs ! (t - pos) ! i"
        using concat_32_nth[OF w, of "t - pos" i] i by simp
      moreover have "pos * 32 \<le> t * 32 + i" "t * 32 + i < pos * 32 + length (concat bs)" using True i lc by linarith+
      ultimately show ?thesis using p lt True i by (simp add: put_bytes_def nth_entry_at)
    next
      case False
      then have "\<not> (pos * 32 \<le> t * 32 + i \<and> t * 32 + i < pos * 32 + length (concat bs))" using i lc by linarith
      then show ?thesis using p lt False i by (auto simp: put_bytes_def nth_entry_at)
    qed
  qed
  then show "dir_entries f1 cs ! t = (take pos (dir_entries fs cs) @ bs @ drop (pos + length bs) (dir_entries fs cs)) ! t"
    using t n le by (auto simp: dir_entries_at nth_append)
qed

lemma add_file_entry_ok:
  assumes d: "dir_ok fs p cs" and s: "11 \<le> length (ne_shortfilename n)" and ne: "ne_filename n \<noteq> []"
    and room: "j + length (lfn_entries n) \<le> file_sectors fs cs * 16"
      "\<And>t. j \<le> t \<Longrightarrow> t < j + length (lfn_entries n) \<Longrightarrow> erased (dir_entries fs cs ! t)"
  shows "\<exists>f1 pos. fatfs_add_file_entry fs p n = Inr (True, f1) \<and> dir_ok f1 p cs \<and> dir_frame fs f1 \<and>
    place_for (length (lfn_entries n)) (dir_entries fs cs) pos \<and>
    dir_entries f1 cs = take pos (dir_entries fs cs) @ lfn_entries n @ drop (pos + length (lfn_entries n)) (dir_entries fs cs)"
proof -
  let ?K = "fatfs_lfn_entries_required (ne_filename n)"
  have L: "lfn_entries n = entries_left n ?K" by (simp only: entries_left_all)
  then have k: "length (lfn_entries n) = ?K + 1" by simp
  have K: "?K \<noteq> 0" using ne by (simp add: fatfs_lfn_entries_required_def MAX_LFN_ENTRY_LENGTH_def div_eq_0_iff Suc_le_eq)
  have c: "chain_ok fs p cs" "current_ok fs" "file_sectors fs cs < 2 ^ 32 - 1" "md_can_write (fs_disk_io fs)"
    using d by (simp_all add: dir_ok_def)
  obtain fA sx si where fA: "fatfs_find_free_dir_offset fs p (?K + 1) = Inr (Some (sx, si), fA)" "si < 16"
    "place_for (?K + 1) (dir_entries fs cs) (unat sx * 16 + si)" "search_frame fs fA" "table_ok fA" "current_ok fA"
    using find_free_ok[OF c(1-3) _ room] k by auto
  have dA: "dir_ok fA p cs" by (rule search_dir_ok[OF fA(4-6) d])
  have nA: "file_sectors fA cs = file_sectors fs cs" "dir_entries fA cs = dir_entries fs cs"
    using search_frame_chain(2)[OF fA(4,5) c(1)] dir_entries_frame[OF fA(4,5) c(1)] by simp_all
  have le: "unat sx * 16 + si + (?K + 1) \<le> file_sectors fA cs * 16" using place_inside[OF fA(3)] nA(1) by simp
  have "chain_ok fA p cs" using dA by (simp add: dir_ok_def)
  from dir_fuel_enough[OF this] have fu: "file_sectors fA cs - unat sx \<le> dir_fuel fA" by simp
  obtain f1 where f1: "add_entry_loop (dir_fuel fA) n sx si fA p (word_of_nat (unat sx)) False ?K = Inr (True, f1)"
    "dir_ok f1 p cs" "dir_frame fA f1" "put_bytes fA f1 cs ((unat sx * 16 + si) * 32) (concat (entries_left n ?K))"
    using add_entry_loop_ok[OF dA s fA(2) _ _ fu, of False sx si ?K] le by auto
  have e: "dir_entries f1 cs = take (unat sx * 16 + si) (dir_entries fs cs) @ lfn_entries n @
      drop (unat sx * 16 + si + length (lfn_entries n)) (dir_entries fs cs)"
    unfolding nA(2)[symmetric] L
    by (rule put_entries[OF f1(4) entries_left_width[OF s]]) (use le dir_frame_sectors[OF f1(3)] in simp_all)
  have "fatfs_add_file_entry fs p n = Inr (True, f1)"
    using fA(1) f1(1) K c(4) by (simp add: fatfs_add_file_entry_def)
  moreover have "dir_frame fs f1" by (rule dir_frame_trans[OF search_dir_frame[OF fA(4)] f1(3)])
  ultimately show ?thesis using f1(2) e fA(3) k by auto
qed


section \<open>Finding the name\<close>

definition lfn_shape :: "lfn_cache \<Rightarrow> bool" where
  "lfn_shape lfn \<longleftrightarrow> length (lfn_String lfn) = 20 \<and> (\<forall>r \<in> set (lfn_String lfn). length r = 13)"

lemma shape_update:
  assumes "lfn_shape l" "i < length (lfn_String l) \<Longrightarrow> length y = 13"
  shows "lfn_shape (l\<lparr>lfn_String := (lfn_String l)[i := y]\<rparr>)"
proof (cases "i < length (lfn_String l)")
  case True
  then have "\<forall>r \<in> set ((lfn_String l)[i := y]). length r = 13"
    using assms set_update_subset_insert[of "lfn_String l" i y] by (auto simp: lfn_shape_def)
  then show ?thesis using assms(1) by (simp add: lfn_shape_def)
qed (use assms(1) in \<open>simp add: lfn_shape_def list_update_beyond\<close>)

lemma cache_entry_shape: "lfn_shape lfn \<Longrightarrow> lfn_shape (fatfs_lfn_cache_entry lfn b)"
proof -
  assume l: "lfn_shape lfn"
  have n: "length (map f (map (\<lambda>k. b ! k) nameIndexes)) = 13" for f :: "u8 \<Rightarrow> u8" by (simp add: nameIndexes_def)
  have s: "lfn_shape (l1\<lparr>lfn_String := (lfn_String l1)[i := map f (map (\<lambda>k. b ! k) nameIndexes)]\<rparr>)" if "lfn_shape l1"
    for l1 i and f :: "u8 \<Rightarrow> u8" by (rule shape_update[OF that n])
  have c: "lfn_shape (lfn\<lparr>lfn_no_of_strings := k\<rparr>)" for k using l by (simp add: lfn_shape_def)
  show ?thesis
    unfolding fatfs_lfn_cache_entry_def Let_def by (simp only: l s c split: if_split) simp
qed

lemma terminate_shape: "lfn_shape lfn \<Longrightarrow> lfn_shape (lfn_terminate lfn)"
proof -
  assume l: "lfn_shape lfn"
  have "lfn_shape (lfn\<lparr>lfn_String := (lfn_String lfn)[i := (lfn_String lfn ! i)[0 := 0]]\<rparr>)" for i
    by (rule shape_update[OF l]) (use l in \<open>simp add: lfn_shape_def\<close>)
  moreover have "lfn_shape (lfn\<lparr>lfn_Null := 0\<rparr>)" using l by (simp add: lfn_shape_def)
  ultimately show ?thesis unfolding lfn_terminate_def by (simp only: split: if_split) simp
qed

lemma entry_step_shape:
  assumes "lfn_shape lfn" shows "lfn_shape (snd (entry_step name b lfn))"
proof -
  have "lfn_shape (fatfs_lfn_cache_init l False)" if "lfn_shape l" for l
    using that by (simp add: lfn_shape_def fatfs_lfn_cache_init_def)
  then show ?thesis
    using assms cache_entry_shape[OF assms] terminate_shape[OF assms]
    by (simp add: entry_step_def fatfs_lfn_cache_get_def Let_def)
qed

lemma entry_scan_shape: "lfn_shape lfn \<Longrightarrow> lfn_shape (snd (entry_scan name es lfn))"
proof (induction es arbitrary: lfn)
  case (Cons b es)
  have "lfn_shape (snd (entry_step name b lfn))" by (rule entry_step_shape[OF Cons.prems])
  then show ?case using Cons.IH by (auto split: prod.split option.split)
qed simp

text \<open>After an entry in use that is not the one looked for, nothing of a long name is left.\<close>

lemma used_step_clean:
  assumes "entry_step name b lfn = (None, l)" "\<not> vacant b" shows "lfn_no_of_strings l = 0"
proof -
  let ?e = "decode_dir_entry b"
  have t: "\<not> fatfs_entry_lfn_text ?e" "\<not> erased b" using assms(2) by (simp_all add: vacant_def)
  have "de_Name ?e ! 0 = b ! 0" by (simp add: decode_dir_entry_def)
  then have h: "de_Name ?e ! 0 \<noteq> FILE_HEADER_BLANK" "de_Name ?e ! 0 \<noteq> FILE_HEADER_DELETED" using t by (auto simp: erased_def)
  have "de_Attr ?e \<noteq> FILE_ATTR_LFN_TEXT" using t(1) by (auto simp: fatfs_entry_lfn_text_def)
  then have "fatfs_entry_lfn_invalid ?e \<or> fatfs_entry_sfn_only ?e"
    using h by (auto simp: fatfs_entry_lfn_invalid_def fatfs_entry_sfn_only_def)
  then show ?thesis
    using assms(1) t(1) by (auto simp: entry_step_def Let_def fatfs_lfn_cache_init_def split: if_splits prod.splits)
qed

lemma used_scan_clean:
  "entry_scan name es lfn = (None, l) \<Longrightarrow> es \<noteq> [] \<Longrightarrow> \<not> vacant (last es) \<Longrightarrow> lfn_no_of_strings l = 0"
proof (induction es arbitrary: lfn)
  case (Cons b es)
  obtain l1 where l1: "entry_step name b lfn = (None, l1)" "entry_scan name es l1 = (None, l)"
    using Cons.prems(1) by (auto split: prod.splits option.splits)
  show ?case
  proof (cases "es = []")
    case True
    then show ?thesis using l1 Cons.prems(3) used_step_clean by auto
  next
    case False
    then show ?thesis using Cons.IH[OF l1(2)] Cons.prems(3) by simp
  qed
qed simp

lemma scan_put_entries:
  assumes name: "c_string (ne_filename n)" "0xFF \<notin> set (ne_filename n)" "0 < length (ne_filename n)" "length (ne_filename n) \<le> 260"
    and short: "11 \<le> length (ne_shortfilename n)" "ne_shortfilename n ! 0 \<notin> {0, 0xE5}"
    and same: "fatfs_compare_names (ne_filename n) name"
    and new: "fst (entry_scan name es empty_lfn) = None" and pos: "place_for k es pos"
  shows "fst (entry_scan name (take pos es @ lfn_entries n @ rest) empty_lfn) =
    Some (fatfs_sfn_create_entry (ne_shortfilename n) (ne_size n) (ne_startCluster n) (ne_dir n))"
proof -
  obtain l where l: "entry_scan name (take pos es) empty_lfn = (None, l)"
    using new entry_scan_append[of name "take pos es" "drop pos es" empty_lfn]
    by (cases "entry_scan name (take pos es) empty_lfn"; cases "fst (entry_scan name (take pos es) empty_lfn)") auto
  have "lfn_shape empty_lfn" using empty_lfn_ok by (simp add: lfn_shape_def)
  then have sh: "length (lfn_String l) = 20" "\<forall>r \<in> set (lfn_String l). length r = 13"
    using entry_scan_shape[of empty_lfn name "take pos es"] l by (simp_all add: lfn_shape_def)
  have cl: "lfn_no_of_strings l = 0"
  proof (cases "pos = 0")
    case True
    then show ?thesis using l empty_lfn_ok(1) by simp
  next
    case False
    then have p: "pos - 1 < length es" "\<not> vacant (es ! (pos - 1))" using pos by (auto simp: place_for_def)
    have t: "take pos es \<noteq> []" "pos \<le> length es" using p(1) False place_inside[OF pos] by auto
    then have "last (take pos es) = es ! (pos - 1)" using False by (simp add: last_conv_nth min_def)
    then show ?thesis using used_scan_clean[OF l t(1)] p(2) by simp
  qed
  show ?thesis
    unfolding entry_scan_append[of name "take pos es"] l prod.case option.case by (rule lfn_entries_found[OF name short cl sh same])
qed


lemma created_found_ok:
  assumes d: "dir_ok fs p cs"
    and name: "c_string (ne_filename n)" "0xFF \<notin> set (ne_filename n)" "0 < length (ne_filename n)" "length (ne_filename n) \<le> 260"
    and short: "11 \<le> length (ne_shortfilename n)" "ne_shortfilename n ! 0 \<notin> {0, 0xE5}"
    and same: "fatfs_compare_names (ne_filename n) name" and new: "fst (entry_scan name (dir_entries fs cs) empty_lfn) = None"
    and room: "j + length (lfn_entries n) \<le> file_sectors fs cs * 16"
      "\<forall>t. j \<le> t \<and> t < j + length (lfn_entries n) \<longrightarrow> erased (dir_entries fs cs ! t)"
  shows "\<exists>f1 f2 pos. fatfs_add_file_entry fs p n = Inr (True, f1) \<and> dir_frame fs f1 \<and>
    place_for (length (lfn_entries n)) (dir_entries fs cs) pos \<and>
    dir_entries f1 cs = take pos (dir_entries fs cs) @ lfn_entries n @ drop (pos + length (lfn_entries n)) (dir_entries fs cs) \<and>
    fatfs_get_file_entry f1 p name =
      Inr (Some (fatfs_sfn_create_entry (ne_shortfilename n) (ne_size n) (ne_startCluster n) (ne_dir n)), f2) \<and> dir_ok f2 p cs"
proof -
  have ne: "ne_filename n \<noteq> []" using name(3) by simp
  obtain f1 pos where f1: "fatfs_add_file_entry fs p n = Inr (True, f1)" "dir_ok f1 p cs" "dir_frame fs f1"
    "place_for (length (lfn_entries n)) (dir_entries fs cs) pos"
    "dir_entries f1 cs = take pos (dir_entries fs cs) @ lfn_entries n @ drop (pos + length (lfn_entries n)) (dir_entries fs cs)"
    using add_file_entry_ok[OF d short(1) ne room(1)] room(2) by blast
  have c: "chain_ok f1 p cs" "current_ok f1" "file_sectors f1 cs < 2 ^ 32 - 1" using f1(2) by (simp_all add: dir_ok_def)
  obtain f2 where f2: "fatfs_get_file_entry f1 p name = Inr (fst (entry_scan name (dir_entries f1 cs) empty_lfn), f2)"
    "search_frame f1 f2" "table_ok f2" "current_ok f2"
    using get_file_entry_ok[OF c] by blast
  have "fst (entry_scan name (dir_entries f1 cs) empty_lfn) =
      Some (fatfs_sfn_create_entry (ne_shortfilename n) (ne_size n) (ne_startCluster n) (ne_dir n))"
    unfolding f1(5) by (rule scan_put_entries[OF name short same new f1(4)])
  then show ?thesis using f1 f2 search_dir_ok[OF f2(2-4) f1(2)] by metis
qed

section \<open>The small volume\<close>

lemma volume_sectors: "file_sectors dir_volume [3, 5, 4] = 3"
  by (simp add: volume_chains(3)[OF dir_volume_ok(1)])

lemma volume_chain_byte: "chain_byte dir_volume cs i = volume_byte (unat (cs ! (i div 512)) * 512 + i mod 512)"
proof -
  have "fs_sectors_per_cluster dir_volume = 1" "md_byte (fs_disk_io dir_volume) = volume_byte"
    by (simp_all add: dir_volume_def)
  then show ?thesis
    by (simp add: chain_byte_def cluster_bytes_def volume_lba[OF dir_volume_ok(1)])
qed

lemma volume_dir_ok: "dir_ok dir_volume 3 [3, 5, 4]"
proof -
  have "chain_apart dir_volume = chain_apart small_fat"
    by (simp add: chain_apart_def fun_eq_iff volume_lba[OF dir_volume_ok(1)] small_lba) (simp add: dir_volume_def)
  then show ?thesis
    using volume_chains(1)[OF dir_volume_ok(1)] dir_volume_ok(2) small_apart
    by (simp add: dir_ok_def volume_sectors) (simp add: dir_volume_def small_media_def)
qed

lemma volume_entry:
  assumes "t < 48"
  shows "entry_at dir_volume [3, 5, 4] t = (if t = 0 then file_entry else if t < 16 then replicate 32 0
    else if t < 32 then replicate 32 5 else replicate 32 4)"
proof (rule nth_equalityI)
  show "length (entry_at dir_volume [3, 5, 4] t) = length (if t = 0 then file_entry else if t < 16 then replicate 32 0
    else if t < 32 then replicate 32 5 else replicate 32 4)" by (simp add: file_entry_def)
  fix i assume "i < length (entry_at dir_volume [3, 5, 4] t)"
  then have i: "i < 32" by simp
  consider "t = 0" | "0 < t" "t < 16" | "16 \<le> t" "t < 32" | "32 \<le> t" using assms by linarith
  then show "entry_at dir_volume [3, 5, 4] t ! i = (if t = 0 then file_entry else if t < 16 then replicate 32 0
    else if t < 32 then replicate 32 5 else replicate 32 4) ! i"
  proof cases
    case 1
    then show ?thesis using i by (simp add: nth_entry_at volume_chain_byte volume_byte_def)
  next
    case 2
    have "(t * 32 + i) div 512 = 0" "(t * 32 + i) mod 512 = t * 32 + i" using 2 i by simp_all
    then show ?thesis using 2 i by (simp add: nth_entry_at volume_chain_byte volume_byte_def)
  next
    case 3
    have "(t * 32 + i) div 512 = 1" by (rule div_nat_eqI) (use 3 i in simp_all)
    moreover have "(2560 + (t * 32 + i) mod 512) div 512 = 5" by (rule div_nat_eqI) simp_all
    ultimately show ?thesis using 3 i by (simp add: nth_entry_at volume_chain_byte volume_byte_def small_byte_def)
  next
    case 4
    have "(t * 32 + i) div 512 = 2" by (rule div_nat_eqI) (use 4 i assms in simp_all)
    moreover have "(2048 + (t * 32 + i) mod 512) div 512 = 4" by (rule div_nat_eqI) simp_all
    ultimately show ?thesis using 4 i assms by (simp add: nth_entry_at volume_chain_byte volume_byte_def small_byte_def)
  qed
qed


lemma scan_invalid:
  "\<forall>b \<in> set es. \<not> fatfs_entry_lfn_text (decode_dir_entry b) \<and> fatfs_entry_lfn_invalid (decode_dir_entry b) \<Longrightarrow>
   fst (entry_scan name es lfn) = None"
  by (induction es arbitrary: lfn) (simp_all add: entry_step_def Let_def)

lemma volume_invalid:
  "\<not> fatfs_entry_lfn_text (decode_dir_entry (replicate 32 0)) \<and> fatfs_entry_lfn_invalid (decode_dir_entry (replicate 32 0))"
  "\<not> fatfs_entry_lfn_text (decode_dir_entry (replicate 32 5)) \<and> fatfs_entry_lfn_invalid (decode_dir_entry (replicate 32 5))"
  "\<not> fatfs_entry_lfn_text (decode_dir_entry (replicate 32 4)) \<and> fatfs_entry_lfn_invalid (decode_dir_entry (replicate 32 4))"
  by (simp_all add: fatfs_entry_lfn_text_def fatfs_entry_lfn_invalid_def decode_dir_entry_def FILE_ATTR_LFN_TEXT_def
      FILE_HEADER_BLANK_def FILE_HEADER_DELETED_def FILE_ATTR_VOLUME_ID_def FILE_ATTR_SYSHID_def)

lemma volume_entries: "dir_entries dir_volume [3, 5, 4] = file_entry # map (entry_at dir_volume [3, 5, 4]) [1..<48]"
proof -
  have h: "map f [0..<m] = f 0 # map f [1..<m]" if "0 < m" for f :: "nat \<Rightarrow> u8 list" and m
    using that by (simp add: upt_conv_Cons)
  have m: "3 * 16 = (48 :: nat)" "0 < (48 :: nat)" by simp_all
  have z: "entry_at dir_volume [3, 5, 4] 0 = file_entry" using volume_entry[of 0] by simp
  show ?thesis unfolding dir_entries_at volume_sectors m(1) h[OF m(2)] z ..
qed

lemma volume_others_invalid:
  "\<forall>b \<in> set (map (entry_at dir_volume [3, 5, 4]) [1..<48]).
     \<not> fatfs_entry_lfn_text (decode_dir_entry b) \<and> fatfs_entry_lfn_invalid (decode_dir_entry b)"
  using volume_invalid by (auto simp: volume_entry)

lemma volume_new_name: "fst (entry_scan demo_capitals (dir_entries dir_volume [3, 5, 4]) empty_lfn) = None"
proof -
  have "\<not> fatfs_entry_lfn_text (decode_dir_entry file_entry)" "\<not> fatfs_entry_lfn_invalid (decode_dir_entry file_entry)"
    "\<not> fatfs_entry_lfn_exists empty_lfn (decode_dir_entry file_entry)"
    "\<not> fatfs_compare_names (short_filename (decode_dir_entry file_entry)) demo_capitals"
    by code_simp+
  then show ?thesis using scan_invalid[OF volume_others_invalid] unfolding volume_entries
    by (simp add: entry_step_def Let_def)
qed

lemma volume_room:
  "1 + length (lfn_entries demo_entry) \<le> file_sectors dir_volume [3, 5, 4] * 16"
  "\<forall>t. 1 \<le> t \<and> t < 1 + length (lfn_entries demo_entry) \<longrightarrow> erased (dir_entries dir_volume [3, 5, 4] ! t)"
proof -
  have l: "length (lfn_entries demo_entry) = 3"
    by (simp add: lfn_entries_def demo_entry_def fatfs_lfn_entries_required_def MAX_LFN_ENTRY_LENGTH_def)
  show "1 + length (lfn_entries demo_entry) \<le> file_sectors dir_volume [3, 5, 4] * 16" by (simp add: l volume_sectors)
  have "erased (replicate 32 0)" using volume_invalid(1) by (simp add: erased_def FILE_HEADER_BLANK_def)
  then show "\<forall>t. 1 \<le> t \<and> t < 1 + length (lfn_entries demo_entry) \<longrightarrow> erased (dir_entries dir_volume [3, 5, 4] ! t)"
    by (auto simp: l dir_entries_at volume_sectors volume_entry simp del: upt_rec_numeral)
qed

text \<open>
  C10: Creating a file. When a directory has free entries in a row for a new name,
  \<open>fatfs_add_file_entry\<close> puts the pieces of the long name and the short entry, in as many sectors
  as that takes, over entries none of which belongs to a file: neither short entries in use nor
  pieces of the long name of one. It changes no other entry and nothing of the allocation table;
  and a search for the name, which found nothing before, finds the new entry.
\<close>

theorem created_name_found:
  assumes "dir_ok fs p cs"
    "c_string (ne_filename n)" "0xFF \<notin> set (ne_filename n)" "0 < length (ne_filename n)" "length (ne_filename n) \<le> 260"
    "11 \<le> length (ne_shortfilename n)" "ne_shortfilename n ! 0 \<notin> {0, 0xE5}"
    "fatfs_compare_names (ne_filename n) name" "fst (entry_scan name (dir_entries fs cs) empty_lfn) = None"
    "j + length (lfn_entries n) \<le> file_sectors fs cs * 16"
    "\<forall>t. j \<le> t \<and> t < j + length (lfn_entries n) \<longrightarrow> erased (dir_entries fs cs ! t)"
  shows "\<exists>f1 f2 pos. fatfs_add_file_entry fs p n = Inr (True, f1) \<and> dir_frame fs f1 \<and>
    (\<forall>t. pos \<le> t \<and> t < pos + length (lfn_entries n) \<longrightarrow> \<not> belongs (dir_entries fs cs) t) \<and>
    dir_entries f1 cs = take pos (dir_entries fs cs) @ lfn_entries n @ drop (pos + length (lfn_entries n)) (dir_entries fs cs) \<and>
    fatfs_get_file_entry f1 p name =
      Inr (Some (fatfs_sfn_create_entry (ne_shortfilename n) (ne_size n) (ne_startCluster n) (ne_dir n)), f2) \<and> dir_ok f2 p cs"
  using created_found_ok[OF assms] place_unused by meson

lemma created_name_found_witness:
  "\<exists>f1 f2. fatfs_add_file_entry dir_volume 3 demo_entry = Inr (True, f1) \<and>
     fatfs_get_file_entry f1 3 demo_capitals =
       Inr (Some (fatfs_sfn_create_entry (ne_shortfilename demo_entry) 1200 5 False), f2)"
  using created_name_found[OF volume_dir_ok demo_entry_ok demo_compare volume_new_name volume_room]
  by (auto simp: demo_entry_def)

end
