(* ===== verification/FatListing.thy ===== *)
theory FatListing
  imports FatCreate VtoyWindows
begin

text \<open>
  Listing a directory (\<open>fl_listdirectory\<close>, \<open>fl_opendir\<close>, \<open>fl_readdir\<close>): reading on from a remembered
  position until nothing is left gives the visible entries of the directory, in their order.
  The cache of long names is a variable on the stack of every call; \<open>stack\<close> gives what the
  \<open>k\<close>-th call finds there. The column of dates is compiled out, with the time stamps.
\<close>

section \<open>Printing\<close>

definition FAT_PRINTF :: "bool \<Rightarrow> u8 list \<Rightarrow> u8 list" where
  "FAT_PRINTF verbose s = (if verbose then s else [])"

text \<open>\<open>%d\<close> of an unsigned number.\<close>

definition printf_d :: "u32 \<Rightarrow> u8 list" where
  "printf_d n = bytes_of (if sint n < 0 then ''-'' @ show_nat (nat (- sint n)) else show_nat (unat n))"

definition entry_line :: "fs_dir_ent \<Rightarrow> u8 list" where
  "entry_line e = den_filename e @
     (if den_is_dir e then bytes_of '' <DIR>'' else bytes_of '' ['' @ printf_d (den_size e) @ bytes_of '' bytes]'') @ [13, 10]"

text \<open>The loop, which ends since every turn passes an entry of the directory.\<close>

primrec list_files :: "nat \<Rightarrow> bool \<Rightarrow> (nat \<Rightarrow> lfn_cache) \<Rightarrow> nat \<Rightarrow> filelib \<Rightarrow> fs_dir_list_status \<Rightarrow> fault + u8 list \<times> filelib" where
  "list_files 0 verbose stack k lib dirstat = Inl OutOfFuel"
| "list_files (Suc fuel) verbose stack k lib dirstat =
     andThen (fl_readdir (stack k) lib dirstat) (\<lambda>(r, dirstat, lib). case r of
         None \<Rightarrow> Inr ([], lib)
       | Some dirent \<Rightarrow>
           andThen (list_files fuel verbose stack (k + 1) lib dirstat) (\<lambda>(out, lib).
             Inr (FAT_PRINTF verbose (entry_line dirent) @ out, lib)))"

definition fl_listdirectory :: "bool \<Rightarrow> (nat \<Rightarrow> lfn_cache) \<Rightarrow> filelib \<Rightarrow> u8 list \<Rightarrow> fault + u8 list \<times> filelib" where
  "fl_listdirectory verbose stack lib path =
     (let lib = CHECK_FL_INIT lib;
          title = FAT_PRINTF verbose ([13, 10] @ bytes_of ''Directory '' @ path @ [13, 10]) in
      andThen (fl_opendir lib path) (\<lambda>(r, lib). case r of
          None \<Rightarrow> Inr (title, lib)
        | Some dirstat \<Rightarrow>
            andThen (list_files (Suc (dir_fuel (fl_fs lib) * FAT_DIR_ENTRIES_PER_SECTOR)) verbose stack 0 lib dirstat) (\<lambda>(out, lib).
              Inr (title @ out, lib))))"

section \<open>The visible entries\<close>

text \<open>
  What a directory shows, entry by entry: a long name that its pieces in front have collected,
  or the short name. A name that is too long ends the program.
\<close>

primrec visible :: "(nat \<Rightarrow> lfn_cache) \<Rightarrow> nat \<Rightarrow> u8 list list \<Rightarrow> lfn_cache \<Rightarrow> fault + fs_dir_ent list" where
  "visible stack k [] lfn = Inr []"
| "visible stack k (b # bs) lfn =
     (let e = decode_dir_entry b;
          show_as = (\<lambda>name. andThen (visible stack (k + 1) bs (fatfs_lfn_cache_init (stack (k + 1)) False))
            (\<lambda>es. Inr (dir_ent name e # es)))
      in
      if fatfs_entry_lfn_text e then visible stack k bs (fatfs_lfn_cache_entry lfn b)
      else if fatfs_entry_lfn_invalid e then visible stack k bs (fatfs_lfn_cache_init lfn False)
      else if fatfs_entry_lfn_exists lfn e then
        (let name = fst (fatfs_lfn_cache_get lfn) in if 259 \<le> length name then Inl Abort else show_as name)
      else if fatfs_entry_sfn_only e then show_as (fatfs_get_sfn_display_name (short_filename e))
      else visible stack k bs lfn)"

text \<open>One call after the other, each from where the last one stopped.\<close>

lemma list_scan_item:
  "list_scan i bs lfn = Inr (Some (item, e), lfn') \<Longrightarrow> i \<le> item \<and> item < i + length bs"
proof (induction bs arbitrary: i lfn)
  case (Cons b bs)
  then show ?case by (fastforce simp: Let_def split: if_splits prod.splits)
qed simp

lemma scan_visible:
  "visible stack k bs lfn = (case list_scan i bs lfn of
       Inl f \<Rightarrow> Inl f
     | Inr (None, _) \<Rightarrow> Inr []
     | Inr (Some (item, e), _) \<Rightarrow>
         andThen (visible stack (k + 1) (drop (item + 1 - i) bs) (fatfs_lfn_cache_init (stack (k + 1)) False)) (\<lambda>es. Inr (e # es)))"
proof (induction bs arbitrary: i lfn)
  case (Cons b bs)
  let ?show = "\<lambda>j bs r. case r of Inl f \<Rightarrow> Inl f | Inr (None, _) \<Rightarrow> Inr []
     | Inr (Some (item, e), _) \<Rightarrow>
         andThen (visible stack (k + 1) (drop (item + 1 - j) bs) (fatfs_lfn_cache_init (stack (k + 1)) False)) (\<lambda>es. Inr (e # es))"
  have on: "?show i (b # bs) (list_scan (Suc i) bs l) = ?show (Suc i) bs (list_scan (Suc i) bs l)" for l
    using list_scan_item[of "Suc i" bs l]
    by (auto split: sum.split option.split simp: drop_Cons' Suc_diff_le)
  have *: "visible stack k bs l = ?show i (b # bs) (list_scan (Suc i) bs l)" for l
    unfolding on by (rule Cons.IH)
  show ?case
    by (cases "fatfs_lfn_cache_get lfn") (simp add: Let_def *)
qed simp

lemma list_scan_shift:
  "list_scan (d + i) bs lfn = (case list_scan i bs lfn of
     Inl f \<Rightarrow> Inl f | Inr (r, l) \<Rightarrow> Inr (map_option (apfst ((+) d)) r, l))"
proof (induction bs arbitrary: i lfn)
  case (Cons b bs)
  have "list_scan (Suc (d + i)) bs l = (case list_scan (Suc i) bs l of
      Inl f \<Rightarrow> Inl f | Inr (r, l) \<Rightarrow> Inr (map_option (apfst ((+) d)) r, l))" for l
    using Cons.IH[of "Suc i" l] by simp
  then show ?case by (cases "fatfs_lfn_cache_get lfn") (simp add: Let_def)
qed simp

lemma list_scan_append:
  "list_scan i (as @ bs) lfn = andThen (list_scan i as lfn) (\<lambda>(r, l). case r of
     None \<Rightarrow> list_scan (i + length as) bs l | Some x \<Rightarrow> Inr (Some x, l))"
proof (induction as arbitrary: i lfn)
  case (Cons a as)
  have l: "i + length (a # as) = Suc i + length as" by simp
  show ?case unfolding l by (cases "fatfs_lfn_cache_get lfn") (simp add: Let_def Cons.IH)
qed simp

section \<open>Reading on\<close>

text \<open>The position of a listing among the entries of the directory.\<close>

definition listing_at :: "fs_dir_list_status \<Rightarrow> u32 \<Rightarrow> nat \<Rightarrow> bool" where
  "listing_at d p n \<longleftrightarrow> dl_cluster d = p \<and> dl_offset d \<le> 16 \<and> unat (dl_sector d) * 16 + dl_offset d = n"

text \<open>The state of the volume between two calls.\<close>

definition listable :: "fatfs \<Rightarrow> u32 \<Rightarrow> u32 list \<Rightarrow> bool" where
  "listable fs p cs \<longleftrightarrow> chain_ok fs p cs \<and> current_ok fs \<and> file_sectors fs cs < 2 ^ 32 - 1"

lemma search_listable:
  assumes "search_frame fs f1" "table_ok f1" "current_ok f1" "listable fs p cs"
  shows "listable f1 p cs" "dir_entries f1 cs = dir_entries fs cs" "file_sectors f1 cs = file_sectors fs cs"
  using search_frame_chain[OF assms(1,2)] dir_entries_frame[OF assms(1,2)] assms(3,4)
  by (auto simp: listable_def)

lemma list_loop_ok:
  assumes "listable fs p cs" "listing_at d p n" "n \<le> file_sectors fs cs * 16"
    "file_sectors fs cs < unat (dl_sector d) + fuel"
  shows "case list_scan n (drop n (dir_entries fs cs)) lfn of
      Inl f \<Rightarrow> list_loop fuel fs d lfn = Inl f
    | Inr (r, _) \<Rightarrow> \<exists>d' fs'. list_loop fuel fs d lfn = Inr (map_option snd r, d', fs') \<and>
        search_frame fs fs' \<and> listable fs' p cs \<and>
        listing_at d' p (case r of None \<Rightarrow> file_sectors fs cs * 16 | Some (item, _) \<Rightarrow> item + 1)"
  using assms
proof (induction fuel arbitrary: fs d n lfn)
  case 0
  then have "file_sectors fs cs * 16 < unat (dl_sector d) * 16" by simp
  then show ?case using 0 by (simp add: listing_at_def)
next
  case (Suc fuel)
  let ?S = "file_sectors fs cs" let ?x = "unat (dl_sector d)" let ?o = "dl_offset d"
  have c: "chain_ok fs p cs" "current_ok fs" "?S < 2 ^ 32 - 1" "dl_cluster d = p" "?o \<le> 16" "?x * 16 + ?o = n"
    using Suc.prems(1,2) by (simp_all add: listable_def listing_at_def)
  show ?case
  proof (cases "?x < ?S")
    case False
    then have x: "?x = ?S" "n = ?S * 16" using c(6) Suc.prems(3) by simp_all
    obtain fs' where "fatfs_sector_reader fs p (dl_sector d) = Inr (False, fs')" "search_frame fs fs'" "table_ok fs'" "current_ok fs'"
      using sector_reader_end[OF c(1,2) x(1)] by blast
    then show ?thesis using x(2) Suc.prems(2) search_listable(1)[OF _ _ _ Suc.prems(1)] by (simp add: c(4))
  next
    case True
    obtain f1 where f1: "fatfs_sector_reader fs p (dl_sector d) = Inr (True, f1)" "search_frame fs f1" "table_ok f1"
      "current_ok f1" "fb_sector (fs_currentsector f1) = chain_sector fs cs ?x"
      using sector_reader_in[OF c(1,2) True] by blast
    note l1 = search_listable[OF f1(2-4) Suc.prems(1)]
    let ?E = "dir_entries fs cs"
    define as where "as = drop ?o (take 16 (drop (?x * 16) ?E))"
    have split: "drop n ?E = as @ drop (Suc ?x * 16) ?E"
    proof -
      have "drop n ?E = drop ?o (take 16 (drop (?x * 16) ?E) @ drop 16 (drop (?x * 16) ?E))"
        unfolding append_take_drop_id by (simp add: c(6)[symmetric] add.commute)
      also have "\<dots> = as @ drop (Suc ?x * 16) ?E"
        using True c(5) by (simp add: as_def)
      finally show ?thesis .
    qed
    have "(?x + 1) * 16 \<le> ?S * 16" using True by (intro mult_le_mono1) simp
    then have len: "n + length as = Suc ?x * 16" using c(5,6) by (simp add: as_def)
    have r: "list_loop (Suc fuel) fs d lfn = andThen (list_scan ?o as lfn) (\<lambda>(r, lfn). case r of
        Some (item, entry) \<Rightarrow> Inr (Some entry, d\<lparr>dl_offset := item + 1\<rparr>, f1)
      | None \<Rightarrow> list_loop fuel f1 (d\<lparr>dl_sector := dl_sector d + 1, dl_offset := 0\<rparr>) lfn)"
      by (simp add: c(4) f1(1,5) sector_entries_slice[OF True] as_def)
    have n: "list_scan n as lfn = (case list_scan ?o as lfn of
        Inl f \<Rightarrow> Inl f | Inr (r, l) \<Rightarrow> Inr (map_option (apfst ((+) (?x * 16))) r, l))"
      unfolding c(6)[symmetric] by (rule list_scan_shift)
    show ?thesis
    proof (cases "list_scan ?o as lfn")
      case (Inl f)
      then show ?thesis using r n by (simp add: split list_scan_append)
    next
      case (Inr z)
      then obtain q l where z: "list_scan ?o as lfn = Inr (q, l)" by (cases z) simp
      show ?thesis
      proof (cases q)
        case (Some w)
        obtain item e where w: "w = (item, e)" by (cases w)
        have "item < 16" using list_scan_item[of ?o as lfn item e l] z Some w len c(6) by simp
        then have "listing_at (d\<lparr>dl_offset := item + 1\<rparr>) p (?x * 16 + item + 1)" using c(4) by (simp add: listing_at_def)
        then show ?thesis using r n z Some w f1(2) l1(1) by (simp add: split list_scan_append)
      next
        case None
        let ?d = "d\<lparr>dl_sector := dl_sector d + 1, dl_offset := 0\<rparr>"
        have "unat (dl_sector d + 1) = Suc ?x" 
          using True c(3) by (subst unat_plus_simple[THEN iffD1]) (simp_all add: unat_arith_simps)
        then have u: "listing_at ?d p (Suc ?x * 16)" "unat (dl_sector ?d) = Suc ?x" using c(4) by (simp_all add: listing_at_def)
        have "case list_scan (Suc ?x * 16) (drop (Suc ?x * 16) (dir_entries f1 cs)) l of
            Inl f \<Rightarrow> list_loop fuel f1 ?d l = Inl f
          | Inr (r, _) \<Rightarrow> \<exists>d' fs'. list_loop fuel f1 ?d l = Inr (map_option snd r, d', fs') \<and>
              search_frame f1 fs' \<and> listable fs' p cs \<and>
              listing_at d' p (case r of None \<Rightarrow> file_sectors f1 cs * 16 | Some (item, _) \<Rightarrow> item + 1)"
          by (rule Suc.IH[OF l1(1) u(1)]) (use True Suc.prems(4) u(2) in \<open>simp_all add: l1(3)\<close>)
        moreover have "list_scan n (drop n ?E) lfn = list_scan (Suc ?x * 16) (drop (Suc ?x * 16) ?E) l"
          using n z None len by (simp add: split list_scan_append)
        moreover have "list_loop (Suc fuel) fs d lfn = list_loop fuel f1 ?d l" using r z None by simp
        ultimately show ?thesis using search_frame_trans[OF f1(2)] unfolding l1(2,3)
          by (auto split: sum.splits)
      qed
    qed
  qed
qed

section \<open>The whole listing\<close>

lemma readdir_ok:
  assumes "listable (fl_fs lib) p cs" "fl_initialised lib" "listing_at d p n" "n \<le> file_sectors (fl_fs lib) cs * 16"
  shows "case list_scan n (drop n (dir_entries (fl_fs lib) cs)) (fatfs_lfn_cache_init lfn False) of
      Inl f \<Rightarrow> fl_readdir lfn lib d = Inl f
    | Inr (r, _) \<Rightarrow> \<exists>d' fs'. fl_readdir lfn lib d = Inr (map_option snd r, d', lib\<lparr>fl_fs := fs'\<rparr>) \<and>
        search_frame (fl_fs lib) fs' \<and> listable fs' p cs \<and> dir_entries fs' cs = dir_entries (fl_fs lib) cs \<and>
        file_sectors fs' cs = file_sectors (fl_fs lib) cs \<and>
        listing_at d' p (case r of None \<Rightarrow> file_sectors (fl_fs lib) cs * 16 | Some (item, _) \<Rightarrow> item + 1)"
proof -
  have "file_sectors (fl_fs lib) cs < unat (dl_sector d) + dir_fuel (fl_fs lib)"
    using dir_fuel_enough[of "fl_fs lib" p cs] assms(1) by (simp add: listable_def)
  note l = list_loop_ok[OF assms(1,3,4) this, of "fatfs_lfn_cache_init lfn False"]
  have k: "dir_entries fs' cs = dir_entries (fl_fs lib) cs" "file_sectors fs' cs = file_sectors (fl_fs lib) cs"
    if "search_frame (fl_fs lib) fs'" "listable fs' p cs" for fs'
    using search_listable[OF that(1) _ _ assms(1)] that(2) by (auto simp: listable_def chain_ok_def)
  show ?thesis
    using l k assms(2) by (fastforce simp: fl_readdir_def CHECK_FL_INIT_def fatfs_list_directory_next_def split: sum.splits)
qed

lemma list_files_ok:
  assumes "listable (fl_fs lib) p cs" "fl_initialised lib" "listing_at d p n" "n \<le> file_sectors (fl_fs lib) cs * 16"
    "file_sectors (fl_fs lib) cs * 16 < n + fuel"
  shows "case visible stack k (drop n (dir_entries (fl_fs lib) cs)) (fatfs_lfn_cache_init (stack k) False) of
      Inl f \<Rightarrow> list_files fuel verbose stack k lib d = Inl f
    | Inr es \<Rightarrow> \<exists>fs'. list_files fuel verbose stack k lib d =
          Inr (concat (map (\<lambda>e. FAT_PRINTF verbose (entry_line e)) es), lib\<lparr>fl_fs := fs'\<rparr>) \<and>
        search_frame (fl_fs lib) fs' \<and> listable fs' p cs"
  using assms
proof (induction fuel arbitrary: lib d n k)
  case (Suc fuel)
  let ?E = "dir_entries (fl_fs lib) cs" and ?l = "fatfs_lfn_cache_init (stack k) False"
  note r = readdir_ok[OF Suc.prems(1-4), of "stack k"]
  note v = scan_visible[of stack k "drop n ?E" ?l n]
  show ?case
  proof (cases "list_scan n (drop n ?E) ?l")
    case (Inl f)
    then show ?thesis using r v by simp
  next
    case (Inr z)
    then obtain q l where z: "list_scan n (drop n ?E) ?l = Inr (q, l)" by (cases z) simp
    then obtain d' fs' where s: "fl_readdir (stack k) lib d = Inr (map_option snd q, d', lib\<lparr>fl_fs := fs'\<rparr>)"
      "search_frame (fl_fs lib) fs'" "listable fs' p cs" "dir_entries fs' cs = ?E" "file_sectors fs' cs = file_sectors (fl_fs lib) cs"
      "listing_at d' p (case q of None \<Rightarrow> file_sectors (fl_fs lib) cs * 16 | Some (item, _) \<Rightarrow> item + 1)"
      using r by auto
    show ?thesis
    proof (cases q)
      case None
      then show ?thesis using s z v by auto
    next
      case (Some w)
      obtain item e where w: "w = (item, e)" by (cases w)
      have i: "n \<le> item" "item < file_sectors (fl_fs lib) cs * 16"
        using list_scan_item[of n "drop n ?E" ?l item e l] z Some w by auto
      have d: "Suc item - n + n = Suc item" using i(1) by simp
      have "case visible stack (k + 1) (drop (item + 1) (dir_entries (fl_fs (lib\<lparr>fl_fs := fs'\<rparr>)) cs))
          (fatfs_lfn_cache_init (stack (k + 1)) False) of
            Inl f \<Rightarrow> list_files fuel verbose stack (k + 1) (lib\<lparr>fl_fs := fs'\<rparr>) d' = Inl f
          | Inr es \<Rightarrow> \<exists>f2. list_files fuel verbose stack (k + 1) (lib\<lparr>fl_fs := fs'\<rparr>) d' =
              Inr (concat (map (\<lambda>e. FAT_PRINTF verbose (entry_line e)) es), lib\<lparr>fl_fs := fs', fl_fs := f2\<rparr>) \<and>
              search_frame (fl_fs (lib\<lparr>fl_fs := fs'\<rparr>)) f2 \<and> listable f2 p cs"
        by (rule Suc.IH) (use s(3,5,6) Suc.prems(2,5) Some w i in auto)
      then show ?thesis
        using s(1,4) z v Some w search_frame_trans[OF s(2)] by (auto simp: d split: sum.splits)
    qed
  qed
qed simp

lemma listdirectory_ok:
  assumes o: "fl_opendir (CHECK_FL_INIT lib) path = Inr (Some (fatfs_list_directory_start p), lib1)" "fl_initialised lib1"
    and l: "listable (fl_fs lib1) p cs"
  shows "case visible stack 0 (dir_entries (fl_fs lib1) cs) (fatfs_lfn_cache_init (stack 0) False) of
      Inl f \<Rightarrow> fl_listdirectory verbose stack lib path = Inl f
    | Inr es \<Rightarrow> \<exists>fs'. fl_listdirectory verbose stack lib path =
          Inr (FAT_PRINTF verbose ([13, 10] @ bytes_of ''Directory '' @ path @ [13, 10]) @
               concat (map (\<lambda>e. FAT_PRINTF verbose (entry_line e)) es), lib1\<lparr>fl_fs := fs'\<rparr>) \<and>
        search_frame (fl_fs lib1) fs' \<and> listable fs' p cs"
proof -
  have "file_sectors (fl_fs lib1) cs < dir_fuel (fl_fs lib1)"
    using l dir_fuel_enough by (auto simp: listable_def)
  then have f: "file_sectors (fl_fs lib1) cs * 16 < 0 + Suc (dir_fuel (fl_fs lib1) * 16)" by simp
  have "listing_at (fatfs_list_directory_start p) p 0" by (simp add: listing_at_def fatfs_list_directory_start_def)
  note x = list_files_ok[OF l o(2) this le0 f, where stack = stack and k = 0 and verbose = verbose]
  show ?thesis using x o(1)
    by (auto simp: fl_listdirectory_def FAT_DIR_ENTRIES_PER_SECTOR_def simp del: list_files.simps split: sum.splits)
qed

section \<open>The small volume\<close>

definition list_lib :: filelib where
  "list_lib = small_lib\<lparr>fl_fs := dir_volume\<rparr>"

lemma visible_invalid:
  "\<forall>b \<in> set es. \<not> fatfs_entry_lfn_text (decode_dir_entry b) \<and> fatfs_entry_lfn_invalid (decode_dir_entry b) \<Longrightarrow>
   visible stack k es lfn = Inr []"
  by (induction es arbitrary: lfn) (simp_all add: Let_def)

lemma volume_visible:
  "visible stack 0 (dir_entries dir_volume [3, 5, 4]) (fatfs_lfn_cache_init (stack 0) False) =
   Inr [\<lparr>den_filename = [97], den_is_dir = False, den_cluster = 6, den_size = 300\<rparr>]"
proof -
  have "\<not> fatfs_entry_lfn_text (decode_dir_entry file_entry)" "\<not> fatfs_entry_lfn_invalid (decode_dir_entry file_entry)"
    "fatfs_entry_sfn_only (decode_dir_entry file_entry)"
    "fatfs_get_sfn_display_name (short_filename (decode_dir_entry file_entry)) = [97]"
    by code_simp+
  moreover have "\<not> fatfs_entry_lfn_exists (fatfs_lfn_cache_init lfn False) e" for lfn e
    by (simp add: fatfs_entry_lfn_exists_def fatfs_lfn_cache_init_def)
  ultimately show ?thesis
    unfolding volume_entries
    by (simp add: visible_invalid[OF volume_others_invalid, unfolded One_nat_def] Let_def dir_ent_def fatfs_entry_is_dir_def FILE_TYPE_DIR_def)
qed

lemma list_lib_opened:
  "fl_opendir (CHECK_FL_INIT list_lib) [ch_slash] = Inr (Some (fatfs_list_directory_start 3), list_lib)"
  by (simp add: fl_opendir_def CHECK_FL_INIT_def list_lib_def fatfs_total_path_levels_def path_start_def char_at_def
      fatfs_get_root_cluster_def dir_volume_def FAT32_INVALID_CLUSTER_def Let_def)

text \<open>
  C14: Listing a directory. Once \<open>fl_opendir\<close> has found the directory, \<open>fl_listdirectory\<close> ends and
  prints a line for each visible entry of its cluster chain, in their order and none twice,
  although every call of \<open>fl_readdir\<close> starts over from a position, with a cache of long names
  it does not wipe, reads the sectors through one buffer, and crosses sectors and clusters. The
  table stays the same. Only a long name of 259 bytes or more stops it, at the bounds check of
  \<open>strcpy_s\<close>.
\<close>

theorem directory_listed:
  assumes "fl_opendir (CHECK_FL_INIT lib) path = Inr (Some (fatfs_list_directory_start p), lib1)" "fl_initialised lib1"
    "listable (fl_fs lib1) p cs"
  shows "case visible stack 0 (dir_entries (fl_fs lib1) cs) (fatfs_lfn_cache_init (stack 0) False) of
      Inl f \<Rightarrow> fl_listdirectory verbose stack lib path = Inl f
    | Inr es \<Rightarrow> \<exists>fs'. fl_listdirectory verbose stack lib path =
          Inr (FAT_PRINTF verbose ([13, 10] @ bytes_of ''Directory '' @ path @ [13, 10]) @
               concat (map (\<lambda>e. FAT_PRINTF verbose (entry_line e)) es), lib1\<lparr>fl_fs := fs'\<rparr>) \<and>
        search_frame (fl_fs lib1) fs' \<and> listable fs' p cs"
  by (rule listdirectory_ok[OF assms])

lemma directory_listed_witness:
  "\<exists>lib'. fl_listdirectory True (\<lambda>_. empty_lfn) list_lib [ch_slash] =
     Inr ([13, 10] @ bytes_of ''Directory /'' @ [13, 10] @ bytes_of ''a [300 bytes]'' @ [13, 10], lib')"
proof -
  have l: "fl_fs list_lib = dir_volume" "fl_initialised list_lib" by (simp_all add: list_lib_def)
  have "listable (fl_fs list_lib) 3 [3, 5, 4]"
    using volume_chains(1)[OF dir_volume_ok(1)] dir_volume_ok(2) by (simp add: listable_def l volume_sectors)
  note d = directory_listed[OF list_lib_opened l(2) this, where stack = "\<lambda>_. empty_lfn" and verbose = True]
  have "printf_d 300 = bytes_of ''300''" by code_simp
  then have "entry_line \<lparr>den_filename = [97], den_is_dir = False, den_cluster = 6, den_size = 300\<rparr> =
      bytes_of ''a [300 bytes]'' @ [13, 10]" by (simp add: entry_line_def bytes_of_def of_char_def)
  moreover have "bytes_of ''Directory '' @ [ch_slash] = bytes_of ''Directory /''"
    by (simp add: bytes_of_def of_char_def ch_slash_def)
  ultimately show ?thesis using d by (auto simp: l volume_visible[of "\<lambda>_. empty_lfn"] FAT_PRINTF_def)
qed

end
