(* ===== verification/FatCalls.thy ===== *)
theory FatCalls
  imports FatHandles FatListing
begin

text \<open>
  Sequences of calls of the FAT library: the states a client can bring it to, and how its handles
  are shared out in them.
\<close>

section \<open>Calls that leave the handles alone\<close>

text \<open>A handle that a client may pass: none, or one it has open.\<close>

definition usable :: "handle option \<Rightarrow> handle list \<Rightarrow> bool" where
  "usable f us \<longleftrightarrow> (\<forall>h. f = Some h \<longrightarrow> h \<in> set us)"

lemma fl_fs_kept: "names_kept lib l \<Longrightarrow> names_kept lib (l\<lparr>fl_fs := fs\<rparr>)"
  by simp

lemma attach_kept: "fl_initialised lib \<Longrightarrow> keeps lib (fl_attach_media lib m)"
  unfolding fl_attach_media_def Let_def
  by (auto simp: names_kept_def intro!: post_any)

lemma shutdown_kept: "fl_initialised lib \<Longrightarrow> post (names_kept lib) (fl_shutdown lib)"
  unfolding fl_shutdown_def Let_def by (auto intro!: post_any)

lemma format_kept: "keeps lib (fl_format lib n name)"
  unfolding fl_format_def by (auto intro!: post_any)

lemma fgetc_kept: "fl_initialised lib \<Longrightarrow> keeps lib (fl_fgetc lib f)"
  unfolding fl_fgetc_def by (rule post_bind[OF fread_kept]) auto

lemma fgets_kept:
  assumes "fl_initialised lib" shows "keeps lib (fl_fgets lib n f)"
proof -
  have "post (\<lambda>(_, l). names_kept lib l) (fgets_loop k lib f s)" if "fl_initialised lib" for k lib s
    using that
  proof (induction k arbitrary: lib s)
    case (Suc k)
    have "post (\<lambda>(_, l2). names_kept lib l2) (fgets_loop k l f s)" if "names_kept lib l" for l s
      by (rule post_weaken[OF Suc.IH[OF kept_initialised[OF that Suc.prems]]]) (auto intro: names_kept_trans[OF that])
    then show ?case by (auto intro!: post_bind[OF fgetc_kept[OF Suc.prems]])
  qed simp
  then show ?thesis using assms unfolding fl_fgets_def by (auto intro!: post_bind)
qed

lemma fputc_kept: "fl_initialised lib \<Longrightarrow> keeps lib (fl_fputc lib c f)"
  unfolding fl_fputc_def by (rule post_bind[OF fwrite_kept]) auto

lemma fputs_kept: "fl_initialised lib \<Longrightarrow> keeps lib (fl_fputs lib s f)"
  unfolding fl_fputs_def by (rule fwrite_kept)

lemma opendir_kept: "fl_initialised lib \<Longrightarrow> keeps lib (fl_opendir lib path)"
  unfolding fl_opendir_def Let_def by (auto intro!: post_any)

lemma is_dir_kept: "fl_initialised lib \<Longrightarrow> keeps lib (fl_is_dir lib path)"
  unfolding fl_is_dir_def by (rule post_bind[OF opendir_kept]) auto

lemma readdir_kept: "fl_initialised lib \<Longrightarrow> post (\<lambda>(_, _, l). names_kept lib l) (fl_readdir stack lib d)"
  unfolding fl_readdir_def Let_def by (auto intro!: post_any)

lemma list_files_kept: "fl_initialised lib \<Longrightarrow> keeps lib (list_files fuel verbose stack k lib d)"
proof (induction fuel arbitrary: lib d k)
  case (Suc fuel)
  have "keeps lib (list_files fuel verbose stack k l d)" if "names_kept lib l" for l d k
    by (rule post_weaken[OF Suc.IH[OF kept_initialised[OF that Suc.prems]]]) (auto intro: names_kept_trans[OF that])
  then show ?case
    by (auto intro!: post_bind[OF readdir_kept[OF Suc.prems]] split: option.split)
      (auto intro!: post_bind)
qed simp

lemma listdirectory_kept:
  assumes "fl_initialised lib" shows "keeps lib (fl_listdirectory verbose stack lib path)"
proof -
  have l: "keeps lib (list_files n verbose stack k l d)" if "names_kept lib l" for n k l d
    by (rule post_weaken[OF list_files_kept[OF kept_initialised[OF that assms]]]) (auto intro: names_kept_trans[OF that])
  show ?thesis
    unfolding fl_listdirectory_def Let_def using assms
    by (auto intro!: post_bind[OF opendir_kept] split: option.split simp del: list_files.simps) (auto intro!: post_bind[OF l] simp del: list_files.simps)
qed

section \<open>Two ways to write a path\<close>

text \<open>
  The documented forms \<open>/d/f\<close> and \<open>c:\d\f\<close> of a path name the same file, but the folders that
  \<open>check_file_open\<close> compares differ as strings: a file can be open twice.
\<close>

lemma two_spellings:
  "fatfs_split_path [47, 100, 47, 102] FATFS_MAX_LONG_FILENAME FATFS_MAX_LONG_FILENAME = Inr (Some ([47, 100], [102]))"
  "fatfs_split_path [99, 58, 92, 100, 92, 102] FATFS_MAX_LONG_FILENAME FATFS_MAX_LONG_FILENAME =
     Inr (Some ([99, 58, 92, 100], [102]))"
  "\<not> fatfs_compare_names [47, 100] [99, 58, 92, 100]"
  by code_simp+

section \<open>Sequences of calls\<close>

text \<open>
  The states a client can bring the library to, with the handles it has open in the order it
  opened them. Every function of the library that changes its state is a step; a handle is used
  only while it is open. \<open>fl_init\<close> gives all handles back, at any time.
\<close>

inductive in_use :: "filelib \<Rightarrow> handle list \<Rightarrow> bool" where
  start: "in_use (fl_init lib) []"
| attached: "in_use lib us \<Longrightarrow> fl_attach_media lib m = Inr (res, lib') \<Longrightarrow> in_use lib' us"
| shut_down: "in_use lib us \<Longrightarrow> fl_shutdown lib = Inr lib' \<Longrightarrow> in_use lib' us"
| formatted: "in_use lib us \<Longrightarrow> fl_format lib n name = Inr (res, lib') \<Longrightarrow> in_use lib' us"
| opened: "in_use lib us \<Longrightarrow> fl_fopen js lib path mode = Inr (r, lib') \<Longrightarrow>
    in_use lib' (us @ (case r of None \<Rightarrow> [] | Some h \<Rightarrow> [h]))"
| closed: "in_use lib us \<Longrightarrow> usable f us \<Longrightarrow> fl_fclose lib f = Inr lib' \<Longrightarrow>
    in_use lib' (case f of None \<Rightarrow> us | Some h \<Rightarrow> remove1 h us)"
| was_read: "in_use lib us \<Longrightarrow> usable f us \<Longrightarrow> fl_fread lib a b f = Inr (n, bs, lib') \<Longrightarrow> in_use lib' us"
| got_char: "in_use lib us \<Longrightarrow> usable f us \<Longrightarrow> fl_fgetc lib f = Inr (c, lib') \<Longrightarrow> in_use lib' us"
| got_line: "in_use lib us \<Longrightarrow> usable f us \<Longrightarrow> fl_fgets lib n f = Inr (s, lib') \<Longrightarrow> in_use lib' us"
| written: "in_use lib us \<Longrightarrow> usable f us \<Longrightarrow> fl_fwrite lib bs f = Inr (n, lib') \<Longrightarrow> in_use lib' us"
| put_char: "in_use lib us \<Longrightarrow> usable f us \<Longrightarrow> fl_fputc lib c f = Inr (n, lib') \<Longrightarrow> in_use lib' us"
| put_string: "in_use lib us \<Longrightarrow> usable f us \<Longrightarrow> fl_fputs lib s f = Inr (n, lib') \<Longrightarrow> in_use lib' us"
| sought: "in_use lib us \<Longrightarrow> usable f us \<Longrightarrow> fl_fseek lib f offset origin = Inr (n, lib') \<Longrightarrow> in_use lib' us"
| flushed: "in_use lib us \<Longrightarrow> usable f us \<Longrightarrow> fl_fflush lib f = Inr lib' \<Longrightarrow> in_use lib' us"
| removed: "in_use lib us \<Longrightarrow> fl_fopen js lib (Some p) (Some [114]) = Inr (r, l) \<Longrightarrow> fl_remove js lib p = Inr (res, lib') \<Longrightarrow>
    in_use lib' (if res = 0 then us else us @ (case r of None \<Rightarrow> [] | Some h \<Rightarrow> [h]))"
| made_directory: "in_use lib us \<Longrightarrow> fl_createdirectory js lib p = Inr (ok, lib') \<Longrightarrow> in_use lib' us"
| directory_opened: "in_use lib us \<Longrightarrow> fl_opendir lib p = Inr (d, lib') \<Longrightarrow> in_use lib' us"
| directory_read: "in_use lib us \<Longrightarrow> fl_readdir stack lib d = Inr (e, d', lib') \<Longrightarrow> in_use lib' us"
| directory_asked: "in_use lib us \<Longrightarrow> fl_is_dir lib p = Inr (ok, lib') \<Longrightarrow> in_use lib' us"
| listed: "in_use lib us \<Longrightarrow> fl_listdirectory verbose stacks lib p = Inr (out, lib') \<Longrightarrow> in_use lib' us"

lemma opened_append: "opened us (r, lib) = handles lib (us @ (case r of None \<Rightarrow> [] | Some h \<Rightarrow> [h]))"
  by (cases r) simp_all

text \<open>A call that keeps the names keeps the handles.\<close>

lemma call_kept:
  assumes "handles lib us" "r = Inr x" shows "fl_initialised lib \<Longrightarrow> post (\<lambda>y. names_kept lib (f y)) r \<Longrightarrow> handles (f x) us"
  using assms kept_handles by auto

lemma handles_init: "handles lib us \<Longrightarrow> fl_initialised lib"
  by (auto simp: handles_def lists_ok_def)

lemma in_use_handles: "in_use lib us \<Longrightarrow> handles lib us"
proof (induction rule: in_use.induct)
  case (start lib)
  then show ?case using init_handles by (auto simp: handles_def)
next
  case (opened lib us js path mode r lib')
  then show ?case using postD[OF fopen_ok] opened_append by metis
next
  case (closed lib us f lib')
  show ?case
  proof (cases f)
    case None
    then show ?thesis using closed handles_initialised by (auto simp: fl_fclose_def Let_def)
  next
    case (Some h)
    then show ?thesis using closed postD[OF fclose_handles] by (auto simp: usable_def)
  qed
next
  case (removed lib us js p r l res lib')
  then show ?case using postD[OF remove_handles] opened_append by (cases "res = 0") fastforce+
next
  case (made_directory lib us js p ok lib')
  then show ?case using postD[OF mkdir_handles] by fastforce
next
  case (shut_down lib us lib')
  then show ?case using postD[OF shutdown_kept[OF handles_init]] kept_handles by blast
next
  case (flushed lib us f lib')
  then show ?case using postD[OF fflush_kept[OF handles_init]] kept_handles by blast
next
  case (was_read lib us f a b n bs lib')
  then show ?case using postD[OF fread_kept[OF handles_init]] kept_handles by fastforce
next
  case (directory_read lib us stack d e d' lib')
  then show ?case using postD[OF readdir_kept[OF handles_init]] kept_handles by fastforce
qed (use attach_kept[OF handles_init] format_kept fgetc_kept[OF handles_init] fgets_kept[OF handles_init]
    fwrite_kept[OF handles_init] fputc_kept[OF handles_init] fputs_kept[OF handles_init] fseek_kept[OF handles_init]
    opendir_kept[OF handles_init] is_dir_kept[OF handles_init] listdirectory_kept[OF handles_init] kept_handles in \<open>metis post_simps(2) snd_conv\<close>)+

text \<open>
  C16: Whatever sequence of calls a client makes, of which each handle it uses is open: the list
  of open handles holds exactly the handles it opened and has not closed, in that order, the
  free list holds the others, and no open handle has the path and the name, compared as strings
  without regard to case, of another that was opened before it. (A path can be written in two
  ways, so this does not say that a file is not open twice.)
\<close>

theorem handles_shared_out:
  assumes "in_use lib us"
  shows "\<exists>vs. list_holds (fl_nodes lib, fl_open_list lib) us \<and> list_holds (fl_nodes lib, fl_free_list lib) vs \<and>
    distinct (us @ vs) \<and> set (us @ vs) = {..<FATFS_MAX_OPEN_FILES} \<and>
    sorted_wrt (\<lambda>h k. \<not> (fatfs_compare_names (ff_path (fl_files lib h)) (ff_path (fl_files lib k)) \<and>
      fatfs_compare_names (ff_filename (fl_files lib h)) (ff_filename (fl_files lib k)))) us"
proof -
  obtain vs where l: "lists_ok lib us vs" and s: "sorted_wrt (\<lambda>h k. \<not> same_name lib h k) us"
    using in_use_handles[OF assms] by (auto simp: handles_def)
  have "distinct us" "distinct vs" using l list_holds_distinct unfolding lists_ok_def by blast+
  then show ?thesis using l s unfolding lists_ok_def same_name_def by auto
qed

lemma handles_shared_out_witness:
  "\<exists>lib'. fl_fopen [] (volume_lib dir_volume) (Some [47, 65]) (Some [114, 98]) = Inr (Some 0, lib') \<and>
    list_holds (fl_nodes lib', fl_open_list lib') [0] \<and> list_holds (fl_nodes lib', fl_free_list lib') [1]"
proof -
  obtain lib' where o: "fl_fopen [] (volume_lib dir_volume) (Some [47, 65]) (Some [114, 98]) = Inr (Some 0, lib')"
    using volume_fopen[OF dir_volume_ok(1), of "[]"] by auto
  have "in_use (volume_lib dir_volume) []" unfolding volume_lib_def by (rule in_use.start)
  then have "in_use lib' ([] @ (case Some 0 of None \<Rightarrow> [] | Some h \<Rightarrow> [h]))" using o by (rule in_use.opened)
  then have "in_use lib' ([] @ [0])" by simp
  then obtain vs where v: "list_holds (fl_nodes lib', fl_open_list lib') ([] @ [0])"
    "list_holds (fl_nodes lib', fl_free_list lib') vs" "distinct (([] @ [0]) @ vs)"
    "set (([] @ [0]) @ vs) = {..<FATFS_MAX_OPEN_FILES}" using handles_shared_out by blast
  have d: "distinct vs" "0 \<notin> set vs" using v(3) by simp_all
  have "insert 0 (set vs) = {..<2}" using v(4) by (simp add: FATFS_MAX_OPEN_FILES_def)
  also have "{..<2} = insert 0 {1 :: nat}" by (simp add: lessThan_Suc numeral_2_eq_2 insert_commute)
  finally have "set vs = {1}" using d(2) by (metis insert_ident singletonD zero_neq_one)
  then have "length vs = 1" using distinct_card[OF d(1)] by simp
  then obtain x where "vs = [x]" by (cases vs) auto
  then have "vs = [1]" using \<open>set vs = {1}\<close> by simp
  then show ?thesis using o v(1,2) by simp
qed

end
