(* ===== verification/FatCache.thy ===== *)
theory FatCache
  imports FatContents
begin

text \<open>
  The cluster chain cache of a file (\<open>fat_cache.c\<close>) and the walks along a chain that go through
  it, as they are compiled when \<open>FAT_CLUSTER_CACHE_ENTRIES\<close> is defined. Without it the two arrays
  have no elements, nothing is ever found in them, and the walks are those of the other theories.
\<close>

section \<open>The cache\<close>

record cluster_cache =
  cluster_cache_idx :: "u32 list"
  cluster_cache_data :: "u32 list"

definition fatfs_cache_init :: "cluster_cache \<Rightarrow> cluster_cache" where
  "fatfs_cache_init c = \<lparr>cluster_cache_idx = replicate (length (cluster_cache_idx c)) 0xFFFFFFFF,
     cluster_cache_data = replicate (length (cluster_cache_data c)) 0\<rparr>"

definition cache_slot :: "cluster_cache \<Rightarrow> u32 \<Rightarrow> nat" where
  "cache_slot c clusterIdx = unat clusterIdx mod length (cluster_cache_idx c)"

definition fatfs_cache_get_next_cluster :: "cluster_cache \<Rightarrow> u32 \<Rightarrow> u32 option" where
  "fatfs_cache_get_next_cluster c clusterIdx =
     (if cluster_cache_idx c = [] then None
      else let slot = cache_slot c clusterIdx in
        if cluster_cache_idx c ! slot = clusterIdx then Some (cluster_cache_data c ! slot) else None)"

definition fatfs_cache_set_next_cluster :: "cluster_cache \<Rightarrow> u32 \<Rightarrow> u32 \<Rightarrow> cluster_cache" where
  "fatfs_cache_set_next_cluster c clusterIdx nextCluster =
     (if cluster_cache_idx c = [] then c
      else let slot = cache_slot c clusterIdx in
        if cluster_cache_idx c ! slot = clusterIdx
        then c\<lparr>cluster_cache_data := (cluster_cache_data c)[slot := nextCluster]\<rparr>
        else c\<lparr>cluster_cache_idx := (cluster_cache_idx c)[slot := clusterIdx],
               cluster_cache_data := (cluster_cache_data c)[slot := nextCluster]\<rparr>)"

section \<open>Walks through the cache\<close>

text \<open>The next cluster, from the cache or from the table and then kept.\<close>

definition cached_next :: "fatfs \<Rightarrow> cluster_cache \<Rightarrow> u32 \<Rightarrow> u32 \<Rightarrow> fault + u32 \<times> cluster_cache \<times> fatfs" where
  "cached_next fs c i Cluster = (case fatfs_cache_get_next_cluster c i of
       Some nextCluster \<Rightarrow> Inr (nextCluster, c, fs)
     | None \<Rightarrow> andThen (fatfs_find_next_cluster fs Cluster) (\<lambda>(nextCluster, fs).
         Inr (nextCluster, fatfs_cache_set_next_cluster c i nextCluster, fs)))"

primrec follow_cached :: "nat \<Rightarrow> fatfs \<Rightarrow> cluster_cache \<Rightarrow> u32 \<Rightarrow> u32 \<Rightarrow> fault + u32 \<times> cluster_cache \<times> fatfs" where
  "follow_cached 0 fs c i Cluster = Inr (Cluster, c, fs)"
| "follow_cached (Suc n) fs c i Cluster =
     andThen (cached_next fs c i Cluster) (\<lambda>(Cluster, c, fs). follow_cached n fs c (i + 1) Cluster)"

primrec follow_stop_cached :: "nat \<Rightarrow> fatfs \<Rightarrow> cluster_cache \<Rightarrow> u32 \<Rightarrow> u32 \<Rightarrow> u32 \<Rightarrow>
    fault + u32 \<times> u32 \<times> cluster_cache \<times> fatfs" where
  "follow_stop_cached 0 fs c i LastCluster Cluster = Inr (LastCluster, Cluster, c, fs)"
| "follow_stop_cached (Suc n) fs c i LastCluster Cluster =
     andThen (cached_next fs c i Cluster) (\<lambda>(nextCluster, c, fs).
       if nextCluster = FAT32_LAST_CLUSTER then Inr (Cluster, nextCluster, c, fs)
       else follow_stop_cached n fs c (i + 1) Cluster nextCluster)"

text \<open>Without entries the walks are the ones without a cache.\<close>

lemma no_cache_next:
  "cluster_cache_idx c = [] \<Longrightarrow> cached_next fs c i Cluster = andThen (fatfs_find_next_cluster fs Cluster) (\<lambda>(n, fs). Inr (n, c, fs))"
  by (simp add: cached_next_def fatfs_cache_get_next_cluster_def fatfs_cache_set_next_cluster_def)

lemma no_cache_follow:
  assumes "cluster_cache_idx c = []"
  shows "follow_cached n fs c i Cluster = andThen (follow fs Cluster n) (\<lambda>(Cluster, fs). Inr (Cluster, c, fs))"
proof (induction n arbitrary: fs i Cluster)
  case (Suc n)
  show ?case
    by (cases "fatfs_find_next_cluster fs Cluster") (auto simp: no_cache_next[OF assms] Suc.IH)
qed simp

lemma no_cache_follow_stop:
  assumes "cluster_cache_idx c = []"
  shows "follow_stop_cached n fs c i l Cluster = andThen (follow_stop fs l Cluster n) (\<lambda>(l, Cluster, fs). Inr (l, Cluster, c, fs))"
proof (induction n arbitrary: fs i l Cluster)
  case (Suc n)
  show ?case
    by (cases "fatfs_find_next_cluster fs Cluster") (auto simp: no_cache_next[OF assms] Suc.IH)
qed simp

section \<open>A cache that agrees with the chain\<close>

definition chain_next :: "u32 list \<Rightarrow> nat \<Rightarrow> u32" where
  "chain_next cs i = (if Suc i < length cs then cs ! Suc i else FAT32_LAST_CLUSTER)"

definition cache_right :: "cluster_cache \<Rightarrow> u32 list \<Rightarrow> bool" where
  "cache_right c cs \<longleftrightarrow> length (cluster_cache_data c) = length (cluster_cache_idx c) \<and>
     (\<forall>s < length (cluster_cache_idx c). cluster_cache_idx c ! s = 0xFFFFFFFF \<or>
        cluster_cache_data c ! s = chain_next cs (unat (cluster_cache_idx c ! s)))"

lemma init_right:
  "length (cluster_cache_data c) = length (cluster_cache_idx c) \<Longrightarrow> cache_right (fatfs_cache_init c) cs"
  by (simp add: cache_right_def fatfs_cache_init_def)

lemma get_right:
  assumes "cache_right c cs" "fatfs_cache_get_next_cluster c i = Some x" "i \<noteq> 0xFFFFFFFF"
  shows "x = chain_next cs (unat i)"
proof -
  have "cluster_cache_idx c \<noteq> []" "cluster_cache_idx c ! cache_slot c i = i" "x = cluster_cache_data c ! cache_slot c i"
    using assms(2) by (auto simp: fatfs_cache_get_next_cluster_def Let_def split: if_splits)
  moreover from this have "cache_slot c i < length (cluster_cache_idx c)" by (simp add: cache_slot_def)
  ultimately show ?thesis using assms(1,3) by (auto simp: cache_right_def)
qed

lemma set_right:
  assumes "cache_right c cs"
  shows "cache_right (fatfs_cache_set_next_cluster c i (chain_next cs (unat i))) cs"
proof (cases "cluster_cache_idx c = []")
  case False
  then have "cache_slot c i < length (cluster_cache_idx c)" by (simp add: cache_slot_def)
  then show ?thesis
    using assms by (auto simp: cache_right_def fatfs_cache_set_next_cluster_def Let_def nth_list_update)
qed (use assms in \<open>simp add: fatfs_cache_set_next_cluster_def\<close>)

lemma get_set:
  assumes "cluster_cache_idx c \<noteq> []" "length (cluster_cache_data c) = length (cluster_cache_idx c)"
  shows "fatfs_cache_get_next_cluster (fatfs_cache_set_next_cluster c i x) i = Some x"
proof -
  have "cache_slot c i < length (cluster_cache_idx c)" using assms(1) by (simp add: cache_slot_def)
  then show ?thesis
    using assms by (auto simp: fatfs_cache_get_next_cluster_def fatfs_cache_set_next_cluster_def Let_def cache_slot_def)
qed

lemma fat_next_chain:
  assumes ok: "chain_ok fs p cs" and i: "i < length cs"
  shows "fat_next fs (cs ! i) = chain_next cs i"
proof -
  have "fat_chain (fat_next fs) (cs ! i) (cs ! i # drop (Suc i) cs)"
    using chain_ok_drop(1)[OF ok i] Cons_nth_drop_Suc[OF i] by simp
  then have "fat_chain (fat_next fs) (fat_next fs (cs ! i)) (drop (Suc i) cs)" by simp
  then show ?thesis
    by (cases "Suc i < length cs") (auto simp: chain_next_def Cons_nth_drop_Suc[symmetric])
qed

lemma cached_next_ok:
  assumes ok: "chain_ok fs p cs" and c: "cache_right c cs" and i: "i < length cs" "length cs < 2 ^ 32 - 1"
  shows "\<exists>c' fs'. cached_next fs c (word_of_nat i) (cs ! i) = Inr (chain_next cs i, c', fs') \<and> cache_right c' cs \<and>
    chain_ok fs' p cs \<and> table_frame fs fs' \<and> fat_view fs' = fat_view fs"
proof -
  have ui: "unat (word_of_nat i :: u32) = i" unfolding unat_of_nat by (rule mod_less) (use i in simp)
  have ni: "(word_of_nat i :: u32) \<noteq> 0xFFFFFFFF"
  proof
    assume "(word_of_nat i :: u32) = 0xFFFFFFFF"
    then have "i = unat (0xFFFFFFFF :: u32)" using ui by simp
    then show False using i by simp
  qed
  show ?thesis
  proof (cases "fatfs_cache_get_next_cluster c (word_of_nat i)")
    case (Some x)
    have "x = chain_next cs i" using get_right[OF c Some ni] ui by simp
    then show ?thesis using Some ok c by (simp add: cached_next_def)
  next
    case None
    have "table_ok fs" "covers fs (cs ! i)" "cs ! i \<noteq> 0"
      using ok i fat_chain_nonzero[of "fat_next fs" p cs "cs ! i"] by (auto simp: chain_ok_def)
    then obtain f1 where f1: "fatfs_find_next_cluster fs (cs ! i) = Inr (fat_next fs (cs ! i), f1)" "table_ok f1"
      "fat_view f1 = fat_view fs" "table_frame fs f1"
      using find_next_ok[of fs "cs ! i"] by auto
    have "chain_ok f1 p cs" by (rule frame_chain_ok[OF ok f1(4,3,2)])
    then show ?thesis
      using None f1 fat_next_chain[OF ok i(1)] set_right[OF c, of "word_of_nat i"] ui by (auto simp: cached_next_def)
  qed
qed

lemma follow_cached_ok:
  "chain_ok fs p cs \<Longrightarrow> cache_right c cs \<Longrightarrow> i + n < length cs \<Longrightarrow> length cs < 2 ^ 32 - 1 \<Longrightarrow>
   \<exists>c' fs'. follow_cached n fs c (word_of_nat i) (cs ! i) = Inr (cs ! (i + n), c', fs') \<and> cache_right c' cs \<and>
     chain_ok fs' p cs \<and> table_frame fs fs' \<and> fat_view fs' = fat_view fs"
proof (induction n arbitrary: fs c i)
  case 0
  then show ?case by simp
next
  case (Suc n)
  have i: "i < length cs" "Suc i < length cs" "Suc i + n < length cs" using Suc.prems(3) by simp_all
  obtain c1 f1 where s: "cached_next fs c (word_of_nat i) (cs ! i) = Inr (chain_next cs i, c1, f1)" "cache_right c1 cs"
    "chain_ok f1 p cs" "table_frame fs f1" "fat_view f1 = fat_view fs"
    using cached_next_ok[OF Suc.prems(1,2) i(1) Suc.prems(4)] by blast
  have n: "chain_next cs i = cs ! Suc i" using i(2) by (simp add: chain_next_def)
  obtain c2 f2 where r: "follow_cached n f1 c1 (word_of_nat (Suc i)) (cs ! Suc i) = Inr (cs ! (Suc i + n), c2, f2)"
    "cache_right c2 cs" "chain_ok f2 p cs" "table_frame f1 f2" "fat_view f2 = fat_view f1"
    using Suc.IH[OF s(3,2) i(3) Suc.prems(4)] by blast
  have "(word_of_nat i + 1 :: u32) = word_of_nat (Suc i)" by simp
  then have "follow_cached (Suc n) fs c (word_of_nat i) (cs ! i) = Inr (cs ! (i + Suc n), c2, f2)"
    using s(1) r(1) n by (simp add: add.commute)
  then show ?case using r s(5) table_frame_trans[OF s(4) r(4)] by auto
qed


lemma cached_walk_ok:
  assumes "chain_ok fs p cs" "cache_right c cs" "k < length cs" "length cs < 2 ^ 32 - 1"
  shows "\<exists>c' fs' fs''. follow_cached k fs c 0 p = Inr (cs ! k, c', fs') \<and> follow fs p k = Inr (cs ! k, fs'') \<and>
    cache_right c' cs \<and> chain_ok fs' p cs \<and> fat_view fs' = fat_view fs"
proof -
  have p: "p = cs ! 0" using assms(1,3) by (cases cs) (auto simp: chain_ok_def)
  obtain fs'' where "follow fs p k = Inr (cs ! k, fs'')" using follow_from[OF assms(1), of 0 k] assms(3) p by auto
  moreover obtain c' fs' where "follow_cached k fs c 0 p = Inr (cs ! k, c', fs')" "cache_right c' cs" "chain_ok fs' p cs"
    "fat_view fs' = fat_view fs"
    using follow_cached_ok[OF assms(1,2), of 0 k] assms(3,4) p by auto
  ultimately show ?thesis by blast
qed

section \<open>What is kept too long\<close>

text \<open>
  What has been looked up once is answered again, whatever the table says by then. A write
  past the end of a chain puts the end mark into the cache and then makes the chain longer:
  the next walk ends where the chain ended before.
\<close>

lemma answer_kept:
  assumes "cached_next fs c i Cluster = Inr (x, c1, f1)" "cluster_cache_idx c \<noteq> []"
    "length (cluster_cache_data c) = length (cluster_cache_idx c)"
  shows "cached_next f2 c1 i Cluster' = Inr (x, c1, f2)"
proof (cases "fatfs_cache_get_next_cluster c i")
  case (Some y)
  then show ?thesis using assms(1) by (auto simp: cached_next_def)
next
  case None
  obtain f where "fatfs_find_next_cluster fs Cluster = Inr (x, f)" "c1 = fatfs_cache_set_next_cluster c i x"
    using assms(1) None by (cases "fatfs_find_next_cluster fs Cluster") (auto simp: cached_next_def)
  then show ?thesis using get_set[OF assms(2,3)] by (simp add: cached_next_def)
qed

definition small_cache :: cluster_cache where
  "small_cache = fatfs_cache_init \<lparr>cluster_cache_idx = [1, 2], cluster_cache_data = [3, 4]\<rparr>"

lemma small_cache_right: "cache_right small_cache cs"
  unfolding small_cache_def by (rule init_right) simp

text \<open>
  C38: The cluster chain cache. As long as its entries agree with the chain of the file, a walk
  along the chain through the cache ends at the cluster a walk through the table ends at,
  whichever steps were answered by the cache, leaves entries that agree with the chain, and
  does not change the table.
\<close>

theorem cached_walk_same:
  assumes "chain_ok fs p cs" "cache_right c cs" "k < length cs" "length cs < 2 ^ 32 - 1"
  shows "\<exists>c' fs' fs''. follow_cached k fs c 0 p = Inr (cs ! k, c', fs') \<and> follow fs p k = Inr (cs ! k, fs'') \<and>
    cache_right c' cs \<and> chain_ok fs' p cs \<and> fat_view fs' = fat_view fs"
  by (rule cached_walk_ok[OF assms])

lemma cached_walk_same_witness:
  "\<exists>c' fs' fs''. follow_cached 2 small_fat small_cache 0 3 = Inr (4, c', fs') \<and> follow small_fat 3 2 = Inr (4, fs'')"
proof -
  have "chain_ok small_fat 3 [3, 5, 4]" using small_handle_ok[of 0] by (simp add: handle_ok_def small_file_def)
  from cached_walk_same[OF this small_cache_right, of 2] show ?thesis by auto
qed

end
