(* ===== verification/FatTime.thy ===== *)
theory FatTime
  imports FatMisc "HOL-Library.Signed_Division"
begin

text \<open>
  The time stamps of directory entries (\<open>fat_misc.c\<close>, \<open>fat_access.c\<close>), which are compiled in
  when \<open>FATFS_INC_TIME_DATE_SUPPORT\<close> is set: times of day to two seconds and dates from 1980 on, packed
  into 16 bits each.
\<close>

section \<open>Packed times and dates\<close>

definition FAT_TIME_HOURS_SHIFT :: nat where "FAT_TIME_HOURS_SHIFT = 11"
definition FAT_TIME_HOURS_MASK :: int where "FAT_TIME_HOURS_MASK = 0x1F"
definition FAT_TIME_MINUTES_SHIFT :: nat where "FAT_TIME_MINUTES_SHIFT = 5"
definition FAT_TIME_MINUTES_MASK :: int where "FAT_TIME_MINUTES_MASK = 0x3F"
definition FAT_TIME_SECONDS_SHIFT :: nat where "FAT_TIME_SECONDS_SHIFT = 0"
definition FAT_TIME_SECONDS_MASK :: int where "FAT_TIME_SECONDS_MASK = 0x1F"
definition FAT_TIME_SECONDS_SCALE :: int where "FAT_TIME_SECONDS_SCALE = 2"
definition FAT_DATE_YEAR_SHIFT :: nat where "FAT_DATE_YEAR_SHIFT = 9"
definition FAT_DATE_YEAR_MASK :: int where "FAT_DATE_YEAR_MASK = 0x7F"
definition FAT_DATE_MONTH_SHIFT :: nat where "FAT_DATE_MONTH_SHIFT = 5"
definition FAT_DATE_MONTH_MASK :: int where "FAT_DATE_MONTH_MASK = 0xF"
definition FAT_DATE_DAY_SHIFT :: nat where "FAT_DATE_DAY_SHIFT = 0"
definition FAT_DATE_DAY_MASK :: int where "FAT_DATE_DAY_MASK = 0x1F"
definition FAT_DATE_YEAR_OFFSET :: int where "FAT_DATE_YEAR_OFFSET = 1980"

lemmas fat_time_consts = FAT_TIME_HOURS_SHIFT_def FAT_TIME_HOURS_MASK_def FAT_TIME_MINUTES_SHIFT_def
  FAT_TIME_MINUTES_MASK_def FAT_TIME_SECONDS_SHIFT_def FAT_TIME_SECONDS_MASK_def FAT_TIME_SECONDS_SCALE_def
  FAT_DATE_YEAR_SHIFT_def FAT_DATE_YEAR_MASK_def FAT_DATE_MONTH_SHIFT_def FAT_DATE_MONTH_MASK_def
  FAT_DATE_DAY_SHIFT_def FAT_DATE_DAY_MASK_def FAT_DATE_YEAR_OFFSET_def

text \<open>Hours, minutes and seconds.\<close>

definition fatfs_convert_from_fat_time :: "u16 \<Rightarrow> int \<times> int \<times> int" where
  "fatfs_convert_from_fat_time fat_time =
     (drop_bit FAT_TIME_HOURS_SHIFT (uint fat_time) AND FAT_TIME_HOURS_MASK,
      drop_bit FAT_TIME_MINUTES_SHIFT (uint fat_time) AND FAT_TIME_MINUTES_MASK,
      (drop_bit FAT_TIME_SECONDS_SHIFT (uint fat_time) AND FAT_TIME_SECONDS_MASK) * FAT_TIME_SECONDS_SCALE)"

text \<open>Day, month and year.\<close>

definition fatfs_convert_from_fat_date :: "u16 \<Rightarrow> int \<times> int \<times> int" where
  "fatfs_convert_from_fat_date fat_date =
     (drop_bit FAT_DATE_DAY_SHIFT (uint fat_date) AND FAT_DATE_DAY_MASK,
      drop_bit FAT_DATE_MONTH_SHIFT (uint fat_date) AND FAT_DATE_MONTH_MASK,
      (drop_bit FAT_DATE_YEAR_SHIFT (uint fat_date) AND FAT_DATE_YEAR_MASK) + FAT_DATE_YEAR_OFFSET)"

definition fatfs_convert_to_fat_time :: "int \<Rightarrow> int \<Rightarrow> int \<Rightarrow> u16" where
  "fatfs_convert_to_fat_time hours minutes seconds =
     (let seconds = seconds sdiv FAT_TIME_SECONDS_SCALE
      in word_of_int (push_bit FAT_TIME_HOURS_SHIFT (hours AND FAT_TIME_HOURS_MASK)) OR
         word_of_int (push_bit FAT_TIME_MINUTES_SHIFT (minutes AND FAT_TIME_MINUTES_MASK)) OR
         word_of_int (push_bit FAT_TIME_SECONDS_SHIFT (seconds AND FAT_TIME_SECONDS_MASK)))"

definition fatfs_convert_to_fat_date :: "int \<Rightarrow> int \<Rightarrow> int \<Rightarrow> u16" where
  "fatfs_convert_to_fat_date day month year =
     (let year = (if FAT_DATE_YEAR_OFFSET \<le> year then year - FAT_DATE_YEAR_OFFSET else year)
      in word_of_int (push_bit FAT_DATE_DAY_SHIFT (day AND FAT_DATE_DAY_MASK)) OR
         word_of_int (push_bit FAT_DATE_MONTH_SHIFT (month AND FAT_DATE_MONTH_MASK)) OR
         word_of_int (push_bit FAT_DATE_YEAR_SHIFT (year AND FAT_DATE_YEAR_MASK)))"

section \<open>Three fields in a word\<close>

lemma mask_int:
  "x AND 0xF = take_bit 4 x" "x AND 0x1F = take_bit 5 x" "x AND 0x3F = take_bit 6 x" "x AND 0x7F = take_bit 7 x" for x :: int
  by (simp_all add: take_bit_eq_mask mask_eq_exp_minus_1)

text \<open>A word of fields of \<open>a\<close>, \<open>b\<close> and \<open>c\<close> bits, the lowest one first.\<close>

lemma fields_read:
  fixes x y z :: int
  assumes "a + b + c = 16"
  defines "w \<equiv> (word_of_int (take_bit a x) OR word_of_int (push_bit a (take_bit b y)) OR
    word_of_int (push_bit (a + b) (take_bit c z)) :: u16)"
  shows "take_bit a (uint w) = take_bit a x" "take_bit b (drop_bit a (uint w)) = take_bit b y"
    "take_bit c (drop_bit (a + b) (uint w)) = take_bit c z"
  by (rule bit_eqI; use assms(1) in \<open>auto simp: w_def bit_simps\<close>)+

lemma fields_written:
  fixes w :: u16
  assumes "a + b + c = 16"
  shows "(word_of_int (take_bit a (uint w)) OR word_of_int (push_bit a (take_bit b (drop_bit a (uint w)))) OR
    word_of_int (push_bit (a + b) (take_bit c (drop_bit (a + b) (uint w)))) :: u16) = w"
proof (rule bit_word_eqI)
  fix n assume n: "n < LENGTH(16)"
  consider "n < a" | "a \<le> n" "n < a + b" | "a + b \<le> n" by linarith
  then show "bit (word_of_int (take_bit a (uint w)) OR word_of_int (push_bit a (take_bit b (drop_bit a (uint w)))) OR
    word_of_int (push_bit (a + b) (take_bit c (drop_bit (a + b) (uint w)))) :: u16) n = bit w n"
    by cases (use assms n in \<open>auto simp: bit_simps\<close>)
qed

lemma time_fields:
  "fatfs_convert_to_fat_time h m s = word_of_int (take_bit 5 (s sdiv 2)) OR
     word_of_int (push_bit 5 (take_bit 6 m)) OR word_of_int (push_bit (5 + 6) (take_bit 5 h))"
  by (simp add: fatfs_convert_to_fat_time_def fat_time_consts mask_int ac_simps)

lemma date_fields:
  "fatfs_convert_to_fat_date d m y = word_of_int (take_bit 5 d) OR word_of_int (push_bit 5 (take_bit 4 m)) OR
     word_of_int (push_bit (5 + 4) (take_bit 7 (if 1980 \<le> y then y - 1980 else y)))"
  by (simp add: fatfs_convert_to_fat_date_def fat_time_consts mask_int)

lemma from_time_fields:
  "fatfs_convert_from_fat_time t =
     (take_bit 5 (drop_bit (5 + 6) (uint t)), take_bit 6 (drop_bit 5 (uint t)), take_bit 5 (uint t) * 2)"
  by (simp add: fatfs_convert_from_fat_time_def fat_time_consts mask_int)

lemma from_date_fields:
  "fatfs_convert_from_fat_date t =
     (take_bit 5 (uint t), take_bit 4 (drop_bit 5 (uint t)), take_bit 7 (drop_bit (5 + 4) (uint t)) + 1980)"
  by (simp add: fatfs_convert_from_fat_date_def fat_time_consts mask_int)

lemma time_from_to:
  "fatfs_convert_from_fat_time (fatfs_convert_to_fat_time h m s) = (take_bit 5 h, take_bit 6 m, take_bit 5 (s sdiv 2) * 2)"
proof -
  have e: "5 + 6 + 5 = (16 :: nat)" by simp
  show ?thesis unfolding from_time_fields time_fields fields_read[OF e] ..
qed

lemma date_from_to:
  "fatfs_convert_from_fat_date (fatfs_convert_to_fat_date d m y) =
     (take_bit 5 d, take_bit 4 m, take_bit 7 (if 1980 \<le> y then y - 1980 else y) + 1980)"
proof -
  have e: "5 + 4 + 7 = (16 :: nat)" by simp
  show ?thesis unfolding from_date_fields date_fields fields_read[OF e] ..
qed

lemma halved: "0 \<le> x \<Longrightarrow> x sdiv 2 = x div 2" for x :: int
  by (auto simp: signed_divide_int_def sgn_if)

lemma time_to_from: "(case fatfs_convert_from_fat_time t of (h, m, s) \<Rightarrow> fatfs_convert_to_fat_time h m s) = t"
proof -
  have h: "(take_bit 5 x * 2) sdiv 2 = take_bit 5 x" for x :: int by (simp add: halved)
  show ?thesis
    unfolding from_time_fields time_fields prod.case h take_bit_take_bit min.idem
    by (rule fields_written) simp
qed

lemma date_to_from: "(case fatfs_convert_from_fat_date t of (d, m, y) \<Rightarrow> fatfs_convert_to_fat_date d m y) = t"
proof -
  have y: "(if 1980 \<le> take_bit 7 x + 1980 then take_bit 7 x + 1980 - 1980 else take_bit 7 x + 1980) = take_bit 7 x" for x :: int
    by simp
  show ?thesis
    unfolding from_date_fields date_fields prod.case y take_bit_take_bit min.idem
    by (rule fields_written) simp
qed

lemma time_read_back:
  assumes "0 \<le> h" "h < 24" "0 \<le> m" "m < 60" "0 \<le> s" "s < 60"
  shows "fatfs_convert_from_fat_time (fatfs_convert_to_fat_time h m s) = (h, m, s - s mod 2)"
proof -
  have "s sdiv 2 = s div 2" using assms(5) by (rule halved)
  moreover have "s div 2 * 2 = s - s mod 2" by (simp add: minus_mod_eq_div_mult)
  ultimately show ?thesis unfolding time_from_to using assms by (simp add: take_bit_int_eq_self)
qed

lemma date_read_back:
  assumes "1 \<le> d" "d \<le> 31" "1 \<le> m" "m \<le> 12" "1980 \<le> y" "y < 2108"
  shows "fatfs_convert_from_fat_date (fatfs_convert_to_fat_date d m y) = (d, m, y)"
  unfolding date_from_to using assms by (simp add: take_bit_int_eq_self)

section \<open>The stamps of an entry\<close>

text \<open>What \<open>localtime\<close> answers.\<close>

record tm =
  tm_hour :: int
  tm_min :: int
  tm_sec :: int
  tm_mday :: int
  tm_mon :: int
  tm_year :: int

text \<open>
  The date of the last access is stored over the time put there first; the entry has no field
  for a time of access.
\<close>

definition fatfs_update_timestamps :: "tm \<Rightarrow> fat_dir_entry \<Rightarrow> bool \<Rightarrow> bool \<Rightarrow> bool \<Rightarrow> fat_dir_entry" where
  "fatfs_update_timestamps time_info e create modify access =
     (let fat_time = fatfs_convert_to_fat_time (tm_hour time_info) (tm_min time_info) (tm_sec time_info);
          fat_date = fatfs_convert_to_fat_date (tm_mday time_info) (tm_mon time_info + 1) (tm_year time_info + 1900);
          e = (if create then e\<lparr>de_CrtTime := cpu_to_le16 fat_time, de_CrtDate := cpu_to_le16 fat_date\<rparr> else e);
          e = (if modify then e\<lparr>de_WrtTime := cpu_to_le16 fat_time, de_WrtDate := cpu_to_le16 fat_date\<rparr> else e)
      in if access then e\<lparr>de_LstAccDate := cpu_to_le16 fat_date\<rparr> else e)"


lemma stamped_fields:
  "le16_to_cpu (de_WrtTime (fatfs_update_timestamps t e c True a)) = fatfs_convert_to_fat_time (tm_hour t) (tm_min t) (tm_sec t)"
  "le16_to_cpu (de_WrtDate (fatfs_update_timestamps t e c True a)) =
     fatfs_convert_to_fat_date (tm_mday t) (tm_mon t + 1) (tm_year t + 1900)"
  "le16_to_cpu (de_CrtTime (fatfs_update_timestamps t e True m a)) = fatfs_convert_to_fat_time (tm_hour t) (tm_min t) (tm_sec t)"
  "le16_to_cpu (de_CrtDate (fatfs_update_timestamps t e True m a)) =
     fatfs_convert_to_fat_date (tm_mday t) (tm_mon t + 1) (tm_year t + 1900)"
  "le16_to_cpu (de_LstAccDate (fatfs_update_timestamps t e c m True)) =
     fatfs_convert_to_fat_date (tm_mday t) (tm_mon t + 1) (tm_year t + 1900)"
  by (simp_all add: fatfs_update_timestamps_def Let_def)

text \<open>
  What \<open>fatfs_update_timestamps\<close> packs into an entry for a time between 1980
  and 2107 is read back as the same date and as the same time of day, but for the odd second;
  and every packed time and date, in range or not, is what its hours, minutes and seconds, or
  day, month and year, are packed into again.
\<close>

lemma stamps_read_back:
  assumes "0 \<le> tm_hour t" "tm_hour t < 24" "0 \<le> tm_min t" "tm_min t < 60" "0 \<le> tm_sec t" "tm_sec t < 60"
    and "1 \<le> tm_mday t" "tm_mday t \<le> 31" "0 \<le> tm_mon t" "tm_mon t < 12" "80 \<le> tm_year t" "tm_year t < 208"
    and e': "e' = fatfs_update_timestamps t e create True access"
  shows "fatfs_convert_from_fat_time (le16_to_cpu (de_WrtTime e')) = (tm_hour t, tm_min t, tm_sec t - tm_sec t mod 2) \<and>
    fatfs_convert_from_fat_date (le16_to_cpu (de_WrtDate e')) = (tm_mday t, tm_mon t + 1, tm_year t + 1900) \<and>
    (case fatfs_convert_from_fat_time w of (h, m, s) \<Rightarrow> fatfs_convert_to_fat_time h m s) = w \<and>
    (case fatfs_convert_from_fat_date w of (d, m, y) \<Rightarrow> fatfs_convert_to_fat_date d m y) = w"
  unfolding e' stamped_fields using assms(1-12)
  by (intro conjI time_to_from date_to_from time_read_back date_read_back) simp_all

end
