(* ===== verification/Log.thy ===== *)
theory Log
  imports Prelude
begin

text \<open>
  The messages of libexfat (\<open>log.c\<close>). A message is the text \<open>vfprintf\<close> makes of its format and
  arguments; what \<open>isatty\<close> says of the standard error is part of the state, which collects what
  has been written there and sent to the system log.
\<close>

datatype log_priority = LOG_CRIT | LOG_ERR | LOG_WARNING

record log_state =
  exfat_errors :: int
  lg_stderr :: string
  lg_syslog :: "(log_priority \<times> string) list"
  lg_tty :: bool

text \<open>The common part: the line on the standard error, and the copy for the system log.\<close>

definition put_line :: "string \<Rightarrow> string \<Rightarrow> log_state \<Rightarrow> log_state" where
  "put_line prefix msg lg = lg\<lparr>lg_stderr := lg_stderr lg @ prefix @ msg @ ''.'' @ [CHR 0x0A]\<rparr>"

definition send_syslog :: "log_priority \<Rightarrow> string \<Rightarrow> log_state \<Rightarrow> log_state" where
  "send_syslog prio msg lg = (if lg_tty lg then lg else lg\<lparr>lg_syslog := lg_syslog lg @ [(prio, msg)]\<rparr>)"

text \<open>\<open>exfat_bug\<close> ends the program; the counter of errors is an \<open>int\<close> and must not overflow.\<close>

definition exfat_bug :: "string \<Rightarrow> log_state \<Rightarrow> fault option \<times> log_state" where
  "exfat_bug msg lg = (Some Abort, send_syslog LOG_CRIT msg (put_line ''BUG: '' msg lg))"

definition exfat_error :: "string \<Rightarrow> log_state \<Rightarrow> fault option \<times> log_state" where
  "exfat_error msg lg =
     (if exfat_errors lg = 2 ^ 31 - 1 then (Some Undef, lg)
      else (None, send_syslog LOG_ERR msg (put_line ''ERROR: '' msg (lg\<lparr>exfat_errors := exfat_errors lg + 1\<rparr>))))"

definition exfat_warn :: "string \<Rightarrow> log_state \<Rightarrow> fault option \<times> log_state" where
  "exfat_warn msg lg = (None, send_syslog LOG_WARNING msg (put_line ''WARN: '' msg lg))"

definition exfat_debug :: "string \<Rightarrow> log_state \<Rightarrow> fault option \<times> log_state" where
  "exfat_debug msg lg = (None, put_line ''DEBUG: '' msg lg)"

section \<open>A run of messages\<close>

datatype log_call = Bug string | Error string | Warn string | Debug string

primrec log_one :: "log_call \<Rightarrow> log_state \<Rightarrow> fault option \<times> log_state" where
  "log_one (Bug msg) = exfat_bug msg"
| "log_one (Error msg) = exfat_error msg"
| "log_one (Warn msg) = exfat_warn msg"
| "log_one (Debug msg) = exfat_debug msg"

primrec log_all :: "log_call list \<Rightarrow> log_state \<Rightarrow> fault option \<times> log_state" where
  "log_all [] lg = (None, lg)"
| "log_all (c # cs) lg = (case log_one c lg of (Some e, lg) \<Rightarrow> (Some e, lg) | (None, lg) \<Rightarrow> log_all cs lg)"

fun is_error :: "log_call \<Rightarrow> bool" where
  "is_error (Error msg) = True"
| "is_error _ = False"

fun line_of :: "log_call \<Rightarrow> string" where
  "line_of (Bug msg) = ''BUG: '' @ msg @ ''.'' @ [CHR 0x0A]"
| "line_of (Error msg) = ''ERROR: '' @ msg @ ''.'' @ [CHR 0x0A]"
| "line_of (Warn msg) = ''WARN: '' @ msg @ ''.'' @ [CHR 0x0A]"
| "line_of (Debug msg) = ''DEBUG: '' @ msg @ ''.'' @ [CHR 0x0A]"

text \<open>A run that is not cut short has counted its errors and written its lines in order.\<close>

lemma log_all_counts:
  assumes "log_all cs lg = (None, lg')"
  shows "exfat_errors lg' = exfat_errors lg + int (length [c \<leftarrow> cs. is_error c]) \<and>
    lg_stderr lg' = lg_stderr lg @ concat (map line_of cs) \<and> (lg_tty lg \<longrightarrow> lg_syslog lg' = lg_syslog lg)"
  using assms
proof (induction cs arbitrary: lg)
  case (Cons c cs)
  obtain l1 where l1: "log_one c lg = (None, l1)" "log_all cs l1 = (None, lg')"
    using Cons.prems by (auto split: prod.splits option.splits)
  have "exfat_errors l1 = exfat_errors lg + (if is_error c then 1 else 0) \<and>
      lg_stderr l1 = lg_stderr lg @ line_of c \<and> lg_tty l1 = lg_tty lg \<and> (lg_tty lg \<longrightarrow> lg_syslog l1 = lg_syslog lg)"
    using l1(1) by (cases c) (auto simp: exfat_bug_def exfat_error_def exfat_warn_def exfat_debug_def put_line_def
        send_syslog_def split: if_splits)
  then show ?case using Cons.IH[OF l1(2)] by auto
qed simp

text \<open>Only a call of \<open>exfat_bug\<close> aborts, and nothing is written after its line.\<close>

lemma log_all_aborts:
  assumes "log_all cs lg = (Some Abort, lg')"
  shows "\<exists>xs msg ys. cs = xs @ Bug msg # ys \<and> lg_stderr lg' = lg_stderr lg @ concat (map line_of xs) @ line_of (Bug msg)"
  using assms
proof (induction cs arbitrary: lg)
  case (Cons c cs)
  show ?case
  proof (cases "log_one c lg")
    case (Pair r l1)
    show ?thesis
    proof (cases r)
      case None
      then have "log_all [c] lg = (None, l1)" "log_all cs l1 = (Some Abort, lg')" using Cons.prems Pair by simp_all
      moreover from this obtain xs msg ys where "cs = xs @ Bug msg # ys"
        "lg_stderr lg' = lg_stderr l1 @ concat (map line_of xs) @ line_of (Bug msg)" using Cons.IH by blast
      ultimately show ?thesis
        using log_all_counts[of "[c]" lg l1] by (intro exI[of _ "c # xs"] exI[of _ msg] exI[of _ ys]) simp
    next
      case (Some e)
      then obtain msg where "c = Bug msg" "lg' = l1"
        using Cons.prems Pair by (cases c) (auto simp: exfat_error_def exfat_warn_def exfat_debug_def split: if_splits)
      then show ?thesis using Pair
        by (intro exI[of _ "[]"] exI[of _ msg] exI[of _ cs])
          (auto simp: exfat_bug_def put_line_def send_syslog_def split: if_splits)
    qed
  qed
qed simp

end
