(* ===== verification/Spec2Isabelle.thy ===== *)
theory Spec2Isabelle
  imports Format Sequential EntryProofs CacheProofs Session LinuxProofs WindowsProofs FatCalls FatCache FatTime Log
begin

text \<open>
  A model of vtoydump, the tool that finds the disk and the image file Ventoy booted from, in its
  versions for Linux and for Windows, of libexfat, the exFAT library the Linux tool reads the
  image's location with, and of fat_io_lib, the FAT library the Windows tool copies files with.

  \<^bold>\<open>The program.\<close> \<open>main\<close> (\<open>vtoydump_linux.c\<close>) looks for the block of parameters Ventoy left in an ACPI
  table, an EFI variable or low memory, checks it, finds the disk it names among the
  block devices, and prints the path of the image or the table of its regions on the
  disk. That table is either in physical memory or recomputed by mounting the exFAT
  partition (\<open>lsexfat.c\<close>), looking the file up (\<open>lookup.c\<close>) and reading it once while every
  cluster that is visited is recorded. libexfat mounts a volume (\<open>mount.c\<close>), keeps a tree of
  nodes read from directory entries (\<open>node.c\<close>), follows and changes cluster chains
  (\<open>cluster.c\<close>) and reads and writes a device (\<open>io.c\<close>); \<open>utils.c\<close>, \<open>utf.c\<close>, \<open>time.c\<close> and \<open>repair.c\<close>
  serve them and \<open>log.c\<close> counts and prints their complaints. The tool for Windows (\<open>vtoydump_windows.c\<close>) finds the same block, then the drive that
  has the image, and mounts it, by the virtual disk service or by imdisk, whose files it copies
  from the second partition of the disk. fat_io_lib mounts such a partition (\<open>fat_access.c\<close>), keeps
  a few sectors of the table in write-back buffers and follows and changes chains (\<open>fat_table.c\<close>),
  searches and extends directories (\<open>fat_access.c\<close>, \<open>fat_write.c\<close>, \<open>fat_misc.c\<close>, \<open>fat_string.c\<close>),
  offers files through a fixed number of handles in two linked lists (\<open>fat_filelib.c\<close>,
  \<open>fat_list.h\<close>) and formats volumes (\<open>fat_format.c\<close>).

  \<^bold>\<open>Theories, from the bottom.\<close>
  \<^item> Prelude: byte buffers written in place, little-endian integers, outcomes (a fault
    or a result), splitting of strings. A \<open>fault\<close> is \<open>Abort\<close> (\<open>exfat_bug\<close>), \<open>Undef\<close>
    (an access C leaves undefined) or \<open>OutOfFuel\<close>.
  \<^item> Layout: \<open>exfatfs.h\<close>, the super block and the directory entries as bytes.
  \<^item> Log (\<open>log.c\<close>): what each kind of message counts and prints, and that \<open>exfat_bug\<close> aborts.
  \<^item> Checksum (\<open>utils.c\<close>), Utf (\<open>utf.c\<close>), ExTime (\<open>time.c\<close>), Format (sizes and
    file status of \<open>utils.c\<close>): conversions, with their round trips and bounds.
  \<^item> Device (\<open>io.c\<close>: positioned reads and writes; the interface \<open>block_device\<close>), Bitmap
    (the BMAP macros and the search for a clear bit; the interface of a set of flags), Fs
    (\<open>struct exfat\<close> and \<open>struct exfat_node\<close> as records, the heap of nodes as a map from
    pointers).
  \<^item> Cluster (\<open>cluster.c\<close>) and its proofs ClusterProofs (addresses, allocation, counting)
    and Chain (the table as a map of links, the cached pointer into a chain, freeing).
  \<^item> FileIO (\<open>exfat_generic_pread\<close>, \<open>exfat_generic_pwrite\<close>): the refinement of a file to the
    bytes \<open>file_byte\<close> of its chain.
  \<^item> Repair (\<open>repair.c\<close>), Node and Directory (the first half of \<open>node.c\<close>: references, entry
    sets, reading and caching directories, sibling lists), NodeOps (the second half: flushing,
    deleting, creating, renaming, the label), Lookup (\<open>lookup.c\<close>), Mount (\<open>mount.c\<close> and the opening
    of a device).
  \<^item> EntryProofs (which entry sets are accepted; what is written parses back), Siblings (the
    pointers abstracted to a list of children), LookupProofs (searching by name and by path), CacheProofs (caching a directory
    ends and builds the list).
  \<^item> BootRegion (the checksum of the first sectors and its survival), Frame (the locale
    \<open>kept\<close>: a condition closed under the elementary changes of the state, of which writes are at
    or behind the start of the table or of the clusters, is kept by every operation; its extension
    \<open>kept_anywhere\<close> allows writes anywhere), MountProofs (every way \<open>exfat_mount\<close> can end; a concrete volume that mounts),
    Session (sequences of operations as a step relation).
  \<^item> Lsexfat (\<open>lsexfat.c\<close>), OsParam (\<open>vtoydump.h\<close>) and VtoyLinux (\<open>vtoydump_linux.c\<close>) with
    LinuxProofs (which blocks are accepted and found, which disk is picked, what is printed). What the
    calls of \<open>debug\<close> in a function \<open>f\<close> print on standard output with -v is the definition \<open>f_debug\<close>.
  \<^item> Sequential: the operations of \<open>io.c\<close> at the position of the descriptor.
  \<^item> Demo: a small volume the concrete instances use.
  \<^item> FatDisk (the structures of a volume, media and sectors), FatTable (\<open>fat_table.c\<close>), FatString
    (\<open>fat_string.c\<close>), FatMisc (\<open>fat_misc.c\<close>), FatAccess (\<open>fat_access.c\<close>), FatWrite (\<open>fat_write.c\<close>),
    FatList (\<open>fat_list.h\<close> on pointers, with the lists they stand for), FatFile (\<open>fat_filelib.c\<close>),
    FatFormat (\<open>fat_format.c\<close>), FatTime (the time stamps of \<open>fat_misc.c\<close> and
    \<open>fatfs_update_timestamps\<close>), FatCache (\<open>fat_cache.c\<close> and the walks along a chain that go through
    the cache): the FAT library.
  \<^item> FatView (the table as the buffers and the media together show it; the invariant of the
    buffers), FatLinks (entries and links), FatChain (chains: following, freeing, appending,
    purging), FatTableProps (sequences of table operations refine a plain table), FatVolume
    (formatting and mounting again), FatContents (\<open>fl_fread\<close> and the bytes of a chain), FatStore (\<open>fl_fwrite\<close>
    and \<open>fl_fflush\<close> on the bytes of a chain), FatSearch (directories as lists of entries), FatNames
    (the entries a long name is written to, read back), FatCreate (a name entered into a directory,
    from the search for free entries to finding it again), FatListing (\<open>fl_listdirectory\<close> and the
    entries it shows), FatHandles (the lists of handles through each call that uses them), FatCalls
    (sequences of calls as an inductive predicate, and the handles in them): what is proved of it.
  \<^item> VtoyWindows (\<open>vtoydump_windows.c\<close>, with the Windows API as fields of a record) and WindowsProofs
    (the drive found, the letter chosen, the copied file).

  \<^bold>\<open>Correspondence.\<close> A definition has the name of the C function it models; a loop inside a
  function is a definition of its own (\<open>grow_loop\<close> in \<open>grow_file\<close>), and so is a case of a long
  \<open>switch\<close>. State is passed and returned explicitly: functions that change \<open>struct exfat\<close> take
  and return the record, nodes live in \<open>ef_nodes\<close>, a pointer is its number, and a freed node
  is no longer in the map, so that an access to it is \<open>Undef\<close>. Fixed-width integers are words;
  the counters the code keeps in \<open>int\<close> or \<open>off_t\<close> and that stay small are \<open>int\<close>. Return codes are
  the datatype \<open>retcode\<close>. What the operating system answers (files, memory, the clock, what is
  typed at a prompt, the contents of uninitialised memory) is part of the state or an argument.

  \<^bold>\<open>Loops and fuel.\<close> Loops over the device or a buffer are structural or have a measure. The walk of
  a directory is bounded by its size divided by 32, since every turn reads one entry further;
  walks along sibling lists and up the tree by the number of nodes ever allocated
  (\<open>ef_next_ptr\<close>); chains of clusters by the length the caller asks for. In the FAT library a walk
  along a chain is bounded by the number of entries of the table (\<open>fat_entries\<close>), a walk over a
  directory by the sectors such a chain or the fixed root directory can have (\<open>dir_fuel\<close>), a
  listing by sixteen entries for each of these, reading and writing by the number of bytes. A chain that runs in circles, on which the code does not
  end, runs out. The wait for a new drive letter takes the number of polls as an argument.
  Running out is \<open>OutOfFuel\<close>, and the properties that give a result show that it does not happen.

  \<^bold>\<open>What is proved.\<close> The main line of the tool: the recorded regions are where the bytes of the
  file are (\<open>Lsexfat\<close>), on a volume in the state that mounting establishes (\<open>MountProofs\<close>);
  reading and writing refine the abstract contents (\<open>FileIO\<close>); lookup finds the file that is
  named (\<open>LookupProofs\<close>); caching a directory ends and, when it fails, leaves the nodes that were
  there before (\<open>CacheProofs\<close>); a volume mounted read-only is never written, whatever is done with
  it, and on any other nothing in front of the table and the clusters is, so that the boot region
  stays valid (\<open>Session\<close>); boot and entry checksums detect changes and survive updates; chains, bitmap and
  sibling lists keep their invariants; conversions are inverse to each other within bounds.
  For the FAT library: whatever is buffered and dirty, the table behaves as a plain table
  (\<open>FatTableProps\<close>), a file is read as the bytes of its chain (\<open>FatContents\<close>), \<open>fl_fwrite\<close> and
  \<open>fl_fflush\<close> replace exactly the bytes written, while \<open>fl_fseek\<close> forgets what was not flushed
  (\<open>FatStore\<close>), a directory is searched as the list of its entries (\<open>FatSearch\<close>), a name that is
  entered is put over entries that belong to no file, leaves the others alone and is found again
  (\<open>FatCreate\<close>), a listing
  ends and shows the visible entries in order (\<open>FatListing\<close>), walks through the cache of clusters
  agree with the table (\<open>FatCache\<close>), whatever is called, the handles are shared out between the
  open and the free ones and no two open ones have the same path and name, compared as strings,
  so that a file can be open twice under two spellings of its path (\<open>FatCalls\<close>), and what is formatted can be mounted (\<open>FatVolume\<close>). For the Windows tool
  these compose: a copied file has the bytes the disk holds in its clusters (\<open>WindowsProofs\<close>).

  \<^bold>\<open>Not modelled.\<close> \<open>exfat_free\<close> and \<open>exfat_tzset\<close> (they release memory, or are a library call); the
  calls of the message functions inside other components, which change nothing but what is printed
  on the standard error and the count \<open>exfat_errors\<close>, which the tools never read; what the Linux
  tool prints on the standard error; the debug output of the Windows tool; what only prints (\<open>fatfs_show_details\<close>,
  \<open>fatfs_print_sector\<close>); what the build compiles out: ublio, the locks of the FAT library, the stubs
  for old Windows versions and \<open>GetPhyDiskInfo\<close>. (The cluster cache and the time stamps of the FAT
  library are compiled out as well, but modelled, in theories of their own.) The Windows API and
  the conversion of paths to UTF-16 are not defined here: their answers are fields of the record
  \<open>windows\<close>.
\<close>

end
